(* ===== verification/Prelude.thy ===== *)
theory Prelude
  imports Main "HOL-Library.Char_ord" "HOL-Library.List_Lexorder" "HOL-Library.Countable"
begin

section \<open>Prelude: errors, time, documents, tables\<close>

text \<open>
  Shared vocabulary of the development.
  \<^item> \<open>exn\<close>: the exceptions the Python code raises, one constructor per exception class.
    A call returns \<open>exn + 'a\<close>; a method that mutates an object returns the pair of that
    result and the new object, so that a mutation made before a \<open>raise\<close> is visible.
  \<^item> \<open>time\<close>, \<open>duration\<close>: timezone-aware datetimes and timedeltas as microseconds
    (\<open>int\<close>). Naive datetimes have no representation, so \<open>require_aware\<close> never fails.
  \<^item> \<open>rat\<close> stands for \<open>Decimal\<close> and \<open>float\<close>: arithmetic is exact, rounding to the
    28-digit context or to binary doubles is not modelled.
  \<^item> \<open>json\<close> and \<open>canonical_hash\<close>: the documents whose SHA-256 the code uses as
    identifiers. The digest function is a parameter \<open>H\<close> of every definition that hashes.
  \<^item> SQLite tables as lists of rows in rowid order, with \<open>INSERT\<close>, \<open>INSERT OR IGNORE\<close>,
    \<open>UPDATE ... WHERE\<close> and \<open>SELECT ... LIMIT 1\<close>.
\<close>

subsection \<open>Automation\<close>

named_theorems table_simps \<open>rewrite rules for table operations\<close>
named_theorems inv_intros \<open>invariant preservation, one rule per operation\<close>

subsection \<open>Exceptions and results\<close>

datatype exn =
    ValueError string
  | TypeError string
  | KeyError string
  | AssertionError string
  | RuntimeError string
  | PermissionError string
  | ZeroDivisionError
  | IntegrityError
  | ExecutionInvariantError string
  | ReservationRejected string
  | DuplicateLedgerEvent string
  | IllegalOrderTransition string
  | DuplicateOrderEvent string
  | StaleFencingToken string
  | BrokerSubmissionUnknown string
  | IllegalTrialTransition string
  | EvidenceBudgetExceeded string
  | EvidenceIntegrityError string
  | AttributeError string
  | FileExistsError string
  | FileNotFoundError string

type_synonym 'a res = "exn + 'a"
type_synonym time = int
type_synonym duration = int

definition seconds :: "int \<Rightarrow> duration" where
  "seconds n = n * 1000000"

text \<open>Sequencing of calls that may raise: the first exception ends the sequence and keeps
  the state reached so far.\<close>

definition and_then :: "'a res \<times> 's \<Rightarrow> ('a \<Rightarrow> 's \<Rightarrow> 'b res \<times> 's) \<Rightarrow> 'b res \<times> 's" where
  "and_then r f = (case fst r of Inl e \<Rightarrow> (Inl e, snd r) | Inr x \<Rightarrow> f x (snd r))"

text \<open>\<open>with self.connection:\<close> and \<open>try ... commit except: rollback; raise\<close>: an exception
  restores the state the transaction started from.\<close>

definition transaction :: "('s \<Rightarrow> 'a res \<times> 's) \<Rightarrow> 's \<Rightarrow> 'a res \<times> 's" where
  "transaction body s = (case body s of (Inl e, _) \<Rightarrow> (Inl e, s) | (Inr x, t) \<Rightarrow> (Inr x, t))"

definition is_ok :: "'a res \<Rightarrow> bool" where
  "is_ok r = (case r of Inl _ \<Rightarrow> False | Inr _ \<Rightarrow> True)"

lemma and_then_simps [simp]:
  "and_then (Inl e, s) f = (Inl e, s)"
  "and_then (Inr x, s) f = f x s"
  by (simp_all add: and_then_def)

lemma and_then_Inr_iff:
  "and_then r f = (Inr y, t) \<longleftrightarrow> (\<exists>x u. r = (Inr x, u) \<and> f x u = (Inr y, t))"
  by (cases r; cases "fst r") (auto simp: and_then_def)

lemma transaction_error [simp]:
  "transaction body s = (Inl e, t) \<longleftrightarrow> t = s \<and> (\<exists>u. body s = (Inl e, u))"
  by (auto simp: transaction_def split: prod.splits sum.splits)

lemma transaction_ok [simp]:
  "transaction body s = (Inr x, t) \<longleftrightarrow> body s = (Inr x, t)"
  by (auto simp: transaction_def split: prod.splits sum.splits)

lemma is_ok_simps [simp]: "is_ok (Inr x)" "\<not> is_ok (Inl e)"
  by (simp_all add: is_ok_def)

text \<open>A guard that raises unless its condition holds; guards run in order.\<close>

fun checks :: "(bool \<times> exn) list \<Rightarrow> unit res" where
  "checks [] = Inr ()"
| "checks ((b, e) # gs) = (if b then checks gs else Inl e)"

lemma checks_ok [simp]: "checks gs = Inr u \<longleftrightarrow> (\<forall>(b, e) \<in> set gs. b)"
  by (induction gs rule: checks.induct) auto

declare checks.simps [simp del]

lemma checks_Inl: "checks gs = Inl e \<Longrightarrow> \<not> (\<forall>(b, e) \<in> set gs. b)"
  using checks_ok [of gs "()"] by auto

subsection \<open>Documents and their hashes\<close>

datatype json =
    JNull
  | JBool bool
  | JInt int
  | JNum rat
  | JTime int
  | JStr string
  | JArr "json list"
  | JObj "(string \<times> json) list"

instance json :: countable
  by countable_datatype

text \<open>\<open>json.dumps(payload, sort_keys=True)\<close>: the keys of every object in order; the digest of
  the text is \<open>H\<close>.\<close>

fun insert_key :: "string \<times> json \<Rightarrow> (string \<times> json) list \<Rightarrow> (string \<times> json) list" where
  "insert_key kv [] = [kv]"
| "insert_key kv (x # xs) = (if fst kv \<le> fst x then kv # x # xs else x # insert_key kv xs)"

function sort_keys :: "json \<Rightarrow> json" where
  "sort_keys (JObj kvs) = JObj (foldr insert_key (map (\<lambda>(k, v). (k, sort_keys v)) kvs) [])"
| "sort_keys (JArr xs) = JArr (map sort_keys xs)"
| "sort_keys JNull = JNull"
| "sort_keys (JBool b) = JBool b"
| "sort_keys (JInt i) = JInt i"
| "sort_keys (JNum q) = JNum q"
| "sort_keys (JTime t) = JTime t"
| "sort_keys (JStr s) = JStr s"
  by pat_completeness auto
termination
  by (relation "measure size") (auto simp: less_Suc_eq_le intro: size_list_estimation')

definition canonical_hash :: "(json \<Rightarrow> string) \<Rightarrow> json \<Rightarrow> string" where
  "canonical_hash H doc = H (sort_keys doc)"

text \<open>A collision-free digest exists: documents are countable. It instantiates the parameter
  where a property assumes that distinct documents have distinct digests.\<close>

definition unary_digest :: "json \<Rightarrow> string" where
  "unary_digest j = replicate (to_nat j) CHR ''f''"

lemma unary_digest_eq [simp]: "unary_digest a = unary_digest b \<longleftrightarrow> a = b"
proof
  assume "unary_digest a = unary_digest b"
  then have "length (unary_digest a) = length (unary_digest b)" by simp
  then have "to_nat a = to_nat b" by (simp add: unary_digest_def)
  then show "a = b" by simp
qed simp

lemma inj_unary_digest: "inj unary_digest"
  by (simp add: inj_def)

definition opt_json :: "('a \<Rightarrow> json) \<Rightarrow> 'a option \<Rightarrow> json" where
  "opt_json f x = (case x of None \<Rightarrow> JNull | Some v \<Rightarrow> f v)"

subsection \<open>Tables\<close>

text \<open>\<open>SELECT ... WHERE P LIMIT 1\<close> in rowid order is \<open>List.find\<close>; \<open>UPDATE\<close> maps the matching
  rows; \<open>INSERT\<close> appends unless a row violates a uniqueness constraint.\<close>

definition update_where :: "('r \<Rightarrow> bool) \<Rightarrow> ('r \<Rightarrow> 'r) \<Rightarrow> 'r list \<Rightarrow> 'r list" where
  "update_where P f rows = map (\<lambda>r. if P r then f r else r) rows"

definition insert_or_ignore :: "('r \<Rightarrow> 'r \<Rightarrow> bool) \<Rightarrow> 'r \<Rightarrow> 'r list \<Rightarrow> 'r list" where
  "insert_or_ignore clash row rows = (if list_ex (clash row) rows then rows else rows @ [row])"

definition insert_row :: "('r \<Rightarrow> 'r \<Rightarrow> bool) \<Rightarrow> 'r \<Rightarrow> 'r list \<Rightarrow> 'r list res" where
  "insert_row clash row rows = (if list_ex (clash row) rows then Inl IntegrityError else Inr (rows @ [row]))"

text \<open>\<open>INSERT ... ON CONFLICT(key) DO UPDATE\<close> rewrites the row in place;
  \<open>INSERT OR REPLACE\<close> deletes it and appends the new one.\<close>

definition upsert :: "('r \<Rightarrow> 'k) \<Rightarrow> ('r \<Rightarrow> 'r \<Rightarrow> 'r) \<Rightarrow> 'r \<Rightarrow> 'r list \<Rightarrow> 'r list" where
  "upsert key upd row rows =
     (if list_ex (\<lambda>r. key r = key row) rows
      then update_where (\<lambda>r. key r = key row) (\<lambda>r. upd r row) rows else rows @ [row])"

definition insert_or_replace :: "('r \<Rightarrow> 'k) \<Rightarrow> 'r \<Rightarrow> 'r list \<Rightarrow> 'r list" where
  "insert_or_replace key row rows = filter (\<lambda>r. key r \<noteq> key row) rows @ [row]"

lemma set_update_where:
  "set (update_where P f rows) = (\<lambda>r. if P r then f r else r) ` set rows"
  by (simp add: update_where_def)

lemma update_where_Nil [simp]: "update_where P f [] = []"
  by (simp add: update_where_def)

lemma update_where_Cons [simp]:
  "update_where P f (r # rows) = (if P r then f r else r) # update_where P f rows"
  by (simp add: update_where_def)

lemma update_where_append [simp]:
  "update_where P f (xs @ ys) = update_where P f xs @ update_where P f ys"
  by (simp add: update_where_def)

lemma length_update_where [simp]: "length (update_where P f rows) = length rows"
  by (simp add: update_where_def)

text \<open>A column that an update does not write keeps its values, in order.\<close>

lemma map_update_where [table_simps]:
  "(\<And>r. P r \<Longrightarrow> c (f r) = c r) \<Longrightarrow> map c (update_where P f rows) = map c rows"
  by (auto simp: update_where_def)

lemma update_where_none: "(\<And>r. r \<in> set rows \<Longrightarrow> \<not> P r) \<Longrightarrow> update_where P f rows = rows"
  by (induction rows) auto

lemma update_where_all:
  "(\<And>r. P r \<Longrightarrow> Q (f r)) \<Longrightarrow> (\<And>r. \<not> P r \<Longrightarrow> Q r) \<Longrightarrow> \<forall>r \<in> set (update_where P f rows). Q r"
  by (induction rows) auto

lemma list_ex_iff_set: "list_ex P xs \<longleftrightarrow> (\<exists>x \<in> set xs. P x)"
  by (simp add: list_ex_iff)

lemma set_insert_or_ignore:
  "set (insert_or_ignore clash row rows) = set rows \<or>
   set (insert_or_ignore clash row rows) = insert row (set rows)"
  by (simp add: insert_or_ignore_def)

lemma set_insert_or_ignore_subset:
  "set (insert_or_ignore clash row rows) \<subseteq> insert row (set rows)"
  by (auto simp: insert_or_ignore_def)

lemma insert_or_ignore_keeps: "r \<in> set rows \<Longrightarrow> r \<in> set (insert_or_ignore clash row rows)"
  by (simp add: insert_or_ignore_def)

lemma insert_row_Inr_iff [table_simps]:
  "insert_row clash row rows = Inr rows' \<longleftrightarrow> \<not> list_ex (clash row) rows \<and> rows' = rows @ [row]"
  by (auto simp: insert_row_def)

text \<open>A \<open>UNIQUE\<close> column stays unique under an ignoring insert whose clash test covers it.\<close>

lemma distinct_insert_or_ignore:
  assumes "distinct (map c rows)" and "\<And>r. c r = c row \<Longrightarrow> clash row r"
  shows "distinct (map c (insert_or_ignore clash row rows))"
  using assms by (auto simp: insert_or_ignore_def list_ex_iff)

lemma find_Some_set: "List.find P xs = Some x \<Longrightarrow> x \<in> set xs \<and> P x"
  by (auto simp: find_Some_iff)

lemma find_None_set: "List.find P xs = None \<longleftrightarrow> (\<forall>x \<in> set xs. \<not> P x)"
  by (auto simp: find_None_iff)

lemma find_append: "List.find P (xs @ ys) = (case List.find P xs of None \<Rightarrow> List.find P ys | Some x \<Rightarrow> Some x)"
  by (induction xs) auto

lemma find_unique_key:
  assumes "distinct (map key xs)" and "x \<in> set xs"
  shows "List.find (\<lambda>y. key y = key x) xs = Some x"
  using assms by (induction xs) (auto simp: image_iff)

lemma same_key_same_row:
  assumes "distinct (map key xs)" and "x \<in> set xs" and "y \<in> set xs" and "key x = key y"
  shows "x = y"
  using assms by (auto simp: distinct_map dest: inj_onD)

subsection \<open>Dictionaries\<close>

text \<open>\<open>d[k] = v\<close>, \<open>d.pop(k, None)\<close> and \<open>d.get(k)\<close> on rows carrying their key.\<close>

definition put :: "('r \<Rightarrow> string) \<Rightarrow> 'r \<Rightarrow> 'r list \<Rightarrow> 'r list" where
  "put key row rows = upsert key (\<lambda>_ new. new) row rows"

definition drop_key :: "('r \<Rightarrow> string) \<Rightarrow> string \<Rightarrow> 'r list \<Rightarrow> 'r list" where
  "drop_key key k rows = filter (\<lambda>r. key r \<noteq> k) rows"

abbreviation lookup :: "('r \<Rightarrow> string) \<Rightarrow> string \<Rightarrow> 'r list \<Rightarrow> 'r option" where
  "lookup key k rows \<equiv> List.find (\<lambda>r. key r = k) rows"

lemma put_keys [simp]: "key ` set (put key row rows) = insert (key row) (key ` set rows)"
  by (auto simp: put_def upsert_def update_where_def list_ex_iff image_iff)

lemma distinct_put: "distinct (map key rows) \<Longrightarrow> distinct (map key (put key row rows))"
proof (cases "list_ex (\<lambda>r. key r = key row) rows")
  case True
  then have "map key (put key row rows) = map key rows"
    by (auto simp: put_def upsert_def update_where_def)
  then show "distinct (map key rows) \<Longrightarrow> ?thesis" by simp
next
  case False
  then show "distinct (map key rows) \<Longrightarrow> ?thesis" by (auto simp: put_def upsert_def list_ex_iff)
qed

lemma set_put: "r \<in> set (put key row rows) \<Longrightarrow> r = row \<or> r \<in> set rows"
  by (auto simp: put_def upsert_def update_where_def split: if_splits)

lemma lookup_put [simp]:
  "lookup key k (put key row rows) = (if k = key row then Some row else lookup key k rows)"
proof -
  have "lookup key k (update_where (\<lambda>r. key r = key row) (\<lambda>_. row) rows) = lookup key k rows" if "k \<noteq> key row"
    using that by (induction rows) auto
  moreover have "lookup key (key row) (update_where (\<lambda>r. key r = key row) (\<lambda>_. row) rows) = Some row"
    if "list_ex (\<lambda>r. key r = key row) rows"
    using that by (induction rows) auto
  moreover have "lookup key (key row) rows = None" if "\<not> list_ex (\<lambda>r. key r = key row) rows"
    using that by (auto simp: find_None_iff list_ex_iff)
  ultimately show ?thesis by (auto simp: put_def upsert_def find_append split: option.splits)
qed

lemma set_drop_key [simp]: "set (drop_key key k rows) = {r \<in> set rows. key r \<noteq> k}"
  by (simp add: drop_key_def)

lemma distinct_drop_key: "distinct (map key rows) \<Longrightarrow> distinct (map key (drop_key key k rows))"
  by (simp add: drop_key_def distinct_map_filter)

lemma lookup_drop_key [simp]:
  "lookup key j (drop_key key k rows) = (if j = k then None else lookup key j rows)"
  by (induction rows) (auto simp: drop_key_def)

subsection \<open>Sums\<close>

text \<open>\<open>sum(..., Decimal("0"))\<close> over a list.\<close>

abbreviation total_of :: "('r \<Rightarrow> 'n::comm_monoid_add) \<Rightarrow> 'r list \<Rightarrow> 'n" where
  "total_of f xs \<equiv> sum_list (map f xs)"

lemma total_nonneg: "(\<And>x. x \<in> set xs \<Longrightarrow> 0 \<le> f x) \<Longrightarrow> 0 \<le> (total_of f xs :: 'n::ordered_comm_monoid_add)"
  by (induction xs) auto

lemma total_pos:
  assumes "xs \<noteq> []" and "\<And>x. x \<in> set xs \<Longrightarrow> 0 < f x"
  shows "0 < (total_of f xs :: 'n::ordered_comm_monoid_add)"
  using assms by (induction xs rule: induct_list012) (auto intro: add_pos_pos)

lemma total_mono:
  "(\<And>x. x \<in> set xs \<Longrightarrow> f x \<le> g x) \<Longrightarrow> total_of f xs \<le> (total_of g xs :: 'n::ordered_comm_monoid_add)"
  by (induction xs) (auto intro: add_mono)

lemma total_filter_le:
  "(\<And>x. x \<in> set xs \<Longrightarrow> 0 \<le> f x) \<Longrightarrow> total_of f (filter P xs) \<le> (total_of f xs :: 'n::ordered_comm_monoid_add)"
  by (induction xs) (auto intro: add_mono add_increasing)

lemma member_le_total:
  assumes "x \<in> set xs" and "\<And>y. y \<in> set xs \<Longrightarrow> 0 \<le> f y"
  shows "f x \<le> (total_of f xs :: 'n::ordered_comm_monoid_add)"
  using assms
proof (induction xs)
  case (Cons a xs)
  have rest: "0 \<le> total_of f xs" using Cons.prems(2) by (intro total_nonneg) simp
  show ?case
  proof (cases "x = a")
    case True
    then show ?thesis using rest by (simp add: add_increasing2)
  next
    case False
    then have "f x \<le> total_of f xs" using Cons by auto
    then show ?thesis using Cons.prems(2) [of a] by (simp add: add_increasing)
  qed
qed simp

text \<open>\<open>d[k] = d.get(k, 0) + n\<close> on an association list.\<close>

lemma count_upsert:
  "(case map_of (upsert fst (\<lambda>old new. (fst old, snd old + snd new)) (k, n) xs) x of None \<Rightarrow> 0 | Some q \<Rightarrow> q)
     = (case map_of xs x of None \<Rightarrow> 0 | Some q \<Rightarrow> q) + (if x = k then n else (0::int))"
proof (cases "k \<in> fst ` set xs")
  case True
  then have "upsert fst (\<lambda>old new. (fst old, snd old + snd new)) (k, n) xs =
      update_where (\<lambda>r. fst r = k) (\<lambda>r. (fst r, snd r + n)) xs"
    by (auto simp: upsert_def list_ex_iff)
  moreover have "map_of (update_where (\<lambda>r. fst r = k) (\<lambda>r. (fst r, snd r + n)) xs) x =
      (if x = k then map_option (\<lambda>q. q + n) (map_of xs x) else map_of xs x)"
    by (induction xs) auto
  moreover have "map_of xs k \<noteq> None" using True by (simp add: map_of_eq_None_iff)
  ultimately show ?thesis by (auto split: option.splits)
next
  case False
  then have "upsert fst (\<lambda>old new. (fst old, snd old + snd new)) (k, n) xs = xs @ [(k, n)]"
    by (auto simp: upsert_def list_ex_iff)
  moreover have "map_of xs k = None" using False by (simp add: map_of_eq_None_iff)
  ultimately show ?thesis by (auto simp: map_add_def split: option.splits)
qed

subsection \<open>Decimal numerals\<close>

text \<open>\<open>f"fake-{n}"\<close>: the decimal text of a number, and its value.\<close>

fun nat_string :: "nat \<Rightarrow> string" where
  "nat_string n =
     (if n < 10 then [char_of (48 + n)] else nat_string (n div 10) @ [char_of (48 + n mod 10)])"

declare nat_string.simps [simp del]

definition digit_value :: "char \<Rightarrow> nat" where
  "digit_value c = of_char c - 48"

definition string_nat :: "string \<Rightarrow> nat" where
  "string_nat s = foldl (\<lambda>a c. 10 * a + digit_value c) 0 s"

lemma digit_value_char [simp]: "n < 10 \<Longrightarrow> digit_value (char_of (48 + n)) = n"
  by (simp add: digit_value_def)

lemma string_nat_string [simp]: "string_nat (nat_string n) = n"
proof (induction n rule: nat_string.induct)
  case (1 n)
  show ?case
  proof (cases "n < 10")
    case True
    then show ?thesis by (subst nat_string.simps) (simp add: string_nat_def)
  next
    case False
    have "string_nat (nat_string n) = 10 * string_nat (nat_string (n div 10)) + n mod 10"
      using False by (subst nat_string.simps) (simp add: string_nat_def)
    then show ?thesis using 1 False by simp
  qed
qed

lemma nat_string_inject [simp]: "nat_string m = nat_string n \<longleftrightarrow> m = n"
  by (metis string_nat_string)

text \<open>\<open>str(n)\<close> for a signed number.\<close>

definition int_string :: "int \<Rightarrow> string" where
  "int_string i = (if i < 0 then CHR ''-'' # nat_string (nat (- i)) else nat_string (nat i))"

lemma nat_string_digits: "c \<in> set (nat_string n) \<Longrightarrow> (of_char c :: nat) \<in> {48..57}"
proof (induction n rule: nat_string.induct)
  case (1 n)
  show ?case
  proof (cases "n < 10")
    case True
    then have "c = char_of (48 + n)" using 1(2) by (simp add: nat_string.simps [of n])
    then show ?thesis using True by simp
  next
    case False
    then have "c \<in> set (nat_string (n div 10)) \<or> c = char_of (48 + n mod 10)"
      using 1(2) by (auto simp: nat_string.simps [of n])
    moreover have "n mod 10 < 10" by simp
    ultimately show ?thesis using 1(1) [OF False] by force
  qed
qed

lemma int_string_inject [simp]: "int_string i = int_string j \<longleftrightarrow> i = j"
proof -
  have "CHR ''-'' \<notin> set (nat_string n)" for n
    using nat_string_digits [of "CHR ''-''" n] by auto
  then have "CHR ''-'' # s \<noteq> nat_string n" "nat_string n \<noteq> CHR ''-'' # s" for s n
    by (metis list.set_intros(1))+
  then show ?thesis by (auto simp: int_string_def)
qed

subsection \<open>Transition systems\<close>

text \<open>A component that evolves by steps from initial states and keeps an invariant. Each stateful
  component of the development interprets this locale on its own operations; the invariant then
  holds in every reachable state, and along every sequence of operations.\<close>

locale invariant_system =
  fixes init :: "'s \<Rightarrow> bool" and step :: "'op \<Rightarrow> 's \<Rightarrow> 's" and allowed :: "'op \<Rightarrow> 's \<Rightarrow> bool"
    and inv :: "'s \<Rightarrow> bool"
  assumes init_inv: "init s \<Longrightarrow> inv s"
    and step_inv: "inv s \<Longrightarrow> allowed op s \<Longrightarrow> inv (step op s)"
begin

inductive reachable :: "'s \<Rightarrow> bool" where
  start: "init s \<Longrightarrow> reachable s"
| move: "reachable s \<Longrightarrow> allowed op s \<Longrightarrow> reachable (step op s)"

lemma reachable_inv: "reachable s \<Longrightarrow> inv s"
  by (induction rule: reachable.induct) (auto intro: init_inv step_inv)

text \<open>A run is a sequence of operations each allowed where it is performed.\<close>

fun allowed_run :: "'op list \<Rightarrow> 's \<Rightarrow> bool" where
  "allowed_run [] s = True"
| "allowed_run (op # ops) s = (allowed op s \<and> allowed_run ops (step op s))"

lemma run_reachable: "reachable s \<Longrightarrow> allowed_run ops s \<Longrightarrow> reachable (fold step ops s)"
  by (induction ops arbitrary: s) (auto intro: reachable.move)

lemma run_inv: "inv s \<Longrightarrow> allowed_run ops s \<Longrightarrow> inv (fold step ops s)"
  by (induction ops arbitrary: s) (auto intro: step_inv)

end

text \<open>An intake that applies each event at most once: \<open>seen\<close> events are no-ops, and a processed
  event is seen from then on. Delivering a batch again changes nothing.\<close>

locale idempotent_intake =
  fixes take_in :: "'e \<Rightarrow> 's \<Rightarrow> 's" and seen :: "'s \<Rightarrow> 'e \<Rightarrow> bool" and accepts :: "'s \<Rightarrow> 'e \<Rightarrow> bool"
  assumes seen_skip: "seen s e \<Longrightarrow> take_in e s = s"
    and rejected_skip: "\<not> seen s e \<Longrightarrow> \<not> accepts s e \<Longrightarrow> take_in e s = s"
    and accepted_seen: "\<not> seen s e \<Longrightarrow> accepts s e \<Longrightarrow> seen (take_in e s) e"
    and seen_keep: "seen s x \<Longrightarrow> seen (take_in e s) x"
begin

lemma take_in_again: "take_in e (take_in e s) = take_in e s"
  using seen_skip rejected_skip accepted_seen by metis

lemma seen_fold: "seen s x \<Longrightarrow> seen (fold take_in es s) x"
  by (induction es arbitrary: s) (auto intro: seen_keep)

lemma fold_seen: "(\<And>e. e \<in> set es \<Longrightarrow> seen s e) \<Longrightarrow> fold take_in es s = s"
  by (induction es) (auto simp: seen_skip)

lemma duplicate_anywhere:
  assumes "seen s e"
  shows "fold take_in (xs @ e # ys) s = fold take_in (xs @ ys) s"
  using seen_fold [OF assms, of xs] by (simp add: seen_skip)

lemma batch_again:
  assumes "\<And>e. e \<in> set es \<Longrightarrow> seen (fold take_in es s) e"
  shows "fold take_in es (fold take_in es s) = fold take_in es s"
  using assms by (rule fold_seen)

end

end
