(* ===== verification/Domain.thy ===== *)
theory Domain
  imports Prelude
begin

section \<open>Domain enumerations\<close>

text \<open>
  \<open>src/hanalpha/domain/enums.py\<close>: the enumerations every plane shares. Each \<open>StrEnum\<close> is a
  datatype; \<open>side_value\<close> gives the text a member has in JSON.
\<close>

datatype side = BUY | SELL

datatype signal_action = SA_BUY | SA_SELL | SA_HOLD | SA_VETO

datatype order_status =
    OS_PROPOSED | OS_RISK_APPROVED | OS_REJECTED | OS_SUBMITTING | OS_SUBMITTED
  | OS_PARTIALLY_FILLED | OS_FILLED | OS_CANCEL_PENDING | OS_CANCELLED | OS_STALE | OS_ERROR

datatype market_regime = RISK_ON | NEUTRAL | RISK_OFF | UNKNOWN_REGIME

datatype operating_mode =
    RESEARCH | BACKTEST | SHADOW | PAPER_MANUAL | PAPER_AUTO | LIVE_PROPOSAL

definition side_value :: "side \<Rightarrow> string" where
  "side_value s = (case s of BUY \<Rightarrow> ''BUY'' | SELL \<Rightarrow> ''SELL'')"

lemma side_value_eq [simp]: "side_value a = side_value b \<longleftrightarrow> a = b"
  by (cases a; cases b) (simp_all add: side_value_def)

text \<open>A signed quantity: long fills add to a position, sells subtract.\<close>

definition signed_qty :: "side \<Rightarrow> int \<Rightarrow> int" where
  "signed_qty s q = (if s = BUY then q else - q)"

lemma signed_qty_simps [simp]: "signed_qty BUY q = q" "signed_qty SELL q = - q" "signed_qty s 0 = 0"
  by (simp_all add: signed_qty_def)

lemma signed_qty_add: "signed_qty s (a + b) = signed_qty s a + signed_qty s b"
  by (simp add: signed_qty_def)

subsection \<open>Shared field constraints and constants\<close>

text \<open>\<open>HASH_PATTERN\<close>: 64 lower-case hexadecimal digits; and \<open>datetime.min\<close> in UTC, in microseconds
  relative to the epoch.\<close>

definition is_hex_digit :: "char \<Rightarrow> bool" where
  "is_hex_digit c \<longleftrightarrow> c \<in> set ''0123456789abcdef''"

definition hash_pattern :: "string \<Rightarrow> bool" where
  "hash_pattern s \<longleftrightarrow> length s = 64 \<and> list_all is_hex_digit s"

definition datetime_min :: time where
  "datetime_min = - 62135596800 * 1000000"

text \<open>\<open>str.isspace\<close>, \<open>str.strip\<close> and the test \<open>not text.strip()\<close>, on the first 256 code points.\<close>

definition is_space :: "char \<Rightarrow> bool" where
  "is_space c \<longleftrightarrow> of_char c \<in> set ([9, 10, 11, 12, 13, 28, 29, 30, 31, 32, 133, 160] :: nat list)"

definition strip_text :: "string \<Rightarrow> string" where
  "strip_text t = rev (dropWhile is_space (rev (dropWhile is_space t)))"

definition blank_text :: "string \<Rightarrow> bool" where
  "blank_text t = list_all is_space t"

lemma in_dropWhile: "x \<in> set xs \<Longrightarrow> \<not> P x \<Longrightarrow> x \<in> set (dropWhile P xs)"
  by (induction xs) auto

lemma strip_text_blank: "strip_text t = [] \<longleftrightarrow> blank_text t"
proof
  assume blank: "strip_text t = []"
  have "is_space x" if "x \<in> set t" for x
  proof (rule ccontr)
    assume "\<not> is_space x"
    then have "x \<in> set (dropWhile is_space t)" using that by (simp add: in_dropWhile)
    then show False using blank \<open>\<not> is_space x\<close> by (auto simp: strip_text_def)
  qed
  then show "blank_text t" by (simp add: blank_text_def list_all_iff)
next
  assume "blank_text t"
  then have "\<forall>x \<in> set t. is_space x" by (simp add: blank_text_def list_all_iff)
  then have "dropWhile is_space t = []" by simp
  then show "strip_text t = []" by (simp add: strip_text_def del: dropWhile_eq_Nil_conv)
qed

lemma strip_text_idem [simp]: "strip_text (strip_text t) = strip_text t"
proof -
  have keep: "dropWhile P (rev (dropWhile P (rev u))) = rev (dropWhile P (rev u))" if "u = [] \<or> \<not> P (hd u)" for P and u :: string
  proof (cases "rev (dropWhile P (rev u))")
    case (Cons x xs)
    have "u = rev (dropWhile P (rev u)) @ rev (takeWhile P (rev u))"
      by (metis rev_append rev_rev_ident takeWhile_dropWhile_id)
    then have "hd u = x" using Cons by (metis append_Cons list.sel(1))
    then have "\<not> P x" using that Cons by auto
    then show ?thesis by (simp add: Cons)
  next
    case Nil
    show ?thesis unfolding Nil by simp
  qed
  have "dropWhile is_space t = [] \<or> \<not> is_space (hd (dropWhile is_space t))" by (metis hd_dropWhile)
  then show ?thesis unfolding strip_text_def by (simp add: keep dropWhile_idem)
qed

text \<open>\<open>str.upper\<close> on ASCII letters.\<close>

definition upper_char :: "char \<Rightarrow> char" where
  "upper_char c = (if CHR ''a'' \<le> c \<and> c \<le> CHR ''z'' then char_of (of_char c - 32 :: nat) else c)"

abbreviation upper_text :: "string \<Rightarrow> string" where
  "upper_text t \<equiv> map upper_char t"

end
