(* ===== verification/Ctl_Models.thy ===== *)
theory Ctl_Models
  imports Domain
begin

section \<open>Control-plane models\<close>

text \<open>
  \<open>src/hanalpha/execution/control_models.py\<close>: the frozen documents of the execution control
  plane as records, their validators as bool-valued functions (the amounts apart from the digest
  patterns, because only the amounts matter to the operations), and the JSON documents whose
  digests serve as identifiers. Construction of a document with a digest as identifier does not
  re-check the 64-hex-digit pattern: every SHA-256 hex digest matches it.
\<close>

datatype reservation_status =
    RS_ACTIVE | RS_PARTIALLY_CONSUMED | RS_CONSUMED | RS_RELEASED | RS_EXPIRED
  | RS_RECONCILIATION_HOLD

datatype execution_status =
    XS_PROPOSED | XS_RISK_RESERVED | XS_APPROVAL_PENDING | XS_APPROVED | XS_OUTBOXED
  | XS_SUBMITTING | XS_SUBMISSION_UNKNOWN | XS_ACKNOWLEDGED | XS_PARTIALLY_FILLED | XS_FILLED
  | XS_CANCEL_REQUESTED | XS_CANCEL_UNKNOWN | XS_CANCELLED | XS_REJECTED | XS_EXPIRED
  | XS_RECONCILIATION_REQUIRED

datatype outbox_status = OB_PENDING | OB_CLAIMED | OB_DELIVERED | OB_UNKNOWN

datatype broker_event_type =
    ET_ACKNOWLEDGED | ET_PARTIAL_FILL | ET_FILL | ET_CANCELLED | ET_REJECTED | ET_COMMISSION

fun reservation_status_value :: "reservation_status \<Rightarrow> string" where
  "reservation_status_value RS_ACTIVE = ''ACTIVE''"
| "reservation_status_value RS_PARTIALLY_CONSUMED = ''PARTIALLY_CONSUMED''"
| "reservation_status_value RS_CONSUMED = ''CONSUMED''"
| "reservation_status_value RS_RELEASED = ''RELEASED''"
| "reservation_status_value RS_EXPIRED = ''EXPIRED''"
| "reservation_status_value RS_RECONCILIATION_HOLD = ''RECONCILIATION_HOLD''"

fun execution_status_value :: "execution_status \<Rightarrow> string" where
  "execution_status_value XS_PROPOSED = ''PROPOSED''"
| "execution_status_value XS_RISK_RESERVED = ''RISK_RESERVED''"
| "execution_status_value XS_APPROVAL_PENDING = ''APPROVAL_PENDING''"
| "execution_status_value XS_APPROVED = ''APPROVED''"
| "execution_status_value XS_OUTBOXED = ''OUTBOXED''"
| "execution_status_value XS_SUBMITTING = ''SUBMITTING''"
| "execution_status_value XS_SUBMISSION_UNKNOWN = ''SUBMISSION_UNKNOWN''"
| "execution_status_value XS_ACKNOWLEDGED = ''ACKNOWLEDGED''"
| "execution_status_value XS_PARTIALLY_FILLED = ''PARTIALLY_FILLED''"
| "execution_status_value XS_FILLED = ''FILLED''"
| "execution_status_value XS_CANCEL_REQUESTED = ''CANCEL_REQUESTED''"
| "execution_status_value XS_CANCEL_UNKNOWN = ''CANCEL_UNKNOWN''"
| "execution_status_value XS_CANCELLED = ''CANCELLED''"
| "execution_status_value XS_REJECTED = ''REJECTED''"
| "execution_status_value XS_EXPIRED = ''EXPIRED''"
| "execution_status_value XS_RECONCILIATION_REQUIRED = ''RECONCILIATION_REQUIRED''"

fun broker_event_type_value :: "broker_event_type \<Rightarrow> string" where
  "broker_event_type_value ET_ACKNOWLEDGED = ''ACKNOWLEDGED''"
| "broker_event_type_value ET_PARTIAL_FILL = ''PARTIAL_FILL''"
| "broker_event_type_value ET_FILL = ''FILL''"
| "broker_event_type_value ET_CANCELLED = ''CANCELLED''"
| "broker_event_type_value ET_REJECTED = ''REJECTED''"
| "broker_event_type_value ET_COMMISSION = ''COMMISSION''"

definition is_fill_type :: "broker_event_type \<Rightarrow> bool" where
  "is_fill_type t \<longleftrightarrow> t = ET_PARTIAL_FILL \<or> t = ET_FILL"

subsection \<open>Decision capsule\<close>

record decision_capsule =
  cap_decision_id :: string
  cap_decision_snapshot_id :: string
  cap_market_snapshot_id :: string
  cap_evidence_snapshot_id :: "string option"
  cap_evidence_review_id :: "string option"
  cap_strategy_id :: string
  cap_strategy_version :: string
  cap_entity_id :: string
  cap_input_hash :: string
  cap_signal_hash :: string
  cap_risk_policy_hash :: string
  cap_risk_decision_hash :: string
  cap_config_hash :: string
  cap_created_at :: time

definition capsule_ok :: "decision_capsule \<Rightarrow> bool" where
  "capsule_ok c \<longleftrightarrow>
     list_all hash_pattern
       [cap_decision_id c, cap_decision_snapshot_id c, cap_market_snapshot_id c, cap_input_hash c,
        cap_signal_hash c, cap_risk_policy_hash c, cap_risk_decision_hash c, cap_config_hash c]
     \<and> pred_option hash_pattern (cap_evidence_snapshot_id c)
     \<and> pred_option hash_pattern (cap_evidence_review_id c)
     \<and> (cap_evidence_snapshot_id c = None) = (cap_evidence_review_id c = None)"

definition some_field :: "string \<Rightarrow> ('a \<Rightarrow> json) \<Rightarrow> 'a option \<Rightarrow> (string \<times> json) list" where
  "some_field k f x = (case x of None \<Rightarrow> [] | Some v \<Rightarrow> [(k, f v)])"

definition capsule_json :: "decision_capsule \<Rightarrow> json" where
  "capsule_json c = JObj (
     [(''decision_id'', JStr (cap_decision_id c)),
      (''decision_snapshot_id'', JStr (cap_decision_snapshot_id c)),
      (''market_snapshot_id'', JStr (cap_market_snapshot_id c))] @
     some_field ''evidence_snapshot_id'' JStr (cap_evidence_snapshot_id c) @
     some_field ''evidence_review_id'' JStr (cap_evidence_review_id c) @
     [(''strategy_id'', JStr (cap_strategy_id c)),
      (''strategy_version'', JStr (cap_strategy_version c)),
      (''entity_id'', JStr (cap_entity_id c)),
      (''input_hash'', JStr (cap_input_hash c)),
      (''signal_hash'', JStr (cap_signal_hash c)),
      (''risk_policy_hash'', JStr (cap_risk_policy_hash c)),
      (''risk_decision_hash'', JStr (cap_risk_decision_hash c)),
      (''config_hash'', JStr (cap_config_hash c)),
      (''created_at'', JTime (cap_created_at c))])"

definition capsule_hash :: "(json \<Rightarrow> string) \<Rightarrow> decision_capsule \<Rightarrow> string" where
  "capsule_hash H c = canonical_hash H (capsule_json c)"

subsection \<open>Risk reservation\<close>

record risk_reservation =
  rsv_id :: string
  rsv_decision_id :: string
  rsv_account_id :: string
  rsv_instrument_id :: string
  rsv_cash_reserved :: rat
  rsv_notional_reserved :: rat
  rsv_risk_reserved :: rat
  rsv_account_notional_capacity :: rat
  rsv_quantity_reserved :: int
  rsv_quantity_consumed :: int
  rsv_status :: reservation_status
  rsv_expires_at :: time
  rsv_version :: int
  rsv_created_at :: time
  rsv_released_at :: "time option"

definition reservation_amounts_ok :: "risk_reservation \<Rightarrow> bool" where
  "reservation_amounts_ok r \<longleftrightarrow>
     0 \<le> rsv_cash_reserved r \<and> 0 \<le> rsv_notional_reserved r \<and> 0 \<le> rsv_risk_reserved r
     \<and> 0 < rsv_account_notional_capacity r \<and> 0 < rsv_quantity_reserved r
     \<and> 0 \<le> rsv_quantity_consumed r \<and> 0 < rsv_version r
     \<and> rsv_created_at r < rsv_expires_at r
     \<and> rsv_quantity_consumed r \<le> rsv_quantity_reserved r"

definition reservation_ok :: "risk_reservation \<Rightarrow> bool" where
  "reservation_ok r \<longleftrightarrow>
     hash_pattern (rsv_id r) \<and> hash_pattern (rsv_decision_id r) \<and> reservation_amounts_ok r"

definition reservation_json :: "risk_reservation \<Rightarrow> json" where
  "reservation_json r = JObj (
     [(''reservation_id'', JStr (rsv_id r)),
      (''decision_id'', JStr (rsv_decision_id r)),
      (''account_id'', JStr (rsv_account_id r)),
      (''instrument_id'', JStr (rsv_instrument_id r)),
      (''cash_reserved'', JNum (rsv_cash_reserved r)),
      (''notional_reserved'', JNum (rsv_notional_reserved r)),
      (''risk_reserved'', JNum (rsv_risk_reserved r)),
      (''account_notional_capacity'', JNum (rsv_account_notional_capacity r)),
      (''quantity_reserved'', JInt (rsv_quantity_reserved r)),
      (''quantity_consumed'', JInt (rsv_quantity_consumed r)),
      (''status'', JStr (reservation_status_value (rsv_status r))),
      (''expires_at'', JTime (rsv_expires_at r)),
      (''version'', JInt (rsv_version r)),
      (''created_at'', JTime (rsv_created_at r))] @
     some_field ''released_at'' JTime (rsv_released_at r))"

subsection \<open>Execution intent\<close>

record execution_intent =
  xi_id :: string
  xi_decision_id :: string
  xi_reservation_id :: string
  xi_client_order_key :: string
  xi_account_id :: string
  xi_instrument_id :: string
  xi_side :: side
  xi_order_type :: string
  xi_quantity :: int
  xi_limit_price :: rat
  xi_stop_price :: rat
  xi_target_price :: rat
  xi_time_in_force :: string
  xi_session :: string
  xi_status :: execution_status
  xi_version :: int
  xi_created_at :: time

definition intent_amounts_ok :: "execution_intent \<Rightarrow> bool" where
  "intent_amounts_ok i \<longleftrightarrow>
     0 < xi_quantity i \<and> 0 < xi_limit_price i \<and> 0 < xi_stop_price i \<and> 0 < xi_target_price i
     \<and> 0 < xi_version i"

definition intent_ok :: "execution_intent \<Rightarrow> bool" where
  "intent_ok i \<longleftrightarrow>
     list_all hash_pattern [xi_id i, xi_decision_id i, xi_reservation_id i, xi_client_order_key i]
     \<and> intent_amounts_ok i"

definition intent_json :: "execution_intent \<Rightarrow> json" where
  "intent_json i = JObj
     [(''intent_id'', JStr (xi_id i)),
      (''decision_id'', JStr (xi_decision_id i)),
      (''reservation_id'', JStr (xi_reservation_id i)),
      (''client_order_key'', JStr (xi_client_order_key i)),
      (''account_id'', JStr (xi_account_id i)),
      (''instrument_id'', JStr (xi_instrument_id i)),
      (''side'', JStr (side_value (xi_side i))),
      (''order_type'', JStr (xi_order_type i)),
      (''quantity'', JInt (xi_quantity i)),
      (''limit_price'', JNum (xi_limit_price i)),
      (''stop_price'', JNum (xi_stop_price i)),
      (''target_price'', JNum (xi_target_price i)),
      (''time_in_force'', JStr (xi_time_in_force i)),
      (''session'', JStr (xi_session i)),
      (''status'', JStr (execution_status_value (xi_status i))),
      (''version'', JInt (xi_version i)),
      (''created_at'', JTime (xi_created_at i))]"

text \<open>\<open>ExecutionIntent.create\<close>: the client order key is the digest of the economics, so two
  intents with the same economics have the same key.\<close>

definition economics_json ::
    "decision_capsule \<Rightarrow> risk_reservation \<Rightarrow> side \<Rightarrow> int \<Rightarrow> rat \<Rightarrow> rat \<Rightarrow> rat \<Rightarrow> json" where
  "economics_json c r s q lp sp tp = JObj
     [(''decision_id'', JStr (cap_decision_id c)),
      (''account_id'', JStr (rsv_account_id r)),
      (''instrument_id'', JStr (rsv_instrument_id r)),
      (''side'', JStr (side_value s)),
      (''quantity'', JInt q),
      (''order_type'', JStr ''LIMIT''),
      (''limit_price'', JNum lp),
      (''stop_price'', JNum sp),
      (''target_price'', JNum tp),
      (''time_in_force'', JStr ''DAY''),
      (''session'', JStr ''REGULAR'')]"

definition create_intent ::
    "(json \<Rightarrow> string) \<Rightarrow> decision_capsule \<Rightarrow> risk_reservation \<Rightarrow> side \<Rightarrow> int
      \<Rightarrow> rat \<Rightarrow> rat \<Rightarrow> rat \<Rightarrow> bool \<Rightarrow> execution_intent res" where
  "create_intent H c r s q lp sp tp approval_required =
     (let client_key = canonical_hash H (economics_json c r s q lp sp tp) in
      if 0 < q \<and> 0 < lp \<and> 0 < sp \<and> 0 < tp
      then Inr \<lparr>xi_id = canonical_hash H (JObj [(''client_order_key'', JStr client_key),
                                               (''reservation'', JStr (rsv_id r))]),
            xi_decision_id = cap_decision_id c,
            xi_reservation_id = rsv_id r,
            xi_client_order_key = client_key,
            xi_account_id = rsv_account_id r,
            xi_instrument_id = rsv_instrument_id r,
            xi_side = s,
            xi_order_type = ''LIMIT'',
            xi_quantity = q,
            xi_limit_price = lp,
            xi_stop_price = sp,
            xi_target_price = tp,
            xi_time_in_force = ''DAY'',
            xi_session = ''REGULAR'',
            xi_status = (if approval_required then XS_APPROVAL_PENDING else XS_APPROVED),
            xi_version = 1,
            xi_created_at = cap_created_at c\<rparr>
      else Inl (ValueError ''ExecutionIntent''))"

subsection \<open>Outbox command, broker event, lease\<close>

record outbox_command =
  oc_id :: string
  oc_intent_id :: string
  oc_client_order_key :: string
  oc_command_type :: string
  oc_payload_hash :: string
  oc_status :: outbox_status
  oc_fencing_token :: "int option"
  oc_created_at :: time

record broker_event =
  be_id :: string
  be_broker_order_id :: string
  be_client_order_key :: string
  be_type :: broker_event_type
  be_sequence :: int
  be_filled_quantity :: int
  be_fill_price :: "rat option"
  be_commission :: rat
  be_occurred_at :: time
  be_received_at :: time
  be_raw_payload_hash :: string

definition event_amounts_ok :: "broker_event \<Rightarrow> bool" where
  "event_amounts_ok e \<longleftrightarrow>
     0 < be_sequence e \<and> 0 \<le> be_filled_quantity e \<and> pred_option (\<lambda>p. 0 < p) (be_fill_price e)
     \<and> 0 \<le> be_commission e"

definition broker_event_ok :: "broker_event \<Rightarrow> bool" where
  "broker_event_ok e \<longleftrightarrow>
     hash_pattern (be_id e) \<and> hash_pattern (be_client_order_key e)
     \<and> hash_pattern (be_raw_payload_hash e) \<and> event_amounts_ok e"

definition broker_event_json :: "broker_event \<Rightarrow> json" where
  "broker_event_json e = JObj
     [(''broker_event_id'', JStr (be_id e)),
      (''broker_order_id'', JStr (be_broker_order_id e)),
      (''client_order_key'', JStr (be_client_order_key e)),
      (''event_type'', JStr (broker_event_type_value (be_type e))),
      (''sequence'', JInt (be_sequence e)),
      (''filled_quantity'', JInt (be_filled_quantity e)),
      (''fill_price'', opt_json JNum (be_fill_price e)),
      (''commission'', JNum (be_commission e)),
      (''occurred_at'', JTime (be_occurred_at e)),
      (''received_at'', JTime (be_received_at e)),
      (''raw_payload_hash'', JStr (be_raw_payload_hash e))]"

record execution_lease =
  ls_name :: string
  ls_owner :: string
  ls_token :: int
  ls_acquired_at :: time
  ls_expires_at :: time

subsection \<open>Broker truth and quotes\<close>

record broker_order_truth =
  bo_broker_order_id :: string
  bo_client_order_key :: string
  bo_instrument_id :: string
  bo_side :: side
  bo_quantity :: int
  bo_filled_quantity :: int
  bo_status :: string
  bo_perm_id :: "string option"
  bo_parent_client_order_key :: "string option"
  bo_protection_quantity :: int

record broker_protection_truth =
  bp_order_id :: string
  bp_parent_client_order_key :: string
  bp_type :: string
  bp_quantity :: int
  bp_active :: bool

record broker_snapshot =
  bs_as_of :: time
  bs_cash :: rat
  bs_settled_cash :: "rat option"
  bs_buying_power :: "rat option"
  bs_accrued_cash :: "rat option"
  bs_base_currency :: string
  bs_currency_balances :: "(string \<times> rat) list"
  bs_complete :: bool
  bs_certificate_id :: "string option"
  bs_observation_id :: "string option"
  bs_session_id :: "string option"
  bs_final_watermark :: int
  bs_semantic_hash :: "string option"
  bs_scope_hash :: "string option"
  bs_account_hash :: "string option"
  bs_orders_hash :: "string option"
  bs_positions_hash :: "string option"
  bs_executions_hash :: "string option"
  bs_commissions_hash :: "string option"
  bs_protection_hash :: "string option"
  bs_valuation_hash :: "string option"
  bs_normalization_policy_hash :: "string option"
  bs_valuation_fields :: "(string \<times> rat) list"
  bs_order_complete :: bool
  bs_position_complete :: bool
  bs_execution_complete :: bool
  bs_cash_complete :: bool
  bs_commission_pending :: int
  bs_orders :: "broker_order_truth list"
  bs_positions :: "(string \<times> int) list"
  bs_protections :: "(string \<times> int) list"
  bs_events :: "broker_event list"
  bs_protection_orders :: "broker_protection_truth list"

text \<open>Every component of the snapshot was observed to the end and no commission is pending:
  the test the store and the reconciler make before a snapshot may become authority.\<close>

definition components_complete :: "broker_snapshot \<Rightarrow> bool" where
  "components_complete s \<longleftrightarrow>
     bs_complete s \<and> bs_order_complete s \<and> bs_position_complete s \<and> bs_execution_complete s
     \<and> bs_cash_complete s \<and> bs_commission_pending s = 0"

record quote_snapshot =
  qs_id :: string
  qs_symbol :: string
  qs_bid :: rat
  qs_ask :: rat
  qs_last :: "rat option"
  qs_observed_at :: time
  qs_provider_timestamp :: time
  qs_provider :: string
  qs_feed_mode :: string
  qs_market_phase :: string
  qs_venue :: string
  qs_currency :: string
  qs_raw_hash :: string
  qs_freshness_policy_hash :: string

definition quote_ok :: "quote_snapshot \<Rightarrow> bool" where
  "quote_ok q \<longleftrightarrow>
     qs_symbol q \<noteq> [] \<and> 0 < qs_bid q \<and> 0 < qs_ask q \<and> pred_option (\<lambda>p. 0 < p) (qs_last q)
     \<and> qs_provider q \<noteq> [] \<and> qs_bid q \<le> qs_ask q"

subsection \<open>Lemmas\<close>

lemma execution_status_value_eq [simp]:
  "execution_status_value a = execution_status_value b \<longleftrightarrow> a = b"
  by (cases a; cases b) simp_all

lemma broker_event_type_value_eq [simp]:
  "broker_event_type_value a = broker_event_type_value b \<longleftrightarrow> a = b"
  by (cases a; cases b) simp_all

lemma is_fill_type_simps [simp]:
  "is_fill_type ET_FILL" "is_fill_type ET_PARTIAL_FILL" "\<not> is_fill_type ET_COMMISSION"
  "\<not> is_fill_type ET_REJECTED" "\<not> is_fill_type ET_CANCELLED" "\<not> is_fill_type ET_ACKNOWLEDGED"
  by (simp_all add: is_fill_type_def)

text \<open>Two created intents with the same client order key carry the same economics, when the
  digest separates the documents.\<close>

lemma create_intent_key_economics:
  assumes "create_intent H c r s q lp sp tp a = Inr i"
    and "create_intent H c' r' s' q' lp' sp' tp' a' = Inr i'"
    and "xi_client_order_key i = xi_client_order_key i'" and "inj H"
  shows "xi_decision_id i = xi_decision_id i' \<and> xi_account_id i = xi_account_id i'
       \<and> xi_instrument_id i = xi_instrument_id i' \<and> xi_side i = xi_side i'
       \<and> xi_quantity i = xi_quantity i' \<and> xi_limit_price i = xi_limit_price i'
       \<and> xi_stop_price i = xi_stop_price i' \<and> xi_target_price i = xi_target_price i'"
proof -
  have "sort_keys (economics_json c r s q lp sp tp) = sort_keys (economics_json c' r' s' q' lp' sp' tp')"
    using assms by (auto simp: create_intent_def Let_def canonical_hash_def dest: injD split: if_splits)
  then show ?thesis
    using assms(1,2) by (auto simp: create_intent_def Let_def economics_json_def split: if_splits)
qed

end
