(* ===== verification/Ctl_Store.thy ===== *)
theory Ctl_Store
  imports Ctl_Models
begin

section \<open>The durable execution store: schema and helpers\<close>

text \<open>
  \<open>src/hanalpha/execution/control_store.py\<close>, \<open>DurableExecutionStore\<close>: the SQLite schema as one
  record \<open>store\<close> with a field per table, and the private helpers every operation uses. A table
  with a rowid order the code relies on is a list of rows; a table read by its key only is a map.
  A JSON column is the document itself: the code writes it with \<open>model_dump_json\<close> and reads it
  back with \<open>model_validate_json\<close>.
\<close>

subsection \<open>Rows\<close>

record capsule_row =
  cw_capsule :: decision_capsule
  cw_hash :: string

record reservation_row =
  rw_reservation :: risk_reservation
  rw_status :: reservation_status
  rw_quantity_reserved :: int
  rw_quantity_consumed :: int
  rw_version :: int

record intent_row =
  iw_intent :: execution_intent
  iw_status :: execution_status
  iw_filled :: int
  iw_broker_order_id :: "string option"
  iw_last_sequence :: int
  iw_version :: int

record approval_doc =
  ad_intent_id :: string
  ad_actor_id :: string
  ad_approved_at :: time
  ad_expires_at :: time
  ad_intent_spec_hash :: string
  ad_reservation_hash :: string
  ad_projection_version :: int

record approval_row =
  aw_id :: string
  aw_doc :: approval_doc

datatype arm_status = ARM_ACTIVE | ARM_EXPIRED | ARM_SUPERSEDED | ARM_CONSUMED

record arm_binding =
  ab_intent_id :: string
  ab_authority_id :: string
  ab_broker_snapshot_hash :: string
  ab_quote_snapshot_id :: string
  ab_quote_hash :: string
  ab_approved_limit_price :: rat
  ab_max_drift_bps :: rat
  ab_armed_at :: time
  ab_requested_expires_at :: time
  ab_expires_at :: time
  ab_intent_spec_hash :: string
  ab_armed_by :: string
  ab_arm_source :: string
  ab_operator_session_id :: "string option"
  ab_provider_age :: duration
  ab_observed_age :: duration
  ab_spread_bps :: rat
  ab_quote_max_age :: duration
  ab_authority_max_age :: duration
  ab_provider_clock_skew :: duration
  ab_max_spread_bps :: rat

record arm_row =
  am_id :: string
  am_version :: int
  am_status :: arm_status
  am_consumed_at :: "time option"
  am_binding :: arm_binding

record outbox_row =
  ow_command :: outbox_command
  ow_status :: outbox_status
  ow_token :: "int option"
  ow_claimed_at :: "time option"
  ow_delivered_at :: "time option"

record cancel_row =
  cn_id :: string
  cn_intent_id :: string
  cn_client_order_key :: string
  cn_status :: outbox_status
  cn_token :: "int option"
  cn_requested_by :: string
  cn_requested_at :: time
  cn_claimed_at :: "time option"
  cn_delivered_at :: "time option"
  cn_last_error :: "string option"

datatype inbox_status = IB_RECEIVED | IB_ORPHAN | IB_APPLIED

record inbox_row =
  bx_event :: broker_event
  bx_status :: inbox_status

text \<open>The payloads \<open>_append_order_event\<close> is called with, one constructor per call site.\<close>

datatype event_payload =
    PL_broker broker_event
  | PL_reason string
  | PL_at time
  | PL_actor string string
  | PL_broker_order string
  | PL_broker_snapshot time
  | PL_bridge time string

record order_event_row =
  ev_id :: string
  ev_intent_id :: string
  ev_type :: string
  ev_at :: time
  ev_payload :: event_payload

record fill_row =
  fr_event :: broker_event
  fr_intent_id :: string
  fr_instrument_id :: string
  fr_side :: side
  fr_quantity :: int
  fr_price :: rat
  fr_commission :: rat

record freeze_ticket =
  ft_id :: string
  ft_reason :: string
  ft_severity :: string
  ft_source :: string
  ft_created_at :: time
  ft_resolved_at :: "time option"
  ft_evidence :: "string option"

record control_state =
  cs_frozen :: bool
  cs_reason :: string
  cs_updated_at :: time

record account_baseline =
  bl_cash :: rat
  bl_buying_power :: "rat option"
  bl_settled_cash :: "rat option"
  bl_accrued_cash :: "rat option"
  bl_currency_balances :: "(string \<times> rat) list"
  bl_as_of :: time
  bl_cash_delta :: rat
  bl_commissions :: rat
  bl_bridge_id :: "string option"

record authority_row =
  au_certificate_id :: string
  au_semantic_hash :: string
  au_scope_hash :: string
  au_as_of :: time
  au_snapshot :: broker_snapshot
  au_run_id :: string
  au_status :: string
  au_recorded_at :: time

record candidate_row =
  cd_certificate_id :: string
  cd_snapshot :: broker_snapshot
  cd_run_id :: string
  cd_status :: string
  cd_promotion :: string
  cd_policy_reason :: string
  cd_recorded_at :: time

datatype vote_disposition =
    ACCEPTED_FIRST | ACCEPTED_INDEPENDENT | ACCEPTED_DIVERGENT_RESET | REJECTED_NON_INDEPENDENT

record vote_row =
  vt_observation_id :: string
  vt_certificate_id :: string
  vt_session_id :: string
  vt_scope_hash :: string
  vt_semantic_hash :: string
  vt_as_of :: time
  vt_watermark :: int
  vt_recorded_at :: time
  vt_disposition :: vote_disposition
  vt_snapshot :: broker_snapshot
  vt_equivalent :: bool

record consensus_row =
  cz_semantic_hash :: string
  cz_count :: int
  cz_first_seen_at :: time
  cz_last_seen_at :: time
  cz_certificate_id :: string

record quote_row =
  qw_quote :: quote_snapshot
  qw_recorded_at :: time

record bridge_row =
  br_id :: string
  br_event_type :: string
  br_amount :: rat
  br_currency :: string
  br_occurred_at :: time
  br_evidence :: json
  br_epoch_started :: bool

record run_row =
  rn_id :: string
  rn_started_at :: time
  rn_completed_at :: "time option"
  rn_status :: string
  rn_summary :: "json option"

record discrepancy_row =
  dr_id :: string
  dr_run_id :: string
  dr_severity :: string
  dr_kind :: string
  dr_entity_key :: string
  dr_details :: json
  dr_resolved_at :: "time option"
  dr_first_seen_at :: time
  dr_last_seen_at :: time
  dr_lifecycle :: string
  dr_evidence :: "json option"

text \<open>\<open>no_trade_ledger\<close>, \<open>reality_gap_ledger\<close>, \<open>naked_exposure_intervals\<close>: content-addressed
  rows, the digest and the document.\<close>

record ledger_row =
  lr_id :: string
  lr_document :: json

record heartbeat =
  hb_status :: string
  hb_observed_at :: time
  hb_details :: json

subsection \<open>The store\<close>

record store =
  capsules :: "capsule_row list"
  reservations :: "reservation_row list"
  intents :: "intent_row list"
  approvals :: "approval_row list"
  arms :: "arm_row list"
  outbox :: "outbox_row list"
  cancels :: "cancel_row list"
  inbox :: "inbox_row list"
  order_events :: "order_event_row list"
  fill_events :: "fill_row list"
  positions :: "string \<rightharpoonup> int"
  cash_delta :: rat
  commissions :: rat
  leases :: "string \<rightharpoonup> execution_lease"
  control :: control_state
  tickets :: "freeze_ticket list"
  baseline :: "account_baseline option"
  authorities :: "authority_row list"
  candidates :: "candidate_row list"
  votes :: "vote_row list"
  consensus :: "string \<rightharpoonup> consensus_row"
  quotes :: "quote_row list"
  bridges :: "bridge_row list"
  runs :: "run_row list"
  discrepancies :: "discrepancy_row list"
  no_trades :: "ledger_row list"
  reality_gaps :: "ledger_row list"
  naked_exposures :: "ledger_row list"
  heartbeats :: "string \<rightharpoonup> heartbeat"

text \<open>The columns of \<open>execution_intents\<close> that repeat the frozen document.\<close>

abbreviation iw_id :: "intent_row \<Rightarrow> string" where "iw_id r \<equiv> xi_id (iw_intent r)"
abbreviation iw_key :: "intent_row \<Rightarrow> string" where "iw_key r \<equiv> xi_client_order_key (iw_intent r)"
abbreviation iw_decision_id :: "intent_row \<Rightarrow> string" where
  "iw_decision_id r \<equiv> xi_decision_id (iw_intent r)"
abbreviation iw_reservation_id :: "intent_row \<Rightarrow> string" where
  "iw_reservation_id r \<equiv> xi_reservation_id (iw_intent r)"
abbreviation rw_id :: "reservation_row \<Rightarrow> string" where "rw_id r \<equiv> rsv_id (rw_reservation r)"
abbreviation ow_id :: "outbox_row \<Rightarrow> string" where "ow_id r \<equiv> oc_id (ow_command r)"
abbreviation ow_intent_id :: "outbox_row \<Rightarrow> string" where
  "ow_intent_id r \<equiv> oc_intent_id (ow_command r)"
abbreviation ow_key :: "outbox_row \<Rightarrow> string" where
  "ow_key r \<equiv> oc_client_order_key (ow_command r)"
abbreviation am_intent_id :: "arm_row \<Rightarrow> string" where
  "am_intent_id r \<equiv> ab_intent_id (am_binding r)"
abbreviation am_expires_at :: "arm_row \<Rightarrow> time" where
  "am_expires_at r \<equiv> ab_expires_at (am_binding r)"
abbreviation aw_intent_id :: "approval_row \<Rightarrow> string" where
  "aw_intent_id r \<equiv> ad_intent_id (aw_doc r)"

text \<open>A fresh database: the three seed rows of \<open>__init__\<close>. The epoch is time 0.\<close>

definition startup_ticket :: freeze_ticket where
  "startup_ticket = \<lparr>ft_id = ''startup-reconciliation'', ft_reason = ''STARTUP_RECONCILIATION'',
     ft_severity = ''BLOCKING'', ft_source = ''system'', ft_created_at = 0, ft_resolved_at = None,
     ft_evidence = None\<rparr>"

definition empty_store :: store where
  "empty_store = \<lparr>capsules = [], reservations = [], intents = [], approvals = [], arms = [],
     outbox = [], cancels = [], inbox = [], order_events = [], fill_events = [],
     positions = Map.empty, cash_delta = 0, commissions = 0, leases = Map.empty,
     control = \<lparr>cs_frozen = True, cs_reason = ''startup_reconciliation_required'',
                cs_updated_at = 0\<rparr>,
     tickets = [startup_ticket], baseline = None, authorities = [], candidates = [], votes = [],
     consensus = Map.empty, quotes = [], bridges = [], runs = [], discrepancies = [],
     no_trades = [], reality_gaps = [], naked_exposures = [], heartbeats = Map.empty\<rparr>"

subsection \<open>Private helpers\<close>

definition intent_row_of :: "store \<Rightarrow> string \<Rightarrow> intent_row res" where
  "intent_row_of d intent_id =
     (case List.find (\<lambda>r. iw_id r = intent_id) (intents d) of
        None \<Rightarrow> Inl (KeyError intent_id)
      | Some r \<Rightarrow> Inr r)"

text \<open>\<open>_insert_immutable\<close>: a row with the same key must carry the same document; the insert
  itself ignores a row that clashes with any uniqueness constraint of the table.\<close>

definition insert_immutable ::
    "string \<Rightarrow> ('r \<Rightarrow> string) \<Rightarrow> ('r \<Rightarrow> 'doc) \<Rightarrow> ('r \<Rightarrow> 'r \<Rightarrow> bool) \<Rightarrow> 'r \<Rightarrow> 'r list \<Rightarrow> 'r list res" where
  "insert_immutable table key doc clash row rows =
     (case List.find (\<lambda>r. key r = key row) rows of
        Some r \<Rightarrow> (if doc r \<noteq> doc row
                    then Inl (ExecutionInvariantError (''immutable '' @ table @ '' conflict''))
                    else Inr (insert_or_ignore clash row rows))
      | None \<Rightarrow> Inr (insert_or_ignore clash row rows))"

definition capsule_clash :: "capsule_row \<Rightarrow> capsule_row \<Rightarrow> bool" where
  "capsule_clash a b \<longleftrightarrow>
     cap_decision_id (cw_capsule a) = cap_decision_id (cw_capsule b) \<or> cw_hash a = cw_hash b"

definition reservation_clash :: "reservation_row \<Rightarrow> reservation_row \<Rightarrow> bool" where
  "reservation_clash a b \<longleftrightarrow>
     rw_id a = rw_id b \<or> rsv_decision_id (rw_reservation a) = rsv_decision_id (rw_reservation b)"

definition intent_clash :: "intent_row \<Rightarrow> intent_row \<Rightarrow> bool" where
  "intent_clash a b \<longleftrightarrow>
     iw_id a = iw_id b \<or> iw_decision_id a = iw_decision_id b
     \<or> iw_reservation_id a = iw_reservation_id b \<or> iw_key a = iw_key b"

definition outbox_clash :: "outbox_row \<Rightarrow> outbox_row \<Rightarrow> bool" where
  "outbox_clash a b \<longleftrightarrow>
     ow_id a = ow_id b \<or> ow_intent_id a = ow_intent_id b \<or> ow_key a = ow_key b"

fun payload_json :: "event_payload \<Rightarrow> json" where
  "payload_json (PL_broker e) = broker_event_json e"
| "payload_json (PL_reason s) = JObj [(''reason'', JStr s)]"
| "payload_json (PL_at t) = JObj [(''at'', JTime t)]"
| "payload_json (PL_actor a c) = JObj [(''actor_id'', JStr a), (''command_id'', JStr c)]"
| "payload_json (PL_broker_order b) = JObj [(''broker_order_id'', JStr b)]"
| "payload_json (PL_broker_snapshot t) = JObj [(''broker_snapshot_as_of'', JTime t)]"
| "payload_json (PL_bridge t b) = JObj [(''snapshot_as_of'', JTime t), (''bridge_id'', JStr b)]"

definition order_event_json :: "string \<Rightarrow> string \<Rightarrow> event_payload \<Rightarrow> json" where
  "order_event_json intent_id ty p =
     JObj [(''intent_id'', JStr intent_id), (''type'', JStr ty), (''payload'', payload_json p)]"

definition append_order_event ::
    "(json \<Rightarrow> string) \<Rightarrow> string \<Rightarrow> string \<Rightarrow> time \<Rightarrow> event_payload \<Rightarrow> store \<Rightarrow> store" where
  "append_order_event H intent_id ty at p d =
     d\<lparr>order_events :=
         insert_or_ignore (\<lambda>a b. ev_id a = ev_id b)
           \<lparr>ev_id = canonical_hash H (order_event_json intent_id ty p), ev_intent_id = intent_id,
            ev_type = ty, ev_at = at, ev_payload = p\<rparr>
           (order_events d)\<rparr>"

text \<open>\<open>UPDATE execution_intents SET status=?, version=version+1 WHERE intent_id=?\<close>, the update
  most operations end with.\<close>

definition set_intent_status :: "string \<Rightarrow> execution_status \<Rightarrow> store \<Rightarrow> store" where
  "set_intent_status intent_id st d =
     d\<lparr>intents := update_where (\<lambda>r. iw_id r = intent_id)
         (\<lambda>r. r\<lparr>iw_status := st, iw_version := iw_version r + 1\<rparr>) (intents d)\<rparr>"

definition outbox_command_of :: "(json \<Rightarrow> string) \<Rightarrow> execution_intent \<Rightarrow> outbox_command" where
  "outbox_command_of H i =
     \<lparr>oc_id = canonical_hash H (JObj [(''intent_id'', JStr (xi_id i)), (''command'', JStr ''SUBMIT'')]),
      oc_intent_id = xi_id i, oc_client_order_key = xi_client_order_key i,
      oc_command_type = ''SUBMIT'', oc_payload_hash = canonical_hash H (intent_json i),
      oc_status = OB_PENDING, oc_fencing_token = None, oc_created_at = xi_created_at i\<rparr>"

definition enqueue :: "(json \<Rightarrow> string) \<Rightarrow> execution_intent \<Rightarrow> store \<Rightarrow> unit res \<times> store" where
  "enqueue H i d =
     (let command = outbox_command_of H i;
          row = \<lparr>ow_command = command, ow_status = oc_status command, ow_token = None,
                 ow_claimed_at = None, ow_delivered_at = None\<rparr>
      in case insert_immutable ''outbox_commands'' ow_id ow_command outbox_clash row (outbox d) of
           Inl e \<Rightarrow> (Inl e, d)
         | Inr ob \<Rightarrow>
             (Inr (), d\<lparr>outbox := ob,
                intents := update_where
                  (\<lambda>r. iw_id r = xi_id i
                       \<and> (iw_status r = XS_APPROVED \<or> iw_status r = XS_APPROVAL_PENDING))
                  (\<lambda>r. r\<lparr>iw_status := XS_OUTBOXED, iw_version := iw_version r + 1\<rparr>)
                  (intents d)\<rparr>))"

definition reservation_status_for :: "int \<Rightarrow> int \<Rightarrow> execution_status \<Rightarrow> reservation_status" where
  "reservation_status_for filled quantity st =
     (if st \<in> {XS_REJECTED, XS_CANCELLED, XS_EXPIRED} then RS_RELEASED
      else if filled = quantity then RS_CONSUMED
      else if filled > 0 then RS_PARTIALLY_CONSUMED
      else RS_ACTIVE)"

definition update_reservation ::
    "string \<Rightarrow> int \<Rightarrow> int \<Rightarrow> execution_status \<Rightarrow> store \<Rightarrow> store" where
  "update_reservation reservation_id filled quantity st d =
     d\<lparr>reservations := update_where (\<lambda>r. rw_id r = reservation_id)
         (\<lambda>r. r\<lparr>rw_status := reservation_status_for filled quantity st,
                rw_quantity_consumed := filled, rw_version := rw_version r + 1\<rparr>)
         (reservations d)\<rparr>"

definition status_for ::
    "broker_event \<Rightarrow> int \<Rightarrow> int \<Rightarrow> execution_status \<Rightarrow> execution_status" where
  "status_for e filled quantity current =
     (if be_type e = ET_COMMISSION then current
      else if be_type e = ET_REJECTED then
        (if current \<in> {XS_PARTIALLY_FILLED, XS_FILLED} then current else XS_REJECTED)
      else if be_type e = ET_CANCELLED then
        (if current = XS_FILLED then current else XS_CANCELLED)
      else if is_fill_type (be_type e) then
        (if filled \<ge> quantity then XS_FILLED else XS_PARTIALLY_FILLED)
      else if current \<in> {XS_PARTIALLY_FILLED, XS_FILLED, XS_CANCELLED, XS_REJECTED} then current
      else XS_ACKNOWLEDGED)"

definition add_position :: "string \<Rightarrow> int \<Rightarrow> (string \<rightharpoonup> int) \<Rightarrow> (string \<rightharpoonup> int)" where
  "add_position k q m = m(k \<mapsto> (case m k of None \<Rightarrow> q | Some old \<Rightarrow> old + q))"

text \<open>\<open>_update_economic_projections\<close>: commissions and, for a fill, the position, the fill row and
  the notional. A fill without a price raises; a second fill row with the same event id violates
  the primary key.\<close>

definition update_economic_projections ::
    "execution_intent \<Rightarrow> broker_event \<Rightarrow> store \<Rightarrow> unit res \<times> store" where
  "update_economic_projections i e d =
     (if is_fill_type (be_type e) then
        (case be_fill_price e of
           None \<Rightarrow> (Inl (ExecutionInvariantError ''fill event is missing a price''), d)
         | Some price \<Rightarrow>
             (let signed = signed_qty (xi_side i) (be_filled_quantity e);
                  notional = price * of_int (be_filled_quantity e);
                  delta = - be_commission e + (if xi_side i = BUY then - notional else notional);
                  row = \<lparr>fr_event = e, fr_intent_id = xi_id i, fr_instrument_id = xi_instrument_id i,
                         fr_side = xi_side i, fr_quantity = be_filled_quantity e, fr_price = price,
                         fr_commission = be_commission e\<rparr>
              in case insert_row (\<lambda>a b. be_id (fr_event a) = be_id (fr_event b)) row (fill_events d) of
                   Inl err \<Rightarrow> (Inl err, d\<lparr>positions := add_position (xi_instrument_id i) signed (positions d)\<rparr>)
                 | Inr rows \<Rightarrow>
                     (Inr (), d\<lparr>positions := add_position (xi_instrument_id i) signed (positions d),
                        fill_events := rows, cash_delta := cash_delta d + delta,
                        commissions := commissions d + be_commission e\<rparr>)))
      else (Inr (), d\<lparr>cash_delta := cash_delta d + - be_commission e,
                      commissions := commissions d + be_commission e\<rparr>))"

subsection \<open>Lemmas on the helpers\<close>

lemma intent_row_of_Inr:
  "intent_row_of d x = Inr r \<Longrightarrow> r \<in> set (intents d) \<and> iw_id r = x"
  by (auto simp: intent_row_of_def dest: find_Some_set split: option.splits)

lemma intent_row_of_cong: "intents d = intents d' \<Longrightarrow> intent_row_of d x = intent_row_of d' x"
  by (simp add: intent_row_of_def)

lemma insert_immutable_Inr:
  "insert_immutable t k doc clash row rows = Inr rows' \<Longrightarrow> rows' = insert_or_ignore clash row rows"
  by (auto simp: insert_immutable_def split: option.splits if_splits)

lemma status_for_commission [simp]: "be_type e = ET_COMMISSION \<Longrightarrow> status_for e f q c = c"
  by (simp add: status_for_def)

lemma status_for_fill:
  "is_fill_type (be_type e) \<Longrightarrow>
     status_for e f q c = (if f \<ge> q then XS_FILLED else XS_PARTIALLY_FILLED)"
  by (auto simp: status_for_def is_fill_type_def)

lemma add_position_get:
  "(case add_position k q m x of None \<Rightarrow> 0 | Some v \<Rightarrow> v) =
   (case m x of None \<Rightarrow> 0 | Some v \<Rightarrow> v) + (if x = k then q else 0)"
  by (auto simp: add_position_def split: option.splits)

end
