(* ===== verification/Ctl_Freeze.thy ===== *)
theory Ctl_Freeze
  imports Ctl_Store "HOL-Library.Product_Lexorder"
begin

section \<open>Freeze tickets\<close>

text \<open>
  The persistent kill switch of \<open>src/hanalpha/execution/control_store.py\<close>: freeze tickets, the
  \<open>control_state\<close> summary row and heartbeats. \<open>stage\<close>, \<open>approve\<close> and \<open>arm_approved_intent\<close> read
  the tickets; \<open>claim_next\<close> reads the summary row. \<open>freeze_inv\<close> is what ties the two together:
  while a blocking ticket is open, the summary row is frozen.
\<close>

subsection \<open>Operations\<close>

definition is_blocking :: "freeze_ticket \<Rightarrow> bool" where
  "is_blocking t \<longleftrightarrow> ft_resolved_at t = None \<and> ft_severity t = ''BLOCKING''"

definition active_freeze_reasons :: "store \<Rightarrow> string list" where
  "active_freeze_reasons d =
     map ft_reason (sort_key (\<lambda>t. (ft_created_at t, ft_id t)) (filter is_blocking (tickets d)))"

definition join_comma :: "string list \<Rightarrow> string" where
  "join_comma xs = (case xs of [] \<Rightarrow> [] | y # ys \<Rightarrow> y @ concat (map (\<lambda>s. CHR '','' # s) ys))"

definition is_frozen :: "store \<Rightarrow> bool \<times> string" where
  "is_frozen d = (let reasons = active_freeze_reasons d in (reasons \<noteq> [], join_comma reasons))"

definition refresh_control :: "time \<Rightarrow> store \<Rightarrow> store" where
  "refresh_control at d =
     (let remaining = active_freeze_reasons d in
      d\<lparr>control := \<lparr>cs_frozen = (remaining \<noteq> []), cs_reason = join_comma remaining,
                    cs_updated_at = at\<rparr>\<rparr>)"

definition ticket_json :: "string \<Rightarrow> string \<Rightarrow> time \<Rightarrow> json" where
  "ticket_json reason source at =
     JObj [(''reason_code'', JStr reason), (''source'', JStr source), (''created_at'', JTime at)]"

definition open_freeze_ticket ::
    "(json \<Rightarrow> string) \<Rightarrow> string \<Rightarrow> string \<Rightarrow> time \<Rightarrow> string \<Rightarrow> bool \<Rightarrow> store \<Rightarrow> string res \<times> store" where
  "open_freeze_ticket H reason source at severity in_transaction d =
     (case List.find (\<lambda>t. ft_reason t = reason \<and> ft_source t = source \<and> ft_resolved_at t = None)
             (tickets d) of
        Some t \<Rightarrow> (Inr (ft_id t), d)
      | None \<Rightarrow>
          (let ticket_id = canonical_hash H (ticket_json reason source at);
               row = \<lparr>ft_id = ticket_id, ft_reason = reason, ft_severity = severity,
                      ft_source = source, ft_created_at = at, ft_resolved_at = None,
                      ft_evidence = None\<rparr>
           in case insert_row (\<lambda>a b. ft_id a = ft_id b) row (tickets d) of
                Inl e \<Rightarrow> (Inl e, d)
              | Inr rows \<Rightarrow>
                  (let d1 = d\<lparr>tickets := rows,
                             control := \<lparr>cs_frozen = True, cs_reason = reason, cs_updated_at = at\<rparr>\<rparr>
                   in (Inr ticket_id, if in_transaction then d1 else refresh_control at d1))))"

definition resolve_freeze_ticket ::
    "string \<Rightarrow> string \<Rightarrow> time \<Rightarrow> string \<Rightarrow> store \<Rightarrow> nat \<times> store" where
  "resolve_freeze_ticket reason source at evidence d =
     (let hit = (\<lambda>t. ft_reason t = reason \<and> ft_source t = source \<and> ft_resolved_at t = None) in
      (length (filter hit (tickets d)),
       d\<lparr>tickets := update_where hit
           (\<lambda>t. t\<lparr>ft_resolved_at := Some at, ft_evidence := Some evidence\<rparr>) (tickets d)\<rparr>))"

definition freeze :: "(json \<Rightarrow> string) \<Rightarrow> string \<Rightarrow> time \<Rightarrow> bool \<Rightarrow> store \<Rightarrow> unit res \<times> store" where
  "freeze H reason at in_transaction d =
     and_then (open_freeze_ticket H (map upper_char reason) ''legacy'' at ''BLOCKING'' in_transaction d)
       (\<lambda>_ d'. (Inr (), d'))"

definition reconciliation_reasons :: "(string \<times> string) list" where
  "reconciliation_reasons =
     [(''STARTUP_RECONCILIATION'', ''system''),
      (''RECONCILIATION_IN_PROGRESS'', ''reconciler''),
      (''CRITICAL_RECONCILIATION_DISCREPANCY'', ''reconciler''),
      (''INCOMPLETE_BROKER_SNAPSHOT'', ''reconciler''),
      (''BROKER_SNAPSHOT_CONSENSUS_PENDING'', ''reconciler'')]"

definition unfreeze_after_reconciliation :: "time \<Rightarrow> store \<Rightarrow> store" where
  "unfreeze_after_reconciliation at d =
     refresh_control at
       (fold (\<lambda>(reason, source) s.
                snd (resolve_freeze_ticket reason source at ''complete broker snapshot converged'' s))
          reconciliation_reasons d)"

definition record_heartbeat :: "string \<Rightarrow> string \<Rightarrow> time \<Rightarrow> json \<Rightarrow> store \<Rightarrow> store" where
  "record_heartbeat component status at details d =
     d\<lparr>heartbeats := (heartbeats d)(component \<mapsto>
         \<lparr>hb_status = status, hb_observed_at = at, hb_details = details\<rparr>)\<rparr>"

text \<open>\<open>__init__\<close> on an existing database: the seed rows are there already, and the start-up
  ticket is opened again unless one is still open.\<close>

definition reopen_store :: "(json \<Rightarrow> string) \<Rightarrow> time \<Rightarrow> store \<Rightarrow> unit res \<times> store" where
  "reopen_store H now d =
     (let d1 = d\<lparr>tickets := insert_or_ignore (\<lambda>a b. ft_id a = ft_id b) startup_ticket (tickets d)\<rparr> in
      if list_ex (\<lambda>t. ft_reason t = ''STARTUP_RECONCILIATION'' \<and> ft_source t = ''system''
                      \<and> ft_resolved_at t = None) (tickets d1)
      then (Inr (), d1)
      else and_then (open_freeze_ticket H ''STARTUP_RECONCILIATION'' ''system'' now ''BLOCKING'' False d1)
             (\<lambda>_ d2. (Inr (), d2)))"

subsection \<open>The freeze invariant\<close>

definition freeze_inv :: "store \<Rightarrow> bool" where
  "freeze_inv d \<longleftrightarrow> (list_ex is_blocking (tickets d) \<longrightarrow> cs_frozen (control d))"

lemma sort_key_empty_iff [simp]: "sort_key f xs = [] \<longleftrightarrow> xs = []"
  by (metis set_empty set_sort)

lemma active_freeze_reasons_empty [simp]:
  "active_freeze_reasons d = [] \<longleftrightarrow> \<not> list_ex is_blocking (tickets d)"
  by (auto simp: active_freeze_reasons_def list_ex_iff filter_empty_conv)

lemma is_frozen_iff: "fst (is_frozen d) \<longleftrightarrow> list_ex is_blocking (tickets d)"
  by (simp add: is_frozen_def Let_def)

lemma freeze_inv_empty [inv_intros]: "freeze_inv empty_store"
  by (simp add: freeze_inv_def empty_store_def)

lemma freeze_inv_refresh [simp]: "freeze_inv (refresh_control at d)"
  by (simp add: freeze_inv_def refresh_control_def Let_def)

lemma freeze_inv_cong:
  "tickets d' = tickets d \<Longrightarrow> control d' = control d \<Longrightarrow> freeze_inv d' = freeze_inv d"
  by (simp add: freeze_inv_def)

lemma open_ticket_cases:
  assumes "open_freeze_ticket H reason source at sev tx d = (r, d')"
  obtains (existing) t where "r = Inr (ft_id t)" "d' = d" "t \<in> set (tickets d)"
      "ft_reason t = reason" "ft_source t = source" "ft_resolved_at t = None"
    | (clash) e where "r = Inl e" "d' = d"
    | (opened) t where "r = Inr (ft_id t)" "ft_reason t = reason" "ft_source t = source"
        "ft_severity t = sev" "ft_resolved_at t = None" "tickets d' = tickets d @ [t]"
        "ft_id t \<notin> ft_id ` set (tickets d)"
        "cs_frozen (control d') = (tx \<or> sev = ''BLOCKING'' \<or> list_ex is_blocking (tickets d))"
        "d' = d\<lparr>tickets := tickets d', control := control d'\<rparr>"
proof (cases "List.find (\<lambda>t. ft_reason t = reason \<and> ft_source t = source \<and> ft_resolved_at t = None)
    (tickets d)")
  case (Some t)
  then show thesis
    using assms existing [of t] by (auto simp: open_freeze_ticket_def dest: find_Some_set)
next
  case None
  let ?id = "canonical_hash H (ticket_json reason source at)"
  show thesis
  proof (cases "?id \<in> ft_id ` set (tickets d)")
    case True
    then have "list_ex (\<lambda>b. ?id = ft_id b) (tickets d)" by (auto simp: list_ex_iff)
    then show thesis
      using assms None clash by (auto simp: open_freeze_ticket_def insert_row_def Let_def)
  next
    case False
    then show thesis
      using assms None
      by (intro opened [of "\<lparr>ft_id = ?id, ft_reason = reason, ft_severity = sev, ft_source = source,
             ft_created_at = at, ft_resolved_at = None, ft_evidence = None\<rparr>"])
        (auto simp: open_freeze_ticket_def insert_row_def list_ex_iff Let_def refresh_control_def
          is_blocking_def image_iff)
  qed
qed

text \<open>Opening a ticket writes the tickets and the summary row and nothing else.\<close>

lemma open_ticket_frame:
  assumes "open_freeze_ticket H reason source at sev tx d = (r, d')"
  obtains ts c where "d' = d\<lparr>tickets := ts, control := c\<rparr>"
proof -
  from assms show thesis
  proof (cases rule: open_ticket_cases)
    case (existing t)
    then have "d' = d\<lparr>tickets := tickets d, control := control d\<rparr>" by simp
    then show thesis by (rule that)
  next
    case (clash e)
    then have "d' = d\<lparr>tickets := tickets d, control := control d\<rparr>" by simp
    then show thesis by (rule that)
  next
    case (opened t)
    then show thesis by (intro that)
  qed
qed

lemma freeze_inv_open [inv_intros]:
  assumes "freeze_inv d" and "open_freeze_ticket H reason source at sev tx d = (r, d')"
  shows "freeze_inv d'"
  using assms(2)
proof (cases rule: open_ticket_cases)
  case (opened t)
  then show ?thesis using assms(1) by (auto simp: freeze_inv_def is_blocking_def)
qed (use assms(1) in auto)

lemma freeze_inv_resolve [inv_intros]:
  "freeze_inv d \<Longrightarrow> freeze_inv (snd (resolve_freeze_ticket reason source at ev d))"
  by (auto simp: freeze_inv_def resolve_freeze_ticket_def Let_def list_ex_iff set_update_where
      is_blocking_def)

lemma freeze_inv_unfreeze [inv_intros]: "freeze_inv (unfreeze_after_reconciliation at d)"
  by (simp add: unfreeze_after_reconciliation_def)

lemma freeze_inv_heartbeat [inv_intros]:
  "freeze_inv d \<Longrightarrow> freeze_inv (record_heartbeat c s at j d)"
  by (simp add: freeze_inv_def record_heartbeat_def)

lemma freeze_inv_freeze [inv_intros]:
  "freeze_inv d \<Longrightarrow> freeze H reason at tx d = (r, d') \<Longrightarrow> freeze_inv d'"
  using freeze_inv_open [of d H "map upper_char reason" "''legacy''" at "''BLOCKING''" tx]
  by (cases "open_freeze_ticket H (map upper_char reason) ''legacy'' at ''BLOCKING'' tx d")
    (auto simp: freeze_def and_then_def split: sum.splits)

text \<open>Opening a blocking ticket blocks: afterwards the store reports itself frozen, unless an
  unresolved ticket with the same reason and source is recorded as non-blocking.\<close>

lemma open_ticket_blocks:
  assumes "open_freeze_ticket H reason source at ''BLOCKING'' tx d = (Inr tid, d')"
    and "\<forall>t \<in> set (tickets d). ft_reason t = reason \<and> ft_source t = source \<longrightarrow> ft_severity t = ''BLOCKING''"
  shows "list_ex is_blocking (tickets d')"
  using assms(1)
proof (cases rule: open_ticket_cases)
  case (existing t)
  then show ?thesis using assms(2) by (auto simp: list_ex_iff is_blocking_def)
next
  case (opened t)
  then show ?thesis by (auto simp: list_ex_iff is_blocking_def)
qed simp

lemma resolve_tickets:
  "tickets (snd (resolve_freeze_ticket reason source at ev d)) =
     map (\<lambda>t. if ft_reason t = reason \<and> ft_source t = source \<and> ft_resolved_at t = None
               then t\<lparr>ft_resolved_at := Some at, ft_evidence := Some ev\<rparr> else t) (tickets d)"
  by (simp add: resolve_freeze_ticket_def Let_def update_where_def)

text \<open>Reconciliation lifts exactly the freezes it owns: after \<open>unfreeze_after_reconciliation\<close> the
  blocking tickets are those that were blocking before with another reason and source.\<close>

lemma fold_resolve_blocking:
  "set (filter is_blocking (tickets
      (fold (\<lambda>(reason, source) s. snd (resolve_freeze_ticket reason source at ev s)) rs d)))
   = {t \<in> set (tickets d). is_blocking t \<and> (ft_reason t, ft_source t) \<notin> set rs}"
proof (induction rs arbitrary: d)
  case (Cons x rs)
  obtain reason source where x: "x = (reason, source)" by fastforce
  have "{t \<in> set (tickets (snd (resolve_freeze_ticket reason source at ev d))).
           is_blocking t \<and> (ft_reason t, ft_source t) \<notin> set rs}
      = {t \<in> set (tickets d). is_blocking t \<and> (ft_reason t, ft_source t) \<notin> set (x # rs)}"
    by (auto simp: resolve_tickets is_blocking_def x image_iff split: if_splits)
  then show ?case using Cons.IH x by simp
qed auto

lemma unfreeze_blocking:
  "set (filter is_blocking (tickets (unfreeze_after_reconciliation at d)))
   = {t \<in> set (tickets d). is_blocking t \<and> (ft_reason t, ft_source t) \<notin> set reconciliation_reasons}"
  using fold_resolve_blocking
  by (simp add: unfreeze_after_reconciliation_def refresh_control_def Let_def)

lemma unfreeze_control:
  "cs_frozen (control (unfreeze_after_reconciliation at d)) \<longleftrightarrow>
     list_ex is_blocking (tickets (unfreeze_after_reconciliation at d))"
  by (simp add: unfreeze_after_reconciliation_def refresh_control_def Let_def)

end
