(* ===== verification/Ctl_Stage.thy ===== *)
theory Ctl_Stage
  imports Ctl_Freeze
begin

section \<open>Staging and approval\<close>

text \<open>
  \<open>stage\<close>, \<open>approve\<close> and the capacity reads of \<open>src/hanalpha/execution/control_store.py\<close>. Both
  operations are one transaction: whatever raises, the store is the one before the call.
\<close>

subsection \<open>Operations\<close>

definition is_active_reservation :: "reservation_row \<Rightarrow> bool" where
  "is_active_reservation r \<longleftrightarrow>
     rw_status r \<in> {RS_ACTIVE, RS_PARTIALLY_CONSUMED, RS_RECONCILIATION_HOLD}"

abbreviation rw_notional :: "reservation_row \<Rightarrow> rat" where
  "rw_notional r \<equiv> rsv_notional_reserved (rw_reservation r)"
abbreviation rw_account :: "reservation_row \<Rightarrow> string" where
  "rw_account r \<equiv> rsv_account_id (rw_reservation r)"

definition active_reserved_notional :: "store \<Rightarrow> string \<Rightarrow> rat" where
  "active_reserved_notional d account =
     total_of rw_notional
       (filter (\<lambda>r. is_active_reservation r \<and> rw_account r = account) (reservations d))"

definition existing_reserved :: "store \<Rightarrow> risk_reservation \<Rightarrow> rat" where
  "existing_reserved d rsv =
     total_of rw_notional
       (filter (\<lambda>r. is_active_reservation r \<and> rw_account r = rsv_account_id rsv \<and> rw_id r \<noteq> rsv_id rsv)
         (reservations d))"

definition stage_insert_capsule ::
    "(json \<Rightarrow> string) \<Rightarrow> decision_capsule \<Rightarrow> store \<Rightarrow> unit res \<times> store" where
  "stage_insert_capsule H c d =
     (case insert_immutable ''decision_capsules'' (\<lambda>r. cap_decision_id (cw_capsule r)) cw_capsule
             capsule_clash \<lparr>cw_capsule = c, cw_hash = capsule_hash H c\<rparr> (capsules d) of
        Inl e \<Rightarrow> (Inl e, d) | Inr rows \<Rightarrow> (Inr (), d\<lparr>capsules := rows\<rparr>))"

definition new_reservation_row :: "risk_reservation \<Rightarrow> reservation_row" where
  "new_reservation_row r = \<lparr>rw_reservation = r, rw_status = rsv_status r,
     rw_quantity_reserved = rsv_quantity_reserved r, rw_quantity_consumed = rsv_quantity_consumed r,
     rw_version = rsv_version r\<rparr>"

definition stage_insert_reservation :: "risk_reservation \<Rightarrow> store \<Rightarrow> unit res \<times> store" where
  "stage_insert_reservation r d =
     (case insert_immutable ''risk_reservations'' rw_id rw_reservation reservation_clash
             (new_reservation_row r) (reservations d) of
        Inl e \<Rightarrow> (Inl e, d) | Inr rows \<Rightarrow> (Inr (), d\<lparr>reservations := rows\<rparr>))"

definition new_intent_row :: "execution_intent \<Rightarrow> intent_row" where
  "new_intent_row i = \<lparr>iw_intent = i, iw_status = xi_status i, iw_filled = 0,
     iw_broker_order_id = None, iw_last_sequence = 0, iw_version = xi_version i\<rparr>"

definition stage_insert_intent :: "execution_intent \<Rightarrow> store \<Rightarrow> unit res \<times> store" where
  "stage_insert_intent i d =
     (case insert_immutable ''execution_intents'' iw_id iw_intent intent_clash (new_intent_row i)
             (intents d) of
        Inl e \<Rightarrow> (Inl e, d) | Inr rows \<Rightarrow> (Inr (), d\<lparr>intents := rows\<rparr>))"

definition fail_at :: "string option \<Rightarrow> string \<Rightarrow> string \<Rightarrow> store \<Rightarrow> unit res \<times> store" where
  "fail_at failpoint here message d =
     (if failpoint = Some here then (Inl (RuntimeError message), d) else (Inr (), d))"

definition stage_bindings ::
    "decision_capsule \<Rightarrow> risk_reservation \<Rightarrow> execution_intent \<Rightarrow> exn option" where
  "stage_bindings c r i =
     (if rsv_decision_id r \<noteq> cap_decision_id c
      then Some (ExecutionInvariantError ''reservation does not bind to decision'')
      else if rsv_status r \<noteq> RS_ACTIVE
      then Some (ExecutionInvariantError ''new reservation must be active'')
      else if rsv_expires_at r \<le> xi_created_at i
      then Some (ExecutionInvariantError ''reservation expired before intent creation'')
      else if xi_decision_id i \<noteq> cap_decision_id c \<or> xi_reservation_id i \<noteq> rsv_id r
              \<or> xi_quantity i > rsv_quantity_reserved r
              \<or> xi_status i \<notin> {XS_APPROVED, XS_APPROVAL_PENDING}
      then Some (ExecutionInvariantError ''intent does not bind to active reservation'')
      else None)"

definition stage_body ::
    "(json \<Rightarrow> string) \<Rightarrow> decision_capsule \<Rightarrow> risk_reservation \<Rightarrow> execution_intent \<Rightarrow> string option
      \<Rightarrow> store \<Rightarrow> unit res \<times> store" where
  "stage_body H c r i failpoint d =
     (let blocking = map ft_reason (filter is_blocking (tickets d)) in
      if blocking \<noteq> []
      then (Inl (ExecutionInvariantError (''new risk is frozen: '' @ join_comma blocking)), d)
      else if existing_reserved d r + rsv_notional_reserved r > rsv_account_notional_capacity r
      then (Inl (ExecutionInvariantError ''durable account reservation capacity exceeded''), d)
      else
        and_then (stage_insert_capsule H c d) (\<lambda>_ d.
        and_then (fail_at failpoint ''after_capsule'' ''injected crash after capsule'' d) (\<lambda>_ d.
        and_then (stage_insert_reservation r d) (\<lambda>_ d.
        and_then (fail_at failpoint ''after_reservation'' ''injected crash after reservation'' d) (\<lambda>_ d.
        and_then (stage_insert_intent i d) (\<lambda>_ d.
        and_then (if xi_status i = XS_APPROVED then enqueue H i d else (Inr (), d)) (\<lambda>_ d.
          fail_at failpoint ''after_outbox'' ''injected crash after outbox'' d)))))))"

definition stage ::
    "(json \<Rightarrow> string) \<Rightarrow> decision_capsule \<Rightarrow> risk_reservation \<Rightarrow> execution_intent \<Rightarrow> string option
      \<Rightarrow> store \<Rightarrow> unit res \<times> store" where
  "stage H c r i failpoint d =
     (case stage_bindings c r i of
        Some e \<Rightarrow> (Inl e, d)
      | None \<Rightarrow> transaction (stage_body H c r i failpoint) d)"

definition approval_json :: "approval_doc \<Rightarrow> json" where
  "approval_json a = JObj
     [(''intent_id'', JStr (ad_intent_id a)), (''actor_id'', JStr (ad_actor_id a)),
      (''approved_at'', JTime (ad_approved_at a)),
      (''approval_expires_at'', JTime (ad_expires_at a)),
      (''intent_spec_hash'', JStr (ad_intent_spec_hash a)),
      (''reservation_hash'', JStr (ad_reservation_hash a)),
      (''projection_version'', JInt (ad_projection_version a))]"

definition reservation_of :: "store \<Rightarrow> string \<Rightarrow> risk_reservation res" where
  "reservation_of d reservation_id =
     (case List.find (\<lambda>r. rw_id r = reservation_id) (reservations d) of
        None \<Rightarrow> Inl (ExecutionInvariantError ''intent reservation is missing'')
      | Some r \<Rightarrow> Inr (rw_reservation r))"

definition approval_of ::
    "(json \<Rightarrow> string) \<Rightarrow> intent_row \<Rightarrow> risk_reservation \<Rightarrow> string \<Rightarrow> time \<Rightarrow> approval_doc" where
  "approval_of H row rsv actor at =
     \<lparr>ad_intent_id = iw_id row, ad_actor_id = actor, ad_approved_at = at,
      ad_expires_at = rsv_expires_at rsv,
      ad_intent_spec_hash = canonical_hash H (intent_json (iw_intent row)),
      ad_reservation_hash = canonical_hash H (reservation_json rsv),
      ad_projection_version = iw_version row\<rparr>"

definition approve_record ::
    "(json \<Rightarrow> string) \<Rightarrow> approval_doc \<Rightarrow> store \<Rightarrow> string res \<times> store" where
  "approve_record H doc d =
     (let approval_id = canonical_hash H (approval_json doc);
          existing = List.find (\<lambda>a. aw_intent_id a = ad_intent_id doc) (approvals d)
      in if (case existing of None \<Rightarrow> False | Some a \<Rightarrow> aw_doc a \<noteq> doc)
         then (Inl (ExecutionInvariantError ''intent already has a different approval''), d)
         else (Inr approval_id,
               set_intent_status (ad_intent_id doc) XS_APPROVED
                 (d\<lparr>approvals := insert_or_ignore
                      (\<lambda>a b. aw_id a = aw_id b \<or> aw_intent_id a = aw_intent_id b)
                      \<lparr>aw_id = approval_id, aw_doc = doc\<rparr> (approvals d)\<rparr>)))"

definition approve ::
    "(json \<Rightarrow> string) \<Rightarrow> string \<Rightarrow> string \<Rightarrow> time \<Rightarrow> store \<Rightarrow> string res \<times> store" where
  "approve H intent_id actor at d =
     (let blocking = active_freeze_reasons d in
      if blocking \<noteq> []
      then (Inl (ExecutionInvariantError (''approval is frozen: '' @ join_comma blocking)), d)
      else case intent_row_of d intent_id of
        Inl e \<Rightarrow> (Inl e, d)
      | Inr row \<Rightarrow>
          (if iw_status row \<notin> {XS_APPROVAL_PENDING, XS_APPROVED, XS_OUTBOXED}
           then (Inl (ExecutionInvariantError ''intent is not approval-pending''), d)
           else case reservation_of d (iw_reservation_id row) of
             Inl e \<Rightarrow> (Inl e, d)
           | Inr rsv \<Rightarrow>
               (if rsv_expires_at rsv \<le> at
                then (Inl (ExecutionInvariantError ''reservation expired before approval''), d)
                else approve_record H (approval_of H row rsv actor at) d)))"

definition pending_approvals :: "store \<Rightarrow> intent_row list" where
  "pending_approvals d = filter (\<lambda>r. iw_status r = XS_APPROVAL_PENDING) (intents d)"

definition pending_approval_count :: "store \<Rightarrow> nat" where
  "pending_approval_count d = length (pending_approvals d)"

subsection \<open>What a successful stage does\<close>

lemma fail_at_Inr [simp]: "fail_at fp h m d = (Inr u, d') \<longleftrightarrow> fp \<noteq> Some h \<and> d' = d"
  by (auto simp: fail_at_def)

lemma stage_insert_capsule_Inr:
  "stage_insert_capsule H c d = (Inr u, d') \<Longrightarrow> \<exists>rows. d' = d\<lparr>capsules := rows\<rparr>"
  by (auto simp: stage_insert_capsule_def split: sum.splits)

lemma stage_insert_reservation_Inr:
  "stage_insert_reservation r d = (Inr u, d') \<Longrightarrow>
     d' = d\<lparr>reservations := insert_or_ignore reservation_clash (new_reservation_row r) (reservations d)\<rparr>
     \<and> (pred_option (\<lambda>x. rw_reservation x = r) (List.find (\<lambda>x. rw_id x = rsv_id r) (reservations d)))"
  by (auto simp: stage_insert_reservation_def insert_immutable_def new_reservation_row_def
      split: sum.splits option.splits if_splits)

lemma stage_insert_intent_Inr:
  "stage_insert_intent i d = (Inr u, d') \<Longrightarrow>
     d' = d\<lparr>intents := insert_or_ignore intent_clash (new_intent_row i) (intents d)\<rparr>"
  by (auto simp: stage_insert_intent_def dest: insert_immutable_Inr split: sum.splits)

lemma enqueue_Inr:
  "enqueue H i d = (Inr u, d') \<Longrightarrow>
     d' = d\<lparr>outbox := insert_or_ignore outbox_clash
              \<lparr>ow_command = outbox_command_of H i, ow_status = OB_PENDING, ow_token = None,
               ow_claimed_at = None, ow_delivered_at = None\<rparr> (outbox d),
            intents := update_where
              (\<lambda>r. iw_id r = xi_id i \<and> (iw_status r = XS_APPROVED \<or> iw_status r = XS_APPROVAL_PENDING))
              (\<lambda>r. r\<lparr>iw_status := XS_OUTBOXED, iw_version := iw_version r + 1\<rparr>) (intents d)\<rparr>"
  by (auto simp: enqueue_def outbox_command_of_def dest!: insert_immutable_Inr split: sum.splits)

text \<open>The shape of a successful stage: bindings hold, nothing blocks, capacity suffices, and the
  three rows (and the outbox row of a pre-approved intent) are inserted.\<close>

lemma stage_Inr:
  assumes "stage H c r i fp d = (Inr u, d')"
  obtains caps d1 where "stage_bindings c r i = None" "\<not> list_ex is_blocking (tickets d)"
    "existing_reserved d r + rsv_notional_reserved r \<le> rsv_account_notional_capacity r"
    "pred_option (\<lambda>x. rw_reservation x = r) (List.find (\<lambda>x. rw_id x = rsv_id r) (reservations d))"
    "reservations d' = insert_or_ignore reservation_clash (new_reservation_row r) (reservations d)"
    "d1 = d\<lparr>capsules := caps, reservations := reservations d',
            intents := insert_or_ignore intent_clash (new_intent_row i) (intents d)\<rparr>"
    "(if xi_status i = XS_APPROVED then enqueue H i d1 else (Inr (), d1)) = (Inr (), d')"
proof -
  have b: "stage_bindings c r i = None" and t: "stage_body H c r i fp d = (Inr u, d')"
    using assms by (auto simp: stage_def split: option.splits)
  have nb: "\<not> list_ex is_blocking (tickets d)"
    and cap: "existing_reserved d r + rsv_notional_reserved r \<le> rsv_account_notional_capacity r"
    using t by (auto simp: stage_body_def Let_def list_ex_iff filter_empty_conv split: if_splits)
  obtain d1 d2 d3 where
    s1: "stage_insert_capsule H c d = (Inr (), d1)" and
    s2: "stage_insert_reservation r d1 = (Inr (), d2)" and
    s3: "stage_insert_intent i d2 = (Inr (), d3)" and
    s4: "(if xi_status i = XS_APPROVED then enqueue H i d3 else (Inr (), d3)) = (Inr (), d')"
    using t nb cap
    by (auto simp: stage_body_def Let_def and_then_Inr_iff list_ex_iff filter_empty_conv split: if_splits)
  from stage_insert_capsule_Inr [OF s1] obtain rows where d1: "d1 = d\<lparr>capsules := rows\<rparr>" by blast
  note d2 = stage_insert_reservation_Inr [OF s2] and d3 = stage_insert_intent_Inr [OF s3]
  have r': "reservations d' = reservations d2"
    using s4 d3 by (auto dest!: enqueue_Inr split: if_splits)
  show thesis
  proof (rule that [OF b nb cap])
    show "pred_option (\<lambda>x. rw_reservation x = r) (List.find (\<lambda>x. rw_id x = rsv_id r) (reservations d))"
      using d2 d1 by simp
    show "reservations d' = insert_or_ignore reservation_clash (new_reservation_row r) (reservations d)"
      using d2 d1 r' by simp
    show "d3 = d\<lparr>capsules := rows, reservations := reservations d',
            intents := insert_or_ignore intent_clash (new_intent_row i) (intents d)\<rparr>"
      using d1 d2 d3 r' by simp
  qed (rule s4)
qed

lemma stage_error_unchanged:
  "stage H c r i fp d = (Inl e, d') \<Longrightarrow> d' = d"
  by (auto simp: stage_def split: option.splits)

lemma approve_error_unchanged:
  "approve H x a at d = (Inl e, d') \<Longrightarrow> d' = d"
  by (auto simp: approve_def approve_record_def Let_def split: if_splits sum.splits)

subsection \<open>Capacity\<close>

text \<open>Splitting the active total of an account at one reservation id.\<close>

lemma active_reserved_split:
  assumes "distinct (map rw_id rows)"
    and "\<And>x. x \<in> set rows \<Longrightarrow> rw_id x = rsv_id r \<Longrightarrow> rw_reservation x = r"
    and "0 \<le> rsv_notional_reserved r"
  shows "total_of rw_notional (filter (\<lambda>x. is_active_reservation x \<and> rw_account x = rsv_account_id r) rows)
       \<le> total_of rw_notional (filter (\<lambda>x. is_active_reservation x \<and> rw_account x = rsv_account_id r
                                            \<and> rw_id x \<noteq> rsv_id r) rows)
         + (if rsv_id r \<in> rw_id ` set rows then rsv_notional_reserved r else 0)"
  using assms(1,2)
proof (induction rows)
  case (Cons a rows)
  have IH: "total_of rw_notional (filter (\<lambda>x. is_active_reservation x \<and> rw_account x = rsv_account_id r) rows)
       \<le> total_of rw_notional (filter (\<lambda>x. is_active_reservation x \<and> rw_account x = rsv_account_id r
                                            \<and> rw_id x \<noteq> rsv_id r) rows)
         + (if rsv_id r \<in> rw_id ` set rows then rsv_notional_reserved r else 0)"
    using Cons by simp
  show ?case
  proof (cases "rw_id a = rsv_id r")
    case True
    then have "rw_reservation a = r" using Cons.prems(2) [of a] by simp
    moreover have "rsv_id r \<notin> rw_id ` set rows" using Cons.prems(1) True by auto
    ultimately show ?thesis using IH assms(3) by auto
  next
    case False
    then have "rsv_id r \<in> rw_id ` set (a # rows) \<longleftrightarrow> rsv_id r \<in> rw_id ` set rows" by auto
    then show ?thesis
      using IH False by (cases "rsv_id r \<in> rw_id ` set rows") (simp_all del: set_simps)
  qed
qed simp

lemma stage_keeps_capacity:
  assumes ok: "stage H c r i fp d = (Inr u, d')"
    and uniq: "distinct (map rw_id (reservations d))"
    and nonneg: "0 \<le> rsv_notional_reserved r"
  shows "active_reserved_notional d' (rsv_account_id r) \<le> rsv_account_notional_capacity r"
proof -
  have cap: "existing_reserved d r + rsv_notional_reserved r \<le> rsv_account_notional_capacity r"
    using ok by (rule stage_Inr)
  have same: "pred_option (\<lambda>x. rw_reservation x = r) (List.find (\<lambda>x. rw_id x = rsv_id r) (reservations d))"
    using ok by (rule stage_Inr)
  have rows: "reservations d' = insert_or_ignore reservation_clash (new_reservation_row r) (reservations d)"
    using ok by (rule stage_Inr)
  have docs: "rw_reservation x = r" if "x \<in> set (reservations d)" "rw_id x = rsv_id r" for x
    using same find_unique_key [OF uniq that(1)] that(2) by simp
  let ?P = "\<lambda>x. is_active_reservation x \<and> rw_account x = rsv_account_id r"
  have old: "total_of rw_notional (filter ?P (reservations d))
      \<le> existing_reserved d r + (if rsv_id r \<in> rw_id ` set (reservations d) then rsv_notional_reserved r else 0)"
    using active_reserved_split [OF uniq docs nonneg] by (simp add: existing_reserved_def)
  show ?thesis
  proof (cases "list_ex (reservation_clash (new_reservation_row r)) (reservations d)")
    case True
    then show ?thesis
      using old cap nonneg rows by (auto simp: active_reserved_notional_def insert_or_ignore_def split: if_splits)
  next
    case False
    then have "rsv_id r \<notin> rw_id ` set (reservations d)"
      by (auto simp: list_ex_iff reservation_clash_def new_reservation_row_def)
    then have "total_of rw_notional (filter ?P (reservations d)) \<le> existing_reserved d r"
      using old by simp
    then show ?thesis
      using cap nonneg rows False
      by (auto simp: active_reserved_notional_def insert_or_ignore_def new_reservation_row_def)
  qed
qed

subsection \<open>Approval is given once\<close>

lemma approve_Inr:
  assumes "approve H x actor at d = (Inr aid, d')"
  obtains row rsv where "\<not> list_ex is_blocking (tickets d)" "intent_row_of d x = Inr row"
    "iw_status row \<in> {XS_APPROVAL_PENDING, XS_APPROVED, XS_OUTBOXED}"
    "reservation_of d (iw_reservation_id row) = Inr rsv" "at < rsv_expires_at rsv"
    "List.find (\<lambda>a. aw_intent_id a = x) (approvals d) = None
     \<or> (\<exists>a. List.find (\<lambda>a. aw_intent_id a = x) (approvals d) = Some a \<and> aw_doc a = approval_of H row rsv actor at)"
    "aid = canonical_hash H (approval_json (approval_of H row rsv actor at))"
    "d' = set_intent_status x XS_APPROVED
       (d\<lparr>approvals := insert_or_ignore (\<lambda>a b. aw_id a = aw_id b \<or> aw_intent_id a = aw_intent_id b)
          \<lparr>aw_id = aid, aw_doc = approval_of H row rsv actor at\<rparr> (approvals d)\<rparr>)"
proof -
  obtain row where row: "intent_row_of d x = Inr row"
    using assms by (auto simp: approve_def Let_def split: if_splits sum.splits)
  then have id: "iw_id row = x" by (simp add: intent_row_of_Inr)
  obtain rsv where rsv: "reservation_of d (iw_reservation_id row) = Inr rsv"
    using assms row by (auto simp: approve_def Let_def split: if_splits sum.splits)
  show thesis
    using assms row rsv id
    by (intro that [of row rsv])
      (auto simp: approve_def approve_record_def Let_def approval_of_def split: if_splits option.splits)
qed

end
