(* ===== verification/Ctl_Account.thy ===== *)
theory Ctl_Account
  imports Ctl_Freeze
begin

section \<open>Broker truth: baseline, consensus, authority, quotes, ledgers\<close>

text \<open>
  The part of \<open>src/hanalpha/execution/control_store.py\<close> that admits facts from outside: the cash
  baseline and its bridges, the votes that make a broker snapshot a consensus, the snapshots
  promoted to authority, quote snapshots and the append-only outcome ledgers. A Python dict is an
  association list here and is read with \<open>map_of\<close>.
\<close>

subsection \<open>Cash baseline\<close>

definition baseline_of :: "broker_snapshot \<Rightarrow> string option \<Rightarrow> store \<Rightarrow> account_baseline" where
  "baseline_of s bridge d =
     \<lparr>bl_cash = bs_cash s, bl_buying_power = bs_buying_power s, bl_settled_cash = bs_settled_cash s,
      bl_accrued_cash = bs_accrued_cash s, bl_currency_balances = bs_currency_balances s,
      bl_as_of = bs_as_of s, bl_cash_delta = cash_delta d, bl_commissions = commissions d,
      bl_bridge_id = bridge\<rparr>"

definition set_account_baseline :: "broker_snapshot \<Rightarrow> store \<Rightarrow> store" where
  "set_account_baseline s d =
     (case baseline d of None \<Rightarrow> d\<lparr>baseline := Some (baseline_of s None d)\<rparr> | Some _ \<Rightarrow> d)"

definition advance_account_baseline_epoch ::
    "(json \<Rightarrow> string) \<Rightarrow> broker_snapshot \<Rightarrow> string \<Rightarrow> time \<Rightarrow> store \<Rightarrow> unit res \<times> store" where
  "advance_account_baseline_epoch H s bridge_id at d =
     (case List.find (\<lambda>b. br_id b = bridge_id) (bridges d) of
        None \<Rightarrow> (Inl (ExecutionInvariantError ''cash baseline requires an explained bridge''), d)
      | Some b \<Rightarrow>
          (if \<not> br_epoch_started b
           then (Inl (ExecutionInvariantError ''cash baseline requires an explained bridge''), d)
           else (Inr (), append_order_event H bridge_id ''CASH_BASELINE_EPOCH_ADVANCED'' at
                   (PL_bridge (bs_as_of s) bridge_id)
                   (d\<lparr>baseline := Some (baseline_of s (Some bridge_id) d)\<rparr>))))"

definition expected_account_cash :: "store \<Rightarrow> rat option" where
  "expected_account_cash d =
     (case baseline d of None \<Rightarrow> None
      | Some b \<Rightarrow> Some (bl_cash b + cash_delta d - bl_cash_delta b))"

record account_fields =
  af_cash :: rat
  af_settled_cash :: "rat option"
  af_buying_power :: "rat option"
  af_accrued_cash :: "rat option"

definition expected_account_fields :: "store \<Rightarrow> account_fields option" where
  "expected_account_fields d =
     (case baseline d of None \<Rightarrow> None
      | Some b \<Rightarrow> Some \<lparr>af_cash = bl_cash b + (cash_delta d - bl_cash_delta b),
                        af_settled_cash = None, af_buying_power = None,
                        af_accrued_cash = bl_accrued_cash b\<rparr>)"

definition allowed_bridge_types :: "string list" where
  "allowed_bridge_types =
     [''BROKER_INTEREST'', ''DIVIDEND'', ''DEPOSIT'', ''WITHDRAWAL'', ''MANUAL_TRADE'',
      ''FX_TRANSLATION'', ''BROKER_ADJUSTMENT'']"

definition record_cash_bridge ::
    "(json \<Rightarrow> string) \<Rightarrow> string \<Rightarrow> rat \<Rightarrow> string \<Rightarrow> time \<Rightarrow> json \<Rightarrow> bool \<Rightarrow> store \<Rightarrow> string res \<times> store" where
  "record_cash_bridge H event_type amount currency at evidence explained d =
     (let ty = (if event_type \<in> set allowed_bridge_types then event_type
                else ''UNKNOWN_EXTERNAL_CASH_EVENT'');
          bridge_id = canonical_hash H (JObj
            [(''event_type'', JStr ty), (''amount'', JNum amount), (''currency'', JStr currency),
             (''occurred_at'', JTime at), (''evidence'', evidence)]);
          row = \<lparr>br_id = bridge_id, br_event_type = ty, br_amount = amount, br_currency = currency,
                 br_occurred_at = at, br_evidence = evidence,
                 br_epoch_started = (explained \<and> ty \<in> set allowed_bridge_types)\<rparr>;
          d1 = d\<lparr>bridges := insert_or_ignore (\<lambda>a b. br_id a = br_id b) row (bridges d)\<rparr>
      in if \<not> explained \<or> ty = ''UNKNOWN_EXTERNAL_CASH_EVENT''
         then and_then (open_freeze_ticket H ''UNEXPLAINED_CASH_BRIDGE'' ''cash_bridge'' at ''BLOCKING'' False d1)
                (\<lambda>_ d2. (Inr bridge_id, d2))
         else (Inr bridge_id, d1))"

subsection \<open>Snapshot consensus\<close>

definition truthy :: "string option \<Rightarrow> bool" where
  "truthy x = (case x of None \<Rightarrow> False | Some s \<Rightarrow> s \<noteq> [])"

text \<open>\<open>ORDER BY key DESC LIMIT 1\<close>: the first row, in rowid order, with the greatest key.\<close>

fun max_by :: "('r \<Rightarrow> 'k::linorder) \<Rightarrow> 'r list \<Rightarrow> 'r option" where
  "max_by k [] = None"
| "max_by k (x # xs) =
     (case max_by k xs of None \<Rightarrow> Some x | Some y \<Rightarrow> if k x < k y then Some y else Some x)"

definition is_accepted :: "vote_row \<Rightarrow> bool" where
  "is_accepted v \<longleftrightarrow> vt_disposition v \<noteq> REJECTED_NON_INDEPENDENT"

definition previous_vote :: "store \<Rightarrow> string \<Rightarrow> vote_row option" where
  "previous_vote d scope =
     max_by (\<lambda>v. (vt_as_of v, vt_recorded_at v))
       (filter (\<lambda>v. vt_scope_hash v = scope \<and> is_accepted v) (votes d))"

definition valuation_within :: "(string \<times> rat) list \<Rightarrow> (string \<times> rat) list \<Rightarrow> bool" where
  "valuation_within before after \<longleftrightarrow>
     set (map fst before) = set (map fst after)
     \<and> list_all (\<lambda>(k, v). case map_of before k of
                    None \<Rightarrow> False
                  | Some b \<Rightarrow> \<bar>v - b\<bar> \<le> max 1 (\<bar>b\<bar> * 25 / 10000)) after"

text \<open>\<open>_authority_equivalence\<close>: the \<open>state_equivalent\<close> verdict; the other entries of the returned
  dict explain it and are not read again.\<close>

definition authority_equivalence :: "vote_row option \<Rightarrow> broker_snapshot \<Rightarrow> bool" where
  "authority_equivalence previous s =
     (case previous of None \<Rightarrow> False
      | Some v \<Rightarrow>
          Some (vt_semantic_hash v) = bs_semantic_hash s
          \<and> bs_normalization_policy_hash (vt_snapshot v) = bs_normalization_policy_hash s
          \<and> valuation_within (bs_valuation_fields (vt_snapshot v)) (bs_valuation_fields s))"

definition independent_of :: "vote_row \<Rightarrow> broker_snapshot \<Rightarrow> duration \<Rightarrow> bool" where
  "independent_of v s min_interval \<longleftrightarrow>
     Some (vt_certificate_id v) \<noteq> bs_certificate_id s \<and> Some (vt_session_id v) \<noteq> bs_session_id s
     \<and> bs_as_of s > vt_as_of v \<and> bs_final_watermark s > vt_watermark v
     \<and> bs_as_of s - vt_as_of v \<ge> min_interval"

definition votable :: "broker_snapshot \<Rightarrow> bool" where
  "votable s \<longleftrightarrow> bs_complete s \<and> truthy (bs_semantic_hash s) \<and> truthy (bs_scope_hash s)
     \<and> truthy (bs_certificate_id s) \<and> truthy (bs_observation_id s) \<and> truthy (bs_session_id s)
     \<and> bs_final_watermark s > 0"

text \<open>The vote this snapshot gets: consecutive count, first-seen time and disposition. An
  independent vote with no consensus row would raise: \<open>row["consecutive_count"]\<close> on \<open>None\<close>.\<close>

definition vote_outcome ::
    "vote_row option \<Rightarrow> consensus_row option \<Rightarrow> broker_snapshot \<Rightarrow> time \<Rightarrow> duration
      \<Rightarrow> (int \<times> time \<times> vote_disposition) res" where
  "vote_outcome previous row s at min_interval =
     (case previous of
        None \<Rightarrow> Inr (1, at, ACCEPTED_FIRST)
      | Some v \<Rightarrow>
          (if Some (vt_semantic_hash v) = bs_semantic_hash s \<and> authority_equivalence previous s then
             (if independent_of v s min_interval then
                (case row of None \<Rightarrow> Inl (TypeError ''NoneType'')
                 | Some c \<Rightarrow> Inr (cz_count c + 1, cz_first_seen_at c, ACCEPTED_INDEPENDENT))
              else
                (case row of None \<Rightarrow> Inr (1, at, REJECTED_NON_INDEPENDENT)
                 | Some c \<Rightarrow> Inr (cz_count c, cz_first_seen_at c, REJECTED_NON_INDEPENDENT)))
           else Inr (1, at, ACCEPTED_DIVERGENT_RESET)))"

definition register_vote ::
    "broker_snapshot \<Rightarrow> time \<Rightarrow> int \<times> time \<times> vote_disposition \<Rightarrow> bool \<Rightarrow> store \<Rightarrow> store" where
  "register_vote s at outcome equivalent d =
     (let (count, first_seen, disposition) = outcome;
          scope = the (bs_scope_hash s)
      in d\<lparr>votes := votes d @
             [\<lparr>vt_observation_id = the (bs_observation_id s), vt_certificate_id = the (bs_certificate_id s),
               vt_session_id = the (bs_session_id s), vt_scope_hash = scope,
               vt_semantic_hash = the (bs_semantic_hash s), vt_as_of = bs_as_of s,
               vt_watermark = bs_final_watermark s, vt_recorded_at = at,
               vt_disposition = disposition, vt_snapshot = s, vt_equivalent = equivalent\<rparr>],
           consensus := (consensus d)(scope \<mapsto>
             \<lparr>cz_semantic_hash = the (bs_semantic_hash s), cz_count = count,
              cz_first_seen_at = first_seen, cz_last_seen_at = at,
              cz_certificate_id = the (bs_certificate_id s)\<rparr>)\<rparr>)"

definition register_snapshot_consensus ::
    "broker_snapshot \<Rightarrow> time \<Rightarrow> duration \<Rightarrow> store \<Rightarrow> (bool \<times> int) res \<times> store" where
  "register_snapshot_consensus s at min_interval d =
     (if \<not> votable s then (Inr (False, 0), d)
      else
        let scope = the (bs_scope_hash s); row = consensus d scope in
        if list_ex (\<lambda>v. vt_observation_id v = the (bs_observation_id s)) (votes d)
        then (let n = (case row of None \<Rightarrow> 0 | Some c \<Rightarrow> cz_count c) in (Inr (n \<ge> 2, n), d))
        else
          let previous = previous_vote d scope in
          case vote_outcome previous row s at min_interval of
            Inl e \<Rightarrow> (Inl e, d)
          | Inr outcome \<Rightarrow>
              (Inr (fst outcome \<ge> 2, fst outcome),
               register_vote s at outcome (authority_equivalence previous s) d))"

subsection \<open>Snapshot authority\<close>

definition record_broker_snapshot_authority ::
    "broker_snapshot \<Rightarrow> string \<Rightarrow> string \<Rightarrow> time \<Rightarrow> store \<Rightarrow> bool res \<times> store" where
  "record_broker_snapshot_authority s run_id status at d =
     (if \<not> (truthy (bs_certificate_id s) \<and> truthy (bs_semantic_hash s) \<and> truthy (bs_scope_hash s))
      then (Inl (ExecutionInvariantError ''broker snapshot authority metadata is incomplete''), d)
      else
        let cert = the (bs_certificate_id s);
            promoted = (status = ''CONVERGED'' \<and> components_complete s);
            d1 = d\<lparr>candidates := insert_or_replace cd_certificate_id
                    \<lparr>cd_certificate_id = cert, cd_snapshot = s, cd_run_id = run_id, cd_status = status,
                     cd_promotion = (if promoted then ''PROMOTED'' else ''REJECTED''),
                     cd_policy_reason =
                       (if promoted then ''policy_converged''
                        else if status = ''CONVERGED'' then ''authority_components_incomplete''
                        else ''reconciliation_not_converged''),
                     cd_recorded_at = at\<rparr> (candidates d)\<rparr>
        in if \<not> promoted then (Inr False, d1)
           else (Inr True, d1\<lparr>authorities := insert_or_replace au_certificate_id
                   \<lparr>au_certificate_id = cert, au_semantic_hash = the (bs_semantic_hash s),
                    au_scope_hash = the (bs_scope_hash s), au_as_of = bs_as_of s, au_snapshot = s,
                    au_run_id = run_id, au_status = status, au_recorded_at = at\<rparr> (authorities d1)\<rparr>))"

definition latest_broker_snapshot_authority ::
    "(time \<times> duration) option \<Rightarrow> store \<Rightarrow> authority_row option" where
  "latest_broker_snapshot_authority fresh d =
     (case max_by au_as_of (filter (\<lambda>a. au_status a = ''CONVERGED'') (authorities d)) of
        None \<Rightarrow> None
      | Some a \<Rightarrow>
          (case fresh of
             None \<Rightarrow> Some a
           | Some (at, max_age) \<Rightarrow>
               (if at - au_as_of a < 0 \<or> at - au_as_of a > max_age then None else Some a)))"

subsection \<open>Quotes and outcome ledgers\<close>

definition quote_raw_json ::
    "string \<Rightarrow> rat \<Rightarrow> rat \<Rightarrow> rat option \<Rightarrow> time \<Rightarrow> string \<Rightarrow> string \<Rightarrow> string \<Rightarrow> string \<Rightarrow> json" where
  "quote_raw_json symb bid ask lst pt provider feed venue currency = JObj
     [(''symbol'', JStr symb), (''bid'', JNum bid), (''ask'', JNum ask), (''last'', opt_json JNum lst),
      (''provider_timestamp'', JTime pt), (''provider'', JStr provider), (''feed_mode'', JStr feed),
      (''venue'', JStr venue), (''currency'', JStr currency)]"

definition freshness_policy_json :: json where
  "freshness_policy_json = JObj
     [(''quote_max_age_seconds'', JInt 5), (''provider_max_age_seconds'', JInt 5),
      (''eligible_market_phases'', JArr [JStr ''OPEN'', JStr ''REGULAR'']),
      (''required_feed_mode'', JStr ''REALTIME''), (''maximum_spread_bps'', JInt 50),
      (''venue_and_currency_required'', JBool True)]"

definition record_quote_snapshot ::
    "(json \<Rightarrow> string) \<Rightarrow> string \<Rightarrow> rat \<Rightarrow> rat \<Rightarrow> rat option \<Rightarrow> time \<Rightarrow> time \<Rightarrow> string \<Rightarrow> string \<Rightarrow> string
      \<Rightarrow> string \<Rightarrow> string \<Rightarrow> time \<Rightarrow> store \<Rightarrow> quote_snapshot res \<times> store" where
  "record_quote_snapshot H symb bid ask lst observed pt provider feed phase venue currency recorded d =
     (let raw = canonical_hash H (quote_raw_json symb bid ask lst pt provider feed venue currency);
          policy = canonical_hash H freshness_policy_json;
          body = JObj
            [(''symbol'', JStr symb), (''bid'', JNum bid), (''ask'', JNum ask),
             (''last'', opt_json JNum lst), (''observed_at'', JTime observed),
             (''provider_timestamp'', JTime pt), (''provider'', JStr provider),
             (''feed_mode'', JStr feed), (''market_phase'', JStr phase), (''venue'', JStr venue),
             (''currency'', JStr currency), (''raw_hash'', JStr raw),
             (''freshness_policy_hash'', JStr policy)];
          q = \<lparr>qs_id = canonical_hash H body, qs_symbol = symb, qs_bid = bid, qs_ask = ask,
               qs_last = lst, qs_observed_at = observed, qs_provider_timestamp = pt,
               qs_provider = provider, qs_feed_mode = feed, qs_market_phase = phase,
               qs_venue = venue, qs_currency = currency, qs_raw_hash = raw,
               qs_freshness_policy_hash = policy\<rparr>
      in if \<not> quote_ok q then (Inl (ValueError ''QuoteSnapshot''), d)
         else (Inr q, d\<lparr>quotes := insert_or_ignore (\<lambda>a b. qs_id (qw_quote a) = qs_id (qw_quote b))
                          \<lparr>qw_quote = q, qw_recorded_at = recorded\<rparr> (quotes d)\<rparr>))"

definition ledger_append :: "(json \<Rightarrow> string) \<Rightarrow> json \<Rightarrow> ledger_row list \<Rightarrow> ledger_row list" where
  "ledger_append H doc rows =
     insert_or_ignore (\<lambda>a b. lr_id a = lr_id b)
       \<lparr>lr_id = canonical_hash H doc, lr_document = doc\<rparr> rows"

definition record_no_trade ::
    "(json \<Rightarrow> string) \<Rightarrow> string \<Rightarrow> string \<Rightarrow> string \<Rightarrow> time \<Rightarrow> json \<Rightarrow> store \<Rightarrow> string \<times> store" where
  "record_no_trade H decision_id reason source at payload d =
     (let doc = JObj [(''decision_id'', JStr decision_id), (''reason_code'', JStr reason),
                      (''source'', JStr source), (''recorded_at'', JTime at), (''payload'', payload)]
      in (canonical_hash H doc, d\<lparr>no_trades := ledger_append H doc (no_trades d)\<rparr>))"

definition record_reality_gap ::
    "(json \<Rightarrow> string) \<Rightarrow> string \<Rightarrow> string \<Rightarrow> time \<Rightarrow> json \<Rightarrow> store \<Rightarrow> string \<times> store" where
  "record_reality_gap H decision_id gap_type at payload d =
     (let doc = JObj [(''decision_id'', JStr decision_id), (''gap_type'', JStr gap_type),
                      (''recorded_at'', JTime at), (''payload'', payload)]
      in (canonical_hash H doc, d\<lparr>reality_gaps := ledger_append H doc (reality_gaps d)\<rparr>))"

definition record_naked_exposure ::
    "(json \<Rightarrow> string) \<Rightarrow> string \<Rightarrow> int \<Rightarrow> int \<Rightarrow> time \<Rightarrow> store \<Rightarrow> string \<times> store" where
  "record_naked_exposure H instrument_id quantity duration_ms at d =
     (let doc = JObj [(''instrument_id'', JStr instrument_id),
                      (''unprotected_quantity'', JInt quantity), (''detected_at'', JTime at),
                      (''duration_ms'', JInt duration_ms)]
      in (canonical_hash H doc, d\<lparr>naked_exposures := ledger_append H doc (naked_exposures d)\<rparr>))"

subsection \<open>Lemmas: greatest row\<close>

lemma max_by_None [simp]: "max_by k xs = None \<longleftrightarrow> xs = []"
  by (cases xs) (auto split: option.splits)

lemma max_by_Some:
  "max_by k xs = Some x \<Longrightarrow> x \<in> set xs \<and> (\<forall>y \<in> set xs. k y \<le> k x)"
proof (induction xs arbitrary: x)
  case (Cons a xs)
  show ?case
  proof (cases "max_by k xs")
    case None
    then show ?thesis using Cons.prems by auto
  next
    case (Some y)
    with Cons.IH have "y \<in> set xs" and "\<forall>z \<in> set xs. k z \<le> k y" by auto
    then show ?thesis using Cons.prems Some by (fastforce split: if_splits)
  qed
qed simp

text \<open>A row whose key is above every other becomes the answer.\<close>

lemma max_by_snoc:
  assumes "\<And>y. y \<in> set xs \<Longrightarrow> k y < k x"
  shows "max_by k (xs @ [x]) = Some x"
  using assms by (induction xs) auto

subsection \<open>Consensus means two independent observations\<close>

definition corroborated :: "store \<Rightarrow> string \<Rightarrow> string \<Rightarrow> bool" where
  "corroborated d scope semantic \<longleftrightarrow>
     (\<exists>v1 \<in> set (votes d). \<exists>v2 \<in> set (votes d).
        is_accepted v1 \<and> is_accepted v2 \<and> vt_scope_hash v1 = scope \<and> vt_scope_hash v2 = scope
        \<and> vt_semantic_hash v1 = semantic \<and> vt_semantic_hash v2 = semantic
        \<and> vt_session_id v1 \<noteq> vt_session_id v2 \<and> vt_certificate_id v1 \<noteq> vt_certificate_id v2
        \<and> vt_as_of v1 < vt_as_of v2 \<and> vt_watermark v1 < vt_watermark v2)"

definition consensus_inv :: "store \<Rightarrow> bool" where
  "consensus_inv d \<longleftrightarrow>
     (\<forall>scope c. consensus d scope = Some c \<longrightarrow> cz_count c \<ge> 2 \<longrightarrow>
        corroborated d scope (cz_semantic_hash c)
        \<and> (\<exists>v. previous_vote d scope = Some v \<and> vt_semantic_hash v = cz_semantic_hash c))"

lemma consensus_inv_cong:
  "votes d' = votes d \<Longrightarrow> consensus d' = consensus d \<Longrightarrow> consensus_inv d' = consensus_inv d"
  by (simp add: consensus_inv_def corroborated_def previous_vote_def)

lemma corroborated_mono:
  "corroborated d scope sem \<Longrightarrow> set (votes d) \<subseteq> set (votes d') \<Longrightarrow> corroborated d' scope sem"
  unfolding corroborated_def by blast

lemma previous_vote_SomeD:
  assumes "previous_vote d scope = Some v"
  shows "v \<in> set (votes d) \<and> vt_scope_hash v = scope \<and> is_accepted v"
    and "\<And>w. w \<in> set (votes d) \<Longrightarrow> vt_scope_hash w = scope \<Longrightarrow> is_accepted w \<Longrightarrow> vt_as_of w \<le> vt_as_of v"
  using max_by_Some [OF assms [unfolded previous_vote_def]] by (auto simp: less_eq_prod_def)

definition the_vote ::
    "broker_snapshot \<Rightarrow> time \<Rightarrow> int \<times> time \<times> vote_disposition \<Rightarrow> bool \<Rightarrow> vote_row" where
  "the_vote s at outcome equivalent =
     \<lparr>vt_observation_id = the (bs_observation_id s), vt_certificate_id = the (bs_certificate_id s),
      vt_session_id = the (bs_session_id s), vt_scope_hash = the (bs_scope_hash s),
      vt_semantic_hash = the (bs_semantic_hash s), vt_as_of = bs_as_of s,
      vt_watermark = bs_final_watermark s, vt_recorded_at = at,
      vt_disposition = snd (snd outcome), vt_snapshot = s, vt_equivalent = equivalent\<rparr>"

lemma votes_register [simp]:
  "votes (register_vote s at outcome eq d) = votes d @ [the_vote s at outcome eq]"
  by (cases outcome) (simp add: register_vote_def the_vote_def Let_def)

lemma consensus_register [simp]:
  "consensus (register_vote s at outcome eq d) = (consensus d)(the (bs_scope_hash s) \<mapsto>
     \<lparr>cz_semantic_hash = the (bs_semantic_hash s), cz_count = fst outcome,
      cz_first_seen_at = fst (snd outcome), cz_last_seen_at = at,
      cz_certificate_id = the (bs_certificate_id s)\<rparr>)"
  by (cases outcome) (simp add: register_vote_def Let_def)

lemma corroborated_register:
  "corroborated d scope sem \<Longrightarrow> corroborated (register_vote s at outcome eq d) scope sem"
  by (rule corroborated_mono) auto

lemma previous_vote_register_unchanged:
  assumes "scope \<noteq> the (bs_scope_hash s) \<or> snd (snd outcome) = REJECTED_NON_INDEPENDENT"
  shows "previous_vote (register_vote s at outcome eq d) scope = previous_vote d scope"
  using assms by (auto simp: previous_vote_def the_vote_def is_accepted_def)

lemma previous_vote_register_newest:
  assumes "previous_vote d (the (bs_scope_hash s)) = Some v" and "vt_as_of v < bs_as_of s"
    and "snd (snd outcome) \<noteq> REJECTED_NON_INDEPENDENT"
  shows "previous_vote (register_vote s at outcome eq d) (the (bs_scope_hash s))
       = Some (the_vote s at outcome eq)"
proof -
  let ?k = "\<lambda>v. (vt_as_of v, vt_recorded_at v)"
  let ?P = "\<lambda>v. vt_scope_hash v = the (bs_scope_hash s) \<and> is_accepted v"
  have "?k w < ?k (the_vote s at outcome eq)" if "w \<in> set (filter ?P (votes d))" for w
    using previous_vote_SomeD(2) [OF assms(1), of w] that assms(2)
    by (auto simp: the_vote_def less_prod_def)
  then have "max_by ?k (filter ?P (votes d) @ [the_vote s at outcome eq]) = Some (the_vote s at outcome eq)"
    by (rule max_by_snoc)
  moreover have "filter ?P (votes d @ [the_vote s at outcome eq]) = filter ?P (votes d) @ [the_vote s at outcome eq]"
    using assms(3) by (simp add: the_vote_def is_accepted_def)
  ultimately show ?thesis by (simp add: previous_vote_def)
qed

text \<open>The three ways a new vote can count, as one case rule.\<close>

lemma vote_outcome_Inr:
  assumes "vote_outcome previous row s at mi = Inr (count, first, disp)"
  obtains (fresh) "count = 1" "disp \<noteq> REJECTED_NON_INDEPENDENT"
    | (independent) v c where "previous = Some v" "row = Some c" "count = cz_count c + 1"
        "disp = ACCEPTED_INDEPENDENT" "Some (vt_semantic_hash v) = bs_semantic_hash s"
        "independent_of v s mi"
    | (repeated) v where "previous = Some v" "disp = REJECTED_NON_INDEPENDENT"
        "Some (vt_semantic_hash v) = bs_semantic_hash s"
        "count = (case row of None \<Rightarrow> 1 | Some c \<Rightarrow> cz_count c)"
  using assms by (auto simp: vote_outcome_def split: option.splits if_splits)

lemma truthy_Some: "truthy x \<Longrightarrow> \<exists>s. x = Some s"
  by (auto simp: truthy_def split: option.splits)

lemma register_vote_corroborates:
  assumes inv: "consensus_inv d" and votable: "votable s"
    and out: "vote_outcome (previous_vote d (the (bs_scope_hash s))) (consensus d (the (bs_scope_hash s)))
                s at mi = Inr outcome"
    and two: "fst outcome \<ge> 2"
  shows "corroborated (register_vote s at outcome eq d) (the (bs_scope_hash s)) (the (bs_semantic_hash s))
       \<and> (\<exists>v. previous_vote (register_vote s at outcome eq d) (the (bs_scope_hash s)) = Some v
              \<and> vt_semantic_hash v = the (bs_semantic_hash s))"
proof -
  obtain count first disp where outcome: "outcome = (count, first, disp)" by (cases outcome)
  obtain sem sess cert where ids: "bs_semantic_hash s = Some sem" "bs_session_id s = Some sess"
      "bs_certificate_id s = Some cert"
    using votable by (auto simp: votable_def dest!: truthy_Some)
  from out [unfolded outcome] show ?thesis
  proof (cases rule: vote_outcome_Inr)
    case fresh
    then show ?thesis using two outcome by simp
  next
    case (independent v c)
    note v = previous_vote_SomeD(1) [OF independent(1)]
    have "corroborated (register_vote s at outcome eq d) (the (bs_scope_hash s)) sem"
      unfolding corroborated_def
      by (rule bexI [of _ v], rule bexI [of _ "the_vote s at outcome eq"])
        (use v independent ids outcome in \<open>auto simp: the_vote_def independent_of_def is_accepted_def\<close>)
    moreover have "previous_vote (register_vote s at outcome eq d) (the (bs_scope_hash s))
        = Some (the_vote s at outcome eq)"
      by (rule previous_vote_register_newest [OF independent(1)])
        (use independent outcome in \<open>auto simp: independent_of_def\<close>)
    ultimately show ?thesis using ids by (simp add: the_vote_def)
  next
    case (repeated v)
    then obtain c where c: "consensus d (the (bs_scope_hash s)) = Some c" "cz_count c \<ge> 2"
      using two outcome by (auto split: option.splits)
    then have "corroborated d (the (bs_scope_hash s)) (cz_semantic_hash c)" and "vt_semantic_hash v = cz_semantic_hash c"
      using inv [unfolded consensus_inv_def, rule_format, OF c] repeated(1) by auto
    then show ?thesis
      using repeated outcome ids
      by (auto simp: previous_vote_register_unchanged intro: corroborated_register)
  qed
qed

lemma register_vote_inv:
  assumes inv: "consensus_inv d" and votable: "votable s"
    and out: "vote_outcome (previous_vote d (the (bs_scope_hash s))) (consensus d (the (bs_scope_hash s)))
                s at mi = Inr outcome"
  shows "consensus_inv (register_vote s at outcome eq d)"
  unfolding consensus_inv_def
proof (intro allI impI)
  fix scope c
  assume c: "consensus (register_vote s at outcome eq d) scope = Some c" and two: "2 \<le> cz_count c"
  show "corroborated (register_vote s at outcome eq d) scope (cz_semantic_hash c)
      \<and> (\<exists>v. previous_vote (register_vote s at outcome eq d) scope = Some v
             \<and> vt_semantic_hash v = cz_semantic_hash c)"
  proof (cases "scope = the (bs_scope_hash s)")
    case True
    then show ?thesis
      using register_vote_corroborates [OF inv votable out, where eq = eq] c two by auto
  next
    case False
    then show ?thesis
      using inv c two
      by (auto simp: consensus_inv_def previous_vote_register_unchanged intro: corroborated_register)
  qed
qed

lemma consensus_inv_register [inv_intros]:
  assumes "consensus_inv d" and "register_snapshot_consensus s at mi d = (r, d')"
  shows "consensus_inv d'"
  using assms register_vote_inv
  by (auto simp: register_snapshot_consensus_def Let_def split: if_splits sum.splits)

lemma consensus_inv_empty [inv_intros]: "consensus_inv empty_store"
  by (simp add: consensus_inv_def empty_store_def)

text \<open>A report of consensus rests on two independent accepted votes for the state the scope's row records;
  for a snapshot that is not a replayed observation that state is the snapshot's own.\<close>

lemma consensus_needs_two:
  assumes "consensus_inv d" and "register_snapshot_consensus s at mi d = (Inr (True, n), d')"
  shows "n \<ge> 2
    \<and> (\<exists>c. consensus d' (the (bs_scope_hash s)) = Some c \<and> cz_count c = n
         \<and> corroborated d' (the (bs_scope_hash s)) (cz_semantic_hash c))
    \<and> (bs_observation_id s \<notin> Some ` vt_observation_id ` set (votes d) \<longrightarrow>
         corroborated d' (the (bs_scope_hash s)) (the (bs_semantic_hash s)))"
proof -
  have v: "votable s" using assms(2) by (auto simp: register_snapshot_consensus_def split: if_splits)
  then obtain ob where ob: "bs_observation_id s = Some ob" by (auto simp: votable_def dest: truthy_Some)
  show ?thesis
  proof (cases "list_ex (\<lambda>v. vt_observation_id v = the (bs_observation_id s)) (votes d)")
    case True
    then have "d' = d" "n \<ge> 2" "\<exists>c. consensus d (the (bs_scope_hash s)) = Some c \<and> cz_count c = n"
      using assms(2) v by (auto simp: register_snapshot_consensus_def Let_def split: option.splits)
    moreover have "bs_observation_id s \<in> Some ` vt_observation_id ` set (votes d)"
      using True ob by (auto simp: list_ex_iff image_iff)
    ultimately show ?thesis using assms(1) by (auto simp: consensus_inv_def)
  next
    case False
    then obtain outcome where out: "vote_outcome (previous_vote d (the (bs_scope_hash s)))
        (consensus d (the (bs_scope_hash s))) s at mi = Inr outcome" "fst outcome = n" "n \<ge> 2"
      "d' = register_vote s at outcome (authority_equivalence (previous_vote d (the (bs_scope_hash s))) s) d"
      using assms(2) v by (auto simp: register_snapshot_consensus_def Let_def split: sum.splits)
    then show ?thesis using register_vote_corroborates [OF assms(1) v out(1)] by simp
  qed
qed

subsection \<open>Authority\<close>

text \<open>Every authority row is a converged reconciliation of a complete snapshot.\<close>

definition authority_inv :: "store \<Rightarrow> bool" where
  "authority_inv d \<longleftrightarrow>
     (\<forall>a \<in> set (authorities d). au_status a = ''CONVERGED'' \<and> components_complete (au_snapshot a)
        \<and> au_as_of a = bs_as_of (au_snapshot a))
     \<and> distinct (map au_certificate_id (authorities d))"

lemma authority_inv_empty [inv_intros]: "authority_inv empty_store"
  by (simp add: authority_inv_def empty_store_def)

lemma distinct_insert_or_replace:
  "distinct (map key rows) \<Longrightarrow> distinct (map key (insert_or_replace key row rows))"
  by (auto simp: insert_or_replace_def distinct_map_filter)

lemma authority_inv_record [inv_intros]:
  assumes "authority_inv d" and "record_broker_snapshot_authority s run status at d = (r, d')"
  shows "authority_inv d'"
proof (cases "r = Inr True")
  case False
  then have "authorities d' = authorities d"
    using assms(2) by (auto simp: record_broker_snapshot_authority_def Let_def split: if_splits)
  then show ?thesis using assms(1) by (simp add: authority_inv_def)
next
  case True
  then obtain row where "authorities d' = insert_or_replace au_certificate_id row (authorities d)"
      "au_status row = ''CONVERGED''" "components_complete (au_snapshot row)"
      "au_as_of row = bs_as_of (au_snapshot row)"
    using assms(2) by (auto simp: record_broker_snapshot_authority_def Let_def split: if_splits)
  then show ?thesis
    using assms(1) distinct_insert_or_replace [of au_certificate_id "authorities d" row]
    by (auto simp: authority_inv_def insert_or_replace_def)
qed

lemma latest_authority_SomeD:
  assumes "latest_broker_snapshot_authority fresh d = Some a"
  shows "a \<in> set (authorities d) \<and> au_status a = ''CONVERGED''
       \<and> (\<forall>b \<in> set (authorities d). au_status b = ''CONVERGED'' \<longrightarrow> au_as_of b \<le> au_as_of a)"
  using assms
  by (auto simp: latest_broker_snapshot_authority_def dest!: max_by_Some split: option.splits if_splits)

end
