(* ===== verification/Quote_Admission.thy ===== *)
theory Quote_Admission
  imports Ctl_Models
begin

section \<open>Quote admission\<close>

text \<open>
  \<open>src/hanalpha/execution/admission.py\<close>: the deterministic evaluator shared by the Arm gate, the
  claim gate and the operations view. Optional bindings (symbol, currency, reference price) are
  \<open>option\<close> arguments, as the keyword arguments with default \<open>None\<close> are.
\<close>

record quote_admission =
  qa_eligible :: bool
  qa_reasons :: "string list"
  qa_valid_until :: time
  qa_observed_age :: duration
  qa_provider_age :: duration
  qa_spread_bps :: rat
  qa_drift_bps :: "rat option"

definition reason_if :: "bool \<Rightarrow> string \<Rightarrow> string list" where
  "reason_if b s = (if b then [s] else [])"

definition timing_reasons :: "quote_snapshot \<Rightarrow> time \<Rightarrow> duration \<Rightarrow> duration \<Rightarrow> string list" where
  "timing_reasons q at max_age skew =
     (let observed_age = at - qs_observed_at q; provider_age = at - qs_provider_timestamp q in
      (if observed_age < 0 then [''OBSERVED_AT_IN_FUTURE'']
       else reason_if (observed_age > max_age) ''OBSERVED_QUOTE_STALE'') @
      (if provider_age < - skew then [''PROVIDER_TIMESTAMP_IN_FUTURE'']
       else reason_if (provider_age > max_age) ''PROVIDER_QUOTE_STALE'') @
      reason_if (qs_provider_timestamp q > qs_observed_at q + skew)
        ''PROVIDER_AFTER_OBSERVATION_TOLERANCE'')"

definition source_reasons ::
    "quote_snapshot \<Rightarrow> string option \<Rightarrow> string option \<Rightarrow> string list" where
  "source_reasons q expected_symbol expected_currency =
     reason_if (qs_feed_mode q \<noteq> ''REALTIME'') ''FEED_NOT_REALTIME'' @
     reason_if (qs_market_phase q \<notin> {''REGULAR'', ''OPEN''}) ''MARKET_PHASE_INELIGIBLE'' @
     reason_if (qs_venue q \<in> {'''', ''UNKNOWN''}) ''VENUE_NOT_AUTHORITATIVE'' @
     (case expected_symbol of None \<Rightarrow> [] | Some s \<Rightarrow> reason_if (qs_symbol q \<noteq> s) ''SYMBOL_MISMATCH'') @
     (case expected_currency of None \<Rightarrow> []
      | Some c \<Rightarrow> reason_if (qs_currency q \<noteq> c) ''CURRENCY_MISMATCH'')"

definition spread_bps :: "quote_snapshot \<Rightarrow> rat" where
  "spread_bps q = (qs_ask q - qs_bid q) / ((qs_bid q + qs_ask q) / 2) * 10000"

definition executable_price :: "quote_snapshot \<Rightarrow> string \<Rightarrow> rat" where
  "executable_price q side = (if side = ''BUY'' then qs_ask q else qs_bid q)"

definition drift_bps_of :: "quote_snapshot \<Rightarrow> string \<Rightarrow> rat \<Rightarrow> rat" where
  "drift_bps_of q side reference = \<bar>executable_price q side - reference\<bar> / reference * 10000"

definition quote_valid_until :: "quote_snapshot \<Rightarrow> duration \<Rightarrow> time" where
  "quote_valid_until q max_age = min (qs_observed_at q + max_age) (qs_provider_timestamp q + max_age)"

definition admission_result ::
    "quote_snapshot \<Rightarrow> time \<Rightarrow> duration \<Rightarrow> string list \<Rightarrow> rat option \<Rightarrow> quote_admission" where
  "admission_result q at max_age reasons drift =
     \<lparr>qa_eligible = (reasons = [] \<and> quote_valid_until q max_age > at), qa_reasons = reasons,
      qa_valid_until = quote_valid_until q max_age, qa_observed_age = at - qs_observed_at q,
      qa_provider_age = at - qs_provider_timestamp q, qa_spread_bps = spread_bps q,
      qa_drift_bps = drift\<rparr>"

definition evaluate_quote_admission ::
    "quote_snapshot \<Rightarrow> time \<Rightarrow> duration \<Rightarrow> duration \<Rightarrow> rat \<Rightarrow> string option \<Rightarrow> string option
      \<Rightarrow> rat option \<Rightarrow> string option \<Rightarrow> rat option \<Rightarrow> quote_admission res" where
  "evaluate_quote_admission q at max_age skew max_spread symb cur ref side max_drift =
     (if qs_bid q + qs_ask q = 0 then Inl ZeroDivisionError
      else
        let reasons = timing_reasons q at max_age skew @ source_reasons q symb cur @
                      reason_if (spread_bps q > max_spread) ''SPREAD_TOO_WIDE''
        in case ref of
             None \<Rightarrow> Inr (admission_result q at max_age reasons None)
           | Some r \<Rightarrow>
               (case (side, max_drift) of
                  (Some s, Some m) \<Rightarrow>
                    (if s \<notin> {''BUY'', ''SELL''}
                     then Inl (ValueError ''intent-bound quote evaluation requires side and max_drift_bps'')
                     else if r = 0 then Inl ZeroDivisionError
                     else Inr (admission_result q at max_age
                            (reasons @ reason_if (drift_bps_of q s r > m) ''PRICE_DRIFT_TOO_LARGE'')
                            (Some (drift_bps_of q s r))))
                | _ \<Rightarrow> Inl (ValueError ''intent-bound quote evaluation requires side and max_drift_bps'')))"

subsection \<open>Lemmas\<close>

lemma reason_if_empty [simp]: "reason_if b s = [] \<longleftrightarrow> \<not> b"
  by (simp add: reason_if_def)

lemma set_reason_if [simp]: "x \<in> set (reason_if b s) \<longleftrightarrow> b \<and> x = s"
  by (auto simp: reason_if_def)

lemma timing_reasons_empty:
  "timing_reasons q at max_age skew = [] \<longleftrightarrow>
     0 \<le> at - qs_observed_at q \<and> at - qs_observed_at q \<le> max_age
     \<and> - skew \<le> at - qs_provider_timestamp q \<and> at - qs_provider_timestamp q \<le> max_age
     \<and> qs_provider_timestamp q \<le> qs_observed_at q + skew"
  by (auto simp: timing_reasons_def Let_def not_less)

lemma source_reasons_empty:
  "source_reasons q symb cur = [] \<longleftrightarrow>
     qs_feed_mode q = ''REALTIME'' \<and> qs_market_phase q \<in> {''REGULAR'', ''OPEN''}
     \<and> qs_venue q \<notin> {'''', ''UNKNOWN''} \<and> pred_option ((=) (qs_symbol q)) symb
     \<and> pred_option ((=) (qs_currency q)) cur"
  by (auto simp: source_reasons_def split: option.splits)

text \<open>The facts an eligible quote establishes; the evaluator itself decides nothing else.\<close>

definition quote_facts ::
    "quote_snapshot \<Rightarrow> duration \<Rightarrow> duration \<Rightarrow> rat \<Rightarrow> string option \<Rightarrow> string option
      \<Rightarrow> rat option \<Rightarrow> string option \<Rightarrow> rat option \<Rightarrow> bool" where
  "quote_facts q max_age skew max_spread symb cur ref side max_drift \<longleftrightarrow>
     qs_provider_timestamp q \<le> qs_observed_at q + skew
     \<and> source_reasons q symb cur = [] \<and> spread_bps q \<le> max_spread
     \<and> (case (ref, side, max_drift) of
          (Some r, Some s, Some m) \<Rightarrow> drift_bps_of q s r \<le> m
        | _ \<Rightarrow> True)"

lemma eligible_iff:
  assumes "evaluate_quote_admission q at max_age skew max_spread symb cur ref side max_drift = Inr a"
  shows "qa_eligible a \<longleftrightarrow>
           quote_facts q max_age skew max_spread symb cur ref side max_drift
           \<and> qs_observed_at q \<le> at \<and> qs_provider_timestamp q - skew \<le> at \<and> at < quote_valid_until q max_age"
  using assms
  by (auto simp: evaluate_quote_admission_def admission_result_def quote_facts_def Let_def
      timing_reasons_empty quote_valid_until_def split: if_splits option.splits)

lemma evaluate_raises_independent_of_time:
  "(\<exists>a. evaluate_quote_admission q at max_age skew ms symb cur ref side md = Inr a) \<longleftrightarrow>
   (\<exists>a. evaluate_quote_admission q at' max_age skew ms symb cur ref side md = Inr a)"
  by (auto simp: evaluate_quote_admission_def Let_def split: if_splits option.splits)

lemma stale_reason_iff:
  assumes "evaluate_quote_admission q at max_age skew max_spread symb cur ref side max_drift = Inr a"
    and "0 \<le> max_age"
  shows "''OBSERVED_QUOTE_STALE'' \<in> set (qa_reasons a) \<longleftrightarrow> at - qs_observed_at q > max_age"
proof -
  have "''OBSERVED_QUOTE_STALE'' \<in> set (timing_reasons q at max_age skew) \<longleftrightarrow> at - qs_observed_at q > max_age"
    using assms(2) by (auto simp: timing_reasons_def Let_def)
  moreover have "''OBSERVED_QUOTE_STALE'' \<notin> set (source_reasons q symb cur)"
    by (auto simp: source_reasons_def split: option.splits)
  ultimately show ?thesis
    using assms(1)
    by (auto simp: evaluate_quote_admission_def admission_result_def Let_def split: if_splits option.splits)
qed

end
