(* ===== verification/Ctl_Arm.thy ===== *)
theory Ctl_Arm
  imports Ctl_Stage Ctl_Account Quote_Admission
begin

section \<open>Approval arms\<close>

text \<open>
  \<open>arm_approved_intent\<close> of \<open>src/hanalpha/execution/control_store.py\<close>: an approved intent is bound to
  one converged broker snapshot and one admitted quote before its submit command is enqueued. Two
  failures, a stale authority and a stale quote, commit a freeze ticket before they raise; every
  other failure leaves the store as it was.
\<close>

record arm_request =
  aq_intent_id :: string
  aq_authority_id :: string
  aq_quote_snapshot_id :: string
  aq_max_drift_bps :: rat
  aq_armed_by :: string
  aq_at :: time
  aq_expires_at :: time
  aq_arm_source :: string
  aq_operator_session_id :: "string option"
  aq_authority_max_age :: duration
  aq_quote_max_age :: duration
  aq_provider_clock_skew :: duration
  aq_max_spread_bps :: rat

text \<open>\<open>open_freeze_ticket(..., in_transaction=True); commit(); raise\<close>.\<close>

definition freeze_and_raise ::
    "(json \<Rightarrow> string) \<Rightarrow> string \<Rightarrow> time \<Rightarrow> string \<Rightarrow> store \<Rightarrow> 'a res \<times> store" where
  "freeze_and_raise H reason at message d =
     (case open_freeze_ticket H reason ''approval_arm'' at ''BLOCKING'' True d of
        (Inl e, _) \<Rightarrow> (Inl e, d)
      | (Inr _, d') \<Rightarrow> (Inl (ExecutionInvariantError message), d'))"

definition arm_json :: "arm_binding \<Rightarrow> int \<Rightarrow> json" where
  "arm_json b version = JObj
     [(''intent_id'', JStr (ab_intent_id b)), (''authority_id'', JStr (ab_authority_id b)),
      (''broker_snapshot_hash'', JStr (ab_broker_snapshot_hash b)),
      (''quote_snapshot_id'', JStr (ab_quote_snapshot_id b)),
      (''quote_hash'', JStr (ab_quote_hash b)),
      (''approved_limit_price'', JNum (ab_approved_limit_price b)),
      (''max_drift_bps'', JNum (ab_max_drift_bps b)), (''armed_at'', JTime (ab_armed_at b)),
      (''requested_expires_at'', JTime (ab_requested_expires_at b)),
      (''expires_at'', JTime (ab_expires_at b)),
      (''intent_spec_hash'', JStr (ab_intent_spec_hash b)), (''armed_by'', JStr (ab_armed_by b)),
      (''arm_source'', JStr (ab_arm_source b)),
      (''operator_session_id'', opt_json JStr (ab_operator_session_id b)),
      (''provider_age_seconds'', JInt (ab_provider_age b)),
      (''observed_age_seconds'', JInt (ab_observed_age b)),
      (''spread_bps'', JNum (ab_spread_bps b)),
      (''quote_max_age_seconds'', JInt (ab_quote_max_age b)),
      (''authority_max_age_seconds'', JInt (ab_authority_max_age b)),
      (''provider_clock_skew_seconds'', JInt (ab_provider_clock_skew b)),
      (''max_spread_bps'', JNum (ab_max_spread_bps b)),
      (''version'', JInt version), (''status'', JStr ''ACTIVE'')]"

definition active_arm :: "store \<Rightarrow> string \<Rightarrow> arm_row option" where
  "active_arm d intent_id =
     max_by am_version (filter (\<lambda>a. am_intent_id a = intent_id \<and> am_status a = ARM_ACTIVE) (arms d))"

definition arm_version_max :: "store \<Rightarrow> string \<Rightarrow> int" where
  "arm_version_max d intent_id =
     (case max_by am_version (filter (\<lambda>a. am_intent_id a = intent_id) (arms d)) of
        None \<Rightarrow> 0 | Some a \<Rightarrow> am_version a)"

definition set_arm_status :: "string \<Rightarrow> arm_status \<Rightarrow> store \<Rightarrow> store" where
  "set_arm_status arm_id st d =
     d\<lparr>arms := update_where (\<lambda>a. am_id a = arm_id) (\<lambda>a. a\<lparr>am_status := st\<rparr>) (arms d)\<rparr>"

definition arm_clash :: "arm_row \<Rightarrow> arm_row \<Rightarrow> bool" where
  "arm_clash a b \<longleftrightarrow> am_id a = am_id b
     \<or> am_intent_id a = am_intent_id b \<and> am_version a = am_version b
     \<or> am_intent_id a = am_intent_id b \<and> am_status a = ARM_ACTIVE \<and> am_status b = ARM_ACTIVE"

definition supersede_arm :: "arm_row \<Rightarrow> time \<Rightarrow> store \<Rightarrow> store" where
  "supersede_arm a at d =
     set_arm_status (am_id a) (if am_expires_at a \<le> at then ARM_EXPIRED else ARM_SUPERSEDED) d"

definition effective_expiry ::
    "arm_request \<Rightarrow> quote_admission \<Rightarrow> authority_row \<Rightarrow> risk_reservation \<Rightarrow> approval_doc \<Rightarrow> time" where
  "effective_expiry q adm auth rsv approval =
     min (aq_expires_at q) (min (qa_valid_until adm)
       (min (au_as_of auth + aq_authority_max_age q)
         (min (rsv_expires_at rsv) (ad_expires_at approval))))"

definition binding_of ::
    "(json \<Rightarrow> string) \<Rightarrow> arm_request \<Rightarrow> authority_row \<Rightarrow> quote_snapshot \<Rightarrow> execution_intent
      \<Rightarrow> quote_admission \<Rightarrow> time \<Rightarrow> arm_binding" where
  "binding_of H q auth quote i adm expiry =
     \<lparr>ab_intent_id = aq_intent_id q, ab_authority_id = aq_authority_id q,
      ab_broker_snapshot_hash = au_semantic_hash auth,
      ab_quote_snapshot_id = aq_quote_snapshot_id q, ab_quote_hash = qs_raw_hash quote,
      ab_approved_limit_price = (if xi_side i = BUY then qs_ask quote else qs_bid quote),
      ab_max_drift_bps = aq_max_drift_bps q, ab_armed_at = aq_at q,
      ab_requested_expires_at = aq_expires_at q, ab_expires_at = expiry,
      ab_intent_spec_hash = canonical_hash H (intent_json i), ab_armed_by = aq_armed_by q,
      ab_arm_source = aq_arm_source q, ab_operator_session_id = aq_operator_session_id q,
      ab_provider_age = qa_provider_age adm, ab_observed_age = qa_observed_age adm,
      ab_spread_bps = qa_spread_bps adm, ab_quote_max_age = aq_quote_max_age q,
      ab_authority_max_age = aq_authority_max_age q,
      ab_provider_clock_skew = aq_provider_clock_skew q, ab_max_spread_bps = aq_max_spread_bps q\<rparr>"

definition issue_arm ::
    "(json \<Rightarrow> string) \<Rightarrow> arm_binding \<Rightarrow> execution_intent \<Rightarrow> store \<Rightarrow> string res \<times> store" where
  "issue_arm H b i d =
     (let version = arm_version_max d (ab_intent_id b) + 1;
          arm_id = canonical_hash H (arm_json b version);
          row = \<lparr>am_id = arm_id, am_version = version, am_status = ARM_ACTIVE,
                 am_consumed_at = None, am_binding = b\<rparr>
      in case insert_row arm_clash row (arms d) of
           Inl e \<Rightarrow> (Inl e, d)
         | Inr rows \<Rightarrow> and_then (enqueue H i (d\<lparr>arms := rows\<rparr>)) (\<lambda>_ d'. (Inr arm_id, d')))"

definition place_arm ::
    "(json \<Rightarrow> string) \<Rightarrow> arm_binding \<Rightarrow> execution_intent \<Rightarrow> time \<Rightarrow> store \<Rightarrow> string res \<times> store" where
  "place_arm H b i at d =
     (case active_arm d (ab_intent_id b) of
        None \<Rightarrow> issue_arm H b i d
      | Some a \<Rightarrow>
          (if am_binding a = b then (Inr (am_id a), d)
           else issue_arm H b i (supersede_arm a at d)))"

definition arm_with_quote ::
    "(json \<Rightarrow> string) \<Rightarrow> arm_request \<Rightarrow> intent_row \<Rightarrow> authority_row \<Rightarrow> quote_snapshot \<Rightarrow> quote_admission
      \<Rightarrow> store \<Rightarrow> string res \<times> store" where
  "arm_with_quote H q row auth quote adm d =
     (if ''OBSERVED_QUOTE_STALE'' \<in> set (qa_reasons adm)
      then freeze_and_raise H ''MARKET_QUOTE_STALE'' (aq_at q) ''quote snapshot exceeded maximum age'' d
      else if \<not> qa_eligible adm
      then (Inl (ExecutionInvariantError (''quote admission rejected: '' @ join_comma (qa_reasons adm))), d)
      else case List.find (\<lambda>a. aw_intent_id a = aq_intent_id q) (approvals d) of
        None \<Rightarrow> (Inl (ExecutionInvariantError ''approval evidence is missing''), d)
      | Some a \<Rightarrow>
          (case reservation_of d (iw_reservation_id row) of
             Inl e \<Rightarrow> (Inl e, d)
           | Inr rsv \<Rightarrow>
               (let expiry = effective_expiry q adm auth rsv (aw_doc a) in
                if expiry \<le> aq_at q
                then (Inl (ExecutionInvariantError ''upstream evidence expires before Arm can be issued''), d)
                else transaction
                  (place_arm H (binding_of H q auth quote (iw_intent row) adm expiry)
                     (iw_intent row) (aq_at q)) d)))"

definition arm_approved_intent ::
    "(json \<Rightarrow> string) \<Rightarrow> arm_request \<Rightarrow> store \<Rightarrow> string res \<times> store" where
  "arm_approved_intent H q d =
     (let blocking = active_freeze_reasons d in
      if blocking \<noteq> []
      then (Inl (ExecutionInvariantError (''arming is frozen: '' @ join_comma blocking)), d)
      else case intent_row_of d (aq_intent_id q) of
        Inl e \<Rightarrow> (Inl e, d)
      | Inr row \<Rightarrow>
          (if iw_status row \<notin> {XS_APPROVED, XS_OUTBOXED}
           then (Inl (ExecutionInvariantError ''intent is not approved''), d)
           else if aq_expires_at q \<le> aq_at q
           then (Inl (ExecutionInvariantError ''approval arm is already expired''), d)
           else if aq_max_drift_bps q > 10
           then (Inl (ExecutionInvariantError ''approval arm drift exceeds system policy''), d)
           else case List.find (\<lambda>a. au_certificate_id a = aq_authority_id q \<and> au_status a = ''CONVERGED'')
                       (authorities d) of
             None \<Rightarrow> (Inl (ExecutionInvariantError ''broker snapshot authority is stale or unknown''), d)
           | Some auth \<Rightarrow>
               (let age = aq_at q - au_as_of auth in
                if age < 0 \<or> age > aq_authority_max_age q
                then freeze_and_raise H ''BROKER_AUTHORITY_STALE'' (aq_at q)
                       ''broker snapshot authority exceeded maximum age'' d
                else if \<not> components_complete (au_snapshot auth)
                then (Inl (ExecutionInvariantError ''broker authority components are incomplete''), d)
                else case List.find (\<lambda>w. qs_id (qw_quote w) = aq_quote_snapshot_id q) (quotes d) of
                  None \<Rightarrow> (Inl (ExecutionInvariantError ''quote snapshot is unknown''), d)
                | Some w \<Rightarrow>
                    (case evaluate_quote_admission (qw_quote w) (aq_at q) (aq_quote_max_age q)
                            (aq_provider_clock_skew q) (aq_max_spread_bps q)
                            (Some (xi_instrument_id (iw_intent row)))
                            (Some (bs_base_currency (au_snapshot auth)))
                            (Some (xi_limit_price (iw_intent row)))
                            (Some (side_value (xi_side (iw_intent row)))) (Some (aq_max_drift_bps q)) of
                       Inl e \<Rightarrow> (Inl e, d)
                     | Inr adm \<Rightarrow> arm_with_quote H q row auth (qw_quote w) adm d))))"

subsection \<open>Uniqueness of arms\<close>

text \<open>The constraints of the table and its partial index: one row per arm id, one per version, at
  most one active row per intent.\<close>

definition arm_inv :: "store \<Rightarrow> bool" where
  "arm_inv d \<longleftrightarrow>
     distinct (map am_id (arms d))
     \<and> distinct (map (\<lambda>a. (am_intent_id a, am_version a)) (arms d))
     \<and> distinct (map am_intent_id (filter (\<lambda>a. am_status a = ARM_ACTIVE) (arms d)))"

lemma arm_inv_empty [inv_intros]: "arm_inv empty_store"
  by (simp add: arm_inv_def empty_store_def)

lemma arm_inv_cong: "arms d' = arms d \<Longrightarrow> arm_inv d' = arm_inv d"
  by (simp add: arm_inv_def)

text \<open>Rewriting statuses away from \<open>ARM_ACTIVE\<close> can only shrink the set of active rows.\<close>

lemma active_update_subset:
  assumes "distinct (map am_intent_id (filter (\<lambda>a. am_status a = ARM_ACTIVE) rows))"
    and "\<And>a. P a \<Longrightarrow> am_status (f a) \<noteq> ARM_ACTIVE"
  shows "distinct (map am_intent_id (filter (\<lambda>a. am_status a = ARM_ACTIVE) (update_where P f rows)))"
proof -
  have "filter (\<lambda>a. am_status a = ARM_ACTIVE) (update_where P f rows)
      = filter (\<lambda>a. \<not> P a) (filter (\<lambda>a. am_status a = ARM_ACTIVE) rows)"
    using assms(2) by (induction rows) auto
  then show ?thesis using distinct_map_filter [OF assms(1), of "\<lambda>a. \<not> P a"] by (simp only:)
qed

lemma arm_inv_update:
  assumes "arm_inv d" and "arms d' = update_where P f (arms d)"
    and "\<And>a. P a \<Longrightarrow> am_status (f a) \<noteq> ARM_ACTIVE"
    and "\<And>a. am_id (f a) = am_id a" "\<And>a. am_binding (f a) = am_binding a" "\<And>a. am_version (f a) = am_version a"
  shows "arm_inv d'"
  using assms active_update_subset [of "arms d" P f]
  by (simp add: arm_inv_def map_update_where)

lemma arm_inv_set_status:
  "arm_inv d \<Longrightarrow> st \<noteq> ARM_ACTIVE \<Longrightarrow> arm_inv (set_arm_status x st d)"
  by (rule arm_inv_update [where P = "\<lambda>a. am_id a = x" and f = "\<lambda>a. a\<lparr>am_status := st\<rparr>"])
    (simp_all add: set_arm_status_def)

lemma arm_inv_insert:
  assumes "arm_inv d" and "insert_row arm_clash row (arms d) = Inr rows" and "am_status row = ARM_ACTIVE"
  shows "arm_inv (d\<lparr>arms := rows\<rparr>)"
  using assms by (auto simp: arm_inv_def table_simps list_ex_iff arm_clash_def)

lemma enqueue_arms: "enqueue H i d = (r, d') \<Longrightarrow> arms d' = arms d"
  by (auto simp: enqueue_def Let_def split: sum.splits)

lemma arm_inv_issue:
  assumes "arm_inv d" and "issue_arm H b i d = (r, d')"
  shows "arm_inv d'"
proof -
  let ?v = "arm_version_max d (ab_intent_id b) + 1"
  let ?row = "\<lparr>am_id = canonical_hash H (arm_json b ?v), am_version = ?v, am_status = ARM_ACTIVE,
               am_consumed_at = None, am_binding = b\<rparr>"
  show ?thesis
  proof (cases "insert_row arm_clash ?row (arms d)")
    case (Inl e)
    then show ?thesis using assms by (simp add: issue_arm_def Let_def)
  next
    case (Inr rows)
    then have "arm_inv (d\<lparr>arms := rows\<rparr>)" using arm_inv_insert [OF assms(1)] by simp
    moreover have "arms d' = rows"
      using assms(2) Inr enqueue_arms [of H i "d\<lparr>arms := rows\<rparr>"]
      by (cases "enqueue H i (d\<lparr>arms := rows\<rparr>)")
        (auto simp: issue_arm_def Let_def and_then_def split: sum.splits)
    ultimately show ?thesis by (simp add: arm_inv_def)
  qed
qed

lemma arm_inv_place:
  "arm_inv d \<Longrightarrow> place_arm H b i at d = (r, d') \<Longrightarrow> arm_inv d'"
  by (auto simp: place_arm_def supersede_arm_def intro: arm_inv_issue arm_inv_set_status
      split: option.splits if_splits)

lemma freeze_and_raise_cases:
  assumes "freeze_and_raise H reason at m d = (r, d')"
  shows "(\<exists>e. r = Inl e) \<and>
    (d' = d \<or> (\<exists>tid. open_freeze_ticket H reason ''approval_arm'' at ''BLOCKING'' True d = (Inr tid, d')))"
  using assms by (auto simp: freeze_and_raise_def split: prod.splits sum.splits)

text \<open>What arming can do to the store: nothing, open one freeze ticket, or place one arm.\<close>

lemma arm_approved_intent_cases:
  assumes "arm_approved_intent H q d = (r, d')"
  obtains (unchanged) e where "r = Inl e" "d' = d"
    | (froze) reason tid e where "r = Inl e"
        "open_freeze_ticket H reason ''approval_arm'' (aq_at q) ''BLOCKING'' True d = (Inr tid, d')"
    | (placed) row auth w adm a rsv aid where "r = Inr aid"
        "\<not> list_ex is_blocking (tickets d)"
        "intent_row_of d (aq_intent_id q) = Inr row" "iw_status row \<in> {XS_APPROVED, XS_OUTBOXED}"
        "aq_max_drift_bps q \<le> 10"
        "auth \<in> set (authorities d)" "au_certificate_id auth = aq_authority_id q"
        "au_as_of auth \<le> aq_at q" "aq_at q \<le> au_as_of auth + aq_authority_max_age q"
        "components_complete (au_snapshot auth)"
        "w \<in> set (quotes d)" "qs_id (qw_quote w) = aq_quote_snapshot_id q"
        "evaluate_quote_admission (qw_quote w) (aq_at q) (aq_quote_max_age q)
           (aq_provider_clock_skew q) (aq_max_spread_bps q)
           (Some (xi_instrument_id (iw_intent row))) (Some (bs_base_currency (au_snapshot auth)))
           (Some (xi_limit_price (iw_intent row))) (Some (side_value (xi_side (iw_intent row))))
           (Some (aq_max_drift_bps q)) = Inr adm"
        "qa_eligible adm" "a \<in> set (approvals d)" "aw_intent_id a = aq_intent_id q"
        "reservation_of d (iw_reservation_id row) = Inr rsv"
        "aq_at q < effective_expiry q adm auth rsv (aw_doc a)"
        "place_arm H (binding_of H q auth (qw_quote w) (iw_intent row) adm
             (effective_expiry q adm auth rsv (aw_doc a))) (iw_intent row) (aq_at q) d = (Inr aid, d')"
proof (cases r)
  case (Inl e)
  then have "d' = d \<or> (\<exists>reason tid. open_freeze_ticket H reason ''approval_arm'' (aq_at q) ''BLOCKING'' True d = (Inr tid, d'))"
    using assms
    by (auto simp: arm_approved_intent_def arm_with_quote_def Let_def dest!: freeze_and_raise_cases
        split: if_splits sum.splits option.splits)
  then show thesis using Inl unchanged froze by blast
next
  case (Inr aid)
  then show thesis
    using assms
    by (auto simp: arm_approved_intent_def arm_with_quote_def Let_def
        dest!: freeze_and_raise_cases find_Some_set split: if_splits sum.splits option.splits
        intro: placed)
qed

lemma arm_inv_arm [inv_intros]:
  assumes "arm_inv d" and "arm_approved_intent H q d = (r, d')"
  shows "arm_inv d'"
  using assms(2)
proof (cases rule: arm_approved_intent_cases)
  case (froze reason tid e)
  then have "arms d' = arms d" by (auto elim: open_ticket_frame)
  then show ?thesis using assms(1) arm_inv_cong by blast
next
  case (placed row auth w adm a rsv aid)
  then show ?thesis using assms(1) arm_inv_place by blast
qed (use assms(1) in auto)

end
