(* ===== verification/Ctl_Outbox.thy ===== *)
theory Ctl_Outbox
  imports Ctl_Arm
begin

section \<open>Leases and the submit outbox\<close>

text \<open>
  The single-writer lease and the outbox of \<open>src/hanalpha/execution/control_store.py\<close>:
  \<open>acquire_lease\<close>, \<open>validate_lease\<close>, \<open>claim_next\<close>, the delivery marks, crash recovery and the two
  resolutions of an uncertain submission. \<open>claim_next\<close> is the only operation that lets a submit
  command out; several of its failures commit the expiry of the arm before they raise.
\<close>

subsection \<open>Leases\<close>

definition acquire_lease ::
    "string \<Rightarrow> string \<Rightarrow> time \<Rightarrow> duration \<Rightarrow> store \<Rightarrow> execution_lease res \<times> store" where
  "acquire_lease name owner at ttl d =
     (let token = (case leases d name of None \<Rightarrow> 1 | Some l \<Rightarrow> ls_token l + 1);
          lease = \<lparr>ls_name = name, ls_owner = owner, ls_token = token, ls_acquired_at = at,
                   ls_expires_at = at + ttl\<rparr>
      in if (case leases d name of None \<Rightarrow> False
             | Some l \<Rightarrow> ls_expires_at l > at \<and> ls_owner l \<noteq> owner)
         then (Inl (ExecutionInvariantError ''execution lease is held by another writer''), d)
         else (Inr lease, d\<lparr>leases := (leases d)(name \<mapsto> lease)\<rparr>))"

definition lease_current :: "store \<Rightarrow> execution_lease \<Rightarrow> time \<Rightarrow> bool" where
  "lease_current d l at =
     (case leases d (ls_name l) of None \<Rightarrow> False
      | Some c \<Rightarrow> ls_owner c = ls_owner l \<and> ls_token c = ls_token l \<and> ls_expires_at c > at)"

definition validate_lease :: "execution_lease \<Rightarrow> time \<Rightarrow> store \<Rightarrow> unit res" where
  "validate_lease l at d =
     (if lease_current d l at then Inr ()
      else Inl (ExecutionInvariantError ''stale execution fencing token''))"

subsection \<open>Claiming\<close>

definition joined ::
    "store \<Rightarrow> outbox_row \<Rightarrow> (outbox_row \<times> intent_row \<times> reservation_row) option" where
  "joined d ob =
     (case List.find (\<lambda>i. iw_id i = ow_intent_id ob) (intents d) of
        None \<Rightarrow> None
      | Some i \<Rightarrow>
          (case List.find (\<lambda>r. rw_id r = iw_reservation_id i) (reservations d) of
             None \<Rightarrow> None
           | Some r \<Rightarrow> Some (ob, i, r)))"

text \<open>The oldest pending command whose intent and reservation rows exist.\<close>

definition claim_candidate :: "store \<Rightarrow> (outbox_row \<times> intent_row \<times> reservation_row) option" where
  "claim_candidate d =
     (case filter (\<lambda>ob. ow_status ob = OB_PENDING \<and> joined d ob \<noteq> None) (outbox d) of
        [] \<Rightarrow> None
      | ob # _ \<Rightarrow> joined d ob)"

definition expire_arm_and_raise :: "string \<Rightarrow> string \<Rightarrow> store \<Rightarrow> 'a res \<times> store" where
  "expire_arm_and_raise arm_id message d =
     (Inl (ExecutionInvariantError message), set_arm_status arm_id ARM_EXPIRED d)"

definition claim_gate :: "intent_row \<Rightarrow> time \<Rightarrow> store \<Rightarrow> arm_row option res \<times> store" where
  "claim_gate i at d =
     (if \<not> list_ex (\<lambda>a. aw_intent_id a = iw_id i) (approvals d) then (Inr None, d)
      else case active_arm d (iw_id i) of
        None \<Rightarrow> (Inl (ExecutionInvariantError ''approval arm missing or expired''), d)
      | Some arm \<Rightarrow>
          (if am_expires_at arm \<le> at
           then expire_arm_and_raise (am_id arm) ''approval arm missing or expired'' d
           else
             case (List.find (\<lambda>a. au_certificate_id a = ab_authority_id (am_binding arm)
                                  \<and> au_status a = ''CONVERGED'') (authorities d),
                   latest_broker_snapshot_authority None d,
                   List.find (\<lambda>w. qs_id (qw_quote w) = ab_quote_snapshot_id (am_binding arm)) (quotes d)) of
               (Some auth, Some newest, Some w) \<Rightarrow>
                 (if au_certificate_id newest \<noteq> ab_authority_id (am_binding arm)
                  then expire_arm_and_raise (am_id arm) ''approval arm upstream authority changed'' d
                  else
                    case evaluate_quote_admission (qw_quote w) at (ab_quote_max_age (am_binding arm))
                           (ab_provider_clock_skew (am_binding arm)) (ab_max_spread_bps (am_binding arm))
                           (Some (xi_instrument_id (iw_intent i)))
                           (Some (bs_base_currency (au_snapshot auth)))
                           (Some (xi_limit_price (iw_intent i)))
                           (Some (side_value (xi_side (iw_intent i))))
                           (Some (ab_max_drift_bps (am_binding arm))) of
                      Inl e \<Rightarrow> (Inl e, d)
                    | Inr adm \<Rightarrow>
                        (if qa_eligible adm then (Inr (Some arm), d)
                         else expire_arm_and_raise (am_id arm)
                                (''approval arm evidence expired: '' @ join_comma (qa_reasons adm)) d))
             | _ \<Rightarrow> expire_arm_and_raise (am_id arm) ''approval arm upstream authority changed'' d))"

definition expire_claim ::
    "(json \<Rightarrow> string) \<Rightarrow> outbox_row \<Rightarrow> intent_row \<Rightarrow> time \<Rightarrow> store \<Rightarrow> store" where
  "expire_claim H ob i at d =
     append_order_event H (iw_id i) ''RESERVATION_EXPIRED'' at (PL_at at)
       (set_intent_status (iw_id i) XS_EXPIRED
         (d\<lparr>outbox := update_where (\<lambda>x. ow_id x = ow_id ob)
               (\<lambda>x. x\<lparr>ow_status := OB_DELIVERED, ow_delivered_at := Some at\<rparr>) (outbox d),
            reservations := update_where (\<lambda>x. rw_id x = iw_reservation_id i)
               (\<lambda>x. x\<lparr>rw_status := RS_EXPIRED, rw_version := rw_version x + 1\<rparr>) (reservations d)\<rparr>))"

definition take_claim ::
    "execution_lease \<Rightarrow> outbox_row \<Rightarrow> intent_row \<Rightarrow> arm_row option \<Rightarrow> time \<Rightarrow> store \<Rightarrow> store" where
  "take_claim l ob i arm at d =
     (let d1 = set_intent_status (iw_id i) XS_SUBMITTING
            (d\<lparr>outbox := update_where (\<lambda>x. ow_id x = ow_id ob \<and> ow_status x = OB_PENDING)
                 (\<lambda>x. x\<lparr>ow_status := OB_CLAIMED, ow_token := Some (ls_token l),
                        ow_claimed_at := Some at\<rparr>) (outbox d)\<rparr>)
      in case arm of None \<Rightarrow> d1
         | Some a \<Rightarrow> d1\<lparr>arms := update_where (\<lambda>x. am_id x = am_id a \<and> am_status x = ARM_ACTIVE)
                 (\<lambda>x. x\<lparr>am_status := ARM_CONSUMED, am_consumed_at := Some at\<rparr>) (arms d1)\<rparr>)"

definition claim_next ::
    "(json \<Rightarrow> string) \<Rightarrow> execution_lease \<Rightarrow> time \<Rightarrow> store
      \<Rightarrow> (outbox_command \<times> execution_intent) option res \<times> store" where
  "claim_next H l at d =
     (if cs_frozen (control d)
      then (Inl (ExecutionInvariantError (''execution is frozen: '' @ cs_reason (control d))), d)
      else if \<not> lease_current d l at
      then (Inl (ExecutionInvariantError ''stale execution fencing token''), d)
      else case claim_candidate d of
        None \<Rightarrow> (Inr None, d)
      | Some (ob, i, r) \<Rightarrow>
          and_then (claim_gate i at d) (\<lambda>arm d1.
            if rsv_expires_at (rw_reservation r) \<le> at
            then (Inr None, expire_claim H ob i at d1)
            else (Inr (Some ((ow_command ob)\<lparr>oc_status := OB_CLAIMED,
                                             oc_fencing_token := Some (ls_token l)\<rparr>, iw_intent i)),
                  take_claim l ob i arm at d1)))"

subsection \<open>Delivery marks, recovery and resolution\<close>

definition mark_outbox_unknown ::
    "(json \<Rightarrow> string) \<Rightarrow> string \<Rightarrow> string \<Rightarrow> time \<Rightarrow> string \<Rightarrow> store \<Rightarrow> store" where
  "mark_outbox_unknown H command_id intent_id at reason d =
     append_order_event H intent_id ''SUBMISSION_UNKNOWN'' at (PL_reason reason)
       (set_intent_status intent_id XS_SUBMISSION_UNKNOWN
         (d\<lparr>outbox := update_where (\<lambda>x. ow_id x = command_id)
              (\<lambda>x. x\<lparr>ow_status := OB_UNKNOWN, ow_delivered_at := Some at\<rparr>) (outbox d)\<rparr>))"

definition mark_submission_unknown ::
    "(json \<Rightarrow> string) \<Rightarrow> string \<Rightarrow> time \<Rightarrow> string \<Rightarrow> store \<Rightarrow> unit res \<times> store" where
  "mark_submission_unknown H command_id at reason d =
     (case List.find (\<lambda>x. ow_id x = command_id) (outbox d) of
        None \<Rightarrow> (Inl (KeyError command_id), d)
      | Some ob \<Rightarrow> (Inr (), mark_outbox_unknown H command_id (ow_intent_id ob) at reason d))"

definition mark_delivered :: "string \<Rightarrow> time \<Rightarrow> store \<Rightarrow> store" where
  "mark_delivered command_id at d =
     d\<lparr>outbox := update_where (\<lambda>x. ow_id x = command_id)
         (\<lambda>x. x\<lparr>ow_status := OB_DELIVERED, ow_delivered_at := Some at\<rparr>) (outbox d)\<rparr>"

definition recover_claimed_as_unknown :: "(json \<Rightarrow> string) \<Rightarrow> time \<Rightarrow> store \<Rightarrow> nat \<times> store" where
  "recover_claimed_as_unknown H at d =
     (let rows = filter (\<lambda>x. ow_status x = OB_CLAIMED) (outbox d) in
      (length rows,
       fold (\<lambda>ob. mark_outbox_unknown H (ow_id ob) (ow_intent_id ob) at ''writer_recovery_after_claim'')
         rows d))"

definition unknown_command :: "store \<Rightarrow> string \<Rightarrow> outbox_row option" where
  "unknown_command d key = List.find (\<lambda>x. ow_key x = key \<and> ow_status x = OB_UNKNOWN) (outbox d)"

definition resolve_unknown_at_broker ::
    "(json \<Rightarrow> string) \<Rightarrow> string \<Rightarrow> string \<Rightarrow> time \<Rightarrow> store \<Rightarrow> store" where
  "resolve_unknown_at_broker H key broker_order_id at d =
     (case unknown_command d key of
        None \<Rightarrow> d
      | Some ob \<Rightarrow>
          append_order_event H (ow_intent_id ob) ''BROKER_ORDER_DISCOVERED'' at (PL_broker_order broker_order_id)
            (d\<lparr>outbox := update_where (\<lambda>x. ow_id x = ow_id ob)
                 (\<lambda>x. x\<lparr>ow_status := OB_DELIVERED, ow_delivered_at := Some at\<rparr>) (outbox d),
               intents := update_where
                 (\<lambda>r. iw_id r = ow_intent_id ob \<and> iw_status r = XS_SUBMISSION_UNKNOWN)
                 (\<lambda>r. r\<lparr>iw_status := XS_ACKNOWLEDGED, iw_broker_order_id := Some broker_order_id,
                        iw_version := iw_version r + 1\<rparr>) (intents d)\<rparr>))"

definition requeue_unknown_absent_at_broker ::
    "(json \<Rightarrow> string) \<Rightarrow> string \<Rightarrow> time \<Rightarrow> time \<Rightarrow> store \<Rightarrow> bool res \<times> store" where
  "requeue_unknown_absent_at_broker H key snapshot_as_of at d =
     (case unknown_command d key of
        None \<Rightarrow> (Inr False, d)
      | Some ob \<Rightarrow>
          (let claimed_at = (case ow_claimed_at ob of None \<Rightarrow> datetime_min | Some t \<Rightarrow> t) in
           if snapshot_as_of \<le> claimed_at
           then (Inl (ExecutionInvariantError ''broker snapshot does not post-date uncertain submission''), d)
           else (Inr True,
             append_order_event H (ow_intent_id ob) ''REQUEUED_AFTER_BROKER_ABSENCE'' at
               (PL_broker_snapshot snapshot_as_of)
               (set_intent_status (ow_intent_id ob) XS_OUTBOXED
                 (d\<lparr>outbox := update_where (\<lambda>x. ow_id x = ow_id ob)
                      (\<lambda>x. x\<lparr>ow_status := OB_PENDING, ow_token := None, ow_claimed_at := None,
                             ow_delivered_at := None\<rparr>) (outbox d)\<rparr>)))))"

subsection \<open>Fencing\<close>

lemma acquire_lease_token:
  assumes "acquire_lease name owner at ttl d = (Inr l, d')"
  shows "ls_name l = name \<and> ls_owner l = owner \<and> leases d' name = Some l
       \<and> ls_token l = (case leases d name of None \<Rightarrow> 1 | Some c \<Rightarrow> ls_token c + 1)
       \<and> d' = d\<lparr>leases := (leases d)(name \<mapsto> l)\<rparr>"
  using assms by (auto simp: acquire_lease_def Let_def split: if_splits)

text \<open>Two leases of the same name that are both current are the same writer's: same owner, same
  token.\<close>

lemma lease_current_unique:
  "lease_current d a at \<Longrightarrow> lease_current d b at \<Longrightarrow> ls_name a = ls_name b \<Longrightarrow>
     ls_owner a = ls_owner b \<and> ls_token a = ls_token b"
  by (auto simp: lease_current_def split: option.splits)

text \<open>Once someone acquires the lease, every lease handed out before is stale.\<close>

lemma acquire_fences_older:
  assumes "acquire_lease name owner at ttl d = (Inr l, d')" and "ls_name old = name"
    and "leases d name = Some c" and "ls_token old \<le> ls_token c"
  shows "\<not> lease_current d' old at'"
  using acquire_lease_token [OF assms(1)] assms(2-4) by (auto simp: lease_current_def)

subsection \<open>What a claim guarantees\<close>

lemma joined_SomeD:
  "joined d ob = Some (ob', i, r) \<Longrightarrow>
     ob' = ob \<and> i \<in> set (intents d) \<and> iw_id i = ow_intent_id ob \<and> r \<in> set (reservations d)
     \<and> rw_id r = iw_reservation_id i"
  by (auto simp: joined_def dest: find_Some_set split: option.splits)

lemma claim_candidate_SomeD:
  assumes "claim_candidate d = Some (ob, i, r)"
  shows "ob \<in> set (outbox d) \<and> ow_status ob = OB_PENDING \<and> i \<in> set (intents d)
       \<and> iw_id i = ow_intent_id ob \<and> r \<in> set (reservations d) \<and> rw_id r = iw_reservation_id i"
proof -
  obtain x xs where x: "filter (\<lambda>ob. ow_status ob = OB_PENDING \<and> joined d ob \<noteq> None) (outbox d) = x # xs"
      and j: "joined d x = Some (ob, i, r)"
    using assms by (auto simp: claim_candidate_def split: list.splits)
  have "x \<in> set (outbox d) \<and> ow_status x = OB_PENDING"
    using arg_cong [OF x, of set] by auto
  then show ?thesis using joined_SomeD [OF j] by auto
qed

lemma active_arm_SomeD:
  "active_arm d x = Some a \<Longrightarrow> a \<in> set (arms d) \<and> am_intent_id a = x \<and> am_status a = ARM_ACTIVE"
  by (auto simp: active_arm_def dest!: max_by_Some)

definition arm_admits :: "store \<Rightarrow> intent_row \<Rightarrow> arm_row \<Rightarrow> time \<Rightarrow> bool" where
  "arm_admits d i a at \<longleftrightarrow>
     a \<in> set (arms d) \<and> am_intent_id a = iw_id i \<and> am_status a = ARM_ACTIVE \<and> at < am_expires_at a
     \<and> (\<exists>auth w adm. latest_broker_snapshot_authority None d = Some auth
          \<and> au_certificate_id auth = ab_authority_id (am_binding a)
          \<and> w \<in> set (quotes d) \<and> qs_id (qw_quote w) = ab_quote_snapshot_id (am_binding a)
          \<and> evaluate_quote_admission (qw_quote w) at (ab_quote_max_age (am_binding a))
              (ab_provider_clock_skew (am_binding a)) (ab_max_spread_bps (am_binding a))
              (Some (xi_instrument_id (iw_intent i))) (Some (bs_base_currency (au_snapshot auth)))
              (Some (xi_limit_price (iw_intent i))) (Some (side_value (xi_side (iw_intent i))))
              (Some (ab_max_drift_bps (am_binding a))) = Inr adm
          \<and> qa_eligible adm)"

lemma claim_gate_Inr:
  assumes "claim_gate i at d = (Inr arm, d')" and "authority_inv d"
  shows "d' = d \<and> (case arm of
     None \<Rightarrow> \<not> list_ex (\<lambda>a. aw_intent_id a = iw_id i) (approvals d)
   | Some a \<Rightarrow> arm_admits d i a at)"
proof (cases arm)
  case None
  then show ?thesis
    using assms(1) by (auto simp: claim_gate_def expire_arm_and_raise_def
        split: if_splits option.splits sum.splits prod.splits)
next
  case (Some a)
  obtain auth newest w adm where
    a: "active_arm d (iw_id i) = Some a" "at < am_expires_at a" and d': "d' = d" and
    auth: "List.find (\<lambda>x. au_certificate_id x = ab_authority_id (am_binding a)
              \<and> au_status x = ''CONVERGED'') (authorities d) = Some auth" and
    newest: "latest_broker_snapshot_authority None d = Some newest"
      "au_certificate_id newest = ab_authority_id (am_binding a)" and
    w: "List.find (\<lambda>w. qs_id (qw_quote w) = ab_quote_snapshot_id (am_binding a)) (quotes d) = Some w" and
    adm: "evaluate_quote_admission (qw_quote w) at (ab_quote_max_age (am_binding a))
              (ab_provider_clock_skew (am_binding a)) (ab_max_spread_bps (am_binding a))
              (Some (xi_instrument_id (iw_intent i))) (Some (bs_base_currency (au_snapshot auth)))
              (Some (xi_limit_price (iw_intent i))) (Some (side_value (xi_side (iw_intent i))))
              (Some (ab_max_drift_bps (am_binding a))) = Inr adm" "qa_eligible adm"
    using assms(1) Some
    by (auto simp: claim_gate_def expire_arm_and_raise_def
        split: if_splits option.splits sum.splits prod.splits)
  have "auth = newest"
    using find_Some_set [OF auth] latest_authority_SomeD [OF newest(1)] newest(2) assms(2)
    by (auto simp: authority_inv_def intro: same_key_same_row)
  then show ?thesis
    using Some d' a(2) newest adm active_arm_SomeD [OF a(1)] find_Some_set [OF w]
    by (auto simp: arm_admits_def)
qed

lemma claim_next_SomeD:
  assumes "claim_next H l at d = (Inr (Some (cmd, intent)), d')" and "authority_inv d"
  obtains ob i r arm where "\<not> cs_frozen (control d)" "lease_current d l at"
    "ob \<in> set (outbox d)" "ow_status ob = OB_PENDING" "ow_id ob = oc_id cmd"
    "i \<in> set (intents d)" "iw_id i = ow_intent_id ob" "intent = iw_intent i"
    "r \<in> set (reservations d)" "rw_id r = iw_reservation_id i" "at < rsv_expires_at (rw_reservation r)"
    "case arm of None \<Rightarrow> \<not> list_ex (\<lambda>a. aw_intent_id a = iw_id i) (approvals d)
     | Some a \<Rightarrow> arm_admits d i a at"
    "oc_fencing_token cmd = Some (ls_token l)" "oc_client_order_key cmd = ow_key ob"
    "d' = take_claim l ob i arm at d"
proof -
  obtain ob i r where c: "claim_candidate d = Some (ob, i, r)"
    and live: "\<not> cs_frozen (control d)" "lease_current d l at"
    using assms(1) by (auto simp: claim_next_def split: if_splits option.splits prod.splits)
  obtain arm d1 where g: "claim_gate i at d = (Inr arm, d1)"
    and rest: "at < rsv_expires_at (rw_reservation r)"
      "cmd = (ow_command ob)\<lparr>oc_status := OB_CLAIMED, oc_fencing_token := Some (ls_token l)\<rparr>"
      "intent = iw_intent i" "d' = take_claim l ob i arm at d1"
    using assms(1) c live by (auto simp: claim_next_def and_then_Inr_iff split: if_splits)
  note cd = claim_candidate_SomeD [OF c] and gate = claim_gate_Inr [OF g assms(2)]
  show thesis
    by (rule that [of ob i r arm]) (use live cd gate rest in auto)
qed

end
