(* ===== verification/Ctl_Cancel.thy ===== *)
theory Ctl_Cancel
  imports Ctl_Outbox
begin

section \<open>Cancel commands\<close>

text \<open>
  The risk-reducing side of \<open>src/hanalpha/execution/control_store.py\<close>: \<open>request_cancel\<close>,
  \<open>claim_next_cancel\<close> and the two delivery marks. An intent that has not reached the broker is
  cancelled locally; any other gets a cancel command that a fenced writer claims, also while the
  store is frozen. At most one cancel command exists per intent.
\<close>

subsection \<open>Operations\<close>

definition terminal_status :: "execution_status \<Rightarrow> bool" where
  "terminal_status st \<longleftrightarrow> st \<in> {XS_FILLED, XS_CANCELLED, XS_REJECTED, XS_EXPIRED}"

definition local_status :: "execution_status \<Rightarrow> bool" where
  "local_status st \<longleftrightarrow> st \<in> {XS_APPROVAL_PENDING, XS_APPROVED, XS_OUTBOXED}"

definition cancel_clash :: "cancel_row \<Rightarrow> cancel_row \<Rightarrow> bool" where
  "cancel_clash a b \<longleftrightarrow>
     cn_id a = cn_id b \<or> cn_intent_id a = cn_intent_id b \<or> cn_client_order_key a = cn_client_order_key b"

definition cancel_command_id :: "(json \<Rightarrow> string) \<Rightarrow> string \<Rightarrow> string" where
  "cancel_command_id H key =
     canonical_hash H (JObj [(''command_type'', JStr ''CANCEL''), (''client_order_key'', JStr key)])"

definition new_cancel_row ::
    "(json \<Rightarrow> string) \<Rightarrow> intent_row \<Rightarrow> bool \<Rightarrow> string \<Rightarrow> time \<Rightarrow> cancel_row" where
  "new_cancel_row H row local_only actor at =
     \<lparr>cn_id = cancel_command_id H (iw_key row), cn_intent_id = iw_id row,
      cn_client_order_key = iw_key row,
      cn_status = (if local_only then OB_DELIVERED else OB_PENDING), cn_token = None,
      cn_requested_by = actor, cn_requested_at = at, cn_claimed_at = None,
      cn_delivered_at = (if local_only then Some at else None), cn_last_error = None\<rparr>"

definition cancel_locally :: "intent_row \<Rightarrow> time \<Rightarrow> store \<Rightarrow> store" where
  "cancel_locally row at d =
     update_reservation (iw_reservation_id row) (iw_filled row) (xi_quantity (iw_intent row)) XS_CANCELLED
       (set_intent_status (iw_id row) XS_CANCELLED
         (d\<lparr>outbox := update_where (\<lambda>x. ow_intent_id x = iw_id row \<and> ow_status x = OB_PENDING)
              (\<lambda>x. x\<lparr>ow_status := OB_DELIVERED, ow_delivered_at := Some at\<rparr>) (outbox d)\<rparr>))"

definition request_cancel ::
    "(json \<Rightarrow> string) \<Rightarrow> string \<Rightarrow> string \<Rightarrow> time \<Rightarrow> store \<Rightarrow> string res \<times> store" where
  "request_cancel H intent_id actor at d =
     (case intent_row_of d intent_id of
        Inl e \<Rightarrow> (Inl e, d)
      | Inr row \<Rightarrow>
          (case List.find (\<lambda>c. cn_intent_id c = intent_id) (cancels d) of
             Some c \<Rightarrow> (Inr (cn_id c), d)
           | None \<Rightarrow>
               if terminal_status (iw_status row)
               then (Inl (ExecutionInvariantError ''terminal intent cannot be cancelled''), d)
               else
                 let local_only = local_status (iw_status row);
                     c = new_cancel_row H row local_only actor at
                 in case insert_row cancel_clash c (cancels d) of
                      Inl e \<Rightarrow> (Inl e, d)
                    | Inr cs \<Rightarrow>
                        (let d1 = d\<lparr>cancels := cs\<rparr>;
                             d2 = (if local_only then cancel_locally row at d1
                                   else set_intent_status intent_id XS_CANCEL_REQUESTED d1)
                         in (Inr (cn_id c),
                             append_order_event H intent_id
                               (if local_only then ''CANCELLED_BEFORE_BROKER'' else ''CANCEL_REQUESTED'')
                               at (PL_actor actor (cn_id c)) d2))))"

text \<open>The oldest pending cancel whose intent exists.\<close>

definition cancel_candidate :: "store \<Rightarrow> (cancel_row \<times> intent_row) option" where
  "cancel_candidate d =
     (case List.find (\<lambda>c. cn_status c = OB_PENDING \<and> list_ex (\<lambda>i. iw_id i = cn_intent_id c) (intents d))
             (cancels d) of
        None \<Rightarrow> None
      | Some c \<Rightarrow> map_option (Pair c) (List.find (\<lambda>i. iw_id i = cn_intent_id c) (intents d)))"

definition claim_next_cancel ::
    "execution_lease \<Rightarrow> time \<Rightarrow> store \<Rightarrow> (string \<times> execution_intent) option res \<times> store" where
  "claim_next_cancel l at d =
     (if \<not> lease_current d l at
      then (Inl (ExecutionInvariantError ''stale execution fencing token''), d)
      else case cancel_candidate d of
        None \<Rightarrow> (Inr None, d)
      | Some (c, i) \<Rightarrow>
          (Inr (Some (cn_id c, iw_intent i)),
           d\<lparr>cancels := update_where (\<lambda>x. cn_id x = cn_id c \<and> cn_status x = OB_PENDING)
               (\<lambda>x. x\<lparr>cn_status := OB_CLAIMED, cn_token := Some (ls_token l), cn_claimed_at := Some at\<rparr>)
               (cancels d)\<rparr>))"

definition mark_cancel_unknown ::
    "(json \<Rightarrow> string) \<Rightarrow> string \<Rightarrow> time \<Rightarrow> string \<Rightarrow> store \<Rightarrow> unit res \<times> store" where
  "mark_cancel_unknown H command_id at reason d =
     (case List.find (\<lambda>c. cn_id c = command_id) (cancels d) of
        None \<Rightarrow> (Inl (KeyError command_id), d)
      | Some c \<Rightarrow>
          (Inr (), append_order_event H (cn_intent_id c) ''CANCEL_UNKNOWN'' at (PL_reason reason)
             (set_intent_status (cn_intent_id c) XS_CANCEL_UNKNOWN
               (d\<lparr>cancels := update_where (\<lambda>x. cn_id x = command_id)
                    (\<lambda>x. x\<lparr>cn_status := OB_UNKNOWN, cn_delivered_at := Some at, cn_last_error := Some reason\<rparr>)
                    (cancels d)\<rparr>))))"

definition mark_cancel_delivered :: "string \<Rightarrow> time \<Rightarrow> store \<Rightarrow> store" where
  "mark_cancel_delivered command_id at d =
     d\<lparr>cancels := update_where (\<lambda>x. cn_id x = command_id)
         (\<lambda>x. x\<lparr>cn_status := OB_DELIVERED, cn_delivered_at := Some at\<rparr>) (cancels d)\<rparr>"

subsection \<open>What a request does\<close>

lemma request_cancel_cases:
  assumes "request_cancel H x actor at d = (r, d')"
  obtains (error) e where "r = Inl e" "d' = d"
    | (again) c where "r = Inr (cn_id c)" "d' = d" "c \<in> set (cancels d)" "cn_intent_id c = x"
    | (local) row where "row \<in> set (intents d)" "iw_id row = x" "local_status (iw_status row)"
        "r = Inr (cancel_command_id H (iw_key row))"
        "\<not> list_ex (cancel_clash (new_cancel_row H row True actor at)) (cancels d)"
        "d' = append_order_event H x ''CANCELLED_BEFORE_BROKER'' at
            (PL_actor actor (cancel_command_id H (iw_key row)))
            (cancel_locally row at (d\<lparr>cancels := cancels d @ [new_cancel_row H row True actor at]\<rparr>))"
    | (remote) row where "row \<in> set (intents d)" "iw_id row = x" "\<not> local_status (iw_status row)"
        "\<not> terminal_status (iw_status row)" "r = Inr (cancel_command_id H (iw_key row))"
        "\<not> list_ex (cancel_clash (new_cancel_row H row False actor at)) (cancels d)"
        "d' = append_order_event H x ''CANCEL_REQUESTED'' at
            (PL_actor actor (cancel_command_id H (iw_key row)))
            (set_intent_status x XS_CANCEL_REQUESTED
               (d\<lparr>cancels := cancels d @ [new_cancel_row H row False actor at]\<rparr>))"
proof (cases "intent_row_of d x")
  case (Inl e)
  then show thesis using assms error [of e] by (auto simp: request_cancel_def)
next
  case (Inr row)
  note row = intent_row_of_Inr [OF Inr]
  have id: "cn_id (new_cancel_row H row b actor at) = cancel_command_id H (iw_key row)" for b
    by (simp add: new_cancel_row_def)
  show thesis
  proof (cases "List.find (\<lambda>c. cn_intent_id c = x) (cancels d)")
    case (Some c)
    then show thesis
      using assms Inr again [of c] by (auto simp: request_cancel_def dest: find_Some_set)
  next
    case None
    show thesis
    proof (cases "terminal_status (iw_status row)
        \<or> list_ex (cancel_clash (new_cancel_row H row (local_status (iw_status row)) actor at)) (cancels d)")
      case True
      then show thesis
        using assms Inr None error
        by (auto simp: request_cancel_def Let_def insert_row_def split: if_splits)
    next
      case False
      then show thesis
        using assms Inr None row local [of row] remote [of row]
        by (cases "local_status (iw_status row)")
          (auto simp: request_cancel_def Let_def insert_row_def id)
    qed
  qed
qed

lemma find_cancel_update:
  "List.find (\<lambda>c. cn_intent_id c = x) (cs @ [c]) =
     (case List.find (\<lambda>c. cn_intent_id c = x) cs of None \<Rightarrow> (if cn_intent_id c = x then Some c else None)
      | Some y \<Rightarrow> Some y)"
  by (auto simp: find_append split: option.splits)

lemma append_order_event_frame [simp]:
  "intents (append_order_event H x ty at p d) = intents d"
  "cancels (append_order_event H x ty at p d) = cancels d"
  "outbox (append_order_event H x ty at p d) = outbox d"
  "reservations (append_order_event H x ty at p d) = reservations d"
  by (simp_all add: append_order_event_def)

lemma set_intent_status_frame [simp]:
  "cancels (set_intent_status x st d) = cancels d"
  "outbox (set_intent_status x st d) = outbox d"
  "reservations (set_intent_status x st d) = reservations d"
  by (simp_all add: set_intent_status_def)

lemma update_reservation_frame [simp]:
  "cancels (update_reservation x f q st d) = cancels d"
  "outbox (update_reservation x f q st d) = outbox d"
  "intents (update_reservation x f q st d) = intents d"
  by (simp_all add: update_reservation_def)

lemma cancel_locally_frame [simp]:
  "cancels (cancel_locally row at d) = cancels d"
  "outbox (cancel_locally row at d) =
     update_where (\<lambda>x. ow_intent_id x = iw_id row \<and> ow_status x = OB_PENDING)
       (\<lambda>x. x\<lparr>ow_status := OB_DELIVERED, ow_delivered_at := Some at\<rparr>) (outbox d)"
  by (simp_all add: cancel_locally_def)

lemma find_id_update_where:
  assumes "\<And>r. P r \<Longrightarrow> k (f r) = k r"
  shows "List.find (\<lambda>r. k r = x) (update_where P f rows) =
    map_option (\<lambda>r. if P r then f r else r) (List.find (\<lambda>r. k r = x) rows)"
  using assms by (induction rows) auto

lemma intent_row_of_set_status:
  "intent_row_of d x = Inr row \<Longrightarrow> \<exists>row'. intent_row_of (set_intent_status y st d) x = Inr row'"
  by (auto simp: intent_row_of_def set_intent_status_def find_id_update_where split: option.splits)

text \<open>A second request, by anyone at any time, returns the same command and changes nothing.\<close>

lemma request_cancel_again:
  assumes "request_cancel H x actor at d = (Inr c, d')"
  shows "request_cancel H x actor' at' d' = (Inr c, d')"
proof -
  have keep: "intent_row_of d x = Inr row \<Longrightarrow> intent_row_of d' x \<noteq> Inl e" for row e
    using assms
  proof (cases rule: request_cancel_cases)
    case (local row')
    then show "intent_row_of d x = Inr row \<Longrightarrow> ?thesis"
      by (auto simp: intent_row_of_def cancel_locally_def set_intent_status_def find_id_update_where
          split: option.splits)
  next
    case (remote row')
    then show "intent_row_of d x = Inr row \<Longrightarrow> ?thesis"
      by (auto simp: intent_row_of_def set_intent_status_def find_id_update_where split: option.splits)
  qed auto
  obtain row where row: "intent_row_of d x = Inr row"
    using assms by (auto simp: request_cancel_def split: sum.splits)
  have found: "\<exists>y. List.find (\<lambda>c. cn_intent_id c = x) (cancels d') = Some y \<and> cn_id y = c"
  proof (cases "List.find (\<lambda>c. cn_intent_id c = x) (cancels d)")
    case (Some y)
    then show ?thesis using assms row by (auto simp: request_cancel_def)
  next
    case None
    from assms show ?thesis
    proof (cases rule: request_cancel_cases)
      case (again c)
      then show ?thesis using None by (auto simp: find_None_set)
    qed (use None in \<open>auto simp: find_cancel_update new_cancel_row_def\<close>)
  qed
  show ?thesis
    using found keep [OF row] by (auto simp: request_cancel_def split: sum.splits)
qed

subsection \<open>Claiming a cancel\<close>

lemma claim_next_cancel_SomeD:
  assumes "claim_next_cancel l at d = (Inr (Some (cmd, i)), d')"
  obtains c row where "lease_current d l at" "c \<in> set (cancels d)" "cn_id c = cmd"
    "cn_status c = OB_PENDING" "row \<in> set (intents d)" "iw_id row = cn_intent_id c" "i = iw_intent row"
    "d' = d\<lparr>cancels := update_where (\<lambda>x. cn_id x = cmd \<and> cn_status x = OB_PENDING)
               (\<lambda>x. x\<lparr>cn_status := OB_CLAIMED, cn_token := Some (ls_token l), cn_claimed_at := Some at\<rparr>)
               (cancels d)\<rparr>"
proof -
  obtain c row where "cancel_candidate d = Some (c, row)" and l: "lease_current d l at"
    and e: "cmd = cn_id c" "i = iw_intent row"
    using assms by (auto simp: claim_next_cancel_def split: if_splits option.splits)
  moreover from this have "c \<in> set (cancels d) \<and> cn_status c = OB_PENDING"
      "row \<in> set (intents d) \<and> iw_id row = cn_intent_id c"
    by (auto simp: cancel_candidate_def dest: find_Some_set split: option.splits)
  ultimately show thesis
    using assms by (intro that [of c row]) (auto simp: claim_next_cancel_def)
qed

end
