(* ===== verification/Ctl_Inbox.thy ===== *)
theory Ctl_Inbox
  imports Ctl_Cancel
begin

section \<open>The broker-event inbox and the projections\<close>

text \<open>
  \<open>ingest_broker_event\<close> of \<open>src/hanalpha/execution/control_store.py\<close> and the two functions that
  rebuild the projections from the append-only order log. An event id is applied at most once; an
  event for an unknown client order key is kept as an orphan and freezes the store. \<open>replay_inv\<close>
  says that the incremental positions, cash and commissions are those the log yields.
\<close>

subsection \<open>Ingestion\<close>

definition set_inbox_status :: "string \<Rightarrow> inbox_status \<Rightarrow> store \<Rightarrow> store" where
  "set_inbox_status event_id st d =
     d\<lparr>inbox := update_where (\<lambda>b. be_id (bx_event b) = event_id) (\<lambda>b. b\<lparr>bx_status := st\<rparr>) (inbox d)\<rparr>"

definition apply_to_intent ::
    "intent_row \<Rightarrow> execution_status \<Rightarrow> int \<Rightarrow> broker_event \<Rightarrow> store \<Rightarrow> store" where
  "apply_to_intent row st filled e d =
     d\<lparr>intents := update_where (\<lambda>r. iw_id r = iw_id row)
         (\<lambda>r. r\<lparr>iw_status := st, iw_filled := filled, iw_broker_order_id := Some (be_broker_order_id e),
                iw_last_sequence := max (iw_last_sequence row) (be_sequence e),
                iw_version := iw_version r + 1\<rparr>) (intents d)\<rparr>"

definition apply_event ::
    "(json \<Rightarrow> string) \<Rightarrow> intent_row \<Rightarrow> broker_event \<Rightarrow> store \<Rightarrow> bool res \<times> store" where
  "apply_event H row e d =
     (let intent = iw_intent row;
          st = status_for e (iw_filled row + be_filled_quantity e) (xi_quantity intent) (iw_status row);
          new_filled = min (xi_quantity intent) (iw_filled row + be_filled_quantity e);
          d1 = update_reservation (xi_reservation_id intent) new_filled (xi_quantity intent) st
                 (apply_to_intent row st new_filled e d)
      in and_then (update_economic_projections intent e d1) (\<lambda>_ d2.
           (Inr True,
            set_inbox_status (be_id e) IB_APPLIED
              (append_order_event H (xi_id intent) (broker_event_type_value (be_type e))
                 (be_occurred_at e) (PL_broker e) d2))))"

definition ingest_body :: "(json \<Rightarrow> string) \<Rightarrow> broker_event \<Rightarrow> store \<Rightarrow> bool res \<times> store" where
  "ingest_body H e d =
     (if list_ex (\<lambda>b. be_id (bx_event b) = be_id e) (inbox d) then (Inr False, d)
      else
        let d1 = d\<lparr>inbox := inbox d @ [\<lparr>bx_event = e, bx_status = IB_RECEIVED\<rparr>]\<rparr> in
        case List.find (\<lambda>r. iw_key r = be_client_order_key e) (intents d1) of
          None \<Rightarrow>
            and_then (freeze H ''broker_only_order_or_event'' (be_received_at e) True
                        (set_inbox_status (be_id e) IB_ORPHAN d1))
              (\<lambda>_ d2. (Inr True, d2))
        | Some row \<Rightarrow> apply_event H row e d1)"

definition ingest_broker_event ::
    "(json \<Rightarrow> string) \<Rightarrow> broker_event \<Rightarrow> store \<Rightarrow> bool res \<times> store" where
  "ingest_broker_event H e d = transaction (ingest_body H e) d"

subsection \<open>Rebuilding from the log\<close>

type_synonym economy = "(string \<rightharpoonup> int) \<times> rat \<times> rat"

definition replay_event :: "intent_row list \<Rightarrow> event_payload \<Rightarrow> economy \<Rightarrow> economy res" where
  "replay_event rows p = (\<lambda>(pos, cash, comm).
     case p of
       PL_broker e \<Rightarrow>
         (case List.find (\<lambda>r. iw_key r = be_client_order_key e) rows of
            None \<Rightarrow> Inr (pos, cash, comm)
          | Some row \<Rightarrow>
              (let i = iw_intent row; comm' = comm + be_commission e; cash' = cash - be_commission e in
               if \<not> is_fill_type (be_type e) then Inr (pos, cash', comm')
               else case be_fill_price e of
                 None \<Rightarrow> Inl (AssertionError '''')
               | Some price \<Rightarrow>
                   (let notional = price * of_int (be_filled_quantity e) in
                    Inr (add_position (xi_instrument_id i) (signed_qty (xi_side i) (be_filled_quantity e)) pos,
                         cash' + (if xi_side i = BUY then - notional else notional), comm'))))
     | _ \<Rightarrow> Inr (pos, cash, comm))"

fun replay :: "intent_row list \<Rightarrow> event_payload list \<Rightarrow> economy \<Rightarrow> economy res" where
  "replay rows [] s = Inr s"
| "replay rows (p # ps) s = (case replay_event rows p s of Inl e \<Rightarrow> Inl e | Inr s' \<Rightarrow> replay rows ps s')"

definition rebuild_economic_projection :: "store \<Rightarrow> economy res" where
  "rebuild_economic_projection d =
     replay (intents d) (map ev_payload (order_events d)) (Map.empty, 0, 0)"

type_synonym status_view = "string \<rightharpoonup> execution_status \<times> int"

text \<open>\<open>rebuild_projection\<close>: every payload but that of \<open>SUBMISSION_UNKNOWN\<close> is validated as a
  broker event, and one that is not raises.\<close>

definition rebuild_event :: "store \<Rightarrow> order_event_row \<Rightarrow> status_view \<Rightarrow> status_view res" where
  "rebuild_event d ev view =
     (if ev_type ev = ''SUBMISSION_UNKNOWN''
      then Inr (view(ev_intent_id ev \<mapsto> (XS_SUBMISSION_UNKNOWN, 0)))
      else case ev_payload ev of
        PL_broker e \<Rightarrow>
          (let (current, old_filled) =
                 (case view (ev_intent_id ev) of None \<Rightarrow> (XS_SUBMITTING, 0) | Some v \<Rightarrow> v)
           in case intent_row_of d (ev_intent_id ev) of
                Inl err \<Rightarrow> Inl err
              | Inr row \<Rightarrow>
                  (let quantity = xi_quantity (iw_intent row);
                       filled = min quantity (old_filled + be_filled_quantity e)
                   in Inr (view(ev_intent_id ev \<mapsto> (status_for e filled quantity current, filled)))))
      | _ \<Rightarrow> Inl (ValueError ''BrokerEvent''))"

fun rebuild_events :: "store \<Rightarrow> order_event_row list \<Rightarrow> status_view \<Rightarrow> status_view res" where
  "rebuild_events d [] view = Inr view"
| "rebuild_events d (ev # evs) view =
     (case rebuild_event d ev view of Inl e \<Rightarrow> Inl e | Inr view' \<Rightarrow> rebuild_events d evs view')"

definition rebuild_projection :: "store \<Rightarrow> status_view res" where
  "rebuild_projection d =
     rebuild_events d (order_events d)
       (map_of (map (\<lambda>r. (iw_id r, (XS_SUBMITTING, 0))) (intents d)))"

subsection \<open>Read-side queries\<close>

text \<open>SQLite's \<open>LIKE\<close>: \<open>%\<close> matches any run, \<open>_\<close> any character, ASCII letters match either case.\<close>

fun like :: "string \<Rightarrow> string \<Rightarrow> bool" where
  "like [] s = (s = [])"
| "like (p # ps) [] = (p = CHR ''%'' \<and> like ps [])"
| "like (p # ps) (c # cs) =
     (if p = CHR ''%'' then like ps (c # cs) \<or> like (p # ps) cs
      else (p = CHR ''_'' \<or> upper_char p = upper_char c) \<and> like ps cs)"

definition resolve_client_order_prefix :: "string \<Rightarrow> store \<Rightarrow> string option" where
  "resolve_client_order_prefix prefix d =
     (case take 2 (filter (like (prefix @ ''%'')) (map iw_key (intents d))) of
        [k] \<Rightarrow> Some k
      | _ \<Rightarrow> None)"

subsection \<open>What ingestion does\<close>

lemma ingest_duplicate:
  "list_ex (\<lambda>b. be_id (bx_event b) = be_id e) (inbox d) \<Longrightarrow> ingest_broker_event H e d = (Inr False, d)"
  by (simp add: ingest_broker_event_def ingest_body_def)

definition applied :: "(json \<Rightarrow> string) \<Rightarrow> intent_row \<Rightarrow> broker_event \<Rightarrow> store \<Rightarrow> store" where
  "applied H row e d =
     (let q = xi_quantity (iw_intent row);
          st = status_for e (iw_filled row + be_filled_quantity e) q (iw_status row);
          nf = min q (iw_filled row + be_filled_quantity e)
      in set_inbox_status (be_id e) IB_APPLIED
           (append_order_event H (iw_id row) (broker_event_type_value (be_type e)) (be_occurred_at e)
             (PL_broker e)
             (snd (update_economic_projections (iw_intent row) e
               (update_reservation (iw_reservation_id row) nf q st
                 (apply_to_intent row st nf e
                   (d\<lparr>inbox := inbox d @ [\<lparr>bx_event = e, bx_status = IB_RECEIVED\<rparr>]\<rparr>)))))))"

lemma update_economic_Inr:
  "update_economic_projections i e d = (Inr u, d') \<Longrightarrow> is_fill_type (be_type e) \<Longrightarrow>
     be_fill_price e \<noteq> None \<and> \<not> list_ex (\<lambda>b. be_id e = be_id (fr_event b)) (fill_events d)"
  by (auto simp: update_economic_projections_def Let_def insert_row_def
      split: option.splits if_splits)

lemma ingest_cases:
  assumes "ingest_broker_event H e d = (r, d')"
  obtains (duplicate) "list_ex (\<lambda>b. be_id (bx_event b) = be_id e) (inbox d)" "r = Inr False" "d' = d"
    | (error) err where "r = Inl err" "d' = d"
    | (orphan) "\<not> list_ex (\<lambda>b. be_id (bx_event b) = be_id e) (inbox d)"
        "List.find (\<lambda>r. iw_key r = be_client_order_key e) (intents d) = None" "r = Inr True"
        "freeze H ''broker_only_order_or_event'' (be_received_at e) True
           (set_inbox_status (be_id e) IB_ORPHAN
             (d\<lparr>inbox := inbox d @ [\<lparr>bx_event = e, bx_status = IB_RECEIVED\<rparr>]\<rparr>)) = (Inr (), d')"
    | (applied) row where "\<not> list_ex (\<lambda>b. be_id (bx_event b) = be_id e) (inbox d)"
        "List.find (\<lambda>r. iw_key r = be_client_order_key e) (intents d) = Some row" "r = Inr True"
        "d' = applied H row e d"
        "is_fill_type (be_type e) \<longrightarrow> be_fill_price e \<noteq> None \<and>
           \<not> list_ex (\<lambda>b. be_id e = be_id (fr_event b)) (fill_events d)"
proof (cases "list_ex (\<lambda>b. be_id (bx_event b) = be_id e) (inbox d)")
  case True
  have "r = Inr False \<and> d' = d" using assms ingest_duplicate [OF True, of H] by simp
  then show thesis using True by (intro duplicate) simp_all
next
  case new: False
  let ?d1 = "d\<lparr>inbox := inbox d @ [\<lparr>bx_event = e, bx_status = IB_RECEIVED\<rparr>]\<rparr>"
  show thesis
  proof (cases r)
    case (Inl err)
    then have "d' = d" using assms by (auto simp: ingest_broker_event_def)
    then show thesis using Inl by (intro error)
  next
    case (Inr b)
    then have body: "ingest_body H e d = (Inr b, d')"
      using assms by (simp add: ingest_broker_event_def)
    show thesis
    proof (cases "List.find (\<lambda>r. iw_key r = be_client_order_key e) (intents d)")
      case None
      then have "freeze H ''broker_only_order_or_event'' (be_received_at e) True
            (set_inbox_status (be_id e) IB_ORPHAN ?d1) = (Inr (), d') \<and> b"
        using body new by (auto simp: ingest_body_def and_then_Inr_iff)
      then show thesis using new None Inr by (intro orphan) auto
    next
      case (Some row)
      then have ap: "apply_event H row e ?d1 = (Inr b, d')"
        using body new by (simp add: ingest_body_def)
      show thesis
      proof (rule applied [OF new Some])
        show "r = Inr True" using ap Inr by (auto simp: apply_event_def Let_def and_then_Inr_iff)
        show "d' = applied H row e d"
          using ap by (auto simp: apply_event_def applied_def Let_def and_then_Inr_iff)
        show "is_fill_type (be_type e) \<longrightarrow> be_fill_price e \<noteq> None \<and>
           \<not> list_ex (\<lambda>b. be_id e = be_id (fr_event b)) (fill_events d)"
          using ap update_economic_Inr
          by (fastforce simp: apply_event_def Let_def and_then_Inr_iff apply_to_intent_def
              update_reservation_def)
      qed
    qed
  qed
qed

lemma set_inbox_status_ids [simp]:
  "map (\<lambda>b. be_id (bx_event b)) (inbox (set_inbox_status x st d)) = map (\<lambda>b. be_id (bx_event b)) (inbox d)"
  by (simp add: set_inbox_status_def map_update_where)

subsection \<open>The log and the book\<close>

text \<open>\<open>intents_inv\<close>: intent ids and client order keys are unique, the amounts are valid and no intent
  is filled beyond its quantity. \<open>log_inv\<close>: log entries are content-addressed, and a broker event in the log was
  received and belongs to an intent, is there once, and every fill row was received too. \<open>replay_inv\<close>: the projections are the replay of the log.\<close>

definition intents_inv :: "store \<Rightarrow> bool" where
  "intents_inv d \<longleftrightarrow>
     distinct (map iw_id (intents d)) \<and> distinct (map iw_key (intents d))
     \<and> (\<forall>r \<in> set (intents d). intent_amounts_ok (iw_intent r)
            \<and> 0 \<le> iw_filled r \<and> iw_filled r \<le> xi_quantity (iw_intent r))"

definition entry_ok :: "(json \<Rightarrow> string) \<Rightarrow> store \<Rightarrow> order_event_row \<Rightarrow> bool" where
  "entry_ok H d ev \<longleftrightarrow>
     ev_id ev = canonical_hash H (order_event_json (ev_intent_id ev) (ev_type ev) (ev_payload ev))
     \<and> (case ev_payload ev of
          PL_broker e \<Rightarrow> e \<in> bx_event ` set (inbox d) \<and> be_client_order_key e \<in> iw_key ` set (intents d)
        | _ \<Rightarrow> True)"

text \<open>The broker events in the log, in order.\<close>

definition payload_events :: "event_payload list \<Rightarrow> broker_event list" where
  "payload_events ps = concat (map (\<lambda>p. case p of PL_broker e \<Rightarrow> [e] | _ \<Rightarrow> []) ps)"

definition log_events :: "store \<Rightarrow> broker_event list" where
  "log_events d = payload_events (map ev_payload (order_events d))"

definition log_inv :: "(json \<Rightarrow> string) \<Rightarrow> store \<Rightarrow> bool" where
  "log_inv H d \<longleftrightarrow> list_all (entry_ok H d) (order_events d) \<and> distinct (log_events d)
     \<and> fr_event ` set (fill_events d) \<subseteq> bx_event ` set (inbox d)"

definition replay_inv :: "store \<Rightarrow> bool" where
  "replay_inv d \<longleftrightarrow> rebuild_economic_projection d = Inr (positions d, cash_delta d, commissions d)"

definition book_inv :: "(json \<Rightarrow> string) \<Rightarrow> store \<Rightarrow> bool" where
  "book_inv H d \<longleftrightarrow> intents_inv d \<and> log_inv H d \<and> replay_inv d"

text \<open>An operation that is not an ingestion adds non-broker entries to the log and leaves the
  documents, the fills and the projections alone.\<close>

definition intent_book :: "store \<Rightarrow> (execution_intent \<times> int) list" where
  "intent_book d = map (\<lambda>r. (iw_intent r, iw_filled r)) (intents d)"

definition local_entry :: "(json \<Rightarrow> string) \<Rightarrow> order_event_row \<Rightarrow> bool" where
  "local_entry H ev \<longleftrightarrow>
     ev_id ev = canonical_hash H (order_event_json (ev_intent_id ev) (ev_type ev) (ev_payload ev))
     \<and> (case ev_payload ev of PL_broker _ \<Rightarrow> False | _ \<Rightarrow> True)"

definition same_book :: "(json \<Rightarrow> string) \<Rightarrow> store \<Rightarrow> store \<Rightarrow> bool" where
  "same_book H d d' \<longleftrightarrow>
     intent_book d' = intent_book d \<and> inbox d' = inbox d \<and> fill_events d' = fill_events d
     \<and> positions d' = positions d \<and> cash_delta d' = cash_delta d \<and> commissions d' = commissions d
     \<and> (\<exists>evs. order_events d' = order_events d @ evs \<and> list_all (local_entry H) evs)"

lemma same_book_refl [simp]: "same_book H d d"
  by (auto simp: same_book_def)

lemma same_book_trans: "same_book H a b \<Longrightarrow> same_book H b c \<Longrightarrow> same_book H a c"
  by (fastforce simp: same_book_def)

lemma replay_event_cong:
  assumes "map iw_intent rows = map iw_intent rows'"
  shows "replay_event rows p s = replay_event rows' p s"
proof -
  have *: "map_option iw_intent (List.find (\<lambda>r. iw_key r = k) rows) =
      List.find (\<lambda>i. xi_client_order_key i = k) (map iw_intent rows)" for k and rows :: "intent_row list"
    by (induction rows) auto
  have "map_option iw_intent (List.find (\<lambda>r. iw_key r = k) rows) =
      map_option iw_intent (List.find (\<lambda>r. iw_key r = k) rows')" for k
    unfolding * assms ..
  then have eq: "\<And>e. map_option iw_intent (List.find (\<lambda>r. iw_key r = be_client_order_key e) rows) =
      map_option iw_intent (List.find (\<lambda>r. iw_key r = be_client_order_key e) rows')" by blast
  show ?thesis
  proof (cases p)
    case (PL_broker e)
    then show ?thesis
      using eq [of e]
      by (cases s; cases "List.find (\<lambda>r. iw_key r = be_client_order_key e) rows";
          cases "List.find (\<lambda>r. iw_key r = be_client_order_key e) rows'")
        (simp_all add: replay_event_def)
  qed (simp_all add: replay_event_def)
qed

lemma replay_cong:
  assumes "map iw_intent rows = map iw_intent rows'"
  shows "replay rows ps s = replay rows' ps s"
  by (induction ps arbitrary: s) (simp_all add: replay_event_cong [OF assms] split: sum.splits)

lemma replay_append:
  "replay rows (ps @ qs) s = (case replay rows ps s of Inl e \<Rightarrow> Inl e | Inr s' \<Rightarrow> replay rows qs s')"
  by (induction ps arbitrary: s) (auto split: sum.splits)

text \<open>Rows added at the end do not change the replay of events whose intent was there.\<close>

lemma replay_more_rows:
  assumes "\<And>e. PL_broker e \<in> set ps \<Longrightarrow> be_client_order_key e \<in> iw_key ` set rows"
  shows "replay (rows @ extra) ps s = replay rows ps s"
  using assms
proof (induction ps arbitrary: s)
  case (Cons p ps)
  have "replay_event (rows @ extra) p s = replay_event rows p s"
  proof (cases p)
    case (PL_broker e)
    then obtain row where "List.find (\<lambda>r. iw_key r = be_client_order_key e) rows = Some row"
      using Cons.prems [of e] by (cases "List.find (\<lambda>r. iw_key r = be_client_order_key e) rows")
        (auto simp: find_None_set)
    then show ?thesis using PL_broker by (simp add: replay_event_def find_append)
  qed (simp_all add: replay_event_def)
  then show ?case using Cons by (auto split: sum.splits)
qed simp

lemma payload_events_simps [simp]:
  "payload_events [] = []" "payload_events (ps @ qs) = payload_events ps @ payload_events qs"
  "payload_events [PL_broker e] = [e]"
  by (simp_all add: payload_events_def)

lemma set_payload_events: "e \<in> set (payload_events ps) \<longleftrightarrow> PL_broker e \<in> set ps"
  by (induction ps) (auto simp: payload_events_def split: event_payload.splits)

lemma local_no_events: "list_all (local_entry H) evs \<Longrightarrow> payload_events (map ev_payload evs) = []"
  by (induction evs) (auto simp: payload_events_def local_entry_def split: event_payload.splits)

lemma same_book_log_events: "same_book H d d' \<Longrightarrow> log_events d' = log_events d"
  by (auto simp: same_book_def log_events_def local_no_events)

lemma log_event_entry:
  assumes "log_inv H d" and "e \<in> set (log_events d)"
  shows "e \<in> bx_event ` set (inbox d) \<and> be_client_order_key e \<in> iw_key ` set (intents d)"
  using assms
  by (auto simp: log_inv_def log_events_def set_payload_events list_all_iff entry_ok_def dest!: bspec
      split: event_payload.splits)

lemma replay_local:
  "list_all (local_entry H) evs \<Longrightarrow> replay rows (map ev_payload evs) s = Inr s"
  by (induction evs) (auto simp: local_entry_def replay_event_def split: event_payload.splits prod.splits)

lemma intent_book_maps:
  assumes "intent_book d' = intent_book d"
  shows "map iw_intent (intents d') = map iw_intent (intents d)"
    and "(iw_key ` set (intents d')) = (iw_key ` set (intents d))"
proof -
  show m: "map iw_intent (intents d') = map iw_intent (intents d)"
    using arg_cong [OF assms, of "map fst"] by (simp add: intent_book_def comp_def)
  show "iw_key ` set (intents d') = iw_key ` set (intents d)"
    using arg_cong [OF m, of "\<lambda>xs. xi_client_order_key ` set xs"] by (simp add: image_image)
qed

lemma intents_inv_book:
  "intents_inv d \<longleftrightarrow> distinct (map (xi_id \<circ> fst) (intent_book d))
     \<and> distinct (map (xi_client_order_key \<circ> fst) (intent_book d))
     \<and> (\<forall>(i, f) \<in> set (intent_book d). intent_amounts_ok i \<and> 0 \<le> f \<and> f \<le> xi_quantity i)"
  by (simp add: intents_inv_def intent_book_def comp_def)

lemma book_inv_same [inv_intros]:
  assumes "book_inv H d" and "same_book H d d'"
  shows "book_inv H d'"
proof -
  obtain evs where evs: "order_events d' = order_events d @ evs" "list_all (local_entry H) evs"
    and b: "intent_book d' = intent_book d" "inbox d' = inbox d" "positions d' = positions d"
      "cash_delta d' = cash_delta d" "commissions d' = commissions d" "fill_events d' = fill_events d"
    using assms(2) by (auto simp: same_book_def)
  have "entry_ok H d' ev" if "entry_ok H d ev \<or> local_entry H ev" for ev
    using that b(2) intent_book_maps(2) [OF b(1)]
    by (auto simp: entry_ok_def local_entry_def split: event_payload.splits)
  then have "log_inv H d'"
    using assms(1) evs b(2,6) same_book_log_events [OF assms(2)]
    by (auto simp: book_inv_def log_inv_def list_all_iff)
  moreover have "replay_inv d'"
    using assms(1) evs b(3-5) replay_cong [OF intent_book_maps(1) [OF b(1)]]
    by (simp add: book_inv_def replay_inv_def rebuild_economic_projection_def replay_append
        replay_local)
  moreover have "intents_inv d'"
    using assms(1) b(1) by (simp add: book_inv_def intents_inv_book)
  ultimately show ?thesis by (simp add: book_inv_def)
qed

subsection \<open>Ingestion keeps the book\<close>

text \<open>Log entries of broker events are told apart by the event id, if the digest separates
  documents.\<close>

lemma broker_entry_inj:
  assumes "canonical_hash H (order_event_json x ty (PL_broker e)) = canonical_hash H (order_event_json y ty' p)"
    and "inj H"
  shows "\<exists>e'. p = PL_broker e' \<and> be_id e' = be_id e"
proof -
  have "sort_keys (order_event_json x ty (PL_broker e)) = sort_keys (order_event_json y ty' p)"
    using assms by (auto simp: canonical_hash_def dest: injD)
  then have "sort_keys (broker_event_json e) = sort_keys (payload_json p)"
    by (simp add: order_event_json_def)
  then show ?thesis
    by (cases p) (simp_all add: broker_event_json_def)
qed

lemma applied_parts:
  "order_events (applied H row e d) =
     order_events (append_order_event H (iw_id row) (broker_event_type_value (be_type e)) (be_occurred_at e)
       (PL_broker e) d)"
  "map bx_event (inbox (applied H row e d)) = map bx_event (inbox d) @ [e]"
  "intents (applied H row e d) =
     intents (apply_to_intent row
       (status_for e (iw_filled row + be_filled_quantity e) (xi_quantity (iw_intent row)) (iw_status row))
       (min (xi_quantity (iw_intent row)) (iw_filled row + be_filled_quantity e)) e d)"
  by (auto simp: applied_def Let_def append_order_event_def set_inbox_status_def apply_to_intent_def
      update_reservation_def update_economic_projections_def update_where_def comp_def
      split: option.splits sum.splits)

lemma applied_fills: "fr_event ` set (fill_events (applied H row e d)) \<subseteq> insert e (fr_event ` set (fill_events d))"
  by (auto simp: applied_def Let_def append_order_event_def set_inbox_status_def apply_to_intent_def
      update_reservation_def update_economic_projections_def insert_row_def
      split: option.splits)

lemma applied_economy:
  assumes "is_fill_type (be_type e) \<longrightarrow> be_fill_price e \<noteq> None \<and>
             \<not> list_ex (\<lambda>b. be_id e = be_id (fr_event b)) (fill_events d)"
    and "List.find (\<lambda>r. iw_key r = be_client_order_key e) rows = Some row"
  shows "replay_event rows (PL_broker e) (positions d, cash_delta d, commissions d) =
     Inr (positions (applied H row e d), cash_delta (applied H row e d), commissions (applied H row e d))"
  using assms
  by (auto simp: replay_event_def applied_def Let_def append_order_event_def set_inbox_status_def
      apply_to_intent_def update_reservation_def update_economic_projections_def insert_row_def
      split: option.splits)

lemma book_inv_applied:
  assumes inv: "book_inv H d" and H: "inj H" and e: "event_amounts_ok e"
    and new: "\<not> list_ex (\<lambda>b. be_id (bx_event b) = be_id e) (inbox d)"
    and row: "List.find (\<lambda>r. iw_key r = be_client_order_key e) (intents d) = Some row"
    and fill: "is_fill_type (be_type e) \<longrightarrow> be_fill_price e \<noteq> None \<and>
             \<not> list_ex (\<lambda>b. be_id e = be_id (fr_event b)) (fill_events d)"
  shows "book_inv H (applied H row e d)"
proof -
  let ?d = "applied H row e d" and ?ty = "broker_event_type_value (be_type e)"
  note r = find_Some_set [OF row]
  have same: "map iw_intent (intents ?d) = map iw_intent (intents d)"
    by (simp add: applied_parts apply_to_intent_def map_update_where)
  have keys: "iw_key ` set (intents ?d) = iw_key ` set (intents d)"
    using arg_cong [OF same, of "\<lambda>xs. xi_client_order_key ` set xs"] by (simp add: image_image)
  have ids: "map iw_id (intents ?d) = map iw_id (intents d)" "map iw_key (intents ?d) = map iw_key (intents d)"
    using arg_cong [OF same, of "map xi_id"] arg_cong [OF same, of "map xi_client_order_key"]
    by (simp_all add: comp_def)
  have box: "bx_event ` set (inbox ?d) = insert e (bx_event ` set (inbox d))"
    using arg_cong [OF applied_parts(2) [of H row e d], of set] by simp
  have fresh: "\<not> list_ex (\<lambda>b. canonical_hash H (order_event_json (iw_id row) ?ty (PL_broker e)) = ev_id b)
      (order_events d)"
    using inv new broker_entry_inj [OF _ H]
    by (fastforce simp: book_inv_def log_inv_def entry_ok_def list_all_iff list_ex_iff)
  then have log: "order_events ?d = order_events d @ [\<lparr>ev_id = canonical_hash H
      (order_event_json (iw_id row) ?ty (PL_broker e)), ev_intent_id = iw_id row, ev_type = ?ty,
      ev_at = be_occurred_at e, ev_payload = PL_broker e\<rparr>]"
    by (simp add: applied_parts append_order_event_def insert_or_ignore_def)
  have here: "be_client_order_key e \<in> iw_key ` set (intents d)"
    using r by (auto intro: rev_image_eqI)
  have "entry_ok H ?d ev" if "entry_ok H d ev" for ev
    using that keys box by (auto simp: entry_ok_def split: event_payload.splits)
  moreover have "e \<notin> set (log_events d)"
    using inv new log_event_entry [of H d e] by (force simp: book_inv_def list_ex_iff)
  then have "distinct (log_events ?d)"
    using inv by (simp add: log log_events_def book_inv_def log_inv_def)
  moreover have "fr_event ` set (fill_events ?d) \<subseteq> bx_event ` set (inbox ?d)"
    using inv applied_fills [of H row e d] unfolding box book_inv_def log_inv_def by blast
  ultimately have "log_inv H ?d"
    using inv log here keys box by (auto simp: book_inv_def log_inv_def list_all_iff entry_ok_def)
  moreover have "replay_inv ?d"
    using inv replay_cong [OF same] applied_economy [OF fill row, of H] replay_event_cong [OF same]
    by (simp add: book_inv_def replay_inv_def rebuild_economic_projection_def replay_append log)
  moreover have "intent_amounts_ok (iw_intent x) \<and> 0 \<le> iw_filled x \<and> iw_filled x \<le> xi_quantity (iw_intent x)"
    if x: "x \<in> set (intents ?d)" for x
  proof -
    let ?nf = "min (xi_quantity (iw_intent row)) (iw_filled row + be_filled_quantity e)"
    obtain y where y: "y \<in> set (intents d)" "iw_intent x = iw_intent y"
        "iw_filled x = (if iw_id y = iw_id row then ?nf else iw_filled y)"
      using x by (auto simp: applied_parts apply_to_intent_def set_update_where)
    have "y = row" if "iw_id y = iw_id row"
      using inv that r y(1) by (auto simp: book_inv_def intents_inv_def intro: same_key_same_row [of iw_id])
    moreover have "intent_amounts_ok (iw_intent y) \<and> 0 \<le> iw_filled y \<and> iw_filled y \<le> xi_quantity (iw_intent y)"
        "0 \<le> iw_filled row \<and> iw_filled row \<le> xi_quantity (iw_intent row)"
      using inv y(1) r by (auto simp: book_inv_def intents_inv_def)
    ultimately show ?thesis using y(2,3) e by (auto simp: event_amounts_ok_def)
  qed
  then have "intents_inv ?d"
    using inv ids by (simp add: book_inv_def intents_inv_def)
  ultimately show ?thesis by (simp add: book_inv_def)
qed

lemma freeze_frame:
  assumes "freeze H reason at tx d = (r, d')"
  obtains ts c where "d' = d\<lparr>tickets := ts, control := c\<rparr>"
  using assms
  by (cases "open_freeze_ticket H (map upper_char reason) ''legacy'' at ''BLOCKING'' tx d")
    (auto simp: freeze_def and_then_def split: sum.splits elim!: open_ticket_frame)

lemma book_inv_ingest [inv_intros]:
  assumes "book_inv H d" and "inj H" and "event_amounts_ok e" and "ingest_broker_event H e d = (r, d')"
  shows "book_inv H d'"
  using assms(4)
proof (cases rule: ingest_cases)
  case orphan
  obtain ts c where d': "d' = (set_inbox_status (be_id e) IB_ORPHAN
      (d\<lparr>inbox := inbox d @ [\<lparr>bx_event = e, bx_status = IB_RECEIVED\<rparr>]\<rparr>))\<lparr>tickets := ts, control := c\<rparr>"
    using orphan(4) by (rule freeze_frame)
  then have parts: "intents d' = intents d" "order_events d' = order_events d" "positions d' = positions d"
    "fill_events d' = fill_events d"
    "cash_delta d' = cash_delta d" "commissions d' = commissions d"
    and events: "map bx_event (inbox d') = map bx_event (inbox d) @ [e]"
    by (auto simp: set_inbox_status_def map_update_where)
  have box: "bx_event ` set (inbox d') = insert e (bx_event ` set (inbox d))"
    using arg_cong [OF events, of set] by simp
  have "entry_ok H d ev \<Longrightarrow> entry_ok H d' ev" for ev
    using parts box by (auto simp: entry_ok_def split: event_payload.splits)
  then show ?thesis
    using assms(1) parts box
    by (auto simp: book_inv_def intents_inv_def log_inv_def replay_inv_def list_all_iff log_events_def
        rebuild_economic_projection_def)
next
  case (applied row)
  then show ?thesis using assms(1-3) by (simp add: book_inv_applied)
qed (use assms(1) in auto)

subsection \<open>At-least-once delivery\<close>

definition received :: "store \<Rightarrow> broker_event \<Rightarrow> bool" where
  "received d e = list_ex (\<lambda>b. be_id (bx_event b) = be_id e) (inbox d)"

definition intake :: "(json \<Rightarrow> string) \<Rightarrow> broker_event \<Rightarrow> store \<Rightarrow> store" where
  "intake H e d = snd (ingest_broker_event H e d)"

lemma received_ids: "received d e \<longleftrightarrow> be_id e \<in> set (map (\<lambda>b. be_id (bx_event b)) (inbox d))"
  by (auto simp: received_def list_ex_iff intro: rev_image_eqI)

lemma intake_ids:
  assumes "ingest_broker_event H e d = (r, d')"
  shows "map (\<lambda>b. be_id (bx_event b)) (inbox d') =
    map (\<lambda>b. be_id (bx_event b)) (inbox d) @ (if \<not> received d e \<and> is_ok r then [be_id e] else [])"
  using assms
proof (cases rule: ingest_cases)
  case duplicate
  then show ?thesis by (simp add: received_def)
next
  case (error err)
  then show ?thesis by simp
next
  case orphan
  obtain ts c where "d' = (set_inbox_status (be_id e) IB_ORPHAN
      (d\<lparr>inbox := inbox d @ [\<lparr>bx_event = e, bx_status = IB_RECEIVED\<rparr>]\<rparr>))\<lparr>tickets := ts, control := c\<rparr>"
    using orphan(4) by (rule freeze_frame)
  then show ?thesis using orphan(1,3) set_inbox_status_ids by (simp add: received_def)
next
  case (applied row)
  have "map be_id (map bx_event (inbox d')) = map be_id (map bx_event (inbox d) @ [e])"
    using applied(4) applied_parts(2) [of H row e d] by simp
  then show ?thesis using applied(1,3) by (simp add: received_def comp_def)
qed

interpretation inbox_intake: idempotent_intake "intake H" received
    "\<lambda>d e. is_ok (fst (ingest_broker_event H e d))" for H
proof
  show "intake H e d = d" if "received d e" for d e
    using that ingest_duplicate [of e d H] by (simp add: received_def intake_def)
  show "intake H e d = d" if "\<not> received d e" "\<not> is_ok (fst (ingest_broker_event H e d))" for d e
    using that by (cases "ingest_broker_event H e d"; cases "fst (ingest_broker_event H e d)")
      (auto simp: intake_def ingest_broker_event_def transaction_def split: prod.splits sum.splits)
  show "received (intake H e d) e" if "\<not> received d e" "is_ok (fst (ingest_broker_event H e d))" for d e
    using that intake_ids [of H e d] by (cases "ingest_broker_event H e d") (simp add: intake_def received_ids)
  show "received (intake H e d) x" if "received d x" for d x e
    using that intake_ids [of H e d] by (cases "ingest_broker_event H e d") (simp add: intake_def received_ids)
qed

end
