(* ===== verification/Ctl_Machine.thy ===== *)
theory Ctl_Machine
  imports Ctl_Inbox
begin

section \<open>The store as a transition system\<close>

text \<open>
  Every public operation of \<open>DurableExecutionStore\<close> as a constructor of \<open>store_op\<close> and its effect
  on the database as \<open>exec_op\<close>; what the reconciler writes into its own two tables is the last
  constructor, with arbitrary contents. An operation that raises leaves whatever its transaction
  left. \<open>op_ok\<close> says that the amounts in the documents passed in satisfy their validators. \<open>store_inv\<close> collects
  the invariants of the components, and the interpretation of \<open>invariant_system\<close> shows that every
  sequence of operations keeps it.
\<close>

subsection \<open>Operations\<close>

datatype store_op =
    Op_stage decision_capsule risk_reservation execution_intent "string option"
  | Op_approve string string time
  | Op_arm arm_request
  | Op_acquire_lease string string time duration
  | Op_claim_next execution_lease time
  | Op_submission_unknown string time string
  | Op_delivered string time
  | Op_request_cancel string string time
  | Op_claim_cancel execution_lease time
  | Op_cancel_unknown string time string
  | Op_cancel_delivered string time
  | Op_recover time
  | Op_resolve_unknown string string time
  | Op_requeue_unknown string time time
  | Op_ingest broker_event
  | Op_open_ticket string string time string bool
  | Op_resolve_ticket string string time string
  | Op_freeze string time bool
  | Op_unfreeze time
  | Op_reopen time
  | Op_heartbeat string string time json
  | Op_baseline broker_snapshot
  | Op_advance_baseline broker_snapshot string time
  | Op_cash_bridge string rat string time json bool
  | Op_consensus broker_snapshot time duration
  | Op_authority broker_snapshot string string time
  | Op_quote string rat rat "rat option" time time string string string string string time
  | Op_no_trade string string string time json
  | Op_reality_gap string string time json
  | Op_naked_exposure string int int time
  | Op_reconciliation_tables "run_row list" "discrepancy_row list"

fun exec_op :: "(json \<Rightarrow> string) \<Rightarrow> store_op \<Rightarrow> store \<Rightarrow> store" where
  "exec_op H (Op_stage c r i fp) d = snd (stage H c r i fp d)"
| "exec_op H (Op_approve x actor at) d = snd (approve H x actor at d)"
| "exec_op H (Op_arm q) d = snd (arm_approved_intent H q d)"
| "exec_op H (Op_acquire_lease n ow at ttl) d = snd (acquire_lease n ow at ttl d)"
| "exec_op H (Op_claim_next l at) d = snd (claim_next H l at d)"
| "exec_op H (Op_submission_unknown c at reason) d = snd (mark_submission_unknown H c at reason d)"
| "exec_op H (Op_delivered c at) d = mark_delivered c at d"
| "exec_op H (Op_request_cancel x actor at) d = snd (request_cancel H x actor at d)"
| "exec_op H (Op_claim_cancel l at) d = snd (claim_next_cancel l at d)"
| "exec_op H (Op_cancel_unknown c at reason) d = snd (mark_cancel_unknown H c at reason d)"
| "exec_op H (Op_cancel_delivered c at) d = mark_cancel_delivered c at d"
| "exec_op H (Op_recover at) d = snd (recover_claimed_as_unknown H at d)"
| "exec_op H (Op_resolve_unknown k b at) d = resolve_unknown_at_broker H k b at d"
| "exec_op H (Op_requeue_unknown k as_of at) d = snd (requeue_unknown_absent_at_broker H k as_of at d)"
| "exec_op H (Op_ingest e) d = snd (ingest_broker_event H e d)"
| "exec_op H (Op_open_ticket reason source at sev tx) d = snd (open_freeze_ticket H reason source at sev tx d)"
| "exec_op H (Op_resolve_ticket reason source at ev) d = snd (resolve_freeze_ticket reason source at ev d)"
| "exec_op H (Op_freeze reason at tx) d = snd (freeze H reason at tx d)"
| "exec_op H (Op_unfreeze at) d = unfreeze_after_reconciliation at d"
| "exec_op H (Op_reopen now) d = snd (reopen_store H now d)"
| "exec_op H (Op_heartbeat c st at j) d = record_heartbeat c st at j d"
| "exec_op H (Op_baseline s) d = set_account_baseline s d"
| "exec_op H (Op_advance_baseline s b at) d = snd (advance_account_baseline_epoch H s b at d)"
| "exec_op H (Op_cash_bridge ty a cur at ev ex) d = snd (record_cash_bridge H ty a cur at ev ex d)"
| "exec_op H (Op_consensus s at mi) d = snd (register_snapshot_consensus s at mi d)"
| "exec_op H (Op_authority s run st at) d = snd (record_broker_snapshot_authority s run st at d)"
| "exec_op H (Op_quote sy b a l ob pt pr fm ph ve cu rc) d =
     snd (record_quote_snapshot H sy b a l ob pt pr fm ph ve cu rc d)"
| "exec_op H (Op_no_trade x reason source at p) d = snd (record_no_trade H x reason source at p d)"
| "exec_op H (Op_reality_gap x g at p) d = snd (record_reality_gap H x g at p d)"
| "exec_op H (Op_naked_exposure x q ms at) d = snd (record_naked_exposure H x q ms at d)"
| "exec_op H (Op_reconciliation_tables rs ds) d = d\<lparr>runs := rs, discrepancies := ds\<rparr>"

fun op_ok :: "store_op \<Rightarrow> bool" where
  "op_ok (Op_stage c r i fp) = (reservation_amounts_ok r \<and> intent_amounts_ok i)"
| "op_ok (Op_ingest e) = event_amounts_ok e"
| "op_ok _ = True"

subsection \<open>Footprints\<close>

text \<open>The tables the freeze, arm, consensus and authority invariants read.\<close>

definition core ::
    "store \<Rightarrow> freeze_ticket list \<times> control_state \<times> arm_row list \<times> vote_row list
      \<times> (string \<rightharpoonup> consensus_row) \<times> authority_row list" where
  "core d = (tickets d, control d, arms d, votes d, consensus d, authorities d)"

lemma core_append [simp]: "core (append_order_event H x ty at p d) = core d"
  by (simp add: core_def append_order_event_def)

lemma core_set_status [simp]: "core (set_intent_status x st d) = core d"
  by (simp add: core_def set_intent_status_def)

lemma core_update_reservation [simp]: "core (update_reservation x f q st d) = core d"
  by (simp add: core_def update_reservation_def)

lemma core_fields [simp]:
  "core (d\<lparr>outbox := ob\<rparr>) = core d" "core (d\<lparr>intents := is\<rparr>) = core d" "core (d\<lparr>cancels := cs\<rparr>) = core d"
  "core (d\<lparr>reservations := rs\<rparr>) = core d" "core (d\<lparr>approvals := aps\<rparr>) = core d"
  "core (d\<lparr>capsules := cps\<rparr>) = core d" "core (d\<lparr>inbox := ib\<rparr>) = core d" "core (d\<lparr>baseline := bl\<rparr>) = core d"
  "core (d\<lparr>quotes := qs\<rparr>) = core d" "core (d\<lparr>bridges := bs\<rparr>) = core d" "core (d\<lparr>leases := lm\<rparr>) = core d"
  "core (d\<lparr>heartbeats := hs\<rparr>) = core d" "core (d\<lparr>candidates := cds\<rparr>) = core d"
  "core (d\<lparr>runs := rn\<rparr>) = core d" "core (d\<lparr>discrepancies := dis\<rparr>) = core d"
  "core (d\<lparr>no_trades := nt\<rparr>) = core d" "core (d\<lparr>reality_gaps := rg\<rparr>) = core d"
  "core (d\<lparr>naked_exposures := ne\<rparr>) = core d" "core (d\<lparr>positions := po\<rparr>) = core d"
  "core (d\<lparr>fill_events := fe\<rparr>) = core d" "core (d\<lparr>cash_delta := ca\<rparr>) = core d"
  "core (d\<lparr>commissions := co\<rparr>) = core d"
  by (simp_all add: core_def)

definition staged ::
    "(json \<Rightarrow> string) \<Rightarrow> risk_reservation \<Rightarrow> execution_intent \<Rightarrow> capsule_row list \<Rightarrow> store \<Rightarrow> store" where
  "staged H r i caps d =
     (let d1 = d\<lparr>capsules := caps,
            reservations := insert_or_ignore reservation_clash (new_reservation_row r) (reservations d),
            intents := insert_or_ignore intent_clash (new_intent_row i) (intents d)\<rparr>
      in if xi_status i = XS_APPROVED
         then d1\<lparr>outbox := insert_or_ignore outbox_clash
              \<lparr>ow_command = outbox_command_of H i, ow_status = OB_PENDING, ow_token = None,
               ow_claimed_at = None, ow_delivered_at = None\<rparr> (outbox d),
            intents := update_where
              (\<lambda>r. iw_id r = xi_id i \<and> (iw_status r = XS_APPROVED \<or> iw_status r = XS_APPROVAL_PENDING))
              (\<lambda>r. r\<lparr>iw_status := XS_OUTBOXED, iw_version := iw_version r + 1\<rparr>) (intents d1)\<rparr>
         else d1)"

lemma stage_staged:
  assumes "stage H c r i fp d = (Inr u, d')"
  obtains caps where "d' = staged H r i caps d"
proof -
  obtain caps d1 where
    rs: "reservations d' = insert_or_ignore reservation_clash (new_reservation_row r) (reservations d)" and
    d1: "d1 = d\<lparr>capsules := caps, reservations := reservations d',
            intents := insert_or_ignore intent_clash (new_intent_row i) (intents d)\<rparr>" and
    d': "(if xi_status i = XS_APPROVED then enqueue H i d1 else (Inr (), d1)) = (Inr (), d')"
    using assms by (rule stage_Inr)
  have "d' = staged H r i caps d"
    using d' unfolding d1 rs
    by (auto simp: staged_def Let_def dest!: enqueue_Inr split: if_splits)
  then show thesis by (rule that)
qed

lemma exec_stage_cases:
  obtains "exec_op H (Op_stage c r i fp) d = d"
    | caps where "exec_op H (Op_stage c r i fp) d = staged H r i caps d"
proof (cases "stage H c r i fp d")
  case (Pair res d')
  show thesis
  proof (cases res)
    case (Inl e)
    then show thesis using Pair stage_error_unchanged [of H c r i fp d e d'] that(1) by simp
  next
    case (Inr u)
    then have "stage H c r i fp d = (Inr u, d')" using Pair by simp
    then obtain caps where "d' = staged H r i caps d" by (rule stage_staged)
    then show thesis using Pair by (intro that(2) [of caps]) simp
  qed
qed

lemma core_stage: "core (exec_op H (Op_stage c r i fp) d) = core d"
  by (rule exec_stage_cases [of H c r i fp d]) (simp_all add: staged_def Let_def)

lemma core_approve: "core (snd (approve H x a at d)) = core d"
  by (auto simp: approve_def approve_record_def Let_def split: sum.splits)

lemma core_request_cancel: "core (snd (request_cancel H x a at d)) = core d"
proof (cases "request_cancel H x a at d")
  case (Pair r d')
  then have "core d' = core d"
    by (cases rule: request_cancel_cases) (simp_all add: cancel_locally_def)
  then show ?thesis using Pair by simp
qed

lemma core_mark_unknown [simp]: "core (mark_outbox_unknown H c x at reason d) = core d"
  by (simp add: mark_outbox_unknown_def)

lemma core_recover: "core (snd (recover_claimed_as_unknown H at d)) = core d"
proof -
  have "core (fold (\<lambda>ob. mark_outbox_unknown H (ow_id ob) (ow_intent_id ob) at reason) rows d) = core d"
    for rows reason d by (induction rows arbitrary: d) simp_all
  then show ?thesis by (simp add: recover_claimed_as_unknown_def Let_def)
qed

lemma core_applied: "core (applied H row e d) = core d"
  by (simp add: applied_def Let_def set_inbox_status_def apply_to_intent_def
      update_economic_projections_def split: option.splits sum.splits)

text \<open>The operations that leave the core tables alone.\<close>

lemma core_unchanged:
  "core (exec_op H (Op_stage c r i fp) d) = core d"
  "core (exec_op H (Op_approve x actor at) d) = core d"
  "core (exec_op H (Op_acquire_lease n ow at ttl) d) = core d"
  "core (exec_op H (Op_submission_unknown cm at reason) d) = core d"
  "core (exec_op H (Op_delivered cm at) d) = core d"
  "core (exec_op H (Op_request_cancel x actor at) d) = core d"
  "core (exec_op H (Op_claim_cancel l at) d) = core d"
  "core (exec_op H (Op_cancel_unknown cm at reason) d) = core d"
  "core (exec_op H (Op_cancel_delivered cm at) d) = core d"
  "core (exec_op H (Op_recover at) d) = core d"
  "core (exec_op H (Op_resolve_unknown k b at) d) = core d"
  "core (exec_op H (Op_requeue_unknown k as_of at) d) = core d"
  "core (exec_op H (Op_heartbeat c' st at j) d) = core d"
  "core (exec_op H (Op_baseline s) d) = core d"
  "core (exec_op H (Op_advance_baseline s b at) d) = core d"
  "core (exec_op H (Op_quote sy bi a l' obs pt pr fm ph ve cu rc) d) = core d"
  "core (exec_op H (Op_no_trade x reason source at p) d) = core d"
  "core (exec_op H (Op_reality_gap x g at p) d) = core d"
  "core (exec_op H (Op_naked_exposure x q ms at) d) = core d"
  "core (exec_op H (Op_reconciliation_tables rs ds) d) = core d"
  by (simp_all add: core_stage [simplified] core_approve core_request_cancel core_recover acquire_lease_def
      mark_submission_unknown_def mark_delivered_def claim_next_cancel_def mark_cancel_unknown_def
      mark_cancel_delivered_def resolve_unknown_at_broker_def requeue_unknown_absent_at_broker_def
      record_heartbeat_def set_account_baseline_def advance_account_baseline_epoch_def
      record_quote_snapshot_def record_no_trade_def record_reality_gap_def record_naked_exposure_def
      Let_def split: option.splits prod.splits)

subsection \<open>Freezes, arms, consensus and authority\<close>

definition core_inv :: "store \<Rightarrow> bool" where
  "core_inv d \<longleftrightarrow> freeze_inv d \<and> arm_inv d \<and> consensus_inv d \<and> authority_inv d"

lemma core_inv_cong: "core d' = core d \<Longrightarrow> core_inv d' = core_inv d"
  using freeze_inv_cong [of d' d] arm_inv_cong [of d' d] consensus_inv_cong [of d' d]
  by (simp add: core_def core_inv_def authority_inv_def)

lemma core_inv_empty: "core_inv empty_store"
  by (simp add: core_inv_def freeze_inv_empty arm_inv_empty consensus_inv_empty authority_inv_empty)

lemma core_inv_tickets:
  assumes "core_inv d" and "freeze_inv d'"
    and "arms d' = arms d" "votes d' = votes d" "consensus d' = consensus d" "authorities d' = authorities d"
  shows "core_inv d'"
  using assms arm_inv_cong [of d' d] consensus_inv_cong [of d' d]
  by (simp add: core_inv_def authority_inv_def)

lemma core_inv_arms:
  assumes "core_inv d" and "arm_inv d'"
    and "tickets d' = tickets d" "control d' = control d" "votes d' = votes d" "consensus d' = consensus d"
      "authorities d' = authorities d"
  shows "core_inv d'"
  using assms freeze_inv_cong [of d' d] consensus_inv_cong [of d' d]
  by (simp add: core_inv_def authority_inv_def)

lemma core_inv_open:
  assumes "core_inv d" and "open_freeze_ticket H reason source at sev tx d = (r, d')"
  shows "core_inv d'"
proof -
  obtain ts c where "d' = d\<lparr>tickets := ts, control := c\<rparr>" using assms(2) by (rule open_ticket_frame)
  moreover have "freeze_inv d'" using assms freeze_inv_open by (auto simp: core_inv_def)
  ultimately show ?thesis by (intro core_inv_tickets [OF assms(1)]) simp_all
qed

lemma core_inv_freeze: "core_inv d \<Longrightarrow> freeze H reason at tx d = (r, d') \<Longrightarrow> core_inv d'"
  using core_inv_open [of d H "map upper_char reason" "''legacy''" at "''BLOCKING''" tx]
  by (cases "open_freeze_ticket H (map upper_char reason) ''legacy'' at ''BLOCKING'' tx d")
    (auto simp: freeze_def and_then_def split: sum.splits)

lemma core_inv_unfreeze: "core_inv d \<Longrightarrow> core_inv (unfreeze_after_reconciliation at d)"
proof (rule core_inv_tickets)
  have "arms (fold (\<lambda>(a, b) s. snd (resolve_freeze_ticket a b at ev s)) rs d) = arms d
      \<and> votes (fold (\<lambda>(a, b) s. snd (resolve_freeze_ticket a b at ev s)) rs d) = votes d
      \<and> consensus (fold (\<lambda>(a, b) s. snd (resolve_freeze_ticket a b at ev s)) rs d) = consensus d
      \<and> authorities (fold (\<lambda>(a, b) s. snd (resolve_freeze_ticket a b at ev s)) rs d) = authorities d"
    for rs ev by (induction rs arbitrary: d) (auto simp: resolve_freeze_ticket_def Let_def)
  then show "arms (unfreeze_after_reconciliation at d) = arms d"
    "votes (unfreeze_after_reconciliation at d) = votes d"
    "consensus (unfreeze_after_reconciliation at d) = consensus d"
    "authorities (unfreeze_after_reconciliation at d) = authorities d"
    by (simp_all add: unfreeze_after_reconciliation_def refresh_control_def Let_def)
qed (simp_all add: freeze_inv_unfreeze)

text \<open>Reopening the database: if the seed ticket was lost it is inserted again, unresolved, so the
  summary row must be written too; it is, because no start-up ticket is then open.\<close>

definition seeded :: "store \<Rightarrow> bool" where
  "seeded d \<longleftrightarrow> ft_id startup_ticket \<in> set (map ft_id (tickets d))"

lemma core_inv_reopen:
  assumes "core_inv d" and "seeded d"
  shows "core_inv (snd (reopen_store H now d))"
proof -
  have same: "insert_or_ignore (\<lambda>a b. ft_id a = ft_id b) startup_ticket (tickets d) = tickets d"
    using assms(2) by (auto simp: insert_or_ignore_def seeded_def list_ex_iff)
  show ?thesis
    using assms(1) core_inv_open [OF assms(1)]
    by (cases "open_freeze_ticket H ''STARTUP_RECONCILIATION'' ''system'' now ''BLOCKING'' False d")
      (auto simp: reopen_store_def same Let_def and_then_def split: sum.splits)
qed

lemma place_arm_frame:
  assumes "place_arm H b i at d = (r, d')"
  shows "tickets d' = tickets d \<and> control d' = control d \<and> votes d' = votes d
       \<and> consensus d' = consensus d \<and> authorities d' = authorities d"
proof -
  have issue: "issue_arm H b i x = (r, d') \<Longrightarrow> tickets d' = tickets x \<and> control d' = control x
      \<and> votes d' = votes x \<and> consensus d' = consensus x \<and> authorities d' = authorities x" for x
    by (auto simp: issue_arm_def enqueue_def Let_def and_then_def split: sum.splits)
  show ?thesis
    using assms issue
    by (fastforce simp: place_arm_def supersede_arm_def set_arm_status_def split: option.splits if_splits)
qed

lemma core_inv_arm:
  assumes "core_inv d" and "arm_approved_intent H q d = (r, d')"
  shows "core_inv d'"
  using assms(2)
proof (cases rule: arm_approved_intent_cases)
  case (froze reason tid e)
  then show ?thesis using core_inv_open [OF assms(1)] by simp
next
  case (placed row auth w adm a rsv aid)
  then show ?thesis
    using place_arm_frame [OF placed(19)] assms(1) arm_inv_place [OF _ placed(19)]
    by (intro core_inv_arms [OF assms(1)]) (auto simp: core_inv_def)
qed (use assms(1) in auto)

lemma claim_gate_arms:
  assumes "claim_gate i at d = (r, d')"
  shows "d' = d \<or> (\<exists>x. d' = set_arm_status x ARM_EXPIRED d)"
  using assms
  by (auto simp: claim_gate_def expire_arm_and_raise_def split: if_splits option.splits sum.splits prod.splits)

lemma claim_next_cases:
  assumes "claim_next H l at d = (r, d')"
  obtains (unchanged) "d' = d"
    | (expired) x where "d' = set_arm_status x ARM_EXPIRED d"
    | (released) ob i where "r = Inr None" "ob \<in> set (outbox d)" "d' = expire_claim H ob i at d"
    | (claimed) ob i arm where "d' = take_claim l ob i arm at d" "ob \<in> set (outbox d)"
        "ow_status ob = OB_PENDING" "lease_current d l at" "\<not> cs_frozen (control d)"
proof (cases "cs_frozen (control d) \<or> \<not> lease_current d l at \<or> claim_candidate d = None")
  case True
  then show thesis using assms unchanged by (auto simp: claim_next_def split: if_splits option.splits)
next
  case False
  then obtain ob i rr where c: "claim_candidate d = Some (ob, i, rr)" by auto
  note cd = claim_candidate_SomeD [OF c]
  obtain g d1 where g: "claim_gate i at d = (g, d1)" by fastforce
  show thesis
  proof (cases g)
    case (Inl e)
    then have "d' = d1" using assms False c g by (auto simp: claim_next_def)
    then show thesis using claim_gate_arms [OF g] unchanged expired by auto
  next
    case (Inr arm)
    have "d1 = d"
      using g Inr by (auto simp: claim_gate_def expire_arm_and_raise_def
          split: if_splits option.splits sum.splits prod.splits)
    then show thesis
      using assms False c g Inr cd released [of ob i] claimed [of ob i arm]
      by (auto simp: claim_next_def split: if_splits)
  qed
qed

lemma core_inv_claim:
  assumes "core_inv d" and "claim_next H l at d = (r, d')"
  shows "core_inv d'"
  using assms(2)
proof (cases rule: claim_next_cases)
  case (expired x)
  then have "arm_inv d'" using arm_inv_set_status assms(1) by (auto simp: core_inv_def)
  then show ?thesis using expired by (intro core_inv_arms [OF assms(1)]) (simp_all add: set_arm_status_def)
next
  case (released ob i)
  then have "core d' = core d" by (simp add: expire_claim_def)
  then show ?thesis using assms(1) core_inv_cong by blast
next
  case (claimed ob i arm)
  have "arm_inv d'"
  proof (cases arm)
    case None
    then have "arms d' = arms d" using claimed(1) by (simp add: take_claim_def set_intent_status_def Let_def)
    from arm_inv_cong [OF this] show ?thesis using assms(1) by (simp add: core_inv_def)
  next
    case (Some a)
    then show ?thesis
      using claimed(1) assms(1)
      by (intro arm_inv_update [of d d' "\<lambda>x. am_id x = am_id a \<and> am_status x = ARM_ACTIVE"
            "\<lambda>x. x\<lparr>am_status := ARM_CONSUMED, am_consumed_at := Some at\<rparr>"])
        (simp_all add: core_inv_def take_claim_def set_intent_status_def Let_def)
  qed
  then show ?thesis
    using claimed(1)
    by (intro core_inv_arms [OF assms(1)])
      (simp_all add: take_claim_def set_intent_status_def Let_def split: option.splits)
qed (use assms(1) in auto)

lemma core_inv_ingest:
  assumes "core_inv d" and "ingest_broker_event H e d = (r, d')"
  shows "core_inv d'"
  using assms(2)
proof (cases rule: ingest_cases)
  case orphan
  have "core (set_inbox_status (be_id e) IB_ORPHAN (d\<lparr>inbox := inbox d @ [\<lparr>bx_event = e, bx_status = IB_RECEIVED\<rparr>]\<rparr>)) = core d"
    by (simp add: set_inbox_status_def)
  then show ?thesis using assms(1) core_inv_freeze [OF _ orphan(4)] core_inv_cong by blast
next
  case (applied row)
  then show ?thesis using assms(1) core_inv_cong [OF core_applied] by blast
qed (use assms(1) in auto)

lemma core_inv_then_open:
  "core_inv d \<Longrightarrow> core_inv (snd (and_then (open_freeze_ticket H reason source at sev tx d) (\<lambda>_ d'. (Inr x, d'))))"
  using core_inv_open [of d H reason source at sev tx]
  by (cases "open_freeze_ticket H reason source at sev tx d") (auto simp: and_then_def split: sum.splits)

lemma core_inv_bridge: "core_inv d \<Longrightarrow> core_inv (snd (record_cash_bridge H ty a cur at ev ex d))"
  using core_inv_cong [OF core_fields(10)]
  by (simp add: record_cash_bridge_def Let_def core_inv_then_open)

lemma core_inv_consensus: "core_inv d \<Longrightarrow> core_inv (snd (register_snapshot_consensus s at mi d))"
proof -
  assume inv: "core_inv d"
  obtain r d' where e: "register_snapshot_consensus s at mi d = (r, d')" by fastforce
  have "tickets d' = tickets d \<and> control d' = control d \<and> arms d' = arms d \<and> authorities d' = authorities d"
    using e by (auto simp: register_snapshot_consensus_def register_vote_def Let_def
        split: if_splits sum.splits)
  then show ?thesis
    using inv e consensus_inv_register [OF _ e] freeze_inv_cong [of d' d] arm_inv_cong [of d' d]
    by (simp add: core_inv_def authority_inv_def)
qed

lemma core_inv_authority: "core_inv d \<Longrightarrow> core_inv (snd (record_broker_snapshot_authority s run st at d))"
proof -
  assume inv: "core_inv d"
  obtain r d' where e: "record_broker_snapshot_authority s run st at d = (r, d')" by fastforce
  have "tickets d' = tickets d \<and> control d' = control d \<and> arms d' = arms d \<and> votes d' = votes d
      \<and> consensus d' = consensus d"
    using e by (auto simp: record_broker_snapshot_authority_def Let_def split: if_splits)
  then show ?thesis
    using inv e authority_inv_record [OF _ e] freeze_inv_cong [of d' d] arm_inv_cong [of d' d]
      consensus_inv_cong [of d' d]
    by (simp add: core_inv_def)
qed

lemma core_inv_resolve: "core_inv d \<Longrightarrow> core_inv (snd (resolve_freeze_ticket reason source at ev d))"
  using freeze_inv_resolve [of d reason source at ev]
  by (rule core_inv_tickets [rotated]) (simp_all add: core_inv_def resolve_freeze_ticket_def Let_def)

lemmas core_inv_unchanged = core_unchanged [THEN core_inv_cong]

lemma core_inv_exec:
  assumes inv: "core_inv d" and seeded: "seeded d"
  shows "core_inv (exec_op H op d)"
proof (cases op)
  case (Op_arm q)
  then show ?thesis using core_inv_arm [OF inv] by (cases "arm_approved_intent H q d") simp
next
  case (Op_claim_next l at)
  then show ?thesis using core_inv_claim [OF inv] by (cases "claim_next H l at d") simp
next
  case (Op_ingest e)
  then show ?thesis using core_inv_ingest [OF inv] by (cases "ingest_broker_event H e d") simp
next
  case (Op_open_ticket reason source at sev tx)
  then show ?thesis
    using core_inv_open [OF inv] by (cases "open_freeze_ticket H reason source at sev tx d") simp
next
  case (Op_freeze reason at tx)
  then show ?thesis using core_inv_freeze [OF inv] by (cases "freeze H reason at tx d") simp
next
  case (Op_resolve_ticket reason source at ev)
  then show ?thesis using inv by (simp add: core_inv_resolve)
next
  case (Op_unfreeze at)
  then show ?thesis using inv by (simp add: core_inv_unfreeze)
next
  case (Op_reopen now)
  then show ?thesis using inv seeded by (simp add: core_inv_reopen)
next
  case (Op_cash_bridge ty a cur at ev ex)
  then show ?thesis using inv by (simp add: core_inv_bridge)
next
  case (Op_consensus s at mi)
  then show ?thesis using inv by (simp add: core_inv_consensus)
next
  case (Op_authority s run st at)
  then show ?thesis using inv by (simp add: core_inv_authority)
qed (use inv in \<open>simp_all add: core_inv_unchanged del: exec_op.simps\<close>)

text \<open>Tickets are never deleted, so the seed ticket stays.\<close>

lemma seeded_open: "seeded d \<Longrightarrow> open_freeze_ticket H reason source at sev tx d = (r, d') \<Longrightarrow> seeded d'"
  by (erule open_ticket_cases) (auto simp: seeded_def)

lemma seeded_freeze: "seeded d \<Longrightarrow> freeze H reason at tx d = (r, d') \<Longrightarrow> seeded d'"
  using seeded_open [of d H "map upper_char reason" "''legacy''" at "''BLOCKING''" tx]
  by (cases "open_freeze_ticket H (map upper_char reason) ''legacy'' at ''BLOCKING'' tx d")
    (auto simp: freeze_def and_then_def split: sum.splits)

lemma seeded_then_open:
  "seeded d \<Longrightarrow> seeded (snd (and_then (open_freeze_ticket H reason source at sev tx d) (\<lambda>_ d'. (Inr x, d'))))"
  using seeded_open [of d H reason source at sev tx]
  by (cases "open_freeze_ticket H reason source at sev tx d") (auto simp: and_then_def split: sum.splits)

lemma seeded_cong: "tickets d' = tickets d \<Longrightarrow> seeded d' = seeded d"
  by (simp add: seeded_def)

lemma seeded_core: "core d' = core d \<Longrightarrow> seeded d' = seeded d"
  by (simp add: core_def seeded_def)

lemma seeded_resolve: "seeded d \<Longrightarrow> seeded (snd (resolve_freeze_ticket reason source at ev d))"
  by (simp add: seeded_def resolve_freeze_ticket_def Let_def map_update_where del: set_map)

lemma seeded_unfreeze: "seeded d \<Longrightarrow> seeded (unfreeze_after_reconciliation at d)"
proof -
  assume s: "seeded d"
  have "seeded (fold (\<lambda>(a, b) s. snd (resolve_freeze_ticket a b at ev s)) rs d)" for rs ev
    using s by (induction rs arbitrary: d) (auto simp: seeded_resolve)
  then show ?thesis
    by (simp add: unfreeze_after_reconciliation_def refresh_control_def Let_def seeded_def)
qed

lemmas seeded_unchanged = core_unchanged [THEN seeded_core]

lemma seeded_exec:
  assumes s: "seeded d"
  shows "seeded (exec_op H op d)"
proof (cases op)
  case (Op_arm q)
  have "seeded d'" if "arm_approved_intent H q d = (r, d')" for r d'
    using that
  proof (cases rule: arm_approved_intent_cases)
    case (froze reason tid e)
    then show ?thesis using s seeded_open by blast
  next
    case (placed row auth w adm a rsv aid)
    then show ?thesis using s seeded_cong place_arm_frame [OF placed(19)] by blast
  qed (use s in auto)
  then show ?thesis using Op_arm by (cases "arm_approved_intent H q d") simp
next
  case (Op_claim_next l at)
  have "tickets d' = tickets d" if "claim_next H l at d = (r, d')" for r d'
    using that
    by (cases rule: claim_next_cases)
      (auto simp: set_arm_status_def expire_claim_def take_claim_def set_intent_status_def
        append_order_event_def Let_def split: option.splits)
  then show ?thesis
    using Op_claim_next s by (cases "claim_next H l at d") (simp add: seeded_def)
next
  case (Op_ingest e)
  have "seeded d'" if "ingest_broker_event H e d = (r, d')" for r d'
    using that
  proof (cases rule: ingest_cases)
    case orphan
    then show ?thesis using s by (intro seeded_freeze [OF _ orphan(4)]) (simp add: seeded_def set_inbox_status_def)
  next
    case (applied row)
    then show ?thesis using s seeded_core [OF core_applied] by blast
  qed (use s in auto)
  then show ?thesis using Op_ingest by (cases "ingest_broker_event H e d") simp
next
  case (Op_open_ticket reason source at sev tx)
  then show ?thesis
    using seeded_open [OF s] by (cases "open_freeze_ticket H reason source at sev tx d") simp
next
  case (Op_freeze reason at tx)
  then show ?thesis using seeded_freeze [OF s] by (cases "freeze H reason at tx d") simp
next
  case (Op_resolve_ticket reason source at ev)
  then show ?thesis using s by (simp add: seeded_resolve)
next
  case (Op_unfreeze at)
  then show ?thesis using s by (simp add: seeded_unfreeze)
next
  case (Op_reopen now)
  have "seeded (d\<lparr>tickets := insert_or_ignore (\<lambda>a b. ft_id a = ft_id b) startup_ticket (tickets d)\<rparr>)"
    using s by (auto simp: seeded_def insert_or_ignore_def)
  then show ?thesis using Op_reopen by (simp add: reopen_store_def Let_def seeded_then_open)
next
  case (Op_cash_bridge ty a cur at ev ex)
  then show ?thesis
    using s seeded_core [OF core_fields(10)]
    by (simp add: record_cash_bridge_def Let_def seeded_then_open)
next
  case (Op_consensus sn at mi)
  then show ?thesis
    using s by (auto simp: seeded_def register_snapshot_consensus_def register_vote_def Let_def
        split: sum.splits)
next
  case (Op_authority sn run st at)
  then show ?thesis
    using s by (auto simp: seeded_def record_broker_snapshot_authority_def Let_def)
qed (use s in \<open>simp_all add: seeded_unchanged del: exec_op.simps\<close>)

subsection \<open>The book\<close>

text \<open>Building blocks of \<open>same_book\<close>.\<close>

lemma same_book_append:
  "same_book H d d1 \<Longrightarrow> (\<And>e. p \<noteq> PL_broker e) \<Longrightarrow> same_book H d (append_order_event H x ty at p d1)"
  by (cases p) (auto simp: same_book_def append_order_event_def insert_or_ignore_def local_entry_def
      intent_book_def)

lemma intent_book_update:
  assumes "\<And>r. iw_intent (f r) = iw_intent r" "\<And>r. iw_filled (f r) = iw_filled r"
  shows "map (\<lambda>r. (iw_intent r, iw_filled r)) (update_where P f rows) = map (\<lambda>r. (iw_intent r, iw_filled r)) rows"
  using assms by (simp add: map_update_where)

lemma same_book_status [simp]: "same_book H d (set_intent_status x st d1) = same_book H d d1"
  by (simp add: same_book_def set_intent_status_def intent_book_def intent_book_update)

lemma same_book_reservation [simp]: "same_book H d (update_reservation x f q st d1) = same_book H d d1"
  by (simp add: same_book_def update_reservation_def intent_book_def)

lemma same_book_arm_status [simp]: "same_book H d (set_arm_status x st d1) = same_book H d d1"
  by (simp add: same_book_def set_arm_status_def intent_book_def)

lemma same_book_fields [simp]:
  "same_book H d (d1\<lparr>outbox := ob\<rparr>) = same_book H d d1" "same_book H d (d1\<lparr>cancels := cs\<rparr>) = same_book H d d1"
  "same_book H d (d1\<lparr>reservations := rs\<rparr>) = same_book H d d1" "same_book H d (d1\<lparr>approvals := aps\<rparr>) = same_book H d d1"
  "same_book H d (d1\<lparr>arms := ar\<rparr>) = same_book H d d1" "same_book H d (d1\<lparr>capsules := cps\<rparr>) = same_book H d d1"
  "same_book H d (d1\<lparr>baseline := bl\<rparr>) = same_book H d d1" "same_book H d (d1\<lparr>quotes := qs\<rparr>) = same_book H d d1"
  "same_book H d (d1\<lparr>bridges := bs\<rparr>) = same_book H d d1" "same_book H d (d1\<lparr>leases := lm\<rparr>) = same_book H d d1"
  "same_book H d (d1\<lparr>heartbeats := hs\<rparr>) = same_book H d d1" "same_book H d (d1\<lparr>candidates := cds\<rparr>) = same_book H d d1"
  "same_book H d (d1\<lparr>authorities := aus\<rparr>) = same_book H d d1" "same_book H d (d1\<lparr>votes := vs\<rparr>) = same_book H d d1"
  "same_book H d (d1\<lparr>consensus := cm\<rparr>) = same_book H d d1" "same_book H d (d1\<lparr>runs := rn\<rparr>) = same_book H d d1"
  "same_book H d (d1\<lparr>discrepancies := dis\<rparr>) = same_book H d d1" "same_book H d (d1\<lparr>no_trades := nt\<rparr>) = same_book H d d1"
  "same_book H d (d1\<lparr>reality_gaps := rg\<rparr>) = same_book H d d1" "same_book H d (d1\<lparr>naked_exposures := ne\<rparr>) = same_book H d d1"
  "same_book H d (d1\<lparr>tickets := ts\<rparr>) = same_book H d d1" "same_book H d (d1\<lparr>control := ct\<rparr>) = same_book H d d1"
  by (simp_all add: same_book_def intent_book_def)

lemma same_book_intents [simp]:
  assumes "\<And>r. iw_intent (f r) = iw_intent r" "\<And>r. iw_filled (f r) = iw_filled r" "rows = intents d1"
  shows "same_book H d (d1\<lparr>intents := update_where P f rows\<rparr>) = same_book H d d1"
  using assms by (simp add: same_book_def intent_book_def intent_book_update)

lemma same_book_open:
  "open_freeze_ticket H' reason source at sev tx d = (r, d') \<Longrightarrow> same_book H d d'"
  by (erule open_ticket_frame) simp

lemma same_book_freeze: "freeze H' reason at tx d = (r, d') \<Longrightarrow> same_book H d d'"
  by (erule freeze_frame) simp

lemma same_book_then_open:
  "same_book H d (snd (and_then (open_freeze_ticket H' reason source at sev tx d1) (\<lambda>_ d'. (Inr x, d'))))
     = same_book H d d1"
proof (cases "open_freeze_ticket H' reason source at sev tx d1")
  case (Pair r d')
  then obtain ts c where "d' = d1\<lparr>tickets := ts, control := c\<rparr>" by (rule open_ticket_frame)
  then show ?thesis using Pair by (cases r) simp_all
qed

lemma same_book_enqueue: "enqueue H' i d1 = (r, d') \<Longrightarrow> same_book H d d' = same_book H d d1"
  by (auto simp: enqueue_def same_book_def intent_book_def intent_book_update Let_def split: sum.splits)

lemma same_book_place: "place_arm H' b i at d = (r, d') \<Longrightarrow> same_book H d d'"
proof -
  assume p: "place_arm H' b i at d = (r, d')"
  have issue: "issue_arm H' b i x = (r, d') \<Longrightarrow> same_book H d x \<Longrightarrow> same_book H d d'" for x
  proof -
    assume a: "issue_arm H' b i x = (r, d')" and x: "same_book H d x"
    then consider "d' = x" | rows q where "enqueue H' i (x\<lparr>arms := rows\<rparr>) = (q, d')"
      by (auto simp: issue_arm_def Let_def and_then_def split: sum.splits prod.splits) (metis prod.collapse)+
    then show ?thesis using x by cases (auto dest: same_book_enqueue [where H = H and d = d])
  qed
  show ?thesis
    using p issue by (auto simp: place_arm_def supersede_arm_def split: option.splits if_splits)
qed

lemma same_book_mark_unknown [simp]:
  "same_book H d d1 \<Longrightarrow> same_book H d (mark_outbox_unknown H c x at reason d1)"
  by (simp add: mark_outbox_unknown_def same_book_append)

lemma same_book_recover: "same_book H d (snd (recover_claimed_as_unknown H at d))"
proof -
  have "same_book H d d1 \<Longrightarrow>
      same_book H d (fold (\<lambda>ob. mark_outbox_unknown H (ow_id ob) (ow_intent_id ob) at reason) rows d1)"
    for rows reason d1 by (induction rows arbitrary: d1) simp_all
  then show ?thesis by (simp add: recover_claimed_as_unknown_def Let_def)
qed

lemma same_book_request_cancel: "same_book H d (snd (request_cancel H x a at d))"
proof (cases "request_cancel H x a at d")
  case (Pair r d')
  then have "same_book H d d'"
    by (cases rule: request_cancel_cases) (simp_all add: cancel_locally_def same_book_append)
  then show ?thesis using Pair by simp
qed

lemma same_book_claim: "claim_next H l at d = (r, d') \<Longrightarrow> same_book H d d'"
  by (erule claim_next_cases)
    (auto simp: expire_claim_def take_claim_def Let_def same_book_append split: option.splits)

lemma same_book_arm: "arm_approved_intent H' q d = (r, d') \<Longrightarrow> same_book H d d'"
  by (erule arm_approved_intent_cases) (auto dest: same_book_open same_book_place)

lemma same_book_unfreeze: "same_book H d (unfreeze_after_reconciliation at d)"
proof -
  have "same_book H d d1 \<Longrightarrow> same_book H d (fold (\<lambda>(a, b) s. snd (resolve_freeze_ticket a b at ev s)) rs d1)"
    for rs ev d1 by (induction rs arbitrary: d1) (auto simp: resolve_freeze_ticket_def Let_def)
  then show ?thesis by (simp add: unfreeze_after_reconciliation_def refresh_control_def Let_def)
qed

lemma same_book_exec:
  assumes "\<And>c r i fp. op \<noteq> Op_stage c r i fp" and "\<And>e. op \<noteq> Op_ingest e"
  shows "same_book H d (exec_op H op d)"
proof (cases op)
  case (Op_arm q)
  then show ?thesis using same_book_arm by (cases "arm_approved_intent H q d") simp
next
  case (Op_claim_next l at)
  then show ?thesis using same_book_claim by (cases "claim_next H l at d") simp
next
  case (Op_open_ticket reason source at sev tx)
  then show ?thesis
    using same_book_open by (cases "open_freeze_ticket H reason source at sev tx d") simp
next
  case (Op_freeze reason at tx)
  then show ?thesis using same_book_freeze by (cases "freeze H reason at tx d") simp
qed (use assms in \<open>auto simp: same_book_append same_book_then_open same_book_recover
  same_book_request_cancel same_book_unfreeze approve_def approve_record_def acquire_lease_def
  mark_submission_unknown_def mark_delivered_def claim_next_cancel_def mark_cancel_unknown_def
  mark_cancel_delivered_def resolve_unknown_at_broker_def requeue_unknown_absent_at_broker_def
  resolve_freeze_ticket_def reopen_store_def record_heartbeat_def set_account_baseline_def
  advance_account_baseline_epoch_def record_cash_bridge_def register_snapshot_consensus_def
  register_vote_def record_broker_snapshot_authority_def record_quote_snapshot_def
  record_no_trade_def record_reality_gap_def record_naked_exposure_def Let_def
  split: option.splits sum.splits prod.splits\<close>)

text \<open>Staging adds at most one intent, unfilled, whose id and key are new.\<close>

lemma book_inv_staged:
  assumes inv: "book_inv H d" and i: "intent_amounts_ok i"
  shows "book_inv H (staged H' r i caps d)"
proof -
  let ?d = "staged H' r i caps d"
  have rows: "intent_book ?d = intent_book (d\<lparr>intents := insert_or_ignore intent_clash (new_intent_row i) (intents d)\<rparr>)"
    by (simp add: staged_def Let_def intent_book_def intent_book_update)
  have fixed: "inbox ?d = inbox d" "order_events ?d = order_events d" "positions ?d = positions d"
      "cash_delta ?d = cash_delta d" "commissions ?d = commissions d" "fill_events ?d = fill_events d"
    by (simp_all add: staged_def Let_def)
  show ?thesis
  proof (cases "list_ex (intent_clash (new_intent_row i)) (intents d)")
    case True
    then have "same_book H d (?d\<lparr>fill_events := fill_events d\<rparr>)"
      using rows fixed by (simp add: same_book_def insert_or_ignore_def intent_book_def)
    moreover have "?d\<lparr>fill_events := fill_events d\<rparr> = ?d" by (simp add: staged_def Let_def)
    ultimately show ?thesis using inv book_inv_same by metis
  next
    case False
    then have book: "intent_book ?d = intent_book d @ [(i, 0)]"
      using rows by (simp add: insert_or_ignore_def intent_book_def new_intent_row_def)
    have docs: "map iw_intent (intents ?d) = map iw_intent (intents d @ [new_intent_row i])"
      using arg_cong [OF book, of "map fst"] by (simp add: intent_book_def comp_def new_intent_row_def)
    have keys: "iw_key ` set (intents ?d) = insert (xi_client_order_key i) (iw_key ` set (intents d))"
      using arg_cong [OF docs, of "\<lambda>xs. xi_client_order_key ` set xs"]
      by (simp add: image_image new_intent_row_def)
    have "intents_inv ?d"
      using inv False i
      by (auto simp: book_inv_def intents_inv_book book list_ex_iff intent_clash_def new_intent_row_def
          intent_amounts_ok_def image_iff) (auto simp: intent_book_def)
    moreover have "log_events ?d = log_events d" by (simp add: log_events_def fixed)
    then have "log_inv H ?d"
      using inv fixed(1) keys
      by (auto simp: book_inv_def log_inv_def fixed list_all_iff entry_ok_def split: event_payload.splits)
    moreover have "replay (intents ?d) (map ev_payload (order_events d)) s =
        replay (intents d) (map ev_payload (order_events d)) s" for s
      unfolding replay_cong [OF docs]
      by (rule replay_more_rows)
        (use inv in \<open>auto simp: book_inv_def log_inv_def list_all_iff entry_ok_def dest!: bspec
            split: event_payload.splits\<close>)
    then have "replay_inv ?d"
      using inv by (simp add: book_inv_def replay_inv_def rebuild_economic_projection_def fixed)
    ultimately show ?thesis by (simp add: book_inv_def)
  qed
qed

lemma book_inv_exec:
  assumes inv: "book_inv H d" and H: "inj H" and ok: "op_ok op"
  shows "book_inv H (exec_op H op d)"
proof (cases "\<exists>c r i fp. op = Op_stage c r i fp")
  case True
  then obtain c r i fp where op: "op = Op_stage c r i fp" by blast
  then show ?thesis
    using exec_stage_cases [of H c r i fp d] inv ok book_inv_staged by (metis op_ok.simps(1))
next
  case ns: False
  show ?thesis
  proof (cases "\<exists>e. op = Op_ingest e")
    case True
    then obtain e where "op = Op_ingest e" by blast
    then show ?thesis
      using book_inv_ingest [OF inv H] ok by (cases "ingest_broker_event H e d") simp
  next
    case False
    then show ?thesis using book_inv_same [OF inv] same_book_exec ns by blast
  qed
qed

subsection \<open>Unique keys\<close>

definition claim_ok :: "outbox_row \<Rightarrow> bool" where
  "claim_ok ob \<longleftrightarrow> (ow_status ob = OB_CLAIMED \<longrightarrow> ow_token ob \<noteq> None \<and> ow_claimed_at ob \<noteq> None)"

definition tables_inv :: "store \<Rightarrow> bool" where
  "tables_inv d \<longleftrightarrow>
     distinct (map rw_id (reservations d))
     \<and> distinct (map ow_id (outbox d)) \<and> distinct (map ow_intent_id (outbox d))
     \<and> distinct (map ow_key (outbox d))
     \<and> distinct (map cn_id (cancels d)) \<and> distinct (map cn_intent_id (cancels d))
     \<and> distinct (map (\<lambda>b. be_id (bx_event b)) (inbox d))
     \<and> distinct (map aw_intent_id (approvals d))
     \<and> list_all claim_ok (outbox d)"

definition tables_kept :: "store \<Rightarrow> store \<Rightarrow> bool" where
  "tables_kept d d' \<longleftrightarrow>
     map rw_reservation (reservations d') = map rw_reservation (reservations d)
     \<and> map ow_command (outbox d') = map ow_command (outbox d)
     \<and> map (\<lambda>c. (cn_id c, cn_intent_id c)) (cancels d') = map (\<lambda>c. (cn_id c, cn_intent_id c)) (cancels d)
     \<and> map bx_event (inbox d') = map bx_event (inbox d) \<and> approvals d' = approvals d
     \<and> (list_all claim_ok (outbox d) \<longrightarrow> list_all claim_ok (outbox d'))"

lemma tables_kept_refl [simp]: "tables_kept d d"
  by (simp add: tables_kept_def)

lemma tables_kept_trans: "tables_kept a b \<Longrightarrow> tables_kept b c \<Longrightarrow> tables_kept a c"
  by (auto simp: tables_kept_def)

lemma map_factor: "map f xs = map f ys \<Longrightarrow> map (\<lambda>x. g (f x)) xs = map (\<lambda>x. g (f x)) ys"
  by (metis (no_types, lifting) map_map comp_apply map_eq_conv)

lemma tables_inv_kept:
  assumes "tables_inv d" and "tables_kept d d'"
  shows "tables_inv d'"
proof -
  note k = assms(2) [unfolded tables_kept_def]
  have "map rw_id (reservations d') = map rw_id (reservations d)"
    "map ow_id (outbox d') = map ow_id (outbox d)" "map ow_intent_id (outbox d') = map ow_intent_id (outbox d)"
    "map ow_key (outbox d') = map ow_key (outbox d)"
    "map cn_id (cancels d') = map cn_id (cancels d)" "map cn_intent_id (cancels d') = map cn_intent_id (cancels d)"
    "map (\<lambda>b. be_id (bx_event b)) (inbox d') = map (\<lambda>b. be_id (bx_event b)) (inbox d)"
    using k map_factor [where f = "\<lambda>c. (cn_id c, cn_intent_id c)" and g = fst]
      map_factor [where f = "\<lambda>c. (cn_id c, cn_intent_id c)" and g = snd]
    by (auto intro: map_factor)
  then show ?thesis using assms k by (simp add: tables_inv_def)
qed

lemma claim_ok_update:
  "(\<And>r. P r \<Longrightarrow> claim_ok (f r)) \<Longrightarrow> list_all claim_ok rows \<Longrightarrow> list_all claim_ok (update_where P f rows)"
  by (induction rows) auto

lemma tables_kept_outbox:
  assumes "tables_kept d d1" and "\<And>r. ow_command (f r) = ow_command r" and "\<And>r. P r \<Longrightarrow> claim_ok (f r)"
    and "rows = outbox d1"
  shows "tables_kept d (d1\<lparr>outbox := update_where P f rows\<rparr>)"
  using assms claim_ok_update [of P f "outbox d1"] by (simp add: tables_kept_def map_update_where)

lemma tables_kept_frame [simp]:
  "tables_kept d (append_order_event H x ty at p d1) = tables_kept d d1"
  "tables_kept d (set_intent_status x st d1) = tables_kept d d1"
  "tables_kept d (set_arm_status x as d1) = tables_kept d d1"
  "tables_kept d (update_reservation x f q st d1) = tables_kept d d1"
  "tables_kept d (d1\<lparr>intents := is\<rparr>) = tables_kept d d1" "tables_kept d (d1\<lparr>arms := ars\<rparr>) = tables_kept d d1"
  "tables_kept d (d1\<lparr>tickets := ts, control := c\<rparr>) = tables_kept d d1"
  "tables_kept d (d1\<lparr>tickets := ts\<rparr>) = tables_kept d d1" "tables_kept d (d1\<lparr>control := c\<rparr>) = tables_kept d d1"
  "tables_kept d (d1\<lparr>leases := lm\<rparr>) = tables_kept d d1" "tables_kept d (d1\<lparr>heartbeats := hs\<rparr>) = tables_kept d d1"
  "tables_kept d (d1\<lparr>baseline := bl\<rparr>) = tables_kept d d1" "tables_kept d (d1\<lparr>bridges := bs\<rparr>) = tables_kept d d1"
  "tables_kept d (d1\<lparr>votes := vs\<rparr>) = tables_kept d d1" "tables_kept d (d1\<lparr>consensus := cm\<rparr>) = tables_kept d d1"
  "tables_kept d (d1\<lparr>candidates := cds\<rparr>) = tables_kept d d1"
  "tables_kept d (d1\<lparr>authorities := aus\<rparr>) = tables_kept d d1" "tables_kept d (d1\<lparr>quotes := qs\<rparr>) = tables_kept d d1"
  "tables_kept d (d1\<lparr>no_trades := nt\<rparr>) = tables_kept d d1" "tables_kept d (d1\<lparr>reality_gaps := rg\<rparr>) = tables_kept d d1"
  "tables_kept d (d1\<lparr>naked_exposures := ne\<rparr>) = tables_kept d d1" "tables_kept d (d1\<lparr>runs := rn\<rparr>) = tables_kept d d1"
  "tables_kept d (d1\<lparr>discrepancies := dis\<rparr>) = tables_kept d d1"
  by (simp_all add: tables_kept_def append_order_event_def set_intent_status_def set_arm_status_def
      update_reservation_def map_update_where)

lemma tables_kept_cancels [simp]:
  assumes "\<And>r. cn_id (f r) = cn_id r" "\<And>r. cn_intent_id (f r) = cn_intent_id r" "rows = cancels d1"
  shows "tables_kept d (d1\<lparr>cancels := update_where P f rows\<rparr>) = tables_kept d d1"
  using assms by (simp add: tables_kept_def map_update_where)

lemma tables_kept_mark_unknown:
  "tables_kept d d1 \<Longrightarrow> tables_kept d (mark_outbox_unknown H c x at reason d1)"
  by (simp add: mark_outbox_unknown_def tables_kept_outbox claim_ok_def)

lemma tables_kept_recover: "tables_kept d (snd (recover_claimed_as_unknown H at d))"
proof -
  have "tables_kept d d1 \<Longrightarrow>
      tables_kept d (fold (\<lambda>ob. mark_outbox_unknown H (ow_id ob) (ow_intent_id ob) at reason) rows d1)"
    for rows reason d1 by (induction rows arbitrary: d1) (simp_all add: tables_kept_mark_unknown)
  then show ?thesis by (simp add: recover_claimed_as_unknown_def Let_def)
qed

lemma tables_kept_claim: "claim_next H l at d = (r, d') \<Longrightarrow> tables_kept d d'"
proof (erule claim_next_cases)
  fix ob i assume "d' = expire_claim H ob i at d"
  then show ?thesis
    by (simp add: expire_claim_def tables_kept_def append_order_event_def set_intent_status_def
        map_update_where claim_ok_update claim_ok_def)
next
  fix ob i arm assume "d' = take_claim l ob i arm at d"
  then show ?thesis
    by (cases arm) (simp_all add: take_claim_def Let_def tables_kept_outbox claim_ok_def)
qed simp_all

lemma tables_kept_unfreeze: "tables_kept d (unfreeze_after_reconciliation at d)"
proof -
  have "tables_kept d d1 \<Longrightarrow> tables_kept d (fold (\<lambda>(a, b) s. snd (resolve_freeze_ticket a b at ev s)) rs d1)"
    for rs ev d1 by (induction rs arbitrary: d1) (auto simp: resolve_freeze_ticket_def Let_def)
  then show ?thesis by (simp add: unfreeze_after_reconciliation_def refresh_control_def Let_def)
qed

lemma tables_kept_open:
  "open_freeze_ticket H reason source at sev tx d1 = (r, d') \<Longrightarrow> tables_kept d d' = tables_kept d d1"
  by (erule open_ticket_frame) simp

lemma tables_kept_freeze: "freeze H reason at tx d1 = (r, d') \<Longrightarrow> tables_kept d d' = tables_kept d d1"
  by (erule freeze_frame) simp

lemma tables_kept_then_open:
  "tables_kept d (snd (and_then (open_freeze_ticket H' reason source at sev tx d1) (\<lambda>_ d'. (Inr x, d'))))
     = tables_kept d d1"
  using tables_kept_open [of H' reason source at sev tx d1]
  by (cases "open_freeze_ticket H' reason source at sev tx d1") (auto simp: and_then_def split: sum.splits)

lemma tables_inv_enqueue:
  assumes "tables_inv d" and "enqueue H i d = (r, d')"
  shows "tables_inv d'"
proof (cases r)
  case (Inl e)
  then show ?thesis using assms by (auto simp: enqueue_def Let_def split: sum.splits)
next
  case (Inr u)
  let ?row = "\<lparr>ow_command = outbox_command_of H i, ow_status = OB_PENDING, ow_token = None,
               ow_claimed_at = None, ow_delivered_at = None\<rparr>"
  have d': "outbox d' = insert_or_ignore outbox_clash ?row (outbox d)" "reservations d' = reservations d"
    "cancels d' = cancels d" "inbox d' = inbox d" "approvals d' = approvals d"
    using enqueue_Inr [of H i d u d'] assms(2) Inr by simp_all
  have "distinct (map c (insert_or_ignore outbox_clash ?row (outbox d)))"
    if "distinct (map c (outbox d))" "\<And>x. c x = c ?row \<Longrightarrow> outbox_clash ?row x" for c :: "outbox_row \<Rightarrow> string"
    using that by (rule distinct_insert_or_ignore)
  then show ?thesis
    using assms(1) by (simp add: tables_inv_def d') (auto simp: outbox_clash_def insert_or_ignore_def claim_ok_def)
qed

lemma tables_inv_cong:
  "reservations d' = reservations d \<Longrightarrow> outbox d' = outbox d \<Longrightarrow> cancels d' = cancels d \<Longrightarrow>
   inbox d' = inbox d \<Longrightarrow> approvals d' = approvals d \<Longrightarrow> tables_inv d' = tables_inv d"
  by (simp add: tables_inv_def)

lemma tables_inv_stage:
  assumes "tables_inv d" and "stage H c r i fp d = (res, d')"
  shows "tables_inv d'"
proof (cases res)
  case (Inl e)
  then show ?thesis using assms stage_error_unchanged by blast
next
  case (Inr u)
  then have ok: "stage H c r i fp d = (Inr u, d')" using assms(2) by simp
  obtain caps d1 where
    rs: "reservations d' = insert_or_ignore reservation_clash (new_reservation_row r) (reservations d)" and
    d1: "d1 = d\<lparr>capsules := caps, reservations := reservations d',
            intents := insert_or_ignore intent_clash (new_intent_row i) (intents d)\<rparr>" and
    d': "(if xi_status i = XS_APPROVED then enqueue H i d1 else (Inr (), d1)) = (Inr (), d')"
    using ok by (rule stage_Inr)
  have "distinct (map rw_id (reservations d'))"
    using assms(1) by (auto simp: tables_inv_def rs reservation_clash_def intro!: distinct_insert_or_ignore)
  then have "tables_inv d1" using assms(1) d1 by (simp add: tables_inv_def)
  then show ?thesis using d' tables_inv_enqueue by (auto split: if_splits)
qed

lemma tables_inv_approve:
  assumes "tables_inv d" and "approve H x actor at d = (r, d')"
  shows "tables_inv d'"
proof (cases r)
  case (Inl e)
  then show ?thesis using assms approve_error_unchanged by blast
next
  case (Inr aid)
  then have ok: "approve H x actor at d = (Inr aid, d')" using assms(2) by simp
  obtain row rsv where d': "d' = set_intent_status x XS_APPROVED
       (d\<lparr>approvals := insert_or_ignore (\<lambda>a b. aw_id a = aw_id b \<or> aw_intent_id a = aw_intent_id b)
          \<lparr>aw_id = aid, aw_doc = approval_of H row rsv actor at\<rparr> (approvals d)\<rparr>)"
    using ok by (rule approve_Inr)
  have "distinct (map aw_intent_id (approvals d'))"
    using assms(1)
    by (auto simp: d' tables_inv_def set_intent_status_def intro!: distinct_insert_or_ignore)
  then show ?thesis using assms(1) by (simp add: d' tables_inv_def set_intent_status_def)
qed

lemma tables_inv_place:
  assumes inv: "tables_inv d" and p: "place_arm H b i at d = (r, d')"
  shows "tables_inv d'"
proof -
  have issue: "tables_inv d'" if x: "tables_inv x" and a: "issue_arm H b i x = (r, d')" for x
  proof -
    from a consider "d' = x" | rows q where "enqueue H i (x\<lparr>arms := rows\<rparr>) = (q, d')"
      by (auto simp: issue_arm_def Let_def and_then_def split: sum.splits prod.splits) (metis prod.collapse)+
    then show ?thesis
      using x tables_inv_cong [of "x\<lparr>arms := rows\<rparr>" x for rows]
      by cases (auto intro: tables_inv_enqueue)
  qed
  have "tables_inv (set_arm_status y st d)" for y st
    using tables_inv_kept [OF inv, of "set_arm_status y st d"] by simp
  then show ?thesis
    using p issue inv by (auto simp: place_arm_def supersede_arm_def split: option.splits if_splits)
qed

lemma tables_inv_arm: "tables_inv d \<Longrightarrow> arm_approved_intent H q d = (r, d') \<Longrightarrow> tables_inv d'"
  by (erule arm_approved_intent_cases)
    (auto dest: tables_inv_place tables_kept_open [where d = d, THEN iffD2, OF _ tables_kept_refl]
      intro: tables_inv_kept)

lemma tables_inv_request_cancel:
  assumes "tables_inv d" and "request_cancel H x actor at d = (r, d')"
  shows "tables_inv d'"
proof -
  have new: "tables_inv (d\<lparr>cancels := cancels d @ [c]\<rparr>)" if "\<not> list_ex (cancel_clash c) (cancels d)" for c
    using assms(1) that by (auto simp: tables_inv_def list_ex_iff cancel_clash_def)
  from assms(2) show ?thesis
  proof (cases rule: request_cancel_cases)
    case (local row)
    show ?thesis
      unfolding local(6) by (rule tables_inv_kept [OF new [OF local(5)]])
        (simp add: cancel_locally_def tables_kept_outbox claim_ok_def)
  next
    case (remote row)
    show ?thesis unfolding remote(7) by (rule tables_inv_kept [OF new [OF remote(6)]]) simp
  qed (use assms(1) in auto)
qed

lemma tables_inv_ingest:
  assumes "tables_inv d" and "ingest_broker_event H e d = (r, d')"
  shows "tables_inv d'"
proof -
  let ?d1 = "d\<lparr>inbox := inbox d @ [\<lparr>bx_event = e, bx_status = IB_RECEIVED\<rparr>]\<rparr>"
  have new: "tables_inv ?d1" if "\<not> list_ex (\<lambda>b. be_id (bx_event b) = be_id e) (inbox d)"
    using assms(1) that by (auto simp: tables_inv_def list_ex_iff)
  have box: "tables_kept d0 (set_inbox_status y st d1) = tables_kept d0 d1" for d0 d1 y st
    by (simp add: set_inbox_status_def tables_kept_def map_update_where)
  from assms(2) show ?thesis
  proof (cases rule: ingest_cases)
    case orphan
    show ?thesis
      by (rule tables_inv_kept [OF new [OF orphan(1)]]) (simp add: tables_kept_freeze [OF orphan(4)] box)
  next
    case (applied row)
    have eco: "tables_kept d0 (snd (update_economic_projections i e d1)) = tables_kept d0 d1" for d0 d1 i
      by (simp add: update_economic_projections_def tables_kept_def Let_def split: option.splits sum.splits)
    show ?thesis
      unfolding applied(4) by (rule tables_inv_kept [OF new [OF applied(1)]])
        (simp add: applied_def Let_def box eco apply_to_intent_def)
  qed (use assms(1) in auto)
qed

lemma tables_inv_exec:
  assumes inv: "tables_inv d"
  shows "tables_inv (exec_op H op d)"
proof (cases op)
  case (Op_stage c r i fp)
  then show ?thesis using tables_inv_stage [OF inv] by (cases "stage H c r i fp d") simp
next
  case (Op_approve x actor at)
  then show ?thesis using tables_inv_approve [OF inv] by (cases "approve H x actor at d") simp
next
  case (Op_arm q)
  then show ?thesis using tables_inv_arm [OF inv] by (cases "arm_approved_intent H q d") simp
next
  case (Op_request_cancel x actor at)
  then show ?thesis
    using tables_inv_request_cancel [OF inv] by (cases "request_cancel H x actor at d") simp
next
  case (Op_ingest e)
  then show ?thesis using tables_inv_ingest [OF inv] by (cases "ingest_broker_event H e d") simp
next
  case (Op_claim_next l at)
  then show ?thesis
    using tables_kept_claim tables_inv_kept [OF inv] by (cases "claim_next H l at d") auto
next
  case (Op_open_ticket reason source at sev tx)
  then show ?thesis
    using tables_kept_open [of H reason source at sev tx d _ _ d] tables_inv_kept [OF inv]
    by (cases "open_freeze_ticket H reason source at sev tx d") auto
next
  case (Op_freeze reason at tx)
  then show ?thesis
    using tables_kept_freeze [of H reason at tx d _ _ d] tables_inv_kept [OF inv]
    by (cases "freeze H reason at tx d") auto
qed (rule tables_inv_kept [OF inv], (simp add: tables_kept_then_open tables_kept_recover
  tables_kept_unfreeze tables_kept_outbox tables_kept_mark_unknown claim_ok_def acquire_lease_def
  mark_submission_unknown_def mark_delivered_def claim_next_cancel_def mark_cancel_unknown_def
  mark_cancel_delivered_def resolve_unknown_at_broker_def requeue_unknown_absent_at_broker_def
  resolve_freeze_ticket_def reopen_store_def record_heartbeat_def set_account_baseline_def
  advance_account_baseline_epoch_def record_cash_bridge_def register_snapshot_consensus_def
  register_vote_def record_broker_snapshot_authority_def record_quote_snapshot_def
  record_no_trade_def record_reality_gap_def record_naked_exposure_def Let_def
  split: option.splits sum.splits prod.splits))+

subsection \<open>The invariant of the store\<close>

definition store_inv :: "(json \<Rightarrow> string) \<Rightarrow> store \<Rightarrow> bool" where
  "store_inv H d \<longleftrightarrow> core_inv d \<and> seeded d \<and> book_inv H d \<and> tables_inv d"

lemma store_inv_empty: "store_inv H empty_store"
proof -
  have "book_inv H empty_store" "tables_inv empty_store" "seeded empty_store"
    by (simp_all add: book_inv_def intents_inv_def log_inv_def replay_inv_def tables_inv_def seeded_def
        rebuild_economic_projection_def log_events_def empty_store_def)
  then show ?thesis by (simp add: store_inv_def core_inv_empty)
qed

lemma store_inv_exec: "store_inv H d \<Longrightarrow> inj H \<Longrightarrow> op_ok op \<Longrightarrow> store_inv H (exec_op H op d)"
  by (simp add: store_inv_def core_inv_exec seeded_exec book_inv_exec tables_inv_exec)

text \<open>The content digest as an interface: the store relies on it to tell documents apart.\<close>

locale content_digest =
  fixes H :: "json \<Rightarrow> string"
  assumes separates: "inj H"

sublocale content_digest \<subseteq> store_machine: invariant_system "\<lambda>d. d = empty_store" "exec_op H"
    "\<lambda>op d. op_ok op" "store_inv H"
  by unfold_locales (auto intro: store_inv_empty store_inv_exec separates)

interpretation unary: content_digest unary_digest
  by unfold_locales (rule inj_unary_digest)

text \<open>Every sequence of operations on a fresh database keeps the invariant.\<close>

definition run_ops :: "(json \<Rightarrow> string) \<Rightarrow> store_op list \<Rightarrow> store \<Rightarrow> store" where
  "run_ops H ops d = fold (exec_op H) ops d"

context content_digest
begin

lemma allowed_iff: "store_machine.allowed_run ops d \<longleftrightarrow> list_all op_ok ops"
  by (induction ops arbitrary: d) auto

lemma run_keeps_inv: "list_all op_ok ops \<Longrightarrow> store_inv H d \<Longrightarrow> store_inv H (run_ops H ops d)"
  using store_machine.run_inv [of d ops] by (simp add: run_ops_def allowed_iff)

lemma run_reachable: "list_all op_ok ops \<Longrightarrow> store_machine.reachable (run_ops H ops empty_store)"
  using store_machine.run_reachable [OF store_machine.start [OF refl], of ops]
  by (simp add: run_ops_def allowed_iff)

end

lemma run_ops_inv:
  "inj H \<Longrightarrow> list_all op_ok ops \<Longrightarrow> store_inv H d \<Longrightarrow> store_inv H (run_ops H ops d)"
  by (rule content_digest.run_keeps_inv) (unfold_locales)

end
