(* ===== verification/Ctl_Traces.thy ===== *)
theory Ctl_Traces
  imports Ctl_Machine
begin

section \<open>What a sequence of operations can do to leases and commands\<close>

text \<open>
  Two facts about runs of the store that no single operation shows. Fencing tokens only grow, so a
  lease that was overtaken never becomes current again; and a submit command leaves \<open>PENDING\<close> for
  good unless reconciliation requeues it, so it is handed to a writer at most once.
\<close>

subsection \<open>Leases\<close>

lemma leases_frame [simp]:
  "leases (append_order_event H x ty at p d) = leases d"
  "leases (set_intent_status x st d) = leases d"
  "leases (update_reservation x f q st d) = leases d"
  "leases (set_arm_status x as d) = leases d"
  "leases (refresh_control at d) = leases d"
  "leases (set_inbox_status x ib d) = leases d"
  "leases (snd (resolve_freeze_ticket reason source at ev d)) = leases d"
  by (simp_all add: append_order_event_def set_intent_status_def update_reservation_def
      set_arm_status_def refresh_control_def set_inbox_status_def resolve_freeze_ticket_def Let_def)

lemma leases_open: "open_freeze_ticket H reason source at sev tx d = (r, d') \<Longrightarrow> leases d' = leases d"
  by (erule open_ticket_frame) simp

lemma leases_then_open:
  "leases (snd (and_then (open_freeze_ticket H reason source at sev tx d) (\<lambda>_ d'. (Inr x, d')))) = leases d"
  by (cases "open_freeze_ticket H reason source at sev tx d")
    (auto simp: and_then_def leases_open split: sum.splits)

lemma leases_freeze: "freeze H reason at tx d = (r, d') \<Longrightarrow> leases d' = leases d"
  by (erule freeze_frame) simp

lemma leases_stage: "leases (exec_op H (Op_stage c r i fp) d) = leases d"
  by (rule exec_stage_cases [of H c r i fp d]) (auto simp: staged_def Let_def)

lemma leases_approve: "leases (snd (approve H x a at d)) = leases d"
proof (cases "approve H x a at d")
  case (Pair r d')
  then show ?thesis
    by (cases r) (auto dest: approve_error_unchanged elim!: approve_Inr)
qed

lemma leases_enqueue [simp]: "leases (snd (enqueue H i d)) = leases d"
  by (auto simp: enqueue_def Let_def split: sum.splits)

lemma leases_place: "place_arm H b i at d = (r, d') \<Longrightarrow> leases d' = leases d"
  by (auto simp: place_arm_def issue_arm_def supersede_arm_def Let_def and_then_def
      split: option.splits sum.splits if_splits)

lemma leases_arm: "arm_approved_intent H q d = (r, d') \<Longrightarrow> leases d' = leases d"
  by (erule arm_approved_intent_cases) (auto dest: leases_open leases_place)

lemma leases_claim: "claim_next H l at d = (r, d') \<Longrightarrow> leases d' = leases d"
  by (erule claim_next_cases)
    (auto simp: expire_claim_def take_claim_def Let_def split: option.splits)

lemma leases_cancel: "request_cancel H x a at d = (r, d') \<Longrightarrow> leases d' = leases d"
  by (erule request_cancel_cases) (auto simp: cancel_locally_def)

lemma leases_ingest: "ingest_broker_event H e d = (r, d') \<Longrightarrow> leases d' = leases d"
  by (erule ingest_cases)
    (auto simp: applied_def apply_to_intent_def update_economic_projections_def Let_def
      split: option.splits sum.splits dest!: leases_freeze)

lemma leases_recover: "leases (snd (recover_claimed_as_unknown H at d)) = leases d"
proof -
  have "leases (fold (\<lambda>ob. mark_outbox_unknown H (ow_id ob) (ow_intent_id ob) at reason) rows d) = leases d"
    for rows reason
    by (induction rows arbitrary: d) (simp_all add: mark_outbox_unknown_def)
  then show ?thesis by (simp add: recover_claimed_as_unknown_def Let_def)
qed

lemma leases_unfreeze: "leases (unfreeze_after_reconciliation at d) = leases d"
proof -
  have "leases (fold (\<lambda>(reason, source) s. snd (resolve_freeze_ticket reason source at ev s)) rs d) = leases d"
    for rs ev by (induction rs arbitrary: d) auto
  then show ?thesis by (simp add: unfreeze_after_reconciliation_def)
qed

lemmas leases_ops = leases_open leases_freeze leases_arm leases_claim leases_cancel leases_ingest

lemma leases_exec:
  assumes "\<And>n ow at ttl. op \<noteq> Op_acquire_lease n ow at ttl"
  shows "leases (exec_op H op d) = leases d"
proof (cases op)
  case (Op_stage c r i fp)
  then show ?thesis by (simp only: leases_stage)
next
  case (Op_reopen now)
  then show ?thesis
    by (simp add: reopen_store_def Let_def leases_then_open)
next
  case (Op_cash_bridge ty a cur at ev ex)
  then show ?thesis by (simp add: record_cash_bridge_def Let_def leases_then_open)
qed (use assms in \<open>auto simp: leases_approve leases_recover leases_unfreeze mark_submission_unknown_def
      mark_outbox_unknown_def mark_delivered_def claim_next_cancel_def mark_cancel_unknown_def
      mark_cancel_delivered_def resolve_unknown_at_broker_def requeue_unknown_absent_at_broker_def
      record_heartbeat_def set_account_baseline_def advance_account_baseline_epoch_def
      register_snapshot_consensus_def register_vote_def record_broker_snapshot_authority_def
      record_quote_snapshot_def record_no_trade_def record_reality_gap_def record_naked_exposure_def
      Let_def split: option.splits sum.splits if_splits prod.splits
      intro: leases_ops [OF surjective_pairing]\<close>)

definition token_of :: "store \<Rightarrow> string \<Rightarrow> int" where
  "token_of d name = (case leases d name of None \<Rightarrow> 0 | Some l \<Rightarrow> ls_token l)"

lemma token_acquire: "token_of d name \<le> token_of (snd (acquire_lease n ow at ttl d)) name"
  by (auto simp: token_of_def acquire_lease_def Let_def split: option.splits)

lemma token_exec: "token_of d name \<le> token_of (exec_op H op d) name"
proof (cases "\<exists>n ow at ttl. op = Op_acquire_lease n ow at ttl")
  case True
  then show ?thesis using token_acquire by auto
next
  case False
  then show ?thesis using leases_exec [of op H d] by (simp add: token_of_def)
qed

lemma token_run: "token_of d name \<le> token_of (run_ops H ops d) name"
proof (induction ops arbitrary: d)
  case (Cons op ops)
  have "token_of d name \<le> token_of (exec_op H op d) name" by (rule token_exec)
  also have "\<dots> \<le> token_of (run_ops H ops (exec_op H op d)) name" by (rule Cons.IH)
  finally show ?case by (simp add: run_ops_def)
qed (simp add: run_ops_def)

lemma overtaken_not_current: "ls_token l < token_of d (ls_name l) \<Longrightarrow> \<not> lease_current d l at"
  by (auto simp: token_of_def lease_current_def split: option.splits)

subsection \<open>Commands\<close>

text \<open>Between two outbox tables: no command disappears or is rewritten, and a \<open>PENDING\<close> row of the second
  was already there or carries a new command id.\<close>

definition pending_from :: "outbox_row list \<Rightarrow> outbox_row list \<Rightarrow> bool" where
  "pending_from old new \<longleftrightarrow>
     ow_id ` set old \<subseteq> ow_id ` set new
     \<and> (\<forall>row \<in> set new. ow_command row \<in> ow_command ` set old \<or> ow_id row \<notin> ow_id ` set old)
     \<and> (\<forall>row \<in> set new. ow_status row = OB_PENDING \<longrightarrow> row \<in> set old \<or> ow_id row \<notin> ow_id ` set old)"

lemma pending_from_refl [simp]: "pending_from rows rows"
  by (simp add: pending_from_def)

lemma pending_from_trans:
  assumes "pending_from a b" and "pending_from b c"
  shows "pending_from a c"
proof -
  have ids: "ow_id ` set a \<subseteq> ow_id ` set b" "ow_id ` set b \<subseteq> ow_id ` set c"
    using assms by (simp_all add: pending_from_def)
  have "row \<in> set a \<or> ow_id row \<notin> ow_id ` set a" if "row \<in> set c" "ow_status row = OB_PENDING" for row
  proof (cases "row \<in> set b")
    case True
    then show ?thesis using assms(1) that(2) by (simp add: pending_from_def)
  next
    case False
    then have "ow_id row \<notin> ow_id ` set b" using assms(2) that unfolding pending_from_def by fast
    then show ?thesis using ids(1) by blast
  qed
  moreover have "ow_command row \<in> ow_command ` set a \<or> ow_id row \<notin> ow_id ` set a" if "row \<in> set c" for row
  proof (cases "ow_command row \<in> ow_command ` set b")
    case True
    then obtain r where r: "r \<in> set b" "ow_command r = ow_command row" by force
    then show ?thesis using assms(1) unfolding pending_from_def by metis
  next
    case False
    then have "ow_id row \<notin> ow_id ` set b" using assms(2) that unfolding pending_from_def by fast
    then show ?thesis using ids(1) by blast
  qed
  ultimately show ?thesis using ids by (simp add: pending_from_def)
qed

lemma pending_from_update:
  assumes "\<And>r. P r \<Longrightarrow> ow_status (f r) \<noteq> OB_PENDING" and "\<And>r. ow_command (f r) = ow_command r"
  shows "pending_from rows (update_where P f rows)"
proof -
  have "map ow_command (update_where P f rows) = map ow_command rows" using assms(2) by (simp add: map_update_where)
  then have cmds: "ow_command ` set (update_where P f rows) = ow_command ` set rows" by (metis set_map)
  then have "ow_id ` set (update_where P f rows) = ow_id ` set rows" by (metis image_image)
  moreover have "ow_command row \<in> ow_command ` set rows" if "row \<in> set (update_where P f rows)" for row
    using that cmds by blast
  moreover have "row \<in> set rows" if "row \<in> set (update_where P f rows)" "ow_status row = OB_PENDING" for row
    using that assms(1) by (auto simp: set_update_where)
  ultimately show ?thesis unfolding pending_from_def by blast
qed

lemma pending_from_insert: "pending_from rows (insert_or_ignore outbox_clash row rows)"
  by (auto simp: pending_from_def insert_or_ignore_def list_ex_iff outbox_clash_def)

lemma outbox_frame [simp]:
  "outbox (append_order_event H x ty at p d) = outbox d"
  "outbox (set_intent_status x st d) = outbox d"
  "outbox (update_reservation x f q st d) = outbox d"
  "outbox (set_arm_status x as d) = outbox d"
  "outbox (refresh_control at d) = outbox d"
  "outbox (set_inbox_status x ib d) = outbox d"
  "outbox (snd (resolve_freeze_ticket reason source at ev d)) = outbox d"
  by (simp_all add: append_order_event_def set_intent_status_def update_reservation_def
      set_arm_status_def refresh_control_def set_inbox_status_def resolve_freeze_ticket_def Let_def)

lemma outbox_open: "open_freeze_ticket H reason source at sev tx d = (r, d') \<Longrightarrow> outbox d' = outbox d"
  by (erule open_ticket_frame) simp

lemma outbox_then_open [simp]:
  "outbox (snd (and_then (open_freeze_ticket H reason source at sev tx d) (\<lambda>_ d'. (Inr x, d')))) = outbox d"
  by (cases "open_freeze_ticket H reason source at sev tx d")
    (auto simp: and_then_def outbox_open split: sum.splits)

lemma outbox_freeze: "freeze H reason at tx d = (r, d') \<Longrightarrow> outbox d' = outbox d"
  by (erule freeze_frame) simp

lemma pending_stage: "pending_from (outbox d) (outbox (exec_op H (Op_stage c r i fp) d))"
  by (rule exec_stage_cases [of H c r i fp d]) (auto simp: staged_def Let_def pending_from_insert)

lemma outbox_approve: "outbox (snd (approve H x a at d)) = outbox d"
proof (cases "approve H x a at d")
  case (Pair r d')
  then show ?thesis
    by (cases r) (auto dest: approve_error_unchanged elim!: approve_Inr)
qed

lemma pending_enqueue: "pending_from (outbox d) (outbox (snd (enqueue H i d)))"
  by (auto simp: enqueue_def Let_def pending_from_insert split: sum.splits dest!: insert_immutable_Inr)

lemma pending_place: "place_arm H b i at d = (r, d') \<Longrightarrow> pending_from (outbox d) (outbox d')"
  using pending_enqueue [of "d\<lparr>arms := a\<rparr>" for a] pending_enqueue [of "(set_arm_status x st d)\<lparr>arms := a\<rparr>" for x st a]
  by (auto simp: place_arm_def issue_arm_def supersede_arm_def Let_def and_then_def
      split: option.splits sum.splits if_splits)

lemma pending_arm: "arm_approved_intent H q d = (r, d') \<Longrightarrow> pending_from (outbox d) (outbox d')"
  by (erule arm_approved_intent_cases) (auto dest: outbox_open pending_place)

lemma pending_claim: "claim_next H l at d = (r, d') \<Longrightarrow> pending_from (outbox d) (outbox d')"
  by (erule claim_next_cases)
    (auto simp: expire_claim_def take_claim_def Let_def pending_from_update split: option.splits)

lemma pending_cancel: "request_cancel H x a at d = (r, d') \<Longrightarrow> pending_from (outbox d) (outbox d')"
  by (erule request_cancel_cases) (auto simp: pending_from_update)

lemma outbox_ingest: "ingest_broker_event H e d = (r, d') \<Longrightarrow> outbox d' = outbox d"
  by (erule ingest_cases)
    (auto simp: applied_def apply_to_intent_def update_economic_projections_def Let_def
      split: option.splits sum.splits dest!: outbox_freeze)

lemma pending_mark_unknown: "pending_from (outbox d) (outbox (mark_outbox_unknown H c x at reason d))"
  by (simp add: mark_outbox_unknown_def pending_from_update)

lemma pending_recover: "pending_from (outbox d) (outbox (snd (recover_claimed_as_unknown H at d)))"
proof -
  have "pending_from (outbox d)
      (outbox (fold (\<lambda>ob. mark_outbox_unknown H (ow_id ob) (ow_intent_id ob) at reason) rows d))" for rows reason
    by (induction rows arbitrary: d) (simp, auto intro: pending_from_trans pending_mark_unknown)
  then show ?thesis by (simp add: recover_claimed_as_unknown_def Let_def)
qed

lemma outbox_unfreeze: "outbox (unfreeze_after_reconciliation at d) = outbox d"
proof -
  have "outbox (fold (\<lambda>(reason, source) s. snd (resolve_freeze_ticket reason source at ev s)) rs d) = outbox d"
    for rs ev by (induction rs arbitrary: d) auto
  then show ?thesis by (simp add: unfreeze_after_reconciliation_def)
qed

lemmas pending_ops = pending_arm pending_claim pending_cancel

lemmas outbox_ops = outbox_open outbox_freeze outbox_ingest

lemma pending_exec:
  assumes "\<And>k as_of at. op \<noteq> Op_requeue_unknown k as_of at"
  shows "pending_from (outbox d) (outbox (exec_op H op d))"
proof (cases op)
  case (Op_stage c r i fp)
  then show ?thesis by (simp only: pending_stage)
next
  case (Op_arm q)
  then show ?thesis using pending_arm [OF surjective_pairing] by simp
next
  case (Op_claim_next l at)
  then show ?thesis using pending_claim [OF surjective_pairing] by simp
next
  case (Op_request_cancel x a at)
  then show ?thesis using pending_cancel [OF surjective_pairing] by simp
next
  case (Op_recover at)
  then show ?thesis using pending_recover by simp
next
  case (Op_submission_unknown c at reason)
  then show ?thesis by (simp add: mark_submission_unknown_def pending_mark_unknown split: option.splits)
next
  case (Op_resolve_unknown k b at)
  then show ?thesis by (simp add: resolve_unknown_at_broker_def pending_from_update split: option.splits)
next
  case (Op_delivered c at)
  then show ?thesis by (simp add: mark_delivered_def pending_from_update)
qed (use assms outbox_ops [OF surjective_pairing] in \<open>auto simp: outbox_approve outbox_unfreeze reopen_store_def
      record_cash_bridge_def acquire_lease_def claim_next_cancel_def mark_cancel_unknown_def
      mark_cancel_delivered_def record_heartbeat_def set_account_baseline_def advance_account_baseline_epoch_def
      register_snapshot_consensus_def register_vote_def record_broker_snapshot_authority_def
      record_quote_snapshot_def record_no_trade_def record_reality_gap_def record_naked_exposure_def
      Let_def split: option.splits sum.splits if_splits prod.splits\<close>)

text \<open>A command that has left \<open>PENDING\<close> and carries the client order key \<open>k\<close>; only a requeue of \<open>k\<close> can put it
  back.\<close>

definition settled :: "string \<Rightarrow> string \<Rightarrow> outbox_row list \<Rightarrow> bool" where
  "settled x k rows \<longleftrightarrow> x \<in> ow_id ` set rows \<and>
     (\<forall>row \<in> set rows. ow_id row = x \<longrightarrow> ow_key row = k \<and> ow_status row \<noteq> OB_PENDING)"

definition requeues :: "string \<Rightarrow> store_op \<Rightarrow> bool" where
  "requeues k op = (case op of Op_requeue_unknown key _ _ \<Rightarrow> key = k | _ \<Rightarrow> False)"

lemma settled_pending_from:
  assumes "settled x k old" and "pending_from old new"
  shows "settled x k new"
proof -
  have "ow_key row = k \<and> ow_status row \<noteq> OB_PENDING" if "row \<in> set new" "ow_id row = x" for row
  proof -
    have "ow_id row \<in> ow_id ` set old" using assms(1) that(2) by (simp add: settled_def)
    then have "ow_command row \<in> ow_command ` set old" "ow_status row = OB_PENDING \<longrightarrow> row \<in> set old"
      using assms(2) that(1) unfolding pending_from_def by blast+
    then show ?thesis using assms(1) that(2) unfolding settled_def by force
  qed
  then show ?thesis using assms unfolding settled_def pending_from_def by blast
qed

lemma settled_requeue:
  assumes "settled x k (outbox d)" and "key \<noteq> k"
  shows "settled x k (outbox (snd (requeue_unknown_absent_at_broker H key as_of at d)))"
proof (cases "unknown_command d key")
  case None
  then show ?thesis using assms(1) by (simp add: requeue_unknown_absent_at_broker_def)
next
  case (Some ob)
  then have ob: "ob \<in> set (outbox d)" "ow_key ob = key"
    by (auto simp: unknown_command_def find_Some_iff)
  then have other: "ow_id ob \<noteq> x" using assms by (auto simp: settled_def)
  let ?f = "\<lambda>y. y\<lparr>ow_status := OB_PENDING, ow_token := None, ow_claimed_at := None, ow_delivered_at := None\<rparr>"
  let ?rows = "update_where (\<lambda>y. ow_id y = ow_id ob) ?f (outbox d)"
  have "settled x k ?rows"
    unfolding settled_def
  proof
    show "x \<in> ow_id ` set ?rows" using assms(1) other by (force simp: settled_def set_update_where)
    show "\<forall>row \<in> set ?rows. ow_id row = x \<longrightarrow> ow_key row = k \<and> ow_status row \<noteq> OB_PENDING"
      using assms(1) other by (auto simp: settled_def set_update_where)
  qed
  then show ?thesis
    using assms(1) Some by (simp add: requeue_unknown_absent_at_broker_def Let_def)
qed

lemma settled_run:
  assumes "settled x k (outbox d)" and "\<forall>op \<in> set ops. \<not> requeues k op"
  shows "settled x k (outbox (run_ops H ops d))"
  using assms
proof (induction ops arbitrary: d)
  case (Cons op ops)
  have "settled x k (outbox (exec_op H op d))"
  proof (cases "\<exists>key as_of at. op = Op_requeue_unknown key as_of at")
    case True
    then show ?thesis using Cons.prems settled_requeue by (auto simp: requeues_def)
  next
    case False
    then show ?thesis using Cons.prems(1) pending_exec settled_pending_from by blast
  qed
  then show ?case using Cons by (simp add: run_ops_def)
qed (simp add: run_ops_def)

end
