(* ===== verification/Samples.thy ===== *)
theory Samples
  imports Ctl_Machine
begin

section \<open>A worked example\<close>

text \<open>
  Concrete documents and a concrete run: a fresh database whose startup ticket is lifted, one
  decision staged with its reservation and a pre-approved intent, and a writer's lease. The
  properties of the control store are applied to it.
\<close>

definition sample_capsule :: decision_capsule where
  "sample_capsule = \<lparr>cap_decision_id = ''d1'', cap_decision_snapshot_id = ''s1'',
     cap_market_snapshot_id = ''m1'', cap_evidence_snapshot_id = None, cap_evidence_review_id = None,
     cap_strategy_id = ''momentum'', cap_strategy_version = ''1'', cap_entity_id = ''AAPL'',
     cap_input_hash = ''h1'', cap_signal_hash = ''h2'', cap_risk_policy_hash = ''h3'',
     cap_risk_decision_hash = ''h4'', cap_config_hash = ''h5'', cap_created_at = 10\<rparr>"

definition sample_reservation :: risk_reservation where
  "sample_reservation = \<lparr>rsv_id = ''r1'', rsv_decision_id = ''d1'', rsv_account_id = ''acct'',
     rsv_instrument_id = ''AAPL'', rsv_cash_reserved = 1000, rsv_notional_reserved = 1000,
     rsv_risk_reserved = 50, rsv_account_notional_capacity = 5000, rsv_quantity_reserved = 10,
     rsv_quantity_consumed = 0, rsv_status = RS_ACTIVE, rsv_expires_at = 1000, rsv_version = 1,
     rsv_created_at = 10, rsv_released_at = None\<rparr>"

definition sample_intent :: execution_intent where
  "sample_intent = \<lparr>xi_id = ''i1'', xi_decision_id = ''d1'', xi_reservation_id = ''r1'',
     xi_client_order_key = ''k1'', xi_account_id = ''acct'', xi_instrument_id = ''AAPL'', xi_side = BUY,
     xi_order_type = ''LIMIT'', xi_quantity = 10, xi_limit_price = 100, xi_stop_price = 95,
     xi_target_price = 110, xi_time_in_force = ''DAY'', xi_session = ''REGULAR'',
     xi_status = XS_APPROVED, xi_version = 1, xi_created_at = 10\<rparr>"

definition sample_lease :: execution_lease where
  "sample_lease = \<lparr>ls_name = ''writer'', ls_owner = ''w1'', ls_token = 1, ls_acquired_at = 20,
     ls_expires_at = 120\<rparr>"

definition sample_ops :: "store_op list" where
  "sample_ops = [Op_unfreeze 5, Op_stage sample_capsule sample_reservation sample_intent None,
     Op_acquire_lease ''writer'' ''w1'' 20 100]"

lemmas sample_docs = sample_capsule_def sample_reservation_def sample_intent_def sample_lease_def

definition sample_store :: "(json \<Rightarrow> string) \<Rightarrow> store" where
  "sample_store H = run_ops H sample_ops empty_store"

definition lifted_ticket :: freeze_ticket where
  "lifted_ticket = startup_ticket\<lparr>ft_resolved_at := Some 5,
     ft_evidence := Some ''complete broker snapshot converged''\<rparr>"

definition unfrozen_store :: store where
  "unfrozen_store = empty_store\<lparr>tickets := [lifted_ticket],
     control := \<lparr>cs_frozen = False, cs_reason = [], cs_updated_at = 5\<rparr>\<rparr>"

lemma unfreeze_empty: "unfreeze_after_reconciliation 5 empty_store = unfrozen_store"
  by (simp add: unfreeze_after_reconciliation_def reconciliation_reasons_def resolve_freeze_ticket_def
      unfrozen_store_def lifted_ticket_def empty_store_def startup_ticket_def refresh_control_def
      active_freeze_reasons_def is_blocking_def join_comma_def Let_def)

lemma unfrozen_leases: "leases unfrozen_store = Map.empty"
  by (simp add: unfrozen_store_def empty_store_def)

lemma sample_bindings: "stage_bindings sample_capsule sample_reservation sample_intent = None"
  by (simp add: stage_bindings_def sample_docs)

lemma sample_staged:
  "stage H sample_capsule sample_reservation sample_intent None unfrozen_store =
     (Inr (), unfrozen_store\<lparr>
        capsules := [\<lparr>cw_capsule = sample_capsule, cw_hash = capsule_hash H sample_capsule\<rparr>],
        reservations := [new_reservation_row sample_reservation],
        intents := [(new_intent_row sample_intent)\<lparr>iw_status := XS_OUTBOXED, iw_version := 2\<rparr>],
        outbox := [\<lparr>ow_command = outbox_command_of H sample_intent, ow_status = OB_PENDING, ow_token = None,
                    ow_claimed_at = None, ow_delivered_at = None\<rparr>]\<rparr>)"
  unfolding stage_def sample_bindings option.case
  by (simp add: stage_body_def unfrozen_store_def empty_store_def lifted_ticket_def
      startup_ticket_def is_blocking_def existing_reserved_def sample_docs stage_insert_capsule_def
      stage_insert_reservation_def stage_insert_intent_def insert_immutable_def insert_or_ignore_def
      fail_at_def enqueue_def Let_def new_intent_row_def outbox_command_of_def)

lemma sample_store_eq:
  "sample_store H = unfrozen_store\<lparr>
        capsules := [\<lparr>cw_capsule = sample_capsule, cw_hash = capsule_hash H sample_capsule\<rparr>],
        reservations := [new_reservation_row sample_reservation],
        intents := [(new_intent_row sample_intent)\<lparr>iw_status := XS_OUTBOXED, iw_version := 2\<rparr>],
        outbox := [\<lparr>ow_command = outbox_command_of H sample_intent, ow_status = OB_PENDING, ow_token = None,
                    ow_claimed_at = None, ow_delivered_at = None\<rparr>],
        leases := [''writer'' \<mapsto> sample_lease]\<rparr>"
  by (simp add: sample_store_def run_ops_def sample_ops_def unfreeze_empty sample_staged acquire_lease_def
      unfrozen_leases sample_lease_def Let_def)

lemma sample_ops_ok: "list_all op_ok sample_ops"
  by (simp add: sample_ops_def sample_docs reservation_amounts_ok_def intent_amounts_ok_def)

lemma sample_claim:
  "claim_next H sample_lease 30 (sample_store H) =
     (Inr (Some ((outbox_command_of H sample_intent)\<lparr>oc_status := OB_CLAIMED, oc_fencing_token := Some 1\<rparr>,
                 sample_intent)),
      take_claim sample_lease
        \<lparr>ow_command = outbox_command_of H sample_intent, ow_status = OB_PENDING, ow_token = None,
         ow_claimed_at = None, ow_delivered_at = None\<rparr>
        ((new_intent_row sample_intent)\<lparr>iw_status := XS_OUTBOXED, iw_version := 2\<rparr>) None 30 (sample_store H))"
  by (simp add: claim_next_def sample_store_eq unfrozen_store_def empty_store_def lease_current_def
      claim_candidate_def joined_def claim_gate_def new_reservation_row_def new_intent_row_def sample_docs
      outbox_command_of_def)

text \<open>A constant digest of the right form, for examples that only need well-formed hashes.\<close>

definition flat_digest :: "json \<Rightarrow> string" where
  "flat_digest j = replicate 64 CHR ''a''"

end
