(* ===== verification/Economics.thy ===== *)
theory Economics
  imports Ctl_Models "HOL-Library.Multiset"
begin

section \<open>What broker events are worth\<close>

text \<open>
  The abstract ledger both sides of the system keep: the cash, the commissions and the units per
  instrument that a list of broker events is worth, given the intents that name side and
  instrument. The durable store reaches it by incremental projections, the fake broker by its own
  bookkeeping; \<open>event_book\<close> is the contract, and two books that saw the same events agree.
\<close>

definition lookup_intent :: "execution_intent list \<Rightarrow> string \<Rightarrow> execution_intent option" where
  "lookup_intent is key = List.find (\<lambda>i. xi_client_order_key i = key) is"

definition event_cash :: "execution_intent \<Rightarrow> broker_event \<Rightarrow> rat" where
  "event_cash i e =
     - be_commission e +
     (if is_fill_type (be_type e) then
        (let notional = (case be_fill_price e of None \<Rightarrow> 0 | Some p \<Rightarrow> p * of_int (be_filled_quantity e))
         in if xi_side i = BUY then - notional else notional)
      else 0)"

definition event_units :: "execution_intent \<Rightarrow> broker_event \<Rightarrow> string \<Rightarrow> int" where
  "event_units i e k =
     (if is_fill_type (be_type e) \<and> xi_instrument_id i = k
      then signed_qty (xi_side i) (be_filled_quantity e) else 0)"

definition known :: "execution_intent list \<Rightarrow> broker_event \<Rightarrow> (execution_intent \<Rightarrow> 'n) \<Rightarrow> 'n::zero" where
  "known is e f = (case lookup_intent is (be_client_order_key e) of None \<Rightarrow> 0 | Some i \<Rightarrow> f i)"

definition cash_of :: "execution_intent list \<Rightarrow> broker_event list \<Rightarrow> rat" where
  "cash_of is es = total_of (\<lambda>e. known is e (\<lambda>i. event_cash i e)) es"

definition units_of :: "execution_intent list \<Rightarrow> broker_event list \<Rightarrow> string \<Rightarrow> int" where
  "units_of is es k = total_of (\<lambda>e. known is e (\<lambda>i. event_units i e k)) es"

definition commissions_of :: "execution_intent list \<Rightarrow> broker_event list \<Rightarrow> rat" where
  "commissions_of is es = total_of (\<lambda>e. known is e (\<lambda>_. be_commission e)) es"

lemma cash_of_simps [simp]:
  "cash_of is [] = 0" "cash_of is (es @ fs) = cash_of is es + cash_of is fs"
  "cash_of is [e] = known is e (\<lambda>i. event_cash i e)"
  by (simp_all add: cash_of_def)

lemma units_of_simps [simp]:
  "units_of is [] k = 0" "units_of is (es @ fs) k = units_of is es k + units_of is fs k"
  "units_of is [e] k = known is e (\<lambda>i. event_units i e k)"
  by (simp_all add: units_of_def)

lemma known_Some: "lookup_intent is (be_client_order_key e) = Some i \<Longrightarrow> known is e f = f i"
  by (simp add: known_def)

lemma lookup_intent_append:
  "lookup_intent (is @ js) key = (case lookup_intent is key of None \<Rightarrow> lookup_intent js key | Some i \<Rightarrow> Some i)"
  by (simp add: lookup_intent_def find_append split: option.splits)

lemma lookup_intent_None: "lookup_intent is key = None \<longleftrightarrow> key \<notin> xi_client_order_key ` set is"
  by (auto simp: lookup_intent_def find_None_set)

lemma lookup_intent_unique:
  "distinct (map xi_client_order_key is) \<Longrightarrow> i \<in> set is \<Longrightarrow> lookup_intent is (xi_client_order_key i) = Some i"
  unfolding lookup_intent_def by (rule find_unique_key)

text \<open>Intents added at the end do not change the worth of events whose intent was there.\<close>

lemma known_append:
  "be_client_order_key e \<in> xi_client_order_key ` set is \<Longrightarrow> known (is @ js) e f = known is e f"
  by (cases "lookup_intent is (be_client_order_key e)")
    (auto simp: known_def lookup_intent_append lookup_intent_None)

lemma worth_append_intents:
  assumes "\<And>e. e \<in> set es \<Longrightarrow> be_client_order_key e \<in> xi_client_order_key ` set is"
  shows "cash_of (is @ js) es = cash_of is es" "units_of (is @ js) es k = units_of is es k"
  using assms by (simp_all add: cash_of_def units_of_def known_append cong: map_cong)

text \<open>The worth depends on the events as a multiset and on the intents as a lookup.\<close>

lemma total_mset: "mset xs = mset ys \<Longrightarrow> total_of f xs = total_of f ys"
  by (metis mset_map sum_mset_sum_list)

lemma known_cong:
  "lookup_intent is (be_client_order_key e) = lookup_intent js (be_client_order_key e) \<Longrightarrow>
     known is e f = known js e f"
  by (simp add: known_def)

lemma worth_cong:
  assumes "mset es = mset fs" and "\<And>e. e \<in> set es \<Longrightarrow>
    lookup_intent is (be_client_order_key e) = lookup_intent js (be_client_order_key e)"
  shows "cash_of is es = cash_of js fs" "units_of is es k = units_of js fs k"
proof -
  have "total_of (\<lambda>e. known is e (\<lambda>i. event_cash i e)) es = total_of (\<lambda>e. known js e (\<lambda>i. event_cash i e)) es"
    "total_of (\<lambda>e. known is e (\<lambda>i. event_units i e k)) es = total_of (\<lambda>e. known js e (\<lambda>i. event_units i e k)) es"
    using assms(2) known_cong by (metis (no_types, lifting) map_cong)+
  then show "cash_of is es = cash_of js fs" "units_of is es k = units_of js fs k"
    by (simp_all add: cash_of_def units_of_def total_mset [OF assms(1)])
qed

subsection \<open>Books\<close>

locale event_book =
  fixes valid :: "'s \<Rightarrow> bool" and intents_of :: "'s \<Rightarrow> execution_intent list"
    and events_of :: "'s \<Rightarrow> broker_event list" and base :: "'s \<Rightarrow> rat"
    and cash :: "'s \<Rightarrow> rat" and units :: "'s \<Rightarrow> string \<Rightarrow> int"
  assumes cash_law: "valid s \<Longrightarrow> cash s = base s + cash_of (intents_of s) (events_of s)"
    and units_law: "valid s \<Longrightarrow> units s k = units_of (intents_of s) (events_of s) k"
begin

lemma no_events:
  "valid s \<Longrightarrow> events_of s = [] \<Longrightarrow> cash s = base s \<and> units s k = 0"
  by (simp add: cash_law units_law)

end

text \<open>Two books over the same events, with the same intents behind them, agree on every position
  and on the cash they gained.\<close>

locale two_books = a: event_book valid intents_of events_of base cash units +
  b: event_book valid' intents_of' events_of' base' cash' units'
  for valid :: "'s \<Rightarrow> bool" and intents_of events_of base cash units
    and valid' :: "'t \<Rightarrow> bool" and intents_of' events_of' base' cash' units'
begin

lemma agree:
  assumes "valid s" and "valid' t" and "mset (events_of s) = mset (events_of' t)"
    and "\<And>e. e \<in> set (events_of s) \<Longrightarrow>
      lookup_intent (intents_of s) (be_client_order_key e) = lookup_intent (intents_of' t) (be_client_order_key e)"
  shows "units s k = units' t k \<and> cash s - base s = cash' t - base' t"
  using a.cash_law [OF assms(1)] b.cash_law [OF assms(2)] a.units_law [OF assms(1), of k]
    b.units_law [OF assms(2), of k] worth_cong [OF assms(3,4)] by simp

end

end
