(* ===== verification/Fake_Broker.thy ===== *)
theory Fake_Broker
  imports Economics
begin

section \<open>The durable fake broker\<close>

text \<open>
  \<open>src/hanalpha/execution/fake_broker.py\<close>, \<open>DurableFakeBroker\<close>: broker-side truth with a fault
  tape. Orders are keyed by the economic client order key, so a repeated submission returns the
  events of the first; every write is fenced by the highest token seen. A dropped response is
  raised after its transaction committed. \<open>broker_inv\<close> ties the order rows, the positions and the
  cash to the emitted events.
\<close>

subsection \<open>State\<close>

datatype fake_scenario =
    FS_ACCEPT | FS_ACCEPT_DROP_RESPONSE | FS_DUPLICATE_ACK | FS_REJECT | FS_PARTIAL_FILL
  | FS_MISSING_PROTECTION | FS_CANCEL_DROP_RESPONSE

record fake_order =
  fo_intent :: execution_intent
  fo_broker_order_id :: string
  fo_status :: string
  fo_filled :: int
  fo_response_dropped :: bool
  fo_protection :: int

record tape_row =
  tp_direction :: string
  tp_item_type :: string
  tp_item_hash :: string
  tp_payload :: json
  tp_recorded_at :: time

record fake_broker =
  fb_cash :: rat
  fb_highest_token :: int
  fb_next_order_id :: nat
  fb_next_sequence :: int
  fb_orders :: "fake_order list"
  fb_events :: "broker_event list"
  fb_positions :: "(string \<times> int) list"
  fb_scenarios :: "fake_scenario list"
  fb_tape :: "tape_row list"

abbreviation fo_key :: "fake_order \<Rightarrow> string" where
  "fo_key o' \<equiv> xi_client_order_key (fo_intent o')"

definition new_broker :: "rat \<Rightarrow> fake_broker" where
  "new_broker starting_cash = \<lparr>fb_cash = starting_cash, fb_highest_token = 0, fb_next_order_id = 1,
     fb_next_sequence = 1, fb_orders = [], fb_events = [], fb_positions = [], fb_scenarios = [],
     fb_tape = []\<rparr>"

subsection \<open>Private helpers\<close>

definition tape ::
    "(json \<Rightarrow> string) \<Rightarrow> string \<Rightarrow> string \<Rightarrow> json \<Rightarrow> time \<Rightarrow> fake_broker \<Rightarrow> fake_broker" where
  "tape H direction item_type payload at b =
     b\<lparr>fb_tape := fb_tape b @
        [\<lparr>tp_direction = direction, tp_item_type = item_type,
          tp_item_hash = canonical_hash H (JObj [(''payload'', payload)]), tp_payload = payload,
          tp_recorded_at = at\<rparr>]\<rparr>"

definition fb_order :: "fake_broker \<Rightarrow> string \<Rightarrow> fake_order option" where
  "fb_order b key = List.find (\<lambda>x. fo_key x = key) (fb_orders b)"

definition update_order :: "string \<Rightarrow> (fake_order \<Rightarrow> fake_order) \<Rightarrow> fake_broker \<Rightarrow> fake_broker" where
  "update_order key f b = b\<lparr>fb_orders := update_where (\<lambda>x. fo_key x = key) f (fb_orders b)\<rparr>"

definition raw_event_json ::
    "string \<Rightarrow> string \<Rightarrow> broker_event_type \<Rightarrow> int \<Rightarrow> int \<Rightarrow> rat option \<Rightarrow> rat \<Rightarrow> json" where
  "raw_event_json broker_order_id key ty sequence filled price commission = JObj
     [(''broker_order_id'', JStr broker_order_id), (''client_order_key'', JStr key),
      (''event_type'', JStr (broker_event_type_value ty)), (''sequence'', JInt sequence),
      (''filled_quantity'', JInt filled), (''fill_price'', opt_json JNum price),
      (''commission'', JNum commission)]"

definition emit ::
    "(json \<Rightarrow> string) \<Rightarrow> execution_intent \<Rightarrow> string \<Rightarrow> broker_event_type \<Rightarrow> time \<Rightarrow> int \<Rightarrow> rat option
      \<Rightarrow> rat \<Rightarrow> fake_broker \<Rightarrow> broker_event res \<times> fake_broker" where
  "emit H i broker_order_id ty at filled price comm b =
     (let sequence = fb_next_sequence b;
          b1 = b\<lparr>fb_next_sequence := sequence + 1\<rparr>;
          raw = raw_event_json broker_order_id (xi_client_order_key i) ty sequence filled price comm;
          e = \<lparr>be_id = canonical_hash H raw, be_broker_order_id = broker_order_id,
               be_client_order_key = xi_client_order_key i, be_type = ty, be_sequence = sequence,
               be_filled_quantity = filled, be_fill_price = price, be_commission = comm,
               be_occurred_at = at, be_received_at = at, be_raw_payload_hash = canonical_hash H raw\<rparr>
      in if \<not> (0 < sequence \<and> 0 \<le> filled \<and> pred_option (\<lambda>p. 0 < p) price \<and> 0 \<le> comm)
         then (Inl (ValueError ''BrokerEvent''), b1)
         else case insert_row (\<lambda>x y. be_id x = be_id y \<or> be_sequence x = be_sequence y) e (fb_events b1) of
                Inl err \<Rightarrow> (Inl err, b1)
              | Inr es \<Rightarrow> (Inr e, tape H ''OUT'' (broker_event_type_value ty) (broker_event_json e) at
                                   (b1\<lparr>fb_events := es\<rparr>)))"

definition do_fill ::
    "(json \<Rightarrow> string) \<Rightarrow> execution_intent \<Rightarrow> string \<Rightarrow> int \<Rightarrow> rat \<Rightarrow> time \<Rightarrow> fake_broker
      \<Rightarrow> broker_event res \<times> fake_broker" where
  "do_fill H i broker_order_id quantity price at b =
     (case fb_order b (xi_client_order_key i) of
        None \<Rightarrow> (Inl (TypeError ''NoneType''), b)
      | Some row \<Rightarrow>
          (let remaining = xi_quantity i - fo_filled row; actual = min quantity remaining in
           if actual \<le> 0 then (Inl (ValueError ''broker order is already fully filled''), b)
           else
             let tot = fo_filled row + actual; full = (tot = xi_quantity i) in
             and_then (emit H i broker_order_id (if full then ET_FILL else ET_PARTIAL_FILL) at actual
                         (Some price) 0 b) (\<lambda>e b1.
               let b2 = update_order (xi_client_order_key i)
                     (\<lambda>x. x\<lparr>fo_filled := tot,
                            fo_status := (if full then ''FILLED'' else ''PARTIALLY_FILLED'')\<rparr>) b1
               in (Inr e, b2\<lparr>
                    fb_positions := upsert fst (\<lambda>old new. (fst old, snd old + snd new))
                      (xi_instrument_id i, signed_qty (xi_side i) actual) (fb_positions b2),
                    fb_cash := fb_cash b2 +
                      (if xi_side i = BUY then - (price * of_int actual) else price * of_int actual)\<rparr>))))"

definition events_for :: "string \<Rightarrow> fake_broker \<Rightarrow> broker_event list" where
  "events_for key b = sort_key be_sequence (filter (\<lambda>e. be_client_order_key e = key) (fb_events b))"

definition next_scenario :: "fake_broker \<Rightarrow> fake_scenario \<times> fake_broker" where
  "next_scenario b =
     (case fb_scenarios b of [] \<Rightarrow> (FS_ACCEPT, b) | s # ss \<Rightarrow> (s, b\<lparr>fb_scenarios := ss\<rparr>))"

definition accept_fencing_token :: "int \<Rightarrow> fake_broker \<Rightarrow> unit res \<times> fake_broker" where
  "accept_fencing_token token b =
     (if token < fb_highest_token b
      then (Inl (StaleFencingToken ''broker rejected stale fencing token''), b)
      else (Inr (), b\<lparr>fb_highest_token := token\<rparr>))"

text \<open>A transaction whose dropped response is raised after the commit.\<close>

definition is_unknown :: "exn \<Rightarrow> bool" where
  "is_unknown e = (case e of BrokerSubmissionUnknown _ \<Rightarrow> True | _ \<Rightarrow> False)"

definition broker_transaction ::
    "(fake_broker \<Rightarrow> 'a res \<times> fake_broker) \<Rightarrow> fake_broker \<Rightarrow> 'a res \<times> fake_broker" where
  "broker_transaction body b =
     (case body b of
        (Inl e, b') \<Rightarrow> (Inl e, if is_unknown e then b' else b)
      | (Inr x, b') \<Rightarrow> (Inr x, b'))"

subsection \<open>Public operations\<close>

definition enqueue_scenarios :: "fake_scenario list \<Rightarrow> fake_broker \<Rightarrow> fake_broker" where
  "enqueue_scenarios ss b = b\<lparr>fb_scenarios := fb_scenarios b @ ss\<rparr>"

definition advance_fence :: "int \<Rightarrow> fake_broker \<Rightarrow> unit res \<times> fake_broker" where
  "advance_fence token b = transaction (accept_fencing_token token) b"

definition order_clash :: "fake_order \<Rightarrow> fake_order \<Rightarrow> bool" where
  "order_clash x y \<longleftrightarrow> fo_key x = fo_key y \<or> fo_broker_order_id x = fo_broker_order_id y"

definition add_order :: "string \<Rightarrow> execution_intent \<Rightarrow> int \<Rightarrow> fake_broker \<Rightarrow> string res \<times> fake_broker" where
  "add_order prefix i protection b =
     (let broker_order_id = prefix @ nat_string (fb_next_order_id b);
          b1 = b\<lparr>fb_next_order_id := fb_next_order_id b + 1\<rparr>;
          row = \<lparr>fo_intent = i, fo_broker_order_id = broker_order_id, fo_status = ''ACCEPTED'',
                 fo_filled = 0, fo_response_dropped = False, fo_protection = protection\<rparr>
      in case insert_row order_clash row (fb_orders b1) of
           Inl e \<Rightarrow> (Inl e, b1)
         | Inr rows \<Rightarrow> (Inr broker_order_id, b1\<lparr>fb_orders := rows\<rparr>))"

definition respond ::
    "(json \<Rightarrow> string) \<Rightarrow> execution_intent \<Rightarrow> string \<Rightarrow> fake_scenario \<Rightarrow> time \<Rightarrow> fake_broker
      \<Rightarrow> broker_event list res \<times> fake_broker" where
  "respond H i broker_order_id scenario at b =
     (let key = xi_client_order_key i in
      if scenario = FS_REJECT then
        and_then (emit H i broker_order_id ET_REJECTED at 0 None 0 b) (\<lambda>e b1.
          (Inr [e], update_order key (\<lambda>x. x\<lparr>fo_status := ''REJECTED''\<rparr>) b1))
      else
        and_then (emit H i broker_order_id ET_ACKNOWLEDGED at 0 None 0 b) (\<lambda>ack b1.
          if scenario = FS_ACCEPT_DROP_RESPONSE then
            (Inl (BrokerSubmissionUnknown ''accepted by broker but response was dropped''),
             update_order key (\<lambda>x. x\<lparr>fo_response_dropped := True\<rparr>) b1)
          else if scenario = FS_DUPLICATE_ACK then (Inr [ack, ack], b1)
          else if scenario = FS_PARTIAL_FILL then
            and_then (do_fill H i broker_order_id (max 1 (xi_quantity i div 2)) (xi_limit_price i) at b1)
              (\<lambda>fill b2. (Inr [ack, fill], b2))
          else (Inr [ack], b1)))"

definition submit_body ::
    "(json \<Rightarrow> string) \<Rightarrow> execution_intent \<Rightarrow> int \<Rightarrow> time \<Rightarrow> fake_broker
      \<Rightarrow> broker_event list res \<times> fake_broker" where
  "submit_body H i token at b =
     and_then (accept_fencing_token token b) (\<lambda>_ b1.
       case fb_order b1 (xi_client_order_key i) of
         Some _ \<Rightarrow> (Inr (events_for (xi_client_order_key i) b1),
                    tape H ''IN'' ''IDEMPOTENT_SUBMIT'' (intent_json i) at b1)
       | None \<Rightarrow>
           (let (scenario, b2) = next_scenario b1 in
            and_then (add_order ''fake-'' i (if scenario = FS_MISSING_PROTECTION then 0 else xi_quantity i) b2)
              (\<lambda>broker_order_id b3.
                 respond H i broker_order_id scenario at
                   (tape H ''IN'' ''SUBMIT'' (intent_json i) at b3))))"

definition submit ::
    "(json \<Rightarrow> string) \<Rightarrow> execution_intent \<Rightarrow> int \<Rightarrow> time \<Rightarrow> fake_broker
      \<Rightarrow> broker_event list res \<times> fake_broker" where
  "submit H i token at b = broker_transaction (submit_body H i token at) b"

definition fill ::
    "(json \<Rightarrow> string) \<Rightarrow> string \<Rightarrow> int \<Rightarrow> rat \<Rightarrow> time \<Rightarrow> fake_broker \<Rightarrow> broker_event res \<times> fake_broker" where
  "fill H key quantity price at b =
     (case fb_order b key of
        None \<Rightarrow> (Inl (KeyError key), b)
      | Some row \<Rightarrow>
          transaction (do_fill H (fo_intent row) (fo_broker_order_id row) quantity price at) b)"

definition cancel_body ::
    "(json \<Rightarrow> string) \<Rightarrow> string \<Rightarrow> int \<Rightarrow> time \<Rightarrow> int \<Rightarrow> fake_broker \<Rightarrow> broker_event list res \<times> fake_broker" where
  "cancel_body H key token at fill_before b =
     and_then (accept_fencing_token token b) (\<lambda>_ b1.
       case fb_order b1 key of
         None \<Rightarrow> (Inl (KeyError key), b1)
       | Some row \<Rightarrow>
           (let i = fo_intent row; (scenario, b2) = next_scenario b1 in
            and_then (if fill_before > 0 \<and> fo_filled row < xi_quantity i
                      then and_then (do_fill H i (fo_broker_order_id row) fill_before (xi_limit_price i) at b2)
                             (\<lambda>e b'. (Inr [e], b'))
                      else (Inr [], b2)) (\<lambda>fills b3.
              case fb_order b3 key of
                None \<Rightarrow> (Inl (TypeError ''NoneType''), b3)
              | Some refreshed \<Rightarrow>
                  and_then (if fo_filled refreshed < xi_quantity i
                            then and_then (emit H i (fo_broker_order_id row) ET_CANCELLED at 0 None 0 b3)
                                   (\<lambda>e b'. (Inr [e], update_order key (\<lambda>x. x\<lparr>fo_status := ''CANCELLED''\<rparr>) b'))
                            else (Inr [], b3)) (\<lambda>cancels b4.
                    if scenario = FS_CANCEL_DROP_RESPONSE
                    then (Inl (BrokerSubmissionUnknown ''cancel accepted but response was dropped''), b4)
                    else (Inr (fills @ cancels), b4)))))"

definition cancel ::
    "(json \<Rightarrow> string) \<Rightarrow> string \<Rightarrow> int \<Rightarrow> time \<Rightarrow> int \<Rightarrow> fake_broker \<Rightarrow> broker_event list res \<times> fake_broker" where
  "cancel H key token at fill_before b = broker_transaction (cancel_body H key token at fill_before) b"

definition commission ::
    "(json \<Rightarrow> string) \<Rightarrow> string \<Rightarrow> rat \<Rightarrow> time \<Rightarrow> fake_broker \<Rightarrow> broker_event res \<times> fake_broker" where
  "commission H key amount at b =
     (if amount < 0 then (Inl (ValueError ''commission cannot be negative''), b)
      else case fb_order b key of
        None \<Rightarrow> (Inl (KeyError key), b)
      | Some row \<Rightarrow>
          transaction (\<lambda>b.
            and_then (emit H (fo_intent row) (fo_broker_order_id row) ET_COMMISSION at 0 None amount b)
              (\<lambda>e b1. (Inr e, b1\<lparr>fb_cash := fb_cash b1 - amount\<rparr>))) b)"

definition inject_broker_only_order ::
    "(json \<Rightarrow> string) \<Rightarrow> execution_intent \<Rightarrow> time \<Rightarrow> fake_broker \<Rightarrow> unit res \<times> fake_broker" where
  "inject_broker_only_order H i at b =
     transaction (\<lambda>b. and_then (add_order ''external-'' i 0 b)
       (\<lambda>_ b1. (Inr (), tape H ''BROKER'' ''EXTERNAL_ORDER'' (intent_json i) at b1))) b"

definition tape_count :: "fake_broker \<Rightarrow> nat" where
  "tape_count b = length (fb_tape b)"

subsection \<open>Snapshot\<close>

definition order_truth :: "fake_order \<Rightarrow> broker_order_truth" where
  "order_truth x =
     \<lparr>bo_broker_order_id = fo_broker_order_id x, bo_client_order_key = fo_key x,
      bo_instrument_id = xi_instrument_id (fo_intent x), bo_side = xi_side (fo_intent x),
      bo_quantity = xi_quantity (fo_intent x), bo_filled_quantity = fo_filled x,
      bo_status = fo_status x, bo_perm_id = None, bo_parent_client_order_key = None,
      bo_protection_quantity = min (fo_protection x) (fo_filled x)\<rparr>"

definition add_count :: "string \<Rightarrow> int \<Rightarrow> (string \<times> int) list \<Rightarrow> (string \<times> int) list" where
  "add_count k n xs = upsert fst (\<lambda>old new. (fst old, snd old + snd new)) (k, n) xs"

definition protections_of :: "fake_order list \<Rightarrow> (string \<times> int) list" where
  "protections_of rows =
     fold (\<lambda>x acc. if xi_side (fo_intent x) = BUY \<and> fo_filled x > 0
                    then add_count (xi_instrument_id (fo_intent x)) (min (fo_protection x) (fo_filled x)) acc
                    else acc) rows []"

definition protection_orders_of :: "fake_order list \<Rightarrow> broker_protection_truth list" where
  "protection_orders_of rows =
     concat (map (\<lambda>x. map (\<lambda>(kind, suffix).
         \<lparr>bp_order_id = fo_broker_order_id x @ '':'' @ suffix, bp_parent_client_order_key = fo_key x,
          bp_type = kind, bp_quantity = min (fo_protection x) (fo_filled x), bp_active = True\<rparr>)
         [(''STOP'', ''stop''), (''TARGET'', ''target'')])
       (filter (\<lambda>x. fo_filled x > 0 \<and> fo_protection x > 0) rows))"

definition snapshot :: "time \<Rightarrow> fake_broker \<Rightarrow> broker_snapshot" where
  "snapshot at b =
     \<lparr>bs_as_of = at, bs_cash = fb_cash b, bs_settled_cash = Some (fb_cash b),
      bs_buying_power = Some (fb_cash b), bs_accrued_cash = Some 0, bs_base_currency = ''USD'',
      bs_currency_balances = [(''USD'', fb_cash b)], bs_complete = True, bs_certificate_id = None,
      bs_observation_id = None, bs_session_id = None, bs_final_watermark = 0,
      bs_semantic_hash = None, bs_scope_hash = None, bs_account_hash = None, bs_orders_hash = None,
      bs_positions_hash = None, bs_executions_hash = None, bs_commissions_hash = None,
      bs_protection_hash = None, bs_valuation_hash = None, bs_normalization_policy_hash = None,
      bs_valuation_fields = [], bs_order_complete = True, bs_position_complete = True,
      bs_execution_complete = True, bs_cash_complete = True, bs_commission_pending = 0,
      bs_orders = map order_truth (sort_key fo_broker_order_id (fb_orders b)),
      bs_positions = fb_positions b, bs_protections = protections_of (fb_orders b),
      bs_events = sort_key be_sequence (fb_events b),
      bs_protection_orders = protection_orders_of (fb_orders b)\<rparr>"

subsection \<open>The books balance\<close>

definition fb_intents :: "fake_broker \<Rightarrow> execution_intent list" where
  "fb_intents b = map fo_intent (fb_orders b)"

definition held :: "fake_broker \<Rightarrow> string \<Rightarrow> int" where
  "held b k = (case map_of (fb_positions b) k of None \<Rightarrow> 0 | Some q \<Rightarrow> q)"

definition filled_of :: "string \<Rightarrow> broker_event list \<Rightarrow> int" where
  "filled_of key es = total_of be_filled_quantity (filter (\<lambda>e. be_client_order_key e = key) es)"

definition order_ok :: "fake_broker \<Rightarrow> fake_order \<Rightarrow> bool" where
  "order_ok b x \<longleftrightarrow>
     0 \<le> fo_filled x \<and> fo_filled x \<le> xi_quantity (fo_intent x)
     \<and> fo_filled x = filled_of (fo_key x) (fb_events b)
     \<and> (\<exists>n < fb_next_order_id b. fo_broker_order_id x = ''fake-'' @ nat_string n
                                 \<or> fo_broker_order_id x = ''external-'' @ nat_string n)"

definition orders_inv :: "fake_broker \<Rightarrow> bool" where
  "orders_inv b \<longleftrightarrow>
     distinct (map fo_key (fb_orders b)) \<and> distinct (map fo_broker_order_id (fb_orders b))
     \<and> list_all (order_ok b) (fb_orders b)"

definition event_ok :: "fake_broker \<Rightarrow> broker_event \<Rightarrow> bool" where
  "event_ok b e \<longleftrightarrow>
     0 < be_sequence e \<and> be_sequence e < fb_next_sequence b
     \<and> be_client_order_key e \<in> fo_key ` set (fb_orders b)
     \<and> 0 \<le> be_filled_quantity e \<and> 0 \<le> be_commission e \<and> pred_option (\<lambda>p. 0 < p) (be_fill_price e)
     \<and> (if is_fill_type (be_type e) then be_fill_price e \<noteq> None else be_filled_quantity e = 0)"

definition events_inv :: "fake_broker \<Rightarrow> bool" where
  "events_inv b \<longleftrightarrow>
     0 < fb_next_sequence b \<and> sorted_wrt (<) (map be_sequence (fb_events b))
     \<and> distinct (map be_id (fb_events b)) \<and> list_all (event_ok b) (fb_events b)"

definition cash_inv :: "rat \<Rightarrow> fake_broker \<Rightarrow> bool" where
  "cash_inv start b \<longleftrightarrow>
     fb_cash b = start + cash_of (fb_intents b) (fb_events b)
     \<and> (\<forall>k. held b k = units_of (fb_intents b) (fb_events b) k)"

definition broker_inv :: "rat \<Rightarrow> fake_broker \<Rightarrow> bool" where
  "broker_inv start b \<longleftrightarrow> orders_inv b \<and> events_inv b \<and> cash_inv start b"

lemmas broker_inv_defs = broker_inv_def orders_inv_def events_inv_def cash_inv_def

lemma broker_inv_new: "broker_inv start (new_broker start)"
  by (simp add: broker_inv_defs new_broker_def held_def)

text \<open>The frame of the helpers.\<close>

lemma tape_frame [simp]:
  "fb_cash (tape H x y p at b) = fb_cash b" "fb_orders (tape H x y p at b) = fb_orders b"
  "fb_events (tape H x y p at b) = fb_events b" "fb_positions (tape H x y p at b) = fb_positions b"
  "fb_next_order_id (tape H x y p at b) = fb_next_order_id b"
  "fb_next_sequence (tape H x y p at b) = fb_next_sequence b"
  "fb_highest_token (tape H x y p at b) = fb_highest_token b"
  by (simp_all add: tape_def)

lemma broker_inv_cong:
  assumes "fb_cash b' = fb_cash b" "fb_orders b' = fb_orders b" "fb_events b' = fb_events b"
    "fb_positions b' = fb_positions b" "fb_next_order_id b' = fb_next_order_id b"
    "fb_next_sequence b' = fb_next_sequence b"
  shows "broker_inv start b' = broker_inv start b"
  using assms
  by (simp add: broker_inv_defs order_ok_def event_ok_def held_def fb_intents_def cong: list.pred_cong)

lemma emit_Inr:
  assumes "emit H i bid ty at q p c b = (Inr e, b')"
  shows "be_client_order_key e = xi_client_order_key i \<and> be_type e = ty \<and> be_sequence e = fb_next_sequence b
     \<and> be_filled_quantity e = q \<and> be_fill_price e = p \<and> be_commission e = c \<and> be_broker_order_id e = bid
     \<and> 0 < fb_next_sequence b \<and> 0 \<le> q \<and> pred_option (\<lambda>p. 0 < p) p \<and> 0 \<le> c
     \<and> be_id e \<notin> be_id ` set (fb_events b) \<and> fb_events b' = fb_events b @ [e] \<and> fb_next_sequence b' = fb_next_sequence b + 1
     \<and> fb_orders b' = fb_orders b \<and> fb_cash b' = fb_cash b \<and> fb_positions b' = fb_positions b
     \<and> fb_next_order_id b' = fb_next_order_id b \<and> fb_highest_token b' = fb_highest_token b"
  using assms by (auto simp: emit_def Let_def insert_row_def list_ex_iff split: if_splits)

lemma fb_order_Some:
  "fb_order b key = Some row \<Longrightarrow> row \<in> set (fb_orders b) \<and> fo_key row = key"
  by (auto simp: fb_order_def dest: find_Some_set)

lemma fb_order_lookup: "lookup_intent (fb_intents b) key = map_option fo_intent (fb_order b key)"
proof -
  have "List.find (\<lambda>i. xi_client_order_key i = key) (map fo_intent xs) =
      map_option fo_intent (List.find (\<lambda>x. fo_key x = key) xs)" for xs
    by (induction xs) auto
  then show ?thesis by (simp add: lookup_intent_def fb_intents_def fb_order_def)
qed

text \<open>One event appended to the tape, together with the matching change of cash, positions and
  filled quantity, keeps the books balanced.\<close>

lemma broker_inv_event:
  assumes inv: "broker_inv start b" and row: "fb_order b key = Some row"
    and key: "be_client_order_key e = key" and ev: "fb_events b' = fb_events b @ [e]"
      and new: "be_id e \<notin> be_id ` set (fb_events b)"
    and seq: "be_sequence e = fb_next_sequence b" "fb_next_sequence b' = fb_next_sequence b + 1"
    and ok: "0 \<le> be_filled_quantity e" "0 \<le> be_commission e" "pred_option (\<lambda>p. 0 < p) (be_fill_price e)"
      "if is_fill_type (be_type e) then be_fill_price e \<noteq> None else be_filled_quantity e = 0"
    and ids: "fb_next_order_id b' = fb_next_order_id b"
    and orders: "fb_orders b' = update_where (\<lambda>x. fo_key x = key) f (fb_orders b)"
    and f: "\<And>x. fo_intent (f x) = fo_intent x" "\<And>x. fo_broker_order_id (f x) = fo_broker_order_id x"
      "fo_filled (f row) = fo_filled row + be_filled_quantity e"
    and room: "fo_filled row + be_filled_quantity e \<le> xi_quantity (fo_intent row)"
    and cash: "fb_cash b' = fb_cash b + event_cash (fo_intent row) e"
    and pos: "\<And>k. held b' k = held b k + event_units (fo_intent row) e k"
  shows "broker_inv start b'"
proof -
  note r = fb_order_Some [OF row]
  have same: "fb_intents b' = fb_intents b" by (simp add: fb_intents_def orders f map_update_where)
  have keys: "map fo_key (fb_orders b') = map fo_key (fb_orders b)"
    by (simp add: orders f map_update_where)
  have keyset: "fo_key ` set (fb_orders b') = fo_key ` set (fb_orders b)"
    using arg_cong [OF keys, of set] by simp
  have bids: "map fo_broker_order_id (fb_orders b') = map fo_broker_order_id (fb_orders b)"
    by (simp add: orders f map_update_where)
  have d: "distinct (map fo_key (fb_orders b))" "distinct (map fo_broker_order_id (fb_orders b))"
      and o: "\<And>x. x \<in> set (fb_orders b) \<Longrightarrow> order_ok b x"
      and s: "0 < fb_next_sequence b" "sorted_wrt (<) (map be_sequence (fb_events b))"
        "distinct (map be_id (fb_events b))"
      and es: "\<And>x. x \<in> set (fb_events b) \<Longrightarrow> event_ok b x"
    using inv by (auto simp: broker_inv_defs list_all_iff)
  have only: "x = row" if "x \<in> set (fb_orders b)" "fo_key x = key" for x
    using same_key_same_row [OF d(1) that(1)] r that(2) by auto
  have fo: "filled_of k (fb_events b') = filled_of k (fb_events b) + (if k = key then be_filled_quantity e else 0)" for k
    using key by (simp add: filled_of_def ev)
  have "order_ok b' x" if x: "x \<in> set (fb_orders b')" for x
  proof -
    obtain y where y: "y \<in> set (fb_orders b)" "x = (if fo_key y = key then f y else y)"
      using x by (auto simp: orders set_update_where)
    then show ?thesis
      using o [OF y(1)] only [OF y(1)] f room ok(1) fo [of "fo_key y"]
      by (cases "fo_key y = key") (auto simp: order_ok_def ids)
  qed
  then have "orders_inv b'" using d by (simp add: orders_inv_def keys bids list_all_iff)
  moreover have "event_ok b' x" if "x \<in> set (fb_events b')" for x
    using that es s(1) ok seq key r keyset ev
    by (auto simp: event_ok_def rev_image_eqI dest!: es split: if_splits)
  then have "events_inv b'"
    using s es seq ev new by (auto simp: events_inv_def list_all_iff sorted_wrt_append event_ok_def)
  moreover have "lookup_intent (fb_intents b) (be_client_order_key e) = Some (fo_intent row)"
    using row key by (simp add: fb_order_lookup)
  then have "cash_inv start b'"
    using inv cash pos by (simp add: broker_inv_def cash_inv_def same ev known_Some)
  ultimately show ?thesis by (simp add: broker_inv_def)
qed

subsection \<open>Every operation keeps the books balanced\<close>

lemma update_order_frame [simp]:
  "fb_cash (update_order k f b) = fb_cash b" "fb_events (update_order k f b) = fb_events b"
  "fb_positions (update_order k f b) = fb_positions b"
  "fb_next_order_id (update_order k f b) = fb_next_order_id b"
  "fb_next_sequence (update_order k f b) = fb_next_sequence b"
  "fb_highest_token (update_order k f b) = fb_highest_token b"
  "fb_orders (update_order k f b) = update_where (\<lambda>x. fo_key x = k) f (fb_orders b)"
  by (simp_all add: update_order_def)

lemma find_row_update:
  assumes "fb_order b key = Some row" and "\<And>x. fo_intent (f x) = fo_intent x"
  shows "fb_order (update_order key f b) key = Some (f row)"
proof -
  have "List.find (\<lambda>x. fo_key x = key) (update_where (\<lambda>x. fo_key x = key) f xs) =
      map_option f (List.find (\<lambda>x. fo_key x = key) xs)" for xs
    using assms(2) by (induction xs) auto
  then show ?thesis using assms(1) by (simp add: fb_order_def)
qed

text \<open>An event that moves no units, with the status change that goes with it.\<close>

lemma broker_inv_quiet:
  assumes inv: "broker_inv start b" and row: "fb_order b (xi_client_order_key i) = Some row"
    and e: "emit H i bid ty at 0 None 0 b = (Inr e, b1)" and ty: "\<not> is_fill_type ty"
    and f: "\<And>x. fo_intent (f x) = fo_intent x" "\<And>x. fo_broker_order_id (f x) = fo_broker_order_id x"
      "\<And>x. fo_filled (f x) = fo_filled x"
  shows "broker_inv start (update_order (xi_client_order_key i) f b1)"
proof -
  note em = emit_Inr [OF e]
  have "fo_filled row \<le> xi_quantity (fo_intent row)"
    using inv fb_order_Some [OF row] by (auto simp: broker_inv_defs list_all_iff order_ok_def)
  then show ?thesis
    using em ty f
    by (intro broker_inv_event [OF inv row, where e = e and f = f])
      (auto simp: event_cash_def event_units_def held_def)
qed

lemma broker_inv_quiet_plain:
  assumes "broker_inv start b" and "fb_order b (xi_client_order_key i) = Some row"
    and "emit H i bid ty at 0 None 0 b = (Inr e, b1)" and "\<not> is_fill_type ty"
  shows "broker_inv start b1"
proof -
  have "update_order k (\<lambda>x. x) b1 = b1" for k by (simp add: update_order_def update_where_def)
  then show ?thesis using broker_inv_quiet [OF assms, of "\<lambda>x. x"] by simp
qed

lemma broker_inv_fill:
  assumes inv: "broker_inv start b" and row: "fb_order b (xi_client_order_key i) = Some row"
    and i: "fo_intent row = i" and ok: "do_fill H i bid q p at b = (Inr e, b')"
  shows "broker_inv start b'"
proof -
  let ?a = "min q (xi_quantity i - fo_filled row)" and ?k = "xi_client_order_key i"
  let ?full = "fo_filled row + ?a = xi_quantity i"
  let ?f = "\<lambda>x. x\<lparr>fo_filled := fo_filled row + ?a,
                 fo_status := (if ?full then ''FILLED'' else ''PARTIALLY_FILLED'')\<rparr>"
  let ?ty = "if ?full then ET_FILL else ET_PARTIAL_FILL"
  obtain b1 where a: "0 < ?a" and e: "emit H i bid ?ty at ?a (Some p) 0 b = (Inr e, b1)"
    and b': "b' = (update_order ?k ?f b1)\<lparr>
                    fb_positions := upsert fst (\<lambda>old new. (fst old, snd old + snd new))
                      (xi_instrument_id i, signed_qty (xi_side i) ?a) (fb_positions b1),
                    fb_cash := fb_cash b1 + (if xi_side i = BUY then - (p * of_int ?a) else p * of_int ?a)\<rparr>"
    using ok row by (auto simp: do_fill_def Let_def and_then_Inr_iff split: if_splits)
  note em = emit_Inr [OF e]
  have fill: "is_fill_type (be_type e)" using em by simp
  show ?thesis
  proof (rule broker_inv_event [OF inv row, where e = e and f = ?f])
    show "fb_cash b' = fb_cash b + event_cash (fo_intent row) e"
      using em fill by (simp add: b' event_cash_def i Let_def)
    show "held b' k = held b k + event_units (fo_intent row) e k" for k
      using em fill by (simp add: b' held_def count_upsert event_units_def i)
    show "fo_filled row + be_filled_quantity e \<le> xi_quantity (fo_intent row)"
      using em by (simp add: i)
  qed (use em fill a in \<open>simp_all add: b'\<close>)
qed

lemma next_scenario_frame:
  assumes "next_scenario b = (s, b')"
  shows "fb_cash b' = fb_cash b \<and> fb_orders b' = fb_orders b \<and> fb_events b' = fb_events b
    \<and> fb_positions b' = fb_positions b \<and> fb_next_order_id b' = fb_next_order_id b
    \<and> fb_next_sequence b' = fb_next_sequence b \<and> fb_highest_token b' = fb_highest_token b"
  using assms by (auto simp: next_scenario_def split: list.splits)

lemma broker_inv_scenario: "next_scenario b = (s, b') \<Longrightarrow> broker_inv start b' = broker_inv start b"
  using next_scenario_frame by (intro broker_inv_cong) auto

lemma broker_inv_token: "accept_fencing_token t b = (r, b') \<Longrightarrow> broker_inv start b' = broker_inv start b"
  by (rule broker_inv_cong) (auto simp: accept_fencing_token_def split: if_splits)

lemma broker_inv_tape [simp]: "broker_inv start (tape H x y p at b) = broker_inv start b"
  by (rule broker_inv_cong) simp_all

text \<open>A new order has a new key, and its numeral makes its identifier new.\<close>

lemma broker_inv_add:
  assumes inv: "broker_inv start b" and ok: "add_order prefix i prot b = (Inr bid, b')"
    and prefix: "prefix = ''fake-'' \<or> prefix = ''external-''" and q: "0 \<le> xi_quantity i"
  shows "broker_inv start b' \<and> (\<exists>row. fb_order b' (xi_client_order_key i) = Some row \<and> fo_intent row = i)"
proof -
  let ?row = "\<lparr>fo_intent = i, fo_broker_order_id = prefix @ nat_string (fb_next_order_id b),
     fo_status = ''ACCEPTED'', fo_filled = 0, fo_response_dropped = False, fo_protection = prot\<rparr>"
  have new: "\<not> list_ex (order_clash ?row) (fb_orders b)" and b': "b' = b\<lparr>fb_next_order_id := fb_next_order_id b + 1,
      fb_orders := fb_orders b @ [?row]\<rparr>"
    using ok by (auto simp: add_order_def Let_def insert_row_def split: if_splits)
  have keys: "\<And>e. e \<in> set (fb_events b) \<Longrightarrow> be_client_order_key e \<in> xi_client_order_key ` set (fb_intents b)"
    using inv by (auto simp: broker_inv_defs list_all_iff event_ok_def fb_intents_def image_image)
  have nokey: "xi_client_order_key i \<notin> fo_key ` set (fb_orders b)"
    using new by (auto simp: list_ex_iff order_clash_def)
  have none: "filled_of (xi_client_order_key i) (fb_events b) = 0"
  proof -
    have "be_client_order_key e \<noteq> xi_client_order_key i" if "e \<in> set (fb_events b)" for e
    proof -
      have "event_ok b e" using inv that by (simp add: broker_inv_defs list_all_iff)
      then have "be_client_order_key e \<in> fo_key ` set (fb_orders b)" by (simp only: event_ok_def)
      then show ?thesis using nokey by metis
    qed
    then have "filter (\<lambda>e. be_client_order_key e = xi_client_order_key i) (fb_events b) = []"
      by (simp add: filter_empty_conv)
    then show ?thesis by (simp add: filled_of_def)
  qed
  have "orders_inv b'"
    using inv new q none prefix
    by (auto simp: b' broker_inv_defs list_all_iff list_ex_iff order_clash_def order_ok_def less_Suc_eq
        dest: bspec)
  moreover have "events_inv b'"
    using inv by (auto simp: b' broker_inv_defs list_all_iff event_ok_def)
  moreover have "cash_inv start b'"
    using inv worth_append_intents [OF keys] by (simp add: b' broker_inv_defs fb_intents_def held_def)
  moreover have "List.find (\<lambda>x. fo_key x = xi_client_order_key i) (fb_orders b) = None"
    using nokey by (metis (mono_tags, lifting) find_None_set imageI)
  then have "fb_order b' (xi_client_order_key i) = Some ?row"
    by (simp add: fb_order_def b' find_append)
  ultimately show ?thesis by (auto simp: broker_inv_def)
qed

text \<open>No helper raises the dropped-response exception: only the two explicit branches do.\<close>

lemma is_unknown_simp [simp]: "is_unknown (BrokerSubmissionUnknown m)"
  by (simp add: is_unknown_def)

lemma emit_not_unknown: "emit H i bid ty at q p c b = (Inl x, b') \<Longrightarrow> \<not> is_unknown x"
  by (auto simp: emit_def insert_row_def Let_def is_unknown_def split: if_splits sum.splits)

lemma do_fill_not_unknown: "do_fill H i bid q p at b = (Inl x, b') \<Longrightarrow> \<not> is_unknown x"
  by (auto simp: do_fill_def emit_def insert_row_def Let_def and_then_def is_unknown_def
      split: option.splits if_splits sum.splits)

lemma broker_inv_respond:
  assumes inv: "broker_inv start b" and row: "fb_order b (xi_client_order_key i) = Some row" "fo_intent row = i"
    and ok: "respond H i bid sc at b = (r, b')" and kept: "is_ok r \<or> (\<exists>m. r = Inl (BrokerSubmissionUnknown m))"
  shows "broker_inv start b'"
proof (cases "sc = FS_REJECT")
  case True
  then obtain e b1 where e: "emit H i bid ET_REJECTED at 0 None 0 b = (Inr e, b1)"
    and b': "b' = update_order (xi_client_order_key i) (\<lambda>x. x\<lparr>fo_status := ''REJECTED''\<rparr>) b1"
    using ok kept
    by (cases "emit H i bid ET_REJECTED at 0 None 0 b"; cases "fst (emit H i bid ET_REJECTED at 0 None 0 b)")
      (auto simp: respond_def Let_def emit_def insert_row_def split: if_splits)
  show ?thesis unfolding b' by (rule broker_inv_quiet [OF inv row(1) e]) simp_all
next
  case False
  obtain ack b1 where e: "emit H i bid ET_ACKNOWLEDGED at 0 None 0 b = (Inr ack, b1)"
    using ok kept False
    by (cases "emit H i bid ET_ACKNOWLEDGED at 0 None 0 b"; cases "fst (emit H i bid ET_ACKNOWLEDGED at 0 None 0 b)")
      (auto simp: respond_def Let_def emit_def insert_row_def split: if_splits)
  have b1: "broker_inv start b1" by (rule broker_inv_quiet_plain [OF inv row(1) e]) simp
  have drop: "broker_inv start (update_order (xi_client_order_key i) (\<lambda>x. x\<lparr>fo_response_dropped := True\<rparr>) b1)"
    by (rule broker_inv_quiet [OF inv row(1) e]) simp_all
  have row1: "fb_order b1 (xi_client_order_key i) = Some row"
    using emit_Inr [OF e] row(1) by (simp add: fb_order_def)
  let ?fill = "do_fill H i bid (max 1 (xi_quantity i div 2)) (xi_limit_price i) at b1"
  show ?thesis
  proof (cases "sc = FS_PARTIAL_FILL")
    case True
    then have r: "(r, b') = and_then ?fill (\<lambda>fl b2. (Inr [ack, fl], b2))"
      using ok False e by (simp add: respond_def Let_def)
    obtain fl where "?fill = (Inr fl, b')"
      using r kept by (cases ?fill; cases "fst ?fill") (auto dest: do_fill_not_unknown)
    then show ?thesis by (rule broker_inv_fill [OF b1 row1 row(2)])
  next
    case nofill: False
    then show ?thesis
      using ok e False b1 drop by (auto simp: respond_def Let_def split: if_splits)
  qed
qed

lemma broker_transaction_cases:
  assumes "broker_transaction body b = (r, b')"
  obtains (rolled) "b' = b" "\<not> is_ok r"
    | (kept) "body b = (r, b')" "is_ok r \<or> (\<exists>m. r = Inl (BrokerSubmissionUnknown m))"
  using assms
  by (auto simp: broker_transaction_def is_unknown_def split: prod.splits sum.splits if_splits exn.splits)

lemma broker_inv_submit:
  assumes inv: "broker_inv start b" and q: "intent_amounts_ok i" and ok: "submit H i token at b = (r, b')"
  shows "broker_inv start b'"
  using ok [unfolded submit_def]
proof (cases rule: broker_transaction_cases)
  case kept
  obtain b1 where t: "accept_fencing_token token b = (Inr (), b1)"
    using kept by (cases "accept_fencing_token token b"; cases "fst (accept_fencing_token token b)")
      (auto simp: submit_body_def accept_fencing_token_def split: if_splits)
  have b1: "broker_inv start b1" using inv broker_inv_token [OF t] by simp
  show ?thesis
  proof (cases "fb_order b1 (xi_client_order_key i)")
    case (Some row)
    then show ?thesis using kept(1) t b1 by (auto simp: submit_body_def)
  next
    case None
    obtain sc b2 where s: "next_scenario b1 = (sc, b2)" by fastforce
    let ?add = "add_order ''fake-'' i (if sc = FS_MISSING_PROTECTION then 0 else xi_quantity i) b2"
    obtain bid b3 where a: "?add = (Inr bid, b3)"
      using kept t None s
      by (cases ?add; cases "fst ?add") (auto simp: submit_body_def add_order_def Let_def insert_row_def
          split: if_splits)
    have b2: "broker_inv start b2" using b1 broker_inv_scenario [OF s] by simp
    obtain row where b3: "broker_inv start b3"
      and row: "fb_order b3 (xi_client_order_key i) = Some row" "fo_intent row = i"
      using broker_inv_add [OF b2 a] q by (auto simp: intent_amounts_ok_def)
    have resp: "respond H i bid sc at (tape H ''IN'' ''SUBMIT'' (intent_json i) at b3) = (r, b')"
      using kept(1) t None s a by (simp add: submit_body_def)
    have inv3: "broker_inv start (tape H ''IN'' ''SUBMIT'' (intent_json i) at b3)" using b3 by simp
    have row3: "fb_order (tape H ''IN'' ''SUBMIT'' (intent_json i) at b3) (xi_client_order_key i) = Some row"
      using row(1) by (simp add: fb_order_def)
    show ?thesis by (rule broker_inv_respond [OF inv3 row3 row(2) resp kept(2)])
  qed
qed (use inv in simp)

lemma broker_inv_fill_op:
  assumes "broker_inv start b" and "fill H key q p at b = (r, b')"
  shows "broker_inv start b'"
proof (cases "fb_order b key")
  case (Some row)
  then have "xi_client_order_key (fo_intent row) = key" by (auto dest: fb_order_Some)
  then show ?thesis
    using assms Some broker_inv_fill [OF assms(1), of "fo_intent row" row]
    by (cases r) (auto simp: fill_def)
qed (use assms in \<open>simp add: fill_def\<close>)

lemma broker_inv_commission:
  assumes inv: "broker_inv start b" and ok: "commission H key a at b = (r, b')"
  shows "broker_inv start b'"
proof (cases r)
  case (Inl x)
  then show ?thesis using assms by (auto simp: commission_def split: if_splits option.splits)
next
  case (Inr e)
  obtain row b1 where row: "fb_order b key = Some row"
    and e: "emit H (fo_intent row) (fo_broker_order_id row) ET_COMMISSION at 0 None a b = (Inr e, b1)"
    and b': "b' = b1\<lparr>fb_cash := fb_cash b1 - a\<rparr>"
    using ok Inr by (auto simp: commission_def and_then_Inr_iff split: if_splits option.splits)
  note em = emit_Inr [OF e] and k = fb_order_Some [OF row]
  have "fo_filled row \<le> xi_quantity (fo_intent row)"
    using inv k by (auto simp: broker_inv_defs list_all_iff order_ok_def)
  then show ?thesis
    using em k
    by (intro broker_inv_event [OF inv row, where e = e and f = "\<lambda>x. x"])
      (auto simp: b' event_cash_def event_units_def held_def update_where_def)
qed

lemma and_then_kept:
  assumes "and_then m f = (r, t)" and "is_ok r \<or> (\<exists>x. r = Inl (BrokerSubmissionUnknown x))"
    and "\<And>x u. m = (Inl x, u) \<Longrightarrow> \<not> is_unknown x"
  obtains x u where "m = (Inr x, u)" "f x u = (r, t)"
  using assms by (cases m; cases "fst m") (auto simp: is_unknown_def)

lemma broker_inv_cancel:
  assumes inv: "broker_inv start b" and ok: "cancel H key token at fb b = (r, b')"
  shows "broker_inv start b'"
  using ok [unfolded cancel_def]
proof (cases rule: broker_transaction_cases)
  case kept
  obtain b1 where t: "accept_fencing_token token b = (Inr (), b1)"
    using kept by (cases "accept_fencing_token token b"; cases "fst (accept_fencing_token token b)")
      (auto simp: cancel_body_def accept_fencing_token_def split: if_splits)
  have b1: "broker_inv start b1" using inv broker_inv_token [OF t] by simp
  obtain row where row: "fb_order b1 key = Some row"
    using kept t by (cases "fb_order b1 key") (auto simp: cancel_body_def)
  note k = fb_order_Some [OF row]
  obtain sc b2 where s: "next_scenario b1 = (sc, b2)" by fastforce
  have b2: "broker_inv start b2" using b1 broker_inv_scenario [OF s] by simp
  have row2: "fb_order b2 key = Some row" using row next_scenario_frame [OF s] by (simp add: fb_order_def)
  let ?i = "fo_intent row"
  let ?fills = "if fb > 0 \<and> fo_filled row < xi_quantity ?i
      then and_then (do_fill H ?i (fo_broker_order_id row) fb (xi_limit_price ?i) at b2) (\<lambda>e b'. (Inr [e], b'))
      else (Inr [], b2)"
  let ?emit = "\<lambda>b3. and_then (emit H ?i (fo_broker_order_id row) ET_CANCELLED at 0 None 0 b3)
      (\<lambda>e b'. (Inr [e], update_order key (\<lambda>x. x\<lparr>fo_status := ''CANCELLED''\<rparr>) b'))"
  let ?rest = "\<lambda>fills b3. case fb_order b3 key of None \<Rightarrow> (Inl (TypeError ''NoneType''), b3)
      | Some refreshed \<Rightarrow> and_then (if fo_filled refreshed < xi_quantity ?i then ?emit b3 else (Inr [], b3))
          (\<lambda>cancels b4. if sc = FS_CANCEL_DROP_RESPONSE
             then (Inl (BrokerSubmissionUnknown ''cancel accepted but response was dropped''), b4)
             else (Inr (fills @ cancels), b4))"
  have body: "and_then ?fills ?rest = (r, b')"
    using kept(1) t row s by (simp add: cancel_body_def Let_def)
  have nu: "\<not> is_unknown x" if "?fills = (Inl x, u)" for x u
    using that do_fill_not_unknown
    by (cases "do_fill H ?i (fo_broker_order_id row) fb (xi_limit_price ?i) at b2";
        cases "fst (do_fill H ?i (fo_broker_order_id row) fb (xi_limit_price ?i) at b2)")
      (auto split: if_splits)
  obtain fills b3 where f: "?fills = (Inr fills, b3)" and rest: "?rest fills b3 = (r, b')"
    using body kept(2) nu by (rule and_then_kept)
  have b3: "broker_inv start b3"
    using f b2 broker_inv_fill [OF b2, of ?i row] row2 k by (auto simp: and_then_Inr_iff split: if_splits)
  obtain refreshed where rf: "fb_order b3 key = Some refreshed"
    using rest kept(2) by (cases "fb_order b3 key") auto
  have i3: "fo_intent refreshed = ?i"
  proof -
    have "fb_intents b3 = fb_intents b2"
      using f by (auto simp: do_fill_def Let_def and_then_Inr_iff fb_intents_def map_update_where
          dest!: emit_Inr split: if_splits option.splits)
    then have "map_option fo_intent (fb_order b3 key) = map_option fo_intent (fb_order b2 key)"
      by (simp add: fb_order_lookup [symmetric])
    then show ?thesis using rf row2 by simp
  qed
  show ?thesis
  proof (cases "fo_filled refreshed < xi_quantity ?i")
    case True
    have rf': "fb_order b3 (xi_client_order_key ?i) = Some refreshed" using rf k by simp
    from rest True rf obtain e b4 where e: "emit H ?i (fo_broker_order_id row) ET_CANCELLED at 0 None 0 b3 = (Inr e, b4)"
      and b': "b' = update_order key (\<lambda>x. x\<lparr>fo_status := ''CANCELLED''\<rparr>) b4"
      using kept(2) emit_not_unknown [of H ?i "fo_broker_order_id row" ET_CANCELLED at 0 None 0 b3]
      by (cases "emit H ?i (fo_broker_order_id row) ET_CANCELLED at 0 None 0 b3";
          cases "fst (emit H ?i (fo_broker_order_id row) ET_CANCELLED at 0 None 0 b3)")
        (auto simp: is_unknown_def split: if_splits)
    have "key = xi_client_order_key ?i" using k by simp
    then show ?thesis unfolding b' by (simp only:) (rule broker_inv_quiet [OF b3 rf' e], simp_all)
  next
    case False
    then show ?thesis using rest rf b3 by (auto split: if_splits)
  qed
qed (use inv in simp)

lemma broker_inv_inject:
  assumes "broker_inv start b" and "intent_amounts_ok i" and "inject_broker_only_order H i at b = (r, b')"
  shows "broker_inv start b'"
proof (cases r)
  case (Inl x)
  then show ?thesis using assms by (auto simp: inject_broker_only_order_def)
next
  case (Inr u)
  then obtain bid b1 where "add_order ''external-'' i 0 b = (Inr bid, b1)"
      "b' = tape H ''BROKER'' ''EXTERNAL_ORDER'' (intent_json i) at b1"
    using assms(3) by (auto simp: inject_broker_only_order_def and_then_Inr_iff)
  then show ?thesis using broker_inv_add [OF assms(1)] assms(2) by (auto simp: intent_amounts_ok_def)
qed

subsection \<open>The broker as a transition system\<close>

datatype broker_op =
    Bo_enqueue "fake_scenario list"
  | Bo_fence int
  | Bo_submit execution_intent int time
  | Bo_fill string int rat time
  | Bo_cancel string int time int
  | Bo_commission string rat time
  | Bo_inject execution_intent time

fun exec_broker :: "(json \<Rightarrow> string) \<Rightarrow> broker_op \<Rightarrow> fake_broker \<Rightarrow> fake_broker" where
  "exec_broker H (Bo_enqueue ss) b = enqueue_scenarios ss b"
| "exec_broker H (Bo_fence t) b = snd (advance_fence t b)"
| "exec_broker H (Bo_submit i t at) b = snd (submit H i t at b)"
| "exec_broker H (Bo_fill k q p at) b = snd (fill H k q p at b)"
| "exec_broker H (Bo_cancel k t at f) b = snd (cancel H k t at f b)"
| "exec_broker H (Bo_commission k a at) b = snd (commission H k a at b)"
| "exec_broker H (Bo_inject i at) b = snd (inject_broker_only_order H i at b)"

fun broker_op_ok :: "broker_op \<Rightarrow> bool" where
  "broker_op_ok (Bo_submit i t at) = intent_amounts_ok i"
| "broker_op_ok (Bo_inject i at) = intent_amounts_ok i"
| "broker_op_ok _ = True"

lemma broker_inv_exec:
  assumes inv: "broker_inv start b" and ok: "broker_op_ok op"
  shows "broker_inv start (exec_broker H op b)"
proof (cases op)
  case (Bo_enqueue ss)
  then show ?thesis
    using inv broker_inv_cong [of "enqueue_scenarios ss b" b] by (simp add: enqueue_scenarios_def)
next
  case (Bo_fence t)
  then show ?thesis
    using inv broker_inv_token [of t b] by (cases "accept_fencing_token t b")
      (auto simp: advance_fence_def transaction_def split: sum.splits)
next
  case (Bo_submit i t at)
  then show ?thesis using inv ok broker_inv_submit by (cases "submit H i t at b") auto
next
  case (Bo_fill k q p at)
  then show ?thesis using inv broker_inv_fill_op by (cases "fill H k q p at b") auto
next
  case (Bo_cancel k t at f)
  then show ?thesis using inv broker_inv_cancel by (cases "cancel H k t at f b") auto
next
  case (Bo_commission k a at)
  then show ?thesis using inv broker_inv_commission by (cases "commission H k a at b") auto
next
  case (Bo_inject i at)
  then show ?thesis using inv ok broker_inv_inject by (cases "inject_broker_only_order H i at b") auto
qed

interpretation broker_machine: invariant_system "\<lambda>b. b = new_broker start" "exec_broker H"
    "\<lambda>op b. broker_op_ok op" "broker_inv start" for start H
  by unfold_locales (auto intro: broker_inv_new broker_inv_exec)

interpretation broker_book: event_book "broker_inv start" fb_intents fb_events "\<lambda>_. start" fb_cash held
    for start
  by unfold_locales (auto simp: broker_inv_def cash_inv_def)

end
