(* ===== verification/Worker.thy ===== *)
theory Worker
  imports Ctl_Machine Fake_Broker
begin

section \<open>The execution worker\<close>

text \<open>
  \<open>src/hanalpha/execution/worker.py\<close>, \<open>ExecutionWorker\<close>: claim a command under the lease, hand it
  to the broker under the fencing token, feed the answer back into the store. The world is the
  pair of the durable store and the broker; an exception leaves both as they are at that moment.
  \<open>fenced_broker\<close> states what the worker relies on, and is interpreted on the fake broker.
\<close>

type_synonym world = "store \<times> fake_broker"

subsection \<open>Operations\<close>

fun ingest_all :: "(json \<Rightarrow> string) \<Rightarrow> broker_event list \<Rightarrow> store \<Rightarrow> unit res \<times> store" where
  "ingest_all H [] d = (Inr (), d)"
| "ingest_all H (e # es) d = and_then (ingest_broker_event H e d) (\<lambda>_ d'. ingest_all H es d')"

definition worker_heartbeat :: "execution_lease \<Rightarrow> time \<Rightarrow> store \<Rightarrow> store" where
  "worker_heartbeat l at d =
     record_heartbeat ''execution-worker'' ''OK'' at (JObj [(''fencing_token'', JInt (ls_token l))]) d"

definition start_worker :: "execution_lease \<Rightarrow> fake_broker \<Rightarrow> unit res \<times> fake_broker" where
  "start_worker l b = advance_fence (ls_token l) b"

definition finish_submit ::
    "(json \<Rightarrow> string) \<Rightarrow> string \<Rightarrow> time \<Rightarrow> broker_event list res \<times> fake_broker \<Rightarrow> store \<Rightarrow> bool res \<times> world" where
  "finish_submit H command_id at answer d =
     (case answer of
        (Inl (BrokerSubmissionUnknown m), b) \<Rightarrow>
          (case mark_submission_unknown H command_id at m d of
             (Inl e, d') \<Rightarrow> (Inl e, (d', b))
           | (Inr _, d') \<Rightarrow> (Inr True, (d', b)))
      | (Inl e, b) \<Rightarrow> (Inl e, (d, b))
      | (Inr es, b) \<Rightarrow>
          (case ingest_all H es d of
             (Inl e, d') \<Rightarrow> (Inl e, (d', b))
           | (Inr _, d') \<Rightarrow> (Inr True, (mark_delivered command_id at d', b))))"

definition dispatch_once ::
    "(json \<Rightarrow> string) \<Rightarrow> execution_lease \<Rightarrow> time \<Rightarrow> world \<Rightarrow> bool res \<times> world" where
  "dispatch_once H l at w =
     (case claim_next H l at (worker_heartbeat l at (fst w)) of
        (Inl e, d) \<Rightarrow> (Inl e, (d, snd w))
      | (Inr None, d) \<Rightarrow> (Inr False, (d, snd w))
      | (Inr (Some (command, intent)), d) \<Rightarrow>
          (case validate_lease l at d of
             Inl e \<Rightarrow> (Inl e, (d, snd w))
           | Inr _ \<Rightarrow> finish_submit H (oc_id command) at (submit H intent (ls_token l) at (snd w)) d))"

definition finish_cancel ::
    "(json \<Rightarrow> string) \<Rightarrow> string \<Rightarrow> time \<Rightarrow> broker_event list res \<times> fake_broker \<Rightarrow> store \<Rightarrow> bool res \<times> world" where
  "finish_cancel H command_id at answer d =
     (case answer of
        (Inl (BrokerSubmissionUnknown m), b) \<Rightarrow>
          (case mark_cancel_unknown H command_id at m d of
             (Inl e, d') \<Rightarrow> (Inl e, (d', b))
           | (Inr _, d') \<Rightarrow> (Inr True, (d', b)))
      | (Inl e, b) \<Rightarrow> (Inl e, (d, b))
      | (Inr es, b) \<Rightarrow>
          (case ingest_all H es d of
             (Inl e, d') \<Rightarrow> (Inl e, (d', b))
           | (Inr _, d') \<Rightarrow> (Inr True, (mark_cancel_delivered command_id at d', b))))"

definition dispatch_cancel_once ::
    "(json \<Rightarrow> string) \<Rightarrow> execution_lease \<Rightarrow> time \<Rightarrow> world \<Rightarrow> bool res \<times> world" where
  "dispatch_cancel_once H l at w =
     (case claim_next_cancel l at (worker_heartbeat l at (fst w)) of
        (Inl e, d) \<Rightarrow> (Inl e, (d, snd w))
      | (Inr None, d) \<Rightarrow> (Inr False, (d, snd w))
      | (Inr (Some (command_id, intent)), d) \<Rightarrow>
          (case validate_lease l at d of
             Inl e \<Rightarrow> (Inl e, (d, snd w))
           | Inr _ \<Rightarrow> finish_cancel H command_id at
                (cancel H (xi_client_order_key intent) (ls_token l) at 0 (snd w)) d))"

subsection \<open>The fence\<close>

locale fenced_broker =
  fixes submit_op :: "execution_intent \<Rightarrow> int \<Rightarrow> time \<Rightarrow> 'b \<Rightarrow> broker_event list res \<times> 'b"
    and fence :: "'b \<Rightarrow> int" and order_keys :: "'b \<Rightarrow> string set"
  assumes stale: "t < fence b \<Longrightarrow> \<not> is_ok (fst (submit_op i t at b)) \<and> snd (submit_op i t at b) = b"
    and fence_up: "fence b \<le> fence (snd (submit_op i t at b))"
    and keys_kept: "order_keys b \<subseteq> order_keys (snd (submit_op i t at b))"
    and keys_new: "order_keys (snd (submit_op i t at b)) \<subseteq> insert (xi_client_order_key i) (order_keys b)"
    and answered: "is_ok (fst (submit_op i t at b)) \<Longrightarrow> xi_client_order_key i \<in> order_keys (snd (submit_op i t at b))"
    and accepted: "is_ok (fst (submit_op i t at b)) \<Longrightarrow> fence (snd (submit_op i t at b)) = t"
begin

text \<open>Once a newer writer's submission was answered, no older token ever gets through again.\<close>

lemma fenced_off:
  assumes "is_ok (fst (submit_op i t at b))" and "u < t"
  shows "snd (submit_op j u at' (snd (submit_op i t at b))) = snd (submit_op i t at b)"
  using stale [of u "snd (submit_op i t at b)"] accepted [OF assms(1)] assms(2) by simp

lemma resubmit_same_keys:
  assumes "is_ok (fst (submit_op i t at b))"
  shows "order_keys (snd (submit_op i u at' (snd (submit_op i t at b)))) = order_keys (snd (submit_op i t at b))"
  using keys_kept keys_new answered [OF assms] by blast

end

definition broker_keys :: "fake_broker \<Rightarrow> string set" where
  "broker_keys b = fo_key ` set (fb_orders b)"

text \<open>What the broker's steps leave alone, as equations on the resulting state.\<close>

lemma snd_and_then: "snd (and_then m f) = (case fst m of Inl e \<Rightarrow> snd m | Inr x \<Rightarrow> snd (f x (snd m)))"
  by (simp add: and_then_def split: sum.splits)

lemma emit_frame [simp]:
  "fb_orders (snd (emit H i bid ty at q p c b)) = fb_orders b"
  "fb_highest_token (snd (emit H i bid ty at q p c b)) = fb_highest_token b"
  by (simp_all add: emit_def Let_def insert_row_def)

lemma broker_keys_update [simp]:
  "(\<And>x. fo_intent (f x) = fo_intent x) \<Longrightarrow> fo_key ` set (update_where P f rows) = fo_key ` set rows"
  using map_update_where [of P fo_key f rows] by (metis list.set_map)

lemma do_fill_frame [simp]:
  "fo_key ` set (fb_orders (snd (do_fill H i bid q p at b))) = fo_key ` set (fb_orders b)"
  "fb_highest_token (snd (do_fill H i bid q p at b)) = fb_highest_token b"
  by (simp_all add: do_fill_def Let_def snd_and_then split: option.splits sum.splits)

lemma respond_frame [simp]:
  "fo_key ` set (fb_orders (snd (respond H i bid sc at b))) = fo_key ` set (fb_orders b)"
  "fb_highest_token (snd (respond H i bid sc at b)) = fb_highest_token b"
  by (simp_all add: respond_def Let_def snd_and_then split: sum.splits)

lemma submit_body_state:
  "fb_highest_token (snd (submit_body H i t at b)) = (if t < fb_highest_token b then fb_highest_token b else t)"
  "broker_keys b \<subseteq> broker_keys (snd (submit_body H i t at b))"
  "broker_keys (snd (submit_body H i t at b)) \<subseteq> insert (xi_client_order_key i) (broker_keys b)"
  by (auto simp: submit_body_def snd_and_then accept_fencing_token_def next_scenario_def add_order_def
      insert_row_def broker_keys_def Let_def split: option.splits sum.splits list.splits)

lemma submit_body_answered:
  assumes "submit_body H i t at b = (Inr es, b')"
  shows "xi_client_order_key i \<in> broker_keys b' \<and> \<not> t < fb_highest_token b"
proof -
  have "\<not> t < fb_highest_token b"
    using assms by (auto simp: submit_body_def accept_fencing_token_def)
  moreover have "xi_client_order_key i \<in> broker_keys b'"
  proof (cases "fb_order b (xi_client_order_key i)")
    case (Some row)
    then have "xi_client_order_key i \<in> broker_keys b"
      using fb_order_Some by (force simp: broker_keys_def)
    then show ?thesis using submit_body_state(2) [of b H i t at] assms by auto
  next
    case None
    let ?b1 = "b\<lparr>fb_highest_token := t\<rparr>"
    obtain sc b2 where s: "next_scenario ?b1 = (sc, b2)" by fastforce
    have none: "fb_order ?b1 (xi_client_order_key i) = None" using None by (simp add: fb_order_def)
    obtain bid b3 where a: "add_order ''fake-'' i (if sc = FS_MISSING_PROTECTION then 0 else xi_quantity i) b2 = (Inr bid, b3)"
      and r: "respond H i bid sc at (tape H ''IN'' ''SUBMIT'' (intent_json i) at b3) = (Inr es, b')"
      using assms calculation none s
      by (auto simp: submit_body_def accept_fencing_token_def and_then_Inr_iff)
    have "xi_client_order_key i \<in> fo_key ` set (fb_orders b3)"
      using a by (auto simp: add_order_def Let_def insert_row_def split: if_splits)
    then show ?thesis
      using respond_frame(1) [of H i bid sc at "tape H ''IN'' ''SUBMIT'' (intent_json i) at b3"] r
      by (simp add: broker_keys_def)
  qed
  ultimately show ?thesis by simp
qed

lemma submit_snd:
  "snd (submit H i t at b) = b \<or> snd (submit H i t at b) = snd (submit_body H i t at b)"
  by (auto simp: submit_def broker_transaction_def split: prod.splits sum.splits)

lemma submit_Inr: "submit H i t at b = (Inr es, b') \<Longrightarrow> submit_body H i t at b = (Inr es, b')"
  by (auto simp: submit_def broker_transaction_def split: prod.splits sum.splits)

interpretation fake: fenced_broker "submit H" fb_highest_token broker_keys for H
proof
  show "\<not> is_ok (fst (submit H i t at b)) \<and> snd (submit H i t at b) = b" if "t < fb_highest_token b" for i t at b
    using that by (simp add: submit_def broker_transaction_def submit_body_def accept_fencing_token_def is_unknown_def)
  show "fb_highest_token b \<le> fb_highest_token (snd (submit H i t at b))" for i t at b
    using submit_snd [of H i t at b] submit_body_state(1) [of H i t at b] by (auto split: if_splits)
  show "broker_keys b \<subseteq> broker_keys (snd (submit H i t at b))"
    "broker_keys (snd (submit H i t at b)) \<subseteq> insert (xi_client_order_key i) (broker_keys b)" for i t at b
    using submit_snd [of H i t at b] submit_body_state(2) [of b H i t at]
      submit_body_state(3) [of H i t at b] by auto
  show "xi_client_order_key i \<in> broker_keys (snd (submit H i t at b))"
    "fb_highest_token (snd (submit H i t at b)) = t" if ok: "is_ok (fst (submit H i t at b))" for i t at b
  proof -
    obtain es b' where e: "submit H i t at b = (Inr es, b')"
      using ok by (cases "submit H i t at b"; cases "fst (submit H i t at b)") auto
    then show "xi_client_order_key i \<in> broker_keys (snd (submit H i t at b))"
      "fb_highest_token (snd (submit H i t at b)) = t"
      using submit_body_answered [OF submit_Inr [OF e]] submit_body_state(1) [of H i t at b] submit_Inr [OF e]
      by auto
  qed
qed

subsection \<open>What a dispatch does\<close>

lemma heartbeat_frame [simp]:
  "control (worker_heartbeat l at d) = control d" "leases (worker_heartbeat l at d) = leases d"
  "outbox (worker_heartbeat l at d) = outbox d" "intents (worker_heartbeat l at d) = intents d"
  "reservations (worker_heartbeat l at d) = reservations d" "approvals (worker_heartbeat l at d) = approvals d"
  "authorities (worker_heartbeat l at d) = authorities d" "cancels (worker_heartbeat l at d) = cancels d"
  by (simp_all add: worker_heartbeat_def record_heartbeat_def)

lemma store_inv_heartbeat: "store_inv H d \<Longrightarrow> store_inv H (worker_heartbeat l at d)"
proof -
  assume i: "store_inv H d"
  have "worker_heartbeat l at d = exec_op H (Op_heartbeat ''execution-worker'' ''OK'' at
      (JObj [(''fencing_token'', JInt (ls_token l))])) d" by (simp add: worker_heartbeat_def)
  then show ?thesis
    using i core_inv_exec seeded_exec tables_inv_exec book_inv_same same_book_exec
    by (metis (no_types, lifting) store_inv_def store_op.distinct)
qed

lemma ingest_all_inv:
  assumes "inj H" and "list_all event_amounts_ok es" and "store_inv H d" and "ingest_all H es d = (r, d')"
  shows "store_inv H d'"
  using assms(2-4)
proof (induction es arbitrary: d)
  case (Cons e es)
  obtain r1 d1 where e: "ingest_broker_event H e d = (r1, d1)" by fastforce
  have "store_inv H d1"
    using store_inv_exec [OF Cons.prems(2) assms(1), of "Op_ingest e"] Cons.prems(1) e by simp
  then show ?case using Cons e by (cases r1) auto
qed simp

text \<open>The events a broker answers with are recorded at the broker, carry the key that was asked
  for, and have valid amounts.\<close>

lemma respond_events:
  assumes "respond H i bid sc at b = (Inr es, b')"
  shows "set es \<subseteq> set (fb_events b') \<and> (\<forall>e \<in> set es. be_client_order_key e = xi_client_order_key i)"
proof -
  have fl: "e \<in> set (fb_events b2) \<and> set (fb_events b1) \<subseteq> set (fb_events b2) \<and> be_client_order_key e = xi_client_order_key i"
    if "do_fill H i bid q p at b1 = (Inr e, b2)" for q p e b1 b2
    using that by (auto simp: do_fill_def Let_def and_then_Inr_iff dest!: emit_Inr split: option.splits if_splits)
  show ?thesis
    using assms
    by (auto simp: respond_def Let_def and_then_Inr_iff dest!: emit_Inr fl split: if_splits)
qed

lemma submit_events:
  assumes "submit H i t at b = (Inr es, b')"
  shows "set es \<subseteq> set (fb_events b') \<and> (\<forall>e \<in> set es. be_client_order_key e = xi_client_order_key i)"
proof -
  note body = submit_Inr [OF assms]
  let ?b1 = "b\<lparr>fb_highest_token := t\<rparr>"
  have t: "accept_fencing_token t b = (Inr (), ?b1)"
    using submit_body_answered [OF body] by (simp add: accept_fencing_token_def)
  show ?thesis
  proof (cases "fb_order ?b1 (xi_client_order_key i)")
    case (Some row)
    then show ?thesis using body t by (auto simp: submit_body_def events_for_def)
  next
    case None
    obtain sc b2 where s: "next_scenario ?b1 = (sc, b2)" by fastforce
    obtain bid b3 where "respond H i bid sc at (tape H ''IN'' ''SUBMIT'' (intent_json i) at b3) = (Inr es, b')"
      using body None s t by (auto simp: submit_body_def and_then_Inr_iff)
    then show ?thesis by (rule respond_events)
  qed
qed

lemma event_ok_amounts: "event_ok b e \<Longrightarrow> event_amounts_ok e"
  by (simp add: event_ok_def event_amounts_ok_def)

lemma broker_events_ok: "broker_inv start b \<Longrightarrow> e \<in> set (fb_events b) \<Longrightarrow> event_amounts_ok e"
  by (auto simp: broker_inv_defs list_all_iff intro: event_ok_amounts)

end
