(* ===== verification/World.thy ===== *)
theory World
  imports Worker
begin

section \<open>Store and broker together\<close>

text \<open>
  The store, the broker and the workers between them as one system. Any interleaving of store
  operations, broker operations, dispatches and re-deliveries of broker events (in any order, any
  number of times) in which nothing by-passes the worker keeps both invariants; when every broker event has been delivered, the store's
  projections are the broker's books. Orders reach the broker through a dispatch only: what a
  foreign order does is the business of the reconciliation.
\<close>

subsection \<open>The store's book\<close>

definition store_intents :: "store \<Rightarrow> execution_intent list" where
  "store_intents d = map iw_intent (intents d)"

definition store_units :: "store \<Rightarrow> string \<Rightarrow> int" where
  "store_units d k = (case positions d k of None \<Rightarrow> 0 | Some q \<Rightarrow> q)"

lemma row_lookup:
  "map_option iw_intent (List.find (\<lambda>r. iw_key r = k) rows) = lookup_intent (map iw_intent rows) k"
  unfolding lookup_intent_def by (induction rows) auto

text \<open>Replaying a payload adds what its event is worth.\<close>

lemma replay_event_worth:
  assumes "replay_event rows p (pos, cash, comm) = Inr (pos', cash', comm')"
  shows "cash' = cash + cash_of (map iw_intent rows) (payload_events [p])
    \<and> (case pos' k of None \<Rightarrow> 0 | Some q \<Rightarrow> q) =
        (case pos k of None \<Rightarrow> 0 | Some q \<Rightarrow> q) + units_of (map iw_intent rows) (payload_events [p]) k"
proof (cases p)
  case (PL_broker e)
  show ?thesis
  proof (cases "List.find (\<lambda>r. iw_key r = be_client_order_key e) rows")
    case None
    then have "lookup_intent (map iw_intent rows) (be_client_order_key e) = None"
      using row_lookup [of "be_client_order_key e" rows] by simp
    then show ?thesis using assms PL_broker None by (simp add: replay_event_def known_def)
  next
    case (Some row)
    then have l: "lookup_intent (map iw_intent rows) (be_client_order_key e) = Some (iw_intent row)"
      using row_lookup [of "be_client_order_key e" rows] by simp
    show ?thesis
      using assms PL_broker Some
      by (auto simp: replay_event_def Let_def known_Some [OF l] event_cash_def event_units_def
          add_position_def split: if_splits option.splits)
  qed
qed (use assms in \<open>simp_all add: replay_event_def payload_events_def\<close>)

lemma replay_worth:
  assumes "replay rows ps (pos, cash, comm) = Inr (pos', cash', comm')"
  shows "cash' = cash + cash_of (map iw_intent rows) (payload_events ps)
    \<and> (case pos' k of None \<Rightarrow> 0 | Some q \<Rightarrow> q) =
        (case pos k of None \<Rightarrow> 0 | Some q \<Rightarrow> q) + units_of (map iw_intent rows) (payload_events ps) k"
  using assms
proof (induction ps arbitrary: pos cash comm)
  case (Cons p ps)
  obtain po ca co where e: "replay_event rows p (pos, cash, comm) = Inr (po, ca, co)"
    and r: "replay rows ps (po, ca, co) = Inr (pos', cash', comm')"
    using Cons.prems by (cases "replay_event rows p (pos, cash, comm)") auto
  have "payload_events (p # ps) = payload_events [p] @ payload_events ps"
    by (simp add: payload_events_def)
  then show ?case using replay_event_worth [OF e] Cons.IH [OF r] by simp
qed simp

interpretation store_book: event_book "book_inv H" store_intents log_events "\<lambda>_. 0" cash_delta store_units
    for H
proof
  fix d and k
  assume "book_inv H d"
  then have r: "replay (intents d) (map ev_payload (order_events d)) (Map.empty, 0, 0) =
      Inr (positions d, cash_delta d, commissions d)"
    by (simp add: book_inv_def replay_inv_def rebuild_economic_projection_def)
  show "cash_delta d = 0 + cash_of (store_intents d) (log_events d)"
    "store_units d k = units_of (store_intents d) (log_events d) k"
    using replay_worth [OF r, of k] by (simp_all add: store_intents_def log_events_def store_units_def)
qed

interpretation both_books: two_books "book_inv H" store_intents log_events "\<lambda>_. 0" cash_delta store_units
    "broker_inv start" fb_intents fb_events "\<lambda>_. start" fb_cash held for H start
  ..

subsection \<open>What the broker's steps keep\<close>

definition grows :: "fake_broker \<Rightarrow> fake_broker \<Rightarrow> bool" where
  "grows b b' \<longleftrightarrow> set (fb_events b) \<subseteq> set (fb_events b') \<and> fb_intents b' = fb_intents b"

lemma grows_refl [simp]: "grows b b"
  by (simp add: grows_def)

lemma grows_trans: "grows a b \<Longrightarrow> grows b c \<Longrightarrow> grows a c"
  by (auto simp: grows_def)

lemma grows_tape [simp]: "grows b (tape H x y p at c) = grows b c"
  by (simp add: grows_def fb_intents_def)

lemma grows_fields [simp]:
  "grows b (c\<lparr>fb_positions := po\<rparr>) = grows b c" "grows b (c\<lparr>fb_cash := ca\<rparr>) = grows b c"
  "grows b (c\<lparr>fb_highest_token := t\<rparr>) = grows b c" "grows b (c\<lparr>fb_scenarios := ss\<rparr>) = grows b c"
  "grows b (c\<lparr>fb_next_sequence := n\<rparr>) = grows b c"
  by (simp_all add: grows_def fb_intents_def)

lemma grows_update [simp]:
  "(\<And>x. fo_intent (f x) = fo_intent x) \<Longrightarrow> grows b (update_order k f c) = grows b c"
  by (simp add: grows_def fb_intents_def map_update_where)

lemma grows_emit [simp]: "grows b c \<Longrightarrow> grows b (snd (emit H i bid ty at q p cm c))"
  by (auto simp: emit_def Let_def insert_row_def grows_def fb_intents_def)

lemma grows_fill [simp]: "grows b c \<Longrightarrow> grows b (snd (do_fill H i bid q p at c))"
  by (simp add: do_fill_def Let_def snd_and_then split: option.splits sum.splits)

lemma grows_token [simp]: "grows b c \<Longrightarrow> grows b (snd (accept_fencing_token t c))"
  by (simp add: accept_fencing_token_def)

lemma grows_scenario: "grows b c \<Longrightarrow> next_scenario c = (s, c') \<Longrightarrow> grows b c'"
  by (auto simp: next_scenario_def split: list.splits)

lemma grows_respond [simp]: "grows b c \<Longrightarrow> grows b (snd (respond H i bid sc at c))"
  by (simp add: respond_def Let_def snd_and_then split: sum.splits)

lemma grows_then:
  "grows b (snd m) \<Longrightarrow> (\<And>x c. grows b c \<Longrightarrow> grows b (snd (f x c))) \<Longrightarrow> grows b (snd (and_then m f))"
  by (simp add: snd_and_then split: sum.splits)

lemma grows_cancel_body: "grows b (snd (cancel_body H key t at fb b))"
  unfolding cancel_body_def
proof (rule grows_then)
  fix x c
  assume c: "grows b c"
  show "grows b (snd (case fb_order c key of None \<Rightarrow> (Inl (KeyError key), c)
       | Some row \<Rightarrow>
           (let i = fo_intent row; (scenario, b2) = next_scenario c in
            and_then (if fb > 0 \<and> fo_filled row < xi_quantity i
                      then and_then (do_fill H i (fo_broker_order_id row) fb (xi_limit_price i) at b2)
                             (\<lambda>e b'. (Inr [e], b'))
                      else (Inr [], b2)) (\<lambda>fills b3.
              case fb_order b3 key of
                None \<Rightarrow> (Inl (TypeError ''NoneType''), b3)
              | Some refreshed \<Rightarrow>
                  and_then (if fo_filled refreshed < xi_quantity i
                            then and_then (emit H i (fo_broker_order_id row) ET_CANCELLED at 0 None 0 b3)
                                   (\<lambda>e b'. (Inr [e], update_order key (\<lambda>x. x\<lparr>fo_status := ''CANCELLED''\<rparr>) b'))
                            else (Inr [], b3)) (\<lambda>cancels b4.
                    if scenario = FS_CANCEL_DROP_RESPONSE
                    then (Inl (BrokerSubmissionUnknown ''cancel accepted but response was dropped''), b4)
                    else (Inr (fills @ cancels), b4))))))"
  proof (cases "fb_order c key")
    case (Some row)
    obtain sc b2 where s: "next_scenario c = (sc, b2)" by fastforce
    have b2: "grows b b2" using grows_scenario [OF c s] .
    show ?thesis
      unfolding Some s Let_def option.case prod.case
      by (intro grows_then) (simp_all add: b2 snd_and_then split: option.splits sum.splits)
  qed (simp add: c)
qed simp

text \<open>A submission appends its intent, if anything, to the intents of the broker's orders.\<close>

definition grows_by :: "execution_intent \<Rightarrow> fake_broker \<Rightarrow> fake_broker \<Rightarrow> bool" where
  "grows_by i b b' \<longleftrightarrow> set (fb_events b) \<subseteq> set (fb_events b')
     \<and> (fb_intents b' = fb_intents b \<or> fb_intents b' = fb_intents b @ [i])"

lemma grows_by_submit: "grows_by i b (snd (submit H i t at b))"
proof -
  have plain: "grows_by i b c" if "grows b c" for c
    using that by (simp add: grows_def grows_by_def)
  have comp: "grows_by i b c" if "grows_by i b c0" "grows c0 c" for c0 c
    using that by (auto simp: grows_def grows_by_def)
  have add: "grows_by i b c" if "add_order pre i pr c0 = (r, c)" "grows b c0" for pre pr c0 r c
    using that by (auto simp: add_order_def Let_def insert_row_def grows_def grows_by_def fb_intents_def
        split: if_splits)
  have body: "grows_by i b (snd (submit_body H i t at b))"
  proof (cases "accept_fencing_token t b")
    case (Pair r b1)
    have b1: "grows b b1" using grows_token [of b b t] Pair by simp
    show ?thesis
    proof (cases "(\<exists>e. r = Inl e) \<or> fb_order b1 (xi_client_order_key i) \<noteq> None")
      case True
      then show ?thesis using Pair by (cases r) (auto simp: submit_body_def plain b1)
    next
      case False
      obtain sc b2 where s: "next_scenario b1 = (sc, b2)" by fastforce
      let ?add = "add_order ''fake-'' i (if sc = FS_MISSING_PROTECTION then 0 else xi_quantity i) b2"
      obtain q b3 where a: "?add = (q, b3)" by fastforce
      have b3: "grows_by i b b3" using add [OF a grows_scenario [OF b1 s]] .
      have "snd (submit_body H i t at b) = (case q of Inl _ \<Rightarrow> b3
          | Inr bid \<Rightarrow> snd (respond H i bid sc at (tape H ''IN'' ''SUBMIT'' (intent_json i) at b3)))"
        using False Pair s a by (cases r) (auto simp: submit_body_def snd_and_then split: sum.splits)
      then show ?thesis using b3 comp [OF b3] by (auto split: sum.splits)
    qed
  qed
  show ?thesis using submit_snd [of H i t at b] body plain [OF grows_refl] by auto
qed

lemma grows_cancel: "grows b (snd (cancel H key t at fb b))"
  using grows_cancel_body [of b H key t at fb]
  by (auto simp: cancel_def broker_transaction_def split: prod.splits sum.splits)

lemma grows_transaction: "grows b (snd (m b)) \<Longrightarrow> grows b (snd (transaction m b))"
  by (auto simp: transaction_def split: prod.splits sum.splits)

lemma grows_exec:
  assumes "\<And>i t at. op \<noteq> Bo_submit i t at" "\<And>i at. op \<noteq> Bo_inject i at"
  shows "grows b (exec_broker H op b)"
  using assms
proof (cases op)
  case (Bo_commission k a at)
  then show ?thesis
    by (simp add: commission_def grows_transaction snd_and_then split: option.splits sum.splits)
qed (auto simp: enqueue_scenarios_def advance_fence_def fill_def grows_cancel grows_transaction
  split: option.splits)

subsection \<open>The system\<close>

datatype world_op =
    W_store store_op
  | W_broker broker_op
  | W_dispatch execution_lease time
  | W_dispatch_cancel execution_lease time
  | W_deliver nat

fun exec_world :: "(json \<Rightarrow> string) \<Rightarrow> world_op \<Rightarrow> world \<Rightarrow> world" where
  "exec_world H (W_store op) (d, b) = (exec_op H op d, b)"
| "exec_world H (W_broker op) (d, b) = (d, exec_broker H op b)"
| "exec_world H (W_dispatch l at) w = snd (dispatch_once H l at w)"
| "exec_world H (W_dispatch_cancel l at) w = snd (dispatch_cancel_once H l at w)"
| "exec_world H (W_deliver n) (d, b) =
     (if n < length (fb_events b) then (intake H (fb_events b ! n) d, b) else (d, b))"

text \<open>The closed system: orders reach the broker by a dispatch only, so no \<open>submit\<close> by-passes the worker and no
  order is injected at the broker, and the events the store ingests are the broker's, by \<open>W_deliver\<close>; operations of the
  store have documents with valid amounts.\<close>

fun world_op_ok :: "world_op \<Rightarrow> bool" where
  "world_op_ok (W_store (Op_ingest e)) = False"
| "world_op_ok (W_store op) = op_ok op"
| "world_op_ok (W_broker (Bo_submit i t at)) = False"
| "world_op_ok (W_broker (Bo_inject i at)) = False"
| "world_op_ok _ = True"

definition linked :: "store \<Rightarrow> fake_broker \<Rightarrow> bool" where
  "linked d b \<longleftrightarrow>
     bx_event ` set (inbox d) \<subseteq> set (fb_events b) \<and> bx_event ` set (inbox d) \<subseteq> set (log_events d)
     \<and> set (fb_intents b) \<subseteq> set (store_intents d)"

definition world_inv :: "(json \<Rightarrow> string) \<Rightarrow> rat \<Rightarrow> world \<Rightarrow> bool" where
  "world_inv H start w \<longleftrightarrow>
     store_inv H (fst w) \<and> broker_inv start (snd w) \<and> linked (fst w) (snd w)"

lemma linked_store:
  assumes "linked d b" and "inbox d' = inbox d" and "set (log_events d) \<subseteq> set (log_events d')"
    and "set (store_intents d) \<subseteq> set (store_intents d')"
  shows "linked d' b"
  using assms by (auto simp: linked_def)

lemma linked_grows: "linked d b \<Longrightarrow> grows b b' \<Longrightarrow> linked d b'"
  by (auto simp: linked_def grows_def)

lemma linked_grows_by: "linked d b \<Longrightarrow> grows_by i b b' \<Longrightarrow> i \<in> set (store_intents d) \<Longrightarrow> linked d b'"
  by (auto simp: linked_def grows_by_def)

text \<open>A store operation other than an ingestion keeps inbox, log events and intents.\<close>

lemma store_op_link:
  assumes "\<And>e. op \<noteq> Op_ingest e"
  shows "inbox (exec_op H op d) = inbox d \<and> log_events (exec_op H op d) = log_events d
    \<and> set (store_intents d) \<subseteq> set (store_intents (exec_op H op d))"
proof (cases "\<exists>c r i fp. op = Op_stage c r i fp")
  case True
  then obtain c r i fp where op: "op = Op_stage c r i fp" by blast
  have st: "inbox (staged H r i caps d) = inbox d \<and> log_events (staged H r i caps d) = log_events d
      \<and> set (store_intents d) \<subseteq> set (store_intents (staged H r i caps d))" for caps
    by (auto simp: staged_def Let_def log_events_def store_intents_def map_update_where insert_or_ignore_def
        simp del: set_map)
  show ?thesis
    unfolding op by (rule exec_stage_cases [of H c r i fp d]) (use st in auto)
next
  case False
  then have sb: "same_book H d (exec_op H op d)" using assms by (intro same_book_exec) blast+
  then have "map iw_intent (intents (exec_op H op d)) = map iw_intent (intents d)"
    by (intro intent_book_maps(1)) (simp add: same_book_def)
  then show ?thesis
    using sb same_book_log_events [OF sb] by (simp add: same_book_def store_intents_def del: set_map)
qed

lemma linked_store_op: "linked d b \<Longrightarrow> (\<And>e. op \<noteq> Op_ingest e) \<Longrightarrow> linked (exec_op H op d) b"
  using linked_store [of d b "exec_op H op d"] store_op_link [of op H d] by simp

text \<open>Ingesting an event of the broker applies it or ignores it; it is never an orphan.\<close>

lemma ingest_linked:
  assumes d: "book_inv H d" and b: "broker_inv start b" and l: "linked d b" and e: "e \<in> set (fb_events b)"
    and i: "inj H" and ok: "ingest_broker_event H e d = (r, d')"
  shows "linked d' b \<and> is_ok r \<and> e \<in> set (log_events d') \<and> set (log_events d) \<subseteq> set (log_events d')"
proof -
  have ev: "event_ok b e" using b e by (simp add: broker_inv_defs list_all_iff)
  then have "be_client_order_key e \<in> xi_client_order_key ` set (fb_intents b)"
    by (simp add: event_ok_def fb_intents_def image_image)
  then have "be_client_order_key e \<in> iw_key ` set (intents d)"
    using l by (auto simp: linked_def store_intents_def)
  then obtain row where row: "List.find (\<lambda>r. iw_key r = be_client_order_key e) (intents d) = Some row"
    by (cases "List.find (\<lambda>r. iw_key r = be_client_order_key e) (intents d)") (auto simp: find_None_set)
  show ?thesis
  proof (cases "list_ex (\<lambda>x. be_id (bx_event x) = be_id e) (inbox d)")
    case True
    then obtain x where x: "x \<in> set (inbox d)" "be_id (bx_event x) = be_id e" by (auto simp: list_ex_iff)
    then have "bx_event x \<in> set (fb_events b)" using l by (auto simp: linked_def)
    then have "bx_event x = e"
      using b x(2) e by (auto simp: broker_inv_defs intro: same_key_same_row [of be_id])
    then have "e \<in> set (log_events d)" using l x(1) by (auto simp: linked_def)
    then show ?thesis using ok ingest_duplicate [OF True, of H] l by auto
  next
    case new: False
    have fills: "\<not> list_ex (\<lambda>f. be_id e = be_id (fr_event f)) (fill_events d)"
      using d new by (fastforce simp: book_inv_def log_inv_def list_ex_iff)
    have price: "is_fill_type (be_type e) \<Longrightarrow> be_fill_price e \<noteq> None" using ev by (simp add: event_ok_def)
    have body: "ingest_body H e d = (Inr True, applied H row e d)"
      using new row price fills
      by (cases "be_fill_price e")
        (auto simp: ingest_body_def apply_event_def applied_def update_economic_projections_def Let_def
          insert_row_def apply_to_intent_def update_reservation_def)
    then have d': "d' = applied H row e d" and r: "r = Inr True"
      using ok by (auto simp: ingest_broker_event_def transaction_def)
    have box: "bx_event ` set (inbox d') = insert e (bx_event ` set (inbox d))"
      using arg_cong [OF applied_parts(2) [of H row e d], of set] d' by simp
    have inv': "book_inv H d'"
      using book_inv_applied [OF d i event_ok_amounts [OF ev] new row] fills price d' by auto
    have "PL_broker e \<in> ev_payload ` set (order_events d') \<and> ev_payload ` set (order_events d) \<subseteq> ev_payload ` set (order_events d')"
    proof -
      have "\<not> list_ex (\<lambda>x. canonical_hash H (order_event_json (iw_id row) (broker_event_type_value (be_type e)) (PL_broker e)) = ev_id x)
          (order_events d)"
        using d new broker_entry_inj [OF _ i]
        by (fastforce simp: book_inv_def log_inv_def entry_ok_def list_all_iff list_ex_iff)
      then show ?thesis
        by (auto simp: d' applied_parts append_order_event_def insert_or_ignore_def)
    qed
    then have log: "e \<in> set (log_events d')" "set (log_events d) \<subseteq> set (log_events d')"
      unfolding log_events_def subset_iff set_payload_events set_map by blast+
    have "map iw_intent (intents d') = map iw_intent (intents d)"
      by (simp add: d' applied_parts apply_to_intent_def map_update_where)
    then show ?thesis
      using l box log e r by (auto simp: linked_def store_intents_def simp del: set_map)
  qed
qed

lemma ingest_all_linked:
  assumes "inj H" and "broker_inv start b" and "set es \<subseteq> set (fb_events b)"
    and "store_inv H d" and "linked d b" and "ingest_all H es d = (r, d')"
  shows "store_inv H d' \<and> linked d' b \<and> is_ok r \<and> set es \<union> set (log_events d) \<subseteq> set (log_events d')"
  using assms(3-6)
proof (induction es arbitrary: d)
  case (Cons e es)
  obtain r1 d1 where e: "ingest_broker_event H e d = (r1, d1)" by fastforce
  have amounts: "event_amounts_ok e" using broker_events_ok [OF assms(2), of e] Cons.prems(1) by simp
  have d1: "store_inv H d1"
    using store_inv_exec [OF Cons.prems(2) assms(1), of "Op_ingest e"] amounts e by simp
  have l1: "linked d1 b \<and> is_ok r1 \<and> e \<in> set (log_events d1) \<and> set (log_events d) \<subseteq> set (log_events d1)"
    using ingest_linked [OF _ assms(2) Cons.prems(3) _ assms(1) e] Cons.prems(1,2) by (simp add: store_inv_def)
  then obtain u where r1: "r1 = Inr u" by (cases r1) auto
  have rest: "ingest_all H es d1 = (r, d')" using Cons.prems(4) e r1 by simp
  have "set es \<subseteq> set (fb_events b)" using Cons.prems(1) by simp
  from Cons.IH [OF this d1 conjunct1 [OF l1] rest] show ?case using l1 by auto
qed auto

subsection \<open>Every step keeps the system consistent\<close>

lemma world_inv_new: "world_inv H start (empty_store, new_broker start)"
  by (simp add: world_inv_def store_inv_empty broker_inv_new linked_def)
    (simp add: empty_store_def new_broker_def fb_intents_def)

lemma world_inv_store_op:
  assumes "world_inv H start (d, b)" and "inj H" and "op_ok op" and "\<And>e. op \<noteq> Op_ingest e"
  shows "world_inv H start (exec_op H op d, b)"
  using assms store_inv_exec linked_store_op by (simp add: world_inv_def)

lemma claimed_intent:
  assumes inv: "store_inv H d" and c: "claim_next H l at d = (Inr (Some (cmd, i)), d')"
  shows "i \<in> set (store_intents d) \<and> intent_amounts_ok i"
proof -
  have "authority_inv d" using inv by (simp add: store_inv_def core_inv_def)
  from c this obtain row where row: "row \<in> set (intents d)" "i = iw_intent row"
    by (rule claim_next_SomeD)
  then show ?thesis
    using inv by (auto simp: store_inv_def book_inv_def intents_inv_def store_intents_def)
qed

text \<open>Both halves of a dispatch, for a submission and for a cancel, have the same shape.\<close>

lemma finish_inv:
  assumes inv: "world_inv H start (d, b)" and H: "inj H"
    and b': "broker_inv start b'" "linked d b'"
    and es: "\<And>es. answer = (Inr es, b') \<Longrightarrow> set es \<subseteq> set (fb_events b')" and snd: "snd answer = b'"
  shows "world_inv H start (snd (finish_submit H c at answer d))"
    and "world_inv H start (snd (finish_cancel H c at answer d))"
proof -
  have w: "world_inv H start (d, b')" using inv b' by (simp add: world_inv_def)
  have st: "world_inv H start (exec_op H op d', b')"
    if "world_inv H start (d', b')" "op_ok op" "\<And>e. op \<noteq> Op_ingest e" for op d'
    using world_inv_store_op [OF that(1) H that(2,3)] .
  have unknown: "mark_submission_unknown H c at m d = (q, d2) \<Longrightarrow> world_inv H start (d2, b')"
    "mark_cancel_unknown H c at m d = (q, d2) \<Longrightarrow> world_inv H start (d2, b')" for m q d2
    using st [OF w, of "Op_submission_unknown c at m"] st [OF w, of "Op_cancel_unknown c at m"] by simp_all
  have ing: "world_inv H start (d2, b')" if "answer = (Inr es, b')" "ingest_all H es d = (q, d2)" for es q d2
    using ingest_all_linked [OF H b'(1) es [OF that(1)] _ b'(2) that(2)] inv b' by (simp add: world_inv_def)
  have marked: "world_inv H start (mark_delivered c at d2, b')" "world_inv H start (mark_cancel_delivered c at d2, b')"
    if "answer = (Inr es, b')" "ingest_all H es d = (q, d2)" for es q d2
    using st [OF ing [OF that], of "Op_delivered c at"] st [OF ing [OF that], of "Op_cancel_delivered c at"]
    by simp_all
  obtain r where a: "answer = (r, b')" using snd by (cases answer) simp
  show "world_inv H start (snd (finish_submit H c at answer d))"
  proof (cases r)
    case (Inl e)
    then show ?thesis
      using a w by (cases e) (auto simp: finish_submit_def dest: unknown(1) split: prod.splits sum.splits)
  next
    case (Inr es)
    then show ?thesis
      using a ing [of es] marked(1) [of es]
      by (cases "ingest_all H es d") (auto simp: finish_submit_def split: sum.splits)
  qed
  show "world_inv H start (snd (finish_cancel H c at answer d))"
  proof (cases r)
    case (Inl e)
    then show ?thesis
      using a w by (cases e) (auto simp: finish_cancel_def dest: unknown(2) split: prod.splits sum.splits)
  next
    case (Inr es)
    then show ?thesis
      using a ing [of es] marked(2) [of es]
      by (cases "ingest_all H es d") (auto simp: finish_cancel_def split: sum.splits)
  qed
qed

lemma world_inv_heartbeat:
  "world_inv H start (d, b) \<Longrightarrow> inj H \<Longrightarrow> world_inv H start (worker_heartbeat l at d, b)"
  using world_inv_store_op [of H start d b "Op_heartbeat ''execution-worker'' ''OK'' at
      (JObj [(''fencing_token'', JInt (ls_token l))])"] by (simp add: worker_heartbeat_def)

lemma world_inv_dispatch:
  assumes inv: "world_inv H start (d, b)" and H: "inj H"
  shows "world_inv H start (snd (dispatch_once H l at (d, b)))"
proof -
  let ?d = "worker_heartbeat l at d"
  have w0: "world_inv H start (?d, b)" using world_inv_heartbeat [OF inv H] .
  obtain r d1 where c: "claim_next H l at ?d = (r, d1)" by fastforce
  have w1: "world_inv H start (d1, b)"
    using world_inv_store_op [OF w0 H, of "Op_claim_next l at"] c by simp
  show ?thesis
  proof (cases "\<exists>cmd i. r = Inr (Some (cmd, i))")
    case True
    then obtain cmd i where r: "r = Inr (Some (cmd, i))" by blast
    have i: "i \<in> set (store_intents ?d) \<and> intent_amounts_ok i"
      using claimed_intent [of H ?d l at cmd i d1] c r w0 by (simp add: world_inv_def)
    have i1: "i \<in> set (store_intents d1)"
      using store_op_link [of "Op_claim_next l at" H ?d] c i by auto
    let ?ans = "submit H i (ls_token l) at b"
    have b': "broker_inv start (snd ?ans)"
      using broker_inv_submit [of start b i H "ls_token l" at "fst ?ans" "snd ?ans"] i w0
      by (simp add: world_inv_def)
    have l': "linked d1 (snd ?ans)"
      using linked_grows_by [OF _ grows_by_submit i1] w1 by (simp add: world_inv_def)
    have es: "set es \<subseteq> set (fb_events (snd ?ans))" if "?ans = (Inr es, snd ?ans)" for es
      using submit_events [OF that] by simp
    have fin: "world_inv H start (snd (finish_submit H (oc_id cmd) at ?ans d1))"
      by (rule finish_inv(1) [OF w1 H b' l' es]) simp_all
    show ?thesis using c r fin w1 by (simp add: dispatch_once_def split: sum.splits)
  next
    case False
    then show ?thesis
      using c w1 by (auto simp: dispatch_once_def split: sum.splits option.splits prod.splits)
  qed
qed

lemma cancel_events:
  assumes "cancel H key t at fb b = (Inr es, b')"
  shows "set es \<subseteq> set (fb_events b')"
proof -
  have body: "cancel_body H key t at fb b = (Inr es, b')"
    using assms by (auto simp: cancel_def broker_transaction_def split: prod.splits sum.splits)
  have fl: "e \<in> set (fb_events b2)" if "do_fill H i bid q p at b1 = (Inr e, b2)" for i bid q p e b1 b2
    using that by (auto simp: do_fill_def Let_def and_then_Inr_iff dest!: emit_Inr split: option.splits if_splits)
  obtain b1 where t: "accept_fencing_token t b = (Inr (), b1)"
    using body by (auto simp: cancel_body_def and_then_Inr_iff)
  obtain row where row: "fb_order b1 key = Some row"
    using body t by (cases "fb_order b1 key") (auto simp: cancel_body_def)
  obtain sc b2 where s: "next_scenario b1 = (sc, b2)" by fastforce
  let ?i = "fo_intent row"
  let ?emit = "emit H ?i (fo_broker_order_id row) ET_CANCELLED at 0 None 0"
  let ?F = "if fb > 0 \<and> fo_filled row < xi_quantity ?i
      then and_then (do_fill H ?i (fo_broker_order_id row) fb (xi_limit_price ?i) at b2) (\<lambda>e b'. (Inr [e], b'))
      else (Inr [], b2)"
  let ?C = "\<lambda>refreshed b3. if fo_filled refreshed < xi_quantity ?i
      then and_then (?emit b3) (\<lambda>e b'. (Inr [e], update_order key (\<lambda>x. x\<lparr>fo_status := ''CANCELLED''\<rparr>) b'))
      else (Inr [], b3)"
  let ?K = "\<lambda>fills cans b4. if sc = FS_CANCEL_DROP_RESPONSE
      then (Inl (BrokerSubmissionUnknown ''cancel accepted but response was dropped''), b4)
      else (Inr (fills @ cans), b4)"
  have "and_then ?F (\<lambda>fills b3. case fb_order b3 key of None \<Rightarrow> (Inl (TypeError ''NoneType''), b3)
      | Some refreshed \<Rightarrow> and_then (?C refreshed b3) (?K fills)) = (Inr es, b')"
    using body t row s by (simp add: cancel_body_def Let_def)
  then obtain fills b3 where f: "?F = (Inr fills, b3)"
    and rest: "(case fb_order b3 key of None \<Rightarrow> (Inl (TypeError ''NoneType''), b3)
      | Some refreshed \<Rightarrow> and_then (?C refreshed b3) (?K fills)) = (Inr es, b')"
    unfolding and_then_Inr_iff [of ?F] by blast
  obtain refreshed where rf: "fb_order b3 key = Some refreshed" using rest by (cases "fb_order b3 key") simp_all
  have "and_then (?C refreshed b3) (?K fills) = (Inr es, b')" using rest unfolding rf option.case .
  then obtain cans b4 where c: "?C refreshed b3 = (Inr cans, b4)" and k: "?K fills cans b4 = (Inr es, b')"
    unfolding and_then_Inr_iff [of "?C refreshed b3"] by blast
  have r: "es = fills @ cans" "b' = b4" using k by (simp_all split: if_splits)
  have "set fills \<subseteq> set (fb_events b3)" using f by (auto simp: and_then_Inr_iff dest: fl split: if_splits)
  moreover have "set cans \<union> set (fb_events b3) \<subseteq> set (fb_events b4)"
    using c by (auto simp: and_then_Inr_iff dest!: emit_Inr split: if_splits)
  ultimately show ?thesis using r by auto
qed

lemma world_inv_dispatch_cancel:
  assumes inv: "world_inv H start (d, b)" and H: "inj H"
  shows "world_inv H start (snd (dispatch_cancel_once H l at (d, b)))"
proof -
  let ?d = "worker_heartbeat l at d"
  have w0: "world_inv H start (?d, b)" using world_inv_heartbeat [OF inv H] .
  obtain r d1 where c: "claim_next_cancel l at ?d = (r, d1)" by fastforce
  have w1: "world_inv H start (d1, b)"
    using world_inv_store_op [OF w0 H, of "Op_claim_cancel l at"] c by simp
  show ?thesis
  proof (cases "\<exists>cmd i. r = Inr (Some (cmd, i))")
    case True
    then obtain cmd i where r: "r = Inr (Some (cmd, i))" by blast
    let ?ans = "cancel H (xi_client_order_key i) (ls_token l) at 0 b"
    have b': "broker_inv start (snd ?ans)"
      using broker_inv_cancel [of start b H "xi_client_order_key i" "ls_token l" at 0 "fst ?ans" "snd ?ans"] w0
      by (simp add: world_inv_def)
    have l': "linked d1 (snd ?ans)"
      using linked_grows [OF _ grows_cancel] w1 by (simp add: world_inv_def)
    have es: "set es \<subseteq> set (fb_events (snd ?ans))" if "?ans = (Inr es, snd ?ans)" for es
      using cancel_events [OF that] .
    have fin: "world_inv H start (snd (finish_cancel H cmd at ?ans d1))"
      by (rule finish_inv(2) [OF w1 H b' l' es]) simp_all
    show ?thesis using c r fin w1 by (simp add: dispatch_cancel_once_def split: sum.splits)
  next
    case False
    then show ?thesis
      using c w1 by (auto simp: dispatch_cancel_once_def split: sum.splits option.splits prod.splits)
  qed
qed

lemma world_inv_deliver:
  assumes inv: "world_inv H start (d, b)" and H: "inj H"
  shows "world_inv H start (exec_world H (W_deliver n) (d, b))"
proof (cases "n < length (fb_events b)")
  case True
  obtain r d' where e: "ingest_all H [fb_events b ! n] d = (r, d')" by fastforce
  then have "d' = intake H (fb_events b ! n) d"
    by (cases "ingest_broker_event H (fb_events b ! n) d"; cases "fst (ingest_broker_event H (fb_events b ! n) d)")
      (auto simp: intake_def)
  then show ?thesis
    using ingest_all_linked [OF H _ _ _ _ e, of start b] inv True by (simp add: world_inv_def)
qed (use inv in simp)

lemma world_inv_exec:
  assumes inv: "world_inv H start w" and H: "inj H" and ok: "world_op_ok op"
  shows "world_inv H start (exec_world H op w)"
proof (cases w)
  case (Pair d b)
  show ?thesis
  proof (cases op)
    case (W_store sop)
    then have "op_ok sop" "\<And>e. sop \<noteq> Op_ingest e" using ok by (cases sop; simp)+
    then show ?thesis using world_inv_store_op inv H Pair W_store by simp
  next
    case (W_broker bop)
    then have b: "broker_op_ok bop" "\<And>i t at. bop \<noteq> Bo_submit i t at" "\<And>i at. bop \<noteq> Bo_inject i at"
      using ok by (cases bop; simp)+
    then show ?thesis
      using inv Pair W_broker broker_inv_exec [OF _ b(1)] linked_grows [OF _ grows_exec [OF b(2,3)]]
      by (simp add: world_inv_def)
  next
    case (W_dispatch l at)
    then show ?thesis using world_inv_dispatch inv H Pair by simp
  next
    case (W_dispatch_cancel l at)
    then show ?thesis using world_inv_dispatch_cancel inv H Pair by simp
  next
    case (W_deliver n)
    then show ?thesis using world_inv_deliver inv H Pair by simp
  qed
qed

text \<open>The whole system under the digest contract.\<close>

sublocale content_digest \<subseteq> world_machine: invariant_system
    "\<lambda>w. w = (empty_store, new_broker start)" "exec_world H" "\<lambda>op w. world_op_ok op" "world_inv H start" for start
  by unfold_locales (auto intro: world_inv_new world_inv_exec separates)

definition run_world :: "(json \<Rightarrow> string) \<Rightarrow> world_op list \<Rightarrow> world \<Rightarrow> world" where
  "run_world H ops w = fold (exec_world H) ops w"

context content_digest
begin

lemma world_allowed: "world_machine.allowed_run ops w \<longleftrightarrow> list_all world_op_ok ops"
  by (induction ops arbitrary: w) auto

lemma world_run_inv:
  "list_all world_op_ok ops \<Longrightarrow> world_inv H start (run_world H ops (empty_store, new_broker start))"
  using world_machine.run_inv [OF world_inv_new, of ops start] by (simp add: run_world_def world_allowed)

end

lemma run_world_inv:
  "inj H \<Longrightarrow> list_all world_op_ok ops \<Longrightarrow> world_inv H start (run_world H ops (empty_store, new_broker start))"
  by (rule content_digest.world_run_inv) unfold_locales

subsection \<open>Convergence\<close>

lemma books_agree:
  assumes inv: "world_inv H start (d, b)" and all: "set (fb_events b) \<subseteq> set (log_events d)"
  shows "store_units d k = held b k \<and> cash_delta d = fb_cash b - start"
proof -
  have d: "book_inv H d" and b: "broker_inv start b" and l: "linked d b"
    using inv by (auto simp: world_inv_def store_inv_def)
  have "set (log_events d) = set (fb_events b)"
    using all l log_event_entry [of H d] d by (auto simp: linked_def book_inv_def)
  moreover have "distinct (log_events d)" using d by (simp add: book_inv_def log_inv_def)
  moreover have "distinct (fb_events b)" using b by (auto simp: broker_inv_defs distinct_map)
  ultimately have m: "mset (log_events d) = mset (fb_events b)" by (simp add: set_eq_iff_mset_eq_distinct)
  have "lookup_intent (store_intents d) (be_client_order_key e) = lookup_intent (fb_intents b) (be_client_order_key e)"
    if e: "e \<in> set (log_events d)" for e
  proof -
    have "event_ok b e" using b e mset_eq_setD [OF m] by (auto simp: broker_inv_defs list_all_iff)
    then have "be_client_order_key e \<in> xi_client_order_key ` set (fb_intents b)"
      by (simp add: event_ok_def fb_intents_def image_image)
    then obtain i where i: "i \<in> set (fb_intents b)" "xi_client_order_key i = be_client_order_key e" by auto
    have "distinct (map xi_client_order_key (fb_intents b))" "distinct (map xi_client_order_key (store_intents d))"
      using b d by (simp_all add: broker_inv_defs fb_intents_def book_inv_def intents_inv_def store_intents_def comp_def)
    then show ?thesis
      using lookup_intent_unique [of _ i] i l by (auto simp: linked_def)
  qed
  from both_books.agree [OF d b m this, of k] show ?thesis by simp
qed

definition deliver_all :: "(json \<Rightarrow> string) \<Rightarrow> world \<Rightarrow> world" where
  "deliver_all H w = (snd (ingest_all H (fb_events (snd w)) (fst w)), snd w)"

lemma deliver_all_agree:
  assumes "world_inv H start (d, b)" and "inj H"
  shows "is_ok (fst (ingest_all H (fb_events b) d)) \<and>
    (let d' = fst (deliver_all H (d, b)) in
       world_inv H start (d', b) \<and> store_units d' k = held b k \<and> cash_delta d' = fb_cash b - start)"
proof -
  obtain r d' where e: "ingest_all H (fb_events b) d = (r, d')" by fastforce
  have "store_inv H d' \<and> linked d' b \<and> is_ok r \<and> set (fb_events b) \<union> set (log_events d) \<subseteq> set (log_events d')"
    using ingest_all_linked [OF assms(2) _ _ _ _ e, of start b] assms(1) by (simp add: world_inv_def)
  then show ?thesis
    using books_agree [of H start d' b k] assms(1) e by (auto simp: deliver_all_def world_inv_def Let_def)
qed

end
