(* ===== verification/Ctl_Properties.thy ===== *)
theory Ctl_Properties
  imports Ctl_Traces Samples World
begin

section \<open>Properties of the control store\<close>

text \<open>
  What the durable execution store promises, stated over arbitrary runs of its operations from a
  fresh database, and for each operation over its result.
\<close>

abbreviation reached :: "(json \<Rightarrow> string) \<Rightarrow> store_op list \<Rightarrow> store" where
  "reached H ops \<equiv> run_ops H ops empty_store"

lemma reached_inv: "inj H \<Longrightarrow> list_all op_ok ops \<Longrightarrow> store_inv H (reached H ops)"
  by (simp add: run_ops_inv store_inv_empty)

lemma reached_frozen:
  assumes "inj H" and "list_all op_ok ops" and "t \<in> set (tickets (reached H ops))" and "is_blocking t"
  shows "cs_frozen (control (reached H ops))" and "active_freeze_reasons (reached H ops) \<noteq> []"
    and "filter is_blocking (tickets (reached H ops)) \<noteq> []"
proof -
  have b: "list_ex is_blocking (tickets (reached H ops))" using assms(3,4) by (auto simp: list_ex_iff)
  then show "cs_frozen (control (reached H ops))"
    using reached_inv [OF assms(1,2)] by (simp add: store_inv_def core_inv_def freeze_inv_def)
  show "active_freeze_reasons (reached H ops) \<noteq> []" using b by simp
  show "filter is_blocking (tickets (reached H ops)) \<noteq> []" using b by (auto simp: list_ex_iff filter_empty_conv)
qed

subsection \<open>Freezing\<close>

text \<open>C18: however the store was reached, while a blocking freeze ticket is open no new risk enters
  and no command leaves: \<open>stage\<close>, \<open>approve\<close>, \<open>arm_approved_intent\<close> and \<open>claim_next\<close> all raise and
  leave the store unchanged.\<close>

theorem frozen_store_refuses:
  assumes "inj H" and "list_all op_ok ops" and "t \<in> set (tickets (reached H ops))" and "is_blocking t"
  shows "\<not> is_ok (fst (stage H c r i fp (reached H ops))) \<and> snd (stage H c r i fp (reached H ops)) = reached H ops
    \<and> \<not> is_ok (fst (approve H x actor at (reached H ops))) \<and> snd (approve H x actor at (reached H ops)) = reached H ops
    \<and> \<not> is_ok (fst (arm_approved_intent H q (reached H ops)))
    \<and> snd (arm_approved_intent H q (reached H ops)) = reached H ops
    \<and> \<not> is_ok (fst (claim_next H l at (reached H ops))) \<and> snd (claim_next H l at (reached H ops)) = reached H ops"
proof -
  note f = reached_frozen [OF assms]
  have "\<exists>e. stage H c r i fp (reached H ops) = (Inl e, reached H ops)"
    using f(3) by (auto simp: stage_def stage_body_def transaction_def Let_def split: option.splits)
  moreover have "\<exists>e. approve H x actor at (reached H ops) = (Inl e, reached H ops)"
    using f(2) unfolding approve_def Let_def by auto
  moreover have "\<exists>e. arm_approved_intent H q (reached H ops) = (Inl e, reached H ops)"
    using f(2) unfolding arm_approved_intent_def Let_def by auto
  moreover have "\<exists>e. claim_next H l at (reached H ops) = (Inl e, reached H ops)"
    using f(1) unfolding claim_next_def by auto
  ultimately show ?thesis by (metis fst_conv snd_conv is_ok_simps(2))
qed

theorem frozen_store_refuses_witness:
  "\<not> is_ok (fst (claim_next unary_digest sample_lease 30 (reached unary_digest [])))"
  using frozen_store_refuses [OF inj_unary_digest, of "[]" startup_ticket sample_capsule sample_reservation
      sample_intent None "''i1''" "''op''" 30 undefined sample_lease]
  by (simp add: run_ops_def empty_store_def startup_ticket_def is_blocking_def)

subsection \<open>Claims\<close>

lemma claim_outbox:
  assumes "inj H" and "list_all op_ok ops"
    and "claim_next H l at (reached H ops) = (Inr (Some (cmd, intent)), d')"
  shows "oc_id cmd \<in> ow_id ` set (outbox d')"
    and "\<And>ob. ob \<in> set (outbox d') \<Longrightarrow> ow_id ob = oc_id cmd \<Longrightarrow>
           ow_status ob = OB_CLAIMED \<and> ow_token ob = Some (ls_token l)"
    and "\<And>ob. ob \<in> set (outbox d') \<Longrightarrow> ow_id ob = oc_id cmd \<Longrightarrow> ow_key ob = oc_client_order_key cmd"
proof -
  let ?d = "reached H ops"
  have "store_inv H ?d" using assms(1,2) by (rule reached_inv)
  then have auth: "authority_inv ?d" and ids: "distinct (map ow_id (outbox ?d))"
    by (simp_all add: store_inv_def core_inv_def tables_inv_def)
  obtain ob i arm where c: "ob \<in> set (outbox ?d)" "ow_status ob = OB_PENDING" "ow_id ob = oc_id cmd"
    "d' = take_claim l ob i arm at ?d" "oc_client_order_key cmd = ow_key ob"
    using assms(3) auth by (rule claim_next_SomeD)
  have out: "outbox d' = update_where (\<lambda>x. ow_id x = ow_id ob \<and> ow_status x = OB_PENDING)
      (\<lambda>x. x\<lparr>ow_status := OB_CLAIMED, ow_token := Some (ls_token l), ow_claimed_at := Some at\<rparr>) (outbox ?d)"
    by (simp add: c(4) take_claim_def Let_def split: option.splits)
  have "map ow_id (outbox d') = map ow_id (outbox ?d)" unfolding out by (simp add: map_update_where)
  then have "set (map ow_id (outbox d')) = set (map ow_id (outbox ?d))" by (rule arg_cong)
  then show "oc_id cmd \<in> ow_id ` set (outbox d')" using imageI [OF c(1), of ow_id] c(3) by simp
  have "ow_status x = OB_CLAIMED \<and> ow_token x = Some (ls_token l) \<and> ow_key x = oc_client_order_key cmd"
    if x: "x \<in> set (outbox d')" "ow_id x = oc_id cmd" for x
  proof -
    obtain y where y: "y \<in> set (outbox ?d)" "x = (if ow_id y = ow_id ob \<and> ow_status y = OB_PENDING
        then y\<lparr>ow_status := OB_CLAIMED, ow_token := Some (ls_token l), ow_claimed_at := Some at\<rparr> else y)"
      using x(1) unfolding out set_update_where by blast
    then have "ow_id y = ow_id ob" using x(2) c(3) by (auto split: if_splits)
    then have "y = ob" using same_key_same_row [OF ids y(1) c(1)] by simp
    then show ?thesis using y c(2,5) by simp
  qed
  then show "\<And>ob. ob \<in> set (outbox d') \<Longrightarrow> ow_id ob = oc_id cmd \<Longrightarrow>
      ow_status ob = OB_CLAIMED \<and> ow_token ob = Some (ls_token l)"
    "\<And>ob. ob \<in> set (outbox d') \<Longrightarrow> ow_id ob = oc_id cmd \<Longrightarrow> ow_key ob = oc_client_order_key cmd" by simp_all
qed

lemma claim_pending:
  assumes "claim_next H l at d = (Inr (Some (cmd, intent)), d')"
  shows "\<exists>ob \<in> set (outbox d). ow_status ob = OB_PENDING \<and> ow_id ob = oc_id cmd \<and> ow_intent_id ob = xi_id intent"
proof -
  obtain ob i r where c: "claim_candidate d = Some (ob, i, r)" "oc_id cmd = ow_id ob" "intent = iw_intent i"
    using assms by (auto simp: claim_next_def and_then_Inr_iff split: if_splits option.splits prod.splits)
  then show ?thesis using claim_candidate_SomeD [OF c(1)] by metis
qed

text \<open>C2: a command is handed to a writer only under a current lease and an unfrozen store, only from
  \<open>PENDING\<close>, before its reservation expires and, where the intent was approved by an operator, only
  under an unexpired arm whose authority is the newest and whose quote is still admissible; afterwards
  the command is \<open>CLAIMED\<close> with the writer's fencing token.\<close>

theorem claim_is_authorised:
  assumes "inj H" and "list_all op_ok ops"
    and "claim_next H l at (reached H ops) = (Inr (Some (cmd, intent)), d')"
  shows "lease_current (reached H ops) l at \<and> \<not> list_ex is_blocking (tickets (reached H ops))
    \<and> (\<exists>ob \<in> set (outbox (reached H ops)). ow_id ob = oc_id cmd \<and> ow_status ob = OB_PENDING)
    \<and> (\<exists>i \<in> set (intents (reached H ops)). \<exists>r \<in> set (reservations (reached H ops)).
         iw_intent i = intent \<and> rw_id r = iw_reservation_id i \<and> at < rsv_expires_at (rw_reservation r)
         \<and> (list_ex (\<lambda>a. aw_intent_id a = iw_id i) (approvals (reached H ops))
              \<longrightarrow> (\<exists>a. arm_admits (reached H ops) i a at)))
    \<and> (\<forall>ob \<in> set (outbox d'). ow_id ob = oc_id cmd \<longrightarrow>
         ow_status ob = OB_CLAIMED \<and> ow_token ob = Some (ls_token l))"
proof -
  let ?d = "reached H ops"
  have inv: "store_inv H ?d" using assms(1,2) by (rule reached_inv)
  then have auth: "authority_inv ?d" and fr: "freeze_inv ?d" by (simp_all add: store_inv_def core_inv_def)
  obtain ob i r arm where c: "\<not> cs_frozen (control ?d)" "lease_current ?d l at" "ob \<in> set (outbox ?d)"
    "ow_status ob = OB_PENDING" "ow_id ob = oc_id cmd" "i \<in> set (intents ?d)" "intent = iw_intent i"
    "r \<in> set (reservations ?d)" "rw_id r = iw_reservation_id i" "at < rsv_expires_at (rw_reservation r)"
    "case arm of None \<Rightarrow> \<not> list_ex (\<lambda>a. aw_intent_id a = iw_id i) (approvals ?d) | Some a \<Rightarrow> arm_admits ?d i a at"
    "d' = take_claim l ob i arm at ?d"
    using assms(3) auth by (rule claim_next_SomeD)
  have arms: "list_ex (\<lambda>a. aw_intent_id a = iw_id i) (approvals ?d) \<longrightarrow> (\<exists>a. arm_admits ?d i a at)"
    using c(11) by (cases arm) auto
  have "\<forall>x \<in> set (outbox d'). ow_id x = oc_id cmd \<longrightarrow> ow_status x = OB_CLAIMED \<and> ow_token x = Some (ls_token l)"
    using claim_outbox(2) [OF assms] by blast
  moreover have "\<not> list_ex is_blocking (tickets ?d)" using fr c(1) by (auto simp: freeze_inv_def)
  ultimately show ?thesis using c arms by blast
qed

theorem claim_is_authorised_witness:
  "\<exists>cmd d'. claim_next unary_digest sample_lease 30 (reached unary_digest sample_ops) = (Inr (Some (cmd, sample_intent)), d')
     \<and> (\<forall>ob \<in> set (outbox d'). ow_id ob = oc_id cmd \<longrightarrow> ow_status ob = OB_CLAIMED \<and> ow_token ob = Some 1)"
proof -
  note c = sample_claim [of unary_digest, unfolded sample_store_def]
  show ?thesis
    using claim_is_authorised [OF inj_unary_digest sample_ops_ok c] c by (simp add: sample_lease_def)
qed

text \<open>C3: a command is handed out at most once: after a claim, no sequence of operations leads to a second
  claim of the same command unless one of them is a reconciliation's requeue of that command's own client
  order key. Requeues of other keys are allowed.\<close>

theorem command_claimed_once:
  assumes "inj H" and "list_all op_ok ops"
    and "claim_next H l at (reached H ops) = (Inr (Some (cmd, intent)), d')"
    and "\<forall>op \<in> set later. \<not> requeues (oc_client_order_key cmd) op"
  shows "(\<forall>ob \<in> set (outbox (run_ops H later d')). ow_id ob = oc_id cmd \<longrightarrow> ow_status ob \<noteq> OB_PENDING)
    \<and> (\<forall>cmd' intent' d''. claim_next H l' at' (run_ops H later d') = (Inr (Some (cmd', intent')), d'')
         \<longrightarrow> oc_id cmd' \<noteq> oc_id cmd)"
proof -
  have "settled (oc_id cmd) (oc_client_order_key cmd) (outbox d')"
    unfolding settled_def using claim_outbox [OF assms(1-3)] by fastforce
  then have "settled (oc_id cmd) (oc_client_order_key cmd) (outbox (run_ops H later d'))"
    using assms(4) by (rule settled_run)
  then have unp: "ow_status ob \<noteq> OB_PENDING" if "ob \<in> set (outbox (run_ops H later d'))" "ow_id ob = oc_id cmd" for ob
    using that by (simp add: settled_def)
  have "oc_id cmd' \<noteq> oc_id cmd"
    if "claim_next H l' at' (run_ops H later d') = (Inr (Some (cmd', intent')), d'')" for cmd' intent' d''
    using claim_pending [OF that] unp by fastforce
  then show ?thesis using unp by blast
qed

theorem command_claimed_once_witness:
  "\<exists>cmd d'. claim_next unary_digest sample_lease 30 (reached unary_digest sample_ops) = (Inr (Some (cmd, sample_intent)), d')
     \<and> oc_client_order_key cmd = ''k1''
     \<and> (\<forall>ob \<in> set (outbox (run_ops unary_digest [Op_recover 40, Op_requeue_unknown ''k2'' 50 60] d')).
          ow_id ob = oc_id cmd \<longrightarrow> ow_status ob \<noteq> OB_PENDING)"
proof -
  note c = sample_claim [of unary_digest, unfolded sample_store_def]
  have "oc_client_order_key (outbox_command_of unary_digest sample_intent) = ''k1''"
    by (simp add: outbox_command_of_def sample_intent_def)
  then show ?thesis
    using command_claimed_once [OF inj_unary_digest sample_ops_ok c, of "[Op_recover 40, Op_requeue_unknown ''k2'' 50 60]"
        sample_lease 50] c
    by (simp add: requeues_def)
qed

text \<open>C19: a newer lease fences out every older one for ever: whatever the store does afterwards, a
  lease whose token is below the acquired one can neither claim a submit or cancel command nor pass
  validation.\<close>

theorem overtaken_lease_is_fenced:
  assumes "acquire_lease name owner at ttl d = (Inr l, d')" and "ls_name old = name" and "ls_token old < ls_token l"
  shows "(\<exists>e. claim_next H old t (run_ops H ops d') = (Inl e, run_ops H ops d'))
    \<and> (\<exists>e. claim_next_cancel old t (run_ops H ops d') = (Inl e, run_ops H ops d'))
    \<and> (\<exists>e. validate_lease old t (run_ops H ops d') = Inl e)"
proof -
  have "token_of d' name = ls_token l"
    using acquire_lease_token [OF assms(1)] by (simp add: token_of_def)
  then have "ls_token old < token_of (run_ops H ops d') (ls_name old)"
    using token_run [of d' name H ops] assms(2,3) by simp
  then have "\<not> lease_current (run_ops H ops d') old t" by (rule overtaken_not_current)
  then show ?thesis by (auto simp: claim_next_def claim_next_cancel_def validate_lease_def)
qed

theorem overtaken_lease_is_fenced_witness:
  "\<exists>l d'. acquire_lease ''writer'' ''w2'' 200 100 (sample_store unary_digest) = (Inr l, d')
    \<and> (\<exists>e. claim_next unary_digest sample_lease 30 (run_ops unary_digest [Op_unfreeze 210] d')
           = (Inl e, run_ops unary_digest [Op_unfreeze 210] d'))"
proof -
  let ?l = "\<lparr>ls_name = ''writer'', ls_owner = ''w2'', ls_token = 2, ls_acquired_at = 200, ls_expires_at = 300\<rparr>"
  have a: "acquire_lease ''writer'' ''w2'' 200 100 (sample_store unary_digest)
      = (Inr ?l, (sample_store unary_digest)\<lparr>leases := [''writer'' \<mapsto> ?l]\<rparr>)"
    by (simp add: acquire_lease_def sample_store_eq sample_lease_def Let_def)
  show ?thesis
    using overtaken_lease_is_fenced [OF a, of sample_lease unary_digest 30 "[Op_unfreeze 210]"] a
    by (simp add: sample_lease_def)
qed

subsection \<open>Projections and their log\<close>

text \<open>C17: after any run, folding the order-event log from zero gives exactly the stored positions,
  cash and commissions; every intent's filled quantity stays between zero and its ordered quantity;
  client order keys, command ids and broker event ids are unique.\<close>

theorem projections_replay_the_log:
  assumes "inj H" and "list_all op_ok ops" and "d = reached H ops"
  shows "rebuild_economic_projection d = Inr (positions d, cash_delta d, commissions d)
    \<and> (\<forall>r \<in> set (intents d). 0 \<le> iw_filled r \<and> iw_filled r \<le> xi_quantity (iw_intent r))
    \<and> distinct (map iw_key (intents d)) \<and> distinct (map ow_id (outbox d))
    \<and> distinct (map (\<lambda>b. be_id (bx_event b)) (inbox d))"
  using reached_inv [OF assms(1,2)]
  by (simp add: assms(3) store_inv_def book_inv_def replay_inv_def intents_inv_def tables_inv_def)

definition sample_fill :: broker_event where
  "sample_fill = \<lparr>be_id = ''e1'', be_broker_order_id = ''b1'', be_client_order_key = ''k1'',
     be_type = ET_PARTIAL_FILL, be_sequence = 1, be_filled_quantity = 4, be_fill_price = Some 100,
     be_commission = 1, be_occurred_at = 40, be_received_at = 41, be_raw_payload_hash = ''p1''\<rparr>"

lemma sample_fill_ok: "event_amounts_ok sample_fill"
  by (simp add: sample_fill_def event_amounts_ok_def)

theorem projections_replay_the_log_witness:
  "let d = reached unary_digest (sample_ops @ [Op_ingest sample_fill]) in
     rebuild_economic_projection d = Inr (positions d, cash_delta d, commissions d)"
  using projections_replay_the_log [OF inj_unary_digest, of "sample_ops @ [Op_ingest sample_fill]"]
  by (simp add: sample_ops_ok sample_fill_ok Let_def)

text \<open>C21: broker events may be delivered at least once and in bursts: after an event was accepted,
  delivering it again at any later point changes nothing.\<close>

theorem redelivery_changes_nothing:
  assumes "is_ok (fst (ingest_broker_event H e d))"
  shows "fold (intake H) (xs @ e # ys) (intake H e d) = fold (intake H) (xs @ ys) (intake H e d)"
proof -
  have "received (intake H e d) e"
    using assms inbox_intake.accepted_seen inbox_intake.seen_skip by (cases "received d e") metis+
  then show ?thesis by (rule inbox_intake.duplicate_anywhere)
qed

lemma sample_ingest_ok: "is_ok (fst (ingest_broker_event H sample_fill (sample_store H)))"
  by (simp add: ingest_broker_event_def transaction_def ingest_body_def apply_event_def sample_fill_def sample_store_eq
      unfrozen_store_def empty_store_def insert_or_ignore_def new_intent_row_def sample_docs Let_def
      update_economic_projections_def insert_row_def apply_to_intent_def update_reservation_def)

theorem redelivery_changes_nothing_witness:
  "fold (intake unary_digest) [sample_fill, sample_fill] (intake unary_digest sample_fill (sample_store unary_digest))
     = fold (intake unary_digest) [sample_fill] (intake unary_digest sample_fill (sample_store unary_digest))"
  using redelivery_changes_nothing [OF sample_ingest_ok, of unary_digest "[]" "[sample_fill]"] by simp

subsection \<open>Staging\<close>

text \<open>C30: after any run, a successful \<open>stage\<close> leaves the notional of the account's active
  reservations, the new one included, within the capacity the reservation was sized against.\<close>

theorem stage_within_capacity:
  assumes "inj H" and "list_all op_ok ops" and "reservation_amounts_ok r"
    and "stage H c r i fp (reached H ops) = (Inr u, d')"
  shows "active_reserved_notional d' (rsv_account_id r) \<le> rsv_account_notional_capacity r"
proof (rule stage_keeps_capacity [OF assms(4)])
  show "distinct (map rw_id (reservations (reached H ops)))"
    using reached_inv [OF assms(1,2)] by (simp add: store_inv_def tables_inv_def)
  show "0 \<le> rsv_notional_reserved r" using assms(3) by (simp add: reservation_amounts_ok_def)
qed

theorem stage_within_capacity_witness:
  "\<exists>d'. stage unary_digest sample_capsule sample_reservation sample_intent None (reached unary_digest [Op_unfreeze 5])
      = (Inr (), d') \<and> active_reserved_notional d' ''acct'' \<le> 5000"
proof -
  have r: "reached unary_digest [Op_unfreeze 5] = unfrozen_store" by (simp add: run_ops_def unfreeze_empty)
  have ok: "reservation_amounts_ok sample_reservation" by (simp add: sample_docs reservation_amounts_ok_def)
  show ?thesis
    using stage_within_capacity [OF inj_unary_digest, of "[Op_unfreeze 5]", OF _ ok] sample_staged [of unary_digest]
    by (simp add: r sample_reservation_def)
qed

text \<open>\<open>stage\<close> is atomic: whenever it raises, at a check, at a conflicting immutable row or at any
  injected crash point, the store is exactly what it was; and a crash after the outbox write always
  raises.\<close>

theorem stage_is_atomic:
  "(\<not> is_ok (fst (stage H c r i fp d)) \<longrightarrow> snd (stage H c r i fp d) = d)
   \<and> \<not> is_ok (fst (stage H c r i (Some ''after_outbox'') d))"
proof
  show "\<not> is_ok (fst (stage H c r i fp d)) \<longrightarrow> snd (stage H c r i fp d) = d"
    by (cases "stage H c r i fp d"; cases "fst (stage H c r i fp d)") (auto dest: stage_error_unchanged)
  show "\<not> is_ok (fst (stage H c r i (Some ''after_outbox'') d))"
  proof (cases "stage H c r i (Some ''after_outbox'') d")
    case (Pair x d')
    then show ?thesis
      by (cases x) (auto simp: stage_def stage_body_def and_then_Inr_iff Let_def split: option.splits if_splits)
  qed
qed

theorem stage_is_atomic_witness:
  "\<not> is_ok (fst (stage unary_digest sample_capsule sample_reservation sample_intent (Some ''after_outbox'') unfrozen_store))
   \<and> snd (stage unary_digest sample_capsule sample_reservation sample_intent (Some ''after_outbox'') unfrozen_store) = unfrozen_store"
  using stage_is_atomic by blast

subsection \<open>Approval\<close>

text \<open>Approval ids are the digests of the documents they stand for.\<close>

definition approvals_hashed :: "(json \<Rightarrow> string) \<Rightarrow> store \<Rightarrow> bool" where
  "approvals_hashed H d \<longleftrightarrow> list_all (\<lambda>a. aw_id a = canonical_hash H (approval_json (aw_doc a))) (approvals d)"

lemma approval_json_inj:
  assumes "inj H" and "canonical_hash H (approval_json a) = canonical_hash H (approval_json b)"
  shows "ad_intent_id a = ad_intent_id b"
proof -
  have "sort_keys (approval_json a) = sort_keys (approval_json b)"
    using assms by (simp add: canonical_hash_def inj_eq)
  then show ?thesis by (simp add: approval_json_def)
qed

text \<open>In the state right after a successful approval, a further approval of the same intent, by whomever
  and at whatever time, raises and changes nothing.\<close>

theorem approval_is_given_once:
  assumes "inj H" and "approvals_hashed H d" and "approve H x actor at d = (Inr aid, d')"
  shows "\<exists>e. approve H x actor' at' d' = (Inl e, d')"
proof -
  obtain row rsv where a: "\<not> list_ex is_blocking (tickets d)" "intent_row_of d x = Inr row"
    "reservation_of d (iw_reservation_id row) = Inr rsv"
    "List.find (\<lambda>a. aw_intent_id a = x) (approvals d) = None
     \<or> (\<exists>a. List.find (\<lambda>a. aw_intent_id a = x) (approvals d) = Some a \<and> aw_doc a = approval_of H row rsv actor at)"
    "aid = canonical_hash H (approval_json (approval_of H row rsv actor at))"
    "d' = set_intent_status x XS_APPROVED
       (d\<lparr>approvals := insert_or_ignore (\<lambda>a b. aw_id a = aw_id b \<or> aw_intent_id a = aw_intent_id b)
          \<lparr>aw_id = aid, aw_doc = approval_of H row rsv actor at\<rparr> (approvals d)\<rparr>)"
    using assms(3) by (rule approve_Inr)
  have x: "iw_id row = x" using intent_row_of_Inr [OF a(2)] by simp
  then have dx: "ad_intent_id (approval_of H row rsv actor at) = x" by (simp add: approval_of_def)
  have found: "\<exists>y. List.find (\<lambda>a. aw_intent_id a = x) (approvals d') = Some y \<and> aw_doc y = approval_of H row rsv actor at"
  proof (cases "List.find (\<lambda>a. aw_intent_id a = x) (approvals d)")
    case None
    then have none: "\<forall>y \<in> set (approvals d). aw_intent_id y \<noteq> x" by (simp add: find_None_set)
    have "aw_id y \<noteq> aid" if y: "y \<in> set (approvals d)" for y
    proof
      assume "aw_id y = aid"
      moreover have "aw_id y = canonical_hash H (approval_json (aw_doc y))"
        using assms(2) y by (simp add: approvals_hashed_def list_all_iff)
      ultimately have "aw_intent_id y = x" using approval_json_inj [OF assms(1)] dx a(5) by metis
      then show False using none y by simp
    qed
    then have "\<forall>y \<in> set (approvals d). \<not> (aid = aw_id y \<or> x = aw_intent_id y)" using none by blast
    then have "\<not> list_ex (\<lambda>b. aid = aw_id b \<or> x = aw_intent_id b) (approvals d)"
      unfolding list_ex_iff by blast
    then have "approvals d' = approvals d @ [\<lparr>aw_id = aid, aw_doc = approval_of H row rsv actor at\<rparr>]"
      by (simp add: a(6) set_intent_status_def insert_or_ignore_def dx)
    then show ?thesis using None dx by (simp add: find_append)
  next
    case (Some y)
    then have "aw_doc y = approval_of H row rsv actor at" using a(4) by auto
    then show ?thesis using Some
      by (auto simp: a(6) set_intent_status_def insert_or_ignore_def find_append)
  qed
  have row': "intent_row_of d' x = Inr (row\<lparr>iw_status := XS_APPROVED, iw_version := iw_version row + 1\<rparr>)"
    using a(2) x by (auto simp: a(6) intent_row_of_def set_intent_status_def find_id_update_where split: option.splits)
  have "reservation_of d' (iw_reservation_id row) = Inr rsv" "\<not> list_ex is_blocking (tickets d')"
    using a(1,3) by (simp_all add: a(6) reservation_of_def set_intent_status_def)
  then show ?thesis
    using found row' x
    by (auto simp: approve_def approve_record_def approval_of_def Let_def split: if_splits)
qed

definition pending_store :: store where
  "pending_store = unfrozen_store\<lparr>reservations := [new_reservation_row sample_reservation],
     intents := [new_intent_row (sample_intent\<lparr>xi_status := XS_APPROVAL_PENDING\<rparr>)]\<rparr>"

lemma pending_store_approves:
  "\<exists>aid d'. approve H ''i1'' ''op'' 20 pending_store = (Inr aid, d')"
  by (simp add: pending_store_def approve_def approve_record_def approval_of_def Let_def unfrozen_store_def empty_store_def
      lifted_ticket_def startup_ticket_def is_blocking_def intent_row_of_def reservation_of_def new_intent_row_def
      new_reservation_row_def sample_docs insert_or_ignore_def)

theorem approval_is_given_once_witness:
  "\<exists>aid d' e. approve unary_digest ''i1'' ''op'' 20 pending_store = (Inr aid, d')
     \<and> approve unary_digest ''i1'' ''someone'' 25 d' = (Inl e, d')"
proof -
  obtain aid d' where a: "approve unary_digest ''i1'' ''op'' 20 pending_store = (Inr aid, d')"
    using pending_store_approves by blast
  have "approvals_hashed unary_digest pending_store"
    by (simp add: approvals_hashed_def pending_store_def unfrozen_store_def empty_store_def)
  then show ?thesis using approval_is_given_once [OF inj_unary_digest _ a] a by blast
qed

subsection \<open>Arms\<close>

lemma place_arm_row:
  assumes "place_arm H b i at d = (Inr aid, d')"
  shows "\<exists>a \<in> set (arms d'). am_id a = aid \<and> am_binding a = b \<and> am_status a = ARM_ACTIVE"
proof -
  have issue: "\<exists>a \<in> set (arms d'). am_id a = aid \<and> am_binding a = b \<and> am_status a = ARM_ACTIVE"
    if "issue_arm H b i d1 = (Inr aid, d')" for d1
    using that
    by (auto simp: issue_arm_def Let_def and_then_Inr_iff insert_row_Inr_iff split: sum.splits dest!: enqueue_arms)
  show ?thesis
    using assms issue
    by (auto simp: place_arm_def dest: active_arm_SomeD split: option.splits if_splits)
qed

lemma admission_valid_until:
  "evaluate_quote_admission q at max_age skew ms symb cur ref side md = Inr a \<Longrightarrow>
     qa_valid_until a = quote_valid_until q max_age"
  by (auto simp: evaluate_quote_admission_def admission_result_def Let_def split: option.splits if_splits)

text \<open>C32: an arm that is placed expires strictly after the request and no later than any evidence it
  rests on: the requested expiry, the quote's validity, the authority's maximum age, the intent's own
  reservation and its approval; the intent is approved or outboxed, the authority is complete, the drift limit at most ten basis points, and the
  intent has exactly one active arm, the one returned.\<close>

theorem arm_rests_on_live_evidence:
  assumes "arm_inv d" and "arm_approved_intent H q d = (Inr aid, d')"
  shows "\<exists>a \<in> set (arms d'). am_id a = aid \<and> am_intent_id a = aq_intent_id q \<and> am_status a = ARM_ACTIVE
    \<and> aq_at q < am_expires_at a \<and> am_expires_at a \<le> aq_expires_at q \<and> aq_max_drift_bps q \<le> 10
    \<and> (\<exists>auth \<in> set (authorities d). au_certificate_id auth = aq_authority_id q
         \<and> components_complete (au_snapshot auth) \<and> am_expires_at a \<le> au_as_of auth + aq_authority_max_age q)
    \<and> (\<exists>w \<in> set (quotes d). qs_id (qw_quote w) = aq_quote_snapshot_id q
         \<and> am_expires_at a \<le> quote_valid_until (qw_quote w) (aq_quote_max_age q))
    \<and> (\<exists>p \<in> set (approvals d). aw_intent_id p = aq_intent_id q \<and> am_expires_at a \<le> ad_expires_at (aw_doc p))
    \<and> (\<exists>i \<in> set (intents d). iw_id i = aq_intent_id q \<and> iw_status i \<in> {XS_APPROVED, XS_OUTBOXED}
         \<and> (\<exists>r \<in> set (reservations d). rw_id r = iw_reservation_id i
              \<and> am_expires_at a \<le> rsv_expires_at (rw_reservation r)))
    \<and> (\<forall>b \<in> set (arms d'). am_intent_id b = aq_intent_id q \<and> am_status b = ARM_ACTIVE \<longrightarrow> b = a)"
  using assms(2)
proof (cases rule: arm_approved_intent_cases)
  case (placed row auth w adm p rsv aid')
  let ?b = "binding_of H q auth (qw_quote w) (iw_intent row) adm (effective_expiry q adm auth rsv (aw_doc p))"
  have aid: "aid' = aid" using placed(1) by simp
  have uniq: "arm_inv d'" using assms by (rule arm_inv_arm)
  obtain a where a: "a \<in> set (arms d')" "am_id a = aid" "am_binding a = ?b" "am_status a = ARM_ACTIVE"
    using place_arm_row [OF placed(19)] aid by blast
  have exp: "am_expires_at a = effective_expiry q adm auth rsv (aw_doc p)" by (simp add: a(3) binding_of_def)
  have adm: "qa_valid_until adm = quote_valid_until (qw_quote w) (aq_quote_max_age q)"
    using placed(13) by (rule admission_valid_until)
  have row: "row \<in> set (intents d)" "iw_id row = aq_intent_id q"
    using placed(3) by (auto simp: intent_row_of_def dest: find_Some_set split: option.splits)
  obtain r where r: "r \<in> set (reservations d)" "rw_reservation r = rsv" "rw_id r = iw_reservation_id row"
    using placed(17) by (auto simp: reservation_of_def dest: find_Some_set split: option.splits)
  have only: "b = a" if "b \<in> set (arms d')" "am_intent_id b = aq_intent_id q" "am_status b = ARM_ACTIVE" for b
  proof (rule same_key_same_row [of am_intent_id "filter (\<lambda>a. am_status a = ARM_ACTIVE) (arms d')"])
    show "distinct (map am_intent_id (filter (\<lambda>a. am_status a = ARM_ACTIVE) (arms d')))"
      using uniq by (simp add: arm_inv_def)
  qed (use that a in \<open>simp_all add: binding_of_def\<close>)
  have ends: "am_expires_at a \<le> aq_expires_at q" "am_expires_at a \<le> qa_valid_until adm"
    "am_expires_at a \<le> au_as_of auth + aq_authority_max_age q" "am_expires_at a \<le> rsv_expires_at rsv"
    "am_expires_at a \<le> ad_expires_at (aw_doc p)"
    by (simp_all add: exp effective_expiry_def)
  show ?thesis
  proof (intro bexI [of _ a] conjI)
    show "am_intent_id a = aq_intent_id q" by (simp add: a(3) binding_of_def)
    show "aq_at q < am_expires_at a" using placed(18) exp by simp
    show "\<exists>auth \<in> set (authorities d). au_certificate_id auth = aq_authority_id q
         \<and> components_complete (au_snapshot auth) \<and> am_expires_at a \<le> au_as_of auth + aq_authority_max_age q"
      using placed(6,7,10) ends(3) by blast
    show "\<exists>w \<in> set (quotes d). qs_id (qw_quote w) = aq_quote_snapshot_id q
         \<and> am_expires_at a \<le> quote_valid_until (qw_quote w) (aq_quote_max_age q)"
      using placed(11,12) ends(2) adm by metis
    show "\<exists>p \<in> set (approvals d). aw_intent_id p = aq_intent_id q \<and> am_expires_at a \<le> ad_expires_at (aw_doc p)"
      using placed(15,16) ends(5) by blast
    show "\<exists>i \<in> set (intents d). iw_id i = aq_intent_id q \<and> iw_status i \<in> {XS_APPROVED, XS_OUTBOXED}
         \<and> (\<exists>r \<in> set (reservations d). rw_id r = iw_reservation_id i
              \<and> am_expires_at a \<le> rsv_expires_at (rw_reservation r))"
      using row placed(4) r ends(4) by metis
    show "\<forall>b \<in> set (arms d'). am_intent_id b = aq_intent_id q \<and> am_status b = ARM_ACTIVE \<longrightarrow> b = a"
      using only by blast
  qed (fact a(1) a(2) a(4) ends(1) placed(5))+
qed simp_all

definition sample_snapshot :: "string \<Rightarrow> time \<Rightarrow> int \<Rightarrow> broker_snapshot" where
  "sample_snapshot name as_of watermark = (snapshot as_of (new_broker 100000))\<lparr>
     bs_certificate_id := Some (''cert-'' @ name), bs_observation_id := Some (''obs-'' @ name),
     bs_session_id := Some (''session-'' @ name), bs_semantic_hash := Some ''sem'', bs_scope_hash := Some ''scope'',
     bs_final_watermark := watermark\<rparr>"

lemma sample_snapshot_simps [simp]:
  "bs_as_of (sample_snapshot n t w) = t" "bs_final_watermark (sample_snapshot n t w) = w"
  "bs_certificate_id (sample_snapshot n t w) = Some (''cert-'' @ n)"
  "bs_observation_id (sample_snapshot n t w) = Some (''obs-'' @ n)"
  "bs_session_id (sample_snapshot n t w) = Some (''session-'' @ n)"
  "bs_semantic_hash (sample_snapshot n t w) = Some ''sem''" "bs_scope_hash (sample_snapshot n t w) = Some ''scope''"
  "bs_complete (sample_snapshot n t w)" "bs_normalization_policy_hash (sample_snapshot n t w) = None"
  "bs_valuation_fields (sample_snapshot n t w) = []" "bs_base_currency (sample_snapshot n t w) = ''USD''"
  "components_complete (sample_snapshot n t w)"
  by (simp_all add: sample_snapshot_def snapshot_def components_complete_def)

definition sample_authority :: authority_row where
  "sample_authority = \<lparr>au_certificate_id = ''cert-a'', au_semantic_hash = ''sem'', au_scope_hash = ''scope'',
     au_as_of = 20, au_snapshot = sample_snapshot ''a'' 20 1, au_run_id = ''run'', au_status = ''CONVERGED'',
     au_recorded_at = 21\<rparr>"

definition sample_quote :: quote_snapshot where
  "sample_quote = \<lparr>qs_id = ''q1'', qs_symbol = ''AAPL'', qs_bid = 100, qs_ask = 100, qs_last = None,
     qs_observed_at = 29, qs_provider_timestamp = 28, qs_provider = ''feed'', qs_feed_mode = ''REALTIME'',
     qs_market_phase = ''REGULAR'', qs_venue = ''XNAS'', qs_currency = ''USD'', qs_raw_hash = ''raw'',
     qs_freshness_policy_hash = ''policy''\<rparr>"

definition sample_arm_request :: arm_request where
  "sample_arm_request = \<lparr>aq_intent_id = ''i1'', aq_authority_id = ''cert-a'', aq_quote_snapshot_id = ''q1'',
     aq_max_drift_bps = 10, aq_armed_by = ''op'', aq_at = 30, aq_expires_at = 100, aq_arm_source = ''OPERATOR'',
     aq_operator_session_id = None, aq_authority_max_age = 30, aq_quote_max_age = 5,
     aq_provider_clock_skew = 1, aq_max_spread_bps = 50\<rparr>"

definition approved_store :: "(json \<Rightarrow> string) \<Rightarrow> store" where
  "approved_store H = unfrozen_store\<lparr>reservations := [new_reservation_row sample_reservation],
     intents := [(new_intent_row sample_intent)\<lparr>iw_version := 2\<rparr>],
     approvals := [\<lparr>aw_id = ''a1'', aw_doc = approval_of H (new_intent_row sample_intent) sample_reservation ''op'' 20\<rparr>],
     authorities := [sample_authority], quotes := [\<lparr>qw_quote = sample_quote, qw_recorded_at = 29\<rparr>]\<rparr>"

lemma sample_admission:
  "evaluate_quote_admission sample_quote 30 5 1 50 (Some ''AAPL'') (Some ''USD'') (Some 100) (Some ''BUY'') (Some 10)
     = Inr (admission_result sample_quote 30 5 [] (Some 0))"
  by (simp add: evaluate_quote_admission_def sample_quote_def timing_reasons_def source_reasons_def reason_if_def
      spread_bps_def drift_bps_of_def executable_price_def)

lemma approved_store_arms: "\<exists>aid d'. arm_approved_intent H sample_arm_request (approved_store H) = (Inr aid, d')"
proof -
  have adm: "qa_reasons (admission_result sample_quote 30 5 [] (Some 0)) = []"
    "qa_eligible (admission_result sample_quote 30 5 [] (Some 0))"
    "qa_valid_until (admission_result sample_quote 30 5 [] (Some 0)) = 33"
    by (simp_all add: admission_result_def quote_valid_until_def sample_quote_def)
  have docs: "new_intent_row sample_intent = \<lparr>iw_intent = sample_intent, iw_status = XS_APPROVED, iw_filled = 0,
      iw_broker_order_id = None, iw_last_sequence = 0, iw_version = 1\<rparr>"
    by (simp add: new_intent_row_def sample_intent_def)
  have quote: "qs_id sample_quote = ''q1''" by (simp add: sample_quote_def)
  have intent: "xi_id sample_intent = ''i1''" "xi_reservation_id sample_intent = ''r1''" "xi_side sample_intent = BUY"
    "xi_instrument_id sample_intent = ''AAPL''" "xi_limit_price sample_intent = 100"
    by (simp_all add: sample_intent_def)
  have rsv: "rsv_id sample_reservation = ''r1''" "rsv_expires_at sample_reservation = 1000"
    by (simp_all add: sample_reservation_def)
  show ?thesis
    by (simp add: arm_approved_intent_def arm_with_quote_def approved_store_def sample_arm_request_def
        unfrozen_store_def empty_store_def lifted_ticket_def startup_ticket_def is_blocking_def intent_row_of_def
        reservation_of_def new_reservation_row_def sample_authority_def sample_admission adm docs quote intent rsv
        side_value_def approval_of_def effective_expiry_def place_arm_def active_arm_def issue_arm_def insert_row_def
        enqueue_def insert_immutable_def insert_or_ignore_def Let_def)
qed

lemma approved_store_arm_inv: "arm_inv (approved_store H)"
  by (simp add: arm_inv_def approved_store_def unfrozen_store_def empty_store_def)

theorem arm_rests_on_live_evidence_witness:
  "\<exists>aid d'. arm_approved_intent unary_digest sample_arm_request (approved_store unary_digest) = (Inr aid, d')
     \<and> (\<exists>a \<in> set (arms d'). am_id a = aid \<and> 30 < am_expires_at a \<and> am_expires_at a \<le> 100)"
proof -
  obtain aid d' where a: "arm_approved_intent unary_digest sample_arm_request (approved_store unary_digest) = (Inr aid, d')"
    using approved_store_arms by blast
  then show ?thesis
    using arm_rests_on_live_evidence [OF approved_store_arm_inv a] by (auto simp: sample_arm_request_def)
qed

subsection \<open>Broker truth\<close>

text \<open>C34: consensus is reported only when two accepted votes of the snapshot's scope, from different sessions
  and certificates, at increasing times and watermarks, agree on the state the scope's row records, and the
  reported count is that row's. For a new observation this state is the snapshot's own semantic hash; a
  repeated observation is answered from the row, whatever its own hash is.\<close>

theorem consensus_is_corroborated:
  assumes "inj H" and "list_all op_ok ops"
    and "register_snapshot_consensus s at mi (reached H ops) = (Inr (True, n), d')"
  shows "n \<ge> 2
    \<and> (\<exists>c. consensus d' (the (bs_scope_hash s)) = Some c \<and> cz_count c = n
         \<and> corroborated d' (the (bs_scope_hash s)) (cz_semantic_hash c))
    \<and> (bs_observation_id s \<notin> Some ` vt_observation_id ` set (votes (reached H ops)) \<longrightarrow>
         corroborated d' (the (bs_scope_hash s)) (the (bs_semantic_hash s)))"
  using reached_inv [OF assms(1,2)] assms(3) by (intro consensus_needs_two) (simp_all add: store_inv_def core_inv_def)

theorem consensus_is_corroborated_witness:
  "\<exists>d'. register_snapshot_consensus (sample_snapshot ''b'' 40 2) 41 5
          (reached unary_digest [Op_consensus (sample_snapshot ''a'' 20 1) 21 5]) = (Inr (True, 2), d')
     \<and> corroborated d' ''scope'' ''sem''"
proof -
  let ?d = "reached unary_digest [Op_consensus (sample_snapshot ''a'' 20 1) 21 5]"
  note simps = register_snapshot_consensus_def votable_def truthy_def previous_vote_def vote_outcome_def
    authority_equivalence_def the_vote_def valuation_within_def independent_of_def is_accepted_def Let_def
  have d: "votes ?d = [the_vote (sample_snapshot ''a'' 20 1) 21 (1, 21, ACCEPTED_FIRST) False]"
    "consensus ?d = [''scope'' \<mapsto> \<lparr>cz_semantic_hash = ''sem'', cz_count = 1, cz_first_seen_at = 21,
       cz_last_seen_at = 21, cz_certificate_id = ''cert-a''\<rparr>]"
    by (simp_all add: run_ops_def simps empty_store_def register_vote_def)
  have "\<exists>d'. register_snapshot_consensus (sample_snapshot ''b'' 40 2) 41 5 ?d = (Inr (True, 2), d')"
    by (simp add: simps d)
  then obtain d' where r: "register_snapshot_consensus (sample_snapshot ''b'' 40 2) 41 5 ?d = (Inr (True, 2), d')" by blast
  have fresh: "bs_observation_id (sample_snapshot ''b'' 40 2) \<notin> Some ` vt_observation_id ` set (votes ?d)"
    by (simp add: d the_vote_def)
  have ok: "list_all op_ok [Op_consensus (sample_snapshot ''a'' 20 1) 21 5]" by simp
  show ?thesis
    using consensus_is_corroborated [OF inj_unary_digest ok r] fresh r by auto
qed

text \<open>the authority the store offers is complete in all components, converged, the newest of its
  kind and, when an age limit is asked for, not in the future and within that age.\<close>

theorem latest_authority_is_sound:
  assumes "inj H" and "list_all op_ok ops"
    and "latest_broker_snapshot_authority (Some (at, max_age)) (reached H ops) = Some a"
  shows "a \<in> set (authorities (reached H ops)) \<and> au_status a = ''CONVERGED'' \<and> components_complete (au_snapshot a)
    \<and> au_as_of a = bs_as_of (au_snapshot a) \<and> 0 \<le> at - au_as_of a \<and> at - au_as_of a \<le> max_age
    \<and> (\<forall>b \<in> set (authorities (reached H ops)). au_as_of b \<le> au_as_of a)"
proof -
  have inv: "authority_inv (reached H ops)"
    using reached_inv [OF assms(1,2)] by (simp add: store_inv_def core_inv_def)
  have age: "0 \<le> at - au_as_of a" "at - au_as_of a \<le> max_age"
    using assms(3) by (auto simp: latest_broker_snapshot_authority_def split: option.splits if_splits)
  show ?thesis using latest_authority_SomeD [OF assms(3)] inv age unfolding authority_inv_def by blast
qed

theorem latest_authority_is_sound_witness:
  "\<exists>a. latest_broker_snapshot_authority (Some (30, 30))
         (reached unary_digest [Op_authority (sample_snapshot ''a'' 20 1) ''run'' ''CONVERGED'' 21]) = Some a
     \<and> components_complete (au_snapshot a)"
proof -
  let ?ops = "[Op_authority (sample_snapshot ''a'' 20 1) ''run'' ''CONVERGED'' 21]"
  have "\<exists>a. latest_broker_snapshot_authority (Some (30, 30)) (reached unary_digest ?ops) = Some a"
    by (simp add: run_ops_def record_broker_snapshot_authority_def truthy_def empty_store_def
        latest_broker_snapshot_authority_def insert_or_replace_def Let_def)
  moreover have "list_all op_ok ?ops" by simp
  ultimately show ?thesis using latest_authority_is_sound [OF inj_unary_digest] by blast
qed

subsection \<open>Cancelling\<close>

text \<open>a cancel request is idempotent: repeating it, by whomever and whenever, returns the same
  command id and changes nothing.\<close>

theorem cancel_request_is_idempotent:
  "request_cancel H x actor at d = (Inr c, d') \<Longrightarrow> request_cancel H x actor' at' d' = (Inr c, d')"
  by (rule request_cancel_again)

lemma sample_cancel: "\<exists>c d'. request_cancel H ''i1'' ''op'' 25 (sample_store H) = (Inr c, d')"
  by (simp add: request_cancel_def sample_store_eq intent_row_of_def unfrozen_store_def empty_store_def new_intent_row_def
      sample_intent_def terminal_status_def insert_row_def Let_def)

theorem cancel_request_is_idempotent_witness:
  "\<exists>c d'. request_cancel unary_digest ''i1'' ''op'' 25 (sample_store unary_digest) = (Inr c, d')
     \<and> request_cancel unary_digest ''i1'' ''other'' 26 d' = (Inr c, d')"
proof -
  obtain c d' where c: "request_cancel unary_digest ''i1'' ''op'' 25 (sample_store unary_digest) = (Inr c, d')"
    using sample_cancel by blast
  then show ?thesis using cancel_request_is_idempotent [OF c] by blast
qed

text \<open>cancelling an intent the broker has not seen (approval pending, approved or outboxed)
  withdraws it locally: it ends \<open>CANCELLED\<close>, no command of it is left pending, and the next claim of
  any writer is for another intent.\<close>

theorem local_cancel_withdraws:
  assumes "intent_row_of d x = Inr row" and "local_status (iw_status row)"
    and "List.find (\<lambda>c. cn_intent_id c = x) (cancels d) = None"
    and "request_cancel H x actor at d = (Inr c, d')"
  shows "(\<forall>ob \<in> set (outbox d'). ow_intent_id ob = x \<longrightarrow> ow_status ob \<noteq> OB_PENDING)
    \<and> (\<forall>r \<in> set (intents d'). iw_id r = x \<longrightarrow> iw_status r = XS_CANCELLED)
    \<and> (\<forall>cmd i d''. claim_next H l t d' = (Inr (Some (cmd, i)), d'') \<longrightarrow> xi_id i \<noteq> x)"
proof -
  have x: "iw_id row = x" using intent_row_of_Inr [OF assms(1)] by simp
  have nt: "\<not> terminal_status (iw_status row)" using assms(2) by (auto simp: local_status_def terminal_status_def)
  obtain cs where d': "d' = append_order_event H x ''CANCELLED_BEFORE_BROKER'' at (PL_actor actor c)
      (cancel_locally row at (d\<lparr>cancels := cs\<rparr>))"
    using assms nt by (auto simp: request_cancel_def Let_def split: sum.splits)
  have outbox': "outbox d' = update_where (\<lambda>y. ow_intent_id y = x \<and> ow_status y = OB_PENDING)
      (\<lambda>y. y\<lparr>ow_status := OB_DELIVERED, ow_delivered_at := Some at\<rparr>) (outbox d)"
    by (simp add: d' x)
  have out: "\<forall>ob \<in> set (outbox d'). ow_intent_id ob = x \<longrightarrow> ow_status ob \<noteq> OB_PENDING"
    unfolding outbox' by (rule update_where_all) simp_all
  have intents': "intents d' = update_where (\<lambda>r. iw_id r = x)
      (\<lambda>r. r\<lparr>iw_status := XS_CANCELLED, iw_version := iw_version r + 1\<rparr>) (intents d)"
    by (simp add: d' x cancel_locally_def set_intent_status_def)
  have "\<forall>r \<in> set (intents d'). iw_id r = x \<longrightarrow> iw_status r = XS_CANCELLED"
    unfolding intents' by (rule update_where_all) simp_all
  moreover have "xi_id i \<noteq> x" if "claim_next H l t d' = (Inr (Some (cmd, i)), d'')" for cmd i d''
    using claim_pending [OF that] out by blast
  ultimately show ?thesis using out by blast
qed

theorem local_cancel_withdraws_witness:
  "\<exists>c d'. request_cancel unary_digest ''i1'' ''op'' 25 (sample_store unary_digest) = (Inr c, d')
     \<and> (\<forall>r \<in> set (intents d'). iw_id r = ''i1'' \<longrightarrow> iw_status r = XS_CANCELLED)"
proof -
  obtain c d' where c: "request_cancel unary_digest ''i1'' ''op'' 25 (sample_store unary_digest) = (Inr c, d')"
    using sample_cancel by blast
  have row: "intent_row_of (sample_store unary_digest) ''i1''
      = Inr ((new_intent_row sample_intent)\<lparr>iw_status := XS_OUTBOXED, iw_version := 2\<rparr>)"
    "List.find (\<lambda>c. cn_intent_id c = ''i1'') (cancels (sample_store unary_digest)) = None"
    by (simp_all add: sample_store_eq intent_row_of_def unfrozen_store_def empty_store_def new_intent_row_def sample_intent_def)
  then show ?thesis using local_cancel_withdraws [OF row(1) _ row(2) c] c by (auto simp: local_status_def)
qed

subsection \<open>Recovery\<close>

lemma outbox_marked:
  "outbox (fold (\<lambda>ob. mark_outbox_unknown H (ow_id ob) (ow_intent_id ob) at reason) rows d) =
     update_where (\<lambda>x. ow_id x \<in> ow_id ` set rows)
       (\<lambda>x. x\<lparr>ow_status := OB_UNKNOWN, ow_delivered_at := Some at\<rparr>) (outbox d)"
proof (induction rows arbitrary: d)
  case (Cons r rows)
  have "outbox (mark_outbox_unknown H (ow_id r) (ow_intent_id r) at reason d) =
      update_where (\<lambda>x. ow_id x = ow_id r)
        (\<lambda>x. x\<lparr>ow_status := OB_UNKNOWN, ow_delivered_at := Some at\<rparr>) (outbox d)"
    by (simp add: mark_outbox_unknown_def)
  then show ?case by (auto simp: Cons.IH update_where_def)
qed (simp add: update_where_def)

text \<open>recovery after a writer died leaves nothing in flight: every command that was \<open>CLAIMED\<close> is
  \<open>UNKNOWN\<close> afterwards, the other commands are untouched, and the count returned is the number of
  commands that were claimed.\<close>

theorem recovery_leaves_nothing_claimed:
  assumes "distinct (map ow_id (outbox d))"
  shows "fst (recover_claimed_as_unknown H at d) = length (filter (\<lambda>x. ow_status x = OB_CLAIMED) (outbox d))
    \<and> outbox (snd (recover_claimed_as_unknown H at d)) = map (\<lambda>x. if ow_status x = OB_CLAIMED
         then x\<lparr>ow_status := OB_UNKNOWN, ow_delivered_at := Some at\<rparr> else x) (outbox d)"
proof -
  have "ow_id x \<in> ow_id ` set (filter (\<lambda>x. ow_status x = OB_CLAIMED) (outbox d)) \<longleftrightarrow> ow_status x = OB_CLAIMED"
    if "x \<in> set (outbox d)" for x
    using that same_key_same_row [OF assms] by (auto simp: image_iff)
  then show ?thesis
    by (simp add: recover_claimed_as_unknown_def Let_def outbox_marked update_where_def)
qed

theorem recovery_leaves_nothing_claimed_witness:
  "fst (recover_claimed_as_unknown unary_digest 50 (snd (claim_next unary_digest sample_lease 30 (sample_store unary_digest)))) = 1"
proof -
  have out: "outbox (snd (claim_next unary_digest sample_lease 30 (sample_store unary_digest))) =
      [\<lparr>ow_command = outbox_command_of unary_digest sample_intent, ow_status = OB_CLAIMED, ow_token = Some 1,
        ow_claimed_at = Some 30, ow_delivered_at = None\<rparr>]"
    unfolding sample_claim by (simp add: take_claim_def sample_store_eq sample_lease_def Let_def)
  show ?thesis using recovery_leaves_nothing_claimed [of _ unary_digest 50] by (simp add: out)
qed

text \<open>an uncertain submission is requeued only on evidence newer than the attempt: a snapshot not
  later than the claim raises and changes nothing; a later one makes the command pending again,
  without token or claim time, and the intent \<open>OUTBOXED\<close>.\<close>

theorem requeue_needs_newer_snapshot:
  assumes "unknown_command d key = Some ob" and "ow_claimed_at ob = Some claimed"
  shows "(as_of \<le> claimed \<longrightarrow> (\<exists>e. requeue_unknown_absent_at_broker H key as_of at d = (Inl e, d)))
    \<and> (claimed < as_of \<longrightarrow> (\<exists>d'. requeue_unknown_absent_at_broker H key as_of at d = (Inr True, d')
         \<and> (\<forall>x \<in> set (outbox d'). ow_id x = ow_id ob \<longrightarrow>
              ow_status x = OB_PENDING \<and> ow_token x = None \<and> ow_claimed_at x = None)
         \<and> (\<forall>r \<in> set (intents d'). iw_id r = ow_intent_id ob \<longrightarrow> iw_status r = XS_OUTBOXED)))"
  by (auto simp: requeue_unknown_absent_at_broker_def assms Let_def set_intent_status_def set_update_where)

definition unknown_store :: store where
  "unknown_store = unfrozen_store\<lparr>outbox := [\<lparr>ow_command = outbox_command_of unary_digest sample_intent,
     ow_status = OB_UNKNOWN, ow_token = Some 1, ow_claimed_at = Some 30, ow_delivered_at = Some 31\<rparr>]\<rparr>"

theorem requeue_needs_newer_snapshot_witness:
  "(\<exists>e. requeue_unknown_absent_at_broker unary_digest ''k1'' 30 60 unknown_store = (Inl e, unknown_store))
   \<and> (\<exists>d'. requeue_unknown_absent_at_broker unary_digest ''k1'' 31 60 unknown_store = (Inr True, d'))"
proof -
  have u: "unknown_command unknown_store ''k1'' = Some \<lparr>ow_command = outbox_command_of unary_digest sample_intent,
     ow_status = OB_UNKNOWN, ow_token = Some 1, ow_claimed_at = Some 30, ow_delivered_at = Some 31\<rparr>"
    by (simp add: unknown_command_def unknown_store_def outbox_command_of_def sample_intent_def)
  show ?thesis
    using requeue_needs_newer_snapshot [OF u, of 30 30 unary_digest 60]
      requeue_needs_newer_snapshot [OF u, of 30 31 unary_digest 60] by auto
qed

subsection \<open>Unfreezing\<close>

text \<open>a converged reconciliation lifts the reconciliation tickets and no other: the blocking
  tickets left are exactly those with another reason or source, and the store stays frozen precisely
  when one is left.\<close>

theorem unfreeze_lifts_reconciliation_tickets_only:
  "{t \<in> set (tickets (unfreeze_after_reconciliation at d)). is_blocking t}
     = {t \<in> set (tickets d). is_blocking t \<and> (ft_reason t, ft_source t) \<notin> set reconciliation_reasons}
   \<and> (cs_frozen (control (unfreeze_after_reconciliation at d)) \<longleftrightarrow>
        (\<exists>t \<in> set (tickets d). is_blocking t \<and> (ft_reason t, ft_source t) \<notin> set reconciliation_reasons))"
proof -
  have "{t \<in> set (tickets (unfreeze_after_reconciliation at d)). is_blocking t}
     = {t \<in> set (tickets d). is_blocking t \<and> (ft_reason t, ft_source t) \<notin> set reconciliation_reasons}"
    using unfreeze_blocking [of at d] by (auto simp: set_filter)
  then show ?thesis unfolding unfreeze_control list_ex_iff by blast
qed

subsection \<open>Quotes and intents\<close>

text \<open>a quote is admitted exactly when its source facts, spread and drift pass, it is not from the
  future beyond the allowed skew, and the time is strictly before the validity the result reports.\<close>

theorem quote_admitted_iff:
  assumes "evaluate_quote_admission q at max_age skew max_spread symb cur ref side max_drift = Inr a"
  shows "(qa_eligible a \<longleftrightarrow>
      quote_facts q max_age skew max_spread symb cur ref side max_drift \<and> qs_observed_at q \<le> at
      \<and> qs_provider_timestamp q - skew \<le> at \<and> at < qa_valid_until a)
    \<and> qa_valid_until a = min (qs_observed_at q) (qs_provider_timestamp q) + max_age"
  using eligible_iff [OF assms] admission_valid_until [OF assms] by (simp add: quote_valid_until_def min_def)

theorem quote_admitted_iff_witness:
  "\<exists>a. evaluate_quote_admission sample_quote 30 5 1 50 (Some ''AAPL'') (Some ''USD'') (Some 100) (Some ''BUY'') (Some 10) = Inr a
     \<and> qa_valid_until a = 33"
  using quote_admitted_iff [OF sample_admission] sample_admission by (auto simp: sample_quote_def)

text \<open>the client order key identifies the economics of an order: two intents built with the same
  key agree in decision, account, instrument, side, quantity and all three prices.\<close>

theorem client_order_key_fixes_economics:
  assumes "inj H" and "create_intent H c r s q lp sp tp a = Inr i"
    and "create_intent H c' r' s' q' lp' sp' tp' a' = Inr i'"
    and "xi_client_order_key i = xi_client_order_key i'"
  shows "xi_decision_id i = xi_decision_id i' \<and> xi_account_id i = xi_account_id i'
    \<and> xi_instrument_id i = xi_instrument_id i' \<and> xi_side i = xi_side i' \<and> xi_quantity i = xi_quantity i'
    \<and> xi_limit_price i = xi_limit_price i' \<and> xi_stop_price i = xi_stop_price i' \<and> xi_target_price i = xi_target_price i'"
  by (rule create_intent_key_economics [OF assms(2,3,4,1)])

theorem client_order_key_fixes_economics_witness:
  "\<exists>i i'. create_intent unary_digest sample_capsule sample_reservation BUY 10 100 95 110 True = Inr i
     \<and> create_intent unary_digest sample_capsule (sample_reservation\<lparr>rsv_id := ''r2''\<rparr>) BUY 10 100 95 110 False = Inr i'
     \<and> xi_quantity i = xi_quantity i'"
proof -
  obtain i i' where i: "create_intent unary_digest sample_capsule sample_reservation BUY 10 100 95 110 True = Inr i"
    "create_intent unary_digest sample_capsule (sample_reservation\<lparr>rsv_id := ''r2''\<rparr>) BUY 10 100 95 110 False = Inr i'"
    by (simp add: create_intent_def Let_def)
  then have "xi_client_order_key i = xi_client_order_key i'"
    by (auto simp: create_intent_def economics_json_def Let_def)
  then show ?thesis using client_order_key_fixes_economics [OF inj_unary_digest i] i by blast
qed

end
