(* ===== verification/Reconciliation.thy ===== *)
theory Reconciliation
  imports Ctl_Machine Economics
begin

section \<open>Reconciliation against broker truth\<close>

text \<open>
  \<open>src/hanalpha/execution/reconciliation.py\<close>, \<open>Reconciler\<close>. A run freezes the store first, brings
  local state up to date with the snapshot, collects discrepancies loop by loop, persists them and
  unfreezes only if none is critical. Each loop of \<open>reconcile\<close> is a function of its own that
  returns the discrepancies it found and the store it left; \<open>reconcile\<close> composes them in the order
  of the code. A Python dict is an association list without duplicate keys.
\<close>

subsection \<open>Documents\<close>

datatype discrepancy_severity = WARNING | CRITICAL

definition severity_value :: "discrepancy_severity \<Rightarrow> string" where
  "severity_value s = (case s of WARNING \<Rightarrow> ''WARNING'' | CRITICAL \<Rightarrow> ''CRITICAL'')"

record reconciliation_discrepancy =
  dc_id :: string
  dc_severity :: discrepancy_severity
  dc_kind :: string
  dc_entity_key :: string
  dc_details :: json

record reconciliation_report =
  rp_run_id :: string
  rp_status :: string
  rp_discrepancies :: "reconciliation_discrepancy list"
  rp_frozen :: bool

definition discrepancy ::
    "(json \<Rightarrow> string) \<Rightarrow> discrepancy_severity \<Rightarrow> string \<Rightarrow> string \<Rightarrow> json \<Rightarrow> reconciliation_discrepancy" where
  "discrepancy H sev kind entity details =
     \<lparr>dc_id = canonical_hash H (JObj [(''severity'', JStr (severity_value sev)), (''kind'', JStr kind),
                                     (''entity_key'', JStr entity), (''details'', details)]),
      dc_severity = sev, dc_kind = kind, dc_entity_key = entity, dc_details = details\<rparr>"

text \<open>\<open>{k: v for ...}\<close>: a later binding replaces the value and keeps the position.\<close>

definition dict_of :: "('k \<times> 'v) list \<Rightarrow> ('k \<times> 'v) list" where
  "dict_of kvs = fold (\<lambda>kv acc. upsert fst (\<lambda>_ new. new) kv acc) kvs []"

definition broker_by_key :: "broker_snapshot \<Rightarrow> (string \<times> broker_order_truth) list" where
  "broker_by_key s = dict_of (map (\<lambda>x. (bo_client_order_key x, x)) (bs_orders s))"

text \<open>\<open>store.intents()\<close>: \<open>SELECT * FROM execution_intents ORDER BY intent_id\<close>.\<close>

definition intents_by_id :: "store \<Rightarrow> intent_row list" where
  "intents_by_id d = sort_key iw_id (intents d)"

definition local_by_key :: "store \<Rightarrow> (string \<times> intent_row) list" where
  "local_by_key d = dict_of (map (\<lambda>r. (iw_key r, r)) (intents_by_id d))"

subsection \<open>The loops\<close>

type_synonym findings = "reconciliation_discrepancy list"

text \<open>\<open>for event in snapshot.events: if event.client_order_key in local_by_key: ingest\<close>.\<close>

fun ingest_known ::
    "(json \<Rightarrow> string) \<Rightarrow> string list \<Rightarrow> broker_event list \<Rightarrow> store \<Rightarrow> unit res \<times> store" where
  "ingest_known H local_keys [] d = (Inr (), d)"
| "ingest_known H local_keys (e # es) d =
     (if be_client_order_key e \<in> set local_keys
      then and_then (ingest_broker_event H e d) (\<lambda>_ d'. ingest_known H local_keys es d')
      else ingest_known H local_keys es d)"

fun compare_orders ::
    "(json \<Rightarrow> string) \<Rightarrow> (string \<times> intent_row) list \<Rightarrow> time \<Rightarrow> (string \<times> broker_order_truth) list
      \<Rightarrow> store \<Rightarrow> findings res \<times> store" where
  "compare_orders H locals at [] d = (Inr [], d)"
| "compare_orders H locals at ((key, o') # rest) d =
     (case map_of locals key of
        None \<Rightarrow>
          and_then (compare_orders H locals at rest d) (\<lambda>fs d'.
            (Inr (discrepancy H CRITICAL ''BROKER_ONLY_ORDER'' key
                   (JObj [(''broker_order_id'', JStr (bo_broker_order_id o'))]) # fs), d'))
      | Some row \<Rightarrow>
          (let d1 = resolve_unknown_at_broker H key (bo_broker_order_id o') at d in
           case intent_row_of d1 (iw_id row) of
             Inl e \<Rightarrow> (Inl e, d1)
           | Inr refreshed \<Rightarrow>
               and_then (compare_orders H locals at rest d1) (\<lambda>fs d'.
                 (Inr ((if iw_filled refreshed \<noteq> bo_filled_quantity o'
                        then [discrepancy H CRITICAL ''FILL_QUANTITY_MISMATCH'' key
                               (JObj [(''local'', JInt (iw_filled refreshed)),
                                      (''broker'', JInt (bo_filled_quantity o'))])]
                        else []) @ fs), d'))))"

definition active_local :: "execution_status \<Rightarrow> bool" where
  "active_local st \<longleftrightarrow> st \<in> {XS_SUBMITTING, XS_SUBMISSION_UNKNOWN, XS_ACKNOWLEDGED, XS_PARTIALLY_FILLED}"

fun compare_locals ::
    "(json \<Rightarrow> string) \<Rightarrow> (string \<times> broker_order_truth) list \<Rightarrow> time \<Rightarrow> time \<Rightarrow> (string \<times> intent_row) list
      \<Rightarrow> store \<Rightarrow> findings res \<times> store" where
  "compare_locals H orders as_of at [] d = (Inr [], d)"
| "compare_locals H orders as_of at ((key, row) # rest) d =
     (if iw_status row = XS_SUBMISSION_UNKNOWN \<and> key \<notin> fst ` set orders then
        and_then (requeue_unknown_absent_at_broker H key as_of at d)
          (\<lambda>_ d1. compare_locals H orders as_of at rest d1)
      else if active_local (iw_status row) \<and> key \<notin> fst ` set orders then
        and_then (compare_locals H orders as_of at rest d) (\<lambda>fs d'.
          (Inr (discrepancy H CRITICAL ''LOCAL_ORDER_MISSING_AT_BROKER'' key
                 (JObj [(''local_status'', JStr (execution_status_value (iw_status row)))]) # fs), d'))
      else compare_locals H orders as_of at rest d)"

definition local_positions :: "store \<Rightarrow> (string \<times> int) list" where
  "local_positions d =
     fold (\<lambda>r acc. upsert fst (\<lambda>old new. (fst old, snd old + snd new))
             (xi_instrument_id (iw_intent r), signed_qty (xi_side (iw_intent r)) (iw_filled r)) acc)
       (intents_by_id d) []"

definition get_or_zero :: "(string \<times> int) list \<Rightarrow> string \<Rightarrow> int" where
  "get_or_zero m k = (case map_of m k of None \<Rightarrow> 0 | Some v \<Rightarrow> v)"

definition compare_positions ::
    "(json \<Rightarrow> string) \<Rightarrow> broker_snapshot \<Rightarrow> store \<Rightarrow> findings" where
  "compare_positions H s d =
     (let locals = local_positions d in
      map (\<lambda>k. discrepancy H CRITICAL ''POSITION_MISMATCH'' k
             (JObj [(''local'', JInt (get_or_zero locals k)),
                    (''broker'', JInt (get_or_zero (bs_positions s) k))]))
        (filter (\<lambda>k. get_or_zero locals k \<noteq> get_or_zero (bs_positions s) k)
          (sorted_list_of_set (fst ` set locals \<union> fst ` set (bs_positions s)))))"

definition protected_quantity :: "broker_snapshot \<Rightarrow> string \<Rightarrow> broker_order_truth \<Rightarrow> int \<times> int \<times> int" where
  "protected_quantity s key o' =
     (let children = filter (\<lambda>c. bp_parent_client_order_key c = key \<and> bp_active c) (bs_protection_orders s);
          stop = total_of bp_quantity (filter (\<lambda>c. bp_type c = ''STOP'') children);
          target = total_of bp_quantity (filter (\<lambda>c. bp_type c = ''TARGET'') children)
      in (if children = [] then bo_protection_quantity o' else min stop target, stop, target))"

fun compare_protection ::
    "(json \<Rightarrow> string) \<Rightarrow> (string \<times> intent_row) list \<Rightarrow> broker_snapshot \<Rightarrow> time
      \<Rightarrow> (string \<times> broker_order_truth) list \<Rightarrow> store \<Rightarrow> findings res \<times> store" where
  "compare_protection H locals s at [] d = (Inr [], d)"
| "compare_protection H locals s at ((key, o') # rest) d =
     (case map_of locals key of
        None \<Rightarrow> compare_protection H locals s at rest d
      | Some row \<Rightarrow>
          (case intent_row_of d (iw_id row) of
             Inl e \<Rightarrow> (Inl e, d)
           | Inr current \<Rightarrow>
               (let filled = iw_filled current;
                    (prot, stop, target) = protected_quantity s key o'
                in if bo_side o' = BUY \<and> filled > prot then
                     and_then (compare_protection H locals s at rest
                        (snd (record_naked_exposure H (bo_instrument_id o') (filled - prot) 0 at d)))
                       (\<lambda>fs d'. (Inr (discrepancy H CRITICAL ''ORDER_PROTECTION_SHORTFALL'' key
                          (JObj [(''filled'', JInt filled), (''protected'', JInt prot),
                                 (''stop_quantity'', JInt stop), (''target_quantity'', JInt target),
                                 (''broker_order_id'', JStr (bo_broker_order_id o'))]) # fs), d'))
                   else compare_protection H locals s at rest d)))"

definition cent :: rat where
  "cent = 1 / 100"

definition compare_cash :: "(json \<Rightarrow> string) \<Rightarrow> broker_snapshot \<Rightarrow> store \<Rightarrow> findings \<times> store" where
  "compare_cash H s d =
     (case expected_account_cash d of
        None \<Rightarrow> ([], set_account_baseline s d)
      | Some expected \<Rightarrow>
          (if \<bar>expected - bs_cash s\<bar> > cent
           then ([discrepancy H CRITICAL ''CASH_MISMATCH'' (bs_base_currency s)
                   (JObj [(''local'', JNum expected), (''broker'', JNum (bs_cash s))])], d)
           else ([], d)))"

definition field_mismatch ::
    "(json \<Rightarrow> string) \<Rightarrow> broker_snapshot \<Rightarrow> string \<times> rat option \<times> rat option \<Rightarrow> findings" where
  "field_mismatch H s = (\<lambda>(name, expected, actual).
     case (expected, actual) of
       (Some e, Some a) \<Rightarrow>
         (if \<bar>e - a\<bar> > cent
          then [discrepancy H WARNING (name @ ''_MISMATCH'') (bs_base_currency s)
                 (JObj [(''local'', JNum e), (''broker'', JNum a)])]
          else [])
     | _ \<Rightarrow> [])"

definition compare_fields :: "(json \<Rightarrow> string) \<Rightarrow> broker_snapshot \<Rightarrow> store \<Rightarrow> findings" where
  "compare_fields H s d =
     (case expected_account_fields d of
        None \<Rightarrow> []
      | Some f \<Rightarrow>
          concat (map (field_mismatch H s)
            [(''SETTLED_CASH'', af_settled_cash f, bs_settled_cash s),
             (''BUYING_POWER'', af_buying_power f, bs_buying_power s),
             (''ACCRUED_CASH'', af_accrued_cash f, bs_accrued_cash s)]) @
          (case map_of (bs_currency_balances s) (bs_base_currency s) of
             None \<Rightarrow> []
           | Some balance \<Rightarrow>
               (if \<bar>balance - bs_cash s\<bar> > cent
                then [discrepancy H WARNING ''BASE_CURRENCY_BALANCE_MISMATCH'' (bs_base_currency s)
                       (JObj [(''cash'', JNum (bs_cash s)), (''currency_balance'', JNum balance)])]
                else [])))"

definition unprotected_ms :: "broker_snapshot \<Rightarrow> (string \<times> broker_order_truth) list \<Rightarrow> string \<Rightarrow> int" where
  "unprotected_ms s orders instrument =
     (let times = map be_occurred_at (filter (\<lambda>e. is_fill_type (be_type e) \<and>
             (case map_of orders (be_client_order_key e) of None \<Rightarrow> False
              | Some o' \<Rightarrow> bo_instrument_id o' = instrument)) (bs_events s))
      in if times = [] then 0 else max 0 ((bs_as_of s - Min (set times)) div 1000))"

fun naked_exposures_loop ::
    "(json \<Rightarrow> string) \<Rightarrow> broker_snapshot \<Rightarrow> (string \<times> broker_order_truth) list \<Rightarrow> time \<Rightarrow> string list
      \<Rightarrow> store \<Rightarrow> findings \<times> store" where
  "naked_exposures_loop H s orders at [] d = ([], d)"
| "naked_exposures_loop H s orders at (k # ks) d =
     (let position = get_or_zero (bs_positions s) k; protection = get_or_zero (bs_protections s) k in
      if position > protection then
        (let ms = unprotected_ms s orders k;
             (fs, d') = naked_exposures_loop H s orders at ks
               (snd (record_naked_exposure H k (position - protection) ms at d))
         in (discrepancy H CRITICAL ''NAKED_LONG_EXPOSURE'' k
               (JObj [(''position'', JInt position), (''protected'', JInt protection),
                      (''unprotected_duration_ms'', JInt ms)]) # fs, d'))
      else naked_exposures_loop H s orders at ks d)"

subsection \<open>Persisting a run\<close>

definition discrepancy_row_of :: "reconciliation_discrepancy \<Rightarrow> string \<Rightarrow> time \<Rightarrow> discrepancy_row" where
  "discrepancy_row_of x run_id at =
     \<lparr>dr_id = dc_id x, dr_run_id = run_id, dr_severity = severity_value (dc_severity x),
      dr_kind = dc_kind x, dr_entity_key = dc_entity_key x, dr_details = dc_details x,
      dr_resolved_at = None, dr_first_seen_at = at, dr_last_seen_at = at, dr_lifecycle = ''OPEN'',
      dr_evidence = None\<rparr>"

definition add_discrepancy ::
    "reconciliation_discrepancy \<Rightarrow> string \<Rightarrow> time \<Rightarrow> discrepancy_row list \<Rightarrow> discrepancy_row list" where
  "add_discrepancy x run_id at rows =
     insert_or_ignore (\<lambda>a b. dr_id a = dr_id b) (discrepancy_row_of x run_id at) rows"

definition observe_discrepancy ::
    "string \<Rightarrow> time \<Rightarrow> reconciliation_discrepancy \<Rightarrow> discrepancy_row list \<Rightarrow> discrepancy_row list" where
  "observe_discrepancy run_id at x rows =
     (let superseded = update_where
            (\<lambda>r. dr_kind r = dc_kind x \<and> dr_entity_key r = dc_entity_key x \<and> dr_id r \<noteq> dc_id x
                 \<and> dr_lifecycle r = ''OPEN'')
            (\<lambda>r. r\<lparr>dr_lifecycle := ''SUPERSEDED'', dr_resolved_at := Some at,
                   dr_evidence := Some (JObj [(''resolution'', JStr ''superseded_by_new_observation''),
                     (''successor_discrepancy_id'', JStr (dc_id x)), (''run_id'', JStr run_id)])\<rparr>) rows
      in update_where (\<lambda>r. dr_id r = dc_id x)
           (\<lambda>r. r\<lparr>dr_last_seen_at := at, dr_lifecycle := ''OPEN'', dr_resolved_at := None,
                  dr_evidence := None, dr_run_id := run_id\<rparr>)
           (add_discrepancy x run_id at superseded))"

definition resolve_absent ::
    "string \<Rightarrow> time \<Rightarrow> findings \<Rightarrow> discrepancy_row list \<Rightarrow> discrepancy_row list" where
  "resolve_absent run_id at found rows =
     (let current = map (\<lambda>x. (dc_kind x, dc_entity_key x)) found;
          gone = map dr_id (filter (\<lambda>r. dr_lifecycle r = ''OPEN''
                              \<and> (dr_kind r, dr_entity_key r) \<notin> set current) rows)
      in update_where (\<lambda>r. dr_id r \<in> set gone)
           (\<lambda>r. r\<lparr>dr_lifecycle := ''RESOLVED'', dr_resolved_at := Some at,
                  dr_evidence := Some (JObj [(''resolution'', JStr ''absent_from_later_reconciliation''),
                    (''run_id'', JStr run_id)])\<rparr>) rows)"

definition is_critical :: "reconciliation_discrepancy \<Rightarrow> bool" where
  "is_critical x \<longleftrightarrow> dc_severity x = CRITICAL"

definition run_status :: "findings \<Rightarrow> string" where
  "run_status found =
     (if list_ex is_critical found then ''BLOCKED'' else if found \<noteq> [] then ''DEGRADED'' else ''CONVERGED'')"

definition run_summary :: "string \<Rightarrow> nat \<Rightarrow> json" where
  "run_summary status n = JObj [(''status'', JStr status), (''discrepancy_count'', JInt (int n))]"

definition persist_run :: "string \<Rightarrow> time \<Rightarrow> findings \<Rightarrow> store \<Rightarrow> store" where
  "persist_run run_id at found d =
     d\<lparr>runs := update_where (\<lambda>r. rn_id r = run_id)
          (\<lambda>r. r\<lparr>rn_completed_at := Some at, rn_status := run_status found,
                 rn_summary := Some (run_summary (run_status found) (length found))\<rparr>) (runs d),
       discrepancies := resolve_absent run_id at found
          (fold (observe_discrepancy run_id at) found (discrepancies d))\<rparr>"

subsection \<open>A run\<close>

definition reconcile_id :: "(json \<Rightarrow> string) \<Rightarrow> broker_snapshot \<Rightarrow> time \<Rightarrow> string" where
  "reconcile_id H s at =
     canonical_hash H (JObj [(''as_of'', JTime (bs_as_of s)), (''started_at'', JTime at)])"

definition or_else :: "string option \<Rightarrow> string \<Rightarrow> string" where
  "or_else x alt = (if truthy x then the x else alt)"

definition record_incomplete ::
    "(json \<Rightarrow> string) \<Rightarrow> broker_snapshot \<Rightarrow> time \<Rightarrow> store \<Rightarrow> reconciliation_report res \<times> store" where
  "record_incomplete H s at d =
     (let run_id = reconcile_id H s at;
          x = discrepancy H CRITICAL ''INCOMPLETE_BROKER_SNAPSHOT''
                (or_else (bs_certificate_id s) ''missing-certificate'')
                (JObj [(''snapshot_as_of'', JTime (bs_as_of s))]);
          d1 = d\<lparr>runs := insert_or_ignore (\<lambda>a b. rn_id a = rn_id b)
                   \<lparr>rn_id = run_id, rn_started_at = at, rn_completed_at = Some at,
                    rn_status = ''INCOMPLETE_SNAPSHOT'',
                    rn_summary = Some (run_summary ''INCOMPLETE_SNAPSHOT'' 1)\<rparr> (runs d),
                 discrepancies := add_discrepancy x run_id at (discrepancies d)\<rparr>
      in and_then (open_freeze_ticket H ''INCOMPLETE_BROKER_SNAPSHOT'' ''reconciler'' at ''BLOCKING'' False d1)
           (\<lambda>_ d2. (Inr \<lparr>rp_run_id = run_id, rp_status = ''INCOMPLETE_SNAPSHOT'', rp_discrepancies = [x],
                        rp_frozen = True\<rparr>, d2)))"

definition begin_run ::
    "(json \<Rightarrow> string) \<Rightarrow> broker_snapshot \<Rightarrow> time \<Rightarrow> store \<Rightarrow> unit res \<times> store" where
  "begin_run H s at d =
     and_then (open_freeze_ticket H ''RECONCILIATION_IN_PROGRESS'' ''reconciler'' at ''BLOCKING'' False d)
       (\<lambda>_ d1. case insert_row (\<lambda>a b. rn_id a = rn_id b)
                      \<lparr>rn_id = reconcile_id H s at, rn_started_at = at, rn_completed_at = None,
                       rn_status = ''RUNNING'', rn_summary = None\<rparr> (runs d1) of
                 Inl e \<Rightarrow> (Inl e, d1)
               | Inr rows \<Rightarrow> (Inr (), d1\<lparr>runs := rows\<rparr>))"

definition compare_all ::
    "(json \<Rightarrow> string) \<Rightarrow> broker_snapshot \<Rightarrow> time \<Rightarrow> store \<Rightarrow> findings res \<times> store" where
  "compare_all H s at d =
     (let orders = broker_by_key s;
          d1 = snd (recover_claimed_as_unknown H at d);
          locals = local_by_key d1
      in and_then (ingest_known H (map fst locals) (bs_events s) d1) (\<lambda>_ d2.
         and_then (compare_orders H locals at orders d2) (\<lambda>f1 d3.
         and_then (compare_locals H orders (bs_as_of s) at locals d3) (\<lambda>f2 d4.
           let f3 = compare_positions H s d4 in
         and_then (compare_protection H locals s at orders d4) (\<lambda>f4 d5.
           let (f5, d6) = compare_cash H s d5;
               f6 = compare_fields H s d6;
               (f7, d7) = naked_exposures_loop H s orders at (sort (map fst (bs_positions s))) d6
           in (Inr (f1 @ f2 @ f3 @ f4 @ f5 @ f6 @ f7), d7))))))"

definition finish_run ::
    "(json \<Rightarrow> string) \<Rightarrow> broker_snapshot \<Rightarrow> time \<Rightarrow> findings \<Rightarrow> store \<Rightarrow> reconciliation_report res \<times> store" where
  "finish_run H s at found d =
     (let run_id = reconcile_id H s at;
          critical = list_ex is_critical found;
          d1 = persist_run run_id at found d;
          report = \<lparr>rp_run_id = run_id, rp_status = run_status found, rp_discrepancies = found,
                    rp_frozen = critical\<rparr>
      in if critical
         then and_then (open_freeze_ticket H ''CRITICAL_RECONCILIATION_DISCREPANCY'' ''reconciler'' at
                          ''BLOCKING'' False d1) (\<lambda>_ d2. (Inr report, d2))
         else (Inr report, unfreeze_after_reconciliation at d1))"

definition reconcile ::
    "(json \<Rightarrow> string) \<Rightarrow> broker_snapshot \<Rightarrow> time \<Rightarrow> store \<Rightarrow> reconciliation_report res \<times> store" where
  "reconcile H s at d =
     (if \<not> bs_complete s then record_incomplete H s at d
      else and_then (begin_run H s at d) (\<lambda>_ d1.
           and_then (compare_all H s at d1) (\<lambda>found d2. finish_run H s at found d2)))"

definition await_consensus ::
    "(json \<Rightarrow> string) \<Rightarrow> broker_snapshot \<Rightarrow> time \<Rightarrow> int \<Rightarrow> store \<Rightarrow> reconciliation_report res \<times> store" where
  "await_consensus H s at n_votes d =
     and_then (open_freeze_ticket H ''BROKER_SNAPSHOT_CONSENSUS_PENDING'' ''reconciler'' at ''BLOCKING'' False d)
       (\<lambda>_ d1.
         let run_id = canonical_hash H (JObj [(''semantic_hash'', opt_json JStr (bs_semantic_hash s)),
               (''visibility_scope_hash'', opt_json JStr (bs_scope_hash s)),
               (''consensus_count'', JInt n_votes), (''at'', JTime at)]);
             counts = JObj [(''consecutive_count'', JInt n_votes), (''required'', JInt 2)];
             x = discrepancy H WARNING ''BROKER_SNAPSHOT_CONSENSUS_PENDING''
                   (or_else (bs_scope_hash s) ''missing-scope'') counts
         in (Inr \<lparr>rp_run_id = run_id, rp_status = ''AWAITING_CONSENSUS'', rp_discrepancies = [x],
                  rp_frozen = True\<rparr>,
             d1\<lparr>runs := insert_or_ignore (\<lambda>a b. rn_id a = rn_id b)
                  \<lparr>rn_id = run_id, rn_started_at = at, rn_completed_at = Some at,
                   rn_status = ''AWAITING_CONSENSUS'', rn_summary = Some counts\<rparr> (runs d1),
                discrepancies := add_discrepancy x run_id at (discrepancies d1)\<rparr>))"

definition promote_authority ::
    "(json \<Rightarrow> string) \<Rightarrow> broker_snapshot \<Rightarrow> time \<Rightarrow> reconciliation_report \<Rightarrow> store
      \<Rightarrow> reconciliation_report res \<times> store" where
  "promote_authority H s at report d =
     and_then (record_broker_snapshot_authority s (rp_run_id report) (rp_status report) at d)
       (\<lambda>promoted d1.
         if rp_status report = ''CONVERGED'' \<and> \<not> promoted
         then and_then (open_freeze_ticket H ''BROKER_AUTHORITY_COMPONENTS_INCOMPLETE'' ''reconciler'' at
                          ''BLOCKING'' False d1)
                (\<lambda>_ d2. (Inr (report\<lparr>rp_status := ''AUTHORITY_REJECTED'', rp_frozen := True\<rparr>), d2))
         else (Inr report, d1))"

definition reconcile_authoritative ::
    "(json \<Rightarrow> string) \<Rightarrow> broker_snapshot \<Rightarrow> time \<Rightarrow> duration \<Rightarrow> store \<Rightarrow> reconciliation_report res \<times> store" where
  "reconcile_authoritative H s at minimum_interval d =
     (if \<not> bs_complete s then reconcile H s at d
      else and_then (register_snapshot_consensus s at minimum_interval d) (\<lambda>(consensus, n_votes) d1.
        if \<not> consensus then await_consensus H s at n_votes d1
        else and_then (reconcile H s at d1) (\<lambda>report d2. promote_authority H s at report d2)))"

subsection \<open>Fail closed\<close>

text \<open>No ticket of the reconciler was opened with a lower severity.\<close>

definition reconciler_blocks :: "store \<Rightarrow> bool" where
  "reconciler_blocks d \<longleftrightarrow> (\<forall>t \<in> set (tickets d). ft_source t = ''reconciler'' \<longrightarrow> ft_severity t = ''BLOCKING'')"

lemma same_book_naked [simp]:
  "same_book H d (snd (record_naked_exposure H' x q ms at d1)) = same_book H d d1"
  by (simp add: record_naked_exposure_def Let_def)

lemma same_book_resolve_unknown: "same_book H d d1 \<Longrightarrow> same_book H d (resolve_unknown_at_broker H k b at d1)"
  by (simp add: resolve_unknown_at_broker_def same_book_append split: option.splits)

lemma same_book_requeue:
  "same_book H d d1 \<Longrightarrow> requeue_unknown_absent_at_broker H k as_of at d1 = (r, d2) \<Longrightarrow> same_book H d d2"
  by (auto simp: requeue_unknown_absent_at_broker_def same_book_append Let_def split: option.splits if_splits)

text \<open>What the loops leave alone: the tickets and the summary row.\<close>

definition same_freeze :: "store \<Rightarrow> store \<Rightarrow> bool" where
  "same_freeze d d' \<longleftrightarrow> tickets d' = tickets d \<and> control d' = control d"

lemma same_freeze_refl [simp]: "same_freeze d d"
  by (simp add: same_freeze_def)

lemma same_freeze_core: "core d' = core d \<Longrightarrow> same_freeze d d'"
  by (simp add: core_def same_freeze_def)

lemma same_freeze_trans: "same_freeze a b \<Longrightarrow> same_freeze b c \<Longrightarrow> same_freeze a c"
  by (simp add: same_freeze_def)

text \<open>A step of the comparison: it keeps the freeze, the book and the invariant of the store.\<close>

definition quiet :: "(json \<Rightarrow> string) \<Rightarrow> store \<Rightarrow> store \<Rightarrow> bool" where
  "quiet H d d' \<longleftrightarrow> core d' = core d \<and> same_book H d d' \<and> (inj H \<longrightarrow> store_inv H d \<longrightarrow> store_inv H d')"

lemma quiet_refl [simp]: "quiet H d d"
  by (simp add: quiet_def)

lemma quiet_trans: "quiet H a b \<Longrightarrow> quiet H b c \<Longrightarrow> quiet H a c"
  by (auto simp: quiet_def intro: same_book_trans)

lemma quiet_op:
  assumes "core (exec_op H op d) = core d" and "op_ok op"
    and "\<And>c r i fp. op \<noteq> Op_stage c r i fp" and "\<And>e. op \<noteq> Op_ingest e"
  shows "quiet H d (exec_op H op d)"
  using assms same_book_exec [OF assms(3,4)] store_inv_exec by (simp add: quiet_def)

lemma quiet_resolve_unknown: "quiet H d (resolve_unknown_at_broker H k b at d)"
  using quiet_op [of H "Op_resolve_unknown k b at" d] core_unchanged(11) [of H k b at d] by simp

lemma quiet_requeue: "requeue_unknown_absent_at_broker H k as_of at d = (r, d') \<Longrightarrow> quiet H d d'"
  using quiet_op [of H "Op_requeue_unknown k as_of at" d] core_unchanged(12) [of H k as_of at d] by simp

lemma quiet_recover: "quiet H d (snd (recover_claimed_as_unknown H at d))"
  using quiet_op [of H "Op_recover at" d] core_unchanged(10) [of H at d] by simp

lemma quiet_naked: "quiet H d (snd (record_naked_exposure H x q ms at d))"
  using quiet_op [of H "Op_naked_exposure x q ms at" d] core_unchanged(19) [of H x q ms at d] by simp

lemma quiet_baseline: "quiet H d (set_account_baseline s d)"
  using quiet_op [of H "Op_baseline s" d] core_unchanged(14) [of H s d] by simp

lemma quiet_tables: "quiet H d (d\<lparr>runs := rs, discrepancies := ds\<rparr>)"
  using quiet_op [of H "Op_reconciliation_tables rs ds" d] core_unchanged(20) [of H rs ds d] by simp

lemma quiet_compare_orders: "compare_orders H locals at orders d = (r, d') \<Longrightarrow> quiet H d d'"
proof (induction orders arbitrary: d r d')
  case (Cons x orders)
  obtain key o' where x: "x = (key, o')" by fastforce
  let ?d1 = "resolve_unknown_at_broker H key (bo_broker_order_id o') at d"
  show ?case
  proof (cases "map_of locals key")
    case None
    obtain r1 d1 where "compare_orders H locals at orders d = (r1, d1)" by fastforce
    then show ?thesis using Cons x None by (cases r1) auto
  next
    case (Some row)
    obtain r1 d1 where c: "compare_orders H locals at orders ?d1 = (r1, d1)" by fastforce
    have "d' = ?d1 \<or> d' = d1"
      using Cons.prems x Some c by (cases r1) (auto simp: Let_def split: sum.splits)
    then show ?thesis using Cons.IH [OF c] quiet_resolve_unknown quiet_trans by blast
  qed
qed simp

lemma quiet_compare_locals: "compare_locals H orders as_of at locals d = (r, d') \<Longrightarrow> quiet H d d'"
proof (induction locals arbitrary: d r d')
  case (Cons x locals)
  obtain key row where x: "x = (key, row)" by fastforce
  obtain q d1 where rq: "requeue_unknown_absent_at_broker H key as_of at d = (q, d1)" by fastforce
  obtain r1 d2 where c1: "compare_locals H orders as_of at locals d1 = (r1, d2)" by fastforce
  obtain r2 d3 where c2: "compare_locals H orders as_of at locals d = (r2, d3)" by fastforce
  have "d' = d1 \<or> d' = d2 \<or> d' = d3"
    using Cons.prems x rq c1 c2 by (cases q; cases r1; cases r2) (auto split: if_splits)
  then show ?case
    using quiet_requeue [OF rq] quiet_trans [OF quiet_requeue [OF rq] Cons.IH [OF c1]] Cons.IH [OF c2] by auto
qed simp

lemma quiet_compare_protection: "compare_protection H locals s at orders d = (r, d') \<Longrightarrow> quiet H d d'"
proof (induction orders arbitrary: d r d')
  case (Cons x orders)
  obtain key o' where x: "x = (key, o')" by fastforce
  have rec: "quiet H d d2" if "compare_protection H locals s at orders
      (snd (record_naked_exposure H i q ms at d)) = (r1, d2)" for i q ms r1 d2
    using quiet_trans [OF quiet_naked Cons.IH [OF that]] .
  show ?case
    using Cons.prems
    by (auto simp: x Let_def and_then_def split: option.splits sum.splits if_splits prod.splits
        intro: Cons.IH rec) (metis Cons.IH rec prod.collapse)+
qed simp

lemma quiet_compare_cash: "compare_cash H s d = (fs, d') \<Longrightarrow> quiet H d d'"
  by (auto simp: compare_cash_def quiet_baseline split: option.splits if_splits)

lemma quiet_naked_loop: "naked_exposures_loop H s orders at ks d = (fs, d') \<Longrightarrow> quiet H d d'"
proof (induction ks arbitrary: d fs d')
  case (Cons k ks)
  show ?case
    using Cons.prems Cons.IH quiet_trans [OF quiet_naked Cons.IH]
    by (auto simp: Let_def split: if_splits prod.splits)
qed simp

definition blocked :: "store \<Rightarrow> bool" where
  "blocked d = list_ex is_blocking (tickets d)"

lemma blocked_core: "core d' = core d \<Longrightarrow> blocked d' = blocked d"
  by (simp add: core_def blocked_def)

lemma blocked_quiet: "quiet H d d' \<Longrightarrow> blocked d' = blocked d"
  by (intro blocked_core) (simp add: quiet_def)

lemma blocked_open_keep:
  assumes "open_freeze_ticket H reason source at sev tx d = (r, d')" and b: "blocked d"
  shows "blocked d'"
  using assms(1)
proof (cases rule: open_ticket_cases)
  case (opened t)
  show ?thesis using b by (simp add: blocked_def opened(6))
qed (use b in simp_all)

lemma blocked_freeze: "freeze H reason at tx d = (r, d') \<Longrightarrow> blocked d \<Longrightarrow> blocked d'"
  using blocked_open_keep [of H "map upper_char reason" "''legacy''" at "''BLOCKING''" tx d]
  by (cases "open_freeze_ticket H (map upper_char reason) ''legacy'' at ''BLOCKING'' tx d")
    (auto simp: freeze_def and_then_def split: sum.splits)

lemma blocked_ingest: "ingest_broker_event H e d = (r, d') \<Longrightarrow> blocked d \<Longrightarrow> blocked d'"
proof (erule ingest_cases)
  fix row
  assume "blocked d" and "d' = applied H row e d"
  then show ?thesis using blocked_core [OF core_applied] by simp
qed (auto simp: blocked_def set_inbox_status_def dest!: blocked_freeze [unfolded blocked_def])

lemma ingest_docs: "ingest_broker_event H e d = (r, d') \<Longrightarrow> map iw_intent (intents d') = map iw_intent (intents d)"
proof (erule ingest_cases)
  assume f: "freeze H ''broker_only_order_or_event'' (be_received_at e) True
      (set_inbox_status (be_id e) IB_ORPHAN (d\<lparr>inbox := inbox d @ [\<lparr>bx_event = e, bx_status = IB_RECEIVED\<rparr>]\<rparr>)) = (Inr (), d')"
  then show ?thesis by (rule freeze_frame) (simp add: set_inbox_status_def)
qed (auto simp: applied_parts apply_to_intent_def map_update_where)

lemma ingest_known_keeps:
  assumes "ingest_known H local_keys es d = (r, d')"
  shows "(blocked d \<longrightarrow> blocked d') \<and> map iw_intent (intents d') = map iw_intent (intents d)
    \<and> (inj H \<longrightarrow> list_all event_amounts_ok es \<longrightarrow> store_inv H d \<longrightarrow> store_inv H d')"
  using assms
proof (induction es arbitrary: d)
  case (Cons e es)
  show ?case
  proof (cases "be_client_order_key e \<in> set local_keys")
    case True
    obtain q d1 where e: "ingest_broker_event H e d = (q, d1)" by fastforce
    have inv: "inj H \<longrightarrow> event_amounts_ok e \<longrightarrow> store_inv H d \<longrightarrow> store_inv H d1"
      using store_inv_exec [of H d "Op_ingest e"] e by simp
    show ?thesis
      using Cons True e inv blocked_ingest [OF e] ingest_docs [OF e] by (cases q) auto
  next
    case False
    then show ?thesis using Cons by auto
  qed
qed simp

lemma open_reconciler:
  assumes "reconciler_blocks d"
    and "open_freeze_ticket H reason ''reconciler'' at ''BLOCKING'' tx d = (r, d')"
  shows "reconciler_blocks d' \<and> (is_ok r \<longrightarrow> blocked d') \<and> (\<not> is_ok r \<longrightarrow> d' = d)"
  using assms(2)
proof (cases rule: open_ticket_cases)
  case (existing t)
  then show ?thesis using assms(1) by (auto simp: reconciler_blocks_def blocked_def list_ex_iff is_blocking_def)
next
  case (opened t)
  then show ?thesis using assms(1) by (auto simp: reconciler_blocks_def blocked_def list_ex_iff is_blocking_def)
qed (use assms(1) in auto)

lemma begin_run_keeps:
  assumes "reconciler_blocks d" and "begin_run H s at d = (r, d')"
  shows "blocked d' \<or> (\<not> is_ok r \<and> d' = d)"
proof -
  let ?o = "open_freeze_ticket H ''RECONCILIATION_IN_PROGRESS'' ''reconciler'' at ''BLOCKING'' False d"
  obtain q d1 where o: "?o = (q, d1)" by fastforce
  note b = open_reconciler [OF assms(1) o]
  show ?thesis
  proof (cases q)
    case (Inl e)
    then show ?thesis using assms(2) o b by (auto simp: begin_run_def)
  next
    case (Inr u)
    then have "blocked d1" using b by simp
    then have "blocked (d1\<lparr>runs := rs\<rparr>)" for rs by (simp add: blocked_def)
    then show ?thesis
      using assms(2) o Inr \<open>blocked d1\<close> by (auto simp: begin_run_def split: sum.splits)
  qed
qed

text \<open>The five loops after the ingestion, as one quiet step with its findings.\<close>

lemma compare_all_split:
  assumes "compare_all H s at d = (r, d')"
  obtains d2 q where
    "ingest_known H (map fst (local_by_key (snd (recover_claimed_as_unknown H at d)))) (bs_events s)
       (snd (recover_claimed_as_unknown H at d)) = (q, d2)" "quiet H d2 d'"
proof -
  let ?d1 = "snd (recover_claimed_as_unknown H at d)"
  let ?l = "local_by_key ?d1" and ?o = "broker_by_key s"
  obtain q d2 where i: "ingest_known H (map fst ?l) (bs_events s) ?d1 = (q, d2)" by fastforce
  obtain q3 d3 where c3: "compare_orders H ?l at ?o d2 = (q3, d3)" by fastforce
  obtain q4 d4 where c4: "compare_locals H ?o (bs_as_of s) at ?l d3 = (q4, d4)" by fastforce
  obtain q5 d5 where c5: "compare_protection H ?l s at ?o d4 = (q5, d5)" by fastforce
  obtain f6 d6 where c6: "compare_cash H s d5 = (f6, d6)" by fastforce
  obtain f7 d7 where c7: "naked_exposures_loop H s ?o at (sort (map fst (bs_positions s))) d6 = (f7, d7)" by fastforce
  have "d' = d2 \<or> d' = d3 \<or> d' = d4 \<or> d' = d5 \<or> d' = d7"
    using assms i c3 c4 c5 c6 c7
    by (cases q; cases q3; cases q4; cases q5) (auto simp: compare_all_def Let_def)
  moreover have "quiet H d2 d3" "quiet H d3 d4" "quiet H d4 d5" "quiet H d5 d6" "quiet H d6 d7"
    using quiet_compare_orders [OF c3] quiet_compare_locals [OF c4] quiet_compare_protection [OF c5]
      quiet_compare_cash [OF c6] quiet_naked_loop [OF c7] by simp_all
  ultimately have "quiet H d2 d'" using quiet_refl quiet_trans by metis
  then show thesis using i that by blast
qed

lemma compare_all_keeps:
  assumes "compare_all H s at d = (r, d')"
  shows "(blocked d \<longrightarrow> blocked d') \<and>
    (inj H \<longrightarrow> list_all event_amounts_ok (bs_events s) \<longrightarrow> store_inv H d \<longrightarrow> store_inv H d')"
proof -
  obtain d2 q where i: "ingest_known H (map fst (local_by_key (snd (recover_claimed_as_unknown H at d)))) (bs_events s)
       (snd (recover_claimed_as_unknown H at d)) = (q, d2)" and c: "quiet H d2 d'"
    using assms by (rule compare_all_split)
  show ?thesis
    using ingest_known_keeps [OF i] c quiet_recover [of H d at] blocked_quiet [OF c] blocked_quiet [OF quiet_recover [of H d at]]
    by (auto simp: quiet_def)
qed

lemma finish_run_keeps:
  assumes f: "finish_run H s at found d = (r, d')"
  shows "list_ex is_critical found \<Longrightarrow> blocked d \<Longrightarrow> blocked d'"
    and "r = Inr rep \<Longrightarrow> rp_discrepancies rep = found \<and> rp_frozen rep = list_ex is_critical found
           \<and> rp_status rep = run_status found"
proof -
  let ?d1 = "persist_run (reconcile_id H s at) at found d"
  obtain q d1 where o: "open_freeze_ticket H ''CRITICAL_RECONCILIATION_DISCREPANCY'' ''reconciler'' at
      ''BLOCKING'' False ?d1 = (q, d1)" by fastforce
  show "list_ex is_critical found \<Longrightarrow> blocked d \<Longrightarrow> blocked d'"
    using f o blocked_open_keep [OF o]
    by (cases q) (auto simp: finish_run_def Let_def blocked_def persist_run_def)
  show "r = Inr rep \<Longrightarrow> rp_discrepancies rep = found \<and> rp_frozen rep = list_ex is_critical found
           \<and> rp_status rep = run_status found"
    using f o by (cases q) (auto simp: finish_run_def Let_def split: if_splits)
qed

lemma reconcile_fail_closed:
  assumes rb: "reconciler_blocks d" and r: "reconcile H s at d = (r, d')"
  shows "(\<exists>rep. r = Inr rep \<and> \<not> rp_frozen rep) \<or> blocked d'
    \<or> (\<not> is_ok r \<and> core d' = core d \<and> same_book H d d')"
proof (cases "bs_complete s")
  case False
  let ?x = "discrepancy H CRITICAL ''INCOMPLETE_BROKER_SNAPSHOT''
              (or_else (bs_certificate_id s) ''missing-certificate'') (JObj [(''snapshot_as_of'', JTime (bs_as_of s))])"
  obtain rs ds where d1: "record_incomplete H s at d = and_then (open_freeze_ticket H ''INCOMPLETE_BROKER_SNAPSHOT''
      ''reconciler'' at ''BLOCKING'' False (d\<lparr>runs := rs, discrepancies := ds\<rparr>))
           (\<lambda>_ d2. (Inr \<lparr>rp_run_id = reconcile_id H s at, rp_status = ''INCOMPLETE_SNAPSHOT'', rp_discrepancies = [?x],
                        rp_frozen = True\<rparr>, d2))"
    by (simp add: record_incomplete_def Let_def)
  let ?d1 = "d\<lparr>runs := rs, discrepancies := ds\<rparr>"
  have rb1: "reconciler_blocks ?d1" using rb by (simp add: reconciler_blocks_def)
  obtain q d2 where o: "open_freeze_ticket H ''INCOMPLETE_BROKER_SNAPSHOT''
      ''reconciler'' at ''BLOCKING'' False ?d1 = (q, d2)" by fastforce
  show ?thesis
    using open_reconciler [OF rb1 o] r False d1 o by (cases q) (auto simp: reconcile_def)
next
  case True
  obtain q d1 where b: "begin_run H s at d = (q, d1)" by fastforce
  note bk = begin_run_keeps [OF rb b]
  show ?thesis
  proof (cases q)
    case (Inl e)
    then show ?thesis using r True b bk by (auto simp: reconcile_def)
  next
    case (Inr u)
    then have bd1: "blocked d1" using bk by simp
    obtain q2 d2 where c: "compare_all H s at d1 = (q2, d2)" by fastforce
    have bd2: "blocked d2" using compare_all_keeps [OF c] bd1 by simp
    show ?thesis
    proof (cases q2)
      case (Inl e)
      then show ?thesis using r True b Inr c bd2 by (simp add: reconcile_def)
    next
      case (Inr found)
      then have f: "finish_run H s at found d2 = (r, d')" using r True b c \<open>q = Inr u\<close> by (simp add: reconcile_def)
      show ?thesis
      proof (cases "list_ex is_critical found")
        case True
        then show ?thesis using finish_run_keeps(1) [OF f] bd2 by simp
      next
        case False
        then show ?thesis using f by (auto simp: finish_run_def Let_def)
      qed
    qed
  qed
qed

subsection \<open>What an unfrozen run has checked\<close>

lemma dict_of_sub: "set (fold (\<lambda>kv acc. upsert fst (\<lambda>_ new. new) kv acc) kvs acc) \<subseteq> set acc \<union> set kvs"
proof (induction kvs arbitrary: acc)
  case (Cons kv kvs)
  have "set (upsert fst (\<lambda>_ new. new) kv acc) \<subseteq> insert kv (set acc)"
    by (auto simp: upsert_def set_update_where)
  then show ?case using Cons.IH [of "upsert fst (\<lambda>_ new. new) kv acc"] by auto
qed simp

lemma dict_of_keys_fold:
  "fst ` set (fold (\<lambda>kv acc. upsert fst (\<lambda>_ new. new) kv acc) kvs acc) = fst ` set acc \<union> fst ` set kvs"
proof (induction kvs arbitrary: acc)
  case (Cons kv kvs)
  have "fst ` set (upsert fst (\<lambda>_ new. new) kv acc) = insert (fst kv) (fst ` set acc)"
  proof (cases "fst kv \<in> fst ` set acc")
    case True
    then have "upsert fst (\<lambda>_ new. new) kv acc = update_where (\<lambda>r. fst r = fst kv) (\<lambda>_. kv) acc"
      by (auto simp: upsert_def list_ex_iff)
    moreover have "map fst (update_where (\<lambda>r. fst r = fst kv) (\<lambda>_. kv) acc) = map fst acc"
      by (rule map_update_where) simp
    ultimately have "fst ` set (upsert fst (\<lambda>_ new. new) kv acc) = fst ` set acc" by (metis set_map)
    then show ?thesis using True by blast
  next
    case False
    then have "\<not> list_ex (\<lambda>r. fst r = fst kv) acc" unfolding list_ex_iff by (metis imageI)
    then have "upsert fst (\<lambda>_ new. new) kv acc = acc @ [kv]" by (simp add: upsert_def)
    then show ?thesis by simp
  qed
  then show ?case using Cons.IH [of "upsert fst (\<lambda>_ new. new) kv acc"] by auto
qed simp

lemma dict_of_entries: "set (dict_of kvs) \<subseteq> set kvs"
  using dict_of_sub [of kvs "[]"] by (simp add: dict_of_def)

lemma dict_of_keys: "fst ` set (dict_of kvs) = fst ` set kvs"
  using dict_of_keys_fold [of kvs "[]"] by (simp add: dict_of_def)

lemma dict_of_distinct:
  assumes "distinct (map fst kvs)"
  shows "set (dict_of kvs) = set kvs"
proof
  show "set (dict_of kvs) \<subseteq> set kvs" by (rule dict_of_entries)
  show "set kvs \<subseteq> set (dict_of kvs)"
  proof
    fix kv assume kv: "kv \<in> set kvs"
    then obtain kv' where "kv' \<in> set (dict_of kvs)" "fst kv' = fst kv"
      using dict_of_keys [of kvs] by (metis imageE imageI)
    moreover then have "kv' = kv"
      using dict_of_entries same_key_same_row [OF assms _ kv] by blast
    ultimately show "kv \<in> set (dict_of kvs)" by simp
  qed
qed

text \<open>The local position of an instrument is the signed sum of the fills of its intents.\<close>

lemma local_positions_sum:
  "get_or_zero (local_positions d) k =
     total_of (\<lambda>(i, f). if xi_instrument_id i = k then signed_qty (xi_side i) f else 0) (intent_book d)"
proof -
  let ?step = "\<lambda>r acc. upsert fst (\<lambda>old new. (fst old, snd old + snd new))
             (xi_instrument_id (iw_intent r), signed_qty (xi_side (iw_intent r)) (iw_filled r)) acc"
  let ?val = "\<lambda>r. if xi_instrument_id (iw_intent r) = k then signed_qty (xi_side (iw_intent r)) (iw_filled r) else 0"
  have sums: "get_or_zero (fold ?step rows acc) k = get_or_zero acc k + total_of ?val rows" for rows acc
  proof (induction rows arbitrary: acc)
    case (Cons r rows)
    have "get_or_zero (?step r acc) k = get_or_zero acc k + ?val r"
      using count_upsert [of "xi_instrument_id (iw_intent r)" "signed_qty (xi_side (iw_intent r)) (iw_filled r)" acc k]
      by (simp add: get_or_zero_def eq_commute [of k])
    then show ?case by (simp add: Cons.IH)
  qed simp
  have "get_or_zero (local_positions d) k = total_of ?val (intents_by_id d)"
    using sums [of "intents_by_id d" "[]"] by (simp add: local_positions_def get_or_zero_def)
  also have "\<dots> = total_of ?val (intents d)"
    unfolding intents_by_id_def by (rule total_mset) simp
  finally show ?thesis by (simp add: intent_book_def comp_def)
qed

lemma critical_discrepancy [simp]:
  "is_critical (discrepancy H CRITICAL kind entity details)" "\<not> is_critical (discrepancy H WARNING kind entity details)"
  by (simp_all add: is_critical_def discrepancy_def)

lemma compare_positions_none:
  assumes "\<not> list_ex is_critical (compare_positions H s d)"
  shows "get_or_zero (local_positions d) k = get_or_zero (bs_positions s) k"
proof (cases "k \<in> fst ` set (local_positions d) \<union> fst ` set (bs_positions s)")
  case True
  then show ?thesis using assms
    by (auto simp: compare_positions_def Let_def list_ex_iff)
next
  case False
  then have "map_of (local_positions d) k = None" "map_of (bs_positions s) k = None"
    by (simp_all add: map_of_eq_None_iff)
  then show ?thesis by (simp add: get_or_zero_def)
qed

lemma quiet_book: "quiet H d d' \<Longrightarrow> intent_book d' = intent_book d"
  by (simp add: quiet_def same_book_def)

lemma intent_row_book:
  "intent_row_of d x = Inr r \<Longrightarrow> (iw_intent r, iw_filled r) \<in> set (intent_book d) \<and> iw_id r = x"
  by (auto simp: intent_book_def dest!: intent_row_of_Inr)

lemma compare_orders_none:
  assumes "compare_orders H locals at orders d = (Inr fs, d')" and "\<not> list_ex is_critical fs"
    and "(key, o') \<in> set orders"
  shows "\<exists>row i. map_of locals key = Some row \<and> (i, bo_filled_quantity o') \<in> set (intent_book d') \<and> xi_id i = iw_id row"
  using assms
proof (induction orders arbitrary: d fs)
  case (Cons x orders)
  obtain k b where x: "x = (k, b)" by fastforce
  show ?case
  proof (cases "map_of locals k")
    case None
    then have "list_ex is_critical fs"
      using Cons.prems(1) x by (auto simp: and_then_Inr_iff)
    then show ?thesis using Cons.prems(2) by simp
  next
    case (Some row)
    let ?d1 = "resolve_unknown_at_broker H k (bo_broker_order_id b) at d"
    obtain r fs' where r: "intent_row_of ?d1 (iw_id row) = Inr r"
      and rest: "compare_orders H locals at orders ?d1 = (Inr fs', d')"
      and fs: "fs = (if iw_filled r \<noteq> bo_filled_quantity b
                     then [discrepancy H CRITICAL ''FILL_QUANTITY_MISMATCH'' k
                       (JObj [(''local'', JInt (iw_filled r)), (''broker'', JInt (bo_filled_quantity b))])] else []) @ fs'"
      using Cons.prems(1) x Some by (auto simp: Let_def and_then_Inr_iff split: sum.splits)
    have eq: "iw_filled r = bo_filled_quantity b" and none: "\<not> list_ex is_critical fs'"
      using Cons.prems(2) fs by (auto simp: split: if_splits)
    show ?thesis
    proof (cases "(key, o') = x")
      case True
      have "intent_book d' = intent_book ?d1" using quiet_book [OF quiet_compare_orders [OF rest]] .
      then show ?thesis using intent_row_book [OF r] True x Some eq by auto
    next
      case False
      then show ?thesis using Cons.IH [OF rest none] Cons.prems(3) by simp
    qed
  qed
qed simp

lemma compare_cash_none:
  assumes "compare_cash H s d = (fs, d')" and "\<not> list_ex is_critical fs"
  shows "\<exists>e. expected_account_cash d' = Some e \<and> \<bar>e - bs_cash s\<bar> \<le> cent"
proof (cases "expected_account_cash d")
  case None
  then have "baseline d = None" by (simp add: expected_account_cash_def split: option.splits)
  then have "expected_account_cash d' = Some (bs_cash s)"
    using assms(1) None by (auto simp: compare_cash_def set_account_baseline_def baseline_of_def expected_account_cash_def)
  then show ?thesis by (simp add: cent_def)
next
  case (Some e)
  then show ?thesis
    using assms by (auto simp: compare_cash_def split: if_splits)
qed

lemma naked_loop_none:
  assumes "naked_exposures_loop H s orders at ks d = (fs, d')" and "\<not> list_ex is_critical fs" and "k \<in> set ks"
  shows "get_or_zero (bs_positions s) k \<le> get_or_zero (bs_protections s) k"
  using assms
  by (induction ks arbitrary: d fs) (auto simp: Let_def split: if_splits prod.splits)

lemma naked_baseline: "naked_exposures_loop H s orders at ks d = (fs, d') \<Longrightarrow> expected_account_cash d' = expected_account_cash d"
proof (induction ks arbitrary: d fs)
  case (Cons k ks)
  have "expected_account_cash (snd (record_naked_exposure H k q ms at d)) = expected_account_cash d" for q ms
    by (simp add: record_naked_exposure_def expected_account_cash_def Let_def split: option.splits)
  then show ?case using Cons by (auto simp: Let_def split: if_splits prod.splits)
qed simp


lemma finish_run_book:
  assumes "finish_run H s at found d = (Inr rep, d')" and "\<not> rp_frozen rep"
  shows "\<not> list_ex is_critical found \<and> intent_book d' = intent_book d \<and> expected_account_cash d' = expected_account_cash d"
proof -
  have none: "\<not> list_ex is_critical found" using finish_run_keeps(2) [OF assms(1) refl] assms(2) by simp
  let ?d1 = "persist_run (reconcile_id H s at) at found d"
  have d': "d' = unfreeze_after_reconciliation at ?d1" using assms(1) none by (simp add: finish_run_def Let_def)
  have "same_book H ?d1 d'" unfolding d' by (rule same_book_unfreeze)
  moreover have "baseline (unfreeze_after_reconciliation at d1) = baseline d1" for d1
  proof -
    have "baseline (fold (\<lambda>(reason, source) s. snd (resolve_freeze_ticket reason source at ev s)) rs d1) = baseline d1"
      for rs ev by (induction rs arbitrary: d1) (auto simp: resolve_freeze_ticket_def Let_def)
    then show ?thesis by (simp add: unfreeze_after_reconciliation_def refresh_control_def Let_def)
  qed
  moreover have "intent_book ?d1 = intent_book d" "baseline ?d1 = baseline d" "cash_delta ?d1 = cash_delta d"
    by (simp_all add: persist_run_def intent_book_def)
  ultimately show ?thesis
    using none by (simp add: d' same_book_def expected_account_cash_def split: option.splits)
qed

lemma record_naked_cash: "expected_account_cash (snd (record_naked_exposure H x q ms at d)) = expected_account_cash d"
  by (simp add: record_naked_exposure_def expected_account_cash_def Let_def split: option.splits)

text \<open>A complete run split at its loops, when it does not raise.\<close>

lemma compare_all_steps:
  assumes "compare_all H s at d = (Inr found, d')"
  obtains d1 d2 d3 d4 d5 d6 f1 f2 f4 f5 f7 where
    "d1 = snd (recover_claimed_as_unknown H at d)"
    "ingest_known H (map fst (local_by_key d1)) (bs_events s) d1 = (Inr (), d2)"
    "compare_orders H (local_by_key d1) at (broker_by_key s) d2 = (Inr f1, d3)"
    "compare_locals H (broker_by_key s) (bs_as_of s) at (local_by_key d1) d3 = (Inr f2, d4)"
    "compare_protection H (local_by_key d1) s at (broker_by_key s) d4 = (Inr f4, d5)"
    "compare_cash H s d5 = (f5, d6)"
    "naked_exposures_loop H s (broker_by_key s) at (sort (map fst (bs_positions s))) d6 = (f7, d')"
    "found = f1 @ f2 @ compare_positions H s d4 @ f4 @ f5 @ compare_fields H s d6 @ f7"
proof -
  let ?d1 = "snd (recover_claimed_as_unknown H at d)"
  obtain u d2 where i: "ingest_known H (map fst (local_by_key ?d1)) (bs_events s) ?d1 = (Inr u, d2)"
    using assms by (auto simp: compare_all_def Let_def and_then_Inr_iff)
  obtain f1 d3 where c1: "compare_orders H (local_by_key ?d1) at (broker_by_key s) d2 = (Inr f1, d3)"
    using assms i by (auto simp: compare_all_def Let_def and_then_Inr_iff)
  obtain f2 d4 where c2: "compare_locals H (broker_by_key s) (bs_as_of s) at (local_by_key ?d1) d3 = (Inr f2, d4)"
    using assms i c1 by (auto simp: compare_all_def Let_def and_then_Inr_iff)
  obtain f4 d5 where c4: "compare_protection H (local_by_key ?d1) s at (broker_by_key s) d4 = (Inr f4, d5)"
    using assms i c1 c2 by (auto simp: compare_all_def Let_def and_then_Inr_iff)
  obtain f5 d6 where c5: "compare_cash H s d5 = (f5, d6)" by fastforce
  obtain f7 d7 where c7: "naked_exposures_loop H s (broker_by_key s) at (sort (map fst (bs_positions s))) d6 = (f7, d7)"
    by fastforce
  have "(found, d') = (f1 @ f2 @ compare_positions H s d4 @ f4 @ f5 @ compare_fields H s d6 @ f7, d7)"
    using assms i c1 c2 c4 c5 c7 by (simp add: compare_all_def Let_def)
  then show thesis using that [OF refl i [simplified] c1 c2 c4 c5] c7 by simp
qed

lemma unfrozen_run_sound:
  assumes ids: "distinct (map iw_id (intents d))" and keys: "distinct (map bo_client_order_key (bs_orders s))"
    and run: "compare_all H s at d = (Inr found, d')" and none: "\<not> list_ex is_critical found"
  shows "\<forall>o' \<in> set (bs_orders s). \<exists>r \<in> set (intents d').
           iw_key r = bo_client_order_key o' \<and> iw_filled r = bo_filled_quantity o'"
    and "get_or_zero (local_positions d') k = get_or_zero (bs_positions s) k"
    and "\<exists>e. expected_account_cash d' = Some e \<and> \<bar>e - bs_cash s\<bar> \<le> cent"
    and "k \<in> fst ` set (bs_positions s) \<Longrightarrow> get_or_zero (bs_positions s) k \<le> get_or_zero (bs_protections s) k"
proof -
  obtain d1 d2 d3 d4 d5 d6 f1 f2 f4 f5 f7 where c: "d1 = snd (recover_claimed_as_unknown H at d)"
    "ingest_known H (map fst (local_by_key d1)) (bs_events s) d1 = (Inr (), d2)"
    "compare_orders H (local_by_key d1) at (broker_by_key s) d2 = (Inr f1, d3)"
    "compare_locals H (broker_by_key s) (bs_as_of s) at (local_by_key d1) d3 = (Inr f2, d4)"
    "compare_protection H (local_by_key d1) s at (broker_by_key s) d4 = (Inr f4, d5)"
    "compare_cash H s d5 = (f5, d6)"
    "naked_exposures_loop H s (broker_by_key s) at (sort (map fst (bs_positions s))) d6 = (f7, d')"
    "found = f1 @ f2 @ compare_positions H s d4 @ f4 @ f5 @ compare_fields H s d6 @ f7"
    using run by (rule compare_all_steps)
  have nones: "\<not> list_ex is_critical f1" "\<not> list_ex is_critical (compare_positions H s d4)"
    "\<not> list_ex is_critical f5" "\<not> list_ex is_critical f7"
    using none by (simp_all add: c(8))
  have b45: "intent_book d5 = intent_book d4" using quiet_book [OF quiet_compare_protection [OF c(5)]] .
  have b56: "intent_book d6 = intent_book d5" using quiet_book [OF quiet_compare_cash [OF c(6)]] .
  have b67: "intent_book d' = intent_book d6" using quiet_book [OF quiet_naked_loop [OF c(7)]] .
  have b34: "intent_book d4 = intent_book d3" using quiet_book [OF quiet_compare_locals [OF c(4)]] .
  have b23: "intent_book d3 = intent_book d2" using quiet_book [OF quiet_compare_orders [OF c(3)]] .
  have docs: "map iw_intent (intents d') = map iw_intent (intents d)"
  proof -
    have "intent_book d' = intent_book d2" using b23 b34 b45 b56 b67 by simp
    then have "map iw_intent (intents d') = map iw_intent (intents d2)" by (rule intent_book_maps(1))
    also have "\<dots> = map iw_intent (intents d1)" using ingest_known_keeps [OF c(2)] by simp
    also have "\<dots> = map iw_intent (intents d)"
      unfolding c(1) by (rule intent_book_maps(1) [OF quiet_book [OF quiet_recover]])
    finally show ?thesis .
  qed
  have docs1: "map iw_intent (intents d1) = map iw_intent (intents d)"
    unfolding c(1) by (rule intent_book_maps(1) [OF quiet_book [OF quiet_recover]])
  show "get_or_zero (local_positions d') k = get_or_zero (bs_positions s) k"
    using compare_positions_none [OF nones(2), of k] b45 b56 b67 by (simp add: local_positions_sum)
  show "\<exists>e. expected_account_cash d' = Some e \<and> \<bar>e - bs_cash s\<bar> \<le> cent"
    using compare_cash_none [OF c(6) nones(3)] naked_baseline [OF c(7)] by simp
  show "k \<in> fst ` set (bs_positions s) \<Longrightarrow> get_or_zero (bs_positions s) k \<le> get_or_zero (bs_protections s) k"
    using naked_loop_none [OF c(7) nones(4), of k] by simp
  show "\<forall>o' \<in> set (bs_orders s). \<exists>r \<in> set (intents d').
           iw_key r = bo_client_order_key o' \<and> iw_filled r = bo_filled_quantity o'"
  proof
    fix o' assume o': "o' \<in> set (bs_orders s)"
    have "(bo_client_order_key o', o') \<in> set (broker_by_key s)"
      using o' keys dict_of_distinct [of "map (\<lambda>x. (bo_client_order_key x, x)) (bs_orders s)"]
      by (force simp: broker_by_key_def comp_def)
    then obtain row i where r: "map_of (local_by_key d1) (bo_client_order_key o') = Some row"
      "(i, bo_filled_quantity o') \<in> set (intent_book d3)" "xi_id i = iw_id row"
      using compare_orders_none [OF c(3) nones(1)] by blast
    have row: "row \<in> set (intents d1)" "iw_key row = bo_client_order_key o'"
      using map_of_SomeD [OF r(1)] dict_of_entries [of "map (\<lambda>r. (iw_key r, r)) (intents_by_id d1)"]
      by (auto simp: local_by_key_def intents_by_id_def)
    have "set (intent_book d3) = set (intent_book d')" using b34 b45 b56 b67 by simp
    then obtain r' where r': "r' \<in> set (intents d')" "iw_intent r' = i" "iw_filled r' = bo_filled_quantity o'"
      using r(2) by (auto simp: intent_book_def)
    have "iw_intent r' \<in> set (map iw_intent (intents d'))" using r'(1) by simp
    moreover have "iw_intent row \<in> set (map iw_intent (intents d'))" using row(1) docs docs1 by (metis image_eqI set_map)
    moreover have "distinct (map xi_id (map iw_intent (intents d')))" using ids docs by (simp add: comp_def)
    ultimately have "iw_intent r' = iw_intent row" using same_key_same_row r(3) r'(2) by metis
    then show "\<exists>r \<in> set (intents d'). iw_key r = bo_client_order_key o' \<and> iw_filled r = bo_filled_quantity o'"
      using r'(1,3) row(2) by metis
  qed
qed

lemma begin_run_intents:
  assumes "begin_run H s at d = (Inr u, d')"
  shows "intents d' = intents d"
proof -
  obtain t d1 where o: "open_freeze_ticket H ''RECONCILIATION_IN_PROGRESS'' ''reconciler'' at ''BLOCKING'' False d = (Inr t, d1)"
    using assms by (auto simp: begin_run_def and_then_Inr_iff)
  then have d': "\<exists>rs. d' = d1\<lparr>runs := rs\<rparr>"
    using assms by (auto simp: begin_run_def split: sum.splits)
  obtain ts c where "d1 = d\<lparr>tickets := ts, control := c\<rparr>" using o by (rule open_ticket_frame)
  then show ?thesis using d' by auto
qed

lemma book_member:
  assumes "intent_book d' = intent_book d" and "r \<in> set (intents d)"
  shows "\<exists>r' \<in> set (intents d'). iw_key r' = iw_key r \<and> iw_filled r' = iw_filled r"
proof -
  have "(iw_intent r, iw_filled r) \<in> set (intent_book d')" using assms by (simp add: intent_book_def)
  then show ?thesis by (auto simp: intent_book_def)
qed

end
