(* ===== verification/Exec_Properties.thy ===== *)
theory Exec_Properties
  imports Ctl_Properties Reconciliation
begin

section \<open>Properties of the broker, the worker and reconciliation\<close>

text \<open>
  The fake broker over arbitrary sequences of its operations, the worker's dispatch when the broker's
  answer is lost, and what a reconciliation run guarantees.
\<close>

subsection \<open>The fake broker\<close>

abbreviation broker_reached :: "(json \<Rightarrow> string) \<Rightarrow> rat \<Rightarrow> broker_op list \<Rightarrow> fake_broker" where
  "broker_reached H start ops \<equiv> fold (exec_broker H) ops (new_broker start)"

lemma broker_reached_inv: "list_all broker_op_ok ops \<Longrightarrow> broker_inv start (broker_reached H start ops)"
proof (rule broker_machine.run_inv)
  show "broker_inv start (new_broker start)" by (rule broker_inv_new)
  have "broker_machine.allowed_run H ops b" if "list_all broker_op_ok ops" for b
    using that by (induction ops arbitrary: b) auto
  then show "list_all broker_op_ok ops \<Longrightarrow> broker_machine.allowed_run H ops (new_broker start)" .
qed

text \<open>C31: after any sequence of broker operations there is one order per client order key, broker
  order ids are distinct, no order is filled beyond its quantity or beyond what its events say, and
  cash and positions are exactly the starting cash plus what the emitted events are worth.\<close>

theorem broker_books_balance:
  assumes "list_all broker_op_ok ops" and "b = broker_reached H start ops"
  shows "distinct (map fo_key (fb_orders b)) \<and> distinct (map fo_broker_order_id (fb_orders b))
    \<and> (\<forall>x \<in> set (fb_orders b). 0 \<le> fo_filled x \<and> fo_filled x \<le> xi_quantity (fo_intent x)
         \<and> fo_filled x = filled_of (fo_key x) (fb_events b))
    \<and> fb_cash b = start + cash_of (fb_intents b) (fb_events b)
    \<and> (\<forall>k. held b k = units_of (fb_intents b) (fb_events b) k)"
  using broker_reached_inv [OF assms(1), of start H]
  unfolding assms(2) broker_inv_def orders_inv_def cash_inv_def list_all_iff order_ok_def by blast

theorem broker_books_balance_witness:
  "let b = broker_reached unary_digest 100000 [Bo_submit sample_intent 1 30, Bo_fill ''k1'' 4 100 40] in
     fb_cash b = 100000 + cash_of (fb_intents b) (fb_events b)"
  using broker_books_balance [of "[Bo_submit sample_intent 1 30, Bo_fill ''k1'' 4 100 40]" _ unary_digest 100000]
  by (simp add: sample_intent_def intent_amounts_ok_def Let_def)

text \<open>the broker is idempotent by client order key: submitting an accepted intent again, under
  the same or a newer token, places no order, emits no event, moves no cash and no position, and
  answers with the events of the order so far.\<close>

theorem resubmission_is_idempotent:
  assumes "submit H i t at b = (Inr es, b')" and "t \<le> u"
  shows "fst (submit H i u at' b') = Inr (events_for (xi_client_order_key i) b')
    \<and> fb_orders (snd (submit H i u at' b')) = fb_orders b' \<and> fb_events (snd (submit H i u at' b')) = fb_events b'
    \<and> fb_cash (snd (submit H i u at' b')) = fb_cash b' \<and> fb_positions (snd (submit H i u at' b')) = fb_positions b'"
proof -
  have "xi_client_order_key i \<in> broker_keys b'"
    using submit_body_answered [OF submit_Inr [OF assms(1)]] by simp
  then have "fb_order b' (xi_client_order_key i) \<noteq> None"
    by (auto simp: broker_keys_def fb_order_def find_None_set)
  then obtain row where row: "fb_order b' (xi_client_order_key i) = Some row" by blast
  have "is_ok (fst (submit H i t at b))" using assms(1) by simp
  then have tok: "fb_highest_token b' = t" using fake.accepted [of H i t at b] assms(1) by simp
  have "submit_body H i u at' b' = (Inr (events_for (xi_client_order_key i) (b'\<lparr>fb_highest_token := u\<rparr>)),
      tape H ''IN'' ''IDEMPOTENT_SUBMIT'' (intent_json i) at' (b'\<lparr>fb_highest_token := u\<rparr>))"
    using row assms(2) tok by (simp add: submit_body_def accept_fencing_token_def fb_order_def)
  then show ?thesis by (simp add: submit_def broker_transaction_def events_for_def)
qed

lemma sample_submit: "\<exists>es b'. submit H sample_intent 1 30 (new_broker 100000) = (Inr es, b')"
  by (simp add: submit_def broker_transaction_def submit_body_def accept_fencing_token_def new_broker_def fb_order_def
      next_scenario_def add_order_def insert_row_def respond_def emit_def tape_def Let_def)

theorem resubmission_is_idempotent_witness:
  "\<exists>es b'. submit unary_digest sample_intent 1 30 (new_broker 100000) = (Inr es, b')
     \<and> fb_orders (snd (submit unary_digest sample_intent 2 50 b')) = fb_orders b'"
proof -
  obtain es b' where s: "submit unary_digest sample_intent 1 30 (new_broker 100000) = (Inr es, b')"
    using sample_submit by blast
  then show ?thesis using resubmission_is_idempotent [OF s, of 2 50] by auto
qed

text \<open>C36: the broker's fence: a writer whose token is below the highest the broker has seen can
  neither submit nor cancel; both calls raise and leave the broker unchanged. A worker publishes its
  token when it starts, so from then on every older writer is shut out.\<close>

theorem broker_rejects_older_tokens:
  assumes "start_worker l b = (Inr u, b')" and "t < ls_token l"
  shows "(\<exists>e. submit H i t at b' = (Inl e, b')) \<and> (\<exists>e. cancel H key t at before b' = (Inl e, b'))"
proof -
  have "fb_highest_token b' = ls_token l"
    using assms(1) by (auto simp: start_worker_def advance_fence_def accept_fencing_token_def split: if_splits)
  then show ?thesis using assms(2)
    by (simp add: submit_def cancel_def submit_body_def cancel_body_def broker_transaction_def
        accept_fencing_token_def is_unknown_def)
qed

theorem broker_rejects_older_tokens_witness:
  "\<exists>b'. start_worker (sample_lease\<lparr>ls_token := 2\<rparr>) (new_broker 100000) = (Inr (), b')
     \<and> (\<exists>e. submit unary_digest sample_intent 1 30 b' = (Inl e, b'))"
proof -
  have s: "start_worker (sample_lease\<lparr>ls_token := 2\<rparr>) (new_broker 100000)
      = (Inr (), (new_broker 100000)\<lparr>fb_highest_token := 2\<rparr>)"
    by (simp add: start_worker_def advance_fence_def accept_fencing_token_def new_broker_def)
  show ?thesis using broker_rejects_older_tokens [OF s, of 1 unary_digest sample_intent 30] s by auto
qed

text \<open>broker order ids print a decimal counter; parsing the numeral gives the counter back, so
  distinct counters give distinct ids.\<close>

theorem order_numerals_round_trip:
  "string_nat (nat_string n) = n \<and> (nat_string m = nat_string n \<longleftrightarrow> m = n)"
  by simp

subsection \<open>The worker\<close>

lemma submit_unknown_keys:
  assumes "submit H i t at b = (Inl (BrokerSubmissionUnknown m), b')"
  shows "xi_client_order_key i \<in> broker_keys b'"
proof -
  have body: "submit_body H i t at b = (Inl (BrokerSubmissionUnknown m), b')"
    using assms by (auto simp: submit_def broker_transaction_def split: prod.splits sum.splits if_splits)
  obtain q b1 where t: "accept_fencing_token t b = (q, b1)" by fastforce
  then obtain u where q: "q = Inr u" using body by (cases q) (auto simp: submit_body_def accept_fencing_token_def split: if_splits)
  obtain sc b2 where s: "next_scenario b1 = (sc, b2)" by fastforce
  obtain a b3 where add: "add_order ''fake-'' i (if sc = FS_MISSING_PROTECTION then 0 else xi_quantity i) b2 = (a, b3)" by fastforce
  have none: "fb_order b1 (xi_client_order_key i) = None"
    using body t q by (auto simp: submit_body_def split: option.splits)
  show ?thesis
  proof (cases a)
    case (Inl e)
    then show ?thesis using body t q none s add
      by (auto simp: submit_body_def add_order_def insert_row_def Let_def split: if_splits)
  next
    case (Inr bid)
    then have "xi_client_order_key i \<in> fo_key ` set (fb_orders b3)"
      using add by (auto simp: add_order_def Let_def insert_row_def split: if_splits)
    then have k: "xi_client_order_key i \<in> fo_key ` set (fb_orders (snd (respond H i bid sc at
        (tape H ''IN'' ''SUBMIT'' (intent_json i) at b3))))" by simp
    have "respond H i bid sc at (tape H ''IN'' ''SUBMIT'' (intent_json i) at b3) = (Inl (BrokerSubmissionUnknown m), b')"
      using body t q none s add Inr by (simp add: submit_body_def)
    then show ?thesis using k by (simp only: snd_conv broker_keys_def)
  qed
qed

text \<open>C35: when the broker's answer is lost, a dispatch reports work done, marks the command \<open>UNKNOWN\<close>
  and the intent \<open>SUBMISSION_UNKNOWN\<close>, and books nothing: positions, cash and fills are those before
  the answer was lost. The order is at the broker, to be found by reconciliation.\<close>

theorem lost_answer_becomes_unknown:
  assumes "claim_next H l at (worker_heartbeat l at d) = (Inr (Some (cmd, i)), d1)"
    and "validate_lease l at d1 = Inr ()"
    and "submit H i (ls_token l) at b = (Inl (BrokerSubmissionUnknown m), b')"
    and "mark_submission_unknown H (oc_id cmd) at m d1 = (Inr (), d2)"
  shows "dispatch_once H l at (d, b) = (Inr True, (d2, b'))
    \<and> (\<forall>ob \<in> set (outbox d2). ow_id ob = oc_id cmd \<longrightarrow> ow_status ob = OB_UNKNOWN)
    \<and> (\<exists>ob. List.find (\<lambda>x. ow_id x = oc_id cmd) (outbox d1) = Some ob
         \<and> (\<forall>r \<in> set (intents d2). iw_id r = ow_intent_id ob \<longrightarrow> iw_status r = XS_SUBMISSION_UNKNOWN))
    \<and> positions d2 = positions d1 \<and> cash_delta d2 = cash_delta d1 \<and> fill_events d2 = fill_events d1
    \<and> xi_client_order_key i \<in> broker_keys b'"
proof -
  obtain ob where ob: "List.find (\<lambda>x. ow_id x = oc_id cmd) (outbox d1) = Some ob"
    and d2: "d2 = mark_outbox_unknown H (oc_id cmd) (ow_intent_id ob) at m d1"
    using assms(4) by (auto simp: mark_submission_unknown_def split: option.splits)
  have out: "outbox d2 = update_where (\<lambda>x. ow_id x = oc_id cmd)
      (\<lambda>x. x\<lparr>ow_status := OB_UNKNOWN, ow_delivered_at := Some at\<rparr>) (outbox d1)"
    by (simp add: d2 mark_outbox_unknown_def)
  have 1: "\<forall>x \<in> set (outbox d2). ow_id x = oc_id cmd \<longrightarrow> ow_status x = OB_UNKNOWN"
    unfolding out by (rule update_where_all) simp_all
  have ints: "intents d2 = update_where (\<lambda>r. iw_id r = ow_intent_id ob)
      (\<lambda>r. r\<lparr>iw_status := XS_SUBMISSION_UNKNOWN, iw_version := iw_version r + 1\<rparr>) (intents d1)"
    by (simp add: d2 mark_outbox_unknown_def set_intent_status_def)
  have 2: "\<forall>r \<in> set (intents d2). iw_id r = ow_intent_id ob \<longrightarrow> iw_status r = XS_SUBMISSION_UNKNOWN"
    unfolding ints by (rule update_where_all) simp_all
  have 3: "dispatch_once H l at (d, b) = (Inr True, (d2, b'))"
    using assms by (simp add: dispatch_once_def finish_submit_def)
  have 4: "positions d2 = positions d1 \<and> cash_delta d2 = cash_delta d1 \<and> fill_events d2 = fill_events d1"
    by (simp add: d2 mark_outbox_unknown_def append_order_event_def set_intent_status_def)
  show ?thesis using 1 2 3 4 ob submit_unknown_keys [OF assms(3)] by blast
qed

definition dropping_broker :: fake_broker where
  "dropping_broker = enqueue_scenarios [FS_ACCEPT_DROP_RESPONSE] (new_broker 100000)"

lemma dropping_submit:
  "\<exists>m b'. submit H sample_intent 1 30 dropping_broker = (Inl (BrokerSubmissionUnknown m), b')"
  by (simp add: dropping_broker_def enqueue_scenarios_def submit_def broker_transaction_def submit_body_def
      accept_fencing_token_def new_broker_def fb_order_def next_scenario_def add_order_def insert_row_def respond_def
      emit_def tape_def update_order_def Let_def)

lemma heartbeat_claim:
  "\<exists>cmd d1 d2. claim_next H sample_lease 30 (worker_heartbeat sample_lease 30 (sample_store H)) = (Inr (Some (cmd, sample_intent)), d1)
     \<and> validate_lease sample_lease 30 d1 = Inr () \<and> mark_submission_unknown H (oc_id cmd) 30 m d1 = (Inr (), d2)"
  by (simp add: worker_heartbeat_def record_heartbeat_def claim_next_def sample_store_eq unfrozen_store_def empty_store_def
      lease_current_def claim_candidate_def joined_def claim_gate_def new_reservation_row_def new_intent_row_def
      sample_docs outbox_command_of_def take_claim_def set_intent_status_def validate_lease_def
      mark_submission_unknown_def Let_def)

theorem lost_answer_becomes_unknown_witness:
  "\<exists>d2 b'. dispatch_once unary_digest sample_lease 30 (sample_store unary_digest, dropping_broker) = (Inr True, (d2, b'))
     \<and> ''k1'' \<in> broker_keys b'"
proof -
  obtain m b' where s: "submit unary_digest sample_intent 1 30 dropping_broker = (Inl (BrokerSubmissionUnknown m), b')"
    using dropping_submit by blast
  obtain cmd d1 d2 where c: "claim_next unary_digest sample_lease 30 (worker_heartbeat sample_lease 30 (sample_store unary_digest))
      = (Inr (Some (cmd, sample_intent)), d1)" "validate_lease sample_lease 30 d1 = Inr ()"
    "mark_submission_unknown unary_digest (oc_id cmd) 30 m d1 = (Inr (), d2)"
    using heartbeat_claim by blast
  have t: "ls_token sample_lease = 1" "xi_client_order_key sample_intent = ''k1''" by (simp_all add: sample_docs)
  show ?thesis using lost_answer_becomes_unknown [OF c(1,2) _ c(3), of dropping_broker b'] s t by auto
qed

subsection \<open>Reconciliation\<close>

text \<open>C20: reconciliation fails closed: from a store in which the reconciler's tickets are blocking
  ones, a run ends with an unfrozen report, or with a blocking ticket open, or it raised before it
  changed the freeze, the arms, the authorities and the book.\<close>

theorem reconciliation_fails_closed:
  assumes "reconciler_blocks d" and "reconcile H s at d = (r, d')"
  shows "(\<exists>rep. r = Inr rep \<and> \<not> rp_frozen rep) \<or> list_ex is_blocking (tickets d')
    \<or> (\<not> is_ok r \<and> core d' = core d \<and> same_book H d d')"
  using reconcile_fail_closed [OF assms] by (simp add: blocked_def)

lemma unary_digest_letter: "CHR ''s'' \<in> set x \<Longrightarrow> unary_digest j \<noteq> x"
  by (auto simp: unary_digest_def)

lemma sample_incomplete:
  "\<exists>rep d'. reconcile unary_digest ((sample_snapshot ''a'' 20 1)\<lparr>bs_complete := False\<rparr>) 21 unfrozen_store = (Inr rep, d') \<and> rp_frozen rep"
  by (simp add: reconcile_def record_incomplete_def open_freeze_ticket_def unfrozen_store_def empty_store_def
      lifted_ticket_def startup_ticket_def insert_row_def insert_or_ignore_def add_discrepancy_def canonical_hash_def unary_digest_letter Let_def)

theorem reconciliation_fails_closed_witness:
  "\<exists>rep d'. reconcile unary_digest ((sample_snapshot ''a'' 20 1)\<lparr>bs_complete := False\<rparr>) 21 unfrozen_store = (Inr rep, d')
     \<and> list_ex is_blocking (tickets d')"
proof -
  obtain rep d' where r: "reconcile unary_digest ((sample_snapshot ''a'' 20 1)\<lparr>bs_complete := False\<rparr>) 21 unfrozen_store
      = (Inr rep, d')" "rp_frozen rep"
    using sample_incomplete by blast
  have "reconciler_blocks unfrozen_store"
    by (simp add: reconciler_blocks_def unfrozen_store_def empty_store_def lifted_ticket_def startup_ticket_def)
  then show ?thesis using reconciliation_fails_closed [OF _ r(1)] r by auto
qed




end
