(* ===== verification/Pit_Models.thy ===== *)
theory Pit_Models
  imports Domain
begin

section \<open>Point-in-time records\<close>

text \<open>
  \<open>src/hanalpha/pit/models.py\<close> and \<open>pit/symbology.py\<close>: the canonical records every
  point-in-time query returns. A pydantic model is a \<open>record\<close> (the subclasses extend it) and its
  validators are functions to \<open>unit res\<close>: field constraints first, then the model validators in
  the order of the class hierarchy.
\<close>

record canonical_record =
  cr_instrument_id :: string
  cr_record_id :: string
  cr_event_time :: time
  cr_available_at :: time
  cr_ingested_at :: time
  cr_valid_from :: time
  cr_valid_to :: "time option"
  cr_source :: string
  cr_source_record_id :: string
  cr_source_revision :: int
  cr_schema_version :: string
  cr_payload_hash :: string
  cr_snapshot_id :: string

definition canonical_fields :: "'a canonical_record_scheme \<Rightarrow> (bool \<times> exn) list" where
  "canonical_fields r =
     [(cr_instrument_id r \<noteq> [], ValueError ''instrument_id''),
      (cr_record_id r \<noteq> [], ValueError ''record_id''),
      (cr_source r \<noteq> [], ValueError ''source''),
      (cr_source_record_id r \<noteq> [], ValueError ''source_record_id''),
      (cr_source_revision r \<ge> 1, ValueError ''source_revision''),
      (cr_schema_version r \<noteq> [], ValueError ''schema_version''),
      (hash_pattern (cr_payload_hash r), ValueError ''payload_hash''),
      (hash_pattern (cr_snapshot_id r), ValueError ''snapshot_id'')]"

definition validate_temporal_contract :: "'a canonical_record_scheme \<Rightarrow> (bool \<times> exn) list" where
  "validate_temporal_contract r =
     [(case cr_valid_to r of None \<Rightarrow> True | Some v \<Rightarrow> v > cr_valid_from r,
       ValueError ''valid_to must be later than valid_from''),
      (cr_ingested_at r \<ge> cr_available_at r,
       ValueError ''ingested_at must not precede available_at'')]"

record price_bar_record = canonical_record +
  pb_interval :: string
  pb_open :: rat
  pb_high :: rat
  pb_low :: rat
  pb_close :: rat
  pb_volume :: rat

definition validate_ohlc :: "price_bar_record \<Rightarrow> (bool \<times> exn) list" where
  "validate_ohlc r =
     [(pb_high r \<ge> max (max (pb_open r) (pb_close r)) (pb_low r),
       ValueError ''high must be the greatest OHLC value''),
      (pb_low r \<le> min (min (pb_open r) (pb_close r)) (pb_high r),
       ValueError ''low must be the least OHLC value'')]"

definition validate_price_bar :: "price_bar_record \<Rightarrow> unit res" where
  "validate_price_bar r = checks (canonical_fields r @
     [(pb_interval r \<noteq> [], ValueError ''interval''), (pb_volume r \<ge> 0, ValueError ''volume'')] @
     validate_temporal_contract r @ validate_ohlc r)"

datatype corporate_action_type = SPLIT | DIVIDEND | DELIST | TICKER_CHANGE

record corporate_action_record = canonical_record +
  cx_action_type :: corporate_action_type
  cx_ratio :: "rat option"
  cx_cash_amount :: "rat option"

definition validate_action_payload :: "corporate_action_record \<Rightarrow> (bool \<times> exn) list" where
  "validate_action_payload r =
     [(cx_action_type r = SPLIT \<longrightarrow> cx_ratio r \<noteq> None, ValueError ''split action requires ratio''),
      (cx_action_type r = DIVIDEND \<longrightarrow> cx_cash_amount r \<noteq> None,
       ValueError ''dividend action requires cash_amount'')]"

definition validate_corporate_action :: "corporate_action_record \<Rightarrow> unit res" where
  "validate_corporate_action r = checks (canonical_fields r @
     [(case cx_ratio r of None \<Rightarrow> True | Some q \<Rightarrow> q > 0, ValueError ''ratio''),
      (case cx_cash_amount r of None \<Rightarrow> True | Some q \<Rightarrow> q \<ge> 0, ValueError ''cash_amount'')] @
     validate_temporal_contract r @ validate_action_payload r)"

definition interval_contains :: "time \<Rightarrow> time option \<Rightarrow> time \<Rightarrow> bool" where
  "interval_contains start fin p = (start \<le> p \<and> (case fin of None \<Rightarrow> True | Some e \<Rightarrow> p < e))"

definition intervals_overlap :: "time \<Rightarrow> time option \<Rightarrow> time \<Rightarrow> time option \<Rightarrow> bool" where
  "intervals_overlap ls le rs re =
     ((case re of None \<Rightarrow> True | Some e \<Rightarrow> ls < e) \<and> (case le of None \<Rightarrow> True | Some e \<Rightarrow> rs < e))"

text \<open>Two nonempty half-open intervals overlap exactly when some instant lies in both.\<close>

lemma intervals_overlap_iff:
  assumes "\<And>e. le = Some e \<Longrightarrow> ls < e" and "\<And>e. re = Some e \<Longrightarrow> rs < e"
  shows "intervals_overlap ls le rs re \<longleftrightarrow>
    (\<exists>p. interval_contains ls le p \<and> interval_contains rs re p)"
proof
  assume "intervals_overlap ls le rs re"
  then have "interval_contains ls le (max ls rs) \<and> interval_contains rs re (max ls rs)"
    using assms by (auto simp: intervals_overlap_def interval_contains_def split: option.splits)
  then show "\<exists>p. interval_contains ls le p \<and> interval_contains rs re p" by blast
next
  assume "\<exists>p. interval_contains ls le p \<and> interval_contains rs re p"
  then show "intervals_overlap ls le rs re"
    by (fastforce simp: intervals_overlap_def interval_contains_def split: option.splits)
qed

end
