(* ===== verification/Sim_Events.thy ===== *)
theory Sim_Events
  imports Pit_Models
begin

section \<open>Simulation events\<close>

text \<open>
  \<open>src/hanalpha/simulation/events.py\<close>: the bars, corporate actions, frames and fills the replay
  works on, with their pydantic validators (field constraints, then model validators), and the
  identity of a decision, a digest of everything the decision rests on.
\<close>

record simulation_bar =
  sb_snapshot_id :: string
  sb_instrument_id :: string
  sb_source_record_id :: string
  sb_source_revision :: int
  sb_event_time :: time
  sb_available_at :: time
  sb_open :: rat
  sb_high :: rat
  sb_low :: rat
  sb_close :: rat
  sb_volume :: rat
  sb_halted :: bool

definition validate_bar :: "simulation_bar \<Rightarrow> unit res" where
  "validate_bar b = checks
     [(hash_pattern (sb_snapshot_id b), ValueError ''snapshot_id''),
      (sb_source_revision b \<ge> 1, ValueError ''source_revision''),
      (sb_open b > 0, ValueError ''open''),
      (sb_high b > 0, ValueError ''high''),
      (sb_low b > 0, ValueError ''low''),
      (sb_close b > 0, ValueError ''close''),
      (sb_volume b \<ge> 0, ValueError ''volume''),
      (sb_high b \<ge> max (max (sb_open b) (sb_close b)) (sb_low b),
       ValueError ''high must be the maximum OHLC value''),
      (sb_low b \<le> min (min (sb_open b) (sb_close b)) (sb_high b),
       ValueError ''low must be the minimum OHLC value'')]"

definition bar_from_record :: "price_bar_record \<Rightarrow> simulation_bar res" where
  "bar_from_record r =
     (let b = \<lparr>sb_snapshot_id = cr_snapshot_id r, sb_instrument_id = cr_instrument_id r,
        sb_source_record_id = cr_source_record_id r, sb_source_revision = cr_source_revision r,
        sb_event_time = cr_event_time r, sb_available_at = cr_available_at r,
        sb_open = pb_open r, sb_high = pb_high r, sb_low = pb_low r, sb_close = pb_close r,
        sb_volume = pb_volume r, sb_halted = False\<rparr>
      in case validate_bar b of Inl e \<Rightarrow> Inl e | Inr _ \<Rightarrow> Inr b)"

datatype corporate_action_phase = ANNOUNCED | EX_DATE | RECORD_DATE | PAYABLE | EFFECTIVE

record simulation_corporate_action =
  sa_snapshot_id :: string
  sa_action_id :: string
  sa_instrument_id :: string
  sa_source_record_id :: string
  sa_source_revision :: int
  sa_action_type :: corporate_action_type
  sa_phase :: corporate_action_phase
  sa_event_time :: time
  sa_available_at :: time
  sa_ratio :: "rat option"
  sa_cash_amount :: "rat option"

definition validate_action :: "simulation_corporate_action \<Rightarrow> unit res" where
  "validate_action a = checks
     [(hash_pattern (sa_snapshot_id a), ValueError ''snapshot_id''),
      (sa_source_revision a \<ge> 1, ValueError ''source_revision'')]"

definition action_from_record :: "corporate_action_record \<Rightarrow> simulation_corporate_action res" where
  "action_from_record r =
     (let a = \<lparr>sa_snapshot_id = cr_snapshot_id r, sa_action_id = cr_record_id r,
        sa_instrument_id = cr_instrument_id r, sa_source_record_id = cr_source_record_id r,
        sa_source_revision = cr_source_revision r, sa_action_type = cx_action_type r,
        sa_phase = EFFECTIVE, sa_event_time = cr_event_time r, sa_available_at = cr_available_at r,
        sa_ratio = cx_ratio r, sa_cash_amount = cx_cash_amount r\<rparr>
      in case validate_action a of Inl e \<Rightarrow> Inl e | Inr _ \<Rightarrow> Inr a)"

record replay_frame =
  rf_snapshot_id :: string
  rf_as_of :: time
  rf_bars :: "simulation_bar list"
  rf_bar_revisions :: "simulation_bar list"
  rf_actions :: "simulation_corporate_action list"
  rf_action_revisions :: "simulation_corporate_action list"

definition validate_frame :: "replay_frame \<Rightarrow> unit res" where
  "validate_frame f = checks
     ([(hash_pattern (rf_snapshot_id f), ValueError ''snapshot_id'')] @
      concat (map (\<lambda>b.
        [(sb_snapshot_id b = rf_snapshot_id f, ValueError ''frame contains a different snapshot''),
         (sb_available_at b \<le> rf_as_of f, ValueError ''frame contains information unavailable at as_of'')])
        (rf_bars f @ rf_bar_revisions f)) @
      concat (map (\<lambda>a.
        [(sa_snapshot_id a = rf_snapshot_id f, ValueError ''frame contains a different snapshot''),
         (sa_available_at a \<le> rf_as_of f, ValueError ''frame contains information unavailable at as_of'')])
        (rf_actions f @ rf_action_revisions f)))"

record fill_event =
  fe_fill_id :: string
  fe_order_id :: string
  fe_instrument_id :: string
  fe_side :: side
  fe_quantity :: int
  fe_price :: rat
  fe_commission :: rat
  fe_occurred_at :: time
  fe_reason :: string
  fe_source_record_id :: string
  fe_source_revision :: int

definition validate_fill :: "fill_event \<Rightarrow> unit res" where
  "validate_fill f = checks
     [(fe_quantity f > 0, ValueError ''quantity''),
      (fe_price f > 0, ValueError ''price''),
      (fe_commission f \<ge> 0, ValueError ''commission'')]"

record decision_identity =
  di_decision_id :: string
  di_snapshot_id :: string
  di_as_of :: time
  di_strategy_version :: string
  di_config_hash :: string
  di_input_hash :: string
  di_signal_hash :: string
  di_risk_hash :: string

definition validate_identity :: "decision_identity \<Rightarrow> unit res" where
  "validate_identity d = checks
     [(hash_pattern (di_decision_id d), ValueError ''decision_id''),
      (hash_pattern (di_snapshot_id d), ValueError ''snapshot_id''),
      (hash_pattern (di_config_hash d), ValueError ''config_hash''),
      (hash_pattern (di_input_hash d), ValueError ''input_hash''),
      (hash_pattern (di_signal_hash d), ValueError ''signal_hash''),
      (hash_pattern (di_risk_hash d), ValueError ''risk_hash'')]"

definition identity_doc :: "string \<Rightarrow> time \<Rightarrow> string \<Rightarrow> string \<Rightarrow> string \<Rightarrow> string \<Rightarrow> string \<Rightarrow> json" where
  "identity_doc snapshot_id as_of strategy_version config_hash input_hash signal_hash risk_hash = JObj
     [(''snapshot_id'', JStr snapshot_id), (''as_of'', JTime as_of),
      (''strategy_version'', JStr strategy_version), (''config_hash'', JStr config_hash),
      (''input_hash'', JStr input_hash), (''signal_hash'', JStr signal_hash),
      (''risk_hash'', JStr risk_hash)]"

definition build_identity ::
  "(json \<Rightarrow> string) \<Rightarrow> string \<Rightarrow> time \<Rightarrow> string \<Rightarrow> string \<Rightarrow> string \<Rightarrow> string \<Rightarrow> string \<Rightarrow> decision_identity res" where
  "build_identity H snapshot_id as_of strategy_version config_hash input_hash signal_hash risk_hash =
     (let d = \<lparr>di_decision_id = canonical_hash H
          (identity_doc snapshot_id as_of strategy_version config_hash input_hash signal_hash risk_hash),
        di_snapshot_id = snapshot_id, di_as_of = as_of, di_strategy_version = strategy_version,
        di_config_hash = config_hash, di_input_hash = input_hash, di_signal_hash = signal_hash,
        di_risk_hash = risk_hash\<rparr>
      in case validate_identity d of Inl e \<Rightarrow> Inl e | Inr _ \<Rightarrow> Inr d)"

record decision_record =
  dr_identity :: decision_identity
  dr_strategy_id :: string
  dr_instrument_id :: string
  dr_order_id :: "string option"
  dr_approved :: bool
  dr_reason :: string

record equity_point =
  ep_as_of :: time
  ep_net_liquidation :: rat
  ep_cash :: rat
  ep_gross_exposure :: rat

lemmas sim_validators = validate_bar_def validate_action_def validate_fill_def validate_identity_def

lemma validate_bar_range:
  assumes "validate_bar b = Inr ()"
  shows "0 < sb_low b" "sb_low b \<le> sb_open b" "sb_open b \<le> sb_high b" "sb_low b \<le> sb_high b"
    "0 < sb_open b" "0 < sb_high b" "0 < sb_close b" "0 \<le> sb_volume b"
  using assms by (simp_all add: validate_bar_def)

lemma validate_frame_available:
  assumes "validate_frame f = Inr ()"
  shows "b \<in> set (rf_bars f) \<Longrightarrow> sb_available_at b \<le> rf_as_of f"
    and "a \<in> set (rf_actions f) \<Longrightarrow> sa_available_at a \<le> rf_as_of f"
  using assms by (auto simp: validate_frame_def)

end
