(* ===== verification/Sim_Orders.thy ===== *)
theory Sim_Orders
  imports Sim_Events
begin

section \<open>Simulated orders\<close>

text \<open>
  \<open>src/hanalpha/simulation/orders.py\<close>: an order intent with its validator, and the tracked order,
  an immutable object whose methods return the next version or raise.
\<close>

datatype order_kind = MARKET | LIMIT | STOP_MARKET | STOP_LIMIT

datatype sim_order_state =
  PROPOSED | ACCEPTED | PARTIALLY_FILLED | FILLED | CANCELLED | REJECTED | EXPIRED

record order_intent =
  oi_order_id :: string
  oi_decision_id :: string
  oi_instrument_id :: string
  oi_strategy_id :: string
  oi_side :: side
  oi_kind :: order_kind
  oi_quantity :: int
  oi_submitted_at :: time
  oi_earliest_fill_at :: time
  oi_expires_at :: "time option"
  oi_planned_price :: rat
  oi_limit_price :: "rat option"
  oi_stop_price :: "rat option"
  oi_protective_stop :: "rat option"
  oi_protective_target :: "rat option"
  oi_parent_order_id :: "string option"
  oi_oco_group_id :: "string option"
  oi_reduce_only :: bool

definition positive_opt :: "rat option \<Rightarrow> bool" where
  "positive_opt x = (case x of None \<Rightarrow> True | Some v \<Rightarrow> v > 0)"

definition validate_intent :: "order_intent \<Rightarrow> unit res" where
  "validate_intent i = checks
     [(oi_quantity i > 0, ValueError ''quantity''),
      (oi_planned_price i > 0, ValueError ''planned_price''),
      (positive_opt (oi_limit_price i), ValueError ''limit_price''),
      (positive_opt (oi_stop_price i), ValueError ''stop_price''),
      (positive_opt (oi_protective_stop i), ValueError ''protective_stop''),
      (positive_opt (oi_protective_target i), ValueError ''protective_target''),
      (oi_earliest_fill_at i \<ge> oi_submitted_at i,
       ValueError ''earliest_fill_at must not precede submitted_at''),
      (case oi_expires_at i of None \<Rightarrow> True | Some e \<Rightarrow> e > oi_submitted_at i,
       ValueError ''expires_at must be later than submitted_at''),
      (oi_kind i \<in> {LIMIT, STOP_LIMIT} \<longrightarrow> oi_limit_price i \<noteq> None,
       ValueError ''limit order requires limit_price''),
      (oi_kind i \<in> {STOP_MARKET, STOP_LIMIT} \<longrightarrow> oi_stop_price i \<noteq> None,
       ValueError ''stop order requires stop_price''),
      (oi_side i = BUY \<longrightarrow> (case oi_protective_stop i of None \<Rightarrow> True | Some s \<Rightarrow> s < oi_planned_price i),
       ValueError ''buy protective_stop must be below planned_price''),
      (oi_side i = BUY \<longrightarrow> (case oi_protective_target i of None \<Rightarrow> True | Some t \<Rightarrow> t > oi_planned_price i),
       ValueError ''buy protective_target must be above planned_price''),
      (oi_reduce_only i \<longrightarrow> oi_side i = SELL, ValueError ''long-only reduce_only orders must sell'')]"

record tracked_order =
  to_intent :: order_intent
  to_state :: sim_order_state
  to_filled_quantity :: int
  to_average_fill_price :: "rat option"
  to_fill_ids :: "string list"
  to_last_event_at :: time

definition remaining_quantity :: "tracked_order \<Rightarrow> int" where
  "remaining_quantity t = oi_quantity (to_intent t) - to_filled_quantity t"

definition validate_tracked :: "tracked_order \<Rightarrow> unit res" where
  "validate_tracked t =
     (case validate_intent (to_intent t) of Inl e \<Rightarrow> Inl e
      | Inr _ \<Rightarrow> checks
         [(to_filled_quantity t \<ge> 0, ValueError ''filled_quantity''),
          (positive_opt (to_average_fill_price t), ValueError ''average_fill_price'')])"

definition proposed :: "order_intent \<Rightarrow> tracked_order res" where
  "proposed i =
     (let t = \<lparr>to_intent = i, to_state = PROPOSED, to_filled_quantity = 0,
        to_average_fill_price = None, to_fill_ids = [], to_last_event_at = oi_submitted_at i\<rparr>
      in case validate_tracked t of Inl e \<Rightarrow> Inl e | Inr _ \<Rightarrow> Inr t)"

definition require_state :: "tracked_order \<Rightarrow> sim_order_state set \<Rightarrow> unit res" where
  "require_state t allowed =
     (if to_state t \<in> allowed then Inr () else Inl (IllegalOrderTransition ''state''))"

text \<open>\<open>_updated\<close>: \<open>new\<close> is the object with the updates applied, \<open>at\<close> its event time.\<close>

definition updated :: "tracked_order \<Rightarrow> tracked_order \<Rightarrow> tracked_order res" where
  "updated t new =
     (if to_last_event_at new < to_last_event_at t
      then Inl (IllegalOrderTransition ''order events must be monotonic'')
      else case validate_tracked new of Inl e \<Rightarrow> Inl e | Inr _ \<Rightarrow> Inr new)"

definition accept :: "tracked_order \<Rightarrow> time \<Rightarrow> tracked_order res" where
  "accept t at = (case require_state t {PROPOSED} of Inl e \<Rightarrow> Inl e
     | Inr _ \<Rightarrow> updated t (t\<lparr>to_state := ACCEPTED, to_last_event_at := at\<rparr>))"

definition reject :: "tracked_order \<Rightarrow> time \<Rightarrow> tracked_order res" where
  "reject t at = (case require_state t {PROPOSED} of Inl e \<Rightarrow> Inl e
     | Inr _ \<Rightarrow> updated t (t\<lparr>to_state := REJECTED, to_last_event_at := at\<rparr>))"

definition order_cancel :: "tracked_order \<Rightarrow> time \<Rightarrow> tracked_order res" where
  "order_cancel t at = (case require_state t {ACCEPTED, PARTIALLY_FILLED} of Inl e \<Rightarrow> Inl e
     | Inr _ \<Rightarrow> updated t (t\<lparr>to_state := CANCELLED, to_last_event_at := at\<rparr>))"

definition expire :: "tracked_order \<Rightarrow> time \<Rightarrow> tracked_order res" where
  "expire t at = (case require_state t {ACCEPTED, PARTIALLY_FILLED} of Inl e \<Rightarrow> Inl e
     | Inr _ \<Rightarrow> updated t (t\<lparr>to_state := EXPIRED, to_last_event_at := at\<rparr>))"

definition order_apply_fill :: "tracked_order \<Rightarrow> string \<Rightarrow> int \<Rightarrow> rat \<Rightarrow> time \<Rightarrow> tracked_order res" where
  "order_apply_fill t fill_id quantity price at =
     (case require_state t {ACCEPTED, PARTIALLY_FILLED} of Inl e \<Rightarrow> Inl e
      | Inr _ \<Rightarrow>
        if fill_id \<in> set (to_fill_ids t) then Inl (DuplicateOrderEvent fill_id)
        else if quantity \<le> 0 \<or> quantity > remaining_quantity t
        then Inl (IllegalOrderTransition ''fill quantity exceeds remaining quantity'')
        else
          (let total = to_filled_quantity t + quantity;
               old_notional = (case to_average_fill_price t of None \<Rightarrow> 0 | Some a \<Rightarrow> a)
                 * of_int (to_filled_quantity t);
               average = (old_notional + price * of_int quantity) / of_int total;
               state = (if total = oi_quantity (to_intent t) then FILLED else PARTIALLY_FILLED)
           in updated t (t\<lparr>to_state := state, to_filled_quantity := total,
                to_average_fill_price := Some average, to_fill_ids := to_fill_ids t @ [fill_id],
                to_last_event_at := at\<rparr>)))"

subsection \<open>The state machine\<close>

text \<open>The methods as one step relation: \<open>order_exec\<close> performs a call, and an order that a call
  raises on stays as it is.\<close>

datatype order_op =
    Accept time | Reject time | Cancel time | Expire time
  | Fill string int rat time

fun order_exec :: "order_op \<Rightarrow> tracked_order \<Rightarrow> tracked_order res" where
  "order_exec (Accept at) t = accept t at"
| "order_exec (Reject at) t = reject t at"
| "order_exec (Cancel at) t = order_cancel t at"
| "order_exec (Expire at) t = expire t at"
| "order_exec (Fill fid q p at) t = order_apply_fill t fid q p at"

definition order_step :: "order_op \<Rightarrow> tracked_order \<Rightarrow> tracked_order" where
  "order_step op t = (case order_exec op t of Inl _ \<Rightarrow> t | Inr t' \<Rightarrow> t')"

definition live :: "tracked_order \<Rightarrow> bool" where
  "live t = (to_state t \<in> {ACCEPTED, PARTIALLY_FILLED})"

definition terminal :: "tracked_order \<Rightarrow> bool" where
  "terminal t = (to_state t \<in> {FILLED, CANCELLED, REJECTED, EXPIRED})"

text \<open>A well-formed tracked order: what has been filled agrees with the state, the fill ids are
  distinct, and a price is known as soon as something was filled.\<close>

definition tracked_ok :: "tracked_order \<Rightarrow> bool" where
  "tracked_ok t = (validate_tracked t = Inr () \<and>
     to_filled_quantity t \<le> oi_quantity (to_intent t) \<and>
     distinct (to_fill_ids t) \<and> int (length (to_fill_ids t)) \<le> to_filled_quantity t \<and>
     (to_average_fill_price t = None \<longleftrightarrow> to_filled_quantity t = 0) \<and>
     (to_fill_ids t = [] \<longleftrightarrow> to_filled_quantity t = 0) \<and>
     oi_submitted_at (to_intent t) \<le> to_last_event_at t \<and>
     (case to_state t of
        PROPOSED \<Rightarrow> to_filled_quantity t = 0
      | ACCEPTED \<Rightarrow> to_filled_quantity t = 0
      | PARTIALLY_FILLED \<Rightarrow> 0 < to_filled_quantity t \<and> to_filled_quantity t < oi_quantity (to_intent t)
      | FILLED \<Rightarrow> to_filled_quantity t = oi_quantity (to_intent t)
      | CANCELLED \<Rightarrow> to_filled_quantity t < oi_quantity (to_intent t)
      | EXPIRED \<Rightarrow> to_filled_quantity t < oi_quantity (to_intent t)
      | REJECTED \<Rightarrow> to_filled_quantity t = 0))"

lemma validate_tracked_ok [simp]:
  "validate_tracked t = Inr u \<longleftrightarrow> validate_intent (to_intent t) = Inr () \<and>
     0 \<le> to_filled_quantity t \<and> positive_opt (to_average_fill_price t)"
  by (auto simp: validate_tracked_def split: sum.splits)

lemma require_state_ok [simp]: "require_state t A = Inr u \<longleftrightarrow> to_state t \<in> A"
  by (simp add: require_state_def)

lemma updated_ok [simp]:
  "updated t n = Inr t' \<longleftrightarrow> t' = n \<and> to_last_event_at t \<le> to_last_event_at n \<and> validate_tracked n = Inr ()"
  by (auto simp: updated_def simp del: validate_tracked_ok split: sum.splits if_splits)

lemma validate_intent_quantity: "validate_intent i = Inr () \<Longrightarrow> 0 < oi_quantity i"
  by (simp add: validate_intent_def)

lemma proposed_iff:
  "proposed i = Inr t \<longleftrightarrow> validate_intent i = Inr () \<and>
     t = \<lparr>to_intent = i, to_state = PROPOSED, to_filled_quantity = 0,
        to_average_fill_price = None, to_fill_ids = [], to_last_event_at = oi_submitted_at i\<rparr>"
  by (auto simp: proposed_def Let_def validate_tracked_def positive_opt_def checks.simps split: sum.splits)

lemma proposed_ok: "proposed i = Inr t \<Longrightarrow> tracked_ok t \<and> to_state t = PROPOSED \<and> to_intent t = i"
  by (auto simp: proposed_iff tracked_ok_def positive_opt_def dest: validate_intent_quantity)

text \<open>What each successful call does, as elimination rules.\<close>

lemma state_call_ok:
  "accept t at = Inr t' \<longleftrightarrow> to_state t = PROPOSED \<and> to_last_event_at t \<le> at \<and>
     t' = t\<lparr>to_state := ACCEPTED, to_last_event_at := at\<rparr> \<and> validate_tracked t = Inr ()"
  "reject t at = Inr t' \<longleftrightarrow> to_state t = PROPOSED \<and> to_last_event_at t \<le> at \<and>
     t' = t\<lparr>to_state := REJECTED, to_last_event_at := at\<rparr> \<and> validate_tracked t = Inr ()"
  "order_cancel t at = Inr t' \<longleftrightarrow> live t \<and> to_last_event_at t \<le> at \<and>
     t' = t\<lparr>to_state := CANCELLED, to_last_event_at := at\<rparr> \<and> validate_tracked t = Inr ()"
  "expire t at = Inr t' \<longleftrightarrow> live t \<and> to_last_event_at t \<le> at \<and>
     t' = t\<lparr>to_state := EXPIRED, to_last_event_at := at\<rparr> \<and> validate_tracked t = Inr ()"
  unfolding accept_def reject_def order_cancel_def expire_def live_def
  by (cases "require_state t {PROPOSED}"; cases "require_state t {ACCEPTED, PARTIALLY_FILLED}";
      auto simp: require_state_def split: if_splits)+

definition filled_average :: "tracked_order \<Rightarrow> int \<Rightarrow> rat \<Rightarrow> rat" where
  "filled_average t q p =
     ((case to_average_fill_price t of None \<Rightarrow> 0 | Some a \<Rightarrow> a) * of_int (to_filled_quantity t) + p * of_int q)
       / of_int (to_filled_quantity t + q)"

definition after_fill :: "tracked_order \<Rightarrow> string \<Rightarrow> int \<Rightarrow> rat \<Rightarrow> time \<Rightarrow> tracked_order" where
  "after_fill t fid q p at = t\<lparr>
     to_state := (if to_filled_quantity t + q = oi_quantity (to_intent t) then FILLED else PARTIALLY_FILLED),
     to_filled_quantity := to_filled_quantity t + q,
     to_average_fill_price := Some (filled_average t q p),
     to_fill_ids := to_fill_ids t @ [fid], to_last_event_at := at\<rparr>"

lemma order_apply_fill_ok:
  "order_apply_fill t fid q p at = Inr t' \<longleftrightarrow>
     live t \<and> fid \<notin> set (to_fill_ids t) \<and> 0 < q \<and> q \<le> remaining_quantity t \<and>
     to_last_event_at t \<le> at \<and> t' = after_fill t fid q p at \<and> validate_tracked t' = Inr ()"
  unfolding order_apply_fill_def live_def after_fill_def filled_average_def
  by (cases "require_state t {ACCEPTED, PARTIALLY_FILLED}")
    (auto simp: require_state_def Let_def split: if_splits)

lemma order_exec_keeps:
  assumes "order_exec op t = Inr t'" and "tracked_ok t"
  shows "tracked_ok t' \<and> to_intent t' = to_intent t \<and> to_last_event_at t \<le> to_last_event_at t'"
  using assms
  by (cases op)
    (auto simp: state_call_ok order_apply_fill_ok after_fill_def tracked_ok_def live_def
      remaining_quantity_def dest: validate_intent_quantity)

interpretation order_sys: invariant_system
  "\<lambda>t. \<exists>i. proposed i = Inr t" order_step "\<lambda>op t. True" tracked_ok
proof
  show "\<exists>i. proposed i = Inr s \<Longrightarrow> tracked_ok s" for s using proposed_ok by blast
  show "tracked_ok s \<Longrightarrow> tracked_ok (order_step op s)" for op s
    using order_exec_keeps by (auto simp: order_step_def split: sum.splits)
qed

lemma terminal_absorbs: "terminal t \<Longrightarrow> order_step op t = t"
  by (cases op)
    (auto simp: order_step_def terminal_def accept_def reject_def order_cancel_def expire_def
      order_apply_fill_def require_state_def)

text \<open>A ranking function: every call that succeeds lowers it.\<close>

definition order_rank :: "tracked_order \<Rightarrow> nat" where
  "order_rank t = (if terminal t then 0
     else if to_state t = PROPOSED then nat (remaining_quantity t) + 2 else nat (remaining_quantity t) + 1)"

lemma order_rank_less:
  assumes "order_exec op t = Inr t'" and "tracked_ok t"
  shows "order_rank t' < order_rank t"
  using assms
  by (cases op)
    (auto simp: state_call_ok order_apply_fill_ok after_fill_def order_rank_def terminal_def live_def
      remaining_quantity_def tracked_ok_def)

text \<open>The number of calls of a sequence that succeed, and the fills among them.\<close>

fun moves :: "order_op list \<Rightarrow> tracked_order \<Rightarrow> nat" where
  "moves [] t = 0"
| "moves (op # ops) t = (if is_ok (order_exec op t) then 1 else 0) + moves ops (order_step op t)"

fun fills_of :: "order_op list \<Rightarrow> tracked_order \<Rightarrow> (int \<times> rat) list" where
  "fills_of [] t = []"
| "fills_of (op # ops) t =
     (case op of Fill _ q p _ \<Rightarrow> if is_ok (order_exec op t) then [(q, p)] else [] | _ \<Rightarrow> []) @
     fills_of ops (order_step op t)"

lemma moves_bound: "tracked_ok t \<Longrightarrow> moves ops t + order_rank (fold order_step ops t) \<le> order_rank t"
proof (induction ops arbitrary: t)
  case (Cons op ops)
  have "tracked_ok (order_step op t)" using Cons.prems order_sys.step_inv by simp
  then have IH: "moves ops (order_step op t) + order_rank (fold order_step ops (order_step op t))
      \<le> order_rank (order_step op t)" by (rule Cons.IH)
  show ?case
  proof (cases "order_exec op t")
    case (Inl e)
    then have "order_step op t = t" by (simp add: order_step_def)
    then show ?thesis using IH Inl by simp
  next
    case (Inr t')
    then have "order_rank (order_step op t) < order_rank t"
      using order_rank_less Cons.prems by (simp add: order_step_def)
    then show ?thesis using IH Inr by simp
  qed
qed simp

definition paid :: "tracked_order \<Rightarrow> rat" where
  "paid t = (case to_average_fill_price t of None \<Rightarrow> 0 | Some a \<Rightarrow> a * of_int (to_filled_quantity t))"

lemma paid_after_fill:
  assumes "tracked_ok t" and "0 < q"
  shows "paid (after_fill t fid q p at) = paid t + of_int q * p"
proof -
  have "0 \<le> to_filled_quantity t" using assms(1) by (simp add: tracked_ok_def)
  then have nz: "of_int (to_filled_quantity t + q) \<noteq> (0::rat)"
    using assms(2) by (simp only: of_int_eq_0_iff)
  have "paid (after_fill t fid q p at) = filled_average t q p * of_int (to_filled_quantity t + q)"
    by (simp add: paid_def after_fill_def)
  also have "\<dots> = paid t + p * of_int q"
    using nz unfolding filled_average_def paid_def by (cases "to_average_fill_price t") simp_all
  finally show ?thesis by (simp add: mult.commute)
qed

lemma order_step_paid:
  assumes "tracked_ok t"
  shows "paid (order_step op t) = paid t + total_of (\<lambda>(q, p). of_int q * p) (fills_of [op] t) \<and>
    to_filled_quantity (order_step op t) = to_filled_quantity t + total_of fst (fills_of [op] t)"
proof (cases "order_exec op t")
  case (Inl e)
  then show ?thesis by (cases op) (simp_all add: order_step_def)
next
  case (Inr t')
  show ?thesis
  proof (cases op)
    case (Fill fid q p at)
    then have "t' = after_fill t fid q p at" and "0 < q"
      using Inr by (simp_all add: order_apply_fill_ok)
    moreover have "to_filled_quantity (after_fill t fid q p at) = to_filled_quantity t + q"
      by (simp add: after_fill_def)
    ultimately show ?thesis using Fill Inr paid_after_fill [OF assms, of q fid p at]
      by (simp add: order_step_def)
  qed (use Inr in \<open>simp_all add: order_step_def, auto simp: paid_def state_call_ok split: option.splits\<close>)
qed

lemma run_paid:
  assumes "tracked_ok t"
  shows "paid (fold order_step ops t) = paid t + total_of (\<lambda>(q, p). of_int q * p) (fills_of ops t) \<and>
    to_filled_quantity (fold order_step ops t) = to_filled_quantity t + total_of fst (fills_of ops t)"
  using assms
proof (induction ops arbitrary: t)
  case (Cons op ops)
  have ok: "tracked_ok (order_step op t)" using Cons.prems order_sys.step_inv by simp
  have split: "fills_of (op # ops) t = fills_of [op] t @ fills_of ops (order_step op t)" by simp
  show ?case
    using Cons.IH [OF ok] order_step_paid [OF Cons.prems, of op] unfolding split by simp
qed simp

lemma order_run_ok: "tracked_ok t \<Longrightarrow> tracked_ok (fold order_step ops t)"
  using order_sys.step_inv by (induction ops arbitrary: t) simp_all

lemma order_run_intent: "tracked_ok t \<Longrightarrow> to_intent (fold order_step ops t) = to_intent t"
proof (induction ops arbitrary: t)
  case (Cons op ops)
  have "to_intent (order_step op t) = to_intent t"
    using order_exec_keeps Cons.prems by (auto simp: order_step_def split: sum.splits)
  then show ?case using Cons order_sys.step_inv by simp
qed simp

lemma fills_of_pos: "(q, p) \<in> set (fills_of ops t) \<Longrightarrow> 0 < q"
proof (induction ops arbitrary: t)
  case (Cons op ops)
  show ?case
  proof (cases "(q, p) \<in> set (fills_of ops (order_step op t))")
    case False
    then obtain fid at where "op = Fill fid q p at" "is_ok (order_exec op t)"
      using Cons.prems by (auto split: order_op.splits if_splits)
    then show ?thesis by (auto simp: is_ok_def order_apply_fill_ok split: sum.splits)
  qed (rule Cons.IH)
qed simp

end
