(* ===== verification/Sim_Fills.thy ===== *)
theory Sim_Fills
  imports Sim_Orders
begin

section \<open>The fill model\<close>

text \<open>
  \<open>src/hanalpha/simulation/fills.py\<close>: which part of an order a historical bar fills, at what
  price and commission. \<open>match\<close> returns \<open>Inr None\<close> where the code returns \<open>None\<close>.
\<close>

datatype cost_scenario = OPTIMISTIC | BASE | ADVERSE

record fill_policy =
  fp_version :: string
  fp_scenario :: cost_scenario
  fp_spread_bps :: rat
  fp_slippage_bps :: rat
  fp_impact_bps :: rat
  fp_participation_rate :: rat
  fp_commission_per_share :: rat
  fp_minimum_commission :: rat

definition validate_fill_policy :: "fill_policy \<Rightarrow> unit res" where
  "validate_fill_policy p = checks
     [(fp_spread_bps p \<ge> 0, ValueError ''spread_bps''),
      (fp_slippage_bps p \<ge> 0, ValueError ''slippage_bps''),
      (fp_impact_bps p \<ge> 0, ValueError ''impact_bps''),
      (0 < fp_participation_rate p \<and> fp_participation_rate p \<le> 1, ValueError ''participation_rate''),
      (fp_commission_per_share p \<ge> 0, ValueError ''commission_per_share''),
      (fp_minimum_commission p \<ge> 0, ValueError ''minimum_commission'')]"

definition scenario_multiplier :: "fill_policy \<Rightarrow> rat" where
  "scenario_multiplier p = (case fp_scenario p of OPTIMISTIC \<Rightarrow> 1 / 2 | BASE \<Rightarrow> 1 | ADVERSE \<Rightarrow> 2)"

definition cost_adjusted :: "fill_policy \<Rightarrow> rat \<Rightarrow> side \<Rightarrow> rat" where
  "cost_adjusted pol price side =
     (let bps = (fp_spread_bps pol / 2 + fp_slippage_bps pol + fp_impact_bps pol) * scenario_multiplier pol;
          multiplier = (if side = BUY then 1 + bps / 10000 else 1 - bps / 10000)
      in max (1 / 1000000) (price * multiplier))"

text \<open>\<open>assert x is not None\<close> reads an optional price.\<close>

definition asserted :: "rat option \<Rightarrow> rat res" where
  "asserted x = (case x of None \<Rightarrow> Inl (AssertionError []) | Some v \<Rightarrow> Inr v)"

definition bind_res :: "'a res \<Rightarrow> ('a \<Rightarrow> 'b res) \<Rightarrow> 'b res" where
  "bind_res r f = (case r of Inl e \<Rightarrow> Inl e | Inr x \<Rightarrow> f x)"

definition reference_price :: "order_intent \<Rightarrow> simulation_bar \<Rightarrow> (rat \<times> string) option res" where
  "reference_price i b =
     (if oi_kind i = MARKET then Inr (Some (sb_open b, ''market_open''))
      else if oi_kind i = LIMIT then
        bind_res (asserted (oi_limit_price i)) (\<lambda>limit.
          if oi_side i = BUY \<and> sb_low b \<le> limit then Inr (Some (min (sb_open b) limit, ''limit''))
          else if oi_side i = SELL \<and> sb_high b \<ge> limit then Inr (Some (max (sb_open b) limit, ''limit''))
          else Inr None)
      else
        bind_res (asserted (oi_stop_price i)) (\<lambda>stop.
          let triggered = (oi_side i = SELL \<and> sb_low b \<le> stop) \<or> (oi_side i = BUY \<and> sb_high b \<ge> stop);
              gap = (oi_side i = SELL \<and> sb_open b < stop) \<or> (oi_side i = BUY \<and> sb_open b > stop)
          in if \<not> triggered then Inr None
             else if oi_kind i = STOP_MARKET then
               Inr (Some (if oi_side i = SELL then min (sb_open b) stop else max (sb_open b) stop,
                          if gap then ''stop_gap'' else ''stop_intrabar''))
             else
               bind_res (asserted (oi_limit_price i)) (\<lambda>limit.
                 if gap then
                   if (oi_side i = SELL \<and> sb_open b \<ge> limit) \<or> (oi_side i = BUY \<and> sb_open b \<le> limit)
                   then Inr (Some (sb_open b, ''stop_limit_gap'')) else Inr None
                 else if (oi_side i = SELL \<and> sb_high b \<ge> limit) \<or> (oi_side i = BUY \<and> sb_low b \<le> limit)
                 then Inr (Some (limit, ''stop_limit'')) else Inr None)))"

definition fill_id_doc :: "order_intent \<Rightarrow> simulation_bar \<Rightarrow> int \<Rightarrow> json" where
  "fill_id_doc i b filled_before = JObj
     [(''order_id'', JStr (oi_order_id i)), (''source_record_id'', JStr (sb_source_record_id b)),
      (''source_revision'', JInt (sb_source_revision b)), (''filled_before'', JInt filled_before)]"

text \<open>The early returns of \<open>match\<close> before a quantity is computed.\<close>

definition bar_excluded :: "order_intent \<Rightarrow> simulation_bar \<Rightarrow> time \<Rightarrow> bool \<Rightarrow> bool" where
  "bar_excluded i b as_of same_bar =
     (sb_instrument_id b \<noteq> oi_instrument_id i
      \<or> sb_source_revision b \<noteq> 1 \<or> (\<not> same_bar \<and> sb_event_time b < oi_submitted_at i)
      \<or> sb_available_at b > as_of \<or> (\<not> same_bar \<and> sb_available_at b \<le> oi_submitted_at i)
      \<or> sb_available_at b < oi_earliest_fill_at i
      \<or> (case oi_expires_at i of None \<Rightarrow> False | Some e \<Rightarrow> sb_available_at b > e)
      \<or> sb_halted b \<or> sb_volume b \<le> 0)"

definition limit_capped :: "order_intent \<Rightarrow> rat \<Rightarrow> rat res" where
  "limit_capped i price =
     (if oi_kind i \<in> {LIMIT, STOP_LIMIT} then
        bind_res (asserted (oi_limit_price i)) (\<lambda>limit.
          Inr (if oi_side i = BUY then min price limit else max price limit))
      else Inr price)"

definition match_quantity :: "fill_policy \<Rightarrow> tracked_order \<Rightarrow> simulation_bar \<Rightarrow> int" where
  "match_quantity pol t b = min (remaining_quantity t) \<lfloor>sb_volume b * fp_participation_rate pol\<rfloor>"

definition make_fill ::
  "(json \<Rightarrow> string) \<Rightarrow> fill_policy \<Rightarrow> tracked_order \<Rightarrow> simulation_bar \<Rightarrow> int \<Rightarrow> rat \<Rightarrow> string \<Rightarrow> fill_event" where
  "make_fill H pol t b quantity price reason =
     (let i = to_intent t in
      \<lparr>fe_fill_id = canonical_hash H (fill_id_doc i b (to_filled_quantity t)),
       fe_order_id = oi_order_id i, fe_instrument_id = oi_instrument_id i,
       fe_side = oi_side i, fe_quantity = quantity, fe_price = price,
       fe_commission = max (fp_minimum_commission pol) (of_int quantity * fp_commission_per_share pol),
       fe_occurred_at = sb_available_at b, fe_reason = reason,
       fe_source_record_id = sb_source_record_id b, fe_source_revision = sb_source_revision b\<rparr>)"

definition exchange_match ::
  "(json \<Rightarrow> string) \<Rightarrow> fill_policy \<Rightarrow> tracked_order \<Rightarrow> simulation_bar \<Rightarrow> time \<Rightarrow> bool \<Rightarrow> fill_event option res" where
  "exchange_match H pol t b as_of same_bar =
     (let i = to_intent t in
      if to_state t \<notin> {ACCEPTED, PARTIALLY_FILLED} then Inr None
      else if same_bar \<and> \<not> (oi_reduce_only i \<and> oi_submitted_at i = sb_available_at b)
      then Inl (ValueError ''same-bar matching is restricted to new reduce-only protection'')
      else if bar_excluded i b as_of same_bar then Inr None
      else
        (let quantity = match_quantity pol t b
         in if quantity \<le> 0 then Inr None
            else bind_res (reference_price i b) (\<lambda>ref. case ref of None \<Rightarrow> Inr None
              | Some (raw_price, reason) \<Rightarrow>
                bind_res (limit_capped i (cost_adjusted pol raw_price (oi_side i))) (\<lambda>price.
                  let f = make_fill H pol t b quantity price reason
                  in bind_res (validate_fill f) (\<lambda>_. Inr (Some f))))))"

lemma bind_res_ok [simp]: "bind_res r f = Inr y \<longleftrightarrow> (\<exists>x. r = Inr x \<and> f x = Inr y)"
  by (auto simp: bind_res_def split: sum.splits)

lemma asserted_ok [simp]: "asserted x = Inr v \<longleftrightarrow> x = Some v"
  by (auto simp: asserted_def split: option.splits)

lemma make_fill_simps [simp]:
  "fe_quantity (make_fill H pol t b q p r) = q" "fe_price (make_fill H pol t b q p r) = p"
  "fe_order_id (make_fill H pol t b q p r) = oi_order_id (to_intent t)"
  "fe_instrument_id (make_fill H pol t b q p r) = oi_instrument_id (to_intent t)"
  "fe_side (make_fill H pol t b q p r) = oi_side (to_intent t)"
  "fe_occurred_at (make_fill H pol t b q p r) = sb_available_at b"
  "fe_fill_id (make_fill H pol t b q p r) = canonical_hash H (fill_id_doc (to_intent t) b (to_filled_quantity t))"
  by (simp_all add: make_fill_def Let_def)

text \<open>When \<open>match\<close> fills, and with what.\<close>

lemma exchange_match_iff:
  "exchange_match H pol t b as_of same_bar = Inr (Some f) \<longleftrightarrow>
     live t \<and> (same_bar \<longrightarrow> oi_reduce_only (to_intent t) \<and> oi_submitted_at (to_intent t) = sb_available_at b) \<and>
     \<not> bar_excluded (to_intent t) b as_of same_bar \<and> 0 < match_quantity pol t b \<and>
     (\<exists>raw reason price. reference_price (to_intent t) b = Inr (Some (raw, reason)) \<and>
        limit_capped (to_intent t) (cost_adjusted pol raw (oi_side (to_intent t))) = Inr price \<and>
        f = make_fill H pol t b (match_quantity pol t b) price reason \<and> validate_fill f = Inr ())"
  unfolding exchange_match_def Let_def live_def
  by (auto split: option.splits)

lemma match_quantity_bounds:
  "match_quantity pol t b \<le> remaining_quantity t"
  "of_int (match_quantity pol t b) \<le> sb_volume b * fp_participation_rate pol"
proof -
  have "of_int (match_quantity pol t b) \<le> (of_int \<lfloor>sb_volume b * fp_participation_rate pol\<rfloor> :: rat)"
    by (simp only: of_int_le_iff) (simp add: match_quantity_def)
  then show "of_int (match_quantity pol t b) \<le> sb_volume b * fp_participation_rate pol"
    using of_int_floor_le order_trans by blast
qed (simp add: match_quantity_def)

text \<open>A price that respects the order: a limit is never crossed, a stop only fills on a bar that
  reaches it, and costs never improve the price beyond the limit.\<close>

lemma limit_capped_bound:
  assumes "limit_capped i p = Inr q" and "oi_kind i \<in> {LIMIT, STOP_LIMIT}"
  shows "\<exists>l. oi_limit_price i = Some l \<and> (oi_side i = BUY \<longrightarrow> q \<le> l) \<and> (oi_side i = SELL \<longrightarrow> l \<le> q)"
  using assms by (auto simp: limit_capped_def split: if_splits)

lemma reference_price_in_range:
  assumes "reference_price i b = Inr (Some (raw, reason))" and "validate_bar b = Inr ()"
  shows "reason = ''stop_limit'' \<and> oi_limit_price i = Some raw \<or> sb_low b \<le> raw \<and> raw \<le> sb_high b"
  using assms validate_bar_range [OF assms(2)] unfolding reference_price_def Let_def
  by (cases "oi_kind i"; cases "oi_side i") (auto split: if_splits)

end
