(* ===== verification/Sim_Portfolio.thy ===== *)
theory Sim_Portfolio
  imports Sim_Orders
begin

section \<open>The simulated portfolio\<close>

text \<open>
  \<open>src/hanalpha/simulation/portfolio.py\<close>: the double-entry ledger of the replay. A method of
  \<open>PortfolioLedger\<close> returns its result and the ledger, also when it raises, so that what was
  changed before the exception is visible. \<open>_reservations\<close> is the list of its values in insertion
  order, keyed by \<open>rv_order_id\<close>; \<open>marks\<close> is a map.
\<close>

subsection \<open>Data\<close>

datatype journal_account =
  CASH | OPENING_EQUITY | POSITIONS_AT_COST | COMMISSION_EXPENSE | REALIZED_PNL | DIVIDEND_INCOME

record journal_line =
  jl_account :: journal_account
  jl_debit :: rat
  jl_credit :: rat

definition validate_sides :: "journal_line \<Rightarrow> unit res" where
  "validate_sides l = checks
     [(jl_debit l \<ge> 0, ValueError ''debit''), (jl_credit l \<ge> 0, ValueError ''credit''),
      (\<not> (jl_debit l > 0 \<and> jl_credit l > 0),
       ValueError ''journal line cannot debit and credit simultaneously'')]"

definition debit_line :: "journal_account \<Rightarrow> rat \<Rightarrow> journal_line" where
  "debit_line a x = \<lparr>jl_account = a, jl_debit = x, jl_credit = 0\<rparr>"

definition credit_line :: "journal_account \<Rightarrow> rat \<Rightarrow> journal_line" where
  "credit_line a x = \<lparr>jl_account = a, jl_debit = 0, jl_credit = x\<rparr>"

record journal_entry =
  je_event_id :: string
  je_at :: time
  je_reason :: string
  je_lines :: "journal_line list"

definition total_debits :: "journal_entry \<Rightarrow> rat" where
  "total_debits e = total_of jl_debit (je_lines e)"

definition total_credits :: "journal_entry \<Rightarrow> rat" where
  "total_credits e = total_of jl_credit (je_lines e)"

definition is_balanced :: "journal_entry \<Rightarrow> bool" where
  "is_balanced e = (total_debits e = total_credits e)"

definition validate_entry :: "journal_entry \<Rightarrow> unit res" where
  "validate_entry e = checks [(is_balanced e, ValueError ''journal entry debits and credits must balance'')]"

record portfolio_policy =
  pp_max_gross_exposure :: rat
  pp_max_symbol_exposure :: rat
  pp_max_positions :: int
  pp_max_risk_per_trade :: rat
  pp_max_total_risk :: rat
  pp_minimum_commission :: rat

record cash_entry =
  ce_event_id :: string
  ce_at :: time
  ce_amount :: rat
  ce_reason :: string
  ce_reference_id :: string

record position_lot =
  pl_lot_id :: string
  pl_instrument_id :: string
  pl_opened_at :: time
  pl_original_quantity :: rat
  pl_remaining_quantity :: rat
  pl_unit_cost :: rat
  pl_risk_per_share :: rat

record portfolio_position =
  po_instrument_id :: string
  po_quantity :: rat
  po_average_cost :: rat
  po_mark_price :: rat

definition market_value :: "portfolio_position \<Rightarrow> rat" where
  "market_value p = po_quantity p * po_mark_price p"

record portfolio_snapshot =
  ps_as_of :: time
  ps_cash :: rat
  ps_available_cash :: rat
  ps_reserved_cash :: rat
  ps_net_liquidation :: rat
  ps_gross_exposure :: rat
  ps_realized_pnl :: rat
  ps_commissions :: rat
  ps_open_risk :: rat
  ps_positions :: "portfolio_position list"

record sim_reservation =
  rv_order_id :: string
  rv_instrument_id :: string
  rv_side :: side
  rv_remaining_cash :: rat
  rv_remaining_notional :: rat
  rv_remaining_quantity :: rat
  rv_risk_amount :: rat
  rv_risk_per_share :: rat
  rv_oco_group_id :: "string option"

record portfolio_ledger =
  lg_starting_cash :: rat
  lg_policy :: portfolio_policy
  lg_cash :: rat
  lg_realized_pnl :: rat
  lg_commissions :: rat
  lg_cash_entries :: "cash_entry list"
  lg_journal_entries :: "journal_entry list"
  lg_lots :: "position_lot list"
  lg_marks :: "string \<rightharpoonup> rat"
  lg_reservations :: "sim_reservation list"
  lg_event_ids :: "string set"

subsection \<open>Journal and cash\<close>

definition append_cash :: "string \<Rightarrow> time \<Rightarrow> rat \<Rightarrow> string \<Rightarrow> string \<Rightarrow> bool \<Rightarrow> portfolio_ledger \<Rightarrow> portfolio_ledger" where
  "append_cash event_id at amount reason reference_id mutate_cash s =
     s\<lparr>lg_cash_entries := lg_cash_entries s @
         [\<lparr>ce_event_id = event_id, ce_at = at, ce_amount = amount, ce_reason = reason,
           ce_reference_id = reference_id\<rparr>],
       lg_cash := (if mutate_cash then lg_cash s + amount else lg_cash s)\<rparr>"

text \<open>The lines are validated where the caller builds them, before \<open>_append_journal\<close> runs.\<close>

fun validate_lines :: "journal_line list \<Rightarrow> unit res" where
  "validate_lines [] = Inr ()"
| "validate_lines (l # ls) = (case validate_sides l of Inl e \<Rightarrow> Inl e | Inr _ \<Rightarrow> validate_lines ls)"

definition append_journal ::
  "string \<Rightarrow> time \<Rightarrow> string \<Rightarrow> journal_line list \<Rightarrow> portfolio_ledger \<Rightarrow> unit res \<times> portfolio_ledger" where
  "append_journal event_id at reason lines s =
     (case validate_lines lines of Inl e \<Rightarrow> (Inl e, s)
      | Inr _ \<Rightarrow>
        if list_ex (\<lambda>e. je_event_id e = event_id) (lg_journal_entries s)
        then (Inl (DuplicateLedgerEvent event_id), s)
        else
          (let entry = \<lparr>je_event_id = event_id, je_at = at, je_reason = reason, je_lines = lines\<rparr>
           in case validate_entry entry of Inl e \<Rightarrow> (Inl e, s)
              | Inr _ \<Rightarrow> (Inr (), s\<lparr>lg_journal_entries := lg_journal_entries s @ [entry]\<rparr>)))"

definition account_balance :: "portfolio_ledger \<Rightarrow> journal_account \<Rightarrow> rat" where
  "account_balance s a =
     total_of (\<lambda>l. jl_debit l - jl_credit l)
       (filter (\<lambda>l. jl_account l = a) (concat (map je_lines (lg_journal_entries s))))"

definition new_ledger :: "rat \<Rightarrow> portfolio_policy \<Rightarrow> portfolio_ledger res" where
  "new_ledger starting_cash policy =
     (if starting_cash \<le> 0 then Inl (ValueError ''starting_cash must be positive'')
      else
        (let s = \<lparr>lg_starting_cash = starting_cash, lg_policy = policy, lg_cash = starting_cash,
               lg_realized_pnl = 0, lg_commissions = 0, lg_cash_entries = [], lg_journal_entries = [],
               lg_lots = [], lg_marks = Map.empty, lg_reservations = [], lg_event_ids = {}\<rparr>;
             s = append_cash ''initial-capital'' datetime_min starting_cash ''initial_capital'' ''initial'' False s
         in case append_journal ''initial-capital'' datetime_min ''initial_capital''
                   [debit_line CASH starting_cash, credit_line OPENING_EQUITY starting_cash] s of
              (Inl e, _) \<Rightarrow> Inl e
            | (Inr _, s) \<Rightarrow> Inr s))"

subsection \<open>Cash, positions, snapshot\<close>

definition reserved_cash :: "portfolio_ledger \<Rightarrow> rat" where
  "reserved_cash s = total_of rv_remaining_cash (lg_reservations s)"

definition available_cash :: "portfolio_ledger \<Rightarrow> rat" where
  "available_cash s = lg_cash s - reserved_cash s"

definition position_quantity :: "portfolio_ledger \<Rightarrow> string \<Rightarrow> rat" where
  "position_quantity s instrument_id =
     total_of pl_remaining_quantity (filter (\<lambda>l. pl_instrument_id l = instrument_id) (lg_lots s))"

definition held_instruments :: "portfolio_ledger \<Rightarrow> string list" where
  "held_instruments s =
     sort (remdups (map pl_instrument_id (filter (\<lambda>l. pl_remaining_quantity l > 0) (lg_lots s))))"

definition position_of :: "portfolio_ledger \<Rightarrow> string \<Rightarrow> portfolio_position" where
  "position_of s instrument_id =
     (let lots = filter (\<lambda>l. pl_instrument_id l = instrument_id \<and> pl_remaining_quantity l > 0) (lg_lots s);
          quantity = total_of pl_remaining_quantity lots;
          total_cost = total_of (\<lambda>l. pl_remaining_quantity l * pl_unit_cost l) lots;
          mark = (case lg_marks s instrument_id of None \<Rightarrow> total_cost / quantity | Some m \<Rightarrow> m)
      in \<lparr>po_instrument_id = instrument_id, po_quantity = quantity,
          po_average_cost = total_cost / quantity, po_mark_price = mark\<rparr>)"

definition ledger_snapshot :: "portfolio_ledger \<Rightarrow> time \<Rightarrow> portfolio_snapshot" where
  "ledger_snapshot s as_of =
     (let positions = map (position_of s) (held_instruments s);
          gross_value = total_of (\<lambda>p. \<bar>market_value p\<bar>) positions;
          net_liquidation = lg_cash s + total_of market_value positions
      in \<lparr>ps_as_of = as_of, ps_cash = lg_cash s, ps_available_cash = available_cash s,
          ps_reserved_cash = reserved_cash s, ps_net_liquidation = net_liquidation,
          ps_gross_exposure = (if net_liquidation > 0 then gross_value / net_liquidation else 0),
          ps_realized_pnl = lg_realized_pnl s, ps_commissions = lg_commissions s,
          ps_open_risk = total_of (\<lambda>l. pl_remaining_quantity l * pl_risk_per_share l) (lg_lots s),
          ps_positions = positions\<rparr>)"

definition mark :: "string \<Rightarrow> rat \<Rightarrow> portfolio_ledger \<Rightarrow> unit res \<times> portfolio_ledger" where
  "mark instrument_id price s =
     (if price \<le> 0 then (Inl (ValueError ''mark must be positive''), s)
      else (Inr (), s\<lparr>lg_marks := (lg_marks s)(instrument_id \<mapsto> price)\<rparr>))"

subsection \<open>Reservations\<close>

definition oco_key :: "sim_reservation \<Rightarrow> string" where
  "oco_key r = (case rv_oco_group_id r of Some (c # g) \<Rightarrow> c # g | _ \<Rightarrow> rv_order_id r)"

text \<open>\<open>groups[key] = max(groups.get(key, 0), item.remaining_quantity)\<close> on an association list.\<close>

definition group_max :: "(string \<times> rat) list \<Rightarrow> sim_reservation \<Rightarrow> (string \<times> rat) list" where
  "group_max groups r =
     (let k = oco_key r; old = (case map_of groups k of None \<Rightarrow> 0 | Some v \<Rightarrow> v)
      in upsert fst (\<lambda>_ new. new) (k, max old (rv_remaining_quantity r)) groups)"

definition reserved_sell_quantity :: "portfolio_ledger \<Rightarrow> string \<Rightarrow> rat" where
  "reserved_sell_quantity s instrument_id =
     total_of snd (foldl group_max []
       (filter (\<lambda>r. rv_instrument_id r = instrument_id \<and> rv_side r = SELL) (lg_reservations s)))"

text \<open>\<open>max(..., default=0)\<close> over the members of one OCO group.\<close>

definition same_group_quantity :: "portfolio_ledger \<Rightarrow> order_intent \<Rightarrow> rat" where
  "same_group_quantity s i =
     (case filter (\<lambda>r. rv_instrument_id r = oi_instrument_id i \<and> rv_side r = SELL \<and>
             rv_oco_group_id r = oi_oco_group_id i) (lg_reservations s) of
        [] \<Rightarrow> 0
      | r # rs \<Rightarrow> foldl max (rv_remaining_quantity r) (map rv_remaining_quantity rs))"

definition protective_price :: "order_intent \<Rightarrow> rat" where
  "protective_price i = (case oi_protective_stop i of
     None \<Rightarrow> oi_planned_price i | Some x \<Rightarrow> if x = 0 then oi_planned_price i else x)"

definition risk_per_share_of :: "order_intent \<Rightarrow> rat" where
  "risk_per_share_of i = (if oi_side i = BUY then \<bar>oi_planned_price i - protective_price i\<bar> else 0)"

definition symbol_value :: "portfolio_ledger \<Rightarrow> portfolio_snapshot \<Rightarrow> string \<Rightarrow> rat" where
  "symbol_value s snap instrument_id =
     total_of (\<lambda>p. \<bar>market_value p\<bar>) (filter (\<lambda>p. po_instrument_id p = instrument_id) (ps_positions snap)) +
     total_of rv_remaining_notional (filter (\<lambda>r. rv_instrument_id r = instrument_id) (lg_reservations s))"

definition exposed_symbols :: "portfolio_ledger \<Rightarrow> string set" where
  "exposed_symbols s = set (held_instruments s) \<union>
     set (map rv_instrument_id (filter (\<lambda>r. rv_side r = BUY) (lg_reservations s)))"

definition sell_increment :: "portfolio_ledger \<Rightarrow> order_intent \<Rightarrow> rat" where
  "sell_increment s i = (if oi_oco_group_id i = None then of_int (oi_quantity i)
     else max 0 (of_int (oi_quantity i) - same_group_quantity s i))"

definition reserve_checks :: "order_intent \<Rightarrow> portfolio_ledger \<Rightarrow> (bool \<times> exn) list" where
  "reserve_checks i s =
     (let pol = lg_policy s;
          notional = oi_planned_price i * of_int (oi_quantity i);
          risk = risk_per_share_of i * of_int (oi_quantity i);
          snap = ledger_snapshot s (oi_submitted_at i);
          net = ps_net_liquidation snap;
          reserved_risk = total_of rv_risk_amount (lg_reservations s);
          current_gross = total_of (\<lambda>p. \<bar>market_value p\<bar>) (ps_positions snap);
          reserved_notional = total_of rv_remaining_notional (lg_reservations s);
          exposure_delta = (if oi_side i = BUY then notional else 0);
          buy = (oi_side i = BUY)
      in [(\<not> list_ex (\<lambda>r. rv_order_id r = oi_order_id i) (lg_reservations s),
           ReservationRejected ''duplicate reservation''),
          (buy \<longrightarrow> oi_protective_stop i \<noteq> None, ReservationRejected ''buy order requires protective stop''),
          (risk \<le> net * pp_max_risk_per_trade pol, ReservationRejected ''risk limit exceeded''),
          (ps_open_risk snap + reserved_risk + risk \<le> net * pp_max_total_risk pol,
           ReservationRejected ''total risk limit exceeded''),
          (current_gross + reserved_notional + exposure_delta \<le> net * pp_max_gross_exposure pol,
           ReservationRejected ''gross exposure exceeded''),
          (buy \<longrightarrow> symbol_value s snap (oi_instrument_id i) + notional \<le> net * pp_max_symbol_exposure pol,
           ReservationRejected ''symbol exposure exceeded''),
          (buy \<longrightarrow> oi_instrument_id i \<in> exposed_symbols s \<or>
             int (card (exposed_symbols s)) < pp_max_positions pol,
           ReservationRejected ''position count exceeded''),
          (buy \<longrightarrow> notional + pp_minimum_commission pol \<le> available_cash s,
           ReservationRejected ''insufficient cash''),
          (\<not> buy \<longrightarrow> reserved_sell_quantity s (oi_instrument_id i) + sell_increment s i
             \<le> position_quantity s (oi_instrument_id i),
           ReservationRejected ''insufficient position'')])"

definition new_reservation :: "order_intent \<Rightarrow> portfolio_ledger \<Rightarrow> sim_reservation" where
  "new_reservation i s =
     (let notional = oi_planned_price i * of_int (oi_quantity i);
          buy = (oi_side i = BUY)
      in \<lparr>rv_order_id = oi_order_id i, rv_instrument_id = oi_instrument_id i, rv_side = oi_side i,
          rv_remaining_cash = (if buy then notional + pp_minimum_commission (lg_policy s) else 0),
          rv_remaining_notional = (if buy then notional else 0),
          rv_remaining_quantity = (if buy then 0 else of_int (oi_quantity i)),
          rv_risk_amount = risk_per_share_of i * of_int (oi_quantity i),
          rv_risk_per_share = risk_per_share_of i, rv_oco_group_id = oi_oco_group_id i\<rparr>)"

definition reserve :: "order_intent \<Rightarrow> portfolio_ledger \<Rightarrow> unit res \<times> portfolio_ledger" where
  "reserve i s = (case checks (reserve_checks i s) of Inl e \<Rightarrow> (Inl e, s)
     | Inr _ \<Rightarrow> (Inr (), s\<lparr>lg_reservations := lg_reservations s @ [new_reservation i s]\<rparr>))"

definition release :: "string \<Rightarrow> portfolio_ledger \<Rightarrow> portfolio_ledger" where
  "release order_id s = s\<lparr>lg_reservations := filter (\<lambda>r. rv_order_id r \<noteq> order_id) (lg_reservations s)\<rparr>"

subsection \<open>Fills\<close>

text \<open>\<open>_consume_fifo\<close>: the updated lots, the cost basis and what is left to consume.\<close>

fun fifo :: "string \<Rightarrow> rat \<Rightarrow> position_lot list \<Rightarrow> position_lot list \<times> rat \<times> rat" where
  "fifo instrument_id remaining [] = ([], 0, remaining)"
| "fifo instrument_id remaining (lot # lots) =
     (if pl_instrument_id lot \<noteq> instrument_id \<or> remaining \<le> 0
      then (let (ls, cost, rest) = fifo instrument_id remaining lots in (lot # ls, cost, rest))
      else
        (let consumed = min (pl_remaining_quantity lot) remaining;
             (ls, cost, rest) = fifo instrument_id (remaining - consumed) lots
         in (lot\<lparr>pl_remaining_quantity := pl_remaining_quantity lot - consumed\<rparr> # ls,
             consumed * pl_unit_cost lot + cost, rest)))"

definition consume_fifo :: "string \<Rightarrow> rat \<Rightarrow> portfolio_ledger \<Rightarrow> rat res \<times> portfolio_ledger" where
  "consume_fifo instrument_id quantity s =
     (let (updated, cost_basis, rest) = fifo instrument_id quantity (lg_lots s)
      in if rest > 0 then (Inl (ReservationRejected ''sell fill exceeds held quantity''), s)
         else (Inr cost_basis, s\<lparr>lg_lots := updated\<rparr>))"

definition pnl_line :: "rat \<Rightarrow> journal_line" where
  "pnl_line gross_pnl = (if gross_pnl \<ge> 0 then credit_line REALIZED_PNL gross_pnl
     else debit_line REALIZED_PNL (- gross_pnl))"

definition update_rv :: "string \<Rightarrow> (sim_reservation \<Rightarrow> sim_reservation) \<Rightarrow> portfolio_ledger \<Rightarrow> portfolio_ledger" where
  "update_rv order_id f s =
     s\<lparr>lg_reservations := update_where (\<lambda>r. rv_order_id r = order_id) f (lg_reservations s)\<rparr>"

definition buy_fill :: "fill_event \<Rightarrow> sim_reservation \<Rightarrow> portfolio_ledger \<Rightarrow> unit res \<times> portfolio_ledger" where
  "buy_fill f rv s =
     (let cost = fe_price f * of_int (fe_quantity f) + fe_commission f
      in if cost > rv_remaining_cash rv + available_cash s
         then (Inl (ReservationRejected ''fill exceeds reserved and available cash''), s)
         else and_then
           (append_journal (fe_fill_id f) (fe_occurred_at f) ''buy_fill''
              [debit_line POSITIONS_AT_COST cost, credit_line CASH cost]
              (append_cash (fe_fill_id f) (fe_occurred_at f) (- cost) ''buy_fill'' (fe_order_id f) True s))
           (\<lambda>_ s. (Inr (), update_rv (fe_order_id f)
              (\<lambda>r. r\<lparr>rv_remaining_cash := max 0 (rv_remaining_cash r - cost),
                     rv_risk_amount := max 0 (rv_risk_amount r - rv_risk_per_share r * of_int (fe_quantity f))\<rparr>)
              (s\<lparr>lg_lots := lg_lots s @
                 [\<lparr>pl_lot_id = fe_fill_id f, pl_instrument_id = fe_instrument_id f,
                   pl_opened_at = fe_occurred_at f, pl_original_quantity = of_int (fe_quantity f),
                   pl_remaining_quantity = of_int (fe_quantity f),
                   pl_unit_cost = cost / of_int (fe_quantity f),
                   pl_risk_per_share = rv_risk_per_share rv\<rparr>]\<rparr>))))"

definition sell_fill :: "fill_event \<Rightarrow> portfolio_ledger \<Rightarrow> unit res \<times> portfolio_ledger" where
  "sell_fill f s =
     (let notional = fe_price f * of_int (fe_quantity f);
          commission = fe_commission f;
          proceeds = notional - commission
      in and_then (consume_fifo (fe_instrument_id f) (of_int (fe_quantity f)) s) (\<lambda>cost_basis s.
         and_then
           (append_journal (fe_fill_id f) (fe_occurred_at f) ''sell_fill''
              [debit_line CASH proceeds, debit_line COMMISSION_EXPENSE commission,
               credit_line POSITIONS_AT_COST cost_basis, pnl_line (notional - cost_basis)]
              (append_cash (fe_fill_id f) (fe_occurred_at f) proceeds ''sell_fill'' (fe_order_id f) True s))
           (\<lambda>_ s. (Inr (), update_rv (fe_order_id f)
              (\<lambda>r. r\<lparr>rv_remaining_quantity := rv_remaining_quantity r - of_int (fe_quantity f)\<rparr>)
              (s\<lparr>lg_realized_pnl := lg_realized_pnl s + (proceeds - cost_basis)\<rparr>)))))"

definition ledger_apply_fill :: "fill_event \<Rightarrow> portfolio_ledger \<Rightarrow> unit res \<times> portfolio_ledger" where
  "ledger_apply_fill f s =
     (if fe_fill_id f \<in> lg_event_ids s then (Inl (DuplicateLedgerEvent (fe_fill_id f)), s)
      else case List.find (\<lambda>r. rv_order_id r = fe_order_id f) (lg_reservations s) of
        None \<Rightarrow> (Inl (ReservationRejected ''fill has no active reservation''), s)
      | Some rv \<Rightarrow>
        if rv_instrument_id rv \<noteq> fe_instrument_id f \<or> rv_side rv \<noteq> fe_side f
        then (Inl (ReservationRejected ''fill does not match reservation''), s)
        else and_then (if fe_side f = BUY then buy_fill f rv s else sell_fill f s) (\<lambda>_ s.
          (Inr (),
           (update_rv (fe_order_id f)
              (\<lambda>r. r\<lparr>rv_remaining_notional :=
                 max 0 (rv_remaining_notional r - fe_price f * of_int (fe_quantity f))\<rparr>) s)
             \<lparr>lg_commissions := lg_commissions s + fe_commission f,
              lg_event_ids := insert (fe_fill_id f) (lg_event_ids s)\<rparr>)))"

subsection \<open>Corporate actions\<close>

definition require_new_event :: "string \<Rightarrow> portfolio_ledger \<Rightarrow> bool \<times> exn" where
  "require_new_event event_id s = (event_id \<notin> lg_event_ids s, DuplicateLedgerEvent event_id)"

definition require_no_reservations :: "string \<Rightarrow> portfolio_ledger \<Rightarrow> bool \<times> exn" where
  "require_no_reservations instrument_id s =
     (\<not> list_ex (\<lambda>r. rv_instrument_id r = instrument_id) (lg_reservations s),
      ReservationRejected ''corporate action requires released orders'')"

definition add_event :: "string \<Rightarrow> portfolio_ledger \<Rightarrow> portfolio_ledger" where
  "add_event event_id s = s\<lparr>lg_event_ids := insert event_id (lg_event_ids s)\<rparr>"

definition split_lot :: "string \<Rightarrow> rat \<Rightarrow> position_lot \<Rightarrow> position_lot" where
  "split_lot instrument_id ratio l =
     (if pl_instrument_id l \<noteq> instrument_id then l
      else l\<lparr>pl_original_quantity := pl_original_quantity l * ratio,
             pl_remaining_quantity := pl_remaining_quantity l * ratio,
             pl_unit_cost := pl_unit_cost l / ratio,
             pl_risk_per_share := pl_risk_per_share l / ratio\<rparr>)"

definition apply_split :: "string \<Rightarrow> string \<Rightarrow> rat \<Rightarrow> time \<Rightarrow> portfolio_ledger \<Rightarrow> unit res \<times> portfolio_ledger" where
  "apply_split action_id instrument_id ratio at s =
     (case checks [require_new_event action_id s, require_no_reservations instrument_id s,
             (ratio > 0, ValueError ''split ratio must be positive'')] of
        Inl e \<Rightarrow> (Inl e, s)
      | Inr _ \<Rightarrow>
        (let s = s\<lparr>lg_lots := map (split_lot instrument_id ratio) (lg_lots s)\<rparr>;
             s = (case lg_marks s instrument_id of None \<Rightarrow> s
                  | Some m \<Rightarrow> s\<lparr>lg_marks := (lg_marks s)(instrument_id \<mapsto> m / ratio)\<rparr>)
         in and_then (append_journal action_id at ''split_quantity_restatement'' [] s)
              (\<lambda>_ s. (Inr (), add_event action_id s))))"

definition apply_dividend :: "string \<Rightarrow> string \<Rightarrow> rat \<Rightarrow> time \<Rightarrow> portfolio_ledger \<Rightarrow> unit res \<times> portfolio_ledger" where
  "apply_dividend action_id instrument_id cash_per_share at s =
     (case checks [require_new_event action_id s,
             (cash_per_share \<ge> 0, ValueError ''cash_per_share must not be negative'')] of
        Inl e \<Rightarrow> (Inl e, s)
      | Inr _ \<Rightarrow>
        (let amount = position_quantity s instrument_id * cash_per_share
         in and_then
              (append_journal action_id at ''cash_dividend''
                 [debit_line CASH amount, credit_line DIVIDEND_INCOME amount]
                 (append_cash action_id at amount ''cash_dividend'' instrument_id True s))
              (\<lambda>_ s. (Inr (), add_event action_id s))))"

definition apply_delisting :: "string \<Rightarrow> string \<Rightarrow> rat \<Rightarrow> time \<Rightarrow> portfolio_ledger \<Rightarrow> unit res \<times> portfolio_ledger" where
  "apply_delisting action_id instrument_id cash_per_share at s =
     (case checks [require_new_event action_id s, require_no_reservations instrument_id s,
             (cash_per_share \<ge> 0, ValueError ''cash_per_share must not be negative'')] of
        Inl e \<Rightarrow> (Inl e, s)
      | Inr _ \<Rightarrow>
        (let quantity = position_quantity s instrument_id;
             cost_basis = total_of (\<lambda>l. pl_remaining_quantity l * pl_unit_cost l)
               (filter (\<lambda>l. pl_instrument_id l = instrument_id) (lg_lots s));
             recovery = quantity * cash_per_share;
             s = s\<lparr>lg_lots := map (\<lambda>l. if pl_instrument_id l = instrument_id
                   then l\<lparr>pl_remaining_quantity := 0\<rparr> else l) (lg_lots s)\<rparr>
         in and_then
              (append_journal action_id at ''delisting_recovery''
                 [debit_line CASH recovery, credit_line POSITIONS_AT_COST cost_basis,
                  pnl_line (recovery - cost_basis)]
                 (append_cash action_id at recovery ''delisting_recovery'' instrument_id True s))
              (\<lambda>_ s. (Inr (), add_event action_id
                 (s\<lparr>lg_realized_pnl := lg_realized_pnl s + (recovery - cost_basis),
                    lg_marks := (lg_marks s)(instrument_id := None)\<rparr>)))))"

definition assert_conservation :: "portfolio_ledger \<Rightarrow> unit res" where
  "assert_conservation s = checks
     [(lg_cash s = total_of ce_amount (lg_cash_entries s), AssertionError ''cash ledger mismatch''),
      (\<not> list_ex (\<lambda>l. pl_remaining_quantity l < 0) (lg_lots s), AssertionError ''negative lot quantity''),
      (\<not> list_ex (\<lambda>e. \<not> is_balanced e) (lg_journal_entries s), AssertionError ''unbalanced journal entry''),
      (account_balance s CASH = lg_cash s,
       AssertionError ''journal cash account does not match portfolio cash'')]"

end
