(* ===== verification/Sim_Books.thy ===== *)
theory Sim_Books
  imports Sim_Portfolio
begin

section \<open>The ledger's books\<close>

text \<open>
  The invariant of \<open>PortfolioLedger\<close>: the cash field, the cash entries and the journal agree, the
  journal's position account is the cost of the open lots, and cash that is reserved is there.
  Every method keeps it, whether it returns or raises.
\<close>

subsection \<open>Journal lemmas\<close>

definition line_delta :: "journal_account \<Rightarrow> journal_line list \<Rightarrow> rat" where
  "line_delta a ls = total_of (\<lambda>l. jl_debit l - jl_credit l) (filter (\<lambda>l. jl_account l = a) ls)"

lemma line_simps [simp]:
  "jl_account (debit_line a x) = a" "jl_debit (debit_line a x) = x" "jl_credit (debit_line a x) = 0"
  "jl_account (credit_line a x) = a" "jl_debit (credit_line a x) = 0" "jl_credit (credit_line a x) = x"
  "jl_account (pnl_line g) = REALIZED_PNL" "jl_debit (pnl_line g) = max 0 (- g)" "jl_credit (pnl_line g) = max 0 g"
  by (auto simp: debit_line_def credit_line_def pnl_line_def)

lemma validate_lines_ok:
  "validate_lines ls = Inr u \<longleftrightarrow> (\<forall>l \<in> set ls. 0 \<le> jl_debit l \<and> 0 \<le> jl_credit l \<and> \<not> (0 < jl_debit l \<and> 0 < jl_credit l))"
  by (induction ls) (auto simp: validate_sides_def dest!: checks_Inl split: sum.splits)

declare validate_lines.simps [simp del]

lemma account_balance_append:
  "account_balance (s\<lparr>lg_journal_entries := js @ [e]\<rparr>) a =
     account_balance (s\<lparr>lg_journal_entries := js\<rparr>) a + line_delta a (je_lines e)"
  by (simp add: account_balance_def line_delta_def)

lemma account_balance_journal:
  "lg_journal_entries s = lg_journal_entries t \<Longrightarrow> account_balance s a = account_balance t a"
  by (simp add: account_balance_def)

definition journal_ids :: "portfolio_ledger \<Rightarrow> string set" where
  "journal_ids s = je_event_id ` set (lg_journal_entries s)"

definition entry :: "string \<Rightarrow> time \<Rightarrow> string \<Rightarrow> journal_line list \<Rightarrow> journal_entry" where
  "entry event_id at reason lines = \<lparr>je_event_id = event_id, je_at = at, je_reason = reason, je_lines = lines\<rparr>"

lemma entry_simps [simp]:
  "je_event_id (entry i at r ls) = i" "je_lines (entry i at r ls) = ls"
  "is_balanced (entry i at r ls) \<longleftrightarrow> total_of jl_debit ls = total_of jl_credit ls"
  by (simp_all add: entry_def is_balanced_def total_debits_def total_credits_def)

lemma append_journal_succeeds:
  assumes "validate_lines ls = Inr ()" and "i \<notin> journal_ids s"
    and "total_of jl_debit ls = total_of jl_credit ls"
  shows "append_journal i at r ls s = (Inr (), s\<lparr>lg_journal_entries := lg_journal_entries s @ [entry i at r ls]\<rparr>)"
  using assms entry_simps(3) [of i at r ls]
  by (auto simp: append_journal_def journal_ids_def list_ex_iff Let_def validate_entry_def entry_def checks.simps)

lemma append_cash_simps [simp]:
  "lg_cash_entries (append_cash i at x r ref m s) = lg_cash_entries s @ [\<lparr>ce_event_id = i, ce_at = at, ce_amount = x, ce_reason = r, ce_reference_id = ref\<rparr>]"
  "lg_cash (append_cash i at x r ref m s) = (if m then lg_cash s + x else lg_cash s)"
  "lg_journal_entries (append_cash i at x r ref m s) = lg_journal_entries s"
  "lg_lots (append_cash i at x r ref m s) = lg_lots s"
  "lg_reservations (append_cash i at x r ref m s) = lg_reservations s"
  "lg_event_ids (append_cash i at x r ref m s) = lg_event_ids s"
  "lg_realized_pnl (append_cash i at x r ref m s) = lg_realized_pnl s"
  "lg_starting_cash (append_cash i at x r ref m s) = lg_starting_cash s"
  "lg_policy (append_cash i at x r ref m s) = lg_policy s"
  "lg_marks (append_cash i at x r ref m s) = lg_marks s"
  "lg_commissions (append_cash i at x r ref m s) = lg_commissions s"
  by (simp_all add: append_cash_def)

lemma journal_ids_append_cash [simp]: "journal_ids (append_cash i at x r ref m s) = journal_ids s"
  by (simp add: journal_ids_def)

lemma update_rv_simps [simp]:
  "lg_cash_entries (update_rv i f s) = lg_cash_entries s"
  "lg_cash (update_rv i f s) = lg_cash s"
  "lg_journal_entries (update_rv i f s) = lg_journal_entries s"
  "lg_lots (update_rv i f s) = lg_lots s"
  "lg_reservations (update_rv i f s) = update_where (\<lambda>r. rv_order_id r = i) f (lg_reservations s)"
  "lg_event_ids (update_rv i f s) = lg_event_ids s"
  "lg_realized_pnl (update_rv i f s) = lg_realized_pnl s"
  "lg_starting_cash (update_rv i f s) = lg_starting_cash s"
  "lg_policy (update_rv i f s) = lg_policy s"
  "lg_marks (update_rv i f s) = lg_marks s"
  "lg_commissions (update_rv i f s) = lg_commissions s"
  by (simp_all add: update_rv_def)

subsection \<open>First in, first out\<close>

abbreviation lots_cost :: "position_lot list \<Rightarrow> rat" where
  "lots_cost ls \<equiv> total_of (\<lambda>l. pl_remaining_quantity l * pl_unit_cost l) ls"

abbreviation lots_quantity :: "string \<Rightarrow> position_lot list \<Rightarrow> rat" where
  "lots_quantity instrument_id ls \<equiv> total_of pl_remaining_quantity (filter (\<lambda>l. pl_instrument_id l = instrument_id) ls)"

definition lot_ok :: "position_lot \<Rightarrow> bool" where
  "lot_ok l = (0 \<le> pl_remaining_quantity l \<and> pl_remaining_quantity l \<le> pl_original_quantity l \<and>
     0 \<le> pl_unit_cost l \<and> 0 \<le> pl_risk_per_share l)"

text \<open>Consuming takes exactly the quantity asked for when it is there, in the order of the lots,
  leaves other instruments alone, and the cost basis is what the lots lose.\<close>

lemma fifo_books:
  assumes "fifo ins q ls = (ls', cost, rest)" and "\<forall>l \<in> set ls. lot_ok l" and "0 \<le> q"
  shows "(\<forall>l \<in> set ls'. lot_ok l) \<and> 0 \<le> rest \<and> 0 \<le> cost \<and> lots_cost ls' = lots_cost ls - cost \<and>
    lots_quantity ins ls' = lots_quantity ins ls - (q - rest) \<and>
    (\<forall>i. i \<noteq> ins \<longrightarrow> lots_quantity i ls' = lots_quantity i ls)"
  using assms
proof (induction ins q ls arbitrary: ls' cost rest rule: fifo.induct)
  case (2 ins q lot lots)
  show ?case
  proof (cases "pl_instrument_id lot \<noteq> ins \<or> q \<le> 0")
    case True
    obtain ms c r where rec: "fifo ins q lots = (ms, c, r)" by (cases "fifo ins q lots")
    then have "ls' = lot # ms" "cost = c" "rest = r" using 2(3) True by auto
    then show ?thesis using 2(1) [OF True rec] 2(4,5) by auto
  next
    case False
    define k where "k = min (pl_remaining_quantity lot) q"
    obtain ms c r where rec: "fifo ins (q - k) lots = (ms, c, r)" by (cases "fifo ins (q - k) lots")
    have eqs: "ls' = lot\<lparr>pl_remaining_quantity := pl_remaining_quantity lot - k\<rparr> # ms"
      "cost = k * pl_unit_cost lot + c" "rest = r"
      using 2(3) False rec by (auto simp: k_def Let_def)
    have k: "0 \<le> k" "k \<le> pl_remaining_quantity lot" "k \<le> q" using 2(4) False by (auto simp: k_def lot_ok_def)
    have IH: "(\<forall>l \<in> set ms. lot_ok l) \<and> 0 \<le> r \<and> 0 \<le> c \<and> lots_cost ms = lots_cost lots - c \<and>
      lots_quantity ins ms = lots_quantity ins lots - (q - k - r) \<and>
      (\<forall>i. i \<noteq> ins \<longrightarrow> lots_quantity i ms = lots_quantity i lots)"
      using 2(2) [OF False k_def rec] 2(4) k by auto
    then show ?thesis using 2(4) False k unfolding eqs
      by (auto simp: lot_ok_def algebra_simps)
  qed
qed simp

lemma fifo_rest:
  assumes "fifo ins q ls = (ls', cost, rest)" and "\<forall>l \<in> set ls. lot_ok l" and "0 \<le> q"
  shows "rest = max 0 (q - lots_quantity ins ls)"
  using assms
proof (induction ins q ls arbitrary: ls' cost rest rule: fifo.induct)
  case (2 ins q lot lots)
  have nonneg: "0 \<le> lots_quantity ins lots" using 2(4) by (intro total_nonneg) (auto simp: lot_ok_def)
  show ?case
  proof (cases "pl_instrument_id lot \<noteq> ins \<or> q \<le> 0")
    case True
    obtain ms c r where rec: "fifo ins q lots = (ms, c, r)" by (cases "fifo ins q lots")
    then have "rest = r" using 2(3) True by auto
    moreover have "r = max 0 (q - lots_quantity ins lots)" using 2(1) [OF True rec] 2(4,5) by auto
    moreover have "0 \<le> pl_remaining_quantity lot" using 2(4) by (simp add: lot_ok_def)
    ultimately show ?thesis using True 2(5) nonneg by auto
  next
    case False
    define k where "k = min (pl_remaining_quantity lot) q"
    obtain ms c r where rec: "fifo ins (q - k) lots = (ms, c, r)" by (cases "fifo ins (q - k) lots")
    have "rest = r" using 2(3) False rec by (auto simp: k_def Let_def)
    moreover have "r = max 0 (q - k - lots_quantity ins lots)"
      using 2(2) [OF False k_def rec] 2(4,5) by (auto simp: k_def)
    ultimately show ?thesis using False nonneg by (auto simp: k_def)
  qed
qed simp

lemma fifo_instruments:
  "fifo ins q ls = (ls', cost, rest) \<Longrightarrow> map pl_instrument_id ls' = map pl_instrument_id ls"
  by (induction ins q ls arbitrary: ls' cost rest rule: fifo.induct)
    (auto simp: Let_def split: if_splits prod.splits)

subsection \<open>The invariant\<close>

definition books_ok :: "portfolio_ledger \<Rightarrow> bool" where
  "books_ok s = (lg_cash s = total_of ce_amount (lg_cash_entries s) \<and>
     (\<forall>e \<in> set (lg_journal_entries s). is_balanced e) \<and>
     account_balance s CASH = lg_cash s \<and>
     account_balance s POSITIONS_AT_COST = lots_cost (lg_lots s) \<and>
     account_balance s OPENING_EQUITY = - lg_starting_cash s \<and>
     account_balance s REALIZED_PNL + account_balance s COMMISSION_EXPENSE = - lg_realized_pnl s \<and>
     (\<forall>l \<in> set (lg_lots s). lot_ok l) \<and>
     journal_ids s = insert ''initial-capital'' (lg_event_ids s))"

definition rv_ok :: "sim_reservation \<Rightarrow> bool" where
  "rv_ok r = (0 \<le> rv_remaining_cash r \<and> 0 \<le> rv_remaining_notional r \<and>
     0 \<le> rv_risk_amount r \<and> 0 \<le> rv_risk_per_share r \<and>
     (rv_side r = SELL \<longrightarrow> rv_remaining_cash r = 0 \<and> rv_remaining_notional r = 0) \<and>
     (rv_side r = BUY \<longrightarrow> rv_remaining_quantity r = 0))"

definition reserves_ok :: "portfolio_ledger \<Rightarrow> bool" where
  "reserves_ok s = (distinct (map rv_order_id (lg_reservations s)) \<and>
     (\<forall>r \<in> set (lg_reservations s). rv_ok r) \<and>
     0 \<le> available_cash s \<and> 0 \<le> pp_minimum_commission (lg_policy s) \<and>
     int (card (exposed_symbols s)) \<le> pp_max_positions (lg_policy s))"

definition ledger_ok :: "portfolio_ledger \<Rightarrow> bool" where
  "ledger_ok s = (books_ok s \<and> reserves_ok s)"

text \<open>One posting: the effect of a cash entry and a journal entry on the books.\<close>

definition post :: "string \<Rightarrow> time \<Rightarrow> rat \<Rightarrow> string \<Rightarrow> string \<Rightarrow> journal_line list \<Rightarrow> portfolio_ledger \<Rightarrow> portfolio_ledger" where
  "post i at amount reason ref lines s =
     (append_cash i at amount reason ref True s)
       \<lparr>lg_journal_entries := lg_journal_entries s @ [entry i at reason lines]\<rparr>"

lemma post_simps [simp]:
  "lg_cash (post i at x r ref ls s) = lg_cash s + x"
  "lg_journal_entries (post i at x r ref ls s) = lg_journal_entries s @ [entry i at r ls]"
  "lg_lots (post i at x r ref ls s) = lg_lots s"
  "lg_reservations (post i at x r ref ls s) = lg_reservations s"
  "lg_event_ids (post i at x r ref ls s) = lg_event_ids s"
  "lg_realized_pnl (post i at x r ref ls s) = lg_realized_pnl s"
  "lg_starting_cash (post i at x r ref ls s) = lg_starting_cash s"
  "lg_policy (post i at x r ref ls s) = lg_policy s"
  "lg_marks (post i at x r ref ls s) = lg_marks s"
  "lg_commissions (post i at x r ref ls s) = lg_commissions s"
  "total_of ce_amount (lg_cash_entries (post i at x r ref ls s)) = total_of ce_amount (lg_cash_entries s) + x"
  "account_balance (post i at x r ref ls s) a = account_balance s a + line_delta a ls"
  "journal_ids (post i at x r ref ls s) = insert i (journal_ids s)"
  by (simp_all add: post_def account_balance_def line_delta_def journal_ids_def)

lemma post_succeeds:
  assumes "validate_lines ls = Inr ()" and "i \<notin> journal_ids s"
    and "total_of jl_debit ls = total_of jl_credit ls"
  shows "append_journal i at r ls (append_cash i at x r ref True s) = (Inr (), post i at x r ref ls s)"
  using append_journal_succeeds [of ls i "append_cash i at x r ref True s" at r] assms
  by (simp add: post_def)

text \<open>The books only read the cash, the entries, the lots, the realised result and the event ids.\<close>

lemma books_ok_cong:
  assumes "lg_cash s = lg_cash t" "lg_cash_entries s = lg_cash_entries t"
    "lg_journal_entries s = lg_journal_entries t" "lg_lots s = lg_lots t"
    "lg_realized_pnl s = lg_realized_pnl t" "lg_starting_cash s = lg_starting_cash t"
    "lg_event_ids s = lg_event_ids t"
  shows "books_ok s = books_ok t"
  using assms account_balance_journal [OF assms(3)] by (simp add: books_ok_def journal_ids_def)

lemma books_post:
  assumes "books_ok s" and "total_of jl_debit ls = total_of jl_credit ls"
    and "line_delta CASH ls = x" and "line_delta OPENING_EQUITY ls = 0"
    and "line_delta POSITIONS_AT_COST ls = lots_cost lots - lots_cost (lg_lots s)"
    and "line_delta REALIZED_PNL ls + line_delta COMMISSION_EXPENSE ls = - gain"
    and "\<forall>l \<in> set lots. lot_ok l"
    and t: "lg_cash t = lg_cash s + x" "lg_cash_entries t = lg_cash_entries (post i at x r ref ls s)"
      "lg_journal_entries t = lg_journal_entries s @ [entry i at r ls]" "lg_lots t = lots"
      "lg_realized_pnl t = lg_realized_pnl s + gain" "lg_starting_cash t = lg_starting_cash s"
      "lg_event_ids t = insert i (lg_event_ids s)"
  shows "books_ok t"
proof -
  have bal: "account_balance t a = account_balance s a + line_delta a ls" for a
    using account_balance_journal [of t "post i at x r ref ls s"] t(3) by simp
  have ids: "journal_ids t = insert i (journal_ids s)"
    using t(3) by (simp add: journal_ids_def)
  show ?thesis
    using assms(1-7) t(1,4-7) bal ids unfolding books_ok_def t(2,3) by (auto simp: algebra_simps)
qed

subsection \<open>Every method keeps the books\<close>

lemma fresh_event: "books_ok s \<Longrightarrow> i \<notin> lg_event_ids s \<Longrightarrow> i \<noteq> ''initial-capital'' \<Longrightarrow> i \<notin> journal_ids s"
  by (simp add: books_ok_def)

lemma set_held [simp]:
  "set (held_instruments s) = {pl_instrument_id l |l. l \<in> set (lg_lots s) \<and> 0 < pl_remaining_quantity l}"
  by (auto simp: held_instruments_def)

lemma finite_exposed [simp]: "finite (exposed_symbols s)"
  by (simp add: exposed_symbols_def held_instruments_def)

lemma exposed_symbols_subset:
  assumes "lg_reservations t = lg_reservations s"
    and "\<And>l. l \<in> set (lg_lots t) \<Longrightarrow> 0 < pl_remaining_quantity l \<Longrightarrow>
      \<exists>k \<in> set (lg_lots s). pl_instrument_id k = pl_instrument_id l \<and> 0 < pl_remaining_quantity k"
  shows "exposed_symbols t \<subseteq> exposed_symbols s"
proof -
  have "set (held_instruments t) \<subseteq> set (held_instruments s)"
  proof
    fix x assume "x \<in> set (held_instruments t)"
    then obtain l where "l \<in> set (lg_lots t)" "0 < pl_remaining_quantity l" "x = pl_instrument_id l" by auto
    then show "x \<in> set (held_instruments s)" using assms(2) [of l] by (force simp: eq_commute)
  qed
  then show ?thesis using assms(1) unfolding exposed_symbols_def by auto
qed

lemma exposed_within:
  assumes "int (card (exposed_symbols s)) \<le> n" and "exposed_symbols t \<subseteq> exposed_symbols s"
  shows "int (card (exposed_symbols t)) \<le> n"
  using card_mono [OF finite_exposed assms(2)] assms(1) by linarith

lemma total_update_where:
  assumes "distinct (map k xs)" and "x \<in> set xs" and "k x = i"
  shows "total_of c (update_where (\<lambda>r. k r = i) f xs) = total_of c xs - c x + (c (f x) :: rat)"
  using assms
proof (induction xs)
  case (Cons y ys)
  show ?case
  proof (cases "x = y")
    case True
    then have "update_where (\<lambda>r. k r = i) f ys = ys"
      using Cons.prems by (intro update_where_none) (auto simp: image_iff)
    then show ?thesis using True Cons.prems by simp
  next
    case False
    then have "k y \<noteq> i" and "x \<in> set ys" using Cons.prems by (auto simp: image_iff)
    then show ?thesis using Cons by simp
  qed
qed simp

lemma position_nonneg: "books_ok s \<Longrightarrow> 0 \<le> position_quantity s i"
  unfolding position_quantity_def by (intro total_nonneg) (auto simp: books_ok_def lot_ok_def)

lemma reserved_nonneg: "reserves_ok s \<Longrightarrow> 0 \<le> reserved_cash s"
  unfolding reserved_cash_def by (intro total_nonneg) (auto simp: reserves_ok_def rv_ok_def)

text \<open>Construction.\<close>

lemma new_ledger_ok:
  assumes "new_ledger x pol = Inr s" and "0 \<le> pp_minimum_commission pol" and "0 \<le> pp_max_positions pol"
  shows "ledger_ok s"
proof -
  let ?z = "\<lparr>lg_starting_cash = x, lg_policy = pol, lg_cash = x, lg_realized_pnl = 0, lg_commissions = 0,
    lg_cash_entries = [], lg_journal_entries = [], lg_lots = [], lg_marks = Map.empty,
    lg_reservations = [], lg_event_ids = {}\<rparr>"
  let ?c = "append_cash ''initial-capital'' datetime_min x ''initial_capital'' ''initial'' False ?z"
  let ?ls = "[debit_line CASH x, credit_line OPENING_EQUITY x]"
  have pos: "0 < x" using assms(1) by (simp add: new_ledger_def split: if_splits)
  have "append_journal ''initial-capital'' datetime_min ''initial_capital'' ?ls ?c =
      (Inr (), ?c\<lparr>lg_journal_entries := [entry ''initial-capital'' datetime_min ''initial_capital'' ?ls]\<rparr>)"
    using append_journal_succeeds [of ?ls "''initial-capital''" ?c] pos
    by (simp add: validate_lines_ok journal_ids_def)
  then have s: "s = ?c\<lparr>lg_journal_entries := [entry ''initial-capital'' datetime_min ''initial_capital'' ?ls]\<rparr>"
    using assms(1) pos by (simp add: new_ledger_def Let_def)
  show ?thesis using pos assms(2,3) unfolding s
    by (simp add: ledger_ok_def books_ok_def reserves_ok_def account_balance_def journal_ids_def
        available_cash_def reserved_cash_def exposed_symbols_def held_instruments_def)
qed

text \<open>Reservations.\<close>

lemma reserve_cases:
  "reserve i s = (Inl e, t) \<Longrightarrow> t = s"
  "reserve i s = (Inr u, t) \<Longrightarrow> (\<forall>(b, e) \<in> set (reserve_checks i s). b) \<and>
     t = s\<lparr>lg_reservations := lg_reservations s @ [new_reservation i s]\<rparr>"
  by (auto simp: reserve_def split: sum.splits)

lemma new_reservation_simps [simp]:
  "rv_order_id (new_reservation i s) = oi_order_id i" "rv_instrument_id (new_reservation i s) = oi_instrument_id i"
  "rv_side (new_reservation i s) = oi_side i" "rv_oco_group_id (new_reservation i s) = oi_oco_group_id i"
  "rv_remaining_quantity (new_reservation i s) = (if oi_side i = BUY then 0 else of_int (oi_quantity i))"
  "rv_remaining_cash (new_reservation i s) = (if oi_side i = BUY
     then oi_planned_price i * of_int (oi_quantity i) + pp_minimum_commission (lg_policy s) else 0)"
  "rv_remaining_notional (new_reservation i s) = (if oi_side i = BUY then oi_planned_price i * of_int (oi_quantity i) else 0)"
  "rv_risk_amount (new_reservation i s) = risk_per_share_of i * of_int (oi_quantity i)"
  "rv_risk_per_share (new_reservation i s) = risk_per_share_of i"
  by (simp_all add: new_reservation_def Let_def)

lemma reserve_ledger_ok:
  assumes "ledger_ok s" and "validate_intent i = Inr ()"
  shows "ledger_ok (snd (reserve i s))"
proof (cases "fst (reserve i s)")
  case (Inl e)
  then show ?thesis using assms(1) reserve_cases(1) [of i s e "snd (reserve i s)"] by (cases "reserve i s") simp
next
  case (Inr u)
  let ?r = "new_reservation i s"
  have t: "snd (reserve i s) = s\<lparr>lg_reservations := lg_reservations s @ [?r]\<rparr>" (is "_ = ?t")
    and ch: "\<forall>(b, e) \<in> set (reserve_checks i s). b"
    using Inr reserve_cases(2) [of i s u "snd (reserve i s)"] by (cases "reserve i s"; simp)+
  have fresh: "\<not> list_ex (\<lambda>r. rv_order_id r = oi_order_id i) (lg_reservations s)"
    and cash: "oi_side i = BUY \<longrightarrow> oi_planned_price i * of_int (oi_quantity i) + pp_minimum_commission (lg_policy s) \<le> available_cash s"
    and slots: "oi_side i = BUY \<longrightarrow> oi_instrument_id i \<in> exposed_symbols s \<or>
      int (card (exposed_symbols s)) < pp_max_positions (lg_policy s)"
    using ch by (simp_all add: reserve_checks_def Let_def)
  have old: "reserves_ok s" "books_ok s" using assms(1) by (simp_all add: ledger_ok_def)
  have pos: "0 < oi_quantity i" "0 < oi_planned_price i" using assms(2) by (simp_all add: validate_intent_def)
  have r: "rv_ok ?r"
    using pos old(1) by (auto simp: rv_ok_def reserves_ok_def risk_per_share_of_def)
  have av: "0 \<le> available_cash ?t"
    using cash old(1) by (auto simp: available_cash_def reserved_cash_def reserves_ok_def)
  have ex: "exposed_symbols ?t = (if oi_side i = BUY then insert (oi_instrument_id i) (exposed_symbols s) else exposed_symbols s)"
    by (auto simp: exposed_symbols_def)
  have "int (card (exposed_symbols ?t)) \<le> pp_max_positions (lg_policy s)"
    using slots old(1) unfolding ex by (auto simp: card_insert_if reserves_ok_def)
  then have "reserves_ok ?t" using fresh r av old(1)
    by (auto simp: reserves_ok_def list_ex_iff)
  moreover have "books_ok ?t" using old(2) books_ok_cong [of ?t s] by simp
  ultimately show ?thesis using t by (simp add: ledger_ok_def)
qed

lemma release_ledger_ok:
  assumes "ledger_ok s"
  shows "ledger_ok (release i s)"
proof -
  have old: "reserves_ok s" "books_ok s" using assms by (simp_all add: ledger_ok_def)
  have "reserved_cash (release i s) \<le> reserved_cash s"
    using old(1) unfolding reserved_cash_def release_def
    by (auto intro!: total_filter_le simp: reserves_ok_def rv_ok_def)
  then have "0 \<le> available_cash (release i s)"
    using old(1) by (simp add: available_cash_def reserves_ok_def release_def)
  moreover have "exposed_symbols (release i s) \<subseteq> exposed_symbols s"
    by (auto simp: exposed_symbols_def release_def)
  ultimately have "reserves_ok (release i s)"
    using old(1) exposed_within [of s _ "release i s"]
    by (auto simp: reserves_ok_def release_def distinct_map_filter)
  moreover have "books_ok (release i s)" using old(2) books_ok_cong [of "release i s" s] by (simp add: release_def)
  ultimately show ?thesis by (simp add: ledger_ok_def)
qed

text \<open>Fills. What a fill of an active reservation does, with the bookkeeping made explicit.\<close>

definition fill_cost :: "fill_event \<Rightarrow> rat" where
  "fill_cost f = fe_price f * of_int (fe_quantity f) + fe_commission f"

definition fill_proceeds :: "fill_event \<Rightarrow> rat" where
  "fill_proceeds f = fe_price f * of_int (fe_quantity f) - fe_commission f"

definition buy_lines :: "fill_event \<Rightarrow> journal_line list" where
  "buy_lines f = [debit_line POSITIONS_AT_COST (fill_cost f), credit_line CASH (fill_cost f)]"

definition sell_lines :: "fill_event \<Rightarrow> rat \<Rightarrow> journal_line list" where
  "sell_lines f basis = [debit_line CASH (fill_proceeds f), debit_line COMMISSION_EXPENSE (fe_commission f),
     credit_line POSITIONS_AT_COST basis, pnl_line (fe_price f * of_int (fe_quantity f) - basis)]"

definition fill_lot :: "fill_event \<Rightarrow> sim_reservation \<Rightarrow> position_lot" where
  "fill_lot f rv = \<lparr>pl_lot_id = fe_fill_id f, pl_instrument_id = fe_instrument_id f,
     pl_opened_at = fe_occurred_at f, pl_original_quantity = of_int (fe_quantity f),
     pl_remaining_quantity = of_int (fe_quantity f),
     pl_unit_cost = fill_cost f / of_int (fe_quantity f), pl_risk_per_share = rv_risk_per_share rv\<rparr>"

definition fill_update :: "fill_event \<Rightarrow> sim_reservation \<Rightarrow> sim_reservation" where
  "fill_update f r =
     (if fe_side f = BUY
      then r\<lparr>rv_remaining_cash := max 0 (rv_remaining_cash r - fill_cost f),
             rv_risk_amount := max 0 (rv_risk_amount r - rv_risk_per_share r * of_int (fe_quantity f)),
             rv_remaining_notional := max 0 (rv_remaining_notional r - fe_price f * of_int (fe_quantity f))\<rparr>
      else r\<lparr>rv_remaining_quantity := rv_remaining_quantity r - of_int (fe_quantity f),
             rv_remaining_notional := max 0 (rv_remaining_notional r - fe_price f * of_int (fe_quantity f))\<rparr>)"

lemma update_where_twice:
  "(\<And>r. k (f r) = k r) \<Longrightarrow>
   update_where (\<lambda>r. k r = i) g (update_where (\<lambda>r. k r = i) f xs) = update_where (\<lambda>r. k r = i) (\<lambda>r. g (f r)) xs"
  by (induction xs) auto

lemma fill_ok_pos:
  assumes "validate_fill f = Inr ()"
  shows "0 < fe_quantity f" "0 < fe_price f" "0 \<le> fe_commission f" "0 \<le> fill_cost f"
  using assms by (simp_all add: validate_fill_def fill_cost_def)

definition filled_ledger :: "fill_event \<Rightarrow> rat \<Rightarrow> string \<Rightarrow> journal_line list \<Rightarrow> position_lot list \<Rightarrow> rat \<Rightarrow> portfolio_ledger \<Rightarrow> portfolio_ledger" where
  "filled_ledger f x reason ls lots gain s =
     (update_rv (fe_order_id f) (fill_update f) (post (fe_fill_id f) (fe_occurred_at f) x reason (fe_order_id f) ls s))
       \<lparr>lg_lots := lots, lg_realized_pnl := lg_realized_pnl s + gain,
        lg_commissions := lg_commissions s + fe_commission f,
        lg_event_ids := insert (fe_fill_id f) (lg_event_ids s)\<rparr>"

lemma buy_fill_ledger:
  assumes "validate_fill f = Inr ()" and "fe_fill_id f \<notin> journal_ids s" and "fe_fill_id f \<notin> lg_event_ids s"
    and "List.find (\<lambda>r. rv_order_id r = fe_order_id f) (lg_reservations s) = Some rv"
    and "fe_side f = BUY" and "fill_cost f \<le> rv_remaining_cash rv + available_cash s"
    and "rv_instrument_id rv = fe_instrument_id f" and "rv_side rv = BUY"
  shows "ledger_apply_fill f s = (Inr (), filled_ledger f (- fill_cost f) ''buy_fill'' (buy_lines f)
    (lg_lots s @ [fill_lot f rv]) 0 s)"
proof -
  have "append_journal (fe_fill_id f) (fe_occurred_at f) ''buy_fill'' (buy_lines f)
      (append_cash (fe_fill_id f) (fe_occurred_at f) (- fill_cost f) ''buy_fill'' (fe_order_id f) True s) =
      (Inr (), post (fe_fill_id f) (fe_occurred_at f) (- fill_cost f) ''buy_fill'' (fe_order_id f) (buy_lines f) s)"
    using assms(2) fill_ok_pos [OF assms(1)] by (intro post_succeeds) (simp_all add: validate_lines_ok buy_lines_def)
  then have "buy_fill f rv s = (Inr (), update_rv (fe_order_id f)
      (\<lambda>r. r\<lparr>rv_remaining_cash := max 0 (rv_remaining_cash r - fill_cost f),
             rv_risk_amount := max 0 (rv_risk_amount r - rv_risk_per_share r * of_int (fe_quantity f))\<rparr>)
      ((post (fe_fill_id f) (fe_occurred_at f) (- fill_cost f) ''buy_fill'' (fe_order_id f) (buy_lines f) s)
         \<lparr>lg_lots := lg_lots s @ [fill_lot f rv]\<rparr>))"
    using assms(6) by (simp add: buy_fill_def Let_def fill_cost_def [symmetric] buy_lines_def [symmetric] fill_lot_def)
  then show ?thesis using assms(3-5,7,8)
    by (simp add: ledger_apply_fill_def filled_ledger_def update_rv_def update_where_twice fill_update_def [abs_def])
qed

lemma sell_fill_ledger:
  assumes "validate_fill f = Inr ()" and "fe_fill_id f \<notin> journal_ids s" and "fe_fill_id f \<notin> lg_event_ids s"
    and "List.find (\<lambda>r. rv_order_id r = fe_order_id f) (lg_reservations s) = Some rv"
    and "fe_side f = SELL" and "rv_instrument_id rv = fe_instrument_id f" and "rv_side rv = SELL"
    and "fe_commission f \<le> fe_price f * of_int (fe_quantity f)" and "0 \<le> basis"
    and "fifo (fe_instrument_id f) (of_int (fe_quantity f)) (lg_lots s) = (lots, basis, rest)" and "rest \<le> 0"
  shows "ledger_apply_fill f s = (Inr (), filled_ledger f (fill_proceeds f) ''sell_fill'' (sell_lines f basis)
    lots (fill_proceeds f - basis) s)"
proof -
  let ?s = "s\<lparr>lg_lots := lots\<rparr>"
  have "validate_lines (sell_lines f basis) = Inr ()"
    using assms(8,9) fill_ok_pos [OF assms(1)] by (auto simp: validate_lines_ok sell_lines_def fill_proceeds_def)
  then have "append_journal (fe_fill_id f) (fe_occurred_at f) ''sell_fill'' (sell_lines f basis)
      (append_cash (fe_fill_id f) (fe_occurred_at f) (fill_proceeds f) ''sell_fill'' (fe_order_id f) True ?s) =
      (Inr (), post (fe_fill_id f) (fe_occurred_at f) (fill_proceeds f) ''sell_fill'' (fe_order_id f) (sell_lines f basis) ?s)"
    using assms(2) by (intro post_succeeds) (auto simp: sell_lines_def fill_proceeds_def journal_ids_def)
  then have "sell_fill f s = (Inr (), update_rv (fe_order_id f)
      (\<lambda>r. r\<lparr>rv_remaining_quantity := rv_remaining_quantity r - of_int (fe_quantity f)\<rparr>)
      ((post (fe_fill_id f) (fe_occurred_at f) (fill_proceeds f) ''sell_fill'' (fe_order_id f) (sell_lines f basis) ?s)
         \<lparr>lg_realized_pnl := lg_realized_pnl s + (fill_proceeds f - basis)\<rparr>))"
    using assms(10,11)
    by (simp add: sell_fill_def Let_def consume_fifo_def fill_proceeds_def [symmetric] sell_lines_def [symmetric])
  then show ?thesis using assms(3-7)
    by (simp add: ledger_apply_fill_def filled_ledger_def update_rv_def update_where_twice fill_update_def [abs_def]
        post_def append_cash_def)
qed

lemma filled_ledger_simps [simp]:
  "lg_cash (filled_ledger f x r ls lots g s) = lg_cash s + x"
  "lg_lots (filled_ledger f x r ls lots g s) = lots"
  "lg_reservations (filled_ledger f x r ls lots g s) =
     update_where (\<lambda>r. rv_order_id r = fe_order_id f) (fill_update f) (lg_reservations s)"
  "lg_policy (filled_ledger f x r ls lots g s) = lg_policy s"
  "lg_event_ids (filled_ledger f x r ls lots g s) = insert (fe_fill_id f) (lg_event_ids s)"
  "lg_marks (filled_ledger f x r ls lots g s) = lg_marks s"
  by (simp_all add: filled_ledger_def)

lemma fill_update_simps [simp]:
  "rv_order_id (fill_update f r) = rv_order_id r" "rv_instrument_id (fill_update f r) = rv_instrument_id r"
  "rv_side (fill_update f r) = rv_side r" "rv_oco_group_id (fill_update f r) = rv_oco_group_id r"
  by (simp_all add: fill_update_def)

lemma filled_books:
  assumes "books_ok s" and "total_of jl_debit ls = total_of jl_credit ls"
    and "line_delta CASH ls = x" and "line_delta OPENING_EQUITY ls = 0"
    and "line_delta POSITIONS_AT_COST ls = lots_cost lots - lots_cost (lg_lots s)"
    and "line_delta REALIZED_PNL ls + line_delta COMMISSION_EXPENSE ls = - g"
    and "\<forall>l \<in> set lots. lot_ok l"
  shows "books_ok (filled_ledger f x r ls lots g s)"
  using assms
  by (rule books_post [where i = "fe_fill_id f" and at = "fe_occurred_at f" and r = r and ref = "fe_order_id f"])
    (simp_all add: filled_ledger_def)

lemma fill_update_ok:
  assumes "validate_fill f = Inr ()" and "rv_ok r" and "rv_side r = fe_side f"
  shows "rv_ok (fill_update f r)"
  using assms fill_ok_pos [OF assms(1)] by (auto simp: rv_ok_def fill_update_def)

lemma exposed_filled:
  assumes "\<And>l. l \<in> set lots \<Longrightarrow> 0 < pl_remaining_quantity l \<Longrightarrow> pl_instrument_id l \<in> exposed_symbols s"
  shows "exposed_symbols (filled_ledger f x r ls lots g s) \<subseteq> exposed_symbols s"
proof -
  have "map rv_instrument_id (filter (\<lambda>r. rv_side r = BUY)
      (update_where (\<lambda>r. rv_order_id r = fe_order_id f) (fill_update f) rs)) =
      map rv_instrument_id (filter (\<lambda>r. rv_side r = BUY) rs)" for rs
    by (induction rs) auto
  then show ?thesis using assms unfolding exposed_symbols_def by auto
qed

lemma filled_reserves:
  assumes "reserves_ok s" and "validate_fill f = Inr ()" and "rv \<in> set (lg_reservations s)"
    and "rv_order_id rv = fe_order_id f" and "rv_side rv = fe_side f"
    and "0 \<le> available_cash s + x + rv_remaining_cash rv - rv_remaining_cash (fill_update f rv)"
    and "\<And>l. l \<in> set lots \<Longrightarrow> 0 < pl_remaining_quantity l \<Longrightarrow> pl_instrument_id l \<in> exposed_symbols s"
  shows "reserves_ok (filled_ledger f x r ls lots g s)"
proof -
  let ?t = "filled_ledger f x r ls lots g s"
  have dist: "distinct (map rv_order_id (lg_reservations s))" using assms(1) by (simp add: reserves_ok_def)
  have only: "a \<in> set (lg_reservations s) \<Longrightarrow> rv_order_id a = fe_order_id f \<Longrightarrow> a = rv" for a
    using same_key_same_row [OF dist _ assms(3)] assms(4) by simp
  have "0 \<le> available_cash ?t"
    using assms(6) total_update_where [OF dist assms(3,4), of rv_remaining_cash "fill_update f"]
    by (simp add: available_cash_def reserved_cash_def algebra_simps)
  moreover have "\<forall>a \<in> set (lg_reservations ?t). rv_ok a"
    using fill_update_ok [OF assms(2)] only assms(1,3,5)
    by (auto simp: set_update_where reserves_ok_def)
  moreover have "int (card (exposed_symbols ?t)) \<le> pp_max_positions (lg_policy s)"
    using exposed_within [OF _ exposed_filled [OF assms(7)]] assms(1) by (simp add: reserves_ok_def)
  moreover have "distinct (map rv_order_id (lg_reservations ?t))"
    using dist by (simp add: map_update_where)
  ultimately show ?thesis using assms(1) by (simp add: reserves_ok_def)
qed

text \<open>The fills the books survive: validated, not named like the opening entry, and selling for at least their
  commission. The last two conditions are not tested by \<open>FillEvent\<close>; a fill without them raises after the ledger
  was changed (\<open>simulation/portfolio.py\<close> lines 296 and 354; \<open>Sim_Properties.excess_commission_breaks_books\<close>).\<close>

definition fill_allowed :: "fill_event \<Rightarrow> bool" where
  "fill_allowed f = (validate_fill f = Inr () \<and> fe_fill_id f \<noteq> ''initial-capital'' \<and>
     (fe_side f = SELL \<longrightarrow> fe_commission f \<le> fe_price f * of_int (fe_quantity f)))"

text \<open>The cases of \<open>apply_fill\<close>: it raises and changes nothing, or it books the fill.\<close>

lemma apply_fill_cases:
  assumes "ledger_ok s" and "fill_allowed f"
  obtains (raised) e where "ledger_apply_fill f s = (Inl e, s)"
  | (bought) rv where "rv \<in> set (lg_reservations s)" "rv_order_id rv = fe_order_id f" "rv_side rv = BUY"
      "fe_side f = BUY" "rv_instrument_id rv = fe_instrument_id f"
      "fill_cost f \<le> rv_remaining_cash rv + available_cash s"
      "ledger_apply_fill f s = (Inr (), filled_ledger f (- fill_cost f) ''buy_fill'' (buy_lines f)
         (lg_lots s @ [fill_lot f rv]) 0 s)"
  | (sold) rv lots basis where "rv \<in> set (lg_reservations s)" "rv_order_id rv = fe_order_id f" "rv_side rv = SELL"
      "fe_side f = SELL" "rv_instrument_id rv = fe_instrument_id f"
      "fifo (fe_instrument_id f) (of_int (fe_quantity f)) (lg_lots s) = (lots, basis, 0)"
      "ledger_apply_fill f s = (Inr (), filled_ledger f (fill_proceeds f) ''sell_fill'' (sell_lines f basis)
         lots (fill_proceeds f - basis) s)"
proof (cases "fe_fill_id f \<in> lg_event_ids s")
  case True
  then have "ledger_apply_fill f s = (Inl (DuplicateLedgerEvent (fe_fill_id f)), s)"
    by (simp add: ledger_apply_fill_def)
  then show ?thesis by (rule raised)
next
  case False
  have books: "books_ok s" and val: "validate_fill f = Inr ()"
    using assms by (simp_all add: ledger_ok_def fill_allowed_def)
  have fresh: "fe_fill_id f \<notin> journal_ids s"
    using fresh_event [OF books False] assms(2) by (simp add: fill_allowed_def)
  show ?thesis
  proof (cases "List.find (\<lambda>r. rv_order_id r = fe_order_id f) (lg_reservations s)")
    case None
    then show ?thesis using False by (intro raised) (auto simp: ledger_apply_fill_def)
  next
    case (Some rv)
    note mem = find_Some_set [OF Some]
    show ?thesis
    proof (cases "rv_instrument_id rv = fe_instrument_id f \<and> rv_side rv = fe_side f")
      case False
      then show ?thesis using Some \<open>fe_fill_id f \<notin> lg_event_ids s\<close>
        by (intro raised) (auto simp: ledger_apply_fill_def)
    next
      case same: True
      show ?thesis
      proof (cases "fe_side f")
        case BUY
        show ?thesis
        proof (cases "fill_cost f \<le> rv_remaining_cash rv + available_cash s")
          case True
          show ?thesis
            using bought [OF _ _ _ _ _ _ buy_fill_ledger [OF val fresh False Some BUY True]] mem same BUY True by auto
        next
          case short: False
          then show ?thesis using Some False same BUY
            by (intro raised [of "ReservationRejected ''fill exceeds reserved and available cash''"])
              (auto simp: ledger_apply_fill_def buy_fill_def Let_def fill_cost_def)
        qed
      next
        case SELL
        obtain lots basis rest where ff: "fifo (fe_instrument_id f) (of_int (fe_quantity f)) (lg_lots s) = (lots, basis, rest)"
          by (cases "fifo (fe_instrument_id f) (of_int (fe_quantity f)) (lg_lots s)")
        have facts: "0 \<le> basis" "0 \<le> rest"
          using fifo_books [OF ff] books fill_ok_pos [OF val] by (auto simp: books_ok_def)
        show ?thesis
        proof (cases "rest \<le> 0")
          case True
          have comm: "fe_commission f \<le> fe_price f * of_int (fe_quantity f)"
            using assms(2) SELL by (simp add: fill_allowed_def)
          have "rest = 0" using True facts(2) by simp
          then show ?thesis
            using sold [OF _ _ _ _ _ _ sell_fill_ledger [OF val fresh False Some SELL _ _ comm facts(1) ff True]]
              mem same SELL ff by auto
        next
          case short: False
          then show ?thesis using Some False same SELL ff
            by (intro raised [of "ReservationRejected ''sell fill exceeds held quantity''"])
              (auto simp: ledger_apply_fill_def sell_fill_def Let_def consume_fifo_def)
        qed
      qed
    qed
  qed
qed

lemma line_delta_simps [simp]:
  "line_delta a [] = 0"
  "line_delta a (l # ls) = (if jl_account l = a then jl_debit l - jl_credit l else 0) + line_delta a ls"
  by (simp_all add: line_delta_def)

lemma fifo_held:
  assumes "fifo ins q ls = (ls', cost, rest)" and "\<forall>l \<in> set ls. lot_ok l"
    and "l \<in> set ls'" and "0 < pl_remaining_quantity l"
  shows "\<exists>k \<in> set ls. pl_instrument_id k = pl_instrument_id l \<and> 0 < pl_remaining_quantity k"
  using assms
proof (induction ins q ls arbitrary: ls' cost rest rule: fifo.induct)
  case (2 ins q lot lots)
  show ?case
  proof (cases "pl_instrument_id lot \<noteq> ins \<or> q \<le> 0")
    case True
    obtain ms c r where rec: "fifo ins q lots = (ms, c, r)" by (cases "fifo ins q lots")
    then have "ls' = lot # ms" using 2(3) True by auto
    then show ?thesis using 2(1) [OF True rec] 2(4-6) by auto
  next
    case False
    define k where "k = min (pl_remaining_quantity lot) q"
    obtain ms c r where rec: "fifo ins (q - k) lots = (ms, c, r)" by (cases "fifo ins (q - k) lots")
    have ls': "ls' = lot\<lparr>pl_remaining_quantity := pl_remaining_quantity lot - k\<rparr> # ms"
      using 2(3) False rec by (auto simp: k_def Let_def)
    have "0 \<le> k" using 2(4) False by (auto simp: k_def lot_ok_def)
    then show ?thesis using 2(2) [OF False k_def rec] 2(4-6) unfolding ls' by auto
  qed
qed simp

lemma apply_fill_ledger_ok:
  assumes "ledger_ok s" and "fill_allowed f"
  shows "ledger_ok (snd (ledger_apply_fill f s))"
  using assms
proof (cases rule: apply_fill_cases)
  case (raised e)
  then show ?thesis using assms(1) by simp
next
  case (bought rv)
  have old: "books_ok s" "reserves_ok s" and val: "validate_fill f = Inr ()"
    using assms by (simp_all add: ledger_ok_def fill_allowed_def)
  note pos = fill_ok_pos [OF val]
  have rv: "rv_ok rv" using old(2) bought(1) by (simp add: reserves_ok_def)
  have "lot_ok (fill_lot f rv)" using pos rv by (simp add: lot_ok_def fill_lot_def rv_ok_def)
  then have b: "books_ok (snd (ledger_apply_fill f s))"
    unfolding bought(7) snd_conv using old(1) pos
    by (intro filled_books) (auto simp: buy_lines_def fill_lot_def books_ok_def)
  have "fe_instrument_id f \<in> exposed_symbols s"
    using bought(1,3,5) by (force simp: exposed_symbols_def)
  then have ex: "pl_instrument_id l \<in> exposed_symbols s"
    if "l \<in> set (lg_lots s @ [fill_lot f rv])" "0 < pl_remaining_quantity l" for l
    using that by (auto simp: exposed_symbols_def fill_lot_def)
  have "0 \<le> available_cash s" using old(2) by (simp add: reserves_ok_def)
  then have av: "0 \<le> available_cash s + - fill_cost f + rv_remaining_cash rv - rv_remaining_cash (fill_update f rv)"
    using bought(4,6) by (simp add: fill_update_def)
  have side: "rv_side rv = fe_side f" using bought(3,4) by simp
  have "reserves_ok (snd (ledger_apply_fill f s))"
    unfolding bought(7) snd_conv by (rule filled_reserves [OF old(2) val bought(1,2) side av ex])
  then show ?thesis using b by (simp add: ledger_ok_def)
next
  case (sold rv lots basis)
  have old: "books_ok s" "reserves_ok s" and val: "validate_fill f = Inr ()"
    using assms by (simp_all add: ledger_ok_def fill_allowed_def)
  note pos = fill_ok_pos [OF val]
  have lots: "\<forall>l \<in> set (lg_lots s). lot_ok l" using old(1) by (simp add: books_ok_def)
  have ff: "(\<forall>l \<in> set lots. lot_ok l) \<and> lots_cost lots = lots_cost (lg_lots s) - basis"
    using fifo_books [OF sold(6) lots] pos by auto
  have b: "books_ok (snd (ledger_apply_fill f s))"
    unfolding sold(7) snd_conv using old(1) ff
    by (intro filled_books) (auto simp: sell_lines_def fill_proceeds_def max_def)
  have ex: "pl_instrument_id l \<in> exposed_symbols s" if "l \<in> set lots" "0 < pl_remaining_quantity l" for l
    using fifo_held [OF sold(6) lots that] by (auto simp: exposed_symbols_def)
  have "0 \<le> fill_proceeds f" using assms(2) sold(4) by (simp add: fill_allowed_def fill_proceeds_def)
  then have av: "0 \<le> available_cash s + fill_proceeds f + rv_remaining_cash rv - rv_remaining_cash (fill_update f rv)"
    using old(2) sold(4) by (simp add: fill_update_def reserves_ok_def)
  have side: "rv_side rv = fe_side f" using sold(3,4) by simp
  have "reserves_ok (snd (ledger_apply_fill f s))"
    unfolding sold(7) snd_conv by (rule filled_reserves [OF old(2) val sold(1,2) side av ex])
  then show ?thesis using b by (simp add: ledger_ok_def)
qed

text \<open>Marks and corporate actions.\<close>

lemma reserves_ok_mono:
  assumes "reserves_ok s" and "lg_reservations t = lg_reservations s" and "lg_policy t = lg_policy s"
    and "lg_cash s \<le> lg_cash t" and "exposed_symbols t \<subseteq> exposed_symbols s"
  shows "reserves_ok t"
  using assms exposed_within [OF _ assms(5)]
  by (auto simp: reserves_ok_def available_cash_def reserved_cash_def)

lemma mark_ledger_ok:
  assumes "ledger_ok s"
  shows "ledger_ok (snd (mark i p s))"
proof -
  let ?t = "s\<lparr>lg_marks := (lg_marks s)(i \<mapsto> p)\<rparr>"
  have "books_ok ?t" using assms books_ok_cong [of ?t s] by (simp add: ledger_ok_def)
  moreover have "reserves_ok ?t" using assms
    by (auto simp: ledger_ok_def exposed_symbols_def intro!: reserves_ok_mono [of s])
  ultimately show ?thesis using assms by (simp add: mark_def ledger_ok_def)
qed

lemma split_lot_simps [simp]:
  "pl_instrument_id (split_lot i k l) = pl_instrument_id l"
  "0 < k \<Longrightarrow> lot_ok (split_lot i k l) = lot_ok l"
  "0 < k \<Longrightarrow> 0 < pl_remaining_quantity (split_lot i k l) \<longleftrightarrow> 0 < pl_remaining_quantity l"
  "0 < k \<Longrightarrow> pl_remaining_quantity (split_lot i k l) * pl_unit_cost (split_lot i k l) =
     pl_remaining_quantity l * pl_unit_cost l"
  "0 < k \<Longrightarrow> pl_remaining_quantity (split_lot i k l) * pl_risk_per_share (split_lot i k l) =
     pl_remaining_quantity l * pl_risk_per_share l"
  by (auto simp: split_lot_def lot_ok_def zero_le_mult_iff zero_le_divide_iff zero_less_mult_iff
      mult_le_cancel_right)

definition split_ledger :: "string \<Rightarrow> string \<Rightarrow> rat \<Rightarrow> time \<Rightarrow> portfolio_ledger \<Rightarrow> portfolio_ledger" where
  "split_ledger a i k at s = add_event a
     (s\<lparr>lg_lots := map (split_lot i k) (lg_lots s),
        lg_marks := (case lg_marks s i of None \<Rightarrow> lg_marks s | Some m \<Rightarrow> (lg_marks s)(i \<mapsto> m / k)),
        lg_journal_entries := lg_journal_entries s @ [entry a at ''split_quantity_restatement'' []]\<rparr>)"

lemma split_succeeds:
  assumes "a \<notin> lg_event_ids s" and "a \<notin> journal_ids s" and "0 < k"
    and "\<not> list_ex (\<lambda>r. rv_instrument_id r = i) (lg_reservations s)"
  shows "apply_split a i k at s = (Inr (), split_ledger a i k at s)"
proof -
  have "append_journal a at ''split_quantity_restatement'' [] t =
      (Inr (), t\<lparr>lg_journal_entries := lg_journal_entries t @ [entry a at ''split_quantity_restatement'' []]\<rparr>)"
    if "lg_journal_entries t = lg_journal_entries s" for t
    using that assms(2) by (intro append_journal_succeeds) (simp_all add: validate_lines_ok journal_ids_def)
  then show ?thesis using assms
    by (cases "lg_marks s i")
      (simp_all add: apply_split_def split_ledger_def require_new_event_def require_no_reservations_def checks.simps)
qed

lemma split_ledger_ok:
  assumes "ledger_ok s" and "0 < k"
  shows "ledger_ok (split_ledger a i k at s)"
proof -
  let ?t = "split_ledger a i k at s"
  have old: "books_ok s" "reserves_ok s" using assms(1) by (simp_all add: ledger_ok_def)
  have cost: "lots_cost (map (split_lot i k) ls) = lots_cost ls" for ls
    using assms(2) by (induction ls) simp_all
  have bal: "account_balance ?t x = account_balance s x" for x
    by (simp add: account_balance_def split_ledger_def add_event_def)
  have t: "lg_cash ?t = lg_cash s" "lg_cash_entries ?t = lg_cash_entries s" "lg_lots ?t = map (split_lot i k) (lg_lots s)"
    "lg_starting_cash ?t = lg_starting_cash s" "lg_realized_pnl ?t = lg_realized_pnl s"
    "lg_journal_entries ?t = lg_journal_entries s @ [entry a at ''split_quantity_restatement'' []]"
    "journal_ids ?t = insert a (journal_ids s)" "lg_event_ids ?t = insert a (lg_event_ids s)"
    by (simp_all add: split_ledger_def add_event_def journal_ids_def)
  have "books_ok ?t" using old(1) assms(2) unfolding books_ok_def bal t cost by auto
  moreover have "reserves_ok ?t"
  proof (rule reserves_ok_mono [OF old(2)])
    show "exposed_symbols ?t \<subseteq> exposed_symbols s"
      by (rule exposed_symbols_subset) (use assms(2) t(3) in \<open>auto simp: split_ledger_def add_event_def\<close>)
  qed (simp_all add: split_ledger_def add_event_def)
  ultimately show ?thesis by (simp add: ledger_ok_def)
qed

text \<open>Outside their preconditions the corporate actions raise and change nothing.\<close>

lemma split_raises:
  assumes "\<not> (a \<notin> lg_event_ids s \<and> 0 < k \<and> \<not> list_ex (\<lambda>r. rv_instrument_id r = i) (lg_reservations s))"
  shows "snd (apply_split a i k at s) = s"
  using assms by (auto simp: apply_split_def require_new_event_def require_no_reservations_def checks.simps)

lemma dividend_raises:
  assumes "\<not> (a \<notin> lg_event_ids s \<and> 0 \<le> c)"
  shows "snd (apply_dividend a i c at s) = s"
  using assms by (auto simp: apply_dividend_def require_new_event_def checks.simps)

lemma delisting_raises:
  assumes "\<not> (a \<notin> lg_event_ids s \<and> 0 \<le> c \<and> \<not> list_ex (\<lambda>r. rv_instrument_id r = i) (lg_reservations s))"
  shows "snd (apply_delisting a i c at s) = s"
  using assms by (auto simp: apply_delisting_def require_new_event_def require_no_reservations_def checks.simps)

lemma dividend_succeeds:
  assumes "books_ok s" and "a \<notin> lg_event_ids s" and "a \<noteq> ''initial-capital''" and "0 \<le> c"
  shows "apply_dividend a i c at s = (Inr (), add_event a
    (post a at (position_quantity s i * c) ''cash_dividend'' i
       [debit_line CASH (position_quantity s i * c), credit_line DIVIDEND_INCOME (position_quantity s i * c)] s))"
proof -
  let ?x = "position_quantity s i * c"
  have "append_journal a at ''cash_dividend'' [debit_line CASH ?x, credit_line DIVIDEND_INCOME ?x]
      (append_cash a at ?x ''cash_dividend'' i True s) =
      (Inr (), post a at ?x ''cash_dividend'' i [debit_line CASH ?x, credit_line DIVIDEND_INCOME ?x] s)"
    using fresh_event [OF assms(1-3)] position_nonneg [OF assms(1)] assms(4)
    by (intro post_succeeds) (simp_all add: validate_lines_ok)
  then show ?thesis using assms(2,4)
    by (simp add: apply_dividend_def require_new_event_def checks.simps Let_def)
qed

lemma add_event_simps [simp]:
  "lg_cash (add_event a s) = lg_cash s" "lg_cash_entries (add_event a s) = lg_cash_entries s"
  "lg_journal_entries (add_event a s) = lg_journal_entries s" "lg_lots (add_event a s) = lg_lots s"
  "lg_reservations (add_event a s) = lg_reservations s" "lg_policy (add_event a s) = lg_policy s"
  "lg_realized_pnl (add_event a s) = lg_realized_pnl s" "lg_starting_cash (add_event a s) = lg_starting_cash s"
  "lg_event_ids (add_event a s) = insert a (lg_event_ids s)" "lg_marks (add_event a s) = lg_marks s"
  by (simp_all add: add_event_def)

lemma dividend_ledger_ok:
  assumes "ledger_ok s" and "a \<noteq> ''initial-capital''"
  shows "ledger_ok (snd (apply_dividend a i c at s))"
proof (cases "a \<notin> lg_event_ids s \<and> 0 \<le> c")
  case True
  let ?x = "position_quantity s i * c"
  let ?ls = "[debit_line CASH ?x, credit_line DIVIDEND_INCOME ?x]"
  let ?t = "add_event a (post a at ?x ''cash_dividend'' i ?ls s)"
  have old: "books_ok s" "reserves_ok s" using assms(1) by (simp_all add: ledger_ok_def)
  have "books_ok ?t"
    using old(1) by (rule books_post [where x = ?x and ls = ?ls and lots = "lg_lots s" and gain = 0])
      (use old(1) in \<open>simp_all add: books_ok_def\<close>)
  moreover have "reserves_ok ?t"
    using position_nonneg [OF old(1)] True
    by (intro reserves_ok_mono [OF old(2)] exposed_symbols_subset) auto
  moreover have "snd (apply_dividend a i c at s) = ?t"
    using dividend_succeeds [OF old(1) _ assms(2)] True by simp
  ultimately show ?thesis by (simp add: ledger_ok_def)
next
  case False
  then show ?thesis using assms(1) dividend_raises by metis
qed

definition delist_lots :: "string \<Rightarrow> position_lot list \<Rightarrow> position_lot list" where
  "delist_lots i ls = map (\<lambda>l. if pl_instrument_id l = i then l\<lparr>pl_remaining_quantity := 0\<rparr> else l) ls"

definition delist_lines :: "rat \<Rightarrow> rat \<Rightarrow> journal_line list" where
  "delist_lines recovery basis =
     [debit_line CASH recovery, credit_line POSITIONS_AT_COST basis, pnl_line (recovery - basis)]"

abbreviation basis_of :: "string \<Rightarrow> portfolio_ledger \<Rightarrow> rat" where
  "basis_of i s \<equiv> lots_cost (filter (\<lambda>l. pl_instrument_id l = i) (lg_lots s))"

lemma delist_lots_Cons [simp]:
  "delist_lots i [] = []"
  "delist_lots i (l # ls) = (if pl_instrument_id l = i then l\<lparr>pl_remaining_quantity := 0\<rparr> else l) # delist_lots i ls"
  by (simp_all add: delist_lots_def)

lemma delist_cost [simp]:
  "lots_cost (delist_lots i ls) = lots_cost ls - lots_cost (filter (\<lambda>l. pl_instrument_id l = i) ls)"
  by (induction ls) simp_all

lemma delist_quantity [simp]:
  "lots_quantity j (delist_lots i ls) = (if j = i then 0 else lots_quantity j ls)"
  by (cases "j = i"; induction ls) auto

lemma delist_lots_ok:
  assumes "\<forall>l \<in> set ls. lot_ok l" and "k \<in> set (delist_lots i ls)"
  shows "lot_ok k"
  using assms by (auto simp: delist_lots_def lot_ok_def split: if_splits)

definition delist_ledger :: "string \<Rightarrow> string \<Rightarrow> rat \<Rightarrow> time \<Rightarrow> portfolio_ledger \<Rightarrow> portfolio_ledger" where
  "delist_ledger a i c at s =
     (let recovery = position_quantity s i * c;
          t = post a at recovery ''delisting_recovery'' i (delist_lines recovery (basis_of i s)) s
      in add_event a (t\<lparr>lg_lots := delist_lots i (lg_lots s),
           lg_realized_pnl := lg_realized_pnl s + (recovery - basis_of i s),
           lg_marks := (lg_marks s)(i := None)\<rparr>))"

lemma basis_nonneg: "books_ok s \<Longrightarrow> 0 \<le> basis_of i s"
  by (intro total_nonneg) (auto simp: books_ok_def lot_ok_def)

lemma delisting_succeeds:
  assumes "books_ok s" and "a \<notin> lg_event_ids s" and "a \<noteq> ''initial-capital''" and "0 \<le> c"
    and "\<not> list_ex (\<lambda>r. rv_instrument_id r = i) (lg_reservations s)"
  shows "apply_delisting a i c at s = (Inr (), delist_ledger a i c at s)"
proof -
  let ?x = "position_quantity s i * c"
  let ?s = "s\<lparr>lg_lots := delist_lots i (lg_lots s)\<rparr>"
  have "validate_lines (delist_lines ?x (basis_of i s)) = Inr ()"
    using position_nonneg [OF assms(1)] basis_nonneg [OF assms(1)] assms(4)
    by (auto simp: validate_lines_ok delist_lines_def)
  moreover have "a \<notin> journal_ids ?s" using fresh_event [OF assms(1-3)] by (simp add: journal_ids_def)
  ultimately have "append_journal a at ''delisting_recovery'' (delist_lines ?x (basis_of i s))
      (append_cash a at ?x ''delisting_recovery'' i True ?s) =
      (Inr (), post a at ?x ''delisting_recovery'' i (delist_lines ?x (basis_of i s)) ?s)"
    by (intro post_succeeds) (auto simp: delist_lines_def max_def)
  then show ?thesis using assms(2,4,5)
    by (simp add: apply_delisting_def require_new_event_def require_no_reservations_def checks.simps Let_def
        delist_lots_def [symmetric] delist_lines_def [symmetric] delist_ledger_def post_def append_cash_def
        add_event_def)
qed

lemma delisting_ledger_ok:
  assumes "ledger_ok s" and "a \<noteq> ''initial-capital''"
  shows "ledger_ok (snd (apply_delisting a i c at s))"
proof (cases "a \<notin> lg_event_ids s \<and> 0 \<le> c \<and> \<not> list_ex (\<lambda>r. rv_instrument_id r = i) (lg_reservations s)")
  case True
  let ?x = "position_quantity s i * c"
  let ?ls = "delist_lines ?x (basis_of i s)"
  let ?t = "delist_ledger a i c at s"
  have old: "books_ok s" "reserves_ok s" using assms(1) by (simp_all add: ledger_ok_def)
  have "books_ok ?t"
    using old(1) by (rule books_post [where x = ?x and ls = ?ls and lots = "delist_lots i (lg_lots s)"
        and gain = "?x - basis_of i s"])
      (use old(1) delist_lots_ok [of "lg_lots s"] in
        \<open>auto simp: books_ok_def delist_ledger_def Let_def delist_lines_def max_def\<close>)
  moreover have "reserves_ok ?t"
  proof (rule reserves_ok_mono [OF old(2)])
    show "exposed_symbols ?t \<subseteq> exposed_symbols s"
      by (rule exposed_symbols_subset) (auto simp: delist_ledger_def Let_def delist_lots_def split: if_splits)
  qed (use position_nonneg [OF old(1)] True in \<open>simp_all add: delist_ledger_def Let_def\<close>)
  moreover have "snd (apply_delisting a i c at s) = ?t"
    using delisting_succeeds [OF old(1) _ assms(2)] True by simp
  ultimately show ?thesis by (simp add: ledger_ok_def)
next
  case False
  then show ?thesis using assms(1) delisting_raises by metis
qed

lemma split_op_ledger_ok:
  assumes "ledger_ok s" and "a \<noteq> ''initial-capital''"
  shows "ledger_ok (snd (apply_split a i k at s))"
proof (cases "a \<notin> lg_event_ids s \<and> 0 < k \<and> \<not> list_ex (\<lambda>r. rv_instrument_id r = i) (lg_reservations s)")
  case True
  moreover have "a \<notin> journal_ids s" using fresh_event assms True by (simp add: ledger_ok_def)
  ultimately show ?thesis using split_succeeds [of a s k i at] split_ledger_ok [OF assms(1)] by simp
next
  case False
  then show ?thesis using assms(1) split_raises by metis
qed

end
