(* ===== verification/Sim_Ledger.thy ===== *)
theory Sim_Ledger
  imports Sim_Books
begin

section \<open>The ledger as a state machine\<close>

text \<open>
  The methods of \<open>PortfolioLedger\<close> as operations: the books are kept along every sequence of
  calls, and an operation that raises leaves the ledger as it found it. A second invariant says that
  what is reserved for sale is held, with OCO siblings counted once.
\<close>

datatype ledger_op =
    Reserve order_intent | Release string | Apply_Fill fill_event | Mark string rat
  | Split string string rat time | Dividend string string rat time | Delisting string string rat time

fun ledger_exec :: "ledger_op \<Rightarrow> portfolio_ledger \<Rightarrow> unit res \<times> portfolio_ledger" where
  "ledger_exec (Reserve i) s = reserve i s"
| "ledger_exec (Release oid) s = (Inr (), release oid s)"
| "ledger_exec (Apply_Fill f) s = ledger_apply_fill f s"
| "ledger_exec (Mark i p) s = mark i p s"
| "ledger_exec (Split a i k at) s = apply_split a i k at s"
| "ledger_exec (Dividend a i c at) s = apply_dividend a i c at s"
| "ledger_exec (Delisting a i c at) s = apply_delisting a i c at s"

definition ledger_step :: "ledger_op \<Rightarrow> portfolio_ledger \<Rightarrow> portfolio_ledger" where
  "ledger_step op s = snd (ledger_exec op s)"

text \<open>The calls the books survive: validated intents, fills in the sense of \<open>fill_allowed\<close> (a sale costs at most its
  notional in commission), and identifiers other than the one of the opening entry.\<close>

fun op_valid :: "ledger_op \<Rightarrow> bool" where
  "op_valid (Reserve i) = (validate_intent i = Inr ())"
| "op_valid (Release oid) = True"
| "op_valid (Apply_Fill f) = fill_allowed f"
| "op_valid (Mark i p) = True"
| "op_valid (Split a i k at) = (a \<noteq> ''initial-capital'')"
| "op_valid (Dividend a i c at) = (a \<noteq> ''initial-capital'')"
| "op_valid (Delisting a i c at) = (a \<noteq> ''initial-capital'')"

lemma ledger_step_ok: "ledger_ok s \<Longrightarrow> op_valid op \<Longrightarrow> ledger_ok (ledger_step op s)"
  by (cases op)
    (simp_all add: ledger_step_def reserve_ledger_ok release_ledger_ok apply_fill_ledger_ok
      mark_ledger_ok split_op_ledger_ok dividend_ledger_ok delisting_ledger_ok)

definition opened :: "portfolio_ledger \<Rightarrow> bool" where
  "opened s = (\<exists>x pol. new_ledger x pol = Inr s \<and> 0 \<le> pp_minimum_commission pol \<and> 0 \<le> pp_max_positions pol)"

interpretation ledger_sys: invariant_system opened ledger_step "\<lambda>op s. op_valid op" ledger_ok
  using new_ledger_ok ledger_step_ok by unfold_locales (auto simp: opened_def)

lemma raising_op_unchanged:
  assumes "ledger_ok s" and "op_valid op" and "ledger_exec op s = (Inl e, t)"
  shows "t = s"
proof (cases op)
  case (Apply_Fill f)
  then have "fill_allowed f" using assms(2) by simp
  with assms(1) show ?thesis
    by (cases rule: apply_fill_cases) (use assms(3) Apply_Fill in auto)
next
  case (Split a i k at)
  show ?thesis
  proof (rule ccontr)
    assume "t \<noteq> s"
    then have "a \<notin> lg_event_ids s \<and> 0 < k \<and> \<not> list_ex (\<lambda>r. rv_instrument_id r = i) (lg_reservations s)"
      using assms(3) Split split_raises [of a s k i at] by fastforce
    then show False
      using assms Split fresh_event [of s a] split_succeeds [of a s k i at] by (simp add: ledger_ok_def)
  qed
next
  case (Dividend a i c at)
  show ?thesis
  proof (rule ccontr)
    assume "t \<noteq> s"
    then have "a \<notin> lg_event_ids s \<and> 0 \<le> c"
      using assms(3) Dividend dividend_raises [of a s c i at] by fastforce
    then show False
      using assms Dividend dividend_succeeds [of s a c i at] by (simp add: ledger_ok_def)
  qed
next
  case (Delisting a i c at)
  show ?thesis
  proof (rule ccontr)
    assume "t \<noteq> s"
    then have "a \<notin> lg_event_ids s \<and> 0 \<le> c \<and> \<not> list_ex (\<lambda>r. rv_instrument_id r = i) (lg_reservations s)"
      using assms(3) Delisting delisting_raises [of a s c i at] by fastforce
    then show False
      using assms Delisting delisting_succeeds [of s a c i at] by (simp add: ledger_ok_def)
  qed
qed (use assms(3) reserve_cases(1) in \<open>auto simp: mark_def split: if_splits\<close>)

text \<open>What the invariant gives: the code's own assertion, and the balance sheet.\<close>

lemma ledger_ok_conserves: "ledger_ok s \<Longrightarrow> assert_conservation s = Inr ()"
  by (auto simp: assert_conservation_def ledger_ok_def books_ok_def lot_ok_def list_ex_iff not_less)

lemma sum_accounts:
  "total_of (\<lambda>l. jl_debit l - jl_credit l) ls = line_delta CASH ls + line_delta OPENING_EQUITY ls +
     line_delta POSITIONS_AT_COST ls + line_delta COMMISSION_EXPENSE ls + line_delta REALIZED_PNL ls +
     line_delta DIVIDEND_INCOME ls"
proof (induction ls)
  case (Cons l ls)
  then show ?case by (cases "jl_account l") simp_all
qed simp

lemma trial_balance:
  assumes "\<forall>e \<in> set es. is_balanced e"
  shows "total_of (\<lambda>l. jl_debit l - jl_credit l) (concat (map je_lines es)) = (0::rat)"
  using assms by (induction es) (simp_all add: is_balanced_def total_debits_def total_credits_def sum_list_subtractf)

lemma balance_sheet:
  assumes "ledger_ok s"
  shows "lg_cash s + lots_cost (lg_lots s) =
    lg_starting_cash s + lg_realized_pnl s - account_balance s DIVIDEND_INCOME"
proof -
  have "line_delta a (concat (map je_lines (lg_journal_entries s))) = account_balance s a" for a
    by (simp add: line_delta_def account_balance_def)
  then show ?thesis
    using trial_balance [of "lg_journal_entries s"] sum_accounts [of "concat (map je_lines (lg_journal_entries s))"] assms
    by (simp add: ledger_ok_def books_ok_def)
qed

subsection \<open>Reserved sales are covered\<close>

text \<open>The quantity a group reserves is the largest of its members; the total is the sum over the
  groups. This is the closed form of the loop in \<open>_reserved_sell_quantity\<close>.\<close>

definition group_quantity :: "string \<Rightarrow> sim_reservation list \<Rightarrow> rat" where
  "group_quantity k rs = foldl max 0 (map rv_remaining_quantity (filter (\<lambda>r. oco_key r = k) rs))"

abbreviation sells_of :: "string \<Rightarrow> sim_reservation list \<Rightarrow> sim_reservation list" where
  "sells_of i rs \<equiv> filter (\<lambda>r. rv_instrument_id r = i \<and> rv_side r = SELL) rs"

lemma group_quantity_snoc:
  "group_quantity k (rs @ [r]) = (if oco_key r = k then max (group_quantity k rs) (rv_remaining_quantity r) else group_quantity k rs)"
  by (simp add: group_quantity_def)

lemma group_quantity_Nil [simp]: "group_quantity k [] = 0"
  by (simp add: group_quantity_def)

lemma upsert_set_map_of:
  "map_of (upsert fst (\<lambda>_ new. new) (k, v) xs) x = (if x = k then Some v else map_of xs x)"
proof (cases "k \<in> fst ` set xs")
  case True
  then have "upsert fst (\<lambda>_ new. new) (k, v) xs = update_where (\<lambda>r. fst r = k) (\<lambda>_. (k, v)) xs"
    by (auto simp: upsert_def list_ex_iff)
  moreover have "map_of (update_where (\<lambda>r. fst r = k) (\<lambda>_. (k, v)) xs) x =
      (if x = k \<and> k \<in> fst ` set xs then Some v else map_of xs x)"
    by (cases "x = k"; induction xs) auto
  ultimately show ?thesis using True by simp
next
  case False
  then have "upsert fst (\<lambda>_ new. new) (k, v) xs = xs @ [(k, v)]" by (auto simp: upsert_def list_ex_iff)
  moreover have "map_of xs k = None" using False by (simp add: map_of_eq_None_iff)
  ultimately show ?thesis by (auto simp: map_add_def split: option.splits)
qed

lemma upsert_distinct:
  assumes "distinct (map fst xs)"
  shows "distinct (map fst (upsert fst (\<lambda>_ new. new) (k, v) xs))"
proof -
  have "map fst (update_where (\<lambda>r. fst r = k) (\<lambda>r. (k, v)) xs) = map fst xs" by (induction xs) auto
  then show ?thesis using assms by (auto simp: upsert_def list_ex_iff simp del: map_update_where)
qed

lemma groups_map_of:
  "map_of (foldl group_max [] rs) k = (if k \<in> oco_key ` set rs then Some (group_quantity k rs) else None) \<and>
   distinct (map fst (foldl group_max [] rs))"
proof (induction rs arbitrary: k rule: rev_induct)
  case (snoc r rs)
  have none: "k \<notin> oco_key ` set rs \<Longrightarrow> group_quantity k rs = 0" for k
  proof -
    assume "k \<notin> oco_key ` set rs"
    then have "filter (\<lambda>r. oco_key r = k) rs = []" by (auto simp: filter_empty_conv)
    then show "group_quantity k rs = 0" by (simp add: group_quantity_def)
  qed
  have old: "(case map_of (foldl group_max [] rs) k of None \<Rightarrow> 0 | Some v \<Rightarrow> v) = group_quantity k rs" for k
    using snoc [of k] none [of k] by simp
  have step: "foldl group_max [] (rs @ [r]) = upsert fst (\<lambda>_ new. new)
      (oco_key r, max (group_quantity (oco_key r) rs) (rv_remaining_quantity r)) (foldl group_max [] rs)"
    by (simp only: foldl_append foldl.simps group_max_def [of _ r] Let_def old)
  show ?case
    using snoc [of k] upsert_distinct unfolding step
    by (auto simp: upsert_set_map_of group_quantity_snoc)
qed simp

lemma total_of_alist:
  "distinct (map fst xs) \<Longrightarrow> total_of snd xs = (\<Sum>k \<in> fst ` set xs. (case map_of xs k of None \<Rightarrow> 0 | Some v \<Rightarrow> v) :: rat)"
proof (induction xs)
  case (Cons x xs)
  then have fresh: "fst x \<notin> fst ` set xs" by simp
  have "(\<Sum>k \<in> fst ` set xs. case map_of (x # xs) k of None \<Rightarrow> 0 | Some v \<Rightarrow> v) =
      (\<Sum>k \<in> fst ` set xs. case map_of xs k of None \<Rightarrow> 0 | Some v \<Rightarrow> v)"
    using fresh by (intro sum.cong) (cases x; auto)+
  then show ?case using Cons fresh by (cases x) simp
qed simp

lemma reserved_sell_quantity_eq:
  "reserved_sell_quantity s i =
     (\<Sum>k \<in> oco_key ` set (sells_of i (lg_reservations s)). group_quantity k (sells_of i (lg_reservations s)))"
proof -
  let ?rs = "sells_of i (lg_reservations s)"
  have "set (map fst (foldl group_max [] ?rs)) = oco_key ` set ?rs"
  proof -
    have "k \<in> fst ` set (foldl group_max [] ?rs) \<longleftrightarrow> k \<in> oco_key ` set ?rs" for k
      using groups_map_of [of ?rs k] map_of_eq_None_iff [of "foldl group_max [] ?rs" k] by (auto split: if_splits)
    then show ?thesis by auto
  qed
  then have "fst ` set (foldl group_max [] ?rs) = oco_key ` set ?rs" by simp
  then show ?thesis
    using total_of_alist [of "foldl group_max [] ?rs"] groups_map_of [of ?rs]
    by (auto simp: reserved_sell_quantity_def intro!: sum.cong)
qed

definition sell_total :: "sim_reservation list \<Rightarrow> rat" where
  "sell_total rs = (\<Sum>k \<in> oco_key ` set rs. group_quantity k rs)"

definition covered :: "portfolio_ledger \<Rightarrow> bool" where
  "covered s = (\<forall>i. reserved_sell_quantity s i \<le> position_quantity s i)"

lemma reserved_sell_total: "reserved_sell_quantity s i = sell_total (sells_of i (lg_reservations s))"
  by (simp add: reserved_sell_quantity_eq sell_total_def)

lemma foldl_max: "foldl max a xs = Max (insert a (set xs))" for a :: rat
proof (induction xs arbitrary: a)
  case (Cons x xs)
  have "Max (insert (max a x) (set xs)) = Max (insert a (set (x # xs)))"
    by (cases "xs = []") (simp_all add: Max_insert max.assoc)
  then show ?case using Cons by simp
qed simp

lemma group_quantity_Max: "group_quantity k rs = Max (insert 0 (rv_remaining_quantity ` {r \<in> set rs. oco_key r = k}))"
  by (simp add: group_quantity_def foldl_max)

lemma group_quantity_nonneg: "0 \<le> group_quantity k rs"
  by (simp add: group_quantity_Max)

lemma group_quantity_mono: "set rs \<subseteq> set qs \<Longrightarrow> group_quantity k rs \<le> group_quantity k qs"
  unfolding group_quantity_Max by (rule Max_mono) auto

lemma group_quantity_absent: "k \<notin> oco_key ` set rs \<Longrightarrow> group_quantity k rs = 0"
  by (auto simp: group_quantity_Max image_iff) (metis (mono_tags, lifting) Collect_empty_eq Max_singleton image_empty)

lemma sell_total_superset:
  assumes "finite K" and "oco_key ` set rs \<subseteq> K"
  shows "sell_total rs = (\<Sum>k \<in> K. group_quantity k rs)"
  unfolding sell_total_def using assms group_quantity_absent by (intro sum.mono_neutral_left) auto

lemma sell_total_mono:
  assumes "set rs \<subseteq> set qs"
  shows "sell_total rs \<le> sell_total qs"
proof -
  have "sell_total rs = (\<Sum>k \<in> oco_key ` set qs. group_quantity k rs)"
    using assms by (intro sell_total_superset) auto
  also have "\<dots> \<le> sell_total qs"
    unfolding sell_total_def using assms by (intro sum_mono group_quantity_mono)
  finally show ?thesis .
qed

lemma sell_total_change:
  assumes "\<And>k. k \<noteq> j \<Longrightarrow> group_quantity k rs = group_quantity k qs"
  shows "sell_total rs = sell_total qs + (group_quantity j rs - group_quantity j qs)"
proof -
  let ?K = "insert j (oco_key ` set rs \<union> oco_key ` set qs)"
  have "sell_total rs = group_quantity j rs + (\<Sum>k \<in> ?K - {j}. group_quantity k rs)"
    by (subst sell_total_superset [of ?K]) (auto simp: sum.remove [of ?K j])
  moreover have "sell_total qs = group_quantity j qs + (\<Sum>k \<in> ?K - {j}. group_quantity k qs)"
    by (subst sell_total_superset [of ?K]) (auto simp: sum.remove [of ?K j])
  moreover have "(\<Sum>k \<in> ?K - {j}. group_quantity k rs) = (\<Sum>k \<in> ?K - {j}. group_quantity k qs)"
    using assms by (intro sum.cong) auto
  ultimately show ?thesis by simp
qed

lemma sell_total_snoc:
  "sell_total (rs @ [r]) = sell_total rs + max 0 (rv_remaining_quantity r - group_quantity (oco_key r) rs)"
  by (subst sell_total_change [of "oco_key r" _ rs]) (auto simp: group_quantity_snoc)

lemma same_group_le:
  assumes "oi_oco_group_id i = Some g" and "g \<noteq> []"
  shows "same_group_quantity s i \<le> group_quantity g (sells_of (oi_instrument_id i) (lg_reservations s))"
proof -
  let ?m = "filter (\<lambda>r. rv_instrument_id r = oi_instrument_id i \<and> rv_side r = SELL \<and>
    rv_oco_group_id r = oi_oco_group_id i) (lg_reservations s)"
  let ?g = "group_quantity g (sells_of (oi_instrument_id i) (lg_reservations s))"
  have key: "r \<in> set ?m \<Longrightarrow> oco_key r = g" for r
    using assms by (cases g) (auto simp: oco_key_def)
  have le: "rv_remaining_quantity r \<le> ?g" if "r \<in> set ?m" for r
    unfolding group_quantity_Max using that key [OF that] by (intro Max_ge) auto
  show ?thesis
  proof (cases ?m)
    case Nil
    then show ?thesis by (simp add: same_group_quantity_def group_quantity_nonneg)
  next
    case (Cons r rs)
    then have "same_group_quantity s i = Max (insert (rv_remaining_quantity r) (set (map rv_remaining_quantity rs)))"
      by (simp add: same_group_quantity_def foldl_max)
    also have "\<dots> \<le> ?g" using le Cons by (intro Max.boundedI) auto
    finally show ?thesis .
  qed
qed

lemma sell_increment_covers:
  assumes "oi_oco_group_id i \<noteq> Some []" and "oi_side i = SELL" and "0 < oi_quantity i"
  shows "sell_total (sells_of (oi_instrument_id i) (lg_reservations s) @ [new_reservation i s]) \<le>
    reserved_sell_quantity s (oi_instrument_id i) + sell_increment s i"
proof (cases "oi_oco_group_id i")
  case None
  have "0 \<le> group_quantity k rs" for k rs by (rule group_quantity_nonneg)
  then show ?thesis using None assms(2,3)
    by (auto simp: sell_total_snoc reserved_sell_total sell_increment_def intro: order_trans)
next
  case (Some g)
  then have "oco_key (new_reservation i s) = g" using assms(1) by (cases g) (auto simp: oco_key_def)
  then show ?thesis using Some same_group_le [OF Some, of s] assms(1,2)
    by (auto simp: sell_total_snoc reserved_sell_total sell_increment_def)
qed

text \<open>The order of calls \<open>book_fill\<close> of the replay engine keeps: an OCO group has a name, and a sell fill comes after
  the siblings of its order were released and within what its reservation still holds.\<close>

definition sole_seller :: "fill_event \<Rightarrow> portfolio_ledger \<Rightarrow> bool" where
  "sole_seller f s = (\<forall>r \<in> set (lg_reservations s). rv_order_id r = fe_order_id f \<and> rv_side r = SELL \<longrightarrow>
     of_int (fe_quantity f) \<le> rv_remaining_quantity r \<and>
     (\<forall>q \<in> set (lg_reservations s). rv_instrument_id q = rv_instrument_id r \<and> rv_side q = SELL \<and>
        oco_key q = oco_key r \<longrightarrow> q = r))"

fun sells_in_order :: "ledger_op \<Rightarrow> portfolio_ledger \<Rightarrow> bool" where
  "sells_in_order (Reserve i) s = (oi_oco_group_id i \<noteq> Some [])"
| "sells_in_order (Apply_Fill f) s = sole_seller f s"
| "sells_in_order _ s = True"

lemma covered_le:
  assumes "covered s" and "\<And>i. sell_total (sells_of i (lg_reservations t)) \<le> sell_total (sells_of i (lg_reservations s))"
    and "\<And>i. position_quantity s i \<le> position_quantity t i"
  shows "covered t"
  unfolding covered_def reserved_sell_total
proof
  fix i
  have "sell_total (sells_of i (lg_reservations s)) \<le> position_quantity s i"
    using assms(1) by (simp add: covered_def reserved_sell_total)
  then show "sell_total (sells_of i (lg_reservations t)) \<le> position_quantity t i"
    using assms(2) [of i] assms(3) [of i] by linarith
qed

lemma reserve_covered:
  assumes "covered s" and "oi_oco_group_id i \<noteq> Some []" and "validate_intent i = Inr ()"
  shows "covered (snd (reserve i s))"
proof (cases "fst (reserve i s)")
  case (Inl e)
  then show ?thesis using assms(1) reserve_cases(1) [of i s e "snd (reserve i s)"] by (cases "reserve i s") simp
next
  case (Inr u)
  have t: "snd (reserve i s) = s\<lparr>lg_reservations := lg_reservations s @ [new_reservation i s]\<rparr>" (is "_ = ?t")
    and ch: "\<forall>(b, e) \<in> set (reserve_checks i s). b"
    using Inr reserve_cases(2) [of i s u "snd (reserve i s)"] by (cases "reserve i s"; simp)+
  have pos: "position_quantity ?t j = position_quantity s j" for j by (simp add: position_quantity_def)
  have "reserved_sell_quantity ?t j \<le> position_quantity s j" for j
  proof (cases "oi_side i = SELL \<and> oi_instrument_id i = j")
    case True
    then have "reserved_sell_quantity s j + sell_increment s i \<le> position_quantity s j"
      using ch by (auto simp: reserve_checks_def Let_def)
    then show ?thesis
      using sell_increment_covers [OF assms(2) _ validate_intent_quantity [OF assms(3)], of s] True
      by (simp add: reserved_sell_total [of ?t])
  next
    case False
    then have "sells_of j (lg_reservations ?t) = sells_of j (lg_reservations s)" by auto
    then have "reserved_sell_quantity ?t j = reserved_sell_quantity s j" by (simp only: reserved_sell_total)
    then show ?thesis using assms(1) by (simp add: covered_def)
  qed
  then show ?thesis unfolding t by (simp add: covered_def pos)
qed

lemma release_covered:
  assumes "covered s"
  shows "covered (release oid s)"
  using assms
proof (rule covered_le)
  show "sell_total (sells_of i (lg_reservations (release oid s))) \<le> sell_total (sells_of i (lg_reservations s))" for i
    by (rule sell_total_mono) (auto simp: release_def)
qed (simp add: release_def position_quantity_def)

lemma update_sells:
  assumes "\<And>r. rv_instrument_id (f r) = rv_instrument_id r \<and> rv_side (f r) = rv_side r"
  shows "sells_of i (update_where P f rs) = update_where P f (sells_of i rs)"
  using assms by (induction rs) auto

lemma group_quantity_update_other:
  assumes "\<And>r. r \<in> set rs \<Longrightarrow> P r \<Longrightarrow> oco_key r = j" and "\<And>r. oco_key (f r) = oco_key r" and "k \<noteq> j"
  shows "group_quantity k (update_where P f rs) = group_quantity k rs"
proof -
  have "filter (\<lambda>r. oco_key r = k) (update_where P f rs) = filter (\<lambda>r. oco_key r = k) rs"
    using assms by (induction rs) auto
  then show ?thesis by (simp add: group_quantity_def)
qed

lemma group_quantity_update_sole:
  assumes "rv \<in> set rs" and "P rv" and "\<And>r. r \<in> set rs \<Longrightarrow> P r \<Longrightarrow> r = rv"
    and "\<And>r. r \<in> set rs \<Longrightarrow> oco_key r = oco_key rv \<Longrightarrow> r = rv" and "\<And>r. oco_key (f r) = oco_key r"
  shows "group_quantity (oco_key rv) (update_where P f rs) = max 0 (rv_remaining_quantity (f rv))"
proof -
  have "{r \<in> set (update_where P f rs). oco_key r = oco_key rv} \<subseteq> {f rv}"
  proof
    fix x assume "x \<in> {r \<in> set (update_where P f rs). oco_key r = oco_key rv}"
    then obtain r where r: "r \<in> set rs" "x = (if P r then f r else r)" and key: "oco_key x = oco_key rv"
      by (auto simp: set_update_where)
    then have "r = rv" using assms(4) [OF r(1)] assms(5) [of r] by (simp split: if_splits)
    then show "x \<in> {f rv}" using r assms(2) by simp
  qed
  moreover have "f rv \<in> set (update_where P f rs)" using assms(1,2) by (force simp: set_update_where)
  ultimately have "{r \<in> set (update_where P f rs). oco_key r = oco_key rv} = {f rv}" using assms(5) by auto
  then show ?thesis by (simp add: group_quantity_Max)
qed

lemma oco_key_fill_update [simp]: "oco_key (fill_update f r) = oco_key r"
  by (simp add: oco_key_def split: option.splits list.splits)

lemma apply_fill_covered:
  assumes "ledger_ok s" and "fill_allowed f" and "covered s" and "sole_seller f s"
  shows "covered (snd (ledger_apply_fill f s))"
  using assms(1,2)
proof (cases rule: apply_fill_cases)
  case (raised e)
  then show ?thesis using assms(3) by simp
next
  case (bought rv)
  let ?t = "filled_ledger f (- fill_cost f) ''buy_fill'' (buy_lines f) (lg_lots s @ [fill_lot f rv]) 0 s"
  have dist: "distinct (map rv_order_id (lg_reservations s))" using assms(1) by (simp add: ledger_ok_def reserves_ok_def)
  have "sells_of i (lg_reservations ?t) = sells_of i (lg_reservations s)" for i
  proof -
    have "\<not> (rv_order_id r = fe_order_id f)" if "r \<in> set (sells_of i (lg_reservations s))" for r
      using same_key_same_row [OF dist bought(1), of r] that bought(2,3) by auto
    then have "update_where (\<lambda>r. rv_order_id r = fe_order_id f) (fill_update f) (sells_of i (lg_reservations s)) =
        sells_of i (lg_reservations s)" by (rule update_where_none)
    then show ?thesis by (simp add: update_sells)
  qed
  moreover have "position_quantity s i \<le> position_quantity ?t i" for i
    using fill_ok_pos [of f] assms(2) by (simp add: position_quantity_def fill_lot_def fill_allowed_def)
  ultimately show ?thesis
    unfolding bought(7) snd_conv by (intro covered_le [OF assms(3)]) (simp_all only: order_refl)
next
  case (sold rv lots basis)
  let ?t = "filled_ledger f (fill_proceeds f) ''sell_fill'' (sell_lines f basis) lots (fill_proceeds f - basis) s"
  let ?q = "of_int (fe_quantity f) :: rat"
  let ?i = "fe_instrument_id f"
  let ?rs = "sells_of ?i (lg_reservations s)"
  have q: "0 < ?q" using fill_ok_pos [of f] assms(2) by (simp add: fill_allowed_def)
  have lots: "\<forall>l \<in> set (lg_lots s). lot_ok l" using assms(1) by (simp add: ledger_ok_def books_ok_def)
  have held: "position_quantity ?t ?i = position_quantity s ?i - ?q"
    "j \<noteq> ?i \<Longrightarrow> position_quantity ?t j = position_quantity s j" for j
    using fifo_books [OF sold(6) lots] q by (auto simp: position_quantity_def)
  have dist: "distinct (map rv_order_id (lg_reservations s))" using assms(1) by (simp add: ledger_ok_def reserves_ok_def)
  have only: "r \<in> set (lg_reservations s) \<Longrightarrow> rv_order_id r = fe_order_id f \<Longrightarrow> r = rv" for r
    using same_key_same_row [OF dist _ sold(1)] sold(2) by simp
  have sole: "?q \<le> rv_remaining_quantity rv"
    "\<And>r. r \<in> set ?rs \<Longrightarrow> oco_key r = oco_key rv \<Longrightarrow> r = rv"
    using assms(4) sold(1-5) by (auto simp: sole_seller_def)
  have sells: "sells_of j (lg_reservations ?t) =
      update_where (\<lambda>r. rv_order_id r = fe_order_id f) (fill_update f) (sells_of j (lg_reservations s))" for j
    by (simp add: update_sells)
  have mem: "rv \<in> set ?rs" using sold(1,3,5) by simp
  have "{r \<in> set ?rs. oco_key r = oco_key rv} = {rv}" using mem sole(2) by auto
  then have before: "group_quantity (oco_key rv) ?rs = max 0 (rv_remaining_quantity rv)"
    by (simp add: group_quantity_Max)
  have "group_quantity (oco_key rv) (sells_of ?i (lg_reservations ?t)) = max 0 (rv_remaining_quantity (fill_update f rv))"
    unfolding sells using mem sold(2) only sole(2) by (intro group_quantity_update_sole) auto
  then have after: "group_quantity (oco_key rv) (sells_of ?i (lg_reservations ?t)) = max 0 (rv_remaining_quantity rv - ?q)"
    using sold(4) by (simp add: fill_update_def)
  have "group_quantity k (sells_of ?i (lg_reservations ?t)) = group_quantity k ?rs" if "k \<noteq> oco_key rv" for k
    unfolding sells using only that by (intro group_quantity_update_other) auto
  then have "sell_total (sells_of ?i (lg_reservations ?t)) = sell_total ?rs +
      (group_quantity (oco_key rv) (sells_of ?i (lg_reservations ?t)) - group_quantity (oco_key rv) ?rs)"
    by (rule sell_total_change)
  then have "sell_total (sells_of ?i (lg_reservations ?t)) = sell_total ?rs - ?q"
    using sole(1) q unfolding before after by simp
  moreover have "sells_of j (lg_reservations ?t) = sells_of j (lg_reservations s)" if "j \<noteq> ?i" for j
    unfolding sells using only sold(5) that by (intro update_where_none) auto
  ultimately have "reserved_sell_quantity ?t j \<le> position_quantity ?t j" for j
    using assms(3) held by (cases "j = ?i") (auto simp: reserved_sell_total covered_def)
  then show ?thesis unfolding sold(7) snd_conv by (simp add: covered_def)
qed

lemma split_covered:
  assumes "covered s" and "ledger_ok s" and "a \<noteq> ''initial-capital''"
  shows "covered (snd (apply_split a i k at s))"
proof (cases "a \<notin> lg_event_ids s \<and> 0 < k \<and> \<not> list_ex (\<lambda>r. rv_instrument_id r = i) (lg_reservations s)")
  case True
  let ?t = "split_ledger a i k at s"
  have "a \<notin> journal_ids s" using fresh_event assms(2,3) True by (simp add: ledger_ok_def)
  then have eq: "snd (apply_split a i k at s) = ?t" using split_succeeds True by simp
  have "position_quantity ?t j = (if j = i then k * position_quantity s i else position_quantity s j)" for j
  proof -
    have "lots_quantity j (map (split_lot i k) ls) = (if j = i then k * lots_quantity i ls else lots_quantity j ls)" for ls
      by (induction ls) (auto simp: split_lot_def algebra_simps)
    then show ?thesis by (simp add: position_quantity_def split_ledger_def)
  qed
  moreover have "reserved_sell_quantity ?t j = reserved_sell_quantity s j" for j
    by (simp add: reserved_sell_total split_ledger_def)
  moreover have "reserved_sell_quantity s i = 0"
  proof -
    have "sells_of i (lg_reservations s) = []" using True by (auto simp: filter_empty_conv list_ex_iff)
    then show ?thesis by (simp add: reserved_sell_total sell_total_def)
  qed
  moreover have "0 \<le> position_quantity s i" using position_nonneg assms(2) by (simp add: ledger_ok_def)
  ultimately show ?thesis using assms(1) True unfolding eq by (auto simp: covered_def)
next
  case False
  then show ?thesis using assms(1) split_raises by metis
qed

lemma dividend_covered:
  assumes "covered s" and "ledger_ok s" and "a \<noteq> ''initial-capital''"
  shows "covered (snd (apply_dividend a i c at s))"
proof (cases "a \<notin> lg_event_ids s \<and> 0 \<le> c")
  case True
  then show ?thesis using assms dividend_succeeds [of s a c i at]
    by (auto simp: ledger_ok_def position_quantity_def intro!: covered_le [OF assms(1)])
next
  case False
  then show ?thesis using assms(1) dividend_raises by metis
qed

lemma delisting_covered:
  assumes "covered s" and "ledger_ok s" and "a \<noteq> ''initial-capital''"
  shows "covered (snd (apply_delisting a i c at s))"
proof (cases "a \<notin> lg_event_ids s \<and> 0 \<le> c \<and> \<not> list_ex (\<lambda>r. rv_instrument_id r = i) (lg_reservations s)")
  case True
  let ?t = "delist_ledger a i c at s"
  have eq: "snd (apply_delisting a i c at s) = ?t"
    using delisting_succeeds True assms(2,3) by (simp add: ledger_ok_def)
  have "position_quantity ?t j = (if j = i then 0 else position_quantity s j)" for j
    by (simp add: position_quantity_def delist_ledger_def Let_def)
  moreover have "reserved_sell_quantity ?t j = reserved_sell_quantity s j" for j
    by (simp add: reserved_sell_total delist_ledger_def Let_def)
  moreover have "reserved_sell_quantity s i = 0"
  proof -
    have "sells_of i (lg_reservations s) = []" using True by (auto simp: filter_empty_conv list_ex_iff)
    then show ?thesis by (simp add: reserved_sell_total sell_total_def)
  qed
  ultimately show ?thesis using assms(1) unfolding eq by (auto simp: covered_def)
next
  case False
  then show ?thesis using assms(1) delisting_raises by metis
qed

lemma mark_covered: "covered s \<Longrightarrow> covered (snd (mark i p s))"
  by (rule covered_le) (auto simp: mark_def position_quantity_def)

lemma ledger_step_covered:
  assumes "ledger_ok s \<and> covered s" and "op_valid op \<and> sells_in_order op s"
  shows "ledger_ok (ledger_step op s) \<and> covered (ledger_step op s)"
  using assms ledger_step_ok [of s op]
  by (cases op)
    (simp_all add: ledger_step_def reserve_covered release_covered apply_fill_covered mark_covered
      split_covered dividend_covered delisting_covered)

lemma new_ledger_covered: "new_ledger x pol = Inr s \<Longrightarrow> covered s"
  by (auto simp: new_ledger_def Let_def covered_def reserved_sell_total sell_total_def position_quantity_def
      append_journal_def append_cash_def split: if_splits sum.splits)

interpretation cover_sys: invariant_system opened ledger_step
  "\<lambda>op s. op_valid op \<and> sells_in_order op s" "\<lambda>s. ledger_ok s \<and> covered s"
  using ledger_sys.init_inv new_ledger_covered ledger_step_covered
  by unfold_locales (auto simp: opened_def)

end
