(* ===== verification/Sim_Engine.thy ===== *)
theory Sim_Engine
  imports Sim_Fills Sim_Ledger "HOL-Library.Product_Lexorder"
begin

section \<open>The replay engine\<close>

text \<open>
  \<open>src/hanalpha/simulation/engine.py\<close> (\<open>PortfolioReplayEngine\<close>) and \<open>simulation/parity.py\<close>.
  The local variables of \<open>run\<close> are one record; \<open>orders\<close> is the list of the dict's values in
  insertion order, keyed by the order id. Every loop body and helper returns its result with the
  state reached, and the first exception ends the run. The candidate policy is a parameter
  \<open>propose\<close>, the digest a parameter \<open>H\<close>.
\<close>

subsection \<open>Proposals and documents\<close>

record order_proposal =
  op_instrument_id :: string
  op_strategy_id :: string
  op_strategy_version :: string
  op_side :: side
  op_kind :: order_kind
  op_quantity :: int
  op_planned_price :: rat
  op_limit_price :: "rat option"
  op_stop_price :: "rat option"
  op_protective_stop :: "rat option"
  op_protective_target :: "rat option"
  op_expires_at :: "time option"
  op_input_hash :: string
  op_signal_hash :: string

definition kind_value :: "order_kind \<Rightarrow> string" where
  "kind_value k = (case k of MARKET \<Rightarrow> ''market'' | LIMIT \<Rightarrow> ''limit''
     | STOP_MARKET \<Rightarrow> ''stop_market'' | STOP_LIMIT \<Rightarrow> ''stop_limit'')"

definition state_value :: "sim_order_state \<Rightarrow> string" where
  "state_value s = (case s of PROPOSED \<Rightarrow> ''proposed'' | ACCEPTED \<Rightarrow> ''accepted''
     | PARTIALLY_FILLED \<Rightarrow> ''partially_filled'' | FILLED \<Rightarrow> ''filled'' | CANCELLED \<Rightarrow> ''cancelled''
     | REJECTED \<Rightarrow> ''rejected'' | EXPIRED \<Rightarrow> ''expired'')"

definition proposal_fields :: "order_proposal \<Rightarrow> (string \<times> json) list" where
  "proposal_fields p =
     [(''instrument_id'', JStr (op_instrument_id p)), (''strategy_id'', JStr (op_strategy_id p)),
      (''strategy_version'', JStr (op_strategy_version p)), (''side'', JStr (side_value (op_side p))),
      (''kind'', JStr (kind_value (op_kind p))), (''quantity'', JInt (op_quantity p)),
      (''planned_price'', JNum (op_planned_price p)), (''limit_price'', opt_json JNum (op_limit_price p)),
      (''stop_price'', opt_json JNum (op_stop_price p)),
      (''protective_stop'', opt_json JNum (op_protective_stop p)),
      (''protective_target'', opt_json JNum (op_protective_target p)),
      (''expires_at'', opt_json JTime (op_expires_at p)),
      (''input_hash'', JStr (op_input_hash p)), (''signal_hash'', JStr (op_signal_hash p))]"

text \<open>\<open>candidate_id\<close> hashes the dump with \<open>exclude_none\<close>; the risk hash keeps the nulls.\<close>

definition candidate_id :: "(json \<Rightarrow> string) \<Rightarrow> order_proposal \<Rightarrow> string" where
  "candidate_id H p = canonical_hash H (JObj (filter (\<lambda>(k, v). v \<noteq> JNull) (proposal_fields p)))"

definition policy_doc :: "portfolio_policy \<Rightarrow> json" where
  "policy_doc p = JObj
     [(''max_gross_exposure'', JNum (pp_max_gross_exposure p)),
      (''max_symbol_exposure'', JNum (pp_max_symbol_exposure p)),
      (''max_positions'', JInt (pp_max_positions p)),
      (''max_risk_per_trade'', JNum (pp_max_risk_per_trade p)),
      (''max_total_risk'', JNum (pp_max_total_risk p)),
      (''minimum_commission'', JNum (pp_minimum_commission p))]"

definition risk_hash :: "(json \<Rightarrow> string) \<Rightarrow> order_proposal \<Rightarrow> rat \<Rightarrow> portfolio_policy \<Rightarrow> string" where
  "risk_hash H p net pol = canonical_hash H (JObj
     [(''proposal'', JObj (proposal_fields p)), (''net_liquidation'', JNum net),
      (''portfolio_policy'', policy_doc pol)])"

definition fill_doc :: "fill_event \<Rightarrow> json" where
  "fill_doc f = JObj
     [(''fill_id'', JStr (fe_fill_id f)), (''order_id'', JStr (fe_order_id f)),
      (''instrument_id'', JStr (fe_instrument_id f)), (''side'', JStr (side_value (fe_side f))),
      (''quantity'', JInt (fe_quantity f)), (''price'', JNum (fe_price f)),
      (''commission'', JNum (fe_commission f)), (''occurred_at'', JTime (fe_occurred_at f)),
      (''reason'', JStr (fe_reason f)), (''source_record_id'', JStr (fe_source_record_id f)),
      (''source_revision'', JInt (fe_source_revision f))]"

definition identity_dump :: "decision_identity \<Rightarrow> json" where
  "identity_dump d = JObj
     [(''decision_id'', JStr (di_decision_id d)), (''snapshot_id'', JStr (di_snapshot_id d)),
      (''as_of'', JTime (di_as_of d)), (''strategy_version'', JStr (di_strategy_version d)),
      (''config_hash'', JStr (di_config_hash d)), (''input_hash'', JStr (di_input_hash d)),
      (''signal_hash'', JStr (di_signal_hash d)), (''risk_hash'', JStr (di_risk_hash d))]"

definition decision_doc :: "decision_record \<Rightarrow> json" where
  "decision_doc d = JObj
     [(''identity'', identity_dump (dr_identity d)), (''strategy_id'', JStr (dr_strategy_id d)),
      (''instrument_id'', JStr (dr_instrument_id d)), (''order_id'', opt_json JStr (dr_order_id d)),
      (''approved'', JBool (dr_approved d)), (''reason'', JStr (dr_reason d))]"

definition intent_doc :: "order_intent \<Rightarrow> json" where
  "intent_doc i = JObj
     [(''order_id'', JStr (oi_order_id i)), (''decision_id'', JStr (oi_decision_id i)),
      (''instrument_id'', JStr (oi_instrument_id i)), (''strategy_id'', JStr (oi_strategy_id i)),
      (''side'', JStr (side_value (oi_side i))), (''kind'', JStr (kind_value (oi_kind i))),
      (''quantity'', JInt (oi_quantity i)), (''submitted_at'', JTime (oi_submitted_at i)),
      (''earliest_fill_at'', JTime (oi_earliest_fill_at i)),
      (''expires_at'', opt_json JTime (oi_expires_at i)), (''planned_price'', JNum (oi_planned_price i)),
      (''limit_price'', opt_json JNum (oi_limit_price i)), (''stop_price'', opt_json JNum (oi_stop_price i)),
      (''protective_stop'', opt_json JNum (oi_protective_stop i)),
      (''protective_target'', opt_json JNum (oi_protective_target i)),
      (''parent_order_id'', opt_json JStr (oi_parent_order_id i)),
      (''oco_group_id'', opt_json JStr (oi_oco_group_id i)), (''reduce_only'', JBool (oi_reduce_only i))]"

definition order_doc :: "tracked_order \<Rightarrow> json" where
  "order_doc t = JObj
     [(''intent'', intent_doc (to_intent t)), (''state'', JStr (state_value (to_state t))),
      (''filled_quantity'', JInt (to_filled_quantity t)),
      (''average_fill_price'', opt_json JNum (to_average_fill_price t)),
      (''fill_ids'', JArr (map JStr (to_fill_ids t))), (''last_event_at'', JTime (to_last_event_at t))]"

definition equity_doc :: "equity_point \<Rightarrow> json" where
  "equity_doc e = JObj
     [(''as_of'', JTime (ep_as_of e)), (''net_liquidation'', JNum (ep_net_liquidation e)),
      (''cash'', JNum (ep_cash e)), (''gross_exposure'', JNum (ep_gross_exposure e))]"

subsection \<open>State and loops\<close>

record replay_state =
  rs_ledger :: portfolio_ledger
  rs_orders :: "tracked_order list"
  rs_fills :: "fill_event list"
  rs_decisions :: "decision_record list"
  rs_equity :: "equity_point list"

abbreviation order_key :: "tracked_order \<Rightarrow> string" where
  "order_key t \<equiv> oi_order_id (to_intent t)"

fun for_each :: "('x \<Rightarrow> 's \<Rightarrow> unit res \<times> 's) \<Rightarrow> 'x list \<Rightarrow> 's \<Rightarrow> unit res \<times> 's" where
  "for_each f [] s = (Inr (), s)"
| "for_each f (x # xs) s = and_then (f x s) (\<lambda>_. for_each f xs)"

definition get_order :: "string \<Rightarrow> replay_state \<Rightarrow> tracked_order option" where
  "get_order oid s = List.find (\<lambda>t. order_key t = oid) (rs_orders s)"

definition set_order :: "tracked_order \<Rightarrow> replay_state \<Rightarrow> replay_state" where
  "set_order t s = s\<lparr>rs_orders := upsert order_key (\<lambda>_ new. new) t (rs_orders s)\<rparr>"

text \<open>\<open>orders[order_id]\<close> for a key taken from the dict.\<close>

definition with_order :: "string \<Rightarrow> (tracked_order \<Rightarrow> replay_state \<Rightarrow> unit res \<times> replay_state) \<Rightarrow> replay_state \<Rightarrow> unit res \<times> replay_state" where
  "with_order oid f s = (case get_order oid s of None \<Rightarrow> (Inl (KeyError oid), s) | Some t \<Rightarrow> f t s)"

definition on_ledger :: "(portfolio_ledger \<Rightarrow> unit res \<times> portfolio_ledger) \<Rightarrow> replay_state \<Rightarrow> unit res \<times> replay_state" where
  "on_ledger f s = (case f (rs_ledger s) of (r, l) \<Rightarrow> (r, s\<lparr>rs_ledger := l\<rparr>))"

definition release_order :: "string \<Rightarrow> replay_state \<Rightarrow> replay_state" where
  "release_order oid s = s\<lparr>rs_ledger := release oid (rs_ledger s)\<rparr>"

text \<open>\<open>orders[id] = order.cancel(at); ledger.release(id)\<close>, and the same with \<open>expire\<close>.\<close>

definition retire :: "tracked_order res \<Rightarrow> replay_state \<Rightarrow> unit res \<times> replay_state" where
  "retire r s = (case r of Inl e \<Rightarrow> (Inl e, s)
     | Inr t \<Rightarrow> (Inr (), release_order (order_key t) (set_order t s)))"

definition sorted_keys :: "replay_state \<Rightarrow> string list" where
  "sorted_keys s = sort (map order_key (rs_orders s))"

definition expire_orders :: "time \<Rightarrow> replay_state \<Rightarrow> unit res \<times> replay_state" where
  "expire_orders as_of s = for_each (\<lambda>oid. with_order oid (\<lambda>t s.
     case oi_expires_at (to_intent t) of None \<Rightarrow> (Inr (), s)
     | Some e \<Rightarrow> if as_of > e \<and> live t then retire (expire t e) s else (Inr (), s))) (sorted_keys s) s"

definition cancel_orders_for_action :: "string \<Rightarrow> time \<Rightarrow> replay_state \<Rightarrow> unit res \<times> replay_state" where
  "cancel_orders_for_action instrument_id at s = for_each (\<lambda>oid. with_order oid (\<lambda>t s.
     if oi_instrument_id (to_intent t) = instrument_id \<and> live t then retire (order_cancel t at) s
     else (Inr (), s))) (sorted_keys s) s"

definition apply_action :: "time \<Rightarrow> simulation_corporate_action \<Rightarrow> replay_state \<Rightarrow> unit res \<times> replay_state" where
  "apply_action as_of a s =
     (if sa_phase a \<in> {ANNOUNCED, EX_DATE, RECORD_DATE} then (Inr (), s)
      else and_then (cancel_orders_for_action (sa_instrument_id a) as_of s) (\<lambda>_ s.
        case (sa_action_type a, sa_ratio a, sa_cash_amount a) of
          (SPLIT, Some ratio, _) \<Rightarrow> on_ledger (apply_split (sa_action_id a) (sa_instrument_id a) ratio as_of) s
        | (DIVIDEND, _, Some cash) \<Rightarrow> on_ledger (apply_dividend (sa_action_id a) (sa_instrument_id a) cash as_of) s
        | (DELIST, _, cash) \<Rightarrow> on_ledger (apply_delisting (sa_action_id a) (sa_instrument_id a)
            (case cash of None \<Rightarrow> 0 | Some c \<Rightarrow> c) as_of) s
        | _ \<Rightarrow> (Inr (), s)))"

definition match_priority :: "tracked_order \<Rightarrow> int \<times> string" where
  "match_priority t =
     (if oi_reduce_only (to_intent t) \<and> oi_kind (to_intent t) = STOP_MARKET then (0, order_key t)
      else if oi_reduce_only (to_intent t) then (1, order_key t) else (2, order_key t))"

definition cancel_oco_siblings :: "tracked_order \<Rightarrow> time \<Rightarrow> replay_state \<Rightarrow> unit res \<times> replay_state" where
  "cancel_oco_siblings matched at s =
     (case oi_oco_group_id (to_intent matched) of None \<Rightarrow> (Inr (), s)
      | Some g \<Rightarrow> for_each (\<lambda>oid. with_order oid (\<lambda>t s.
          if oid \<noteq> order_key matched \<and> oi_oco_group_id (to_intent t) = Some g \<and> live t
          then retire (order_cancel t at) s else (Inr (), s))) (sorted_keys s) s)"

subsection \<open>Protection\<close>

text \<open>An intent that the engine builds, reserves and accepts.\<close>

definition place :: "order_intent \<Rightarrow> time \<Rightarrow> replay_state \<Rightarrow> unit res \<times> replay_state" where
  "place i at s = and_then (on_ledger (reserve i) s) (\<lambda>_ s.
     case bind_res (proposed i) (\<lambda>t. accept t at) of Inl e \<Rightarrow> (Inl e, s)
     | Inr t \<Rightarrow> (Inr (), set_order t s))"

definition child_intent ::
  "tracked_order \<Rightarrow> fill_event \<Rightarrow> string \<Rightarrow> string \<Rightarrow> order_kind \<Rightarrow> rat \<Rightarrow> rat option \<Rightarrow> rat option \<Rightarrow> order_intent" where
  "child_intent parent f group_id order_id kind planned limit_price stop_price =
     \<lparr>oi_order_id = order_id, oi_decision_id = oi_decision_id (to_intent parent),
      oi_instrument_id = oi_instrument_id (to_intent parent),
      oi_strategy_id = oi_strategy_id (to_intent parent), oi_side = SELL, oi_kind = kind,
      oi_quantity = fe_quantity f, oi_submitted_at = fe_occurred_at f,
      oi_earliest_fill_at = fe_occurred_at f, oi_expires_at = None, oi_planned_price = planned,
      oi_limit_price = limit_price, oi_stop_price = stop_price, oi_protective_stop = None,
      oi_protective_target = None, oi_parent_order_id = Some (order_key parent),
      oi_oco_group_id = Some group_id, oi_reduce_only = True\<rparr>"

definition protection_intents :: "(json \<Rightarrow> string) \<Rightarrow> tracked_order \<Rightarrow> fill_event \<Rightarrow> rat \<Rightarrow> order_intent list" where
  "protection_intents H parent f stop =
     (let group_id = canonical_hash H (JObj [(''entry_fill'', JStr (fe_fill_id f)), (''role'', JStr ''protection'')]);
          oid = (\<lambda>role. canonical_hash H (JObj [(''group_id'', JStr group_id), (''role'', JStr role)]))
      in child_intent parent f group_id (oid ''stop'') STOP_MARKET stop None (Some stop) #
         (case oi_protective_target (to_intent parent) of None \<Rightarrow> []
          | Some target \<Rightarrow> [child_intent parent f group_id (oid ''target'') LIMIT target (Some target) None]))"

fun validate_intents :: "order_intent list \<Rightarrow> unit res" where
  "validate_intents [] = Inr ()"
| "validate_intents (i # is) = bind_res (validate_intent i) (\<lambda>_. validate_intents is)"

text \<open>\<open>_create_protection\<close> returns the ids of the children.\<close>

definition create_protection ::
  "(json \<Rightarrow> string) \<Rightarrow> tracked_order \<Rightarrow> fill_event \<Rightarrow> replay_state \<Rightarrow> string list res \<times> replay_state" where
  "create_protection H parent f s =
     (case oi_protective_stop (to_intent parent) of
        None \<Rightarrow> (Inl (ReservationRejected ''filled long entry has no protective stop''), s)
      | Some stop \<Rightarrow>
        (let children = protection_intents H parent f stop
         in case validate_intents children of Inl e \<Rightarrow> (Inl e, s)
            | Inr _ \<Rightarrow> and_then (for_each (\<lambda>i. place i (fe_occurred_at f)) children s)
                (\<lambda>_ s. (Inr (map oi_order_id children), s))))"

text \<open>Booking a fill: siblings cancelled first, then ledger, order and the list of fills.\<close>

definition book_fill :: "tracked_order \<Rightarrow> fill_event \<Rightarrow> replay_state \<Rightarrow> tracked_order res \<times> replay_state" where
  "book_fill t f s =
     and_then (cancel_oco_siblings t (fe_occurred_at f) s) (\<lambda>_ s.
     and_then (on_ledger (ledger_apply_fill f) s) (\<lambda>_ s.
       case order_apply_fill t (fe_fill_id f) (fe_quantity f) (fe_price f) (fe_occurred_at f) of
         Inl e \<Rightarrow> (Inl e, s)
       | Inr t' \<Rightarrow> (Inr t', (set_order t' s)\<lparr>rs_fills := rs_fills s @ [f]\<rparr>)))"

text \<open>The loop over the children stops at the first that fills.\<close>

fun same_bar_loop ::
  "(json \<Rightarrow> string) \<Rightarrow> fill_policy \<Rightarrow> string list \<Rightarrow> simulation_bar \<Rightarrow> time \<Rightarrow> replay_state \<Rightarrow> unit res \<times> replay_state" where
  "same_bar_loop H pol [] b as_of s = (Inr (), s)"
| "same_bar_loop H pol (oid # oids) b as_of s = with_order oid (\<lambda>t s.
     case exchange_match H pol t b as_of True of
       Inl e \<Rightarrow> (Inl e, s)
     | Inr None \<Rightarrow> same_bar_loop H pol oids b as_of s
     | Inr (Some f) \<Rightarrow> and_then (book_fill t f s) (\<lambda>t' s.
         (Inr (), if remaining_quantity t' = 0 then release_order oid s else s))) s"

definition match_same_bar_protection ::
  "(json \<Rightarrow> string) \<Rightarrow> fill_policy \<Rightarrow> string list \<Rightarrow> simulation_bar \<Rightarrow> time \<Rightarrow> replay_state \<Rightarrow> unit res \<times> replay_state" where
  "match_same_bar_protection H pol child_ids b as_of s =
     same_bar_loop H pol (sort_key (\<lambda>k. case get_order k s of None \<Rightarrow> (2, k) | Some t \<Rightarrow> match_priority t) child_ids)
       b as_of s"

definition replacement :: "tracked_order \<Rightarrow> replay_state \<Rightarrow> (order_kind \<times> rat \<times> rat option \<times> rat option \<times> string) option" where
  "replacement matched s =
     (let sibling = (\<lambda>k. List.find (\<lambda>t. oi_oco_group_id (to_intent t) = oi_oco_group_id (to_intent matched) \<and>
            oi_kind (to_intent t) = k) (rs_orders s))
      in if oi_kind (to_intent matched) = STOP_MARKET then
           (case Option.bind (sibling LIMIT) (\<lambda>t. oi_limit_price (to_intent t)) of None \<Rightarrow> None
            | Some p \<Rightarrow> Some (LIMIT, p, Some p, None, ''target-replacement''))
         else
           (case Option.bind (sibling STOP_MARKET) (\<lambda>t. oi_stop_price (to_intent t)) of None \<Rightarrow> None
            | Some p \<Rightarrow> Some (STOP_MARKET, p, None, Some p, ''stop-replacement'')))"

definition replace_oco_sibling ::
  "(json \<Rightarrow> string) \<Rightarrow> tracked_order \<Rightarrow> fill_event \<Rightarrow> replay_state \<Rightarrow> unit res \<times> replay_state" where
  "replace_oco_sibling H matched f s =
     (if oi_oco_group_id (to_intent matched) = None \<or> remaining_quantity matched = 0 then (Inr (), s)
      else case replacement matched s of None \<Rightarrow> (Inr (), s)
      | Some (kind, planned, limit_price, stop_price, role) \<Rightarrow>
        (let i = \<lparr>oi_order_id = canonical_hash H (JObj [(''fill_id'', JStr (fe_fill_id f)), (''role'', JStr role)]),
               oi_decision_id = oi_decision_id (to_intent matched),
               oi_instrument_id = oi_instrument_id (to_intent matched),
               oi_strategy_id = oi_strategy_id (to_intent matched), oi_side = SELL, oi_kind = kind,
               oi_quantity = remaining_quantity matched, oi_submitted_at = fe_occurred_at f,
               oi_earliest_fill_at = fe_occurred_at f + 1, oi_expires_at = None,
               oi_planned_price = planned, oi_limit_price = limit_price, oi_stop_price = stop_price,
               oi_protective_stop = None, oi_protective_target = None,
               oi_parent_order_id = oi_parent_order_id (to_intent matched),
               oi_oco_group_id = oi_oco_group_id (to_intent matched), oi_reduce_only = True\<rparr>
         in case validate_intent i of Inl e \<Rightarrow> (Inl e, s) | Inr _ \<Rightarrow> place i (fe_occurred_at f) s))"

subsection \<open>Bars\<close>

definition match_order ::
  "(json \<Rightarrow> string) \<Rightarrow> fill_policy \<Rightarrow> simulation_bar \<Rightarrow> time \<Rightarrow> string \<Rightarrow> replay_state \<Rightarrow> unit res \<times> replay_state" where
  "match_order H pol b as_of oid = with_order oid (\<lambda>t s.
     case exchange_match H pol t b as_of False of
       Inl e \<Rightarrow> (Inl e, s)
     | Inr None \<Rightarrow> (Inr (), s)
     | Inr (Some f) \<Rightarrow>
       and_then (book_fill t f s) (\<lambda>t' s.
       and_then
         (if fe_side f = BUY
          then and_then (create_protection H t' f s) (\<lambda>ids. match_same_bar_protection H pol ids b as_of)
          else if to_state t' = PARTIALLY_FILLED then replace_oco_sibling H t' f s
          else (Inr (), s)) (\<lambda>_ s.
         (Inr (), if remaining_quantity t' = 0 then release_order oid s else s))))"

definition process_bar ::
  "(json \<Rightarrow> string) \<Rightarrow> fill_policy \<Rightarrow> time \<Rightarrow> simulation_bar \<Rightarrow> replay_state \<Rightarrow> unit res \<times> replay_state" where
  "process_bar H pol as_of b s =
     and_then (for_each (match_order H pol b as_of) (map order_key (sort_key match_priority (rs_orders s))) s)
       (\<lambda>_. on_ledger (mark (sb_instrument_id b) (sb_close b)))"

subsection \<open>Decisions\<close>

record replay_config =
  rc_starting_cash :: rat
  rc_portfolio_policy :: portfolio_policy
  rc_fill_policy :: fill_policy
  rc_config_hash :: string

definition proposal_intent :: "order_proposal \<Rightarrow> string \<Rightarrow> string \<Rightarrow> time \<Rightarrow> order_intent" where
  "proposal_intent p order_id decision_id as_of =
     \<lparr>oi_order_id = order_id, oi_decision_id = decision_id, oi_instrument_id = op_instrument_id p,
      oi_strategy_id = op_strategy_id p, oi_side = op_side p, oi_kind = op_kind p,
      oi_quantity = op_quantity p, oi_submitted_at = as_of, oi_earliest_fill_at = as_of + 1,
      oi_expires_at = op_expires_at p, oi_planned_price = op_planned_price p,
      oi_limit_price = op_limit_price p, oi_stop_price = op_stop_price p,
      oi_protective_stop = op_protective_stop p, oi_protective_target = op_protective_target p,
      oi_parent_order_id = None, oi_oco_group_id = None, oi_reduce_only = False\<rparr>"

definition add_decision :: "decision_identity \<Rightarrow> order_proposal \<Rightarrow> string option \<Rightarrow> bool \<Rightarrow> string \<Rightarrow> replay_state \<Rightarrow> replay_state" where
  "add_decision d p order_id approved reason s = s\<lparr>rs_decisions := rs_decisions s @
     [\<lparr>dr_identity = d, dr_strategy_id = op_strategy_id p, dr_instrument_id = op_instrument_id p,
       dr_order_id = order_id, dr_approved = approved, dr_reason = reason\<rparr>]\<rparr>"

definition decide ::
  "(json \<Rightarrow> string) \<Rightarrow> replay_config \<Rightarrow> string \<Rightarrow> time \<Rightarrow> rat \<Rightarrow> order_proposal \<Rightarrow> replay_state \<Rightarrow> unit res \<times> replay_state" where
  "decide H cfg snapshot_id as_of net p s =
     (case build_identity H snapshot_id as_of (op_strategy_version p) (rc_config_hash cfg)
             (op_input_hash p) (op_signal_hash p) (risk_hash H p net (rc_portfolio_policy cfg)) of
        Inl e \<Rightarrow> (Inl e, s)
      | Inr d \<Rightarrow>
        (let order_id = canonical_hash H (JObj [(''decision_id'', JStr (di_decision_id d)),
               (''candidate_id'', JStr (candidate_id H p))]);
             i = proposal_intent p order_id (di_decision_id d) as_of
         in case validate_intent i of Inl e \<Rightarrow> (Inl e, s)
            | Inr _ \<Rightarrow>
              (case reserve i (rs_ledger s) of
                 (Inl (ReservationRejected reason), l) \<Rightarrow>
                   (Inr (), add_decision d p None False reason (s\<lparr>rs_ledger := l\<rparr>))
               | (Inl e, l) \<Rightarrow> (Inl e, s\<lparr>rs_ledger := l\<rparr>)
               | (Inr _, l) \<Rightarrow>
                 (case bind_res (proposed i) (\<lambda>t. accept t as_of) of
                    Inl e \<Rightarrow> (Inl e, s\<lparr>rs_ledger := l\<rparr>)
                  | Inr t \<Rightarrow> (Inr (), add_decision d p (Some order_id) True ''approved''
                      (set_order t (s\<lparr>rs_ledger := l\<rparr>)))))))"

definition add_equity :: "time \<Rightarrow> replay_state \<Rightarrow> replay_state" where
  "add_equity as_of s =
     (let point = ledger_snapshot (rs_ledger s) as_of
      in s\<lparr>rs_equity := rs_equity s @
           [\<lparr>ep_as_of = as_of, ep_net_liquidation = ps_net_liquidation point, ep_cash = ps_cash point,
             ep_gross_exposure = ps_gross_exposure point\<rparr>]\<rparr>)"

type_synonym candidate_policy = "replay_frame \<Rightarrow> portfolio_snapshot \<Rightarrow> order_proposal list"

definition decide_frame ::
  "(json \<Rightarrow> string) \<Rightarrow> replay_config \<Rightarrow> candidate_policy \<Rightarrow> replay_frame \<Rightarrow> replay_state \<Rightarrow> unit res \<times> replay_state" where
  "decide_frame H cfg propose frame s =
     (let portfolio = ledger_snapshot (rs_ledger s) (rf_as_of frame);
          proposals = sort_key (candidate_id H) (propose frame portfolio)
      in if \<not> distinct (map (candidate_id H) proposals)
         then (Inl (ValueError ''candidate policy returned duplicate proposals''), s)
         else and_then
           (for_each (decide H cfg (rf_snapshot_id frame) (rf_as_of frame) (ps_net_liquidation portfolio)) proposals s)
           (\<lambda>_ s. (Inr (), add_equity (rf_as_of frame) s)))"

definition process_frame ::
  "(json \<Rightarrow> string) \<Rightarrow> replay_config \<Rightarrow> candidate_policy \<Rightarrow> replay_frame \<Rightarrow> replay_state \<Rightarrow> unit res \<times> replay_state" where
  "process_frame H cfg propose frame s =
     and_then (expire_orders (rf_as_of frame) s) (\<lambda>_ s.
     and_then (for_each (apply_action (rf_as_of frame)) (rf_actions frame) s) (\<lambda>_ s.
     and_then (for_each (process_bar H (rc_fill_policy cfg) (rf_as_of frame)) (rf_bars frame) s) (\<lambda>_ s.
     and_then (assert_conservation (rs_ledger s), s) (\<lambda>_ s.
       decide_frame H cfg propose frame s))))"

definition start_state :: "portfolio_ledger \<Rightarrow> replay_state" where
  "start_state l = \<lparr>rs_ledger = l, rs_orders = [], rs_fills = [], rs_decisions = [], rs_equity = []\<rparr>"

definition replay_frames ::
  "(json \<Rightarrow> string) \<Rightarrow> replay_config \<Rightarrow> candidate_policy \<Rightarrow> replay_frame list \<Rightarrow> replay_state res" where
  "replay_frames H cfg propose frames =
     bind_res (new_ledger (rc_starting_cash cfg) (rc_portfolio_policy cfg)) (\<lambda>l.
       case for_each (process_frame H cfg propose) frames (start_state l) of
         (Inl e, _) \<Rightarrow> Inl e | (Inr _, s) \<Rightarrow> Inr s)"

record replay_result =
  rr_event_hash :: string
  rr_equity_hash :: string
  rr_decisions :: "decision_record list"
  rr_fills :: "fill_event list"
  rr_equity_points :: "equity_point list"
  rr_final_orders :: "tracked_order list"
  rr_journal_entries :: "journal_entry list"
  rr_cash_entries :: "cash_entry list"
  rr_position_lots :: "position_lot list"

definition replay_result_of :: "(json \<Rightarrow> string) \<Rightarrow> replay_state \<Rightarrow> replay_result res" where
  "replay_result_of H s =
     (let final_orders = sort_key order_key (rs_orders s);
          r = \<lparr>rr_event_hash = canonical_hash H (JObj
                [(''decisions'', JArr (map decision_doc (rs_decisions s))),
                 (''fills'', JArr (map fill_doc (rs_fills s))),
                 (''orders'', JArr (map order_doc final_orders))]),
              rr_equity_hash = canonical_hash H (JArr (map equity_doc (rs_equity s))),
              rr_decisions = rs_decisions s, rr_fills = rs_fills s, rr_equity_points = rs_equity s,
              rr_final_orders = final_orders, rr_journal_entries = lg_journal_entries (rs_ledger s),
              rr_cash_entries = lg_cash_entries (rs_ledger s), rr_position_lots = lg_lots (rs_ledger s)\<rparr>
      in bind_res (checks [(hash_pattern (rr_event_hash r), ValueError ''event_hash''),
             (hash_pattern (rr_equity_hash r), ValueError ''equity_hash'')]) (\<lambda>_. Inr r))"

definition run :: "(json \<Rightarrow> string) \<Rightarrow> replay_config \<Rightarrow> candidate_policy \<Rightarrow> replay_frame list \<Rightarrow> replay_result res" where
  "run H cfg propose frames =
     bind_res (checks
       [(frames \<noteq> [], ValueError ''replay requires at least one frame''),
        (sorted (map rf_as_of frames), ValueError ''replay frames must be monotonic''),
        (length (remdups (map rf_snapshot_id frames)) = 1, ValueError ''replay frames must use one snapshot'')])
     (\<lambda>_. bind_res (replay_frames H cfg propose frames) (replay_result_of H))"

subsection \<open>Parity of decision traces\<close>

definition parity_key :: "decision_record \<Rightarrow> string list \<times> bool \<times> string" where
  "parity_key d = (let i = dr_identity d in
     ([di_decision_id i, di_snapshot_id i, di_strategy_version i, di_config_hash i, di_input_hash i,
       di_signal_hash i, di_risk_hash i], dr_approved d, dr_reason d))"

definition assert_decision_parity :: "decision_record list \<Rightarrow> decision_record list \<Rightarrow> unit res" where
  "assert_decision_parity left right = checks
     [(map parity_key left = map parity_key right, AssertionError ''decision traces differ'')]"

end
