(* ===== verification/Sim_Replay.thy ===== *)
theory Sim_Replay
  imports Sim_Engine
begin

section \<open>The invariant of a replay\<close>

text \<open>
  Along a run the ledger's books are right, every order is well formed, and orders and reservations
  correspond: a live order holds a reservation with its instrument, side, group and (for sells) its
  remaining quantity, and nothing else is reserved. The proof is a small program logic: \<open>yields Q r\<close>
  says of a call's outcome that \<open>Q\<close> holds where it returns and that an exception it raises is not a
  failed assertion.
\<close>

subsection \<open>Outcomes\<close>

definition is_assertion :: "exn \<Rightarrow> bool" where
  "is_assertion e = (case e of AssertionError _ \<Rightarrow> True | _ \<Rightarrow> False)"

lemma is_assertion_simps [simp]:
  "is_assertion (AssertionError m)" "\<not> is_assertion (ValueError m)" "\<not> is_assertion (KeyError m)"
  "\<not> is_assertion (ReservationRejected m)" "\<not> is_assertion (DuplicateLedgerEvent m)"
  "\<not> is_assertion (IllegalOrderTransition m)" "\<not> is_assertion (DuplicateOrderEvent m)"
  by (simp_all add: is_assertion_def)

definition yields :: "('a \<Rightarrow> 's \<Rightarrow> bool) \<Rightarrow> 'a res \<times> 's \<Rightarrow> bool" where
  "yields Q r = (case fst r of Inl e \<Rightarrow> \<not> is_assertion e | Inr x \<Rightarrow> Q x (snd r))"

lemma yields_simps [simp]:
  "yields Q (Inl e, s) \<longleftrightarrow> \<not> is_assertion e" "yields Q (Inr x, s) \<longleftrightarrow> Q x s"
  by (simp_all add: yields_def)

lemma yields_and_then:
  assumes "yields P r" and "\<And>x s. P x s \<Longrightarrow> yields Q (f x s)"
  shows "yields Q (and_then r f)"
  using assms by (cases r; cases "fst r") (auto simp: yields_def)

lemma yields_mono: "yields P r \<Longrightarrow> (\<And>x s. P x s \<Longrightarrow> Q x s) \<Longrightarrow> yields Q r"
  by (auto simp: yields_def split: sum.splits)

lemma yields_for_each:
  assumes "I s" and "\<And>x s. x \<in> set xs \<Longrightarrow> I s \<Longrightarrow> yields (\<lambda>_. I) (f x s)"
  shows "yields (\<lambda>_. I) (for_each f xs s)"
  using assms
proof (induction xs arbitrary: s)
  case (Cons x xs)
  then have "yields (\<lambda>_. I) (f x s)" by simp
  then have "yields (\<lambda>_. I) (and_then (f x s) (\<lambda>_. for_each f xs))"
    by (rule yields_and_then) (use Cons in auto)
  then show ?case by simp
qed simp

text \<open>Errors of validators are never assertions.\<close>

lemma checks_value_error:
  "checks gs = Inl e \<Longrightarrow> (\<And>b x. (b, x) \<in> set gs \<Longrightarrow> \<not> is_assertion x) \<Longrightarrow> \<not> is_assertion e"
  by (induction gs rule: checks.induct) (auto simp: checks.simps split: if_splits)

lemma validate_intent_error: "validate_intent i = Inl e \<Longrightarrow> \<not> is_assertion e"
  unfolding validate_intent_def by (erule checks_value_error) auto

lemma validate_tracked_error: "validate_tracked t = Inl e \<Longrightarrow> \<not> is_assertion e"
  unfolding validate_tracked_def using validate_intent_error
  by (auto split: sum.splits elim!: checks_value_error)

lemma updated_error: "updated t n = Inl e \<Longrightarrow> \<not> is_assertion e"
  using validate_tracked_error by (auto simp: updated_def split: if_splits sum.splits)

lemma order_exec_error: "order_exec op t = Inl e \<Longrightarrow> \<not> is_assertion e"
  by (cases op)
    (auto simp: accept_def reject_def order_cancel_def expire_def order_apply_fill_def require_state_def Let_def
      dest: updated_error split: if_splits)

lemmas order_call_error = order_exec_error [of "Cancel at" for at, simplified]
  order_exec_error [of "Expire at" for at, simplified] order_exec_error [of "Accept at" for at, simplified]
  order_exec_error [of "Fill i q p at" for i q p at, simplified]

lemma proposed_error: "proposed i = Inl e \<Longrightarrow> \<not> is_assertion e"
  using validate_tracked_error by (auto simp: proposed_def Let_def split: sum.splits)

lemma validate_lines_error: "validate_lines ls = Inl e \<Longrightarrow> \<not> is_assertion e"
  by (induction ls) (auto simp: validate_lines.simps validate_sides_def split: sum.splits elim!: checks_value_error)

abbreviation calm :: "'a res \<times> 's \<Rightarrow> bool" where
  "calm r \<equiv> yields (\<lambda>_ _. True) r"

lemma calm_and_then: "calm r \<Longrightarrow> (\<And>x s. calm (f x s)) \<Longrightarrow> calm (and_then r f)"
  by (rule yields_and_then) auto

lemma calm_error: "calm r \<Longrightarrow> r = (Inl e, t) \<Longrightarrow> \<not> is_assertion e"
  by simp

lemma calm_append_journal: "calm (append_journal i at r ls s)"
  using validate_lines_error checks_value_error
  by (fastforce simp: append_journal_def Let_def validate_entry_def split: sum.splits)

lemma reserve_error: "reserve i s = (Inl e, t) \<Longrightarrow> \<exists>m. e = ReservationRejected m"
proof -
  assume "reserve i s = (Inl e, t)"
  then have "checks (reserve_checks i s) = Inl e" by (auto simp: reserve_def split: sum.splits)
  moreover have "checks gs = Inl e \<Longrightarrow> \<exists>b. (b, e) \<in> set gs" for gs
    by (induction gs rule: checks.induct) (auto simp: checks.simps split: if_splits)
  ultimately show ?thesis by (force simp: reserve_checks_def Let_def)
qed

lemma calm_buy_fill: "calm (buy_fill f rv s)"
  unfolding buy_fill_def Let_def by (auto intro!: calm_and_then calm_append_journal)

lemma calm_sell_fill: "calm (sell_fill f s)"
  unfolding sell_fill_def Let_def consume_fifo_def
  by (auto intro!: calm_and_then calm_append_journal split: prod.splits)

lemma calm_ledger_apply_fill: "calm (ledger_apply_fill f s)"
  unfolding ledger_apply_fill_def
  by (auto intro!: calm_and_then calm_buy_fill calm_sell_fill split: option.splits)

lemma calm_checks:
  "(\<And>b x. (b, x) \<in> set gs \<Longrightarrow> \<not> is_assertion x) \<Longrightarrow> (\<And>u. calm (f u)) \<Longrightarrow>
   calm (case checks gs of Inl e \<Rightarrow> (Inl e, s) | Inr u \<Rightarrow> f u)"
  using checks_value_error by (auto split: sum.splits)

lemma calm_actions:
  "calm (apply_split a i k at s)" "calm (apply_dividend a i c at s)" "calm (apply_delisting a i c at s)"
  unfolding apply_split_def apply_dividend_def apply_delisting_def Let_def
  by (auto intro!: calm_checks calm_and_then calm_append_journal
      simp: require_new_event_def require_no_reservations_def)

text \<open>A validated order never trips the assertions of the fill model.\<close>

lemma exchange_match_error:
  assumes "exchange_match H pol t b as_of sb = Inl e" and "validate_intent (to_intent t) = Inr ()"
  shows "\<not> is_assertion e"
proof -
  let ?i = "to_intent t"
  have lim: "oi_kind ?i \<in> {LIMIT, STOP_LIMIT} \<Longrightarrow> \<exists>l. oi_limit_price ?i = Some l"
    and stop: "oi_kind ?i \<in> {STOP_MARKET, STOP_LIMIT} \<Longrightarrow> \<exists>l. oi_stop_price ?i = Some l"
    using assms(2) by (auto simp: validate_intent_def)
  have "reference_price ?i b \<noteq> Inl x" for x
    using lim stop unfolding reference_price_def Let_def
    by (cases "oi_kind ?i") (auto simp: bind_res_def asserted_def split: if_splits)
  moreover have "limit_capped ?i p \<noteq> Inl x" for p x
    using lim unfolding limit_capped_def by (auto simp: bind_res_def asserted_def)
  moreover have "validate_fill f = Inl x \<Longrightarrow> \<not> is_assertion x" for f x
    unfolding validate_fill_def by (erule checks_value_error) auto
  ultimately show ?thesis using assms(1) unfolding exchange_match_def Let_def
    by (auto simp: bind_res_def split: if_splits sum.splits option.splits)
qed

subsection \<open>Orders and reservations correspond\<close>

definition orders_ok :: "replay_state \<Rightarrow> bool" where
  "orders_ok s = (distinct (map order_key (rs_orders s)) \<and> (\<forall>t \<in> set (rs_orders s). tracked_ok t))"

definition reserved_for :: "sim_reservation \<Rightarrow> tracked_order \<Rightarrow> bool" where
  "reserved_for r t = (rv_order_id r = order_key t \<and> rv_instrument_id r = oi_instrument_id (to_intent t) \<and>
     rv_side r = oi_side (to_intent t) \<and> rv_oco_group_id r = oi_oco_group_id (to_intent t) \<and>
     (rv_side r = SELL \<longrightarrow> rv_remaining_quantity r = of_int (remaining_quantity t)))"

text \<open>\<open>A\<close> holds the orders that are filled and whose reservation is about to be released.\<close>

definition engine_linked :: "string set \<Rightarrow> replay_state \<Rightarrow> bool" where
  "engine_linked A s =
     ((\<forall>r \<in> set (lg_reservations (rs_ledger s)). rv_order_id r \<notin> A \<longrightarrow>
         (\<exists>t \<in> set (rs_orders s). live t \<and> reserved_for r t)) \<and>
      (\<forall>t \<in> set (rs_orders s). live t \<longrightarrow> order_key t \<notin> A \<and>
         (\<exists>r \<in> set (lg_reservations (rs_ledger s)). rv_order_id r = order_key t)) \<and>
      (\<forall>a \<in> A. \<exists>r \<in> set (lg_reservations (rs_ledger s)). rv_order_id r = a))"

text \<open>\<open>Q\<close> is what is known of every fill, \<open>E\<close> the equity curve so far.\<close>

definition engine_ok :: "(fill_event \<Rightarrow> bool) \<Rightarrow> equity_point list \<Rightarrow> string set \<Rightarrow> replay_state \<Rightarrow> bool" where
  "engine_ok Q E A s = (ledger_ok (rs_ledger s) \<and> orders_ok s \<and> engine_linked A s \<and> (\<forall>f \<in> set (rs_fills s). Q f) \<and>
     rs_equity s = E)"

lemma set_upsert:
  assumes "distinct (map key xs)"
  shows "set (upsert key (\<lambda>_ new. new) x xs) = insert x {y \<in> set xs. key y \<noteq> key x}"
    and "distinct (map key (upsert key (\<lambda>_ new. new) x xs))"
proof -
  have "map key (update_where (\<lambda>r. key r = key x) (\<lambda>r. x) xs) = map key xs" by (induction xs) auto
  then show "distinct (map key (upsert key (\<lambda>_ new. new) x xs))"
    using assms by (auto simp: upsert_def list_ex_iff simp del: map_update_where)
  show "set (upsert key (\<lambda>_ new. new) x xs) = insert x {y \<in> set xs. key y \<noteq> key x}"
    by (auto simp: upsert_def list_ex_iff set_update_where)
qed

lemma set_order_simps [simp]:
  "rs_ledger (set_order t s) = rs_ledger s" "rs_fills (set_order t s) = rs_fills s"
  "rs_decisions (set_order t s) = rs_decisions s" "rs_equity (set_order t s) = rs_equity s"
  by (simp_all add: set_order_def)

lemma set_order_orders:
  assumes "orders_ok s"
  shows "set (rs_orders (set_order t s)) = insert t {x \<in> set (rs_orders s). order_key x \<noteq> order_key t}"
    and "tracked_ok t \<Longrightarrow> orders_ok (set_order t s)"
  using assms set_upsert [of order_key "rs_orders s" t] by (auto simp: orders_ok_def set_order_def)

lemma get_order_Some: "get_order oid s = Some t \<Longrightarrow> t \<in> set (rs_orders s) \<and> order_key t = oid"
  using find_Some_set by (force simp: get_order_def)

lemma yields_with_order:
  assumes "\<And>t. t \<in> set (rs_orders s) \<Longrightarrow> order_key t = oid \<Longrightarrow> yields Q (f t s)"
  shows "yields Q (with_order oid f s)"
  using assms get_order_Some by (auto simp: with_order_def split: option.splits)

lemma release_order_simps [simp]:
  "rs_orders (release_order oid s) = rs_orders s" "rs_fills (release_order oid s) = rs_fills s"
  "rs_ledger (release_order oid s) = release oid (rs_ledger s)"
  "rs_decisions (release_order oid s) = rs_decisions s" "rs_equity (release_order oid s) = rs_equity s"
  by (simp_all add: release_order_def)

lemma release_reservations [simp]:
  "lg_reservations (release oid l) = filter (\<lambda>r. rv_order_id r \<noteq> oid) (lg_reservations l)"
  by (simp add: release_def)

lemma reserved_for_id: "reserved_for r t \<Longrightarrow> rv_order_id r = order_key t"
  by (simp add: reserved_for_def)

text \<open>Retiring a live order: it leaves the book and its reservation goes.\<close>

lemma linked_retire:
  assumes "engine_linked A s" and "orders_ok s" and "t \<in> set (rs_orders s)" and "live t"
    and "order_key u = order_key t" and "\<not> live u"
  shows "engine_linked A (release_order (order_key u) (set_order u s))"
proof -
  let ?s' = "release_order (order_key u) (set_order u s)"
  have orders: "set (rs_orders ?s') = insert u {x \<in> set (rs_orders s). order_key x \<noteq> order_key t}"
    using set_order_orders(1) [OF assms(2), of u] assms(5) by simp
  have res: "set (lg_reservations (rs_ledger ?s')) = {r \<in> set (lg_reservations (rs_ledger s)). rv_order_id r \<noteq> order_key t}"
    using assms(5) by auto
  have "order_key t \<notin> A" using assms(1,3,4) by (simp add: engine_linked_def)
  then show ?thesis
    using assms(1,6) reserved_for_id unfolding engine_linked_def orders res by fastforce
qed

lemma retire_ok:
  assumes "engine_ok Q E A s" and "t \<in> set (rs_orders s)" and "live t"
    and "\<And>u. r = Inr u \<Longrightarrow> tracked_ok u \<and> order_key u = order_key t \<and> \<not> live u"
    and "\<And>e. r = Inl e \<Longrightarrow> \<not> is_assertion e"
  shows "yields (\<lambda>_ s'. engine_ok Q E A s' \<and> (\<forall>x \<in> set (rs_orders s). order_key x \<noteq> order_key t \<longrightarrow> x \<in> set (rs_orders s')))
    (retire r s)"
proof (cases r)
  case (Inl e)
  then show ?thesis using assms(5) by (simp add: retire_def)
next
  case (Inr u)
  have u: "tracked_ok u" "order_key u = order_key t" "\<not> live u" using assms(4) [OF Inr] by auto
  have old: "ledger_ok (rs_ledger s)" "orders_ok s" "engine_linked A s" using assms(1) by (simp_all add: engine_ok_def)
  have "orders_ok (release_order (order_key u) (set_order u s))"
    using set_order_orders(2) [OF old(2) u(1)] by (simp add: orders_ok_def)
  moreover have "engine_linked A (release_order (order_key u) (set_order u s))"
    by (rule linked_retire [OF old(3,2) assms(2,3) u(2,3)])
  ultimately show ?thesis
    using Inr assms(1) release_ledger_ok [OF old(1)] set_order_orders(1) [OF old(2), of u] u(2)
    by (auto simp: retire_def engine_ok_def)
qed

lemma cancelled_facts:
  assumes "tracked_ok t" and "live t"
  shows "order_cancel t at = Inr u \<Longrightarrow> tracked_ok u \<and> order_key u = order_key t \<and> \<not> live u"
    and "expire t at = Inr u \<Longrightarrow> tracked_ok u \<and> order_key u = order_key t \<and> \<not> live u"
proof -
  assume c: "order_cancel t at = Inr u"
  then have "tracked_ok u \<and> to_intent u = to_intent t" using order_exec_keeps [of "Cancel at" t u] assms(1) by simp
  moreover have "to_state u = CANCELLED" using c by (simp add: state_call_ok(3))
  ultimately show "tracked_ok u \<and> order_key u = order_key t \<and> \<not> live u" by (simp add: live_def)
next
  assume c: "expire t at = Inr u"
  then have "tracked_ok u \<and> to_intent u = to_intent t" using order_exec_keeps [of "Expire at" t u] assms(1) by simp
  moreover have "to_state u = EXPIRED" using c by (simp add: state_call_ok(4))
  ultimately show "tracked_ok u \<and> order_key u = order_key t \<and> \<not> live u" by (simp add: live_def)
qed

text \<open>Cancelling or expiring a live order keeps the invariant and every other order.\<close>

lemma retire_cancel_ok:
  assumes "engine_ok Q E A s" and "t \<in> set (rs_orders s)" and "live t" and "r = order_cancel t at \<or> r = expire t at"
  shows "yields (\<lambda>_ s'. engine_ok Q E A s' \<and> (\<forall>x \<in> set (rs_orders s). order_key x \<noteq> order_key t \<longrightarrow> x \<in> set (rs_orders s')))
    (retire r s)"
proof (rule retire_ok [OF assms(1-3)])
  have ok: "tracked_ok t" using assms(1,2) by (simp add: engine_ok_def orders_ok_def)
  show "tracked_ok u \<and> order_key u = order_key t \<and> \<not> live u" if "r = Inr u" for u
    using assms(4)
  proof
    assume "r = order_cancel t at"
    then show ?thesis using cancelled_facts(1) [OF ok assms(3), of at u] that by simp
  next
    assume "r = expire t at"
    then show ?thesis using cancelled_facts(2) [OF ok assms(3), of at u] that by simp
  qed
  show "\<not> is_assertion e" if "r = Inl e" for e
    using assms(4) that order_call_error(1) [of t at e] order_call_error(2) [of t at e] by auto
qed

lemma engine_order_ok: "engine_ok Q E A s \<Longrightarrow> t \<in> set (rs_orders s) \<Longrightarrow> tracked_ok t"
  by (simp add: engine_ok_def orders_ok_def)

text \<open>The three loops that retire orders. An order the loop does not select stays.\<close>

lemma expire_orders_ok:
  assumes "engine_ok Q E A s"
  shows "yields (\<lambda>_. engine_ok Q E A) (expire_orders as_of s)"
  unfolding expire_orders_def
proof (rule yields_for_each)
  fix oid s assume ok: "engine_ok Q E A s"
  show "yields (\<lambda>_. engine_ok Q E A) (with_order oid (\<lambda>t s. case oi_expires_at (to_intent t) of None \<Rightarrow> (Inr (), s)
     | Some e \<Rightarrow> if as_of > e \<and> live t then retire (expire t e) s else (Inr (), s)) s)"
  proof (rule yields_with_order)
    fix t assume t: "t \<in> set (rs_orders s)" "order_key t = oid"
    have "live t \<Longrightarrow> yields (\<lambda>_. engine_ok Q E A) (retire (expire t e) s)" for e
      by (rule yields_mono [OF retire_cancel_ok [OF ok t(1)]]) auto
    then show "yields (\<lambda>_. engine_ok Q E A) (case oi_expires_at (to_intent t) of None \<Rightarrow> (Inr (), s)
       | Some e \<Rightarrow> if as_of > e \<and> live t then retire (expire t e) s else (Inr (), s))"
      using ok by (auto split: option.splits)
  qed
qed (rule assms)

lemma cancel_loop_ok:
  assumes "engine_ok Q E A s" and "\<And>t. t \<in> K \<Longrightarrow> t \<in> set (rs_orders s)"
    and "\<And>t u. t \<in> K \<Longrightarrow> order_key u = order_key t \<Longrightarrow> \<not> sel (order_key t) u"
  shows "yields (\<lambda>_ s'. engine_ok Q E A s' \<and> K \<subseteq> set (rs_orders s'))
    (for_each (\<lambda>oid. with_order oid (\<lambda>t s. if sel oid t \<and> live t then retire (order_cancel t at) s else (Inr (), s))) oids s)"
proof (rule yields_for_each)
  show "engine_ok Q E A s \<and> K \<subseteq> set (rs_orders s)" using assms(1,2) by auto
  fix oid s assume I: "engine_ok Q E A s \<and> K \<subseteq> set (rs_orders s)"
  show "yields (\<lambda>_ s'. engine_ok Q E A s' \<and> K \<subseteq> set (rs_orders s'))
    (with_order oid (\<lambda>t s. if sel oid t \<and> live t then retire (order_cancel t at) s else (Inr (), s)) s)"
  proof (rule yields_with_order)
    fix t assume t: "t \<in> set (rs_orders s)" "order_key t = oid"
    have "yields (\<lambda>_ s'. engine_ok Q E A s' \<and> K \<subseteq> set (rs_orders s')) (retire (order_cancel t at) s)"
      if sel: "sel oid t" "live t"
    proof -
      have other: "x \<in> K \<Longrightarrow> order_key x \<noteq> order_key t" for x using assms(3) [of x t] sel t(2) by auto
      show ?thesis
        by (rule yields_mono [OF retire_cancel_ok [OF conjunct1 [OF I] t(1) sel(2)]]) (use other I in auto)
    qed
    then show "yields (\<lambda>_ s'. engine_ok Q E A s' \<and> K \<subseteq> set (rs_orders s'))
      (if sel oid t \<and> live t then retire (order_cancel t at) s else (Inr (), s))" using I by simp
  qed
qed

lemma cancel_orders_for_action_ok:
  assumes "engine_ok Q E A s"
  shows "yields (\<lambda>_. engine_ok Q E A) (cancel_orders_for_action i at s)"
  using cancel_loop_ok [OF assms, of "{}" "\<lambda>oid t. oi_instrument_id (to_intent t) = i"]
  by (auto simp: cancel_orders_for_action_def elim!: yields_mono)

lemma cancel_oco_siblings_ok:
  assumes "engine_ok Q E A s" and "t \<in> set (rs_orders s)"
  shows "yields (\<lambda>_ s'. engine_ok Q E A s' \<and> t \<in> set (rs_orders s')) (cancel_oco_siblings t at s)"
proof (cases "oi_oco_group_id (to_intent t)")
  case None
  then show ?thesis using assms by (simp add: cancel_oco_siblings_def)
next
  case (Some g)
  then show ?thesis
    using cancel_loop_ok [OF assms(1), of "{t}" "\<lambda>oid u. oid \<noteq> order_key t \<and> oi_oco_group_id (to_intent u) = Some g"] assms(2)
    by (auto simp: cancel_oco_siblings_def conj_assoc elim!: yields_mono)
qed

subsection \<open>Booking a fill\<close>

lemma append_journal_Inr:
  "append_journal i at r ls s = (Inr u, t) \<Longrightarrow> i \<notin> journal_ids s \<and> validate_lines ls = Inr ()"
  by (auto simp: append_journal_def journal_ids_def list_ex_iff Let_def split: sum.splits if_splits)

lemma fill_success_allowed:
  assumes "ledger_ok s" and "validate_fill f = Inr ()" and "ledger_apply_fill f s = (Inr u, t)"
  shows "fill_allowed f"
proof -
  obtain rv v w where inner: "(if fe_side f = BUY then buy_fill f rv s else sell_fill f s) = (Inr v, w)"
    using assms(3) by (auto simp: ledger_apply_fill_def and_then_Inr_iff split: if_splits option.splits)
  have "fe_fill_id f \<notin> journal_ids s \<and> (fe_side f = SELL \<longrightarrow> fe_commission f \<le> fe_price f * of_int (fe_quantity f))"
  proof (cases "fe_side f")
    case BUY
    then show ?thesis using inner
      by (auto simp: buy_fill_def Let_def and_then_Inr_iff dest!: append_journal_Inr split: if_splits)
  next
    case SELL
    then obtain basis l1 l2 where "consume_fifo (fe_instrument_id f) (of_int (fe_quantity f)) s = (Inr basis, l1)"
      and "append_journal (fe_fill_id f) (fe_occurred_at f) ''sell_fill'' (sell_lines f basis)
        (append_cash (fe_fill_id f) (fe_occurred_at f) (fill_proceeds f) ''sell_fill'' (fe_order_id f) True l1) = (Inr (), l2)"
      using inner by (auto simp: sell_fill_def Let_def and_then_Inr_iff sell_lines_def fill_proceeds_def)
    moreover from this(1) have "journal_ids l1 = journal_ids s"
      by (auto simp: consume_fifo_def journal_ids_def split: prod.splits if_splits)
    ultimately show ?thesis
      using append_journal_Inr by (fastforce simp: validate_lines_ok sell_lines_def fill_proceeds_def)
  qed
  then show ?thesis using assms(1,2) by (auto simp: fill_allowed_def ledger_ok_def books_ok_def)
qed

lemma apply_fill_success:
  assumes "ledger_ok s" and "validate_fill f = Inr ()" and "ledger_apply_fill f s = (Inr u, t)"
  shows "ledger_ok t" and "lg_reservations t = update_where (\<lambda>r. rv_order_id r = fe_order_id f) (fill_update f) (lg_reservations s)"
    and "\<exists>rv \<in> set (lg_reservations s). rv_order_id rv = fe_order_id f"
proof -
  note ok = fill_success_allowed [OF assms]
  show "ledger_ok t" using apply_fill_ledger_ok [OF assms(1) ok] assms(3) by simp
  have "lg_reservations t = update_where (\<lambda>r. rv_order_id r = fe_order_id f) (fill_update f) (lg_reservations s) \<and>
    (\<exists>rv \<in> set (lg_reservations s). rv_order_id rv = fe_order_id f)"
    using assms(1) ok by (cases rule: apply_fill_cases) (use assms(3) in auto)
  then show "lg_reservations t = update_where (\<lambda>r. rv_order_id r = fe_order_id f) (fill_update f) (lg_reservations s)"
    and "\<exists>rv \<in> set (lg_reservations s). rv_order_id rv = fe_order_id f" by auto
qed

definition pending :: "tracked_order \<Rightarrow> string set \<Rightarrow> string set" where
  "pending t A = (if remaining_quantity t = 0 then insert (order_key t) A else A)"

lemma reserved_for_fill:
  assumes "reserved_for r t" and "fe_side f = oi_side (to_intent t)"
    and "to_intent t' = to_intent t" and "remaining_quantity t' = remaining_quantity t - fe_quantity f"
  shows "reserved_for (fill_update f r) t'"
  using assms by (auto simp: reserved_for_def fill_update_def)

lemma linked_fill:
  assumes "engine_linked A s" and "orders_ok s" and "t \<in> set (rs_orders s)" and "live t"
    and "fe_order_id f = order_key t" and "fe_side f = oi_side (to_intent t)"
    and "lg_reservations l = update_where (\<lambda>r. rv_order_id r = fe_order_id f) (fill_update f) (lg_reservations (rs_ledger s))"
    and t': "to_intent t' = to_intent t" "remaining_quantity t' = remaining_quantity t - fe_quantity f"
      "live t' \<longleftrightarrow> remaining_quantity t' \<noteq> 0"
  shows "engine_linked (pending t' A) (set_order t' (s\<lparr>rs_ledger := l\<rparr>))"
proof -
  let ?s' = "set_order t' (s\<lparr>rs_ledger := l\<rparr>)"
  let ?R = "set (lg_reservations (rs_ledger s))"
  let ?k = "order_key t"
  have orders: "set (rs_orders ?s') = insert t' {x \<in> set (rs_orders s). order_key x \<noteq> ?k}"
    using set_order_orders(1) [of "s\<lparr>rs_ledger := l\<rparr>" t'] assms(2) t'(1) by (simp add: orders_ok_def)
  have res: "set (lg_reservations (rs_ledger ?s')) = (\<lambda>r. if rv_order_id r = ?k then fill_update f r else r) ` ?R"
    using assms(5,7) by (simp add: set_update_where)
  have ids: "(\<exists>r \<in> set (lg_reservations (rs_ledger ?s')). rv_order_id r = a) \<longleftrightarrow> (\<exists>r \<in> ?R. rv_order_id r = a)" for a
  proof -
    have "rv_order_id (if rv_order_id r = ?k then fill_update f r else r) = rv_order_id r" for r by simp
    then show ?thesis unfolding res by (simp only: bex_simps)
  qed
  have k: "?k \<notin> A" "\<exists>r \<in> ?R. rv_order_id r = ?k" using assms(1,3,4) by (auto simp: engine_linked_def)
  have same: "x \<in> set (rs_orders s) \<Longrightarrow> order_key x = ?k \<Longrightarrow> x = t" for x
    using same_key_same_row [of order_key "rs_orders s" x t] assms(2,3) by (simp add: orders_ok_def)
  show ?thesis
    unfolding engine_linked_def ids
  proof (intro conjI ballI impI)
    fix r' assume r': "r' \<in> set (lg_reservations (rs_ledger ?s'))" "rv_order_id r' \<notin> pending t' A"
    then obtain r where r: "r \<in> ?R" "r' = (if rv_order_id r = ?k then fill_update f r else r)" unfolding res by blast
    then have id: "rv_order_id r' = rv_order_id r" by simp
    then have "rv_order_id r \<notin> A" using r'(2) by (auto simp: pending_def split: if_splits)
    then obtain t0 where t0: "t0 \<in> set (rs_orders s)" "live t0" "reserved_for r t0"
      using assms(1) r(1) by (auto simp: engine_linked_def)
    show "\<exists>x \<in> set (rs_orders ?s'). live x \<and> reserved_for r' x"
    proof (cases "rv_order_id r = ?k")
      case True
      then have "t0 = t" using same [OF t0(1)] reserved_for_id [OF t0(3)] by simp
      then have "reserved_for r' t'" using reserved_for_fill [OF _ assms(6) t'(1,2)] t0(3) r(2) True by simp
      moreover have "live t'" using r'(2) id True t'(1,3) by (auto simp: pending_def)
      ultimately show ?thesis using orders by auto
    next
      case False
      then show ?thesis using t0 r(2) reserved_for_id [OF t0(3)] orders by auto
    qed
  next
    fix x assume x: "x \<in> set (rs_orders ?s')" "live x"
    show "order_key x \<notin> pending t' A"
      using x k(1) t' assms(1) orders by (auto simp: pending_def engine_linked_def)
    show "\<exists>r \<in> ?R. rv_order_id r = order_key x"
      using x k(2) t'(1) assms(1) orders by (auto simp: engine_linked_def)
  next
    fix a assume "a \<in> pending t' A"
    then show "\<exists>r \<in> ?R. rv_order_id r = a"
      using k(2) t'(1) assms(1) by (auto simp: pending_def engine_linked_def split: if_splits)
  qed
qed

lemma book_fill_ok:
  assumes ok: "engine_ok Q E A s" and "t \<in> set (rs_orders s)" and "live t"
    and m: "exchange_match H pol t b as_of sb = Inr (Some f)" and "Q f"
  shows "yields (\<lambda>t' s'. engine_ok Q E (pending t' A) s' \<and> order_key t' = order_key t \<and> order_key t \<notin> A \<and>
      tracked_ok t' \<and> to_state t' \<in> {FILLED, PARTIALLY_FILLED} \<and> to_intent t' = to_intent t) (book_fill t f s)"
  unfolding book_fill_def
proof (rule yields_and_then [OF cancel_oco_siblings_ok [OF ok assms(2)]])
  fix x :: unit and s1 assume s1: "engine_ok Q E A s1 \<and> t \<in> set (rs_orders s1)"
  have f: "validate_fill f = Inr ()" "fe_order_id f = order_key t" "fe_side f = oi_side (to_intent t)"
    using m by (auto simp: exchange_match_iff)
  have old: "ledger_ok (rs_ledger s1)" "orders_ok s1" "engine_linked A s1" using s1 by (simp_all add: engine_ok_def)
  show "yields (\<lambda>t' s'. engine_ok Q E (pending t' A) s' \<and> order_key t' = order_key t \<and> order_key t \<notin> A \<and>
      tracked_ok t' \<and> to_state t' \<in> {FILLED, PARTIALLY_FILLED} \<and> to_intent t' = to_intent t)
    (and_then (on_ledger (ledger_apply_fill f) s1) (\<lambda>_ s.
       case order_apply_fill t (fe_fill_id f) (fe_quantity f) (fe_price f) (fe_occurred_at f) of
         Inl e \<Rightarrow> (Inl e, s)
       | Inr t' \<Rightarrow> (Inr t', (set_order t' s)\<lparr>rs_fills := rs_fills s @ [f]\<rparr>)))"
  proof (rule yields_and_then)
    show "yields (\<lambda>_ s'. \<exists>l. s' = s1\<lparr>rs_ledger := l\<rparr> \<and> ledger_ok l \<and>
        lg_reservations l = update_where (\<lambda>r. rv_order_id r = fe_order_id f) (fill_update f) (lg_reservations (rs_ledger s1)))
      (on_ledger (ledger_apply_fill f) s1)"
      using calm_ledger_apply_fill [of f "rs_ledger s1"] apply_fill_success [OF old(1) f(1)]
      by (auto simp: on_ledger_def yields_def split: prod.splits sum.splits)
  next
    fix x :: unit and s2
    assume "\<exists>l. s2 = s1\<lparr>rs_ledger := l\<rparr> \<and> ledger_ok l \<and>
        lg_reservations l = update_where (\<lambda>r. rv_order_id r = fe_order_id f) (fill_update f) (lg_reservations (rs_ledger s1))"
    then obtain l where l: "s2 = s1\<lparr>rs_ledger := l\<rparr>" "ledger_ok l"
      "lg_reservations l = update_where (\<lambda>r. rv_order_id r = fe_order_id f) (fill_update f) (lg_reservations (rs_ledger s1))"
      by blast
    show "yields (\<lambda>t' s'. engine_ok Q E (pending t' A) s' \<and> order_key t' = order_key t \<and> order_key t \<notin> A \<and>
        tracked_ok t' \<and> to_state t' \<in> {FILLED, PARTIALLY_FILLED} \<and> to_intent t' = to_intent t)
      (case order_apply_fill t (fe_fill_id f) (fe_quantity f) (fe_price f) (fe_occurred_at f) of
         Inl e \<Rightarrow> (Inl e, s2)
       | Inr t' \<Rightarrow> (Inr t', (set_order t' s2)\<lparr>rs_fills := rs_fills s2 @ [f]\<rparr>))"
    proof (cases "order_apply_fill t (fe_fill_id f) (fe_quantity f) (fe_price f) (fe_occurred_at f)")
      case (Inl e)
      then show ?thesis using order_call_error(4) by auto
    next
      case (Inr t')
      have tok: "tracked_ok t" using s1 by (simp add: engine_ok_def orders_ok_def)
      have t': "tracked_ok t'" "to_intent t' = to_intent t"
        using order_exec_keeps [of "Fill (fe_fill_id f) (fe_quantity f) (fe_price f) (fe_occurred_at f)" t t'] Inr tok by simp_all
      have after: "t' = after_fill t (fe_fill_id f) (fe_quantity f) (fe_price f) (fe_occurred_at f)"
        using Inr by (simp add: order_apply_fill_ok)
      have rem: "remaining_quantity t' = remaining_quantity t - fe_quantity f" "live t' \<longleftrightarrow> remaining_quantity t' \<noteq> 0"
        "to_state t' \<in> {FILLED, PARTIALLY_FILLED}"
        unfolding after by (auto simp: after_fill_def remaining_quantity_def live_def)
      have "engine_linked (pending t' A) (set_order t' s2)"
        unfolding l(1) using linked_fill [OF old(3,2) _ assms(3) f(2,3) l(3) t'(2) rem(1,2)] s1 by simp
      moreover have "orders_ok (set_order t' s2)"
        using set_order_orders(2) [of s2 t'] old(2) t'(1) l(1) by (simp add: orders_ok_def)
      moreover have "order_key t \<notin> A" using old(3) s1 assms(3) by (simp add: engine_linked_def)
      ultimately show ?thesis using Inr s1 l t' rem(3) assms(5)
        by (auto simp: engine_ok_def orders_ok_def engine_linked_def)
    qed
  qed
qed

subsection \<open>Placing an order\<close>

lemma accepted_facts:
  assumes "bind_res (proposed i) (\<lambda>t. accept t at) = Inr t"
  shows "tracked_ok t" "to_intent t = i" "live t" "remaining_quantity t = oi_quantity i"
proof -
  obtain u where u: "proposed i = Inr u" "accept u at = Inr t" using assms by auto
  then have "tracked_ok t \<and> to_intent t = to_intent u"
    using order_exec_keeps [of "Accept at" u t] proposed_ok [OF u(1)] by simp
  moreover have "to_intent u = i" "to_filled_quantity u = 0" using u(1) by (simp_all add: proposed_iff)
  moreover have "t = u\<lparr>to_state := ACCEPTED, to_last_event_at := at\<rparr>" using u(2) by (simp add: state_call_ok(1))
  ultimately show "tracked_ok t" "to_intent t = i" "live t" "remaining_quantity t = oi_quantity i"
    by (simp_all add: live_def remaining_quantity_def)
qed

lemma accepted_error: "bind_res (proposed i) (\<lambda>t. accept t at) = Inl e \<Longrightarrow> \<not> is_assertion e"
  using proposed_error order_call_error(3) by (auto simp: bind_res_def split: sum.splits)

lemma linked_place:
  assumes "engine_linked A s" and "orders_ok s" and "\<forall>r \<in> set (lg_reservations (rs_ledger s)). rv_order_id r \<noteq> order_key t"
    and "lg_reservations l = lg_reservations (rs_ledger s) @ [r]" and "live t" and "reserved_for r t"
  shows "engine_linked A (set_order t (s\<lparr>rs_ledger := l\<rparr>))"
proof -
  let ?s' = "set_order t (s\<lparr>rs_ledger := l\<rparr>)"
  have orders: "set (rs_orders ?s') = insert t {x \<in> set (rs_orders s). order_key x \<noteq> order_key t}"
    using set_order_orders(1) [of "s\<lparr>rs_ledger := l\<rparr>" t] assms(2) by (simp add: orders_ok_def)
  have res: "set (lg_reservations (rs_ledger ?s')) = insert r (set (lg_reservations (rs_ledger s)))"
    using assms(4) by simp
  have "order_key t \<notin> A" using assms(1,3) by (auto simp: engine_linked_def)
  then show ?thesis
    using assms(1,3,5,6) reserved_for_id unfolding engine_linked_def orders res by fastforce
qed

lemma placed_ok:
  assumes "engine_ok Q E A s" and "validate_intent i = Inr ()"
    and "reserve i (rs_ledger s) = (Inr u, l)" and "bind_res (proposed i) (\<lambda>t. accept t at) = Inr t"
  shows "engine_ok Q E A (set_order t (s\<lparr>rs_ledger := l\<rparr>))"
proof -
  have old: "ledger_ok (rs_ledger s)" "orders_ok s" "engine_linked A s" using assms(1) by (simp_all add: engine_ok_def)
  note t = accepted_facts [OF assms(4)]
  have l: "lg_reservations l = lg_reservations (rs_ledger s) @ [new_reservation i (rs_ledger s)]"
    and ch: "\<forall>(b, e) \<in> set (reserve_checks i (rs_ledger s)). b"
    using reserve_cases(2) [OF assms(3)] by auto
  have fresh: "\<forall>r \<in> set (lg_reservations (rs_ledger s)). rv_order_id r \<noteq> order_key t"
    using ch t(2) by (simp add: reserve_checks_def Let_def list_ex_iff)
  have "reserved_for (new_reservation i (rs_ledger s)) t"
    using t(2,4) by (simp add: reserved_for_def)
  then have "engine_linked A (set_order t (s\<lparr>rs_ledger := l\<rparr>))"
    using linked_place [OF old(3,2) fresh l t(3)] by simp
  moreover have "ledger_ok l" using reserve_ledger_ok [OF old(1) assms(2)] assms(3) by simp
  moreover have "orders_ok (set_order t (s\<lparr>rs_ledger := l\<rparr>))"
    using set_order_orders(2) [OF _ t(1), of "s\<lparr>rs_ledger := l\<rparr>"] old(2) by (simp add: orders_ok_def)
  ultimately show ?thesis using assms(1) by (simp add: engine_ok_def)
qed

lemma place_ok:
  assumes "engine_ok Q E A s" and "validate_intent i = Inr ()"
  shows "yields (\<lambda>_. engine_ok Q E A) (place i at s)"
proof (cases "reserve i (rs_ledger s)")
  case (Pair r l)
  then show ?thesis
  proof (cases r)
    case (Inl e)
    then show ?thesis using Pair reserve_error [of i "rs_ledger s" e l] by (auto simp: place_def on_ledger_def)
  next
    case (Inr u)
    show ?thesis
    proof (cases "bind_res (proposed i) (\<lambda>t. accept t at)")
      case (Inl e)
      then show ?thesis using Pair Inr accepted_error by (auto simp: place_def on_ledger_def)
    next
      case acc: (Inr t)
      then show ?thesis using placed_ok [OF assms _ acc, of u l] Pair Inr
        by (simp add: place_def on_ledger_def del: bind_res_ok)
    qed
  qed
qed

subsection \<open>Bars, actions, decisions, frames\<close>

lemma validate_intents_ok: "validate_intents is = Inr () \<longleftrightarrow> (\<forall>i \<in> set is. validate_intent i = Inr ())"
  by (induction "is") auto

lemma validate_intents_error: "validate_intents is = Inl e \<Longrightarrow> \<not> is_assertion e"
  using validate_intent_error by (induction "is") (auto simp: bind_res_def split: sum.splits)

lemma create_protection_ok:
  assumes "engine_ok Q E A s"
  shows "yields (\<lambda>_. engine_ok Q E A) (create_protection H t f s)"
proof (cases "oi_protective_stop (to_intent t)")
  case None
  then show ?thesis by (simp add: create_protection_def)
next
  case (Some stop)
  show ?thesis
  proof (cases "validate_intents (protection_intents H t f stop)")
    case (Inl e)
    then show ?thesis using Some validate_intents_error by (simp add: create_protection_def Let_def)
  next
    case (Inr u)
    then have "yields (\<lambda>_. engine_ok Q E A) (for_each (\<lambda>i. place i (fe_occurred_at f)) (protection_intents H t f stop) s)"
      using assms validate_intents_ok place_ok by (intro yields_for_each) auto
    then have "yields (\<lambda>_. engine_ok Q E A) (and_then (for_each (\<lambda>i. place i (fe_occurred_at f)) (protection_intents H t f stop) s)
        (\<lambda>_ s. (Inr (map oi_order_id (protection_intents H t f stop)), s)))"
      by (rule yields_and_then) simp
    then show ?thesis using Some Inr by (simp add: create_protection_def Let_def)
  qed
qed

lemma replace_oco_sibling_ok:
  assumes "engine_ok Q E A s"
  shows "yields (\<lambda>_. engine_ok Q E A) (replace_oco_sibling H t f s)"
  using assms place_ok [OF assms] validate_intent_error
  by (simp add: replace_oco_sibling_def Let_def split: option.splits sum.splits)

lemma release_pending_ok:
  assumes "engine_ok Q E (pending t A) s" and "order_key t = oid" and "oid \<notin> A"
  shows "engine_ok Q E A (if remaining_quantity t = 0 then release_order oid s else s)"
proof (cases "remaining_quantity t = 0")
  case True
  then have ok: "engine_ok Q E (insert oid A) s" using assms(1,2) by (simp add: pending_def)
  have res: "set (lg_reservations (rs_ledger (release_order oid s))) =
      {r \<in> set (lg_reservations (rs_ledger s)). rv_order_id r \<noteq> oid}" by auto
  have "engine_linked (insert oid A) s" using ok by (simp add: engine_ok_def)
  then have "engine_linked A (release_order oid s)"
    using assms(3) unfolding engine_linked_def res by fastforce
  then show ?thesis using True ok release_ledger_ok by (simp add: engine_ok_def orders_ok_def)
next
  case False
  then show ?thesis using assms(1) by (simp add: pending_def)
qed

lemma same_bar_loop_ok:
  assumes "engine_ok Q E A s" and "\<And>t f. tracked_ok t \<Longrightarrow> exchange_match H pol t b as_of True = Inr (Some f) \<Longrightarrow> Q f"
  shows "yields (\<lambda>_. engine_ok Q E A) (same_bar_loop H pol oids b as_of s)"
  using assms(1)
proof (induction oids arbitrary: s)
  case (Cons oid oids)
  show ?case unfolding same_bar_loop.simps
  proof (rule yields_with_order)
    fix t assume t: "t \<in> set (rs_orders s)" "order_key t = oid"
    have tok: "tracked_ok t" using engine_order_ok [OF Cons.prems t(1)] .
    show "yields (\<lambda>_. engine_ok Q E A) (case exchange_match H pol t b as_of True of
       Inl e \<Rightarrow> (Inl e, s)
     | Inr None \<Rightarrow> same_bar_loop H pol oids b as_of s
     | Inr (Some f) \<Rightarrow> and_then (book_fill t f s) (\<lambda>t' s.
         (Inr (), if remaining_quantity t' = 0 then release_order oid s else s)))"
    proof (cases "exchange_match H pol t b as_of True")
      case (Inl e)
      then show ?thesis using exchange_match_error tok by (auto simp: tracked_ok_def)
    next
      case (Inr m)
      show ?thesis
      proof (cases m)
        case None
        then show ?thesis using Inr Cons by simp
      next
        case (Some f)
        have m: "exchange_match H pol t b as_of True = Inr (Some f)" using Inr Some by simp
        then have "live t" by (simp add: exchange_match_iff)
        have "yields (\<lambda>_. engine_ok Q E A) (and_then (book_fill t f s) (\<lambda>t' s.
            (Inr (), if remaining_quantity t' = 0 then release_order oid s else s)))"
        proof (rule yields_and_then [OF book_fill_ok [OF Cons.prems t(1) \<open>live t\<close> m assms(2) [OF tok m]]])
          fix t' s' assume "engine_ok Q E (pending t' A) s' \<and> order_key t' = order_key t \<and> order_key t \<notin> A \<and>
            tracked_ok t' \<and> to_state t' \<in> {FILLED, PARTIALLY_FILLED} \<and> to_intent t' = to_intent t"
          then show "yields (\<lambda>_. engine_ok Q E A) (Inr (), if remaining_quantity t' = 0 then release_order oid s' else s')"
            unfolding yields_simps using t(2) by (intro release_pending_ok) auto
        qed
        then show ?thesis using m by simp
      qed
    qed
  qed
qed simp

definition bar_fills :: "(fill_event \<Rightarrow> bool) \<Rightarrow> (json \<Rightarrow> string) \<Rightarrow> fill_policy \<Rightarrow> simulation_bar \<Rightarrow> time \<Rightarrow> bool" where
  "bar_fills Q H pol b as_of = (\<forall>t f sb. tracked_ok t \<and> exchange_match H pol t b as_of sb = Inr (Some f) \<longrightarrow> Q f)"

lemma match_order_ok:
  assumes "engine_ok Q E A s" and "bar_fills Q H pol b as_of"
  shows "yields (\<lambda>_. engine_ok Q E A) (match_order H pol b as_of oid s)"
  unfolding match_order_def
proof (rule yields_with_order)
  fix t assume t: "t \<in> set (rs_orders s)" "order_key t = oid"
  have tok: "tracked_ok t" using engine_order_ok [OF assms(1) t(1)] .
  show "yields (\<lambda>_. engine_ok Q E A) (case exchange_match H pol t b as_of False of
       Inl e \<Rightarrow> (Inl e, s)
     | Inr None \<Rightarrow> (Inr (), s)
     | Inr (Some f) \<Rightarrow>
       and_then (book_fill t f s) (\<lambda>t' s.
       and_then
         (if fe_side f = BUY
          then and_then (create_protection H t' f s) (\<lambda>ids. match_same_bar_protection H pol ids b as_of)
          else if to_state t' = PARTIALLY_FILLED then replace_oco_sibling H t' f s
          else (Inr (), s)) (\<lambda>_ s.
         (Inr (), if remaining_quantity t' = 0 then release_order oid s else s))))"
  proof (cases "exchange_match H pol t b as_of False")
    case (Inl e)
    then show ?thesis using exchange_match_error tok by (auto simp: tracked_ok_def)
  next
    case (Inr m)
    show ?thesis
    proof (cases m)
      case None
      then show ?thesis using Inr assms(1) by simp
    next
      case (Some f)
      have m: "exchange_match H pol t b as_of False = Inr (Some f)" using Inr Some by simp
      then have live: "live t" by (simp add: exchange_match_iff)
      have Qf: "Q f" using assms(2) tok m by (auto simp: bar_fills_def)
      have Qs: "tracked_ok x \<Longrightarrow> exchange_match H pol x b as_of True = Inr (Some g) \<Longrightarrow> Q g" for x g
        using assms(2) unfolding bar_fills_def by blast
      have after: "yields (\<lambda>_. engine_ok Q E B) (if fe_side f = BUY
          then and_then (create_protection H t' f s) (\<lambda>ids. match_same_bar_protection H pol ids b as_of)
          else if to_state t' = PARTIALLY_FILLED then replace_oco_sibling H t' f s
          else (Inr (), s))" if "engine_ok Q E B s" for B s t'
        using that replace_oco_sibling_ok [OF that]
        by (auto simp: match_same_bar_protection_def
            intro!: yields_and_then [OF create_protection_ok [OF that]] same_bar_loop_ok Qs)
      have "yields (\<lambda>_. engine_ok Q E A) (and_then (book_fill t f s) (\<lambda>t' s.
         and_then
           (if fe_side f = BUY
            then and_then (create_protection H t' f s) (\<lambda>ids. match_same_bar_protection H pol ids b as_of)
            else if to_state t' = PARTIALLY_FILLED then replace_oco_sibling H t' f s
            else (Inr (), s)) (\<lambda>_ s.
           (Inr (), if remaining_quantity t' = 0 then release_order oid s else s))))"
      proof (rule yields_and_then [OF book_fill_ok [OF assms(1) t(1) live m Qf]])
        fix t' s' assume s': "engine_ok Q E (pending t' A) s' \<and> order_key t' = order_key t \<and> order_key t \<notin> A \<and>
          tracked_ok t' \<and> to_state t' \<in> {FILLED, PARTIALLY_FILLED} \<and> to_intent t' = to_intent t"
        show "yields (\<lambda>_. engine_ok Q E A) (and_then
           (if fe_side f = BUY
            then and_then (create_protection H t' f s') (\<lambda>ids. match_same_bar_protection H pol ids b as_of)
            else if to_state t' = PARTIALLY_FILLED then replace_oco_sibling H t' f s'
            else (Inr (), s')) (\<lambda>_ s.
           (Inr (), if remaining_quantity t' = 0 then release_order oid s else s)))"
        proof (rule yields_and_then [OF after])
          show "engine_ok Q E (pending t' A) s'" using s' by simp
          show "yields (\<lambda>_. engine_ok Q E A) (Inr (), if remaining_quantity t' = 0 then release_order oid s'' else s'')"
            if "engine_ok Q E (pending t' A) s''" for s''
            unfolding yields_simps using t(2) s' that by (intro release_pending_ok) auto
        qed
      qed
      then show ?thesis using m by simp
    qed
  qed
qed

lemma engine_ok_ledger:
  assumes "engine_ok Q E A s" and "ledger_ok l" and "lg_reservations l = lg_reservations (rs_ledger s)"
  shows "engine_ok Q E A (s\<lparr>rs_ledger := l\<rparr>)"
  using assms by (simp add: engine_ok_def orders_ok_def engine_linked_def)

lemma on_ledger_ok:
  assumes "engine_ok Q E A s" and "calm (f (rs_ledger s))"
    and "\<And>u l. f (rs_ledger s) = (Inr u, l) \<Longrightarrow> ledger_ok l \<and> lg_reservations l = lg_reservations (rs_ledger s)"
  shows "yields (\<lambda>_. engine_ok Q E A) (on_ledger f s)"
proof (cases "f (rs_ledger s)")
  case (Pair r l)
  then show ?thesis
    using assms(2,3) engine_ok_ledger [OF assms(1), of l] by (cases r) (auto simp: on_ledger_def)
qed

lemma append_journal_reservations:
  "append_journal i at r ls s = (x, t) \<Longrightarrow> lg_reservations t = lg_reservations s"
  by (auto simp: append_journal_def Let_def split: sum.splits if_splits)

lemma action_fresh:
  assumes "ledger_ok s"
  shows "apply_split a i k at s = (Inr u, t) \<Longrightarrow> a \<noteq> ''initial-capital''"
    and "apply_dividend a i c at s = (Inr u, t) \<Longrightarrow> a \<noteq> ''initial-capital''"
    and "apply_delisting a i c at s = (Inr u, t) \<Longrightarrow> a \<noteq> ''initial-capital''"
proof -
  have taken: "''initial-capital'' \<in> journal_ids s" using assms by (simp add: ledger_ok_def books_ok_def)
  have *: "lg_journal_entries v = lg_journal_entries s \<Longrightarrow> append_journal ''initial-capital'' at r ls v \<noteq> (Inr w, z)"
    for r ls v w z using append_journal_Inr [of "''initial-capital''" at r ls v w z] taken by (auto simp: journal_ids_def)
  show "apply_split a i k at s = (Inr u, t) \<Longrightarrow> a \<noteq> ''initial-capital''"
    by (auto simp: apply_split_def and_then_Inr_iff Let_def * split: sum.splits option.splits)
  show "apply_dividend a i c at s = (Inr u, t) \<Longrightarrow> a \<noteq> ''initial-capital''"
    by (auto simp: apply_dividend_def and_then_Inr_iff Let_def * split: sum.splits)
  show "apply_delisting a i c at s = (Inr u, t) \<Longrightarrow> a \<noteq> ''initial-capital''"
    by (auto simp: apply_delisting_def and_then_Inr_iff Let_def * split: sum.splits)
qed

lemma action_reservations:
  "apply_split a i k at s = (Inr u, t) \<Longrightarrow> lg_reservations t = lg_reservations s"
  "apply_dividend a i c at s = (Inr u, t) \<Longrightarrow> lg_reservations t = lg_reservations s"
  "apply_delisting a i c at s = (Inr u, t) \<Longrightarrow> lg_reservations t = lg_reservations s"
  by (auto simp: apply_split_def apply_dividend_def apply_delisting_def and_then_Inr_iff Let_def
      split: sum.splits option.splits dest!: append_journal_reservations)

lemma action_ledger_ok:
  assumes "ledger_ok s"
  shows "apply_split a i k at s = (Inr u, t) \<Longrightarrow> ledger_ok t"
    and "apply_dividend a i c at s = (Inr u, t) \<Longrightarrow> ledger_ok t"
    and "apply_delisting a i c at s = (Inr u, t) \<Longrightarrow> ledger_ok t"
  using split_op_ledger_ok [OF assms, of a i k at] dividend_ledger_ok [OF assms, of a i c at]
    delisting_ledger_ok [OF assms, of a i c at] action_fresh [OF assms] by force+

lemma apply_action_ok:
  assumes "engine_ok Q E A s"
  shows "yields (\<lambda>_. engine_ok Q E A) (apply_action as_of a s)"
proof (cases "sa_phase a \<in> {ANNOUNCED, EX_DATE, RECORD_DATE}")
  case True
  then show ?thesis using assms by (simp add: apply_action_def)
next
  case False
  have on: "yields (\<lambda>_. engine_ok Q E A) (on_ledger (apply_split x i k at) s)"
    "yields (\<lambda>_. engine_ok Q E A) (on_ledger (apply_dividend x i k at) s)"
    "yields (\<lambda>_. engine_ok Q E A) (on_ledger (apply_delisting x i k at) s)"
    if ok: "engine_ok Q E A s" for x i k at s
  proof -
    have l: "ledger_ok (rs_ledger s)" using ok by (simp add: engine_ok_def)
    show "yields (\<lambda>_. engine_ok Q E A) (on_ledger (apply_split x i k at) s)"
      by (rule on_ledger_ok [OF ok calm_actions(1)]) (simp add: action_ledger_ok(1) [OF l] action_reservations(1))
    show "yields (\<lambda>_. engine_ok Q E A) (on_ledger (apply_dividend x i k at) s)"
      by (rule on_ledger_ok [OF ok calm_actions(2)]) (simp add: action_ledger_ok(2) [OF l] action_reservations(2))
    show "yields (\<lambda>_. engine_ok Q E A) (on_ledger (apply_delisting x i k at) s)"
      by (rule on_ledger_ok [OF ok calm_actions(3)]) (simp add: action_ledger_ok(3) [OF l] action_reservations(3))
  qed
  show ?thesis
    unfolding apply_action_def if_not_P [OF False]
    by (rule yields_and_then [OF cancel_orders_for_action_ok [OF assms]])
      (auto simp: on split: corporate_action_type.splits option.splits)
qed

lemma process_bar_ok:
  assumes "engine_ok Q E A s" and "bar_fills Q H pol b as_of"
  shows "yields (\<lambda>_. engine_ok Q E A) (process_bar H pol as_of b s)"
  unfolding process_bar_def
proof (rule yields_and_then)
  show "yields (\<lambda>_. engine_ok Q E A) (for_each (match_order H pol b as_of) (map order_key (sort_key match_priority (rs_orders s))) s)"
    using assms match_order_ok by (intro yields_for_each) auto
  fix x :: unit and s assume ok: "engine_ok Q E A s"
  then have l: "ledger_ok (rs_ledger s)" by (simp add: engine_ok_def)
  show "yields (\<lambda>_. engine_ok Q E A) (on_ledger (mark (sb_instrument_id b) (sb_close b)) s)"
    using mark_ledger_ok [OF l, of "sb_instrument_id b" "sb_close b"]
    by (intro on_ledger_ok [OF ok]) (auto simp: mark_def split: if_splits)
qed

lemma add_decision_ok [simp]: "engine_ok Q E A (add_decision d p i b r s) = engine_ok Q E A s"
  by (simp add: add_decision_def engine_ok_def orders_ok_def engine_linked_def)

lemma build_identity_error: "build_identity H a b c d e f g = Inl x \<Longrightarrow> \<not> is_assertion x"
  unfolding build_identity_def Let_def validate_identity_def
  by (auto split: sum.splits elim!: checks_value_error)

lemma decide_ok:
  assumes "engine_ok Q E A s"
  shows "yields (\<lambda>_. engine_ok Q E A) (decide H cfg snap as_of net p s)"
proof (cases "build_identity H snap as_of (op_strategy_version p) (rc_config_hash cfg)
    (op_input_hash p) (op_signal_hash p) (risk_hash H p net (rc_portfolio_policy cfg))")
  case (Inl e)
  then show ?thesis using build_identity_error by (simp add: decide_def)
next
  case (Inr d)
  define i where "i = proposal_intent p (canonical_hash H (JObj [(''decision_id'', JStr (di_decision_id d)),
    (''candidate_id'', JStr (candidate_id H p))])) (di_decision_id d) as_of"
  note unf = decide_def Inr Let_def i_def [symmetric]
  obtain r l where rl: "reserve i (rs_ledger s) = (r, l)" by (cases "reserve i (rs_ledger s)")
  show ?thesis
  proof (cases "validate_intent i")
    case (Inl e)
    then show ?thesis using validate_intent_error by (simp add: unf)
  next
    case valid: (Inr u)
    show ?thesis
    proof (cases r)
      case rej: (Inl e)
      then obtain m where m: "e = ReservationRejected m" using reserve_error rl by blast
      have "l = rs_ledger s" using reserve_cases(1) [of i "rs_ledger s" e l] rl rej by simp
      then show ?thesis using assms valid rl rej m by (simp add: unf)
    next
      case ok: (Inr v)
      show ?thesis
      proof (cases "bind_res (proposed i) (\<lambda>t. accept t as_of)")
        case (Inl e)
        then show ?thesis using accepted_error valid rl ok by (simp add: unf)
      next
        case acc: (Inr t)
        then show ?thesis using placed_ok [OF assms _ _ acc, of v l] valid rl ok
          by (simp add: unf del: bind_res_ok)
      qed
    qed
  qed
qed

lemma decide_frame_ok:
  assumes "engine_ok Q E A s"
  shows "yields (\<lambda>_ s'. \<exists>p. ep_as_of p = rf_as_of frame \<and> engine_ok Q (E @ [p]) A s') (decide_frame H cfg propose frame s)"
proof -
  have step: "\<exists>p. ep_as_of p = rf_as_of frame \<and> engine_ok Q (E @ [p]) A (add_equity (rf_as_of frame) s')"
    if "engine_ok Q E A s'" for s'
    using that by (auto simp: add_equity_def Let_def engine_ok_def orders_ok_def engine_linked_def)
  have "yields (\<lambda>_ s'. \<exists>p. ep_as_of p = rf_as_of frame \<and> engine_ok Q (E @ [p]) A s')
    (and_then (for_each (decide H cfg snap at net) ps s) (\<lambda>_ s. (Inr (), add_equity (rf_as_of frame) s)))"
    for snap at net ps
  proof (rule yields_and_then)
    show "yields (\<lambda>_. engine_ok Q E A) (for_each (decide H cfg snap at net) ps s)"
      using assms decide_ok by (intro yields_for_each) auto
  qed (use step in simp)
  then show ?thesis by (simp add: decide_frame_def Let_def)
qed

lemma process_frame_ok:
  assumes "engine_ok Q E A s" and "\<And>b. b \<in> set (rf_bars frame) \<Longrightarrow> bar_fills Q H (rc_fill_policy cfg) b (rf_as_of frame)"
  shows "yields (\<lambda>_ s'. \<exists>p. ep_as_of p = rf_as_of frame \<and> engine_ok Q (E @ [p]) A s') (process_frame H cfg propose frame s)"
proof -
  have actions: "yields (\<lambda>_. engine_ok Q E A) (for_each (apply_action (rf_as_of frame)) (rf_actions frame) s)"
    if "engine_ok Q E A s" for s
    using that apply_action_ok by (intro yields_for_each) auto
  have bars: "yields (\<lambda>_. engine_ok Q E A) (for_each (process_bar H (rc_fill_policy cfg) (rf_as_of frame)) (rf_bars frame) s)"
    if "engine_ok Q E A s" for s
    using that process_bar_ok assms(2) by (intro yields_for_each) auto
  have checked: "yields (\<lambda>_ s'. \<exists>p. ep_as_of p = rf_as_of frame \<and> engine_ok Q (E @ [p]) A s')
      (and_then (assert_conservation (rs_ledger s), s) (\<lambda>_ s. decide_frame H cfg propose frame s))"
    if "engine_ok Q E A s" for s
  proof -
    have "assert_conservation (rs_ledger s) = Inr ()" using that ledger_ok_conserves by (simp add: engine_ok_def)
    then show ?thesis using decide_frame_ok [OF that] by simp
  qed
  show ?thesis unfolding process_frame_def
    by (rule yields_and_then [OF expire_orders_ok [OF assms(1)]], rule yields_and_then [OF actions], assumption,
        rule yields_and_then [OF bars], assumption, rule checked)
qed

lemma frames_ok:
  assumes "engine_ok Q E {} s"
    and "\<And>fr b. fr \<in> set frames \<Longrightarrow> b \<in> set (rf_bars fr) \<Longrightarrow> bar_fills Q H (rc_fill_policy cfg) b (rf_as_of fr)"
  shows "yields (\<lambda>_ s'. \<exists>E'. map ep_as_of E' = map ep_as_of E @ map rf_as_of frames \<and> engine_ok Q E' {} s')
    (for_each (process_frame H cfg propose) frames s)"
  using assms
proof (induction frames arbitrary: E s)
  case (Cons fr frames)
  show ?case unfolding for_each.simps
  proof (rule yields_and_then [OF process_frame_ok [OF Cons.prems(1)]])
    show "bar_fills Q H (rc_fill_policy cfg) b (rf_as_of fr)" if "b \<in> set (rf_bars fr)" for b
      using Cons.prems(2) that by simp
    fix x :: unit and s1 assume "\<exists>p. ep_as_of p = rf_as_of fr \<and> engine_ok Q (E @ [p]) {} s1"
    then obtain p where p: "ep_as_of p = rf_as_of fr" "engine_ok Q (E @ [p]) {} s1" by blast
    show "yields (\<lambda>_ s'. \<exists>E'. map ep_as_of E' = map ep_as_of E @ map rf_as_of (fr # frames) \<and> engine_ok Q E' {} s')
      (for_each (process_frame H cfg propose) frames s1)"
      by (rule yields_mono [OF Cons.IH [OF p(2)]]) (use Cons.prems(2) p(1) in auto)
  qed
qed auto

text \<open>A fill of the run: some well-formed order against a bar of a frame, no later than the frame.\<close>

definition traded_in :: "(json \<Rightarrow> string) \<Rightarrow> fill_policy \<Rightarrow> replay_frame list \<Rightarrow> fill_event \<Rightarrow> bool" where
  "traded_in H pol frames f = (\<exists>fr \<in> set frames. \<exists>b \<in> set (rf_bars fr). \<exists>t sb.
     tracked_ok t \<and> exchange_match H pol t b (rf_as_of fr) sb = Inr (Some f))"

lemma replay_ok:
  assumes "0 \<le> pp_minimum_commission (rc_portfolio_policy cfg)" and "0 \<le> pp_max_positions (rc_portfolio_policy cfg)"
  shows "case replay_frames H cfg propose frames of
      Inl e \<Rightarrow> \<not> is_assertion e
    | Inr s \<Rightarrow> (\<exists>E. map ep_as_of E = map rf_as_of frames \<and> engine_ok (traded_in H (rc_fill_policy cfg) frames) E {} s)"
proof (cases "new_ledger (rc_starting_cash cfg) (rc_portfolio_policy cfg)")
  case (Inl e)
  then have "\<not> is_assertion e"
    using calm_append_journal
    by (auto simp: new_ledger_def Let_def split: if_splits prod.splits sum.splits dest!: calm_error [OF calm_append_journal])
  then show ?thesis using Inl by (simp add: replay_frames_def bind_res_def)
next
  case (Inr l)
  let ?Q = "traded_in H (rc_fill_policy cfg) frames"
  have "lg_reservations l = []"
    using Inr by (auto simp: new_ledger_def Let_def split: if_splits prod.splits sum.splits dest!: append_journal_reservations)
  then have "engine_ok ?Q [] {} (start_state l)"
    using new_ledger_ok [OF Inr assms] by (simp add: engine_ok_def start_state_def orders_ok_def engine_linked_def)
  then have "yields (\<lambda>_ s'. \<exists>E'. map ep_as_of E' = map ep_as_of ([] :: equity_point list) @ map rf_as_of frames \<and>
      engine_ok ?Q E' {} s') (for_each (process_frame H cfg propose) frames (start_state l))"
    by (rule frames_ok) (auto simp: bar_fills_def traded_in_def)
  then show ?thesis using Inr
    by (auto simp: replay_frames_def bind_res_def yields_def split: prod.splits sum.splits)
qed

end
