(* ===== verification/Sim_Liveness.thy ===== *)
theory Sim_Liveness
  imports Sim_Replay
begin

section \<open>A market order is worked until it is filled\<close>

text \<open>
  One order against a sequence of bars, each with the \<open>as_of\<close> of its frame, as \<open>PortfolioReplayEngine.run\<close> works it: each bar is matched
  and a fill is applied to the order. With enough tradable bars a market order ends filled.
\<close>

fun work_order ::
  "(json \<Rightarrow> string) \<Rightarrow> fill_policy \<Rightarrow> (time \<times> simulation_bar) list \<Rightarrow> tracked_order \<Rightarrow> tracked_order res" where
  "work_order H pol [] t = Inr t"
| "work_order H pol ((as_of, b) # bs) t = bind_res (exchange_match H pol t b as_of False) (\<lambda>m.
     case m of None \<Rightarrow> work_order H pol bs t
     | Some f \<Rightarrow> bind_res (order_apply_fill t (fe_fill_id f) (fe_quantity f) (fe_price f) (fe_occurred_at f))
         (work_order H pol bs))"

text \<open>The identifier of a fill determines how much was filled before it.\<close>

lemma fill_id_doc_filled:
  assumes "inj H" and "canonical_hash H (fill_id_doc i b m) = canonical_hash H (fill_id_doc j c n)"
  shows "m = n"
proof -
  have "sort_keys (fill_id_doc i b m) = sort_keys (fill_id_doc j c n)"
    using assms by (simp add: canonical_hash_def inj_eq)
  then show ?thesis by (simp add: fill_id_doc_def)
qed

definition ids_earlier :: "(json \<Rightarrow> string) \<Rightarrow> tracked_order \<Rightarrow> bool" where
  "ids_earlier H t = (\<forall>fid \<in> set (to_fill_ids t). \<exists>b n.
     fid = canonical_hash H (fill_id_doc (to_intent t) b n) \<and> n < to_filled_quantity t)"

definition tradable :: "fill_policy \<Rightarrow> time \<Rightarrow> order_intent \<Rightarrow> simulation_bar \<Rightarrow> bool" where
  "tradable pol as_of i b = (validate_bar b = Inr () \<and> \<not> bar_excluded i b as_of False \<and>
     1 \<le> sb_volume b * fp_participation_rate pol)"

lemma cost_adjusted_pos: "0 < cost_adjusted pol p side"
  by (simp add: cost_adjusted_def Let_def less_max_iff_disj)

lemma market_match:
  assumes "tracked_ok t" and "live t" and "oi_kind (to_intent t) = MARKET" and "validate_fill_policy pol = Inr ()"
    and "tradable pol as_of (to_intent t) b"
  obtains f where "exchange_match H pol t b as_of False = Inr (Some f)"
    and "0 < fe_quantity f" "fe_quantity f \<le> remaining_quantity t" "0 < fe_price f" "fe_occurred_at f = sb_available_at b"
    and "fe_fill_id f = canonical_hash H (fill_id_doc (to_intent t) b (to_filled_quantity t))"
proof -
  let ?f = "make_fill H pol t b (match_quantity pol t b) (cost_adjusted pol (sb_open b) (oi_side (to_intent t))) ''market_open''"
  have "0 < remaining_quantity t"
    using assms(1,2) by (auto simp: tracked_ok_def live_def remaining_quantity_def dest: validate_intent_quantity)
  moreover have "1 \<le> \<lfloor>sb_volume b * fp_participation_rate pol\<rfloor>"
    using assms(5) by (simp add: tradable_def le_floor_iff)
  ultimately have q: "0 < match_quantity pol t b" by (simp add: match_quantity_def)
  have val: "validate_fill ?f = Inr ()"
    using q cost_adjusted_pos assms(4)
    by (simp add: validate_fill_def make_fill_def Let_def validate_fill_policy_def le_max_iff_disj)
  have "exchange_match H pol t b as_of False = Inr (Some ?f)"
    unfolding exchange_match_iff
    using assms(2,3,5) q val by (auto simp: tradable_def reference_price_def limit_capped_def)
  then show ?thesis
    using q val cost_adjusted_pos match_quantity_bounds(1) [of pol t b] by (intro that [of ?f]) simp_all
qed

lemma filled_average_pos:
  assumes "tracked_ok t" and "0 < q" and "0 < p"
  shows "0 < filled_average t q p"
proof -
  have "0 \<le> to_filled_quantity t" and "positive_opt (to_average_fill_price t)"
    using assms(1) by (simp_all add: tracked_ok_def)
  then show ?thesis using assms(2,3)
    by (auto simp: filled_average_def positive_opt_def split: option.splits
        intro!: divide_pos_pos add_nonneg_pos mult_pos_pos mult_nonneg_nonneg)
qed

lemma market_step:
  assumes "inj H" and "tracked_ok t" and "live t" and "oi_kind (to_intent t) = MARKET"
    and "validate_fill_policy pol = Inr ()" and "tradable pol as_of (to_intent t) b"
    and "ids_earlier H t" and "to_last_event_at t \<le> sb_available_at b"
  obtains f t' where "exchange_match H pol t b as_of False = Inr (Some f)"
    and "order_apply_fill t (fe_fill_id f) (fe_quantity f) (fe_price f) (fe_occurred_at f) = Inr t'"
    and "tracked_ok t'" "to_intent t' = to_intent t" "remaining_quantity t' < remaining_quantity t" "0 \<le> remaining_quantity t'"
    and "ids_earlier H t'" "to_last_event_at t' = sb_available_at b" "live t' \<longleftrightarrow> remaining_quantity t' \<noteq> 0"
    and "live t' \<or> to_state t' = FILLED"
proof -
  obtain f where f: "exchange_match H pol t b as_of False = Inr (Some f)"
    "0 < fe_quantity f" "fe_quantity f \<le> remaining_quantity t" "0 < fe_price f" "fe_occurred_at f = sb_available_at b"
    "fe_fill_id f = canonical_hash H (fill_id_doc (to_intent t) b (to_filled_quantity t))"
    using market_match [OF assms(2-6)] by metis
  let ?t' = "after_fill t (fe_fill_id f) (fe_quantity f) (fe_price f) (fe_occurred_at f)"
  have new: "fe_fill_id f \<notin> set (to_fill_ids t)"
    using assms(7) fill_id_doc_filled [OF assms(1)] unfolding ids_earlier_def f(6) by fastforce
  have "validate_tracked ?t' = Inr ()"
    using assms(2) f(2) filled_average_pos [OF assms(2) f(2,4)]
    by (simp add: after_fill_def tracked_ok_def positive_opt_def)
  then have ap: "order_apply_fill t (fe_fill_id f) (fe_quantity f) (fe_price f) (fe_occurred_at f) = Inr ?t'"
    using new f assms(3,8) by (simp add: order_apply_fill_ok)
  have ok: "tracked_ok ?t'" "to_intent ?t' = to_intent t"
    using order_exec_keeps [of "Fill (fe_fill_id f) (fe_quantity f) (fe_price f) (fe_occurred_at f)" t ?t'] ap assms(2)
    by simp_all
  have rest: "remaining_quantity ?t' = remaining_quantity t - fe_quantity f"
    "to_filled_quantity ?t' = to_filled_quantity t + fe_quantity f" "to_fill_ids ?t' = to_fill_ids t @ [fe_fill_id f]"
    "to_last_event_at ?t' = fe_occurred_at f" "live ?t' \<longleftrightarrow> remaining_quantity ?t' \<noteq> 0" "live ?t' \<or> to_state ?t' = FILLED"
    by (auto simp: after_fill_def remaining_quantity_def live_def)
  have "ids_earlier H ?t'"
    using assms(7) f(2,6) unfolding ids_earlier_def rest ok(2) by fastforce
  then show ?thesis using that [OF f(1) ap ok] rest f(2,3,5) by simp
qed

lemma terminal_work: "\<not> live t \<Longrightarrow> work_order H pol bs t = Inr t"
  by (induction bs) (auto simp: exchange_match_def Let_def live_def bind_res_def)

lemma market_work:
  assumes "inj H" and "validate_fill_policy pol = Inr ()" and "tracked_ok t" and "oi_kind (to_intent t) = MARKET"
    and "\<forall>(as_of, b) \<in> set bs. tradable pol as_of (to_intent t) b" and "ids_earlier H t"
    and "sorted (to_last_event_at t # map (sb_available_at \<circ> snd) bs)" and "live t" and "remaining_quantity t \<le> int (length bs)"
  shows "\<exists>t'. work_order H pol bs t = Inr t' \<and> to_state t' = FILLED \<and> to_intent t' = to_intent t \<and> tracked_ok t'"
  using assms(3-)
proof (induction bs arbitrary: t)
  case Nil
  then have "0 < remaining_quantity t"
    by (auto simp: tracked_ok_def live_def remaining_quantity_def dest: validate_intent_quantity)
  then show ?case using Nil by simp
next
  case (Cons ab bs)
  obtain as_of b where ab: "ab = (as_of, b)" by (cases ab)
  have trad: "tradable pol as_of (to_intent t) b" and time: "to_last_event_at t \<le> sb_available_at b"
    using Cons.prems ab by simp_all
  obtain f t' where f: "exchange_match H pol t b as_of False = Inr (Some f)"
    "order_apply_fill t (fe_fill_id f) (fe_quantity f) (fe_price f) (fe_occurred_at f) = Inr t'"
    and t': "tracked_ok t'" "to_intent t' = to_intent t" "remaining_quantity t' < remaining_quantity t" "0 \<le> remaining_quantity t'"
      "ids_earlier H t'" "to_last_event_at t' = sb_available_at b" "live t' \<longleftrightarrow> remaining_quantity t' \<noteq> 0"
      "live t' \<or> to_state t' = FILLED"
    using market_step [OF assms(1) Cons.prems(1,6,2) assms(2) trad Cons.prems(4) time] by metis
  have work: "work_order H pol (ab # bs) t = work_order H pol bs t'"
    using f ab by (simp add: bind_res_def)
  show ?case
  proof (cases "live t'")
    case True
    then show ?thesis
      using Cons.IH [of t'] Cons.prems t' ab unfolding work by simp
  next
    case False
    then show ?thesis using t' terminal_work [OF False] unfolding work by simp
  qed
qed

end
