(* ===== verification/Sim_Valuation.thy ===== *)
theory Sim_Valuation
  imports Sim_Replay
begin

section \<open>Valuation\<close>

text \<open>
  What the portfolio snapshot is worth: without marks it is the balance sheet, and a split changes
  neither the value nor the risk it reports.
\<close>

lemma total_single: "distinct ks \<Longrightarrow> total_of (\<lambda>k. if j = k then x else 0) ks = (if j \<in> set ks then x else (0::rat))"
  by (induction ks) auto

lemma total_by_key:
  assumes "distinct ks" and "\<forall>x \<in> set xs. key x \<in> set ks"
  shows "total_of (\<lambda>k. total_of f (filter (\<lambda>x. key x = k) xs)) ks = (total_of f xs :: rat)"
  using assms(2)
proof (induction xs)
  case (Cons x xs)
  have "total_of (\<lambda>k. total_of f (filter (\<lambda>y. key y = k) (x # xs))) ks =
      total_of (\<lambda>k. (if key x = k then f x else 0) + total_of f (filter (\<lambda>y. key y = k) xs)) ks"
    by (rule arg_cong [where f = sum_list], rule map_cong) auto
  also have "\<dots> = total_of (\<lambda>k. if key x = k then f x else 0) ks + total_of (\<lambda>k. total_of f (filter (\<lambda>y. key y = k) xs)) ks"
    by (rule sum_list_addf)
  also have "\<dots> = f x + total_of f xs" using Cons total_single [OF assms(1), of "key x" "f x"] by simp
  finally show ?case by simp
qed simp

abbreviation open_lots :: "portfolio_ledger \<Rightarrow> position_lot list" where
  "open_lots s \<equiv> filter (\<lambda>l. 0 < pl_remaining_quantity l) (lg_lots s)"

lemma open_lots_cost:
  assumes "\<forall>l \<in> set ls. lot_ok l"
  shows "lots_cost (filter (\<lambda>l. 0 < pl_remaining_quantity l) ls) = lots_cost ls"
  using assms by (induction ls) (auto simp: lot_ok_def)

lemma position_lots:
  "filter (\<lambda>l. pl_instrument_id l = i \<and> 0 < pl_remaining_quantity l) (lg_lots s) =
   filter (\<lambda>l. pl_instrument_id l = i) (open_lots s)"
  by (simp add: conj_commute)

lemma held_quantity_pos:
  assumes "i \<in> set (held_instruments s)"
  shows "0 < total_of pl_remaining_quantity (filter (\<lambda>l. pl_instrument_id l = i) (open_lots s))"
proof -
  obtain l where l: "l \<in> set (filter (\<lambda>l. pl_instrument_id l = i) (open_lots s))"
    using assms by auto
  have "0 < pl_remaining_quantity l" using l by simp
  also have "pl_remaining_quantity l \<le> total_of pl_remaining_quantity (filter (\<lambda>l. pl_instrument_id l = i) (open_lots s))"
    using l by (intro member_le_total) auto
  finally show ?thesis .
qed

lemma unmarked_value:
  assumes "i \<in> set (held_instruments s)" and "lg_marks s i = None"
  shows "market_value (position_of s i) = lots_cost (filter (\<lambda>l. pl_instrument_id l = i) (open_lots s))"
  using held_quantity_pos [OF assms(1)] assms(2)
  by (simp add: market_value_def position_of_def Let_def position_lots)

lemma distinct_held: "distinct (held_instruments s)"
  by (simp add: held_instruments_def)

lemma unmarked_net_liquidation:
  assumes "ledger_ok s" and "lg_marks s = Map.empty"
  shows "ps_net_liquidation (ledger_snapshot s at) = lg_cash s + lots_cost (lg_lots s)"
proof -
  have "total_of market_value (map (position_of s) (held_instruments s)) =
      total_of (\<lambda>i. lots_cost (filter (\<lambda>l. pl_instrument_id l = i) (open_lots s))) (held_instruments s)"
    using unmarked_value assms(2) by (intro arg_cong [where f = sum_list]) (simp add: comp_def)
  also have "\<dots> = lots_cost (open_lots s)"
    by (rule total_by_key [OF distinct_held]) auto
  also have "\<dots> = lots_cost (lg_lots s)"
    using assms(1) by (intro open_lots_cost) (simp add: ledger_ok_def books_ok_def)
  finally show ?thesis by (simp add: ledger_snapshot_def Let_def)
qed

text \<open>Splits.\<close>

lemma split_held: "0 < k \<Longrightarrow> held_instruments (split_ledger a i k at s) = held_instruments s"
proof -
  assume k: "0 < k"
  have "map pl_instrument_id (filter (\<lambda>l. 0 < pl_remaining_quantity l) (map (split_lot i k) ls)) =
      map pl_instrument_id (filter (\<lambda>l. 0 < pl_remaining_quantity l) ls)" for ls
    using k by (induction ls) auto
  then show ?thesis by (simp add: held_instruments_def split_ledger_def)
qed

lemma split_market_value:
  assumes "0 < k"
  shows "market_value (position_of (split_ledger a i k at s) j) = market_value (position_of s j)"
proof -
  let ?P = "\<lambda>l. pl_instrument_id l = j \<and> 0 < pl_remaining_quantity l"
  have lots: "filter ?P (map (split_lot i k) ls) = map (split_lot i k) (filter ?P ls)" for ls
    using assms by (induction ls) auto
  have cost: "lots_cost (map (split_lot i k) ls) = lots_cost ls" for ls
    using assms by (induction ls) simp_all
  have qty: "total_of pl_remaining_quantity (map (split_lot i k) (filter ?P ls)) =
      (if j = i then k else 1) * total_of pl_remaining_quantity (filter ?P ls)" for ls
    by (induction ls) (auto simp: split_lot_def algebra_simps)
  have l: "lg_lots (split_ledger a i k at s) = map (split_lot i k) (lg_lots s)"
    "lg_marks (split_ledger a i k at s) j = (if j = i then map_option (\<lambda>m. m / k) (lg_marks s j) else lg_marks s j)"
    by (auto simp: split_ledger_def split: option.splits)
  show ?thesis
    unfolding market_value_def position_of_def Let_def l lots cost qty
    using assms by (cases "lg_marks s j") auto
qed

lemma split_neutral:
  assumes "0 < k"
  shows "ps_net_liquidation (ledger_snapshot (split_ledger a i k at s) u) = ps_net_liquidation (ledger_snapshot s u)"
    and "ps_open_risk (ledger_snapshot (split_ledger a i k at s) u) = ps_open_risk (ledger_snapshot s u)"
proof -
  have "lg_cash (split_ledger a i k at s) = lg_cash s" by (simp add: split_ledger_def)
  moreover have "map (market_value \<circ> position_of (split_ledger a i k at s)) (held_instruments s) =
      map (market_value \<circ> position_of s) (held_instruments s)"
    using split_market_value [OF assms] by simp
  ultimately show "ps_net_liquidation (ledger_snapshot (split_ledger a i k at s) u) = ps_net_liquidation (ledger_snapshot s u)"
    by (simp add: ledger_snapshot_def Let_def split_held [OF assms] del: map_eq_conv)
  have "total_of (\<lambda>l. pl_remaining_quantity l * pl_risk_per_share l) (map (split_lot i k) ls) =
      total_of (\<lambda>l. pl_remaining_quantity l * pl_risk_per_share l) ls" for ls
    using assms by (induction ls) simp_all
  moreover have "lg_lots (split_ledger a i k at s) = map (split_lot i k) (lg_lots s)"
    by (simp add: split_ledger_def)
  ultimately show "ps_open_risk (ledger_snapshot (split_ledger a i k at s) u) = ps_open_risk (ledger_snapshot s u)"
    by (simp only: ledger_snapshot_def Let_def portfolio_snapshot.select_convs)
qed

end
