(* ===== verification/Sim_History.thy ===== *)
theory Sim_History
  imports Sim_Replay
begin

section \<open>Where the orders of a replay come from\<close>

text \<open>
  A second invariant of \<open>PortfolioReplayEngine.run\<close>, over what the result records. Every order was either
  approved by a recorded decision, at whose moment it was submitted, or is protection that an earlier
  recorded fill brought about, submitted at the moment of that fill; and every fill is for such an order. The
  lists of decisions and fills only grow, so the relation between two states is a preorder and each step of
  the engine is shown to stay in it.
\<close>

subsection \<open>Successful outcomes\<close>

definition reaches :: "('a \<Rightarrow> 's \<Rightarrow> bool) \<Rightarrow> 'a res \<times> 's \<Rightarrow> bool" where
  "reaches P r \<longleftrightarrow> (case fst r of Inl e \<Rightarrow> True | Inr x \<Rightarrow> P x (snd r))"

lemma reaches_simps [simp]: "reaches P (Inl e, s)" "reaches P (Inr x, s) \<longleftrightarrow> P x s"
  by (simp_all add: reaches_def)

lemma reaches_and_then:
  assumes "reaches P r" and "\<And>x s. P x s \<Longrightarrow> reaches Q (f x s)"
  shows "reaches Q (and_then r f)"
  using assms by (cases r; cases "fst r") (auto simp: reaches_def)

lemma reaches_mono: "reaches P r \<Longrightarrow> (\<And>x s. P x s \<Longrightarrow> Q x s) \<Longrightarrow> reaches Q r"
  by (auto simp: reaches_def split: sum.splits)

lemma reaches_for_each:
  assumes "I s" and "\<And>x s. x \<in> set xs \<Longrightarrow> I s \<Longrightarrow> reaches (\<lambda>_. I) (f x s)"
  shows "reaches (\<lambda>_. I) (for_each f xs s)"
  using assms
proof (induction xs arbitrary: s)
  case (Cons x xs)
  then have "reaches (\<lambda>_. I) (f x s)" by simp
  then have "reaches (\<lambda>_. I) (and_then (f x s) (\<lambda>_. for_each f xs))"
    by (rule reaches_and_then) (use Cons in auto)
  then show ?case by simp
qed simp

lemma reaches_with_order:
  assumes "\<And>t. t \<in> set (rs_orders s) \<Longrightarrow> order_key t = oid \<Longrightarrow> reaches Q (f t s)"
  shows "reaches Q (with_order oid f s)"
  using assms get_order_Some by (auto simp: with_order_def split: option.splits)

subsection \<open>Origins\<close>

text \<open>The ids \<open>_create_protection\<close> and \<open>_replace_oco_sibling\<close> derive from a fill.\<close>

definition protection_ids :: "(json \<Rightarrow> string) \<Rightarrow> fill_event \<Rightarrow> string set" where
  "protection_ids H f =
     (let group_id = canonical_hash H (JObj [(''entry_fill'', JStr (fe_fill_id f)), (''role'', JStr ''protection'')]) in
      (\<lambda>role. canonical_hash H (JObj [(''group_id'', JStr group_id), (''role'', JStr role)])) ` {''stop'', ''target''} \<union>
      (\<lambda>role. canonical_hash H (JObj [(''fill_id'', JStr (fe_fill_id f)), (''role'', JStr role)]))
        ` {''target-replacement'', ''stop-replacement''})"

definition ordered_by :: "decision_record \<Rightarrow> order_intent \<Rightarrow> bool" where
  "ordered_by d i \<longleftrightarrow> dr_approved d \<and> dr_order_id d = Some (oi_order_id i) \<and>
     dr_instrument_id d = oi_instrument_id i \<and> di_as_of (dr_identity d) = oi_submitted_at i \<and> \<not> oi_reduce_only i"

definition protects :: "(json \<Rightarrow> string) \<Rightarrow> fill_event \<Rightarrow> order_intent \<Rightarrow> bool" where
  "protects H f i \<longleftrightarrow> oi_order_id i \<in> protection_ids H f \<and> oi_instrument_id i = fe_instrument_id f \<and>
     oi_submitted_at i = fe_occurred_at f"

definition sourced :: "(json \<Rightarrow> string) \<Rightarrow> decision_record list \<Rightarrow> fill_event list \<Rightarrow> order_intent \<Rightarrow> bool" where
  "sourced H ds fs i \<longleftrightarrow> (\<exists>d \<in> set ds. ordered_by d i) \<or> (\<exists>f \<in> set fs. protects H f i)"

text \<open>A fill and the order it is for.\<close>

definition fill_of :: "fill_event \<Rightarrow> order_intent \<Rightarrow> bool" where
  "fill_of f i \<longleftrightarrow> fe_order_id f = oi_order_id i \<and> fe_instrument_id f = oi_instrument_id i \<and>
     (oi_submitted_at i < fe_occurred_at f \<or> oi_reduce_only i \<and> oi_submitted_at i = fe_occurred_at f)"

definition explained :: "(json \<Rightarrow> string) \<Rightarrow> decision_record list \<Rightarrow> fill_event list \<Rightarrow> bool" where
  "explained H ds fs \<longleftrightarrow> (\<forall>k < length fs. \<exists>i. sourced H ds (take k fs) i \<and> fill_of (fs ! k) i)"

definition history :: "(json \<Rightarrow> string) \<Rightarrow> replay_state \<Rightarrow> bool" where
  "history H s \<longleftrightarrow> (\<forall>t \<in> set (rs_orders s). sourced H (rs_decisions s) (rs_fills s) (to_intent t)) \<and>
     explained H (rs_decisions s) (rs_fills s)"

lemma sourced_mono: "sourced H ds fs i \<Longrightarrow> set ds \<subseteq> set ds' \<Longrightarrow> set fs \<subseteq> set fs' \<Longrightarrow> sourced H ds' fs' i"
  by (auto simp: sourced_def)

lemma explained_decisions: "explained H ds fs \<Longrightarrow> set ds \<subseteq> set ds' \<Longrightarrow> explained H ds' fs"
  unfolding explained_def using sourced_mono by blast

lemma explained_snoc: "explained H ds fs \<Longrightarrow> sourced H ds fs i \<Longrightarrow> fill_of f i \<Longrightarrow> explained H ds (fs @ [f])"
  by (auto simp: explained_def nth_append less_Suc_eq)

subsection \<open>The preorder\<close>

definition evolves :: "(json \<Rightarrow> string) \<Rightarrow> replay_state \<Rightarrow> replay_state \<Rightarrow> bool" where
  "evolves H s s' \<longleftrightarrow> set (rs_decisions s) \<subseteq> set (rs_decisions s') \<and> set (rs_fills s) \<subseteq> set (rs_fills s') \<and>
     (history H s \<longrightarrow> history H s')"

lemma evolves_refl [simp]: "evolves H s s"
  by (simp add: evolves_def)

lemma evolves_trans: "evolves H a b \<Longrightarrow> evolves H b c \<Longrightarrow> evolves H a c"
  by (auto simp: evolves_def)

lemma evolves_ledger [simp]: "evolves H s (s'\<lparr>rs_ledger := l\<rparr>) = evolves H s s'"
  "evolves H s (s'\<lparr>rs_equity := e\<rparr>) = evolves H s s'" "evolves H s (release_order oid s') = evolves H s s'"
  by (simp_all add: evolves_def history_def release_order_def)

lemma evolves_set_order:
  assumes "evolves H s s'" and "history H s' \<Longrightarrow> sourced H (rs_decisions s') (rs_fills s') (to_intent t)"
  shows "evolves H s (set_order t s')"
proof -
  have "set (rs_orders (set_order t s')) \<subseteq> insert t (set (rs_orders s'))"
    by (auto simp: set_order_def upsert_def set_update_where)
  then show ?thesis using assms by (auto simp: evolves_def history_def)
qed

lemma reaches_loop:
  assumes "\<And>x u. x \<in> set xs \<Longrightarrow> evolves H s u \<Longrightarrow> reaches (\<lambda>_. evolves H u) (f x u)"
  shows "reaches (\<lambda>_. evolves H s) (for_each f xs s)"
proof (rule reaches_for_each)
  fix x u assume "x \<in> set xs" "evolves H s u"
  then show "reaches (\<lambda>_. evolves H s) (f x u)"
    using evolves_trans by (blast intro: reaches_mono [OF assms])
qed simp

lemma reaches_chain: "evolves H s u \<Longrightarrow> reaches (\<lambda>_. evolves H u) r \<Longrightarrow> reaches (\<lambda>_. evolves H s) r"
  by (erule reaches_mono) (rule evolves_trans)

lemma reaches_on_ledger: "reaches (\<lambda>_ s'. \<exists>l. s' = s\<lparr>rs_ledger := l\<rparr>) (on_ledger f s)"
  by (auto simp: on_ledger_def reaches_def split: prod.splits sum.splits)

lemma on_ledger_history: "evolves H s s' \<Longrightarrow> reaches (\<lambda>_. evolves H s) (on_ledger f s')"
  by (rule reaches_mono [OF reaches_on_ledger]) auto

subsection \<open>The steps of the engine\<close>

lemma history_order: "history H s \<Longrightarrow> t \<in> set (rs_orders s) \<Longrightarrow> sourced H (rs_decisions s) (rs_fills s) (to_intent t)"
  by (simp add: history_def)

lemma retire_history:
  assumes "t \<in> set (rs_orders s)" and "r = order_cancel t at \<or> r = expire t at"
  shows "reaches (\<lambda>_. evolves H s) (retire r s)"
proof (cases r)
  case (Inr u)
  then have "order_cancel t at = Inr u \<or> expire t at = Inr u" using assms(2) by auto
  then have "to_intent u = to_intent t" by (auto simp: state_call_ok)
  then have "evolves H s (set_order u s)" using history_order [OF _ assms(1)] by (intro evolves_set_order) auto
  then show ?thesis using Inr by (simp add: retire_def)
qed (simp add: retire_def)

lemma expire_orders_history: "reaches (\<lambda>_. evolves H s) (expire_orders as_of s)"
  unfolding expire_orders_def
proof (intro reaches_loop reaches_with_order)
  fix oid and u :: replay_state and t assume "t \<in> set (rs_orders u)"
  then have "reaches (\<lambda>_. evolves H u) (retire (expire t e) u)" for e by (rule retire_history [where at = e]) simp
  then show "reaches (\<lambda>_. evolves H u) (case oi_expires_at (to_intent t) of None \<Rightarrow> (Inr (), u)
     | Some e \<Rightarrow> if as_of > e \<and> live t then retire (expire t e) u else (Inr (), u))"
    by (simp split: option.split)
qed

lemma cancel_loop_history:
  "reaches (\<lambda>_. evolves H s)
    (for_each (\<lambda>oid. with_order oid (\<lambda>t s. if sel oid t then retire (order_cancel t at) s else (Inr (), s))) oids s)"
proof (intro reaches_loop reaches_with_order)
  fix oid and u :: replay_state and t assume "t \<in> set (rs_orders u)"
  then have "reaches (\<lambda>_. evolves H u) (retire (order_cancel t at) u)" by (rule retire_history [where at = at]) simp
  then show "reaches (\<lambda>_. evolves H u) (if sel oid t then retire (order_cancel t at) u else (Inr (), u))" by simp
qed

lemma cancel_orders_for_action_history: "reaches (\<lambda>_. evolves H s) (cancel_orders_for_action i at s)"
  unfolding cancel_orders_for_action_def
  by (rule cancel_loop_history [where sel = "\<lambda>_ t. oi_instrument_id (to_intent t) = i \<and> live t"])

lemma cancel_oco_siblings_history: "reaches (\<lambda>_. evolves H s) (cancel_oco_siblings t at s)"
  using cancel_loop_history [where sel = "\<lambda>oid u. oid \<noteq> order_key t \<and> oi_oco_group_id (to_intent u) = g \<and> live u" for g]
  by (simp add: cancel_oco_siblings_def split: option.split)

lemma apply_action_history: "reaches (\<lambda>_. evolves H s) (apply_action as_of a s)"
  unfolding apply_action_def
  by (auto intro!: reaches_and_then [OF cancel_orders_for_action_history] on_ledger_history
      split: corporate_action_type.splits option.splits)

lemma place_history:
  assumes "protects H f i" and "f \<in> set (rs_fills s)"
  shows "reaches (\<lambda>_. evolves H s) (place i at s)"
  unfolding place_def
proof (rule reaches_and_then [OF reaches_on_ledger])
  fix x :: unit and s' assume "\<exists>l. s' = s\<lparr>rs_ledger := l\<rparr>"
  then have s': "evolves H s s'" "f \<in> set (rs_fills s')" using assms(2) by auto
  then have "evolves H s (set_order t s')" if "bind_res (proposed i) (\<lambda>t. accept t at) = Inr t" for t
    using accepted_facts(2) [OF that] assms(1) by (intro evolves_set_order) (auto simp: sourced_def)
  then show "reaches (\<lambda>_. evolves H s) (case bind_res (proposed i) (\<lambda>t. accept t at) of Inl e \<Rightarrow> (Inl e, s')
     | Inr t \<Rightarrow> (Inr (), set_order t s'))"
    by (simp split: sum.split)
qed

lemma fill_of_match:
  assumes "exchange_match H pol t b as_of sb = Inr (Some f)"
  shows "fill_of f (to_intent t)"
  using assms by (cases sb) (auto simp: exchange_match_iff fill_of_def make_fill_def bar_excluded_def Let_def)

lemma history_fill:
  assumes "evolves H s s'" and "t \<in> set (rs_orders s)" and "to_intent t' = to_intent t" and "fill_of f (to_intent t)"
  shows "evolves H s ((set_order t' s')\<lparr>rs_fills := rs_fills s' @ [f]\<rparr>)"
proof -
  have orders: "set (rs_orders (set_order t' s')) \<subseteq> insert t' (set (rs_orders s'))"
    by (auto simp: set_order_def upsert_def set_update_where)
  have "history H ((set_order t' s')\<lparr>rs_fills := rs_fills s' @ [f]\<rparr>)" if h: "history H s"
  proof -
    have s': "history H s'" using assms(1) h by (simp add: evolves_def)
    have src: "sourced H (rs_decisions s') (rs_fills s') (to_intent t)"
      using sourced_mono [OF history_order [OF h assms(2)]] assms(1) by (simp add: evolves_def)
    have more: "sourced H (rs_decisions s') (rs_fills s' @ [f]) i" if "sourced H (rs_decisions s') (rs_fills s') i" for i
      by (rule sourced_mono [OF that]) auto
    have "explained H (rs_decisions s') (rs_fills s' @ [f])"
      using s' explained_snoc [OF _ src assms(4)] by (simp add: history_def)
    moreover have "sourced H (rs_decisions s') (rs_fills s' @ [f]) (to_intent x)" if "x \<in> set (rs_orders (set_order t' s'))" for x
      using that orders src assms(3) s' more by (auto simp: history_def)
    ultimately show ?thesis by (simp add: history_def)
  qed
  then show ?thesis using assms(1) by (auto simp: evolves_def)
qed

lemma book_fill_history:
  assumes t: "t \<in> set (rs_orders s)" and m: "exchange_match H' pol t b as_of sb = Inr (Some f)"
  shows "reaches (\<lambda>t' s'. evolves H s s' \<and> f \<in> set (rs_fills s') \<and> to_intent t' = to_intent t) (book_fill t f s)"
  unfolding book_fill_def
proof (rule reaches_and_then [OF cancel_oco_siblings_history], rule reaches_and_then [OF reaches_on_ledger])
  fix x y :: unit and s1 s2 :: replay_state assume s1: "evolves H s s1" and "\<exists>l. s2 = s1\<lparr>rs_ledger := l\<rparr>"
  then have s2: "evolves H s s2" by auto
  have final: "evolves H s ((set_order t' s2)\<lparr>rs_fills := rs_fills s2 @ [f]\<rparr>) \<and> to_intent t' = to_intent t"
    if "order_apply_fill t (fe_fill_id f) (fe_quantity f) (fe_price f) (fe_occurred_at f) = Inr t'" for t'
  proof -
    have "to_intent t' = to_intent t" using that by (auto simp: order_apply_fill_ok after_fill_def)
    then show ?thesis using history_fill [OF s2 t _ fill_of_match [OF m]] by blast
  qed
  show "reaches (\<lambda>t' s'. evolves H s s' \<and> f \<in> set (rs_fills s') \<and> to_intent t' = to_intent t)
    (case order_apply_fill t (fe_fill_id f) (fe_quantity f) (fe_price f) (fe_occurred_at f) of
       Inl e \<Rightarrow> (Inl e, s2)
     | Inr t' \<Rightarrow> (Inr t', (set_order t' s2)\<lparr>rs_fills := rs_fills s2 @ [f]\<rparr>))"
  proof (cases "order_apply_fill t (fe_fill_id f) (fe_quantity f) (fe_price f) (fe_occurred_at f)")
    case (Inr t')
    then show ?thesis using final [OF Inr] by simp
  qed simp
qed

lemma protection_protects:
  assumes "i \<in> set (protection_intents H parent f stop)" and "fe_instrument_id f = oi_instrument_id (to_intent parent)"
  shows "protects H f i"
  using assms by (auto simp: protection_intents_def child_intent_def protects_def protection_ids_def Let_def split: option.splits)

lemma create_protection_history:
  assumes "f \<in> set (rs_fills s)" and "fe_instrument_id f = oi_instrument_id (to_intent parent)"
  shows "reaches (\<lambda>_. evolves H s) (create_protection H parent f s)"
proof (cases "oi_protective_stop (to_intent parent)")
  case (Some stop)
  have "reaches (\<lambda>_. evolves H s) (for_each (\<lambda>i. place i (fe_occurred_at f)) (protection_intents H parent f stop) s)"
  proof (rule reaches_loop)
    fix i and u :: replay_state assume "i \<in> set (protection_intents H parent f stop)" "evolves H s u"
    then show "reaches (\<lambda>_. evolves H u) (place i (fe_occurred_at f) u)"
      using place_history [OF protection_protects] assms by (auto simp: evolves_def)
  qed
  then show ?thesis using Some
    by (auto simp: create_protection_def Let_def split: sum.split intro!: reaches_and_then)
qed (simp add: create_protection_def)

lemma replace_oco_sibling_history:
  assumes "f \<in> set (rs_fills s)" and "fe_instrument_id f = oi_instrument_id (to_intent matched)"
  shows "reaches (\<lambda>_. evolves H s) (replace_oco_sibling H matched f s)"
proof -
  have role: "role = ''target-replacement'' \<or> role = ''stop-replacement''"
    if "replacement matched s = Some (kind, planned, lp, sp, role)" for kind planned lp sp role
    using that by (auto simp: replacement_def Let_def split: if_splits option.splits)
  show ?thesis
    unfolding replace_oco_sibling_def Let_def
    by (auto split: option.split sum.split dest!: role intro!: place_history [OF _ assms(1)]
        simp: protects_def protection_ids_def Let_def assms(2))
qed

lemma same_bar_loop_history: "reaches (\<lambda>_. evolves H s) (same_bar_loop H pol oids b as_of s)"
proof (induction oids arbitrary: s)
  case (Cons oid oids)
  show ?case unfolding same_bar_loop.simps
  proof (rule reaches_with_order)
    fix t assume t: "t \<in> set (rs_orders s)"
    show "reaches (\<lambda>_. evolves H s) (case exchange_match H pol t b as_of True of
       Inl e \<Rightarrow> (Inl e, s)
     | Inr None \<Rightarrow> same_bar_loop H pol oids b as_of s
     | Inr (Some f) \<Rightarrow> and_then (book_fill t f s) (\<lambda>t' s.
         (Inr (), if remaining_quantity t' = 0 then release_order oid s else s)))"
      by (auto split: sum.split option.split intro!: Cons.IH reaches_and_then [OF book_fill_history [OF t]])
  qed
qed simp

lemma match_order_history: "reaches (\<lambda>_. evolves H s) (match_order H pol b as_of oid s)"
  unfolding match_order_def
proof (rule reaches_with_order)
  fix t assume t: "t \<in> set (rs_orders s)"
  have "reaches (\<lambda>_. evolves H s) (and_then (book_fill t f s) (\<lambda>t' s.
       and_then
         (if fe_side f = BUY
          then and_then (create_protection H t' f s) (\<lambda>ids. match_same_bar_protection H pol ids b as_of)
          else if to_state t' = PARTIALLY_FILLED then replace_oco_sibling H t' f s
          else (Inr (), s)) (\<lambda>_ s.
         (Inr (), if remaining_quantity t' = 0 then release_order oid s else s))))"
    if m: "exchange_match H pol t b as_of False = Inr (Some f)" for f
  proof (rule reaches_and_then [OF book_fill_history [OF t m, of H]])
    fix t' :: tracked_order and s1 assume s1: "evolves H s s1 \<and> f \<in> set (rs_fills s1) \<and> to_intent t' = to_intent t"
    have ins: "fe_instrument_id f = oi_instrument_id (to_intent t')"
      using fill_of_match [OF m] s1 by (simp add: fill_of_def)
    have "reaches (\<lambda>_. evolves H s1) (if fe_side f = BUY
          then and_then (create_protection H t' f s1) (\<lambda>ids. match_same_bar_protection H pol ids b as_of)
          else if to_state t' = PARTIALLY_FILLED then replace_oco_sibling H t' f s1
          else (Inr (), s1))"
      using replace_oco_sibling_history [OF _ ins] s1
      by (auto simp: match_same_bar_protection_def
          intro!: reaches_and_then [OF create_protection_history [OF _ ins]]
          intro: reaches_chain [OF _ same_bar_loop_history])
    then show "reaches (\<lambda>_. evolves H s) (and_then
         (if fe_side f = BUY
          then and_then (create_protection H t' f s1) (\<lambda>ids. match_same_bar_protection H pol ids b as_of)
          else if to_state t' = PARTIALLY_FILLED then replace_oco_sibling H t' f s1
          else (Inr (), s1)) (\<lambda>_ s.
         (Inr (), if remaining_quantity t' = 0 then release_order oid s else s)))"
      by (rule reaches_and_then) (use s1 in \<open>auto intro: evolves_trans\<close>)
  qed
  then show "reaches (\<lambda>_. evolves H s) (case exchange_match H pol t b as_of False of
       Inl e \<Rightarrow> (Inl e, s)
     | Inr None \<Rightarrow> (Inr (), s)
     | Inr (Some f) \<Rightarrow> and_then (book_fill t f s) (\<lambda>t' s.
       and_then
         (if fe_side f = BUY
          then and_then (create_protection H t' f s) (\<lambda>ids. match_same_bar_protection H pol ids b as_of)
          else if to_state t' = PARTIALLY_FILLED then replace_oco_sibling H t' f s
          else (Inr (), s)) (\<lambda>_ s.
         (Inr (), if remaining_quantity t' = 0 then release_order oid s else s))))"
    by (simp split: sum.split option.split)
qed

lemma process_bar_history: "reaches (\<lambda>_. evolves H s) (process_bar H pol as_of b s)"
  unfolding process_bar_def
  by (rule reaches_and_then [OF reaches_loop [OF match_order_history]])
    (auto intro: on_ledger_history)

lemma evolves_add_decision [simp]: "evolves H s s' \<Longrightarrow> evolves H s (add_decision d p b a r s')"
  unfolding evolves_def add_decision_def history_def
  by (auto intro: sourced_mono explained_decisions)

lemma approved_history:
  assumes "to_intent t = proposal_intent p oid did as_of" and "di_as_of d = as_of"
  shows "evolves H s (add_decision d p (Some oid) True m (set_order t (s\<lparr>rs_ledger := l\<rparr>)))"
proof -
  let ?s = "add_decision d p (Some oid) True m (set_order t (s\<lparr>rs_ledger := l\<rparr>))"
  have frame: "set (rs_orders ?s) \<subseteq> insert t (set (rs_orders s))" "rs_fills ?s = rs_fills s"
    "set (rs_decisions s) \<subseteq> set (rs_decisions ?s)"
    by (auto simp: add_decision_def set_order_def upsert_def set_update_where)
  have "sourced H (rs_decisions ?s) (rs_fills ?s) (to_intent t)"
    using assms by (auto simp: sourced_def ordered_by_def proposal_intent_def add_decision_def)
  moreover have "sourced H (rs_decisions ?s) (rs_fills ?s) i" if "sourced H (rs_decisions s) (rs_fills s) i" for i
    by (rule sourced_mono [OF that]) (use frame in auto)
  moreover have "explained H (rs_decisions ?s) (rs_fills ?s)" if "explained H (rs_decisions s) (rs_fills s)"
    using explained_decisions [OF that frame(3)] frame(2) by simp
  ultimately show ?thesis using frame by (auto simp: evolves_def history_def)
qed

lemma decide_history: "reaches (\<lambda>_. evolves H s) (decide H cfg sid as_of net p s)"
proof (cases "build_identity H sid as_of (op_strategy_version p) (rc_config_hash cfg)
             (op_input_hash p) (op_signal_hash p) (risk_hash H p net (rc_portfolio_policy cfg))")
  case (Inr d)
  define oid where "oid = canonical_hash H (JObj [(''decision_id'', JStr (di_decision_id d)),
               (''candidate_id'', JStr (candidate_id H p))])"
  define i where "i = proposal_intent p oid (di_decision_id d) as_of"
  have now: "di_as_of d = as_of" using Inr by (auto simp: build_identity_def Let_def split: sum.splits)
  show ?thesis
  proof (cases "validate_intent i")
    case ok: (Inr u)
    show ?thesis
    proof (cases "reserve i (rs_ledger s)")
      case (Pair r l)
      show ?thesis
      proof (cases r)
        case (Inl e)
        then obtain m where "e = ReservationRejected m" using reserve_error Pair by blast
        then show ?thesis using Inr ok Pair Inl
          by (simp add: decide_def Let_def oid_def [symmetric] i_def [symmetric])
      next
        case (Inr v)
        have "evolves H s (add_decision d p (Some oid) True ''approved'' (set_order t (s\<lparr>rs_ledger := l\<rparr>)))"
          if "bind_res (proposed i) (\<lambda>t. accept t as_of) = Inr t" for t
          using accepted_facts(2) [OF that] now unfolding i_def by (rule approved_history)
        then show ?thesis using \<open>build_identity _ _ _ _ _ _ _ _ = Inr d\<close> ok Pair Inr
          by (simp add: decide_def Let_def oid_def [symmetric] i_def [symmetric] split: sum.split)
      qed
    qed
  qed (use Inr in \<open>simp add: decide_def Let_def oid_def [symmetric] i_def [symmetric]\<close>)
qed (simp add: decide_def)

lemma process_frame_history: "reaches (\<lambda>_. evolves H s) (process_frame H cfg propose frame s)"
proof -
  have decided: "reaches (\<lambda>_. evolves H u) (decide_frame H cfg propose frame u)" for u
    unfolding decide_frame_def Let_def
    by (simp add: add_equity_def Let_def reaches_and_then [OF reaches_loop [OF decide_history]])
  have checked: "reaches (\<lambda>_. evolves H s) (and_then (assert_conservation (rs_ledger u), u) (\<lambda>_. decide_frame H cfg propose frame))"
    if "evolves H s u" for u
    using reaches_chain [OF that decided] by (cases "assert_conservation (rs_ledger u)") simp_all
  show ?thesis
    unfolding process_frame_def
    by (intro reaches_and_then [OF expire_orders_history] reaches_and_then [OF reaches_chain [OF _ reaches_loop [OF apply_action_history]]]
        reaches_and_then [OF reaches_chain [OF _ reaches_loop [OF process_bar_history]]] checked)
qed

lemma replay_history:
  assumes "replay_frames H cfg propose frames = Inr s"
  shows "explained H (rs_decisions s) (rs_fills s)"
proof -
  obtain l u where "for_each (process_frame H cfg propose) frames (start_state l) = (Inr u, s)"
    using assms by (auto simp: replay_frames_def bind_res_def split: sum.splits prod.splits)
  moreover have "reaches (\<lambda>_. evolves H (start_state l)) (for_each (process_frame H cfg propose) frames (start_state l))" for l
    by (rule reaches_loop) (rule process_frame_history)
  ultimately have "evolves H (start_state l) s" by (metis reaches_simps(2))
  moreover have "history H (start_state l)" by (simp add: start_state_def history_def explained_def)
  ultimately show ?thesis by (simp add: evolves_def history_def)
qed

subsection \<open>What the result shows\<close>

lemma sourced_fill:
  assumes "sourced H ds fs i" and "fill_of f i"
  shows "(\<exists>d \<in> set ds. dr_approved d \<and> dr_order_id d = Some (fe_order_id f) \<and>
      dr_instrument_id d = fe_instrument_id f \<and> di_as_of (dr_identity d) < fe_occurred_at f) \<or>
    (\<exists>g \<in> set fs. fe_order_id f \<in> protection_ids H g \<and> fe_instrument_id g = fe_instrument_id f \<and>
      fe_occurred_at g \<le> fe_occurred_at f)"
  using assms by (fastforce simp: sourced_def ordered_by_def protects_def fill_of_def)

lemma fill_bar:
  assumes "exchange_match H pol t b as_of sb = Inr (Some f)"
  shows "fe_occurred_at f = sb_available_at b" "sb_available_at b \<le> as_of" "\<not> sb_halted b"
    "sb_instrument_id b = fe_instrument_id f"
  using assms by (cases sb; auto simp: exchange_match_iff make_fill_def bar_excluded_def Let_def)+

end
