(* ===== verification/Sim_Properties.thy ===== *)
theory Sim_Properties
  imports Sim_Liveness Sim_Valuation Sim_History
begin

section \<open>Properties of the simulation\<close>

text \<open>
  The properties of \<open>src/hanalpha/simulation\<close>, each applied to a small concrete order, ledger or
  run below it.
\<close>

subsection \<open>A concrete order, ledger and run\<close>

definition demo_intent :: order_intent where
  "demo_intent = \<lparr>oi_order_id = ''o1'', oi_decision_id = ''d'', oi_instrument_id = ''AAPL'', oi_strategy_id = ''s'',
     oi_side = BUY, oi_kind = MARKET, oi_quantity = 2, oi_submitted_at = 10, oi_earliest_fill_at = 11,
     oi_expires_at = None, oi_planned_price = 100, oi_limit_price = None, oi_stop_price = None,
     oi_protective_stop = Some 95, oi_protective_target = None, oi_parent_order_id = None,
     oi_oco_group_id = None, oi_reduce_only = False\<rparr>"

definition demo_order :: tracked_order where
  "demo_order = \<lparr>to_intent = demo_intent, to_state = PROPOSED, to_filled_quantity = 0,
     to_average_fill_price = None, to_fill_ids = [], to_last_event_at = 10\<rparr>"

definition accepted_order :: tracked_order where
  "accepted_order = demo_order\<lparr>to_state := ACCEPTED\<rparr>"

definition zeros :: string where
  "zeros = replicate 64 CHR ''0''"

definition demo_policy :: portfolio_policy where
  "demo_policy = \<lparr>pp_max_gross_exposure = 1, pp_max_symbol_exposure = 1, pp_max_positions = 2,
     pp_max_risk_per_trade = 1 / 10, pp_max_total_risk = 1 / 10, pp_minimum_commission = 1\<rparr>"

definition demo_fill_policy :: fill_policy where
  "demo_fill_policy = \<lparr>fp_version = ''1'', fp_scenario = BASE, fp_spread_bps = 4, fp_slippage_bps = 5,
     fp_impact_bps = 2, fp_participation_rate = 1 / 10, fp_commission_per_share = 1 / 200, fp_minimum_commission = 1\<rparr>"

definition demo_config :: replay_config where
  "demo_config = \<lparr>rc_starting_cash = 10000, rc_portfolio_policy = demo_policy,
     rc_fill_policy = demo_fill_policy, rc_config_hash = zeros\<rparr>"

definition demo_bar :: "time \<Rightarrow> simulation_bar" where
  "demo_bar at = \<lparr>sb_snapshot_id = zeros, sb_instrument_id = ''AAPL'', sb_source_record_id = ''r'',
     sb_source_revision = 1, sb_event_time = at, sb_available_at = at, sb_open = 100, sb_high = 101, sb_low = 99,
     sb_close = 100, sb_volume = 10, sb_halted = False\<rparr>"

definition demo_frame :: "time \<Rightarrow> replay_frame" where
  "demo_frame at = \<lparr>rf_snapshot_id = zeros, rf_as_of = at, rf_bars = [demo_bar at],
     rf_bar_revisions = [], rf_actions = [], rf_action_revisions = []\<rparr>"

definition demo_propose :: candidate_policy where
  "demo_propose fr snap =
     [\<lparr>op_instrument_id = ''AAPL'', op_strategy_id = ''s'', op_strategy_version = ''1'', op_side = BUY,
       op_kind = MARKET, op_quantity = 10, op_planned_price = 100, op_limit_price = None, op_stop_price = None,
       op_protective_stop = Some 95, op_protective_target = None, op_expires_at = None,
       op_input_hash = zeros, op_signal_hash = zeros\<rparr>]"

definition demo_digest :: "json \<Rightarrow> string" where
  "demo_digest d = zeros"

text \<open>A digest that tells the documents of one order and its protection apart by their first key.\<close>

definition key_digest :: "json \<Rightarrow> string" where
  "key_digest d = (case d of JObj ((k, v) # kvs) \<Rightarrow> take 64 (replicate (length k) CHR ''a'' @ replicate 64 CHR ''0'') | _ \<Rightarrow> zeros)"

definition demo_fill :: fill_event where
  "demo_fill = \<lparr>fe_fill_id = ''f1'', fe_order_id = ''o1'', fe_instrument_id = ''AAPL'', fe_side = BUY, fe_quantity = 2,
     fe_price = 100, fe_commission = 1, fe_occurred_at = 20, fe_reason = ''market_open'',
     fe_source_record_id = ''r'', fe_source_revision = 1\<rparr>"

definition demo_sale :: fill_event where
  "demo_sale = demo_fill\<lparr>fe_fill_id := ''f2'', fe_order_id := ''o2'', fe_side := SELL\<rparr>"

definition demo_sell_intent :: order_intent where
  "demo_sell_intent = demo_intent\<lparr>oi_order_id := ''o2'', oi_side := SELL, oi_protective_stop := None\<rparr>"

definition demo_ops :: "ledger_op list" where
  "demo_ops = [Reserve demo_intent, Apply_Fill demo_fill, Release ''o1'', Mark ''AAPL'' 110,
     Split ''a1'' ''AAPL'' 2 30, Dividend ''a2'' ''AAPL'' 1 40, Reserve demo_sell_intent, Apply_Fill demo_sale]"

lemma demo_order_proposed: "proposed demo_intent = Inr demo_order"
  by (simp add: proposed_iff demo_intent_def demo_order_def validate_intent_def positive_opt_def)

lemma demo_intent_valid: "validate_intent demo_intent = Inr ()" "validate_intent demo_sell_intent = Inr ()"
  by (simp_all add: demo_intent_def demo_sell_intent_def validate_intent_def positive_opt_def)

lemma demo_fill_allowed: "fill_allowed demo_fill" "fill_allowed demo_sale"
  by (simp_all add: demo_fill_def demo_sale_def fill_allowed_def validate_fill_def)

lemma demo_ops_valid: "\<forall>op \<in> set demo_ops. op_valid op"
  by (simp add: demo_ops_def demo_intent_valid demo_fill_allowed)

lemma demo_ledger: "\<exists>s. new_ledger 10000 demo_policy = Inr s"
proof -
  have "is_ok (new_ledger 10000 demo_policy)" by code_simp
  then show ?thesis by (auto simp: is_ok_def split: sum.splits)
qed

subsection \<open>Orders\<close>

text \<open>C24: whatever calls are made on a proposed order, and whether they return or raise, the order stays
  well formed (state, filled quantity, fill ids and price agree), its filled quantity is the sum of
  the fills that were accepted, its average price is their quantity-weighted mean, and once it is
  terminal no further call changes it.\<close>

theorem order_lifecycle:
  assumes "proposed i = Inr t"
  shows "let t' = fold order_step ops t; fills = fills_of ops t in
    tracked_ok t' \<and> to_filled_quantity t' = total_of fst fills \<and>
    (fills \<noteq> [] \<longrightarrow> to_average_fill_price t' =
       Some (total_of (\<lambda>(q, p). of_int q * p) fills / of_int (total_of fst fills))) \<and>
    (terminal t' \<longrightarrow> fold order_step later t' = t')"
proof -
  let ?t = "fold order_step ops t"
  let ?fills = "fills_of ops t"
  have t: "tracked_ok t" "to_filled_quantity t = 0" "paid t = 0"
    using proposed_ok [OF assms] assms by (simp_all add: proposed_iff paid_def)
  have ok: "tracked_ok ?t" using order_run_ok [OF t(1)] .
  have run: "paid ?t = total_of (\<lambda>(q, p). of_int q * p) ?fills" "to_filled_quantity ?t = total_of fst ?fills"
    using run_paid [OF t(1), of ops] t by simp_all
  have "to_average_fill_price ?t = Some (paid ?t / of_int (to_filled_quantity ?t))" if "?fills \<noteq> []"
  proof -
    have "to_filled_quantity ?t \<noteq> 0"
      using that ok run(2) total_pos [of ?fills fst] fills_of_pos [of _ _ ops t] by fastforce
    then show ?thesis using ok by (auto simp: tracked_ok_def paid_def split: option.splits)
  qed
  moreover have "fold order_step later ?t = ?t" if "terminal ?t"
    using that by (induction later) (simp_all add: terminal_absorbs)
  ultimately show ?thesis using ok run by (simp add: Let_def)
qed

theorem order_lifecycle_witness:
  "tracked_ok (fold order_step [Accept 10, Fill ''f'' 1 100 20, Fill ''f'' 1 90 21, Fill ''g'' 1 102 22, Cancel 30] demo_order)"
  using order_lifecycle [OF demo_order_proposed,
    of "[Accept 10, Fill ''f'' 1 100 20, Fill ''f'' 1 90 21, Fill ''g'' 1 102 22, Cancel 30]" "[]"]
  by (simp only: Let_def)

text \<open>C38: an order's life is finite. However many calls are made, the number that succeed is at most
  the ordered quantity plus two (acceptance, and a final cancel or expiry).\<close>

theorem order_moves_are_bounded:
  assumes "proposed i = Inr t"
  shows "moves ops t \<le> nat (oi_quantity i) + 2"
proof -
  have "tracked_ok t" "order_rank t = nat (oi_quantity i) + 2"
    using proposed_ok [OF assms] assms by (simp_all add: proposed_iff order_rank_def terminal_def remaining_quantity_def)
  then show ?thesis using moves_bound [of t ops] by simp
qed

theorem order_moves_are_bounded_witness: "moves [Accept 10, Cancel 11, Cancel 12] demo_order \<le> 4"
  using order_moves_are_bounded [OF demo_order_proposed, of "[Accept 10, Cancel 11, Cancel 12]"]
  by (simp add: demo_intent_def)

subsection \<open>Fills\<close>

definition within_limit :: "order_intent \<Rightarrow> rat \<Rightarrow> bool" where
  "within_limit i p = (case oi_limit_price i of None \<Rightarrow> False
     | Some l \<Rightarrow> if oi_side i = BUY then p \<le> l else l \<le> p)"

text \<open>C23: a fill never looks ahead and never exceeds the market. It fills a live order in its own
  instrument on an unhalted first-revision bar that was available by \<open>as_of\<close>, after the order was
  submitted (or, for protection created on that very bar, at that moment) and before it expires;
  it takes no more than the order's remaining quantity and the participation share of the volume;
  and a limit is never crossed.\<close>

theorem fills_respect_the_market:
  assumes "exchange_match H pol t b as_of same_bar = Inr (Some f)"
  shows "live t \<and> sb_instrument_id b = oi_instrument_id (to_intent t) \<and> \<not> sb_halted b \<and> sb_source_revision b = 1 \<and>
    sb_available_at b \<le> as_of \<and> fe_occurred_at f = sb_available_at b \<and>
    oi_earliest_fill_at (to_intent t) \<le> fe_occurred_at f \<and>
    (oi_submitted_at (to_intent t) < fe_occurred_at f \<and> oi_submitted_at (to_intent t) \<le> sb_event_time b \<or>
     oi_reduce_only (to_intent t) \<and> oi_submitted_at (to_intent t) = fe_occurred_at f) \<and>
    (\<forall>e. oi_expires_at (to_intent t) = Some e \<longrightarrow> fe_occurred_at f \<le> e) \<and>
    0 < fe_quantity f \<and> fe_quantity f \<le> remaining_quantity t \<and>
    of_int (fe_quantity f) \<le> sb_volume b * fp_participation_rate pol \<and> 0 < fe_price f \<and>
    (oi_kind (to_intent t) \<in> {LIMIT, STOP_LIMIT} \<longrightarrow> within_limit (to_intent t) (fe_price f))"
proof -
  obtain raw reason price where f: "limit_capped (to_intent t) (cost_adjusted pol raw (oi_side (to_intent t))) = Inr price"
    "f = make_fill H pol t b (match_quantity pol t b) price reason" "validate_fill f = Inr ()"
    using assms by (auto simp: exchange_match_iff)
  have limit: "within_limit (to_intent t) price" if "oi_kind (to_intent t) \<in> {LIMIT, STOP_LIMIT}"
    using limit_capped_bound [OF f(1) that] by (cases "oi_side (to_intent t)") (auto simp: within_limit_def)
  have "\<not> bar_excluded (to_intent t) b as_of same_bar" and "live t" and
    "same_bar \<longrightarrow> oi_reduce_only (to_intent t) \<and> oi_submitted_at (to_intent t) = sb_available_at b" and
    "0 < match_quantity pol t b"
    using assms by (auto simp: exchange_match_iff)
  moreover have "0 < price" using f(2,3) by (simp add: validate_fill_def)
  ultimately show ?thesis
    using limit match_quantity_bounds [of pol t b] unfolding f(2)
    by (cases same_bar) (auto simp: bar_excluded_def split: option.splits)
qed

lemma accepted_order_match:
  "\<exists>f. exchange_match demo_digest demo_fill_policy accepted_order (demo_bar 20) 20 False = Inr (Some f)"
proof -
  have "case exchange_match demo_digest demo_fill_policy accepted_order (demo_bar 20) 20 False of
      Inr (Some f) \<Rightarrow> True | _ \<Rightarrow> False" by code_simp
  then show ?thesis by (auto split: sum.splits option.splits)
qed

theorem fills_respect_the_market_witness:
  "\<exists>f. exchange_match demo_digest demo_fill_policy accepted_order (demo_bar 20) 20 False = Inr (Some f) \<and>
     fe_quantity f \<le> 2 \<and> fe_occurred_at f = 20"
proof -
  obtain f where f: "exchange_match demo_digest demo_fill_policy accepted_order (demo_bar 20) 20 False = Inr (Some f)"
    using accepted_order_match by blast
  show ?thesis
    using fills_respect_the_market [OF f] f
    by (auto simp: accepted_order_def demo_order_def demo_intent_def demo_bar_def remaining_quantity_def)
qed

text \<open>C25: a market order is worked until it is filled. Against a sequence of tradable bars in time
  order, each with room for at least one share and at least as many as shares are left, matching and
  applying the fills succeeds at every bar and leaves the order filled.\<close>

theorem market_order_gets_filled:
  assumes "inj H" and "validate_fill_policy pol = Inr ()" and "proposed i = Inr p" and "accept p at = Inr t"
    and "oi_kind i = MARKET" and "\<forall>(as_of, b) \<in> set bs. tradable pol as_of i b"
    and "sorted (at # map (sb_available_at \<circ> snd) bs)" and "oi_quantity i \<le> int (length bs)"
  shows "\<exists>t'. work_order H pol bs t = Inr t' \<and> to_state t' = FILLED \<and> to_filled_quantity t' = oi_quantity i"
proof -
  have acc: "bind_res (proposed i) (\<lambda>t. accept t at) = Inr t" using assms(3,4) by simp
  note t = accepted_facts [OF acc]
  have "to_fill_ids t = []" "to_last_event_at t = at"
    using assms(3,4) by (auto simp: proposed_iff state_call_ok(1))
  then have "\<exists>t'. work_order H pol bs t = Inr t' \<and> to_state t' = FILLED \<and> to_intent t' = to_intent t \<and> tracked_ok t'"
    using market_work [OF assms(1,2) t(1), of bs] t(2-4) assms(5-8) by (simp add: ids_earlier_def)
  then show ?thesis using t(2) by (auto simp: tracked_ok_def)
qed

theorem market_order_gets_filled_witness:
  "\<exists>t'. work_order unary_digest demo_fill_policy [(20, demo_bar 20), (30, demo_bar 30)] accepted_order = Inr t' \<and>
     to_state t' = FILLED \<and> to_filled_quantity t' = oi_quantity demo_intent"
proof (rule market_order_gets_filled [OF inj_unary_digest _ demo_order_proposed])
  show "validate_fill_policy demo_fill_policy = Inr ()"
    by (simp add: validate_fill_policy_def demo_fill_policy_def)
  show "accept demo_order 10 = Inr accepted_order"
    using demo_intent_valid
    by (simp add: state_call_ok(1) accepted_order_def demo_order_def positive_opt_def)
  have "hash_pattern zeros" by code_simp
  then show "\<forall>(as_of, b) \<in> set [(20, demo_bar 20), (30, demo_bar 30)]. tradable demo_fill_policy as_of demo_intent b"
    by (simp add: tradable_def validate_bar_def demo_bar_def bar_excluded_def demo_intent_def demo_fill_policy_def)
qed (simp_all add: demo_intent_def demo_bar_def)

subsection \<open>The ledger\<close>

text \<open>a sale whose commission exceeds its notional is outside \<open>op_valid\<close> for a reason: the code validates it, takes
  the shares and the cash, and only then raises on the journal line, which leaves the books unbalanced.\<close>

definition dear_sale :: fill_event where
  "dear_sale = demo_fill\<lparr>fe_fill_id := ''f2'', fe_order_id := oi_order_id demo_sell_intent, fe_side := SELL, fe_quantity := 1,
     fe_price := 1, fe_commission := 5\<rparr>"

lemma excess_commission_breaks_books:
  "\<exists>s e t. new_ledger 10000 demo_policy = Inr s \<and> validate_fill dear_sale = Inr () \<and>
     ledger_apply_fill dear_sale (fold ledger_step [Reserve demo_intent, Apply_Fill demo_fill, Release ''o1'', Reserve demo_sell_intent] s)
       = (Inl e, t) \<and> assert_conservation t \<noteq> Inr ()"
proof -
  have "case new_ledger 10000 demo_policy of Inl x \<Rightarrow> False
    | Inr s \<Rightarrow> (case ledger_apply_fill dear_sale (fold ledger_step [Reserve demo_intent, Apply_Fill demo_fill, Release ''o1'',
        Reserve demo_sell_intent] s) of (r, t) \<Rightarrow> \<not> is_ok r \<and> assert_conservation t \<noteq> Inr ())"
    by code_simp
  moreover have "validate_fill dear_sale = Inr ()" by (simp add: dear_sale_def demo_fill_def validate_fill_def)
  ultimately show ?thesis by (auto simp: is_ok_def split: sum.splits prod.splits)
qed

text \<open>C5: the ledger conserves. After any sequence of calls, whichever of them raise, provided that reserved intents are
  validated, fills are validated and no sale's commission exceeds its notional, and no call reuses the
  identifier of the opening entry: \<open>assert_conservation\<close> passes, cash net of reservations is not negative, cash plus
  the cost of the open lots is the starting cash plus realised profit plus dividends, and no more than
  \<open>max_positions\<close> instruments are held or being bought.\<close>

theorem ledger_conserves:
  assumes "new_ledger x pol = Inr s" and "0 \<le> pp_minimum_commission pol" and "0 \<le> pp_max_positions pol"
    and "\<forall>op \<in> set ops. op_valid op"
  shows "let s' = fold ledger_step ops s in
    assert_conservation s' = Inr () \<and> 0 \<le> available_cash s' \<and> available_cash s' \<le> lg_cash s' \<and>
    lg_cash s' + lots_cost (lg_lots s') =
      lg_starting_cash s' + lg_realized_pnl s' - account_balance s' DIVIDEND_INCOME \<and>
    int (card (exposed_symbols s')) \<le> pp_max_positions (lg_policy s')"
proof -
  have "ledger_ok s" using new_ledger_ok [OF assms(1-3)] .
  then have ok: "ledger_ok (fold ledger_step ops s)"
    using assms(4) ledger_step_ok by (induction ops arbitrary: s) simp_all
  then have "reserves_ok (fold ledger_step ops s)" by (simp add: ledger_ok_def)
  then show ?thesis
    using ledger_ok_conserves [OF ok] balance_sheet [OF ok] reserved_nonneg
    by (simp add: Let_def reserves_ok_def available_cash_def)
qed

theorem ledger_conserves_witness:
  "\<exists>s. new_ledger 10000 demo_policy = Inr s \<and> assert_conservation (fold ledger_step demo_ops s) = Inr ()"
proof -
  obtain s where s: "new_ledger 10000 demo_policy = Inr s" using demo_ledger by blast
  have "assert_conservation (fold ledger_step demo_ops s) = Inr ()"
    using ledger_conserves [OF s _ _ demo_ops_valid] by (simp add: demo_policy_def Let_def)
  then show ?thesis using s by blast
qed

text \<open>C37: a call that raises changes nothing: on a ledger in good order, every operation with valid
  arguments either succeeds or leaves the ledger exactly as it was.\<close>

theorem raising_call_changes_nothing:
  assumes "ledger_ok s" and "op_valid op" and "ledger_exec op s = (Inl e, t)"
  shows "t = s"
  using assms by (rule raising_op_unchanged)

theorem raising_call_changes_nothing_witness:
  "\<exists>s e. new_ledger 10000 demo_policy = Inr s \<and> ledger_exec (Apply_Fill demo_sale) s = (Inl e, s)"
proof -
  obtain s where s: "new_ledger 10000 demo_policy = Inr s" using demo_ledger by blast
  have ok: "ledger_ok s" using new_ledger_ok [OF s] by (simp add: demo_policy_def)
  have "\<not> is_ok (fst (ledger_exec (Apply_Fill demo_sale) s))"
    using s by (auto simp: new_ledger_def Let_def ledger_apply_fill_def append_journal_def append_cash_def
        split: if_splits sum.splits)
  then obtain e t where e: "ledger_exec (Apply_Fill demo_sale) s = (Inl e, t)"
    by (cases "ledger_exec (Apply_Fill demo_sale) s"; cases "fst (ledger_exec (Apply_Fill demo_sale) s)") auto
  have "t = s" by (rule raising_call_changes_nothing [OF ok _ e]) (simp add: demo_fill_allowed)
  then show ?thesis using s e by blast
qed

text \<open>C22: what is reserved for sale is held. Along any sequence of calls with valid arguments (as for the conservation of
  the ledger) in which no intent names an empty OCO group, and every sell fill stays within its own
  reservation and comes when no other sale of its OCO group is reserved any more, the quantity reserved for sale in an
  instrument, counting each OCO group once by its largest member, never exceeds the position.\<close>

theorem reserved_sales_are_covered:
  assumes "new_ledger x pol = Inr s" and "0 \<le> pp_minimum_commission pol" and "0 \<le> pp_max_positions pol"
    and "cover_sys.allowed_run ops s"
  shows "reserved_sell_quantity (fold ledger_step ops s) i \<le> position_quantity (fold ledger_step ops s) i"
proof -
  have "ledger_ok s \<and> covered s" using cover_sys.init_inv assms(1-3) unfolding opened_def by blast
  then show ?thesis using cover_sys.run_inv [OF _ assms(4)] by (simp add: covered_def)
qed

theorem reserved_sales_are_covered_witness:
  "\<exists>s. new_ledger 10000 demo_policy = Inr s \<and>
     (let t = fold ledger_step [Reserve demo_intent, Apply_Fill demo_fill, Release ''o1'', Reserve demo_sell_intent] s in
      reserved_sell_quantity t ''AAPL'' \<le> position_quantity t ''AAPL'')"
proof -
  obtain s where s: "new_ledger 10000 demo_policy = Inr s" using demo_ledger by blast
  have "case new_ledger 10000 demo_policy of Inr s \<Rightarrow> sole_seller demo_fill (ledger_step (Reserve demo_intent) s) | _ \<Rightarrow> False"
    by code_simp
  then have "sole_seller demo_fill (ledger_step (Reserve demo_intent) s)" using s by simp
  then have run: "cover_sys.allowed_run [Reserve demo_intent, Apply_Fill demo_fill, Release ''o1'', Reserve demo_sell_intent] s"
    using demo_intent_valid demo_fill_allowed(1) by (simp add: demo_sell_intent_def demo_intent_def)
  have pol: "0 \<le> pp_minimum_commission demo_policy" "0 \<le> pp_max_positions demo_policy" by (simp_all add: demo_policy_def)
  show ?thesis using reserved_sales_are_covered [OF s pol run] s unfolding Let_def by blast
qed

text \<open>a stock split moves no value. Where \<open>apply_split\<close> succeeds, the held quantity is multiplied by
  the ratio and the net liquidation value, the open risk, the cash and the cost of the lots stay
  exactly as they were.\<close>

theorem split_moves_no_value:
  assumes "ledger_ok s" and "apply_split a i k at s = (Inr u, t)"
  shows "position_quantity t i = k * position_quantity s i \<and> lg_cash t = lg_cash s \<and>
    lots_cost (lg_lots t) = lots_cost (lg_lots s) \<and>
    ps_net_liquidation (ledger_snapshot t now) = ps_net_liquidation (ledger_snapshot s now) \<and>
    ps_open_risk (ledger_snapshot t now) = ps_open_risk (ledger_snapshot s now)"
proof -
  have c: "a \<notin> lg_event_ids s \<and> 0 < k \<and> \<not> list_ex (\<lambda>r. rv_instrument_id r = i) (lg_reservations s)"
    using assms(2) by (auto simp: apply_split_def require_new_event_def require_no_reservations_def split: sum.splits)
  have "a \<notin> journal_ids s"
    using fresh_event [of s a] action_fresh(1) [OF assms] c assms(1) by (simp add: ledger_ok_def)
  then have t: "t = split_ledger a i k at s" using split_succeeds [of a s k i at] c assms(2) by simp
  have "lots_quantity i (map (split_lot i k) ls) = k * lots_quantity i ls"
    "lots_cost (map (split_lot i k) ls) = lots_cost ls" for ls
    using c by (induction ls) (auto simp: split_lot_def algebra_simps)
  then show ?thesis using c split_neutral [of k a i at s now]
    unfolding t by (simp add: position_quantity_def split_ledger_def)
qed

theorem split_moves_no_value_witness:
  "\<exists>s t. new_ledger 10000 demo_policy = Inr s \<and> apply_split ''a1'' ''AAPL'' 2 30 s = (Inr (), t) \<and>
     ps_net_liquidation (ledger_snapshot t 40) = ps_net_liquidation (ledger_snapshot s 40)"
proof -
  obtain s where s: "new_ledger 10000 demo_policy = Inr s" using demo_ledger by blast
  have ok: "ledger_ok s" using new_ledger_ok [OF s] by (simp add: demo_policy_def)
  have "case new_ledger 10000 demo_policy of Inr s \<Rightarrow> is_ok (fst (apply_split ''a1'' ''AAPL'' 2 30 s)) | _ \<Rightarrow> False"
    by code_simp
  then have "is_ok (fst (apply_split ''a1'' ''AAPL'' 2 30 s))" using s by simp
  then obtain t where t: "apply_split ''a1'' ''AAPL'' 2 30 s = (Inr (), t)"
    by (cases "apply_split ''a1'' ''AAPL'' 2 30 s") (auto simp: is_ok_def split: sum.splits)
  show ?thesis using split_moves_no_value [OF ok t] s t by blast
qed

text \<open>without marks the snapshot is the balance sheet: the net liquidation value is the starting
  cash plus realised profit plus the dividends booked.\<close>

theorem unmarked_snapshot_is_the_balance_sheet:
  assumes "ledger_ok s" and "lg_marks s = Map.empty"
  shows "ps_net_liquidation (ledger_snapshot s now) =
    lg_starting_cash s + lg_realized_pnl s - account_balance s DIVIDEND_INCOME"
  using unmarked_net_liquidation [OF assms, of now] balance_sheet [OF assms(1)] by simp

theorem unmarked_snapshot_is_the_balance_sheet_witness:
  "\<exists>s. new_ledger 10000 demo_policy = Inr s \<and> ps_net_liquidation (ledger_snapshot s 40) =
     lg_starting_cash s + lg_realized_pnl s - account_balance s DIVIDEND_INCOME"
proof -
  obtain s where s: "new_ledger 10000 demo_policy = Inr s" using demo_ledger by blast
  have ok: "ledger_ok s" using new_ledger_ok [OF s] by (simp add: demo_policy_def)
  have "lg_marks s = Map.empty"
    using s by (auto simp: new_ledger_def Let_def append_journal_def append_cash_def split: if_splits sum.splits)
  then show ?thesis using unmarked_snapshot_is_the_balance_sheet [OF ok] s by blast
qed

subsection \<open>The replay\<close>

text \<open>C26: a replay never fails an assertion. Neither \<open>assert_conservation\<close> nor an assertion of the
  fill model can fail in a run, whatever the frames, the candidate policy and the digest.\<close>

theorem replay_never_fails_an_assertion:
  assumes "0 \<le> pp_minimum_commission (rc_portfolio_policy cfg)" and "0 \<le> pp_max_positions (rc_portfolio_policy cfg)"
  shows "run H cfg propose frames \<noteq> Inl (AssertionError m)"
proof
  assume run: "run H cfg propose frames = Inl (AssertionError m)"
  have "\<not> is_assertion e" if "replay_result_of H s = Inl e" for s e
    using that by (auto simp: replay_result_of_def Let_def bind_res_def split: sum.splits elim!: checks_value_error)
  moreover have "\<not> is_assertion e" if "replay_frames H cfg propose frames = Inl e" for e
    using replay_ok [OF assms, where H = H and propose = propose and frames = frames] that by simp
  moreover have "\<not> is_assertion e" if "checks
     [(frames \<noteq> [], ValueError ''replay requires at least one frame''),
      (sorted (map rf_as_of frames), ValueError ''replay frames must be monotonic''),
      (length (remdups (map rf_snapshot_id frames)) = 1, ValueError ''replay frames must use one snapshot'')] = Inl e" for e
    using that by (rule checks_value_error) auto
  ultimately show False
    using run by (fastforce simp: run_def bind_res_def split: sum.splits)
qed

theorem replay_never_fails_an_assertion_witness:
  "run demo_digest demo_config demo_propose [demo_frame 10, demo_frame 20] \<noteq> Inl (AssertionError ''cash ledger mismatch'')"
  by (rule replay_never_fails_an_assertion) (simp_all add: demo_config_def demo_policy_def)

lemma linked_ids:
  assumes "engine_linked {} s"
  shows "rv_order_id ` set (lg_reservations (rs_ledger s)) = order_key ` {t \<in> set (rs_orders s). live t}"
proof (intro equalityI image_subsetI)
  fix r assume "r \<in> set (lg_reservations (rs_ledger s))"
  then obtain t where "t \<in> set (rs_orders s)" "live t" "reserved_for r t"
    using assms by (auto simp: engine_linked_def)
  then show "rv_order_id r \<in> order_key ` {t \<in> set (rs_orders s). live t}" using reserved_for_id by auto
next
  fix t assume "t \<in> {t \<in> set (rs_orders s). live t}"
  then obtain r where "r \<in> set (lg_reservations (rs_ledger s))" "rv_order_id r = order_key t"
    using assms by (auto simp: engine_linked_def)
  then show "order_key t \<in> rv_order_id ` set (lg_reservations (rs_ledger s))" by (metis image_eqI)
qed

text \<open>C4: orders and reservations correspond. When a replay returns, the books are right, every order is
  well formed, each order still live holds a reservation, and each reservation belongs to exactly such
  an order with its instrument, side and (for a sale) remaining quantity: no capital stays reserved
  for a finished order. One equity point was recorded per frame, in their order.\<close>

theorem replay_links_orders_and_reservations:
  assumes "replay_frames H cfg propose frames = Inr s"
    and "0 \<le> pp_minimum_commission (rc_portfolio_policy cfg)" and "0 \<le> pp_max_positions (rc_portfolio_policy cfg)"
  shows "ledger_ok (rs_ledger s) \<and> (\<forall>t \<in> set (rs_orders s). tracked_ok t) \<and>
    rv_order_id ` set (lg_reservations (rs_ledger s)) = order_key ` {t \<in> set (rs_orders s). live t} \<and>
    (\<forall>r \<in> set (lg_reservations (rs_ledger s)). \<exists>t \<in> set (rs_orders s). live t \<and> reserved_for r t) \<and>
    map ep_as_of (rs_equity s) = map rf_as_of frames"
proof -
  obtain E where E: "map ep_as_of E = map rf_as_of frames" "engine_ok (traded_in H (rc_fill_policy cfg) frames) E {} s"
    using replay_ok [OF assms(2,3), where H = H and propose = propose and frames = frames] assms(1) by auto
  then have "engine_linked {} s" by (simp add: engine_ok_def)
  then have "rv_order_id ` set (lg_reservations (rs_ledger s)) = order_key ` {t \<in> set (rs_orders s). live t}"
    by (rule linked_ids)
  then show ?thesis using E \<open>engine_linked {} s\<close> by (simp add: engine_ok_def orders_ok_def engine_linked_def)
qed

lemma demo_replay: "\<exists>s. replay_frames demo_digest demo_config demo_propose [demo_frame 10] = Inr s"
proof -
  have "is_ok (replay_frames demo_digest demo_config demo_propose [demo_frame 10])" by code_simp
  then show ?thesis by (auto simp: is_ok_def split: sum.splits)
qed

theorem replay_links_orders_and_reservations_witness:
  "\<exists>s. replay_frames demo_digest demo_config demo_propose [demo_frame 10] = Inr s \<and>
     rv_order_id ` set (lg_reservations (rs_ledger s)) = order_key ` {t \<in> set (rs_orders s). live t}"
proof -
  obtain s where s: "replay_frames demo_digest demo_config demo_propose [demo_frame 10] = Inr s"
    using demo_replay by blast
  show ?thesis using replay_links_orders_and_reservations [OF s] s by (simp add: demo_config_def demo_policy_def)
qed

text \<open>C6: a replay does not look ahead. Every fill of a run comes from a bar of one of its frames, at the
  moment the bar became available and no later than the frame. The order it is for was approved by a decision the
  result records, taken strictly before the fill, or is protection whose id derives from a fill recorded
  earlier in the run, no later than this one.\<close>

theorem replay_does_not_look_ahead:
  assumes "run H cfg propose frames = Inr r"
    and "0 \<le> pp_minimum_commission (rc_portfolio_policy cfg)" and "0 \<le> pp_max_positions (rc_portfolio_policy cfg)"
    and "k < length (rr_fills r)" and "f = rr_fills r ! k"
  shows "(\<exists>fr \<in> set frames. \<exists>b \<in> set (rf_bars fr). fe_occurred_at f = sb_available_at b \<and>
      sb_available_at b \<le> rf_as_of fr \<and> \<not> sb_halted b \<and> sb_instrument_id b = fe_instrument_id f) \<and>
    ((\<exists>d \<in> set (rr_decisions r). dr_approved d \<and> dr_order_id d = Some (fe_order_id f) \<and>
        dr_instrument_id d = fe_instrument_id f \<and> di_as_of (dr_identity d) < fe_occurred_at f) \<or>
     (\<exists>g \<in> set (take k (rr_fills r)). fe_order_id f \<in> protection_ids H g \<and>
        fe_instrument_id g = fe_instrument_id f \<and> fe_occurred_at g \<le> fe_occurred_at f))"
proof
  obtain s where s: "replay_frames H cfg propose frames = Inr s" "rr_fills r = rs_fills s" "rr_decisions r = rs_decisions s"
    using assms(1) by (auto simp: run_def replay_result_of_def Let_def)
  have "f \<in> set (rs_fills s)" using assms(4,5) s(2) by simp
  then have "traded_in H (rc_fill_policy cfg) frames f"
    using replay_ok [OF assms(2,3), where H = H and propose = propose and frames = frames] s(1) by (auto simp: engine_ok_def)
  then show "\<exists>fr \<in> set frames. \<exists>b \<in> set (rf_bars fr). fe_occurred_at f = sb_available_at b \<and>
      sb_available_at b \<le> rf_as_of fr \<and> \<not> sb_halted b \<and> sb_instrument_id b = fe_instrument_id f"
    unfolding traded_in_def by (elim bexE exE conjE, intro bexI) (auto simp: fill_bar)
  obtain i where "sourced H (rs_decisions s) (take k (rs_fills s)) i" "fill_of f i"
    using replay_history [OF s(1)] assms(4,5) s(2) by (auto simp: explained_def)
  then show "(\<exists>d \<in> set (rr_decisions r). dr_approved d \<and> dr_order_id d = Some (fe_order_id f) \<and>
        dr_instrument_id d = fe_instrument_id f \<and> di_as_of (dr_identity d) < fe_occurred_at f) \<or>
     (\<exists>g \<in> set (take k (rr_fills r)). fe_order_id f \<in> protection_ids H g \<and>
        fe_instrument_id g = fe_instrument_id f \<and> fe_occurred_at g \<le> fe_occurred_at f)"
    unfolding s by (rule sourced_fill)
qed

text \<open>A policy that proposes in the first frame only, and a run in which the proposal is filled in the second.\<close>

definition early_propose :: candidate_policy where
  "early_propose fr snap = (if rf_as_of fr \<le> 10 then demo_propose fr snap else [])"

lemma early_run:
  "\<exists>s. replay_frames key_digest demo_config early_propose [demo_frame 10, demo_frame 20] = Inr s \<and> rs_fills s \<noteq> []"
proof -
  have "case replay_frames key_digest demo_config early_propose [demo_frame 10] of Inl e \<Rightarrow> False
    | Inr s \<Rightarrow> (case expire_orders 20 s of (r, s2) \<Rightarrow> (case process_bar key_digest demo_fill_policy 20 (demo_bar 20) s2 of
        (q, s3) \<Rightarrow> r = Inr () \<and> q = Inr () \<and> rs_fills s3 \<noteq> [] \<and> assert_conservation (rs_ledger s3) = Inr ()))"
    by code_simp
  then obtain s s2 s3 where s: "replay_frames key_digest demo_config early_propose [demo_frame 10] = Inr s"
    "expire_orders 20 s = (Inr (), s2)" "process_bar key_digest demo_fill_policy 20 (demo_bar 20) s2 = (Inr (), s3)"
    "rs_fills s3 \<noteq> []" "assert_conservation (rs_ledger s3) = Inr ()"
    by (auto split: sum.splits prod.splits)
  have second: "process_frame key_digest demo_config early_propose (demo_frame 20) s = (Inr (), add_equity 20 s3)"
    using s(2-5) by (simp add: process_frame_def demo_frame_def demo_config_def decide_frame_def early_propose_def)
  have "replay_frames key_digest demo_config early_propose [demo_frame 10, demo_frame 20] = Inr (add_equity 20 s3)"
    using s(1) second
    by (auto simp: replay_frames_def bind_res_def and_then_def split: sum.splits prod.splits)
  then show ?thesis using s(4) by (simp add: add_equity_def Let_def)
qed

lemma key_digest_pattern: "hash_pattern (key_digest d)"
proof -
  have "hash_pattern (take 64 (replicate n CHR ''a'' @ replicate 64 CHR ''0''))" for n
    by (auto simp: hash_pattern_def list_all_iff is_hex_digit_def dest!: in_set_takeD)
  moreover have "hash_pattern zeros" by code_simp
  ultimately show ?thesis by (auto simp: key_digest_def split: json.split list.split)
qed

theorem replay_does_not_look_ahead_witness:
  "\<exists>r. run key_digest demo_config early_propose [demo_frame 10, demo_frame 20] = Inr r \<and> rr_fills r \<noteq> [] \<and>
     (\<exists>d \<in> set (rr_decisions r). dr_order_id d = Some (fe_order_id (rr_fills r ! 0)) \<and>
        di_as_of (dr_identity d) < fe_occurred_at (rr_fills r ! 0))"
proof -
  obtain s where s: "replay_frames key_digest demo_config early_propose [demo_frame 10, demo_frame 20] = Inr s"
    "rs_fills s \<noteq> []" using early_run by blast
  then obtain r where r: "run key_digest demo_config early_propose [demo_frame 10, demo_frame 20] = Inr r" "rr_fills r \<noteq> []"
    by (simp add: run_def replay_result_of_def Let_def checks.simps key_digest_pattern canonical_hash_def demo_frame_def)
  show ?thesis using replay_does_not_look_ahead [OF r(1) _ _ _ refl, of 0] r by (auto simp: demo_config_def demo_policy_def)
qed

end
