(* ===== verification/Trade_Models.thy ===== *)
theory Trade_Models
  imports Domain
begin

section \<open>Trading documents\<close>

text \<open>
  \<open>src/hanalpha/domain/models.py\<close>: the documents the trading loop passes around, one record per
  class, with its field constraints and model validator in the order pydantic runs them (fields first).
  Timestamps are aware by construction. The \<open>*_doc\<close> functions are \<open>model_dump(mode="json")\<close>.
\<close>

subsection \<open>Market data\<close>

record trade_bar =
  br_symbol :: string
  br_timestamp :: time
  br_open :: rat
  br_high :: rat
  br_low :: rat
  br_close :: rat
  br_volume :: rat

definition validate_trade_bar :: "trade_bar \<Rightarrow> unit res" where
  "validate_trade_bar b = checks
     [(1 \<le> length (br_symbol b) \<and> length (br_symbol b) \<le> 20, ValueError ''symbol''),
      (br_open b > 0, ValueError ''open''),
      (br_high b > 0, ValueError ''high''),
      (br_low b > 0, ValueError ''low''),
      (br_close b > 0, ValueError ''close''),
      (br_volume b \<ge> 0, ValueError ''volume''),
      (br_high b \<ge> max (max (br_open b) (br_close b)) (br_low b),
       ValueError ''high must be the maximum OHLC value''),
      (br_low b \<le> min (min (br_open b) (br_close b)) (br_high b),
       ValueError ''low must be the minimum OHLC value'')]"

record trade_quote =
  qt_symbol :: string
  qt_timestamp :: time
  qt_bid :: rat
  qt_ask :: rat
  qt_last :: rat
  qt_bid_size :: rat
  qt_ask_size :: rat

definition validate_quote :: "trade_quote \<Rightarrow> unit res" where
  "validate_quote q = checks
     [(qt_bid q > 0, ValueError ''bid''),
      (qt_ask q > 0, ValueError ''ask''),
      (qt_last q > 0, ValueError ''last''),
      (qt_bid_size q \<ge> 0, ValueError ''bid_size''),
      (qt_ask_size q \<ge> 0, ValueError ''ask_size''),
      (qt_ask q \<ge> qt_bid q, ValueError ''ask cannot be below bid'')]"

text \<open>\<open>Quote.age_seconds\<close>: never negative; \<open>timedelta.total_seconds\<close> is exact.\<close>

definition age_seconds :: "trade_quote \<Rightarrow> time \<Rightarrow> rat" where
  "age_seconds q now = max 0 (of_int (now - qt_timestamp q) / 1000000)"

subsection \<open>Evidence, catalysts and signals\<close>

record evidence_item =
  ei_evidence_id :: string
  ei_source :: string
  ei_title :: string
  ei_observed_at :: time
  ei_available_at :: time
  ei_payload_hash :: string
  ei_summary :: string
  ei_metadata :: "(string \<times> json) list"

definition validate_evidence :: "evidence_item \<Rightarrow> unit res" where
  "validate_evidence e = checks
     [(3 \<le> length (ei_evidence_id e) \<and> length (ei_evidence_id e) \<le> 120, ValueError ''evidence_id''),
      (2 \<le> length (ei_source e) \<and> length (ei_source e) \<le> 100, ValueError ''source''),
      (1 \<le> length (ei_title e) \<and> length (ei_title e) \<le> 500, ValueError ''title''),
      (8 \<le> length (ei_payload_hash e) \<and> length (ei_payload_hash e) \<le> 128, ValueError ''payload_hash''),
      (1 \<le> length (ei_summary e) \<and> length (ei_summary e) \<le> 4000, ValueError ''summary''),
      (ei_available_at e \<le> ei_observed_at e, ValueError ''available_at cannot be later than observed_at'')]"

record catalyst =
  ca_symbol :: string
  ca_category :: string
  ca_score :: rat
  ca_direction :: signal_action
  ca_published_at :: time
  ca_available_at :: time
  ca_headline :: string
  ca_evidence_ids :: "string list"

definition validate_catalyst :: "catalyst \<Rightarrow> unit res" where
  "validate_catalyst c = checks
     [(0 \<le> ca_score c \<and> ca_score c \<le> 1, ValueError ''score''),
      (1 \<le> length (ca_headline c) \<and> length (ca_headline c) \<le> 1000, ValueError ''headline''),
      (ca_evidence_ids c \<noteq> [], ValueError ''evidence_ids''),
      (ca_published_at c \<le> ca_available_at c, ValueError ''available_at cannot precede published_at'')]"

record signal =
  sg_signal_id :: string
  sg_symbol :: string
  sg_strategy :: string
  sg_action :: signal_action
  sg_generated_at :: time
  sg_confidence :: rat
  sg_reference_price :: rat
  sg_stop_price :: rat
  sg_target_price :: rat
  sg_score_components :: "(string \<times> rat) list"
  sg_evidence_ids :: "string list"
  sg_metadata :: "(string \<times> json) list"

definition validate_signal :: "signal \<Rightarrow> unit res" where
  "validate_signal s = checks
     [(0 \<le> sg_confidence s \<and> sg_confidence s \<le> 1, ValueError ''confidence''),
      (sg_reference_price s > 0, ValueError ''reference_price''),
      (sg_stop_price s > 0, ValueError ''stop_price''),
      (sg_target_price s > 0, ValueError ''target_price''),
      (sg_action s = SA_BUY \<longrightarrow>
         sg_stop_price s < sg_reference_price s \<and> sg_reference_price s < sg_target_price s,
       ValueError ''BUY signal requires stop < reference < target''),
      (sg_action s = SA_SELL \<longrightarrow>
         sg_target_price s < sg_reference_price s \<and> sg_reference_price s < sg_stop_price s,
       ValueError ''SELL signal requires target < reference < stop'')]"

record agent_assessment =
  aa_agent_name :: string
  aa_action :: signal_action
  aa_confidence :: rat
  aa_rationale :: string
  aa_evidence_ids :: "string list"
  aa_invalidators :: "string list"
  aa_veto :: bool

definition validate_assessment :: "agent_assessment \<Rightarrow> unit res" where
  "validate_assessment a = checks
     [(0 \<le> aa_confidence a \<and> aa_confidence a \<le> 1, ValueError ''confidence''),
      (1 \<le> length (aa_rationale a) \<and> length (aa_rationale a) \<le> 4000, ValueError ''rationale'')]"

text \<open>The metrics of a regime are numbers or texts.\<close>

record regime_snapshot =
  rg_regime :: market_regime
  rg_timestamp :: time
  rg_risk_multiplier :: rat
  rg_max_gross_exposure :: rat
  rg_allowed_strategies :: "string list"
  rg_metrics :: "(string \<times> json) list"

definition validate_regime :: "regime_snapshot \<Rightarrow> unit res" where
  "validate_regime r = checks
     [(0 \<le> rg_risk_multiplier r \<and> rg_risk_multiplier r \<le> 3 / 2, ValueError ''risk_multiplier''),
      (0 \<le> rg_max_gross_exposure r \<and> rg_max_gross_exposure r \<le> 3 / 2, ValueError ''max_gross_exposure'')]"

subsection \<open>Plans, decisions and orders\<close>

record trade_plan =
  tp_plan_id :: string
  tp_signal_id :: string
  tp_symbol :: string
  tp_strategy :: string
  tp_side :: side
  tp_created_at :: time
  tp_entry_price :: rat
  tp_stop_price :: rat
  tp_target_price :: rat
  tp_quantity :: int
  tp_max_holding_bars :: int
  tp_evidence_ids :: "string list"
  tp_invalidators :: "string list"
  tp_idempotency_key :: string
  tp_metadata :: "(string \<times> json) list"

definition validate_plan :: "trade_plan \<Rightarrow> unit res" where
  "validate_plan p = checks
     [(tp_entry_price p > 0, ValueError ''entry_price''),
      (tp_stop_price p > 0, ValueError ''stop_price''),
      (tp_target_price p > 0, ValueError ''target_price''),
      (tp_quantity p > 0, ValueError ''quantity''),
      (tp_max_holding_bars p > 0, ValueError ''max_holding_bars''),
      (8 \<le> length (tp_idempotency_key p) \<and> length (tp_idempotency_key p) \<le> 128, ValueError ''idempotency_key'')]"

definition plan_notional :: "trade_plan \<Rightarrow> rat" where
  "plan_notional p = tp_entry_price p * of_int (tp_quantity p)"

definition plan_risk_dollars :: "trade_plan \<Rightarrow> rat" where
  "plan_risk_dollars p = \<bar>tp_entry_price p - tp_stop_price p\<bar> * of_int (tp_quantity p)"

record risk_decision =
  rd_approved :: bool
  rd_reason_codes :: "string list"
  rd_approved_quantity :: int
  rd_risk_dollars :: rat
  rd_gross_exposure_after :: rat
  rd_reviewed_at :: time

definition validate_risk_decision :: "risk_decision \<Rightarrow> unit res" where
  "validate_risk_decision d = checks
     [(rd_approved_quantity d \<ge> 0, ValueError ''approved_quantity''),
      (rd_risk_dollars d \<ge> 0, ValueError ''risk_dollars''),
      (rd_gross_exposure_after d \<ge> 0, ValueError ''gross_exposure_after'')]"

record order_request =
  or_order_id :: string
  or_plan_id :: string
  or_symbol :: string
  or_side :: side
  or_quantity :: int
  or_limit_price :: rat
  or_stop_price :: rat
  or_target_price :: rat
  or_idempotency_key :: string
  or_status :: order_status
  or_created_at :: time

definition validate_request :: "order_request \<Rightarrow> unit res" where
  "validate_request r = checks
     [(or_quantity r > 0, ValueError ''quantity''),
      (or_limit_price r > 0, ValueError ''limit_price''),
      (or_stop_price r > 0, ValueError ''stop_price''),
      (or_target_price r > 0, ValueError ''target_price'')]"

record order_event =
  ev_order_id :: string
  ev_status :: order_status
  ev_timestamp :: time
  ev_filled_quantity :: int
  ev_remaining_quantity :: int
  ev_average_fill_price :: "rat option"
  ev_message :: string
  ev_broker_order_id :: "string option"

definition validate_order_event :: "order_event \<Rightarrow> unit res" where
  "validate_order_event e = checks
     [(ev_filled_quantity e \<ge> 0, ValueError ''filled_quantity''),
      (ev_remaining_quantity e \<ge> 0, ValueError ''remaining_quantity''),
      (case ev_average_fill_price e of None \<Rightarrow> True | Some p \<Rightarrow> p > 0, ValueError ''average_fill_price'')]"

subsection \<open>Positions and accounts\<close>

record trade_position =
  ps_symbol :: string
  ps_quantity :: int
  ps_average_cost :: rat
  ps_mark_price :: rat
  ps_sector :: string

definition validate_position :: "trade_position \<Rightarrow> unit res" where
  "validate_position p = checks
     [(ps_average_cost p > 0, ValueError ''average_cost''),
      (ps_mark_price p > 0, ValueError ''mark_price'')]"

definition position_value :: "trade_position \<Rightarrow> rat" where
  "position_value p = of_int (ps_quantity p) * ps_mark_price p"

definition unrealized_pnl :: "trade_position \<Rightarrow> rat" where
  "unrealized_pnl p = of_int (ps_quantity p) * (ps_mark_price p - ps_average_cost p)"

record account_snapshot =
  ac_timestamp :: time
  ac_net_liquidation :: rat
  ac_cash :: rat
  ac_buying_power :: rat
  ac_daily_pnl :: rat
  ac_peak_net_liquidation :: rat
  ac_positions :: "trade_position list"
  ac_connected :: bool

definition validate_account :: "account_snapshot \<Rightarrow> unit res" where
  "validate_account a = checks
     [(ac_net_liquidation a > 0, ValueError ''net_liquidation''),
      (ac_buying_power a \<ge> 0, ValueError ''buying_power''),
      (ac_peak_net_liquidation a > 0, ValueError ''peak_net_liquidation'')]"

definition gross_exposure :: "account_snapshot \<Rightarrow> rat" where
  "gross_exposure a = total_of (\<lambda>p. \<bar>position_value p\<bar>) (ac_positions a) / ac_net_liquidation a"

definition drawdown_pct :: "account_snapshot \<Rightarrow> rat" where
  "drawdown_pct a = (if ac_peak_net_liquidation a \<le> 0 then 0
     else max 0 ((ac_peak_net_liquidation a - ac_net_liquidation a) / ac_peak_net_liquidation a))"

record trade_fill =
  tf_order_id :: string
  tf_symbol :: string
  tf_side :: side
  tf_quantity :: int
  tf_price :: rat
  tf_commission :: rat
  tf_timestamp :: time

definition validate_trade_fill :: "trade_fill \<Rightarrow> unit res" where
  "validate_trade_fill f = checks
     [(tf_quantity f > 0, ValueError ''quantity''),
      (tf_price f > 0, ValueError ''price''),
      (tf_commission f \<ge> 0, ValueError ''commission'')]"

subsection \<open>JSON forms\<close>

definition action_value :: "signal_action \<Rightarrow> string" where
  "action_value a = (case a of SA_BUY \<Rightarrow> ''BUY'' | SA_SELL \<Rightarrow> ''SELL'' | SA_HOLD \<Rightarrow> ''HOLD'' | SA_VETO \<Rightarrow> ''VETO'')"

definition regime_value :: "market_regime \<Rightarrow> string" where
  "regime_value r = (case r of RISK_ON \<Rightarrow> ''RISK_ON'' | NEUTRAL \<Rightarrow> ''NEUTRAL'' | RISK_OFF \<Rightarrow> ''RISK_OFF''
     | UNKNOWN_REGIME \<Rightarrow> ''UNKNOWN'')"

definition order_status_value :: "order_status \<Rightarrow> string" where
  "order_status_value s = (case s of OS_PROPOSED \<Rightarrow> ''PROPOSED'' | OS_RISK_APPROVED \<Rightarrow> ''RISK_APPROVED''
     | OS_REJECTED \<Rightarrow> ''REJECTED'' | OS_SUBMITTING \<Rightarrow> ''SUBMITTING'' | OS_SUBMITTED \<Rightarrow> ''SUBMITTED''
     | OS_PARTIALLY_FILLED \<Rightarrow> ''PARTIALLY_FILLED'' | OS_FILLED \<Rightarrow> ''FILLED''
     | OS_CANCEL_PENDING \<Rightarrow> ''CANCEL_PENDING'' | OS_CANCELLED \<Rightarrow> ''CANCELLED'' | OS_STALE \<Rightarrow> ''STALE''
     | OS_ERROR \<Rightarrow> ''ERROR'')"

definition mode_value :: "operating_mode \<Rightarrow> string" where
  "mode_value m = (case m of RESEARCH \<Rightarrow> ''research'' | BACKTEST \<Rightarrow> ''backtest'' | SHADOW \<Rightarrow> ''shadow''
     | PAPER_MANUAL \<Rightarrow> ''paper_manual'' | PAPER_AUTO \<Rightarrow> ''paper_auto'' | LIVE_PROPOSAL \<Rightarrow> ''live_proposal'')"

definition strings_doc :: "string list \<Rightarrow> json" where
  "strings_doc xs = JArr (map JStr xs)"

definition bar_doc :: "trade_bar \<Rightarrow> json" where
  "bar_doc b = JObj [(''symbol'', JStr (br_symbol b)), (''timestamp'', JTime (br_timestamp b)),
     (''open'', JNum (br_open b)), (''high'', JNum (br_high b)), (''low'', JNum (br_low b)),
     (''close'', JNum (br_close b)), (''volume'', JNum (br_volume b))]"

definition quote_doc :: "trade_quote \<Rightarrow> json" where
  "quote_doc q = JObj [(''symbol'', JStr (qt_symbol q)), (''timestamp'', JTime (qt_timestamp q)),
     (''bid'', JNum (qt_bid q)), (''ask'', JNum (qt_ask q)), (''last'', JNum (qt_last q)),
     (''bid_size'', JNum (qt_bid_size q)), (''ask_size'', JNum (qt_ask_size q))]"

definition catalyst_doc :: "catalyst \<Rightarrow> json" where
  "catalyst_doc c = JObj [(''symbol'', JStr (ca_symbol c)), (''category'', JStr (ca_category c)),
     (''score'', JNum (ca_score c)), (''direction'', JStr (action_value (ca_direction c))),
     (''published_at'', JTime (ca_published_at c)), (''available_at'', JTime (ca_available_at c)),
     (''headline'', JStr (ca_headline c)), (''evidence_ids'', strings_doc (ca_evidence_ids c))]"

definition signal_doc :: "signal \<Rightarrow> json" where
  "signal_doc s = JObj [(''signal_id'', JStr (sg_signal_id s)), (''symbol'', JStr (sg_symbol s)),
     (''strategy'', JStr (sg_strategy s)), (''action'', JStr (action_value (sg_action s))),
     (''generated_at'', JTime (sg_generated_at s)), (''confidence'', JNum (sg_confidence s)),
     (''reference_price'', JNum (sg_reference_price s)), (''stop_price'', JNum (sg_stop_price s)),
     (''target_price'', JNum (sg_target_price s)),
     (''score_components'', JObj (map (\<lambda>(k, v). (k, JNum v)) (sg_score_components s))),
     (''evidence_ids'', strings_doc (sg_evidence_ids s)), (''metadata'', JObj (sg_metadata s))]"

definition regime_doc :: "regime_snapshot \<Rightarrow> json" where
  "regime_doc r = JObj [(''regime'', JStr (regime_value (rg_regime r))), (''timestamp'', JTime (rg_timestamp r)),
     (''risk_multiplier'', JNum (rg_risk_multiplier r)),
     (''max_gross_exposure'', JNum (rg_max_gross_exposure r)),
     (''allowed_strategies'', strings_doc (rg_allowed_strategies r)), (''metrics'', JObj (rg_metrics r))]"

definition plan_doc :: "trade_plan \<Rightarrow> json" where
  "plan_doc p = JObj [(''plan_id'', JStr (tp_plan_id p)), (''signal_id'', JStr (tp_signal_id p)),
     (''symbol'', JStr (tp_symbol p)), (''strategy'', JStr (tp_strategy p)), (''side'', JStr (side_value (tp_side p))),
     (''created_at'', JTime (tp_created_at p)), (''entry_price'', JNum (tp_entry_price p)),
     (''stop_price'', JNum (tp_stop_price p)), (''target_price'', JNum (tp_target_price p)),
     (''quantity'', JInt (tp_quantity p)), (''max_holding_bars'', JInt (tp_max_holding_bars p)),
     (''evidence_ids'', strings_doc (tp_evidence_ids p)), (''invalidators'', strings_doc (tp_invalidators p)),
     (''idempotency_key'', JStr (tp_idempotency_key p)), (''metadata'', JObj (tp_metadata p))]"

definition risk_decision_doc :: "risk_decision \<Rightarrow> json" where
  "risk_decision_doc d = JObj [(''approved'', JBool (rd_approved d)), (''reason_codes'', strings_doc (rd_reason_codes d)),
     (''approved_quantity'', JInt (rd_approved_quantity d)), (''risk_dollars'', JNum (rd_risk_dollars d)),
     (''gross_exposure_after'', JNum (rd_gross_exposure_after d)), (''reviewed_at'', JTime (rd_reviewed_at d))]"

definition request_doc :: "order_request \<Rightarrow> json" where
  "request_doc r = JObj [(''order_id'', JStr (or_order_id r)), (''plan_id'', JStr (or_plan_id r)),
     (''symbol'', JStr (or_symbol r)), (''side'', JStr (side_value (or_side r))), (''quantity'', JInt (or_quantity r)),
     (''limit_price'', JNum (or_limit_price r)), (''stop_price'', JNum (or_stop_price r)),
     (''target_price'', JNum (or_target_price r)), (''idempotency_key'', JStr (or_idempotency_key r)),
     (''status'', JStr (order_status_value (or_status r))), (''created_at'', JTime (or_created_at r))]"

definition order_event_doc :: "order_event \<Rightarrow> json" where
  "order_event_doc e = JObj [(''order_id'', JStr (ev_order_id e)), (''status'', JStr (order_status_value (ev_status e))),
     (''timestamp'', JTime (ev_timestamp e)), (''filled_quantity'', JInt (ev_filled_quantity e)),
     (''remaining_quantity'', JInt (ev_remaining_quantity e)),
     (''average_fill_price'', opt_json JNum (ev_average_fill_price e)), (''message'', JStr (ev_message e)),
     (''broker_order_id'', opt_json JStr (ev_broker_order_id e))]"

definition trade_fill_doc :: "trade_fill \<Rightarrow> json" where
  "trade_fill_doc f = JObj [(''order_id'', JStr (tf_order_id f)), (''symbol'', JStr (tf_symbol f)),
     (''side'', JStr (side_value (tf_side f))), (''quantity'', JInt (tf_quantity f)), (''price'', JNum (tf_price f)),
     (''commission'', JNum (tf_commission f)), (''timestamp'', JTime (tf_timestamp f))]"

definition trade_position_doc :: "trade_position \<Rightarrow> json" where
  "trade_position_doc p = JObj [(''symbol'', JStr (ps_symbol p)), (''quantity'', JInt (ps_quantity p)),
     (''average_cost'', JNum (ps_average_cost p)), (''mark_price'', JNum (ps_mark_price p)),
     (''sector'', JStr (ps_sector p))]"

definition account_doc :: "account_snapshot \<Rightarrow> json" where
  "account_doc a = JObj [(''timestamp'', JTime (ac_timestamp a)), (''net_liquidation'', JNum (ac_net_liquidation a)),
     (''cash'', JNum (ac_cash a)), (''buying_power'', JNum (ac_buying_power a)), (''daily_pnl'', JNum (ac_daily_pnl a)),
     (''peak_net_liquidation'', JNum (ac_peak_net_liquidation a)),
     (''positions'', JArr (map trade_position_doc (ac_positions a))), (''connected'', JBool (ac_connected a))]"

end
