(* ===== verification/Runtime_Access.thy ===== *)
theory Runtime_Access
  imports Trade_Models
begin

section \<open>Configuration and runtime capabilities\<close>

text \<open>
  \<open>src/hanalpha/config.py\<close>: the configuration with its field limits and \<open>safety_boundaries\<close>; and
  \<open>src/hanalpha/runtime/capabilities.py\<close>: the authority every broker write needs. The identity of the
  module's \<open>_ISSUER\<close> object is the constructor argument \<open>bw_issued\<close>: an object made by the module
  itself has it. \<open>sha256\<close> of a token is the parameter \<open>D\<close>. Reading YAML files, environment
  variables and the migration of the legacy \<open>environment\<close> key are not modelled.
\<close>

subsection \<open>Configuration\<close>

record risk_config =
  rk_risk_per_trade_pct :: rat
  rk_max_symbol_weight :: rat
  rk_max_sector_weight :: rat
  rk_max_gross_exposure :: rat
  rk_max_positions :: int
  rk_daily_loss_limit_pct :: rat
  rk_max_drawdown_limit_pct :: rat
  rk_max_order_notional :: rat
  rk_max_quote_age_seconds :: int
  rk_min_price :: rat
  rk_min_average_dollar_volume :: rat
  rk_allow_earnings_overnight :: bool
  rk_allow_market_orders :: bool

definition validate_risk_config :: "risk_config \<Rightarrow> unit res" where
  "validate_risk_config c = checks
     [(0 < rk_risk_per_trade_pct c \<and> rk_risk_per_trade_pct c \<le> 2 / 100, ValueError ''risk_per_trade_pct''),
      (0 < rk_max_symbol_weight c \<and> rk_max_symbol_weight c \<le> 25 / 100, ValueError ''max_symbol_weight''),
      (0 < rk_max_sector_weight c \<and> rk_max_sector_weight c \<le> 50 / 100, ValueError ''max_sector_weight''),
      (0 < rk_max_gross_exposure c \<and> rk_max_gross_exposure c \<le> 1, ValueError ''max_gross_exposure''),
      (0 < rk_max_positions c \<and> rk_max_positions c \<le> 50, ValueError ''max_positions''),
      (0 < rk_daily_loss_limit_pct c \<and> rk_daily_loss_limit_pct c \<le> 10 / 100, ValueError ''daily_loss_limit_pct''),
      (0 < rk_max_drawdown_limit_pct c \<and> rk_max_drawdown_limit_pct c \<le> 30 / 100, ValueError ''max_drawdown_limit_pct''),
      (0 < rk_max_order_notional c, ValueError ''max_order_notional''),
      (0 < rk_max_quote_age_seconds c \<and> rk_max_quote_age_seconds c \<le> 300, ValueError ''max_quote_age_seconds''),
      (0 < rk_min_price c, ValueError ''min_price''),
      (0 < rk_min_average_dollar_volume c, ValueError ''min_average_dollar_volume'')]"

datatype broker_kind = SIMULATED | IBKR

record execution_config =
  xc_broker :: broker_kind
  xc_auto_submit_paper :: bool
  xc_broker_write_enabled :: bool
  xc_operator_api_enabled :: bool
  xc_require_human_approval_live :: bool
  xc_slippage_bps :: rat
  xc_commission_per_share :: rat
  xc_minimum_commission :: rat
  xc_order_ttl_seconds :: int

definition validate_execution_config :: "execution_config \<Rightarrow> unit res" where
  "validate_execution_config c = checks
     [(0 \<le> xc_slippage_bps c \<and> xc_slippage_bps c \<le> 100, ValueError ''slippage_bps''),
      (0 \<le> xc_commission_per_share c \<and> xc_commission_per_share c \<le> 1, ValueError ''commission_per_share''),
      (0 \<le> xc_minimum_commission c, ValueError ''minimum_commission''),
      (0 < xc_order_ttl_seconds c \<and> xc_order_ttl_seconds c \<le> 3600, ValueError ''order_ttl_seconds'')]"

datatype agent_provider = DETERMINISTIC | LLM | DISABLED

record agent_config =
  ag_enabled :: bool
  ag_provider :: agent_provider
  ag_require_evidence :: bool
  ag_allow_llm_to_size :: bool
  ag_max_news_age_hours :: int

definition validate_agent_config :: "agent_config \<Rightarrow> unit res" where
  "validate_agent_config c = checks
     [(0 < ag_max_news_age_hours c \<and> ag_max_news_age_hours c \<le> 720, ValueError ''max_news_age_hours'')]"

datatype data_mode = SYNTHETIC | EXTERNAL

text \<open>The strategy sections of the configuration are only passed on to the strategies; their names are
  kept.\<close>

record app_config =
  cf_operating_mode :: operating_mode
  cf_mode :: data_mode
  cf_base_currency :: string
  cf_starting_cash :: rat
  cf_universe :: "string list"
  cf_benchmarks :: "(string \<times> string) list"
  cf_bar_interval_minutes :: int
  cf_lookback_bars :: int
  cf_risk :: risk_config
  cf_execution :: execution_config
  cf_agents :: agent_config
  cf_strategies :: "string list"

definition paper_modes :: "operating_mode set" where
  "paper_modes = {PAPER_MANUAL, PAPER_AUTO}"

definition safety_boundaries :: "app_config \<Rightarrow> unit res" where
  "safety_boundaries c =
     (let mode = cf_operating_mode c; x = cf_execution c in checks
       [(mode = LIVE_PROPOSAL \<longrightarrow> xc_broker x = IBKR, ValueError ''live_proposal mode requires IBKR broker''),
        (mode = LIVE_PROPOSAL \<longrightarrow> xc_require_human_approval_live x,
         ValueError ''live_proposal mode requires human approval''),
        (mode = PAPER_AUTO \<longrightarrow> xc_auto_submit_paper x \<and> xc_broker_write_enabled x,
         ValueError ''paper_auto requires auto_submit_paper and broker_write_enabled''),
        (mode \<noteq> PAPER_AUTO \<longrightarrow> \<not> xc_auto_submit_paper x,
         ValueError ''auto_submit_paper is only valid in paper_auto mode''),
        (mode \<notin> paper_modes \<longrightarrow> \<not> xc_broker_write_enabled x,
         ValueError (''broker writes are forbidden in '' @ mode_value mode @ '' mode'')),
        (\<not> ag_allow_llm_to_size (cf_agents c), ValueError ''LLM position sizing is forbidden'')])"

definition validate_config :: "app_config \<Rightarrow> unit res" where
  "validate_config c =
     (case checks
        [(0 < cf_starting_cash c, ValueError ''starting_cash''),
         (cf_universe c \<noteq> [], ValueError ''universe''),
         (0 < cf_bar_interval_minutes c \<and> cf_bar_interval_minutes c \<le> 1440, ValueError ''bar_interval_minutes''),
         (60 < cf_lookback_bars c \<and> cf_lookback_bars c \<le> 5000, ValueError ''lookback_bars'')] of
        Inl e \<Rightarrow> Inl e
      | Inr _ \<Rightarrow> (case validate_risk_config (cf_risk c) of Inl e \<Rightarrow> Inl e
      | Inr _ \<Rightarrow> (case validate_execution_config (cf_execution c) of Inl e \<Rightarrow> Inl e
      | Inr _ \<Rightarrow> (case validate_agent_config (cf_agents c) of Inl e \<Rightarrow> Inl e
      | Inr _ \<Rightarrow> safety_boundaries c))))"

subsection \<open>Capabilities\<close>

record broker_write_capability =
  bw_issued :: bool
  bw_operating_mode :: operating_mode

definition issue_capability :: "bool \<Rightarrow> operating_mode \<Rightarrow> broker_write_capability res" where
  "issue_capability issuer mode =
     (if issuer then Inr \<lparr>bw_issued = True, bw_operating_mode = mode\<rparr>
      else Inl (TypeError ''BrokerWriteCapability can only be issued by runtime policy''))"

definition capability_valid :: "broker_write_capability \<Rightarrow> bool" where
  "capability_valid c \<longleftrightarrow> bw_issued c \<and> bw_operating_mode c \<in> paper_modes"

definition require_broker_write :: "broker_write_capability option \<Rightarrow> unit res" where
  "require_broker_write c =
     (case c of Some cap \<Rightarrow> if capability_valid cap then Inr ()
        else Inl (PermissionError ''broker_write_capability_required'')
      | None \<Rightarrow> Inl (PermissionError ''broker_write_capability_required''))"

record runtime_capabilities =
  rt_broker_write :: bool
  rt_automatic_submission :: bool
  rt_operator_api :: bool

record runtime_access =
  ra_operating_mode :: operating_mode
  ra_capabilities :: runtime_capabilities
  ra_broker_write :: "broker_write_capability option"
  ra_operator_token_digest :: "string option"

record secret_settings =
  se_broker_write_token :: "string option"
  se_operator_token :: "string option"

definition authorize_operator :: "(string \<Rightarrow> string) \<Rightarrow> runtime_access \<Rightarrow> string option \<Rightarrow> bool" where
  "authorize_operator D a supplied =
     (case (ra_operator_token_digest a, supplied) of
        (Some digest, Some token) \<Rightarrow> rt_operator_api (ra_capabilities a) \<and> digest = D token
      | _ \<Rightarrow> False)"

definition min_token_length :: nat where
  "min_token_length = 32"

definition secret_value :: "string option \<Rightarrow> string \<Rightarrow> string option res" where
  "secret_value s label =
     (case s of None \<Rightarrow> Inr None
      | Some v \<Rightarrow> if length v < min_token_length
          then Inl (RuntimeError (label @ '' must be at least 32 characters'')) else Inr (Some v))"

definition required_secret :: "string option \<Rightarrow> string \<Rightarrow> string \<Rightarrow> string res" where
  "required_secret s label missing =
     (case secret_value s label of Inl e \<Rightarrow> Inl e
      | Inr None \<Rightarrow> Inl (RuntimeError missing) | Inr (Some v) \<Rightarrow> Inr v)"

definition grant_write :: "app_config \<Rightarrow> secret_settings \<Rightarrow> broker_write_capability option res" where
  "grant_write c s =
     (if cf_operating_mode c \<in> paper_modes \<and> xc_broker_write_enabled (cf_execution c) then
        (case required_secret (se_broker_write_token s) ''broker write token''
            ''broker write token is required when broker writes are enabled'' of
           Inl e \<Rightarrow> Inl e
         | Inr _ \<Rightarrow> (case issue_capability True (cf_operating_mode c) of Inl e \<Rightarrow> Inl e | Inr cap \<Rightarrow> Inr (Some cap)))
      else Inr None)"

definition operator_digest :: "(string \<Rightarrow> string) \<Rightarrow> app_config \<Rightarrow> secret_settings \<Rightarrow> string option res" where
  "operator_digest D c s =
     (if xc_operator_api_enabled (cf_execution c) then
        (case required_secret (se_operator_token s) ''operator API token''
            ''operator API token is required when operator API is enabled'' of
           Inl e \<Rightarrow> Inl e | Inr token \<Rightarrow> Inr (Some (D token)))
      else Inr None)"

definition build_runtime_access ::
  "(string \<Rightarrow> string) \<Rightarrow> app_config \<Rightarrow> secret_settings \<Rightarrow> runtime_access res" where
  "build_runtime_access D c s =
     (case grant_write c s of Inl e \<Rightarrow> Inl e
      | Inr cap \<Rightarrow>
        (case operator_digest D c s of Inl e \<Rightarrow> Inl e
         | Inr digest \<Rightarrow>
           Inr \<lparr>ra_operating_mode = cf_operating_mode c,
             ra_capabilities =
               \<lparr>rt_broker_write = (cap \<noteq> None),
                rt_automatic_submission = (cf_operating_mode c = PAPER_AUTO
                  \<and> xc_auto_submit_paper (cf_execution c) \<and> cap \<noteq> None),
                rt_operator_api = (xc_operator_api_enabled (cf_execution c) \<and> digest \<noteq> None)\<rparr>,
             ra_broker_write = cap, ra_operator_token_digest = digest\<rparr>))"

subsection \<open>What the runtime grants\<close>

lemma required_secret_Inr [simp]:
  "required_secret s label missing = Inr v \<longleftrightarrow> s = Some v \<and> min_token_length \<le> length v"
  by (auto simp: required_secret_def secret_value_def split: option.splits)

lemma grant_write_Inr:
  "grant_write c s = Inr r \<longleftrightarrow>
     (if cf_operating_mode c \<in> paper_modes \<and> xc_broker_write_enabled (cf_execution c)
      then (\<exists>v. se_broker_write_token s = Some v \<and> min_token_length \<le> length v) \<and>
        r = Some \<lparr>bw_issued = True, bw_operating_mode = cf_operating_mode c\<rparr>
      else r = None)"
  by (auto simp: grant_write_def issue_capability_def required_secret_def secret_value_def split: sum.splits option.splits)

lemma operator_digest_Inr:
  "operator_digest D c s = Inr r \<longleftrightarrow>
     (if xc_operator_api_enabled (cf_execution c)
      then \<exists>v. se_operator_token s = Some v \<and> min_token_length \<le> length v \<and> r = Some (D v)
      else r = None)"
  by (auto simp: operator_digest_def required_secret_def secret_value_def split: sum.splits option.splits)

lemma require_broker_write_Inr:
  "require_broker_write c = Inr u \<longleftrightarrow> (\<exists>cap. c = Some cap \<and> capability_valid cap)"
  by (auto simp: require_broker_write_def split: option.splits)

lemma require_broker_write_Inl:
  "require_broker_write c = Inl e \<Longrightarrow> e = PermissionError ''broker_write_capability_required''"
  by (auto simp: require_broker_write_def split: option.splits if_splits)

lemma build_runtime_access_Inr:
  assumes "build_runtime_access D c s = Inr a"
  shows "grant_write c s = Inr (ra_broker_write a)" "operator_digest D c s = Inr (ra_operator_token_digest a)"
    "ra_operating_mode a = cf_operating_mode c"
    "rt_broker_write (ra_capabilities a) \<longleftrightarrow> ra_broker_write a \<noteq> None"
    "rt_automatic_submission (ra_capabilities a) \<longleftrightarrow>
       cf_operating_mode c = PAPER_AUTO \<and> xc_auto_submit_paper (cf_execution c) \<and> ra_broker_write a \<noteq> None"
    "rt_operator_api (ra_capabilities a) \<longleftrightarrow>
       xc_operator_api_enabled (cf_execution c) \<and> ra_operator_token_digest a \<noteq> None"
  using assms by (auto simp: build_runtime_access_def split: sum.splits)

end
