(* ===== verification/Paper_Broker.thy ===== *)
theory Paper_Broker
  imports Runtime_Access
begin

section \<open>Simulated paper broker\<close>

text \<open>
  \<open>src/hanalpha/execution/simulated.py\<close>: the in-process broker of the paper modes, an implementation of
  the protocol in \<open>execution/base.py\<close>. The dictionaries are lists in insertion order with one row per
  key; \<open>now\<close> is the clock reading of a call. Every method body runs to completion under the lock or
  without an \<open>await\<close>, so a call is one step. \<open>OrderEvent\<close>s are built from validated requests and
  cannot fail their own validation.
\<close>

subsection \<open>State\<close>

record open_order =
  oo_request :: order_request
  oo_submitted_at :: time

record protection =
  pr_symbol :: string
  pr_quantity :: int
  pr_stop_price :: rat
  pr_target_price :: rat
  pr_entry_order_id :: string

record paper_broker =
  pb_config :: execution_config
  pb_cash :: rat
  pb_peak_nlv :: rat
  pb_start_of_day_nlv :: rat
  pb_positions :: "trade_position list"
  pb_open_orders :: "open_order list"
  pb_protections :: "protection list"
  pb_fills :: "trade_fill list"
  pb_idempotency :: "(string \<times> string) list"
  pb_connected :: bool

definition new_paper_broker :: "rat \<Rightarrow> execution_config \<Rightarrow> paper_broker" where
  "new_paper_broker cash c = \<lparr>pb_config = c, pb_cash = cash, pb_peak_nlv = cash, pb_start_of_day_nlv = cash,
     pb_positions = [], pb_open_orders = [], pb_protections = [], pb_fills = [], pb_idempotency = [],
     pb_connected = True\<rparr>"

definition set_connected :: "bool \<Rightarrow> paper_broker \<Rightarrow> paper_broker" where
  "set_connected c s = s\<lparr>pb_connected := c\<rparr>"

definition commission_of :: "paper_broker \<Rightarrow> int \<Rightarrow> rat" where
  "commission_of s quantity =
     max (xc_minimum_commission (pb_config s)) (of_int quantity * xc_commission_per_share (pb_config s))"

definition slipped_price :: "paper_broker \<Rightarrow> trade_quote \<Rightarrow> side \<Rightarrow> rat \<Rightarrow> rat" where
  "slipped_price s q side limit_price =
     (let m = xc_slippage_bps (pb_config s) / 10000 in
      if side = BUY then min (qt_ask q * (1 + m)) limit_price else max (qt_bid q * (1 - m)) limit_price)"

definition mark_to_market :: "paper_broker \<Rightarrow> rat" where
  "mark_to_market s = pb_cash s + total_of position_value (pb_positions s)"

definition get_account_snapshot :: "time \<Rightarrow> paper_broker \<Rightarrow> account_snapshot res \<times> paper_broker" where
  "get_account_snapshot now s =
     (let nlv = mark_to_market s; t = s\<lparr>pb_peak_nlv := max (pb_peak_nlv s) nlv\<rparr>;
          a = \<lparr>ac_timestamp = now, ac_net_liquidation = max (1 / 100) nlv, ac_cash = pb_cash t,
            ac_buying_power = max 0 (pb_cash t), ac_daily_pnl = nlv - pb_start_of_day_nlv t,
            ac_peak_net_liquidation = max (1 / 100) (pb_peak_nlv t), ac_positions = pb_positions t,
            ac_connected = pb_connected t\<rparr>
      in case validate_account a of Inl e \<Rightarrow> (Inl e, t) | Inr _ \<Rightarrow> (Inr a, t))"

subsection \<open>Filling an order\<close>

definition event_of ::
  "string \<Rightarrow> order_status \<Rightarrow> time \<Rightarrow> int \<Rightarrow> string \<Rightarrow> order_event" where
  "event_of oid status now remaining message = \<lparr>ev_order_id = oid, ev_status = status, ev_timestamp = now,
     ev_filled_quantity = 0, ev_remaining_quantity = remaining, ev_average_fill_price = None,
     ev_message = message, ev_broker_order_id = None\<rparr>"

text \<open>\<open>f"{x:.2f}"\<close>: two decimals, rounded half to even.\<close>

definition round_half_even :: "rat \<Rightarrow> int" where
  "round_half_even x = (let f = \<lfloor>x\<rfloor>; d = x - of_int f in
     if d < 1 / 2 \<or> (d = 1 / 2 \<and> even f) then f else f + 1)"

definition fixed2 :: "rat \<Rightarrow> string" where
  "fixed2 x = (let n = round_half_even (x * 100); m = nat \<bar>n\<bar> in
     (if n < 0 then ''-'' else []) @ nat_string (m div 100) @ ''.'' @ nat_string (m mod 100 div 10) @ nat_string (m mod 10))"

definition marketable :: "order_request \<Rightarrow> trade_quote \<Rightarrow> bool" where
  "marketable rq q \<longleftrightarrow> (or_side rq = BUY \<and> or_limit_price rq \<ge> qt_ask q) \<or> (or_side rq = SELL \<and> or_limit_price rq \<le> qt_bid q)"

definition reject_order :: "order_request \<Rightarrow> string \<Rightarrow> time \<Rightarrow> paper_broker \<Rightarrow> order_event list res \<times> paper_broker" where
  "reject_order rq message now s =
     (Inr [event_of (or_order_id rq) OS_REJECTED now (or_quantity rq) message],
      s\<lparr>pb_open_orders := drop_key (or_order_id \<circ> oo_request) (or_order_id rq) (pb_open_orders s)\<rparr>)"

definition book_buy ::
  "order_request \<Rightarrow> trade_quote \<Rightarrow> rat \<Rightarrow> rat \<Rightarrow> paper_broker \<Rightarrow> unit res \<times> paper_broker" where
  "book_buy rq q notional fee s =
     (let existing = lookup ps_symbol (or_symbol rq) (pb_positions s);
          old_quantity = (case existing of None \<Rightarrow> 0 | Some p \<Rightarrow> ps_quantity p);
          old_cost = (case existing of None \<Rightarrow> 0 | Some p \<Rightarrow> ps_average_cost p);
          new_quantity = old_quantity + or_quantity rq;
          p = \<lparr>ps_symbol = or_symbol rq, ps_quantity = new_quantity,
            ps_average_cost = (of_int old_quantity * old_cost + notional) / of_int new_quantity,
            ps_mark_price = qt_last q,
            ps_sector = (case existing of None \<Rightarrow> ''UNKNOWN'' | Some p \<Rightarrow> ps_sector p)\<rparr>
      in if new_quantity = 0 then (Inl ZeroDivisionError, s)
         else case validate_position p of Inl e \<Rightarrow> (Inl e, s)
         | Inr _ \<Rightarrow> (Inr (), s\<lparr>pb_positions := put ps_symbol p (pb_positions s),
             pb_cash := pb_cash s - (notional + fee),
             pb_protections := put pr_symbol
               \<lparr>pr_symbol = or_symbol rq, pr_quantity = or_quantity rq, pr_stop_price = or_stop_price rq,
                pr_target_price = or_target_price rq, pr_entry_order_id = or_order_id rq\<rparr> (pb_protections s)\<rparr>))"

definition book_sale ::
  "order_request \<Rightarrow> trade_quote \<Rightarrow> trade_position \<Rightarrow> rat \<Rightarrow> rat \<Rightarrow> paper_broker \<Rightarrow> paper_broker" where
  "book_sale rq q existing notional fee s =
     (let remaining = ps_quantity existing - or_quantity rq; t = s\<lparr>pb_cash := pb_cash s + (notional - fee)\<rparr> in
      if remaining = 0
      then t\<lparr>pb_positions := drop_key ps_symbol (or_symbol rq) (pb_positions t),
             pb_protections := drop_key pr_symbol (or_symbol rq) (pb_protections t)\<rparr>
      else t\<lparr>pb_positions := put ps_symbol (existing\<lparr>ps_quantity := remaining, ps_mark_price := qt_last q\<rparr>) (pb_positions t)\<rparr>)"

definition record_trade ::
  "order_request \<Rightarrow> rat \<Rightarrow> rat \<Rightarrow> time \<Rightarrow> paper_broker \<Rightarrow> order_event list res \<times> paper_broker" where
  "record_trade rq fill_price fee now s =
     (let f = \<lparr>tf_order_id = or_order_id rq, tf_symbol = or_symbol rq, tf_side = or_side rq, tf_quantity = or_quantity rq,
            tf_price = fill_price, tf_commission = fee, tf_timestamp = now\<rparr>
      in case validate_trade_fill f of Inl e \<Rightarrow> (Inl e, s)
         | Inr _ \<Rightarrow> (Inr [(event_of (or_order_id rq) OS_FILLED now 0 (''commission='' @ fixed2 fee))
               \<lparr>ev_filled_quantity := or_quantity rq, ev_average_fill_price := Some fill_price\<rparr>],
             s\<lparr>pb_fills := pb_fills s @ [f],
               pb_open_orders := drop_key (or_order_id \<circ> oo_request) (or_order_id rq) (pb_open_orders s)\<rparr>))"

definition try_fill :: "order_request \<Rightarrow> trade_quote \<Rightarrow> time \<Rightarrow> paper_broker \<Rightarrow> order_event list res \<times> paper_broker" where
  "try_fill rq q now s =
     (if \<not> marketable rq q then (Inr [], s)
      else
        let fill_price = slipped_price s q (or_side rq) (or_limit_price rq);
            fee = commission_of s (or_quantity rq);
            notional = fill_price * of_int (or_quantity rq)
        in if or_side rq = BUY \<and> notional + fee > pb_cash s
           then reject_order rq ''insufficient_cash_after_slippage'' now s
           else if or_side rq = BUY
           then and_then (book_buy rq q notional fee s) (\<lambda>_. record_trade rq fill_price fee now)
           else case lookup ps_symbol (or_symbol rq) (pb_positions s) of
             None \<Rightarrow> reject_order rq ''shorting_not_supported_or_insufficient_position'' now s
           | Some existing \<Rightarrow>
               if ps_quantity existing < or_quantity rq
               then reject_order rq ''shorting_not_supported_or_insufficient_position'' now s
               else record_trade rq fill_price fee now (book_sale rq q existing notional fee s))"

subsection \<open>Operations\<close>

definition enter_order :: "order_request \<Rightarrow> time \<Rightarrow> paper_broker \<Rightarrow> paper_broker" where
  "enter_order rq now s = s\<lparr>
     pb_idempotency := put fst (or_idempotency_key rq, or_order_id rq) (pb_idempotency s),
     pb_open_orders := put (or_order_id \<circ> oo_request) \<lparr>oo_request = rq, oo_submitted_at = now\<rparr> (pb_open_orders s)\<rparr>"

definition paper_submit ::
  "order_request \<Rightarrow> trade_quote \<Rightarrow> broker_write_capability option \<Rightarrow> time \<Rightarrow> paper_broker
    \<Rightarrow> order_event list res \<times> paper_broker" where
  "paper_submit rq q capability now s =
     (case require_broker_write capability of Inl e \<Rightarrow> (Inl e, s)
      | Inr _ \<Rightarrow>
        if \<not> pb_connected s
        then (Inr [event_of (or_order_id rq) OS_ERROR now (or_quantity rq) ''broker_disconnected''], s)
        else case lookup fst (or_idempotency_key rq) (pb_idempotency s) of
          Some prior \<Rightarrow> (Inr [event_of (or_order_id rq) OS_REJECTED now (or_quantity rq)
              (''duplicate_idempotency_key:'' @ snd prior)], s)
        | None \<Rightarrow>
            and_then (try_fill rq q now (enter_order rq now s)) (\<lambda>events t.
              (Inr (event_of (or_order_id rq) OS_SUBMITTED now (or_quantity rq) ''accepted_by_simulated_broker'' # events), t)))"

fun fill_loop :: "trade_quote \<Rightarrow> time \<Rightarrow> open_order list \<Rightarrow> paper_broker \<Rightarrow> order_event list res \<times> paper_broker" where
  "fill_loop q now [] s = (Inr [], s)"
| "fill_loop q now (item # items) s =
     (if or_symbol (oo_request item) = qt_symbol q
      then and_then (try_fill (oo_request item) q now s) (\<lambda>events t.
             and_then (fill_loop q now items t) (\<lambda>later t'. (Inr (events @ later), t')))
      else fill_loop q now items s)"

definition exit_reason :: "trade_quote \<Rightarrow> protection \<Rightarrow> string option" where
  "exit_reason q pr =
     (if qt_bid q \<le> pr_stop_price pr then Some ''protective_stop''
      else if qt_bid q \<ge> pr_target_price pr then Some ''profit_target'' else None)"

definition exit_order :: "trade_quote \<Rightarrow> protection \<Rightarrow> trade_position \<Rightarrow> string \<Rightarrow> time \<Rightarrow> order_request" where
  "exit_order q pr p reason now =
     (let key = ''exit:'' @ pr_entry_order_id pr @ '':'' @ reason in
      \<lparr>or_order_id = key, or_plan_id = ''exit:'' @ pr_entry_order_id pr, or_symbol = qt_symbol q, or_side = SELL,
       or_quantity = min (pr_quantity pr) (ps_quantity p), or_limit_price = qt_bid q,
       or_stop_price = qt_ask q * (11 / 10), or_target_price = max (1 / 100) (qt_bid q * (9 / 10)),
       or_idempotency_key = key, or_status = OS_SUBMITTED, or_created_at = now\<rparr>)"

definition protect :: "trade_quote \<Rightarrow> time \<Rightarrow> paper_broker \<Rightarrow> order_event list res \<times> paper_broker" where
  "protect q now s =
     (case (lookup pr_symbol (qt_symbol q) (pb_protections s), lookup ps_symbol (qt_symbol q) (pb_positions s)) of
        (Some pr, Some p) \<Rightarrow>
          (case exit_reason q pr of None \<Rightarrow> (Inr [], s)
           | Some reason \<Rightarrow>
             (let rq = exit_order q pr p reason now in
              case validate_request rq of Inl e \<Rightarrow> (Inl e, s)
              | Inr _ \<Rightarrow>
                and_then (try_fill rq q now (enter_order rq now s)) (\<lambda>events t.
                  (Inr (event_of (or_order_id rq) OS_SUBMITTED now (or_quantity rq) reason # events), t))))
      | _ \<Rightarrow> (Inr [], s))"

definition mark_quote :: "trade_quote \<Rightarrow> paper_broker \<Rightarrow> paper_broker" where
  "mark_quote q s =
     (case lookup ps_symbol (qt_symbol q) (pb_positions s) of None \<Rightarrow> s
      | Some p \<Rightarrow> s\<lparr>pb_positions := put ps_symbol (p\<lparr>ps_mark_price := qt_last q\<rparr>) (pb_positions s)\<rparr>)"

definition process_quote :: "trade_quote \<Rightarrow> time \<Rightarrow> paper_broker \<Rightarrow> order_event list res \<times> paper_broker" where
  "process_quote q now s =
     (let s1 = mark_quote q s in
      and_then (fill_loop q now (pb_open_orders s1) s1) (\<lambda>events t.
      and_then (protect q now t) (\<lambda>exits t'. (Inr (events @ exits), t'))))"

definition cancel_all ::
  "broker_write_capability option \<Rightarrow> time \<Rightarrow> paper_broker \<Rightarrow> order_event list res \<times> paper_broker" where
  "cancel_all capability now s =
     (case require_broker_write capability of Inl e \<Rightarrow> (Inl e, s)
      | Inr _ \<Rightarrow>
        (Inr (map (\<lambda>item. event_of (or_order_id (oo_request item)) OS_CANCELLED now (or_quantity (oo_request item)) ''cancel_all'')
           (pb_open_orders s)),
         s\<lparr>pb_open_orders := []\<rparr>))"

definition epoch_seconds :: "time \<Rightarrow> int" where
  "epoch_seconds now = (if now \<ge> 0 then now div 1000000 else - ((- now) div 1000000))"

definition flatten_key :: "trade_position \<Rightarrow> string" where
  "flatten_key p = ''flatten:'' @ ps_symbol p @ '':'' @ int_string (ps_quantity p)"

definition flatten_order :: "trade_quote \<Rightarrow> trade_position \<Rightarrow> time \<Rightarrow> order_request" where
  "flatten_order q p now =
     \<lparr>or_order_id = ''flatten:'' @ ps_symbol p @ '':'' @ int_string (epoch_seconds now),
      or_plan_id = ''flatten:'' @ ps_symbol p, or_symbol = ps_symbol p, or_side = SELL,
      or_quantity = ps_quantity p, or_limit_price = qt_bid q, or_stop_price = qt_ask q * (11 / 10),
      or_target_price = max (1 / 100) (qt_bid q * (9 / 10)),
      or_idempotency_key = flatten_key p, or_status = OS_PROPOSED, or_created_at = now\<rparr>"

fun flatten_loop ::
  "(string \<Rightarrow> trade_quote option) \<Rightarrow> broker_write_capability option \<Rightarrow> time \<Rightarrow> trade_position list \<Rightarrow> paper_broker
    \<Rightarrow> order_event list res \<times> paper_broker" where
  "flatten_loop quotes capability now [] s = (Inr [], s)"
| "flatten_loop quotes capability now (p # ps) s =
     (case quotes (ps_symbol p) of
        None \<Rightarrow> and_then (flatten_loop quotes capability now ps s) (\<lambda>later t.
          (Inr (event_of (''flatten:'' @ ps_symbol p) OS_ERROR now (ps_quantity p) ''missing_fresh_quote'' # later), t))
      | Some q \<Rightarrow>
          (case validate_request (flatten_order q p now) of Inl e \<Rightarrow> (Inl e, s)
           | Inr _ \<Rightarrow> and_then (paper_submit (flatten_order q p now) q capability now s) (\<lambda>events t.
               and_then (flatten_loop quotes capability now ps t) (\<lambda>later t'. (Inr (events @ later), t')))))"

definition flatten_all ::
  "(string \<Rightarrow> trade_quote option) \<Rightarrow> broker_write_capability option \<Rightarrow> time \<Rightarrow> paper_broker
    \<Rightarrow> order_event list res \<times> paper_broker" where
  "flatten_all quotes capability now s =
     (case require_broker_write capability of Inl e \<Rightarrow> (Inl e, s)
      | Inr _ \<Rightarrow> flatten_loop quotes capability now (pb_positions s) s)"

end
