(* ===== verification/Paper_Books.thy ===== *)
theory Paper_Books
  imports Paper_Broker
begin

section \<open>The paper broker's books\<close>

text \<open>
  The invariant of the paper broker: positions are long, one per symbol and each protected, and cash
  and positions are exactly what the recorded fills are worth. Every operation on valid arguments
  keeps it, and raises only for a missing capability.
\<close>

subsection \<open>The invariant\<close>

definition paper_held :: "paper_broker \<Rightarrow> string \<Rightarrow> int" where
  "paper_held s x = (case lookup ps_symbol x (pb_positions s) of None \<Rightarrow> 0 | Some p \<Rightarrow> ps_quantity p)"

definition cash_of_fill :: "trade_fill \<Rightarrow> rat" where
  "cash_of_fill f = (if tf_side f = BUY then - (tf_price f * of_int (tf_quantity f))
     else tf_price f * of_int (tf_quantity f)) - tf_commission f"

definition shares_of_fill :: "string \<Rightarrow> trade_fill \<Rightarrow> int" where
  "shares_of_fill x f = (if tf_symbol f = x then signed_qty (tf_side f) (tf_quantity f) else 0)"

definition positions_ok :: "paper_broker \<Rightarrow> bool" where
  "positions_ok s \<longleftrightarrow> distinct (map ps_symbol (pb_positions s)) \<and> distinct (map pr_symbol (pb_protections s)) \<and>
     ps_symbol ` set (pb_positions s) = pr_symbol ` set (pb_protections s) \<and>
     (\<forall>p \<in> set (pb_positions s). 0 < ps_quantity p \<and> 0 < ps_average_cost p \<and> 0 < ps_mark_price p) \<and>
     (\<forall>pr \<in> set (pb_protections s). 0 < pr_quantity pr)"

definition orders_valid :: "paper_broker \<Rightarrow> bool" where
  "orders_valid s \<longleftrightarrow> validate_execution_config (pb_config s) = Inr () \<and>
     (\<forall>x \<in> set (pb_open_orders s). validate_request (oo_request x) = Inr ()) \<and>
     (\<forall>f \<in> set (pb_fills s). validate_trade_fill f = Inr ())"

definition books_match :: "paper_broker \<Rightarrow> bool" where
  "books_match s \<longleftrightarrow> pb_cash s = pb_start_of_day_nlv s + total_of cash_of_fill (pb_fills s) \<and>
     (\<forall>x. paper_held s x = total_of (shares_of_fill x) (pb_fills s))"

definition paper_ok :: "paper_broker \<Rightarrow> bool" where
  "paper_ok s \<longleftrightarrow> positions_ok s \<and> orders_valid s \<and> books_match s"

text \<open>What no operation changes, and the idempotency keys, which only grow.\<close>

definition same_frame :: "paper_broker \<Rightarrow> paper_broker \<Rightarrow> bool" where
  "same_frame s t \<longleftrightarrow> pb_config t = pb_config s \<and> pb_start_of_day_nlv t = pb_start_of_day_nlv s \<and>
     pb_connected t = pb_connected s \<and> fst ` set (pb_idempotency s) \<subseteq> fst ` set (pb_idempotency t)"

lemma same_frame_refl [simp]: "same_frame s s"
  by (simp add: same_frame_def)

lemma same_frame_trans: "same_frame s t \<Longrightarrow> same_frame t u \<Longrightarrow> same_frame s u"
  by (auto simp: same_frame_def)

lemma position_facts:
  assumes "positions_ok s" and "lookup ps_symbol x (pb_positions s) = Some p"
  shows "0 < ps_quantity p" "0 < ps_average_cost p" "0 < ps_mark_price p" "ps_symbol p = x"
  using assms find_Some_set [OF assms(2)] by (auto simp: positions_ok_def)

lemma paper_held_none: "lookup ps_symbol x (pb_positions s) = None \<Longrightarrow> paper_held s x = 0"
  by (simp add: paper_held_def)

lemma request_valid: "validate_request rq = Inr () \<longleftrightarrow>
    0 < or_quantity rq \<and> 0 < or_limit_price rq \<and> 0 < or_stop_price rq \<and> 0 < or_target_price rq"
  by (simp add: validate_request_def)

lemma quote_valid: "validate_quote q = Inr () \<longleftrightarrow>
    0 < qt_bid q \<and> 0 < qt_ask q \<and> 0 < qt_last q \<and> 0 \<le> qt_bid_size q \<and> 0 \<le> qt_ask_size q \<and> qt_bid q \<le> qt_ask q"
  by (simp add: validate_quote_def)

subsection \<open>Filling\<close>

lemma slipped_price_pos:
  assumes "validate_execution_config (pb_config s) = Inr ()" and "validate_quote q = Inr ()" and "0 < l"
  shows "0 < slipped_price s q side l"
  using assms by (auto simp: slipped_price_def Let_def quote_valid validate_execution_config_def less_max_iff_disj
      intro!: mult_pos_pos add_pos_nonneg)

lemma commission_nonneg:
  assumes "validate_execution_config (pb_config s) = Inr ()"
  shows "0 \<le> commission_of s n"
  using assms by (auto simp: commission_of_def validate_execution_config_def le_max_iff_disj)

lemma positions_ok_put:
  assumes "positions_ok s" and "0 < ps_quantity p" "0 < ps_average_cost p" "0 < ps_mark_price p"
    and "0 < pr_quantity pr" and "pr_symbol pr = ps_symbol p"
  shows "positions_ok (s\<lparr>pb_positions := put ps_symbol p (pb_positions s), pb_protections := put pr_symbol pr (pb_protections s)\<rparr>)"
proof -
  have "\<forall>x \<in> set (put ps_symbol p (pb_positions s)). 0 < ps_quantity x \<and> 0 < ps_average_cost x \<and> 0 < ps_mark_price x"
    using assms(1-4) set_put [of _ ps_symbol p "pb_positions s"] unfolding positions_ok_def by blast
  moreover have "\<forall>x \<in> set (put pr_symbol pr (pb_protections s)). 0 < pr_quantity x"
    using assms(1,5) set_put [of _ pr_symbol pr "pb_protections s"] unfolding positions_ok_def by blast
  ultimately show ?thesis using assms(1,6) by (simp add: positions_ok_def distinct_put)
qed

lemma positions_ok_update:
  assumes "positions_ok s" and "0 < ps_quantity p" "0 < ps_average_cost p" "0 < ps_mark_price p"
    and "ps_symbol p \<in> ps_symbol ` set (pb_positions s)"
  shows "positions_ok (s\<lparr>pb_positions := put ps_symbol p (pb_positions s)\<rparr>)"
proof -
  have "\<forall>x \<in> set (put ps_symbol p (pb_positions s)). 0 < ps_quantity x \<and> 0 < ps_average_cost x \<and> 0 < ps_mark_price x"
    using assms(1-4) set_put [of _ ps_symbol p "pb_positions s"] unfolding positions_ok_def by blast
  then show ?thesis using assms(1,5) by (simp add: positions_ok_def distinct_put insert_absorb)
qed

lemma book_buy_ok:
  assumes "positions_ok s" and "validate_request rq = Inr ()" and "0 < qt_last q" and "0 < notional"
  shows "\<exists>ps prs. book_buy rq q notional fee s =
      (Inr (), s\<lparr>pb_positions := ps, pb_cash := pb_cash s - (notional + fee), pb_protections := prs\<rparr>) \<and>
    positions_ok (s\<lparr>pb_positions := ps, pb_protections := prs\<rparr>) \<and>
    (\<forall>x. paper_held (s\<lparr>pb_positions := ps\<rparr>) x = paper_held s x + (if x = or_symbol rq then or_quantity rq else 0))"
proof -
  let ?old = "lookup ps_symbol (or_symbol rq) (pb_positions s)"
  let ?oq = "case ?old of None \<Rightarrow> 0 | Some p \<Rightarrow> ps_quantity p"
  let ?oc = "case ?old of None \<Rightarrow> 0 | Some p \<Rightarrow> ps_average_cost p"
  let ?p = "\<lparr>ps_symbol = or_symbol rq, ps_quantity = ?oq + or_quantity rq,
      ps_average_cost = (of_int ?oq * ?oc + notional) / of_int (?oq + or_quantity rq), ps_mark_price = qt_last q,
      ps_sector = (case ?old of None \<Rightarrow> ''UNKNOWN'' | Some p \<Rightarrow> ps_sector p)\<rparr>"
  let ?pr = "\<lparr>pr_symbol = or_symbol rq, pr_quantity = or_quantity rq, pr_stop_price = or_stop_price rq,
      pr_target_price = or_target_price rq, pr_entry_order_id = or_order_id rq\<rparr>"
  let ?ps = "put ps_symbol ?p (pb_positions s)" and ?prs = "put pr_symbol ?pr (pb_protections s)"
  have old: "0 \<le> ?oq \<and> 0 \<le> ?oc"
  proof (cases ?old)
    case (Some p)
    then show ?thesis using position_facts [OF assms(1) Some] by simp
  qed simp
  have qty: "0 < or_quantity rq" using assms(2) by (simp add: request_valid)
  then have "0 < ?oq + or_quantity rq" using old by linarith
  moreover from this have "0 < (of_int ?oq * ?oc + notional) / of_int (?oq + or_quantity rq)"
    using old assms(4) by (intro divide_pos_pos add_nonneg_pos mult_nonneg_nonneg) simp_all
  ultimately have p: "0 < ps_quantity ?p" "0 < ps_average_cost ?p" "0 < ps_mark_price ?p" using assms(3) by simp_all
  then have "validate_position ?p = Inr ()" by (simp only: validate_position_def) simp
  then have "book_buy rq q notional fee s =
      (Inr (), s\<lparr>pb_positions := ?ps, pb_cash := pb_cash s - (notional + fee), pb_protections := ?prs\<rparr>)"
    using p(1) by (simp add: book_buy_def Let_def)
  moreover have "positions_ok (s\<lparr>pb_positions := ?ps, pb_protections := ?prs\<rparr>)"
    using p qty by (intro positions_ok_put [OF assms(1)]) simp_all
  moreover have "paper_held (s\<lparr>pb_positions := ?ps\<rparr>) x = paper_held s x + (if x = or_symbol rq then or_quantity rq else 0)" for x
    by (simp add: paper_held_def split: option.splits)
  ultimately show ?thesis by blast
qed

lemma book_sale_ok:
  assumes "positions_ok s" and "lookup ps_symbol (or_symbol rq) (pb_positions s) = Some p"
    and "0 < or_quantity rq" and "or_quantity rq \<le> ps_quantity p" and "0 < qt_last q"
  shows "\<exists>ps prs. book_sale rq q p notional fee s =
      s\<lparr>pb_positions := ps, pb_cash := pb_cash s + (notional - fee), pb_protections := prs\<rparr> \<and>
    positions_ok (s\<lparr>pb_positions := ps, pb_protections := prs\<rparr>) \<and>
    (\<forall>x. paper_held (s\<lparr>pb_positions := ps\<rparr>) x = paper_held s x - (if x = or_symbol rq then or_quantity rq else 0))"
proof (cases "ps_quantity p = or_quantity rq")
  case True
  let ?ps = "drop_key ps_symbol (or_symbol rq) (pb_positions s)"
  let ?prs = "drop_key pr_symbol (or_symbol rq) (pb_protections s)"
  have "book_sale rq q p notional fee s =
      s\<lparr>pb_positions := ?ps, pb_cash := pb_cash s + (notional - fee), pb_protections := ?prs\<rparr>"
    using True by (simp add: book_sale_def)
  moreover have "ps_symbol ` {r \<in> set (pb_positions s). ps_symbol r \<noteq> or_symbol rq} =
      pr_symbol ` {r \<in> set (pb_protections s). pr_symbol r \<noteq> or_symbol rq}"
  proof -
    have drop: "f ` {r \<in> A. f r \<noteq> y} = f ` A - {y}" for f :: "'z \<Rightarrow> string" and A y by auto
    show ?thesis using assms(1) by (simp add: drop positions_ok_def)
  qed
  then have "positions_ok (s\<lparr>pb_positions := ?ps, pb_protections := ?prs\<rparr>)"
    using assms(1) by (simp add: positions_ok_def distinct_drop_key)
  moreover have "paper_held (s\<lparr>pb_positions := ?ps\<rparr>) x = paper_held s x - (if x = or_symbol rq then or_quantity rq else 0)" for x
    using True assms(2) by (simp add: paper_held_def)
  ultimately show ?thesis by blast
next
  case False
  let ?p = "p\<lparr>ps_quantity := ps_quantity p - or_quantity rq, ps_mark_price := qt_last q\<rparr>"
  let ?ps = "put ps_symbol ?p (pb_positions s)"
  have p: "0 < ps_quantity ?p" "0 < ps_average_cost ?p" "0 < ps_mark_price ?p" "ps_symbol ?p = or_symbol rq"
    using False assms(4,5) position_facts [OF assms(1,2)] by simp_all
  have "book_sale rq q p notional fee s =
      s\<lparr>pb_positions := ?ps, pb_cash := pb_cash s + (notional - fee), pb_protections := pb_protections s\<rparr>"
    using False by (simp add: book_sale_def)
  moreover have "or_symbol rq \<in> ps_symbol ` set (pb_positions s)" using find_Some_set [OF assms(2)] by force
  then have "positions_ok (s\<lparr>pb_positions := ?ps\<rparr>)"
    using p by (intro positions_ok_update [OF assms(1)]) simp_all
  then have "positions_ok (s\<lparr>pb_positions := ?ps, pb_protections := pb_protections s\<rparr>)"
    by (simp add: positions_ok_def)
  moreover have "paper_held (s\<lparr>pb_positions := ?ps\<rparr>) x = paper_held s x - (if x = or_symbol rq then or_quantity rq else 0)" for x
    using p(4) assms(2) by (simp add: paper_held_def)
  ultimately show ?thesis by blast
qed

text \<open>A booked trade: positions and cash of \<open>t\<close> are those of \<open>s\<close> after the trade, whose fill is about to
  be recorded.\<close>

definition traded :: "order_request \<Rightarrow> rat \<Rightarrow> rat \<Rightarrow> paper_broker \<Rightarrow> paper_broker \<Rightarrow> bool" where
  "traded rq price fee s t \<longleftrightarrow> positions_ok t \<and> pb_open_orders t = pb_open_orders s \<and> pb_fills t = pb_fills s \<and>
     pb_config t = pb_config s \<and> pb_start_of_day_nlv t = pb_start_of_day_nlv s \<and> pb_connected t = pb_connected s \<and>
     pb_idempotency t = pb_idempotency s \<and>
     pb_cash t = pb_cash s + (if or_side rq = BUY then - (price * of_int (or_quantity rq)) else price * of_int (or_quantity rq)) - fee \<and>
     (\<forall>x. paper_held t x = paper_held s x + (if x = or_symbol rq then signed_qty (or_side rq) (or_quantity rq) else 0))"

definition keeps :: "paper_broker \<Rightarrow> order_event list res \<times> paper_broker \<Rightarrow> bool" where
  "keeps s r \<longleftrightarrow> (\<exists>evs t. r = (Inr evs, t) \<and> paper_ok t \<and> same_frame s t \<and> pb_idempotency t = pb_idempotency s)"

lemma traded_by:
  assumes "t = s\<lparr>pb_positions := ps, pb_cash := cash, pb_protections := prs\<rparr>"
    and "positions_ok (s\<lparr>pb_positions := ps, pb_protections := prs\<rparr>)"
    and "\<forall>x. paper_held (s\<lparr>pb_positions := ps\<rparr>) x = paper_held s x + (if x = or_symbol rq then signed_qty (or_side rq) (or_quantity rq) else 0)"
    and "cash = pb_cash s + (if or_side rq = BUY then - (price * of_int (or_quantity rq)) else price * of_int (or_quantity rq)) - fee"
  shows "traded rq price fee s t"
proof -
  have "positions_ok t" using assms(2) by (simp add: assms(1) positions_ok_def)
  moreover have "paper_held t x = paper_held (s\<lparr>pb_positions := ps\<rparr>) x" for x by (simp add: assms(1) paper_held_def)
  ultimately show ?thesis using assms by (simp add: traded_def)
qed

lemma record_trade_keeps:
  assumes "paper_ok s" and "traded rq price fee s t" and "0 < price" and "0 \<le> fee" and "0 < or_quantity rq"
  shows "keeps s (record_trade rq price fee now t)"
proof -
  let ?f = "\<lparr>tf_order_id = or_order_id rq, tf_symbol = or_symbol rq, tf_side = or_side rq, tf_quantity = or_quantity rq,
      tf_price = price, tf_commission = fee, tf_timestamp = now\<rparr>"
  let ?u = "t\<lparr>pb_fills := pb_fills t @ [?f],
      pb_open_orders := drop_key (or_order_id \<circ> oo_request) (or_order_id rq) (pb_open_orders t)\<rparr>"
  have f: "validate_trade_fill ?f = Inr ()" using assms(3-5) by (simp add: validate_trade_fill_def)
  have "positions_ok ?u" using assms(2) by (simp add: traded_def positions_ok_def)
  moreover have "orders_valid ?u" using assms(1,2) f by (auto simp: paper_ok_def traded_def orders_valid_def)
  moreover have "books_match ?u"
  proof -
    have "paper_held ?u x = paper_held t x" for x by (simp add: paper_held_def)
    then show ?thesis using assms(1,2)
      by (simp add: paper_ok_def books_match_def traded_def cash_of_fill_def shares_of_fill_def)
  qed
  ultimately show ?thesis using f assms(2) by (simp add: keeps_def record_trade_def paper_ok_def same_frame_def traded_def)
qed

lemma reject_order_keeps: "paper_ok s \<Longrightarrow> keeps s (reject_order rq m now s)"
  by (simp add: keeps_def reject_order_def paper_ok_def positions_ok_def orders_valid_def books_match_def paper_held_def same_frame_def)

lemma try_fill_keeps:
  assumes "paper_ok s" and "validate_request rq = Inr ()" and "validate_quote q = Inr ()"
  shows "keeps s (try_fill rq q now s)"
proof -
  let ?price = "slipped_price s q (or_side rq) (or_limit_price rq)" and ?fee = "commission_of s (or_quantity rq)"
  let ?n = "?price * of_int (or_quantity rq)"
  have ok: "positions_ok s" "validate_execution_config (pb_config s) = Inr ()"
    using assms(1) by (simp_all add: paper_ok_def orders_valid_def)
  have rq: "0 < or_quantity rq" "0 < or_limit_price rq" using assms(2) by (simp_all add: request_valid)
  have price: "0 < ?price" using slipped_price_pos [OF ok(2) assms(3) rq(2)] .
  then have n: "0 < qt_last q" "0 < ?n" using assms(3) rq by (simp_all add: quote_valid)
  note recorded = record_trade_keeps [OF assms(1) _ price commission_nonneg [OF ok(2)] rq(1)]
  have skip: "keeps s (Inr [], s)" using assms(1) by (simp add: keeps_def)
  show ?thesis
  proof (cases "or_side rq")
    case BUY
    obtain t where buy: "book_buy rq q ?n ?fee s = (Inr (), t)" "traded rq ?price ?fee s t"
    proof -
      obtain ps prs where b: "book_buy rq q ?n ?fee s =
          (Inr (), s\<lparr>pb_positions := ps, pb_cash := pb_cash s - (?n + ?fee), pb_protections := prs\<rparr>)"
        "positions_ok (s\<lparr>pb_positions := ps, pb_protections := prs\<rparr>)"
        "\<forall>x. paper_held (s\<lparr>pb_positions := ps\<rparr>) x = paper_held s x + (if x = or_symbol rq then or_quantity rq else 0)"
        using book_buy_ok [OF ok(1) assms(2) n, of ?fee] by blast
      show thesis using that [OF b(1) traded_by [OF refl b(2)]] b(3) BUY by simp
    qed
    show ?thesis using BUY skip reject_order_keeps [OF assms(1)] recorded [OF buy(2)] buy(1)
      by (simp add: try_fill_def Let_def)
  next
    case SELL
    have "keeps s (record_trade rq ?price ?fee now (book_sale rq q p ?n ?fee s))"
      if p: "lookup ps_symbol (or_symbol rq) (pb_positions s) = Some p" "or_quantity rq \<le> ps_quantity p" for p
    proof -
      obtain ps prs where b: "book_sale rq q p ?n ?fee s =
          s\<lparr>pb_positions := ps, pb_cash := pb_cash s + (?n - ?fee), pb_protections := prs\<rparr>"
        "positions_ok (s\<lparr>pb_positions := ps, pb_protections := prs\<rparr>)"
        "\<forall>x. paper_held (s\<lparr>pb_positions := ps\<rparr>) x = paper_held s x - (if x = or_symbol rq then or_quantity rq else 0)"
        using book_sale_ok [OF ok(1) p(1) rq(1) p(2) n(1), of ?n ?fee] by blast
      show ?thesis by (rule recorded [OF traded_by [OF b(1,2)]]) (use b(3) SELL in simp_all)
    qed
    then show ?thesis using SELL skip reject_order_keeps [OF assms(1)]
      by (simp add: try_fill_def Let_def split: option.splits)
  qed
qed

lemma try_fill_ok:
  assumes "paper_ok s" and "validate_request rq = Inr ()" and "validate_quote q = Inr ()"
  obtains evs t where "try_fill rq q now s = (Inr evs, t)" "paper_ok t" "same_frame s t" "pb_idempotency t = pb_idempotency s"
  using try_fill_keeps [OF assms, of now] unfolding keeps_def by blast

subsection \<open>Operations\<close>

text \<open>A call that succeeds and keeps the books, whatever it does to the idempotency keys.\<close>

definition books_kept :: "paper_broker \<Rightarrow> 'a res \<times> paper_broker \<Rightarrow> bool" where
  "books_kept s r \<longleftrightarrow> (\<exists>x t. r = (Inr x, t) \<and> paper_ok t \<and> same_frame s t)"

lemma books_keptI [intro]: "paper_ok t \<Longrightarrow> same_frame s t \<Longrightarrow> books_kept s (Inr x, t)"
  by (simp add: books_kept_def)

lemma books_kept_and_then:
  assumes "books_kept s r" and "\<And>x t. paper_ok t \<Longrightarrow> same_frame s t \<Longrightarrow> books_kept t (f x t)"
  shows "books_kept s (and_then r f)"
proof -
  obtain x t where r: "r = (Inr x, t)" "paper_ok t" "same_frame s t" using assms(1) by (auto simp: books_kept_def)
  then obtain y u where "f x t = (Inr y, u)" "paper_ok u" "same_frame t u"
    using assms(2) unfolding books_kept_def by blast
  then show ?thesis using r same_frame_trans by (auto simp: books_kept_def)
qed

lemma try_fill_books:
  "paper_ok s \<Longrightarrow> validate_request rq = Inr () \<Longrightarrow> validate_quote q = Inr () \<Longrightarrow> books_kept s (try_fill rq q now s)"
  by (rule try_fill_ok [of s rq q now]) (auto simp: books_kept_def)

lemma enter_order_ok:
  assumes "paper_ok s" and "validate_request rq = Inr ()"
  shows "paper_ok (enter_order rq now s)" "same_frame s (enter_order rq now s)"
proof -
  have "\<forall>x \<in> set (put (or_order_id \<circ> oo_request) \<lparr>oo_request = rq, oo_submitted_at = now\<rparr> (pb_open_orders s)).
      validate_request (oo_request x) = Inr ()"
    using assms set_put [of _ "or_order_id \<circ> oo_request" "\<lparr>oo_request = rq, oo_submitted_at = now\<rparr>" "pb_open_orders s"]
    unfolding paper_ok_def orders_valid_def by fastforce
  then show "paper_ok (enter_order rq now s)"
    using assms(1) by (simp add: enter_order_def paper_ok_def positions_ok_def orders_valid_def books_match_def paper_held_def)
  show "same_frame s (enter_order rq now s)"
    by (auto simp: enter_order_def same_frame_def)
qed

lemma enter_and_fill_books:
  assumes "paper_ok s" and "validate_request rq = Inr ()" and "validate_quote q = Inr ()"
  shows "books_kept s (try_fill rq q now (enter_order rq now s))"
proof -
  note e = enter_order_ok [OF assms(1,2), of now]
  show ?thesis using try_fill_books [OF e(1) assms(2,3), of now] e(2) same_frame_trans by (auto simp: books_kept_def)
qed

lemma paper_submit_books:
  assumes "paper_ok s" and "validate_request rq = Inr ()" and "validate_quote q = Inr ()"
    and "require_broker_write capability = Inr ()"
  shows "books_kept s (paper_submit rq q capability now s)"
  using assms enter_and_fill_books [OF assms(1-3), of now]
  by (auto simp: paper_submit_def split: option.splits intro!: books_kept_and_then)

lemma fill_loop_books:
  assumes "paper_ok s" and "validate_quote q = Inr ()" and "\<forall>x \<in> set items. validate_request (oo_request x) = Inr ()"
  shows "books_kept s (fill_loop q now items s)"
  using assms
proof (induction items arbitrary: s)
  case (Cons item items)
  have "books_kept s (and_then (try_fill (oo_request item) q now s) (\<lambda>events t.
      and_then (fill_loop q now items t) (\<lambda>later t'. (Inr (events @ later), t'))))"
    using Cons.prems Cons.IH by (intro books_kept_and_then try_fill_books) auto
  then show ?case using Cons by auto
qed auto

lemma exit_order_valid:
  assumes "positions_ok s" and "validate_quote q = Inr ()"
    and "lookup pr_symbol (qt_symbol q) (pb_protections s) = Some pr"
    and "lookup ps_symbol (qt_symbol q) (pb_positions s) = Some p"
  shows "validate_request (exit_order q pr p reason now) = Inr ()"
proof -
  have "0 < pr_quantity pr" using assms(1) find_Some_set [OF assms(3)] by (auto simp: positions_ok_def)
  then show ?thesis
    using position_facts(1) [OF assms(1,4)] assms(2) by (simp add: exit_order_def Let_def request_valid quote_valid less_max_iff_disj)
qed

lemma protect_books:
  assumes "paper_ok s" and "validate_quote q = Inr ()"
  shows "books_kept s (protect q now s)"
proof -
  have "positions_ok s" using assms(1) by (simp add: paper_ok_def)
  note valid = exit_order_valid [OF this assms(2)]
  show ?thesis
    using assms valid
    by (auto simp: protect_def Let_def split: option.splits intro!: books_kept_and_then enter_and_fill_books)
qed

lemma mark_quote_ok:
  assumes "paper_ok s" and "validate_quote q = Inr ()"
  shows "paper_ok (mark_quote q s)" "same_frame s (mark_quote q s)"
proof -
  have "paper_ok (s\<lparr>pb_positions := put ps_symbol (p\<lparr>ps_mark_price := qt_last q\<rparr>) (pb_positions s)\<rparr>)"
    if "lookup ps_symbol (qt_symbol q) (pb_positions s) = Some p" for p
  proof -
    let ?t = "s\<lparr>pb_positions := put ps_symbol (p\<lparr>ps_mark_price := qt_last q\<rparr>) (pb_positions s)\<rparr>"
    have ok: "positions_ok s" using assms(1) by (simp add: paper_ok_def)
    have "positions_ok ?t"
      using position_facts [OF ok that] find_Some_set [OF that] assms(2)
      by (intro positions_ok_update [OF ok]) (auto simp: quote_valid intro: image_eqI [of _ _ p])
    moreover have "paper_held ?t x = paper_held s x" for x using that position_facts(4) [OF ok that] by (simp add: paper_held_def)
    ultimately show ?thesis using assms(1) by (simp add: paper_ok_def orders_valid_def books_match_def)
  qed
  then show "paper_ok (mark_quote q s)" using assms(1) by (simp add: mark_quote_def split: option.splits)
  show "same_frame s (mark_quote q s)" by (simp add: mark_quote_def same_frame_def split: option.splits)
qed

lemma process_quote_books:
  assumes "paper_ok s" and "validate_quote q = Inr ()"
  shows "books_kept s (process_quote q now s)"
proof -
  note m = mark_quote_ok [OF assms]
  have "\<forall>x \<in> set (pb_open_orders (mark_quote q s)). validate_request (oo_request x) = Inr ()"
    using m(1) by (simp add: paper_ok_def orders_valid_def)
  then have "books_kept (mark_quote q s) (process_quote q now s)"
    unfolding process_quote_def Let_def
    using m(1) assms(2) by (intro books_kept_and_then fill_loop_books protect_books) auto
  then show ?thesis using m(2) same_frame_trans by (auto simp: books_kept_def)
qed

lemma flatten_order_valid:
  assumes "validate_quote q = Inr ()" and "0 < ps_quantity p"
  shows "validate_request (flatten_order q p now) = Inr ()"
  using assms by (simp add: flatten_order_def request_valid quote_valid less_max_iff_disj)

lemma flatten_loop_books:
  assumes "paper_ok s" and "require_broker_write capability = Inr ()"
    and "\<forall>x q. quotes x = Some q \<longrightarrow> validate_quote q = Inr ()" and "\<forall>p \<in> set ps. 0 < ps_quantity p"
  shows "books_kept s (flatten_loop quotes capability now ps s)"
  using assms
proof (induction ps arbitrary: s)
  case (Cons p ps)
  have rest: "books_kept t (flatten_loop quotes capability now ps t)" if "paper_ok t" for t
    using Cons.IH [OF that] Cons.prems by simp
  show ?case
  proof (cases "quotes (ps_symbol p)")
    case None
    then show ?thesis using rest [OF Cons.prems(1)] by (auto intro!: books_kept_and_then)
  next
    case (Some q)
    then have q: "validate_quote q = Inr ()" and "0 < ps_quantity p" using Cons.prems by auto
    note rq = flatten_order_valid [OF this, of now]
    show ?thesis using Some rq
      by (auto intro!: books_kept_and_then paper_submit_books [OF Cons.prems(1) rq q Cons.prems(2)] rest)
  qed
qed auto

lemma cancel_all_ok:
  "paper_ok s \<Longrightarrow> require_broker_write capability = Inr () \<Longrightarrow> books_kept s (cancel_all capability now s)"
  by (auto simp: cancel_all_def paper_ok_def positions_ok_def orders_valid_def books_match_def paper_held_def same_frame_def)

lemma flatten_all_books:
  assumes "paper_ok s" and "require_broker_write capability = Inr ()"
    and "\<forall>x q. quotes x = Some q \<longrightarrow> validate_quote q = Inr ()"
  shows "books_kept s (flatten_all quotes capability now s)"
  using assms flatten_loop_books [OF assms, of "pb_positions s"]
  by (simp add: flatten_all_def paper_ok_def positions_ok_def)

subsection \<open>The broker as a transition system\<close>

datatype paper_op =
    Submit_Order order_request trade_quote "broker_write_capability option" time
  | Process_Quote trade_quote time
  | Cancel_All "broker_write_capability option" time
  | Flatten_All "(string \<times> trade_quote) list" "broker_write_capability option" time
  | Take_Snapshot time
  | Set_Connected bool

fun paper_exec :: "paper_op \<Rightarrow> paper_broker \<Rightarrow> unit res \<times> paper_broker" where
  "paper_exec (Submit_Order rq q cap now) s = and_then (paper_submit rq q cap now s) (\<lambda>_ t. (Inr (), t))"
| "paper_exec (Process_Quote q now) s = and_then (process_quote q now s) (\<lambda>_ t. (Inr (), t))"
| "paper_exec (Cancel_All cap now) s = and_then (cancel_all cap now s) (\<lambda>_ t. (Inr (), t))"
| "paper_exec (Flatten_All qs cap now) s = and_then (flatten_all (map_of qs) cap now s) (\<lambda>_ t. (Inr (), t))"
| "paper_exec (Take_Snapshot now) s = and_then (get_account_snapshot now s) (\<lambda>_ t. (Inr (), t))"
| "paper_exec (Set_Connected c) s = (Inr (), set_connected c s)"

text \<open>Arguments are documents that passed their own validation.\<close>

fun op_documents_valid :: "paper_op \<Rightarrow> bool" where
  "op_documents_valid (Submit_Order rq q cap now) \<longleftrightarrow> validate_request rq = Inr () \<and> validate_quote q = Inr ()"
| "op_documents_valid (Process_Quote q now) \<longleftrightarrow> validate_quote q = Inr ()"
| "op_documents_valid (Flatten_All qs cap now) \<longleftrightarrow> (\<forall>(x, q) \<in> set qs. validate_quote q = Inr ())"
| "op_documents_valid _ \<longleftrightarrow> True"

fun needed_capability :: "paper_op \<Rightarrow> broker_write_capability option option" where
  "needed_capability (Submit_Order rq q cap now) = Some cap"
| "needed_capability (Cancel_All cap now) = Some cap"
| "needed_capability (Flatten_All qs cap now) = Some cap"
| "needed_capability _ = None"

definition permitted :: "paper_op \<Rightarrow> bool" where
  "permitted op \<longleftrightarrow> (case needed_capability op of None \<Rightarrow> True | Some cap \<Rightarrow> require_broker_write cap = Inr ())"

lemma snapshot_total:
  "\<exists>a. get_account_snapshot now s = (Inr a, s\<lparr>pb_peak_nlv := max (pb_peak_nlv s) (mark_to_market s)\<rparr>)"
  by (simp add: get_account_snapshot_def Let_def validate_account_def checks.simps less_max_iff_disj)

lemma paper_exec_permitted:
  assumes "paper_ok s" and "op_documents_valid op" and "permitted op"
  shows "\<exists>t. paper_exec op s = (Inr (), t) \<and> paper_ok t \<and> pb_start_of_day_nlv t = pb_start_of_day_nlv s"
proof -
  have unit: "\<exists>t. and_then r (\<lambda>_ t. (Inr (), t)) = (Inr (), t) \<and> paper_ok t \<and> pb_start_of_day_nlv t = pb_start_of_day_nlv s"
    if "books_kept s r" for r :: "order_event list res \<times> paper_broker"
    using that by (auto simp: books_kept_def same_frame_def)
  show ?thesis
  proof (cases op)
    case (Submit_Order rq q cap now)
    then show ?thesis using assms unit paper_submit_books by (simp add: permitted_def)
  next
    case (Process_Quote q now)
    then show ?thesis using assms unit process_quote_books by simp
  next
    case (Cancel_All cap now)
    then show ?thesis using assms unit cancel_all_ok by (simp add: permitted_def)
  next
    case (Flatten_All qs cap now)
    have "\<forall>x q. map_of qs x = Some q \<longrightarrow> validate_quote q = Inr ()"
      using assms(2) Flatten_All by (fastforce dest: map_of_SomeD)
    then show ?thesis using assms Flatten_All unit flatten_all_books by (simp add: permitted_def)
  next
    case (Take_Snapshot now)
    then show ?thesis using assms(1) snapshot_total [of now s]
      by (auto simp: paper_ok_def positions_ok_def orders_valid_def books_match_def paper_held_def)
  next
    case (Set_Connected c)
    then show ?thesis using assms(1)
      by (simp add: set_connected_def paper_ok_def positions_ok_def orders_valid_def books_match_def paper_held_def)
  qed
qed

lemma paper_exec_refused:
  assumes "\<not> permitted op"
  shows "paper_exec op s = (Inl (PermissionError ''broker_write_capability_required''), s)"
proof -
  obtain cap e where "needed_capability op = Some cap" "require_broker_write cap = Inl e"
    using assms by (auto simp: permitted_def split: option.splits) (metis sum.exhaust unit.exhaust)
  then show ?thesis using require_broker_write_Inl [of cap e]
    by (cases op) (auto simp: paper_submit_def cancel_all_def flatten_all_def)
qed

lemma new_paper_broker_ok: "validate_execution_config c = Inr () \<Longrightarrow> paper_ok (new_paper_broker cash c)"
  by (simp add: new_paper_broker_def paper_ok_def positions_ok_def orders_valid_def books_match_def paper_held_def)

definition paper_step :: "paper_op \<Rightarrow> paper_broker \<Rightarrow> paper_broker" where
  "paper_step op s = snd (paper_exec op s)"

definition fresh_paper :: "paper_broker \<Rightarrow> bool" where
  "fresh_paper s \<longleftrightarrow> (\<exists>cash c. validate_execution_config c = Inr () \<and> s = new_paper_broker cash c)"

lemma paper_step_keeps:
  assumes "paper_ok s" and "op_documents_valid op"
  shows "paper_ok (paper_step op s)" "pb_start_of_day_nlv (paper_step op s) = pb_start_of_day_nlv s"
  using paper_exec_permitted [OF assms] paper_exec_refused [of op s] assms(1)
  by (cases "permitted op"; auto simp: paper_step_def)+

interpretation paper_sys: invariant_system fresh_paper paper_step "\<lambda>op s. op_documents_valid op" paper_ok
proof
  show "paper_ok s" if "fresh_paper s" for s using that new_paper_broker_ok by (auto simp: fresh_paper_def)
qed (rule paper_step_keeps)

text \<open>Along any sequence of operations with valid documents, refused ones included.\<close>

lemma paper_run_keeps:
  assumes "paper_ok s" and "\<forall>op \<in> set ops. op_documents_valid op"
  shows "paper_ok (fold paper_step ops s) \<and> pb_start_of_day_nlv (fold paper_step ops s) = pb_start_of_day_nlv s"
  using assms by (induction ops arbitrary: s) (auto simp: paper_step_keeps)

end
