(* ===== verification/Paper_Flatten.thy ===== *)
theory Paper_Flatten
  imports Paper_Books
begin

section \<open>Flattening the paper account\<close>

text \<open>
  \<open>flatten_all\<close> of \<open>execution/simulated.py\<close> sells the positions one by one. Its idempotency key is made of
  symbol and quantity; different symbols have different keys, so one pass never blocks itself, and a pass
  whose keys are unused sells every position out.
\<close>

lemma colon_split:
  assumes "a @ '':'' @ d = b @ '':'' @ e" and "CHR '':'' \<notin> set d" and "CHR '':'' \<notin> set e"
  shows "a = b \<and> d = e"
proof -
  have "takeWhile (\<lambda>c. c \<noteq> CHR '':'') (rev d @ CHR '':'' # rev a) = takeWhile (\<lambda>c. c \<noteq> CHR '':'') (rev e @ CHR '':'' # rev b)"
    using arg_cong [OF assms(1), of rev] by simp
  moreover have "takeWhile (\<lambda>c. c \<noteq> CHR '':'') (rev d) = rev d" "takeWhile (\<lambda>c. c \<noteq> CHR '':'') (rev e) = rev e"
    using assms(2,3) by (auto simp: takeWhile_eq_all_conv)
  ultimately have "rev d = rev e" by (simp add: takeWhile_tail)
  then show ?thesis using assms(1) by simp
qed

lemma int_string_no_colon: "CHR '':'' \<notin> set (int_string n)"
proof -
  have "CHR '':'' \<notin> set (nat_string k)" for k using nat_string_digits [of "CHR '':''" k] by auto
  then show ?thesis by (simp add: int_string_def)
qed

lemma flatten_key_inject: "flatten_key p = flatten_key p' \<longleftrightarrow> ps_symbol p = ps_symbol p' \<and> ps_quantity p = ps_quantity p'"
  using colon_split [of "ps_symbol p" "int_string (ps_quantity p)" "ps_symbol p'" "int_string (ps_quantity p')"]
  by (auto simp: flatten_key_def int_string_no_colon)

text \<open>Selling the first position out leaves the others.\<close>

lemma flatten_order_fills:
  assumes ok: "paper_ok s" and q: "validate_quote q = Inr ()" and ps: "pb_positions s = p # ps"
  shows "\<exists>evs t. try_fill (flatten_order q p now) q now s = (Inr evs, t) \<and> pb_positions t = ps \<and>
    pb_protections t = drop_key pr_symbol (ps_symbol p) (pb_protections s)"
proof -
  let ?rq = "flatten_order q p now"
  have pos: "positions_ok s" "validate_execution_config (pb_config s) = Inr ()"
    using ok by (simp_all add: paper_ok_def orders_valid_def)
  have others: "drop_key ps_symbol (ps_symbol p) (p # ps) = ps" and qty: "0 < ps_quantity p"
    using pos(1) ps by (auto simp: positions_ok_def drop_key_def filter_id_conv image_iff)
  have fields: "or_side ?rq = SELL" "or_symbol ?rq = ps_symbol p" "or_quantity ?rq = ps_quantity p" "or_limit_price ?rq = qt_bid q"
    by (simp_all add: flatten_order_def)
  have price: "0 < slipped_price s q SELL (qt_bid q)" using slipped_price_pos [OF pos(2) q] q by (simp add: quote_valid)
  show ?thesis
    using price qty commission_nonneg [OF pos(2), of "ps_quantity p"]
    by (simp add: try_fill_def marketable_def fields Let_def ps book_sale_def others record_trade_def validate_trade_fill_def
        checks.simps)
qed

lemma flatten_step:
  assumes ok: "paper_ok s" and cap: "require_broker_write c = Inr ()" and up: "pb_connected s"
    and q: "validate_quote q = Inr ()" and ps: "pb_positions s = p # ps"
    and fresh: "flatten_key p \<notin> fst ` set (pb_idempotency s)"
  obtains evs t where "paper_submit (flatten_order q p now) q c now s = (Inr evs, t)" "paper_ok t" "pb_connected t"
    "pb_positions t = ps" "pb_protections t = drop_key pr_symbol (ps_symbol p) (pb_protections s)"
    "fst ` set (pb_idempotency t) = insert (flatten_key p) (fst ` set (pb_idempotency s))"
proof -
  let ?rq = "flatten_order q p now" and ?s = "enter_order (flatten_order q p now) now s"
  have key: "or_idempotency_key ?rq = flatten_key p" by (simp add: flatten_order_def)
  have none: "lookup fst (flatten_key p) (pb_idempotency s) = None"
    using fresh by (force simp: find_None_iff image_iff)
  have "0 < ps_quantity p" using ok ps by (simp add: paper_ok_def positions_ok_def)
  then have valid: "validate_request ?rq = Inr ()" using flatten_order_valid [OF q] by simp
  note e = enter_order_ok [OF ok valid, of now]
  have held: "pb_positions ?s = p # ps" and pr: "pb_protections ?s = pb_protections s"
    using ps by (simp_all add: enter_order_def)
  obtain evs t where t: "try_fill ?rq q now ?s = (Inr evs, t)" "pb_positions t = ps"
    "pb_protections t = drop_key pr_symbol (ps_symbol p) (pb_protections s)"
    using flatten_order_fills [OF e(1) q held, of now] unfolding pr by blast
  have k: "paper_ok t" "same_frame ?s t" "pb_idempotency t = pb_idempotency ?s"
    using try_fill_keeps [OF e(1) valid q, of now] t(1) by (simp_all add: keeps_def)
  show thesis
    by (rule that [OF _ k(1) _ t(2,3)])
      (use cap up key none t(1) k(2,3) in \<open>simp_all add: paper_submit_def same_frame_def enter_order_def\<close>)
qed

lemma flatten_loop_closes:
  assumes "paper_ok s" and "require_broker_write c = Inr ()" and "pb_connected s" and "pb_positions s = ps"
    and "\<forall>p \<in> set ps. \<exists>q. qs (ps_symbol p) = Some q \<and> validate_quote q = Inr ()"
    and "\<forall>p \<in> set ps. flatten_key p \<notin> fst ` set (pb_idempotency s)"
  shows "\<exists>evs t. flatten_loop qs c now ps s = (Inr evs, t) \<and> pb_positions t = [] \<and> paper_ok t"
  using assms
proof (induction ps arbitrary: s)
  case (Cons p ps)
  obtain q where q: "qs (ps_symbol p) = Some q" "validate_quote q = Inr ()" using Cons.prems(5) by auto
  obtain evs t where t: "paper_submit (flatten_order q p now) q c now s = (Inr evs, t)" "paper_ok t" "pb_connected t"
    "pb_positions t = ps" "fst ` set (pb_idempotency t) = insert (flatten_key p) (fst ` set (pb_idempotency s))"
    by (rule flatten_step [OF Cons.prems(1-3) q(2) Cons.prems(4)]) (use Cons.prems(6) in auto)
  have "ps_symbol p \<notin> ps_symbol ` set ps" and "0 < ps_quantity p"
    using Cons.prems(1,4) by (auto simp: paper_ok_def positions_ok_def)
  then have "\<forall>x \<in> set ps. flatten_key x \<notin> fst ` set (pb_idempotency t)"
    using Cons.prems(6) t(5) by (auto simp: flatten_key_inject image_iff)
  then obtain evs' u where "flatten_loop qs c now ps t = (Inr evs', u)" "pb_positions u = []" "paper_ok u"
    using Cons.IH [OF t(2) Cons.prems(2) t(3,4)] Cons.prems(5) by auto
  then show ?case using q t(1) flatten_order_valid [OF q(2) \<open>0 < ps_quantity p\<close>] by simp
qed simp

lemma no_positions_no_protections: "positions_ok s \<Longrightarrow> pb_positions s = [] \<Longrightarrow> pb_protections s = []"
  by (simp add: positions_ok_def)

lemma flatten_all_flat:
  assumes "paper_ok s" and "require_broker_write c = Inr ()" and "pb_connected s"
    and "\<forall>p \<in> set (pb_positions s). \<exists>q. qs (ps_symbol p) = Some q \<and> validate_quote q = Inr ()"
    and "\<forall>p \<in> set (pb_positions s). flatten_key p \<notin> fst ` set (pb_idempotency s)"
  shows "\<exists>evs t. flatten_all qs c now s = (Inr evs, t) \<and> paper_ok t \<and> pb_positions t = [] \<and> pb_protections t = []"
  using flatten_loop_closes [OF assms(1-3) refl assms(4,5), of now] assms(2) no_positions_no_protections
  by (fastforce simp: flatten_all_def paper_ok_def)

end
