(* ===== verification/Evidence_Models.thy ===== *)
theory Evidence_Models
  imports Domain
begin

section \<open>Evidence documents\<close>

text \<open>
  \<open>src/hanalpha/evidence/models.py\<close> and \<open>evidence/decision.py\<close>: source documents, extraction results,
  claims with the spans they cite, contradiction edges, snapshots and reviews, with their validators.
\<close>

datatype claim_type =
    GUIDANCE_RAISE | GUIDANCE_CUT | DEMAND_STRENGTH | DEMAND_WEAKNESS | SUPPLY_CONSTRAINT
  | CONTRACT_AWARD | ACCOUNTING_RISK | EARNINGS_SURPRISE

definition claim_type_value :: "claim_type \<Rightarrow> string" where
  "claim_type_value c = (case c of GUIDANCE_RAISE \<Rightarrow> ''guidance_raise'' | GUIDANCE_CUT \<Rightarrow> ''guidance_cut''
     | DEMAND_STRENGTH \<Rightarrow> ''demand_strength'' | DEMAND_WEAKNESS \<Rightarrow> ''demand_weakness''
     | SUPPLY_CONSTRAINT \<Rightarrow> ''supply_constraint'' | CONTRACT_AWARD \<Rightarrow> ''contract_award''
     | ACCOUNTING_RISK \<Rightarrow> ''accounting_risk'' | EARNINGS_SURPRISE \<Rightarrow> ''earnings_surprise'')"

datatype evidence_decision = NO_OBJECTION | VETO | ABSTAIN

definition evidence_decision_value :: "evidence_decision \<Rightarrow> string" where
  "evidence_decision_value d = (case d of NO_OBJECTION \<Rightarrow> ''no_objection'' | VETO \<Rightarrow> ''veto'' | ABSTAIN \<Rightarrow> ''abstain'')"

subsection \<open>Documents\<close>

record evidence_document =
  ed_document_id :: string
  ed_entity_id :: string
  ed_source :: string
  ed_source_uri :: string
  ed_observed_at :: time
  ed_effective_at :: time
  ed_available_at :: time
  ed_ingested_at :: time
  ed_content :: string
  ed_content_hash :: string

definition text_digest :: "(json \<Rightarrow> string) \<Rightarrow> string \<Rightarrow> string" where
  "text_digest H content = canonical_hash H (JObj [(''content'', JStr content)])"

definition validate_document :: "(json \<Rightarrow> string) \<Rightarrow> evidence_document \<Rightarrow> unit res" where
  "validate_document H d = checks
     [(hash_pattern (ed_document_id d), ValueError ''document_id''),
      (ed_content d \<noteq> [], ValueError ''content''),
      (hash_pattern (ed_content_hash d), ValueError ''content_hash''),
      (ed_observed_at d \<le> ed_available_at d \<and> ed_available_at d \<le> ed_ingested_at d,
       ValueError ''document knowledge times must be monotonic''),
      (ed_content_hash d = text_digest H (ed_content d), ValueError ''document content hash mismatch'')]"

definition document_create ::
  "(json \<Rightarrow> string) \<Rightarrow> string \<Rightarrow> string \<Rightarrow> string \<Rightarrow> time \<Rightarrow> time \<Rightarrow> time \<Rightarrow> time \<Rightarrow> string \<Rightarrow> evidence_document res" where
  "document_create H entity_id source source_uri observed_at effective_at available_at ingested_at content =
     (let content_hash = text_digest H content;
          d = \<lparr>ed_document_id = canonical_hash H (JObj [(''source'', JStr source), (''source_uri'', JStr source_uri),
                (''content_hash'', JStr content_hash)]),
            ed_entity_id = entity_id, ed_source = source, ed_source_uri = source_uri, ed_observed_at = observed_at,
            ed_effective_at = effective_at, ed_available_at = available_at, ed_ingested_at = ingested_at,
            ed_content = content, ed_content_hash = content_hash\<rparr>
      in case validate_document H d of Inl e \<Rightarrow> Inl e | Inr _ \<Rightarrow> Inr d)"

subsection \<open>What an extractor returns\<close>

record citation_draft =
  cd_quote :: string
  cd_occurrence_hint :: int
  cd_section :: "string option"

definition opt_length :: "string option \<Rightarrow> nat \<Rightarrow> bool" where
  "opt_length x n = (case x of None \<Rightarrow> True | Some s \<Rightarrow> length s \<le> n)"

definition validate_citation :: "citation_draft \<Rightarrow> unit res" where
  "validate_citation c = checks
     [(1 \<le> length (cd_quote c) \<and> length (cd_quote c) \<le> 2000, ValueError ''quote''),
      (cd_occurrence_hint c > 0, ValueError ''occurrence_hint''),
      (opt_length (cd_section c) 200, ValueError ''section'')]"

record claim_draft =
  dr_claim_type :: claim_type
  dr_value :: string
  dr_unit :: "string option"
  dr_effective_at :: time
  dr_confidence :: rat
  dr_citations :: "citation_draft list"
  dr_invalidation_conditions :: "string list"
  dr_subject :: string
  dr_metric :: "string option"
  dr_segment :: "string option"
  dr_geography :: "string option"
  dr_fiscal_period :: "string option"
  dr_time_horizon :: "string option"

definition claim_draft_ok :: "claim_draft \<Rightarrow> bool" where
  "claim_draft_ok d \<longleftrightarrow> 1 \<le> length (dr_value d) \<and> length (dr_value d) \<le> 500 \<and> opt_length (dr_unit d) 50 \<and>
     0 \<le> dr_confidence d \<and> dr_confidence d \<le> 1 \<and> dr_citations d \<noteq> [] \<and>
     list_all (\<lambda>c. validate_citation c = Inr ()) (dr_citations d) \<and>
     1 \<le> length (dr_subject d) \<and> length (dr_subject d) \<le> 200 \<and>
     opt_length (dr_metric d) 100 \<and> opt_length (dr_segment d) 100 \<and> opt_length (dr_geography d) 100 \<and>
     opt_length (dr_fiscal_period d) 100 \<and> opt_length (dr_time_horizon d) 100"

record extraction_result =
  xr_abstain :: bool
  xr_abstain_reason :: "string option"
  xr_claims :: "claim_draft list"

definition validate_extraction :: "extraction_result \<Rightarrow> unit res" where
  "validate_extraction r = checks
     [(list_all claim_draft_ok (xr_claims r), ValueError ''claims''),
      (xr_abstain r \<longrightarrow> xr_abstain_reason r \<notin> {None, Some []} \<and> xr_claims r = [],
       ValueError ''abstention requires a reason and no claims''),
      (\<not> xr_abstain r \<longrightarrow> xr_claims r \<noteq> [], ValueError ''non-abstaining extraction requires claims'')]"

record provider_call =
  pc_provider :: string
  pc_request_id :: "string option"
  pc_response_id :: "string option"
  pc_actual_model :: string
  pc_http_status :: "int option"
  pc_input_tokens :: int
  pc_cached_input_tokens :: int
  pc_output_tokens :: int
  pc_reasoning_tokens :: int
  pc_latency_ms :: int
  pc_estimated_cost_usd :: "rat option"
  pc_cost_source :: string

record extraction_envelope =
  xe_result :: extraction_result
  xe_call :: provider_call

subsection \<open>Claims, contradictions and snapshots\<close>

record source_span =
  sp_document_id :: string
  sp_start :: nat
  sp_end :: nat
  sp_text_hash :: string

definition validate_span :: "source_span \<Rightarrow> unit res" where
  "validate_span s = checks
     [(hash_pattern (sp_document_id s), ValueError ''document_id''),
      (sp_end s > 0, ValueError ''end''),
      (hash_pattern (sp_text_hash s), ValueError ''text_hash''),
      (sp_start s < sp_end s, ValueError ''source span end must follow start'')]"

definition span_doc :: "source_span \<Rightarrow> json" where
  "span_doc s = JObj [(''document_id'', JStr (sp_document_id s)), (''start'', JInt (int (sp_start s))),
     (''end'', JInt (int (sp_end s))), (''text_hash'', JStr (sp_text_hash s))]"

record evidence_claim =
  ec_claim_id :: string
  ec_entity_id :: string
  ec_claim_type :: claim_type
  ec_value :: string
  ec_unit :: "string option"
  ec_effective_at :: time
  ec_available_at :: time
  ec_expires_at :: time
  ec_source_document_id :: string
  ec_spans :: "source_span list"
  ec_extractor_id :: string
  ec_extractor_version :: string
  ec_confidence :: rat
  ec_invalidation_conditions :: "string list"
  ec_subject :: string
  ec_metric :: "string option"
  ec_segment :: "string option"
  ec_geography :: "string option"
  ec_fiscal_period :: "string option"
  ec_time_horizon :: "string option"
  ec_claim_revision :: int
  ec_supersedes_claim_id :: "string option"
  ec_revision_reason :: "string option"

definition validate_claim :: "evidence_claim \<Rightarrow> unit res" where
  "validate_claim c = checks
     [(hash_pattern (ec_claim_id c), ValueError ''claim_id''),
      (hash_pattern (ec_source_document_id c), ValueError ''source_document_id''),
      (0 \<le> ec_confidence c \<and> ec_confidence c \<le> 1, ValueError ''confidence''),
      (ec_claim_revision c > 0, ValueError ''claim_revision''),
      (case ec_supersedes_claim_id c of None \<Rightarrow> True | Some x \<Rightarrow> hash_pattern x, ValueError ''supersedes_claim_id''),
      (ec_available_at c < ec_expires_at c, ValueError ''claim must expire after availability'')]"

record contradiction_edge =
  ce_edge_id :: string
  ce_left_claim_id :: string
  ce_right_claim_id :: string
  ce_reason :: string

definition validate_edge :: "contradiction_edge \<Rightarrow> unit res" where
  "validate_edge e = checks
     [(hash_pattern (ce_edge_id e), ValueError ''edge_id''),
      (hash_pattern (ce_left_claim_id e), ValueError ''left_claim_id''),
      (hash_pattern (ce_right_claim_id e), ValueError ''right_claim_id'')]"

record evidence_snapshot =
  es_snapshot_id :: string
  es_as_of :: time
  es_claims :: "evidence_claim list"
  es_contradictions :: "contradiction_edge list"

definition validate_snapshot :: "evidence_snapshot \<Rightarrow> unit res" where
  "validate_snapshot s = checks
     [(hash_pattern (es_snapshot_id s), ValueError ''snapshot_id''),
      (list_all (\<lambda>c. ec_available_at c \<le> es_as_of s \<and> es_as_of s < ec_expires_at c) (es_claims s),
       ValueError ''snapshot contains unavailable or expired claims''),
      (list_all (\<lambda>e. ce_left_claim_id e \<in> ec_claim_id ` set (es_claims s) \<and>
         ce_right_claim_id e \<in> ec_claim_id ` set (es_claims s)) (es_contradictions s),
       ValueError ''contradiction references claim outside snapshot'')]"

subsection \<open>Reviews\<close>

record evidence_review =
  er_candidate_id :: string
  er_decision_id :: string
  er_entity_id :: string
  er_evidence_snapshot_id :: string
  er_reviewed_at :: time
  er_reviewer_config_hash :: string
  er_decision :: evidence_decision
  er_rationale :: string
  er_claim_ids :: "string list"
  er_invalidators :: "string list"

definition validate_veto :: "evidence_review \<Rightarrow> unit res" where
  "validate_veto r = checks
     [(hash_pattern (er_candidate_id r), ValueError ''candidate_id''),
      (hash_pattern (er_decision_id r), ValueError ''decision_id''),
      (er_entity_id r \<noteq> [], ValueError ''entity_id''),
      (hash_pattern (er_evidence_snapshot_id r), ValueError ''evidence_snapshot_id''),
      (hash_pattern (er_reviewer_config_hash r), ValueError ''reviewer_config_hash''),
      (er_rationale r \<noteq> [], ValueError ''rationale''),
      (er_decision r = VETO \<longrightarrow> er_invalidators r \<noteq> [], ValueError ''veto requires a concrete invalidator''),
      (er_decision r \<noteq> VETO \<longrightarrow> er_invalidators r = [], ValueError ''only a veto may carry invalidators'')]"

definition review_doc :: "evidence_review \<Rightarrow> json" where
  "review_doc r = JObj [(''candidate_id'', JStr (er_candidate_id r)), (''decision_id'', JStr (er_decision_id r)),
     (''entity_id'', JStr (er_entity_id r)), (''evidence_snapshot_id'', JStr (er_evidence_snapshot_id r)),
     (''reviewed_at'', JTime (er_reviewed_at r)), (''reviewer_config_hash'', JStr (er_reviewer_config_hash r)),
     (''decision'', JStr (evidence_decision_value (er_decision r))), (''rationale'', JStr (er_rationale r)),
     (''claim_ids'', JArr (map JStr (er_claim_ids r))), (''invalidators'', JArr (map JStr (er_invalidators r)))]"

definition review_id :: "(json \<Rightarrow> string) \<Rightarrow> evidence_review \<Rightarrow> string" where
  "review_id H r = canonical_hash H (review_doc r)"

definition validate_review ::
  "evidence_review \<Rightarrow> evidence_snapshot \<Rightarrow> string \<Rightarrow> string \<Rightarrow> string \<Rightarrow> evidence_review res" where
  "validate_review r s candidate_id decision_id entity_id =
     (case checks
        [(er_candidate_id r = candidate_id \<and> er_decision_id r = decision_id \<and> er_entity_id r = entity_id \<and>
          er_evidence_snapshot_id r = es_snapshot_id s,
          ValueError ''review does not bind to candidate, decision, entity and snapshot''),
         (er_reviewed_at r \<ge> es_as_of s, ValueError ''review time precedes evidence snapshot''),
         (set (er_claim_ids r) \<subseteq> ec_claim_id ` set (es_claims s),
          ValueError ''review fabricated or cited unavailable claims''),
         (list_all (\<lambda>c. ec_claim_id c \<in> set (er_claim_ids r) \<longrightarrow> ec_entity_id c = entity_id) (es_claims s),
          ValueError ''review cited a claim from another entity'')] of
        Inl e \<Rightarrow> Inl e | Inr _ \<Rightarrow> Inr r)"

end
