(* ===== verification/Evidence_Store.thy ===== *)
theory Evidence_Store
  imports Evidence_Models
begin

section \<open>Evidence store\<close>

text \<open>
  \<open>src/hanalpha/evidence/store.py\<close>: the SQLite tables of the evidence plane as lists of rows, and the
  methods of \<open>EvidenceStore\<close>. A stored JSON text is the object it parses back to, and two texts are equal
  exactly when the objects are. \<open>available_day\<close> is the UTC day of the document's availability. The schema
  migration of \<open>__init__\<close> is not modelled (a fresh database).
\<close>

record budget_policy =
  bp_max_documents_per_entity_day :: int
  bp_max_calls_per_event :: int
  bp_max_claims_per_document :: int
  bp_max_document_characters :: int

definition default_budget :: budget_policy where
  "default_budget = \<lparr>bp_max_documents_per_entity_day = 20, bp_max_calls_per_event = 2,
     bp_max_claims_per_document = 20, bp_max_document_characters = 100000\<rparr>"

definition validate_budget :: "budget_policy \<Rightarrow> unit res" where
  "validate_budget p = checks
     [(bp_max_documents_per_entity_day p > 0, ValueError ''max_documents_per_entity_day''),
      (bp_max_calls_per_event p > 0, ValueError ''max_calls_per_event''),
      (bp_max_claims_per_document p > 0, ValueError ''max_claims_per_document''),
      (bp_max_document_characters p > 0, ValueError ''max_document_characters'')]"

datatype attempt_status = AT_STARTED | AT_COMPLETED | AT_FAILED

record attempt_row =
  at_attempt_id :: string
  at_event_key :: string
  at_cache_key :: string
  at_extractor_id :: string
  at_extractor_config_hash :: string
  at_started_at :: time
  at_completed_at :: "time option"
  at_status :: attempt_status
  at_error_type :: "string option"
  at_call :: "provider_call option"

record cache_row =
  cw_cache_key :: string
  cw_result :: extraction_result
  cw_created_at :: time

record evidence_store =
  vs_documents :: "evidence_document list"
  vs_claims :: "evidence_claim list"
  vs_edges :: "contradiction_edge list"
  vs_cache :: "cache_row list"
  vs_budget :: "(string \<times> int) list"
  vs_attempts :: "attempt_row list"

definition empty_evidence :: evidence_store where
  "empty_evidence = \<lparr>vs_documents = [], vs_claims = [], vs_edges = [], vs_cache = [], vs_budget = [], vs_attempts = []\<rparr>"

definition day_of :: "time \<Rightarrow> int" where
  "day_of t = t div 86400000000"

definition document_count :: "evidence_store \<Rightarrow> string \<Rightarrow> int \<Rightarrow> int" where
  "document_count s entity day =
     int (length (filter (\<lambda>d. ed_entity_id d = entity \<and> day_of (ed_available_at d) = day) (vs_documents s)))"

definition put_document ::
  "evidence_document \<Rightarrow> budget_policy \<Rightarrow> evidence_store \<Rightarrow> unit res \<times> evidence_store" where
  "put_document d pol s =
     (if int (length (ed_content d)) > bp_max_document_characters pol
      then (Inl (EvidenceBudgetExceeded ''document character budget exceeded''), s)
      else case lookup ed_document_id (ed_document_id d) (vs_documents s) of
        Some row \<Rightarrow> if row \<noteq> d then (Inl (RuntimeError ''immutable document conflict''), s) else (Inr (), s)
      | None \<Rightarrow>
          if document_count s (ed_entity_id d) (day_of (ed_available_at d)) \<ge> bp_max_documents_per_entity_day pol
          then (Inl (EvidenceBudgetExceeded ''entity daily document budget exceeded''), s)
          else (Inr (), s\<lparr>vs_documents := vs_documents s @ [d]\<rparr>))"

definition calls_made :: "string \<Rightarrow> evidence_store \<Rightarrow> int" where
  "calls_made k s = (case map_of (vs_budget s) k of None \<Rightarrow> 0 | Some n \<Rightarrow> n)"

definition reserve_call ::
  "string \<Rightarrow> budget_policy \<Rightarrow> string \<Rightarrow> string \<Rightarrow> string \<Rightarrow> time \<Rightarrow> evidence_store \<Rightarrow> string res \<times> evidence_store" where
  "reserve_call event_key pol cache_key extractor_id config_hash at = transaction (\<lambda>s.
     (let calls = calls_made event_key s; attempt_id = event_key @ '':'' @ int_string (calls + 1) in
      if calls \<ge> bp_max_calls_per_event pol
      then (Inl (EvidenceBudgetExceeded ''event model-call budget exceeded''), s)
      else if list_ex (\<lambda>r. at_attempt_id r = attempt_id) (vs_attempts s) then (Inl IntegrityError, s)
      else (Inr attempt_id, s\<lparr>
        vs_budget := upsert fst (\<lambda>old _. (fst old, snd old + 1)) (event_key, 1) (vs_budget s),
        vs_attempts := vs_attempts s @ [\<lparr>at_attempt_id = attempt_id, at_event_key = event_key,
          at_cache_key = cache_key, at_extractor_id = extractor_id, at_extractor_config_hash = config_hash,
          at_started_at = at, at_completed_at = None, at_status = AT_STARTED, at_error_type = None,
          at_call = None\<rparr>]\<rparr>)))"

text \<open>The row an \<open>UPDATE ... WHERE attempt_id=? AND status='started'\<close> touches.\<close>

definition started :: "string \<Rightarrow> attempt_row \<Rightarrow> bool" where
  "started attempt_id r \<longleftrightarrow> at_attempt_id r = attempt_id \<and> at_status r = AT_STARTED"

definition close_attempt ::
  "string \<Rightarrow> (attempt_row \<Rightarrow> attempt_row) \<Rightarrow> evidence_store \<Rightarrow> unit res \<times> evidence_store" where
  "close_attempt attempt_id upd s =
     (if length (filter (started attempt_id) (vs_attempts s)) = 1
      then (Inr (), s\<lparr>vs_attempts := update_where (started attempt_id) upd (vs_attempts s)\<rparr>)
      else (Inl (RuntimeError ''model call attempt is missing or already completed''), s))"

definition complete_call :: "string \<Rightarrow> time \<Rightarrow> string option \<Rightarrow> evidence_store \<Rightarrow> unit res \<times> evidence_store" where
  "complete_call attempt_id at error_type = transaction (close_attempt attempt_id (\<lambda>r.
     r\<lparr>at_completed_at := Some at,
       at_status := (if error_type = None \<or> error_type = Some [] then AT_COMPLETED else AT_FAILED),
       at_error_type := error_type\<rparr>))"

definition call_attempts :: "string \<Rightarrow> evidence_store \<Rightarrow> attempt_row list" where
  "call_attempts event_key s =
     sort_key at_started_at (sort_key at_attempt_id (filter (\<lambda>r. at_event_key r = event_key) (vs_attempts s)))"

definition cached :: "string \<Rightarrow> evidence_store \<Rightarrow> extraction_result option" where
  "cached cache_key s = map_option cw_result (lookup cw_cache_key cache_key (vs_cache s))"

text \<open>Immutable rows: a row with the same key must be equal, otherwise the insert is refused.\<close>

definition put_immutable :: "('r \<Rightarrow> string) \<Rightarrow> 'r \<Rightarrow> string \<Rightarrow> 'r list \<Rightarrow> 'r list res" where
  "put_immutable key row message rows =
     (case lookup key (key row) rows of None \<Rightarrow> Inr (rows @ [row])
      | Some r \<Rightarrow> if r \<noteq> row then Inl (RuntimeError message) else Inr rows)"

fun put_all_immutable :: "('r \<Rightarrow> string) \<Rightarrow> 'r list \<Rightarrow> string \<Rightarrow> 'r list \<Rightarrow> 'r list res" where
  "put_all_immutable key [] message rows = Inr rows"
| "put_all_immutable key (x # xs) message rows =
     (case put_immutable key x message rows of Inl e \<Rightarrow> Inl e | Inr rows' \<Rightarrow> put_all_immutable key xs message rows')"

definition put_cache :: "string \<Rightarrow> extraction_result \<Rightarrow> time \<Rightarrow> evidence_store \<Rightarrow> unit res \<times> evidence_store" where
  "put_cache cache_key r at s =
     (let t = s\<lparr>vs_cache := insert_or_ignore (\<lambda>x y. cw_cache_key x = cw_cache_key y)
            \<lparr>cw_cache_key = cache_key, cw_result = r, cw_created_at = at\<rparr> (vs_cache s)\<rparr>
      in if cached cache_key t = Some r then (Inr (), t)
         else (Inl (RuntimeError ''extraction cache conflict''), t))"

definition put_claims ::
  "evidence_claim list \<Rightarrow> contradiction_edge list \<Rightarrow> evidence_store \<Rightarrow> unit res \<times> evidence_store" where
  "put_claims claims edges s =
     (case put_all_immutable ec_claim_id claims ''immutable claim conflict'' (vs_claims s) of
        Inl e \<Rightarrow> (Inl e, s)
      | Inr cs \<Rightarrow> (Inr (), s\<lparr>vs_claims := cs,
          vs_edges := foldl (\<lambda>rows e. insert_or_ignore (\<lambda>x y. ce_edge_id x = ce_edge_id y) e rows) (vs_edges s) edges\<rparr>))"

definition finalize_extraction ::
  "string \<Rightarrow> string \<Rightarrow> extraction_result \<Rightarrow> evidence_claim list \<Rightarrow> contradiction_edge list \<Rightarrow> provider_call \<Rightarrow> time
    \<Rightarrow> evidence_store \<Rightarrow> unit res \<times> evidence_store" where
  "finalize_extraction attempt_id cache_key r claims edges call at = transaction (\<lambda>s.
     (case put_all_immutable ec_claim_id claims ''immutable claim conflict'' (vs_claims s) of
        Inl e \<Rightarrow> (Inl e, s)
      | Inr cs \<Rightarrow>
        (case put_all_immutable ce_edge_id edges ''immutable contradiction conflict'' (vs_edges s) of
           Inl e \<Rightarrow> (Inl e, s)
         | Inr es \<Rightarrow>
           (if cached cache_key s \<notin> {None, Some r} then (Inl (RuntimeError ''extraction cache conflict''), s)
            else close_attempt attempt_id
              (\<lambda>a. a\<lparr>at_completed_at := Some at, at_status := AT_COMPLETED, at_call := Some call\<rparr>)
              (s\<lparr>vs_claims := cs, vs_edges := es,
                 vs_cache := insert_or_ignore (\<lambda>x y. cw_cache_key x = cw_cache_key y)
                   \<lparr>cw_cache_key = cache_key, cw_result = r, cw_created_at = at\<rparr> (vs_cache s)\<rparr>)))))"

definition claims_as_of :: "time \<Rightarrow> evidence_store \<Rightarrow> evidence_claim list" where
  "claims_as_of as_of s =
     filter (\<lambda>c. ec_available_at c \<le> as_of \<and> as_of < ec_expires_at c) (sort_key ec_claim_id (vs_claims s))"

definition edges_for :: "string set \<Rightarrow> evidence_store \<Rightarrow> contradiction_edge list" where
  "edges_for ids s =
     filter (\<lambda>e. ce_left_claim_id e \<in> ids \<and> ce_right_claim_id e \<in> ids) (sort_key ce_edge_id (vs_edges s))"

end
