(* ===== verification/Evidence_Service.thy ===== *)
theory Evidence_Service
  imports Evidence_Store
begin

section \<open>Evidence service\<close>

text \<open>
  \<open>src/hanalpha/evidence/service.py\<close>: ingestion of a document through an extractor, the resolution of
  quotes to spans of the frozen text, contradiction edges and point-in-time snapshots. The extractor (a
  language model behind a network call) is a parameter: its identity fields and a function \<open>xt_extract\<close>
  that may raise. \<open>deterministic_extract\<close> is the offline extractor of \<open>evidence/extractors.py\<close>.
\<close>

record extractor =
  xt_extractor_id :: string
  xt_version :: string
  xt_config_hash :: string
  xt_task_type :: string
  xt_extract :: "evidence_document \<Rightarrow> extraction_envelope res"

record expiry_policy =
  xp_guidance_days :: int
  xp_earnings_surprise_days :: int
  xp_contract_award_days :: int
  xp_supply_constraint_days :: int
  xp_demand_days :: int
  xp_accounting_risk_days :: int

definition default_expiry :: expiry_policy where
  "default_expiry = \<lparr>xp_guidance_days = 120, xp_earnings_surprise_days = 30, xp_contract_award_days = 365,
     xp_supply_constraint_days = 90, xp_demand_days = 60, xp_accounting_risk_days = 365\<rparr>"

definition validate_expiry :: "expiry_policy \<Rightarrow> unit res" where
  "validate_expiry p = checks
     [(xp_guidance_days p > 0, ValueError ''guidance_days''),
      (xp_earnings_surprise_days p > 0, ValueError ''earnings_surprise_days''),
      (xp_contract_award_days p > 0, ValueError ''contract_award_days''),
      (xp_supply_constraint_days p > 0, ValueError ''supply_constraint_days''),
      (xp_demand_days p > 0, ValueError ''demand_days''),
      (xp_accounting_risk_days p > 0, ValueError ''accounting_risk_days'')]"

definition claim_expires_at :: "expiry_policy \<Rightarrow> claim_type \<Rightarrow> time \<Rightarrow> time" where
  "claim_expires_at p c available_at = available_at + 86400000000 *
     (case c of GUIDANCE_RAISE \<Rightarrow> xp_guidance_days p | GUIDANCE_CUT \<Rightarrow> xp_guidance_days p
      | EARNINGS_SURPRISE \<Rightarrow> xp_earnings_surprise_days p | CONTRACT_AWARD \<Rightarrow> xp_contract_award_days p
      | SUPPLY_CONSTRAINT \<Rightarrow> xp_supply_constraint_days p | DEMAND_STRENGTH \<Rightarrow> xp_demand_days p
      | DEMAND_WEAKNESS \<Rightarrow> xp_demand_days p | ACCOUNTING_RISK \<Rightarrow> xp_accounting_risk_days p)"

subsection \<open>Quotes and spans\<close>

text \<open>\<open>content.find(quote, cursor)\<close>: the first position at or after the cursor where the quote occurs.\<close>

definition occurs_at :: "string \<Rightarrow> string \<Rightarrow> nat \<Rightarrow> bool" where
  "occurs_at content quote i \<longleftrightarrow> i + length quote \<le> length content \<and> take (length quote) (drop i content) = quote"

definition find_from :: "string \<Rightarrow> string \<Rightarrow> nat \<Rightarrow> nat option" where
  "find_from content quote cursor = List.find (occurs_at content quote) [cursor..<length content + 1]"

lemma find_from_Some:
  "find_from content quote cursor = Some i \<Longrightarrow> cursor \<le> i \<and> i \<le> length content \<and> occurs_at content quote i"
  unfolding find_from_def by (drule find_Some_set) auto

function quote_starts :: "string \<Rightarrow> string \<Rightarrow> nat \<Rightarrow> nat list" where
  "quote_starts content quote cursor =
     (case find_from content quote cursor of None \<Rightarrow> []
      | Some start \<Rightarrow> start # quote_starts content quote (start + max 1 (length quote)))"
  by pat_completeness auto
termination
  by (relation "measure (\<lambda>(content, quote, cursor). length content + 1 - cursor)") (auto dest: find_from_Some)

declare quote_starts.simps [simp del]

definition resolve_span :: "(json \<Rightarrow> string) \<Rightarrow> evidence_document \<Rightarrow> string \<Rightarrow> int \<Rightarrow> source_span res" where
  "resolve_span H d quote hint =
     (let starts = quote_starts (ed_content d) quote 0 in
      if starts = [] \<or> hint > int (length starts)
      then Inl (EvidenceIntegrityError ''claim quote does not resolve in frozen document'')
      else
        let start = starts ! nat (hint - 1); stop = start + length quote;
            sp = \<lparr>sp_document_id = ed_document_id d, sp_start = start, sp_end = stop,
              sp_text_hash = canonical_hash H (JObj [(''text'', JStr (take (stop - start) (drop start (ed_content d))))])\<rparr>
        in case validate_span sp of Inl e \<Rightarrow> Inl e | Inr _ \<Rightarrow> Inr sp)"

subsection \<open>Claims\<close>

fun map_res :: "('a \<Rightarrow> 'b res) \<Rightarrow> 'a list \<Rightarrow> 'b list res" where
  "map_res f [] = Inr []"
| "map_res f (x # xs) =
     (case f x of Inl e \<Rightarrow> Inl e | Inr y \<Rightarrow> (case map_res f xs of Inl e \<Rightarrow> Inl e | Inr ys \<Rightarrow> Inr (y # ys)))"

lemma map_res_member: "map_res f xs = Inr ys \<Longrightarrow> y \<in> set ys \<Longrightarrow> \<exists>x \<in> set xs. f x = Inr y"
  by (induction xs arbitrary: ys) (auto split: sum.splits)

definition opt_str :: "string option \<Rightarrow> json" where
  "opt_str x = opt_json JStr x"

definition claim_identity ::
  "extractor \<Rightarrow> evidence_document \<Rightarrow> claim_draft \<Rightarrow> source_span list \<Rightarrow> json" where
  "claim_identity x d dr spans = JObj [(''entity_id'', JStr (ed_entity_id d)),
     (''claim_type'', JStr (claim_type_value (dr_claim_type dr))), (''value'', JStr (dr_value dr)),
     (''effective_at'', JTime (dr_effective_at dr)), (''available_at'', JTime (ed_available_at d)),
     (''document_id'', JStr (ed_document_id d)), (''spans'', JArr (map span_doc spans)),
     (''extractor'', JStr (xt_extractor_id x)), (''version'', JStr (xt_version x)),
     (''scope'', JObj [(''subject'', JStr (dr_subject dr)), (''metric'', opt_str (dr_metric dr)),
       (''segment'', opt_str (dr_segment dr)), (''geography'', opt_str (dr_geography dr)),
       (''fiscal_period'', opt_str (dr_fiscal_period dr)), (''time_horizon'', opt_str (dr_time_horizon dr))])]"

definition materialize_claim ::
  "(json \<Rightarrow> string) \<Rightarrow> extractor \<Rightarrow> expiry_policy \<Rightarrow> evidence_document \<Rightarrow> claim_draft \<Rightarrow> evidence_claim res" where
  "materialize_claim H x xp d dr =
     (case map_res (\<lambda>c. resolve_span H d (cd_quote c) (cd_occurrence_hint c)) (dr_citations dr) of
        Inl e \<Rightarrow> Inl e
      | Inr spans \<Rightarrow>
        (let c = \<lparr>ec_claim_id = canonical_hash H (claim_identity x d dr spans), ec_entity_id = ed_entity_id d,
              ec_claim_type = dr_claim_type dr, ec_value = dr_value dr, ec_unit = dr_unit dr,
              ec_effective_at = dr_effective_at dr, ec_available_at = ed_available_at d,
              ec_expires_at = claim_expires_at xp (dr_claim_type dr) (ed_available_at d),
              ec_source_document_id = ed_document_id d, ec_spans = spans, ec_extractor_id = xt_extractor_id x,
              ec_extractor_version = xt_version x, ec_confidence = dr_confidence dr,
              ec_invalidation_conditions = dr_invalidation_conditions dr, ec_subject = dr_subject dr,
              ec_metric = dr_metric dr, ec_segment = dr_segment dr, ec_geography = dr_geography dr,
              ec_fiscal_period = dr_fiscal_period dr, ec_time_horizon = dr_time_horizon dr,
              ec_claim_revision = 1, ec_supersedes_claim_id = None, ec_revision_reason = None\<rparr>
         in case validate_claim c of Inl e \<Rightarrow> Inl e | Inr _ \<Rightarrow> Inr c))"

definition materialize ::
  "(json \<Rightarrow> string) \<Rightarrow> extractor \<Rightarrow> expiry_policy \<Rightarrow> evidence_document \<Rightarrow> extraction_result \<Rightarrow> evidence_claim list res" where
  "materialize H x xp d r = map_res (materialize_claim H x xp d) (xr_claims r)"

subsection \<open>Contradictions\<close>

definition opposites :: "claim_type set set" where
  "opposites = {{GUIDANCE_RAISE, GUIDANCE_CUT}, {DEMAND_STRENGTH, DEMAND_WEAKNESS}}"

definition claim_scope :: "evidence_claim \<Rightarrow> string \<times> string option list" where
  "claim_scope c = (ec_subject c, [ec_metric c, ec_segment c, ec_geography c, ec_fiscal_period c, ec_time_horizon c])"

definition contradict :: "evidence_claim \<Rightarrow> evidence_claim \<Rightarrow> bool" where
  "contradict l r \<longleftrightarrow> ec_entity_id l = ec_entity_id r \<and> claim_scope l = claim_scope r \<and>
     {ec_claim_type l, ec_claim_type r} \<in> opposites"

definition edge_of :: "(json \<Rightarrow> string) \<Rightarrow> evidence_claim \<Rightarrow> evidence_claim \<Rightarrow> contradiction_edge res" where
  "edge_of H l r =
     (let e = \<lparr>ce_edge_id = canonical_hash H (JObj [(''left'', JStr (min (ec_claim_id l) (ec_claim_id r))),
              (''right'', JStr (max (ec_claim_id l) (ec_claim_id r)))]),
            ce_left_claim_id = ec_claim_id l, ce_right_claim_id = ec_claim_id r,
            ce_reason = ''opposing point-in-time claims require review''\<rparr>
      in case validate_edge e of Inl x \<Rightarrow> Inl x | Inr _ \<Rightarrow> Inr e)"

fun later_pairs :: "'a list \<Rightarrow> ('a \<times> 'a) list" where
  "later_pairs [] = []"
| "later_pairs (x # xs) = map (Pair x) xs @ later_pairs xs"

definition contradictions :: "(json \<Rightarrow> string) \<Rightarrow> evidence_claim list \<Rightarrow> contradiction_edge list res" where
  "contradictions H claims =
     (case map_res (\<lambda>(l, r). edge_of H l r) (filter (\<lambda>(l, r). contradict l r) (later_pairs claims)) of
        Inl e \<Rightarrow> Inl e
      | Inr es \<Rightarrow> Inr (sort_key ce_edge_id (foldl (\<lambda>rows e. put ce_edge_id e rows) [] es)))"

subsection \<open>Ingestion and snapshots\<close>

text \<open>\<open>type(exc).__name__\<close>; a \<open>ValueError\<close> here is a pydantic validation failure.\<close>

fun exn_name :: "exn \<Rightarrow> string" where
  "exn_name (ValueError _) = ''ValidationError''"
| "exn_name (TypeError _) = ''TypeError''"
| "exn_name (KeyError _) = ''KeyError''"
| "exn_name (AssertionError _) = ''AssertionError''"
| "exn_name (RuntimeError _) = ''RuntimeError''"
| "exn_name (PermissionError _) = ''PermissionError''"
| "exn_name ZeroDivisionError = ''ZeroDivisionError''"
| "exn_name IntegrityError = ''IntegrityError''"
| "exn_name (EvidenceBudgetExceeded _) = ''EvidenceBudgetExceeded''"
| "exn_name (EvidenceIntegrityError _) = ''EvidenceIntegrityError''"
| "exn_name (AttributeError _) = ''AttributeError''"
| "exn_name _ = ''Exception''"

definition cache_key_of :: "(json \<Rightarrow> string) \<Rightarrow> extractor \<Rightarrow> evidence_document \<Rightarrow> string" where
  "cache_key_of H x d = canonical_hash H (JObj [(''document_hash'', JStr (ed_content_hash d)),
     (''extractor_config_hash'', JStr (xt_config_hash x))])"

definition event_key_of :: "(json \<Rightarrow> string) \<Rightarrow> extractor \<Rightarrow> evidence_document \<Rightarrow> string" where
  "event_key_of H x d = canonical_hash H (JObj [(''document_id'', JStr (ed_document_id d)),
     (''task_type'', JStr (xt_task_type x))])"

definition extract_and_store ::
  "(json \<Rightarrow> string) \<Rightarrow> extractor \<Rightarrow> budget_policy \<Rightarrow> expiry_policy \<Rightarrow> evidence_document \<Rightarrow> time \<Rightarrow> string
    \<Rightarrow> evidence_store \<Rightarrow> extraction_result res \<times> evidence_store" where
  "extract_and_store H x pol xp d as_of attempt_id s =
     (case xt_extract x d of Inl e \<Rightarrow> (Inl e, s)
      | Inr env \<Rightarrow>
        (let r = xe_result env in
         if int (length (xr_claims r)) > bp_max_claims_per_document pol
         then (Inl (EvidenceIntegrityError ''claim budget exceeded''), s)
         else case materialize H x xp d r of Inl e \<Rightarrow> (Inl e, s)
         | Inr claims \<Rightarrow>
           (case contradictions H (claims_as_of as_of s @ claims) of Inl e \<Rightarrow> (Inl e, s)
            | Inr edges \<Rightarrow>
              and_then (finalize_extraction attempt_id (cache_key_of H x d) r claims edges (xe_call env) as_of s)
                (\<lambda>_ t. (Inr r, t)))))"

definition ingest ::
  "(json \<Rightarrow> string) \<Rightarrow> extractor \<Rightarrow> budget_policy \<Rightarrow> expiry_policy \<Rightarrow> evidence_document \<Rightarrow> time
    \<Rightarrow> evidence_store \<Rightarrow> extraction_result res \<times> evidence_store" where
  "ingest H x pol xp d as_of s =
     (if ed_available_at d > as_of then (Inl (EvidenceIntegrityError ''future document is unavailable''), s)
      else and_then (put_document d pol s) (\<lambda>_ s.
        case cached (cache_key_of H x d) s of Some r \<Rightarrow> (Inr r, s)
        | None \<Rightarrow>
          and_then (reserve_call (event_key_of H x d) pol (cache_key_of H x d) (xt_extractor_id x) (xt_config_hash x) as_of s)
            (\<lambda>attempt_id s.
              case extract_and_store H x pol xp d as_of attempt_id s of
                (Inr r, t) \<Rightarrow> (Inr r, t)
              | (Inl e, t) \<Rightarrow> and_then (complete_call attempt_id as_of (Some (exn_name e)) t) (\<lambda>_ u. (Inl e, u)))))"

definition take_evidence_snapshot :: "(json \<Rightarrow> string) \<Rightarrow> time \<Rightarrow> evidence_store \<Rightarrow> evidence_snapshot res" where
  "take_evidence_snapshot H as_of s =
     (let claims = claims_as_of as_of s; edges = edges_for (ec_claim_id ` set claims) s;
          snap = \<lparr>es_snapshot_id = canonical_hash H (JObj [(''as_of'', JTime as_of),
              (''claims'', JArr (map (JStr \<circ> ec_claim_id) claims)), (''edges'', JArr (map (JStr \<circ> ce_edge_id) edges))]),
            es_as_of = as_of, es_claims = claims, es_contradictions = edges\<rparr>
      in case validate_snapshot snap of Inl e \<Rightarrow> Inl e | Inr _ \<Rightarrow> Inr snap)"

subsection \<open>The offline extractor\<close>

definition lower_char :: "char \<Rightarrow> char" where
  "lower_char c = (if (65::nat) \<le> of_char c \<and> of_char c \<le> (90::nat) then char_of (of_char c + 32 :: nat) else c)"

definition extraction_patterns :: "(string \<times> claim_type \<times> string) list" where
  "extraction_patterns =
     [(''raised guidance'', GUIDANCE_RAISE, ''raised guidance''), (''cut guidance'', GUIDANCE_CUT, ''cut guidance''),
      (''demand remains strong'', DEMAND_STRENGTH, ''demand strong''), (''demand weakened'', DEMAND_WEAKNESS, ''demand weakened'')]"

definition offline_call :: provider_call where
  "offline_call = \<lparr>pc_provider = ''deterministic'', pc_request_id = None, pc_response_id = None,
     pc_actual_model = ''deterministic'', pc_http_status = None, pc_input_tokens = 0, pc_cached_input_tokens = 0,
     pc_output_tokens = 0, pc_reasoning_tokens = 0, pc_latency_ms = 0, pc_estimated_cost_usd = None,
     pc_cost_source = ''unpriced_usage''\<rparr>"

fun first_pattern :: "string \<Rightarrow> (string \<times> claim_type \<times> string) list \<Rightarrow> (nat \<times> string \<times> claim_type \<times> string) option" where
  "first_pattern lowered [] = None"
| "first_pattern lowered ((needle, c, v) # ps) =
     (case find_from lowered needle 0 of Some i \<Rightarrow> Some (i, needle, c, v) | None \<Rightarrow> first_pattern lowered ps)"

definition deterministic_extract :: "evidence_document \<Rightarrow> extraction_envelope res" where
  "deterministic_extract d = Inr
     (case first_pattern (map lower_char (ed_content d)) extraction_patterns of
        Some (i, needle, c, v) \<Rightarrow>
          \<lparr>xe_result = \<lparr>xr_abstain = False, xr_abstain_reason = None, xr_claims =
             [\<lparr>dr_claim_type = c, dr_value = v, dr_unit = None, dr_effective_at = ed_effective_at d,
               dr_confidence = 9 / 10,
               dr_citations = [\<lparr>cd_quote = take (length needle) (drop i (ed_content d)), cd_occurrence_hint = 1, cd_section = None\<rparr>],
               dr_invalidation_conditions = [], dr_subject = ''entity'', dr_metric = None, dr_segment = None,
               dr_geography = None, dr_fiscal_period = None, dr_time_horizon = None\<rparr>]\<rparr>, xe_call = offline_call\<rparr>
      | None \<Rightarrow> \<lparr>xe_result = \<lparr>xr_abstain = True, xr_abstain_reason = Some ''no supported claim'', xr_claims = []\<rparr>,
                 xe_call = offline_call\<rparr>)"

definition deterministic_extractor :: "string \<Rightarrow> extractor" where
  "deterministic_extractor config_hash = \<lparr>xt_extractor_id = ''deterministic-evidence-fixture'', xt_version = ''1'',
     xt_config_hash = config_hash, xt_task_type = ''claim_extraction'', xt_extract = deterministic_extract\<rparr>"

end
