(* ===== verification/Evidence_Books.thy ===== *)
theory Evidence_Books
  imports Evidence_Service
begin

section \<open>What the evidence store holds\<close>

text \<open>
  The invariant of the evidence plane: every claim cites verbatim text of a stored document, every edge
  joins two stored claims that oppose each other, and the model calls of an event are counted and stay
  within the budget. \<open>ingest\<close> keeps it whatever the extractor answers.
\<close>

subsection \<open>Spans\<close>

lemma quote_starts_occurs: "i \<in> set (quote_starts content quote cursor) \<Longrightarrow> occurs_at content quote i"
proof (induction content quote cursor rule: quote_starts.induct)
  case (1 content quote cursor)
  show ?case
  proof (cases "find_from content quote cursor")
    case None
    then show ?thesis using "1.prems" by (simp add: quote_starts.simps [of content quote cursor])
  next
    case (Some j)
    then have "i = j \<or> i \<in> set (quote_starts content quote (j + max 1 (length quote)))"
      using "1.prems" by (simp add: quote_starts.simps [of content quote cursor])
    then show ?thesis using "1.IH" [OF Some] find_from_Some [OF Some] by blast
  qed
qed

text \<open>A span quotes its document: its range lies in the content and its digest is that of the text there.\<close>

definition span_quotes :: "(json \<Rightarrow> string) \<Rightarrow> evidence_document \<Rightarrow> source_span \<Rightarrow> bool" where
  "span_quotes H d sp \<longleftrightarrow> sp_document_id sp = ed_document_id d \<and> sp_start sp < sp_end sp \<and>
     sp_end sp \<le> length (ed_content d) \<and>
     sp_text_hash sp = canonical_hash H (JObj [(''text'', JStr (take (sp_end sp - sp_start sp) (drop (sp_start sp) (ed_content d))))])"

lemma resolve_span_quotes:
  assumes "resolve_span H d quote hint = Inr sp" and "0 < hint"
  shows "span_quotes H d sp" "take (sp_end sp - sp_start sp) (drop (sp_start sp) (ed_content d)) = quote"
proof -
  let ?starts = "quote_starts (ed_content d) quote 0" and ?i = "nat (hint - 1)"
  have "\<not> hint > int (length ?starts)" and
    sp: "sp_document_id sp = ed_document_id d" "sp_start sp = ?starts ! ?i" "sp_end sp = ?starts ! ?i + length quote"
    "sp_text_hash sp = canonical_hash H (JObj [(''text'', JStr (take (length quote) (drop (?starts ! ?i) (ed_content d))))])"
    "sp_start sp < sp_end sp"
    using assms(1) by (auto simp: resolve_span_def Let_def validate_span_def split: if_splits sum.splits)
  then have "?i < length ?starts" using assms(2) by linarith
  then have "occurs_at (ed_content d) quote (?starts ! ?i)" using quote_starts_occurs nth_mem by blast
  then show "span_quotes H d sp" "take (sp_end sp - sp_start sp) (drop (sp_start sp) (ed_content d)) = quote"
    using sp by (simp_all add: span_quotes_def occurs_at_def)
qed

subsection \<open>The invariant\<close>

definition claim_cited :: "(json \<Rightarrow> string) \<Rightarrow> evidence_document list \<Rightarrow> evidence_claim \<Rightarrow> bool" where
  "claim_cited H docs c \<longleftrightarrow> ec_available_at c < ec_expires_at c \<and> ec_spans c \<noteq> [] \<and>
     (\<exists>d \<in> set docs. ed_document_id d = ec_source_document_id c \<and> ed_entity_id d = ec_entity_id c \<and>
       ed_available_at d = ec_available_at c \<and> (\<forall>sp \<in> set (ec_spans c). span_quotes H d sp))"

definition edge_joins :: "evidence_claim list \<Rightarrow> contradiction_edge \<Rightarrow> bool" where
  "edge_joins claims e \<longleftrightarrow> (\<exists>l \<in> set claims. \<exists>r \<in> set claims. ce_left_claim_id e = ec_claim_id l \<and>
     ce_right_claim_id e = ec_claim_id r \<and> contradict l r)"

definition attempts_of :: "string \<Rightarrow> evidence_store \<Rightarrow> attempt_row list" where
  "attempts_of k s = filter (\<lambda>r. at_event_key r = k) (vs_attempts s)"

definition claims_ok :: "(json \<Rightarrow> string) \<Rightarrow> evidence_store \<Rightarrow> bool" where
  "claims_ok H s \<longleftrightarrow> distinct (map ed_document_id (vs_documents s)) \<and> distinct (map ec_claim_id (vs_claims s)) \<and>
     (\<forall>c \<in> set (vs_claims s). claim_cited H (vs_documents s) c) \<and> (\<forall>e \<in> set (vs_edges s). edge_joins (vs_claims s) e)"

definition calls_ok :: "budget_policy \<Rightarrow> evidence_store \<Rightarrow> bool" where
  "calls_ok pol s \<longleftrightarrow> distinct (map at_attempt_id (vs_attempts s)) \<and>
     (\<forall>k. int (length (attempts_of k s)) = calls_made k s \<and> calls_made k s \<le> bp_max_calls_per_event pol) \<and>
     (\<forall>r \<in> set (vs_attempts s). \<exists>n. 1 \<le> n \<and> n \<le> calls_made (at_event_key r) s \<and>
        at_attempt_id r = at_event_key r @ '':'' @ int_string n)"

definition days_ok :: "budget_policy \<Rightarrow> evidence_store \<Rightarrow> bool" where
  "days_ok pol s \<longleftrightarrow> (\<forall>entity day. document_count s entity day \<le> bp_max_documents_per_entity_day pol)"

definition evidence_ok :: "(json \<Rightarrow> string) \<Rightarrow> budget_policy \<Rightarrow> evidence_store \<Rightarrow> bool" where
  "evidence_ok H pol s \<longleftrightarrow> claims_ok H s \<and> calls_ok pol s \<and> days_ok pol s"

text \<open>An extractor's answer is an \<open>ExtractionResult\<close>, so it passed its own validation.\<close>

definition extractor_valid :: "extractor \<Rightarrow> bool" where
  "extractor_valid x \<longleftrightarrow> (\<forall>d env. xt_extract x d = Inr env \<longrightarrow> validate_extraction (xe_result env) = Inr ())"

text \<open>Each part of the invariant reads only its own tables.\<close>

lemma calls_ok_frame: "vs_budget t = vs_budget s \<Longrightarrow> vs_attempts t = vs_attempts s \<Longrightarrow> calls_ok pol t = calls_ok pol s"
  by (simp add: calls_ok_def calls_made_def attempts_of_def)

lemma days_ok_frame: "vs_documents t = vs_documents s \<Longrightarrow> days_ok pol t = days_ok pol s"
  by (simp add: days_ok_def document_count_def)

lemma claims_ok_frame:
  "vs_documents t = vs_documents s \<Longrightarrow> vs_claims t = vs_claims s \<Longrightarrow> vs_edges t = vs_edges s \<Longrightarrow> claims_ok H t = claims_ok H s"
  by (simp add: claims_ok_def)

subsection \<open>Documents\<close>

lemma claim_cited_mono: "claim_cited H docs c \<Longrightarrow> set docs \<subseteq> set docs' \<Longrightarrow> claim_cited H docs' c"
  by (auto simp: claim_cited_def)

lemma put_document_cases:
  "put_document d pol s = (r, t) \<Longrightarrow>
     t = s \<or> (t = s\<lparr>vs_documents := vs_documents s @ [d]\<rparr> \<and> lookup ed_document_id (ed_document_id d) (vs_documents s) = None \<and>
       document_count s (ed_entity_id d) (day_of (ed_available_at d)) < bp_max_documents_per_entity_day pol)"
  by (auto simp: put_document_def split: if_splits option.splits)

lemma put_document_stored:
  "put_document d pol s = (Inr u, t) \<Longrightarrow> d \<in> set (vs_documents t)"
  by (auto simp: put_document_def split: if_splits option.splits dest: find_Some_set)

lemma put_document_ok:
  assumes "evidence_ok H pol s" and "put_document d pol s = (r, t)"
  shows "evidence_ok H pol t"
  using put_document_cases [OF assms(2)]
proof
  assume "t = s" then show ?thesis using assms(1) by simp
next
  assume t: "t = s\<lparr>vs_documents := vs_documents s @ [d]\<rparr> \<and> lookup ed_document_id (ed_document_id d) (vs_documents s) = None \<and>
       document_count s (ed_entity_id d) (day_of (ed_available_at d)) < bp_max_documents_per_entity_day pol"
  have "claims_ok H t"
    using assms(1) t claim_cited_mono [of H "vs_documents s" _ "vs_documents s @ [d]"]
    by (auto simp: evidence_ok_def claims_ok_def find_None_set)
  moreover have "calls_ok pol t" using assms(1) t calls_ok_frame [of t s pol] by (simp add: evidence_ok_def)
  moreover have "days_ok pol t" using assms(1) t by (auto simp: evidence_ok_def days_ok_def document_count_def)
  ultimately show ?thesis by (simp add: evidence_ok_def)
qed

subsection \<open>Model calls\<close>

lemma calls_made_upsert:
  "calls_made j (s\<lparr>vs_budget := upsert fst (\<lambda>old _. (fst old, snd old + 1)) (k, 1) (vs_budget s), vs_attempts := as\<rparr>) =
   calls_made j s + (if j = k then 1 else 0)"
proof -
  have upd: "upsert fst (\<lambda>old _. (fst old, snd old + 1)) (k, 1) xs =
      upsert fst (\<lambda>old new. (fst old, snd old + snd new)) (k, 1) xs" for xs :: "(string \<times> int) list"
    by (simp add: upsert_def)
  show ?thesis using count_upsert [of k 1 "vs_budget s" j] by (simp add: calls_made_def upd)
qed

lemma attempt_id_inject:
  assumes "a @ '':'' @ int_string m = b @ '':'' @ int_string n"
  shows "a = b \<and> m = n"
proof -
  have colon: "CHR '':'' \<notin> set (int_string i)" for i
    using nat_string_digits [of "CHR '':''"] by (auto simp: int_string_def)
  have split: "a = b" if "a @ CHR '':'' # x = b @ CHR '':'' # y" "CHR '':'' \<notin> set x" "CHR '':'' \<notin> set y" for x y
    using that by (auto simp: append_eq_append_conv2 append_eq_Cons_conv Cons_eq_append_conv)
  show ?thesis using assms split [of "int_string m" "int_string n"] colon by simp
qed

lemma reserve_call_ok:
  assumes "evidence_ok H pol s" and "reserve_call k pol ck xid ch at s = (Inr a, t)"
  shows "evidence_ok H pol t" "vs_documents t = vs_documents s" "vs_claims t = vs_claims s" "vs_edges t = vs_edges s"
    "vs_cache t = vs_cache s" "length (filter (started a) (vs_attempts t)) = 1"
proof -
  let ?n = "calls_made k s"
  let ?row = "\<lparr>at_attempt_id = a, at_event_key = k, at_cache_key = ck, at_extractor_id = xid,
      at_extractor_config_hash = ch, at_started_at = at, at_completed_at = None, at_status = AT_STARTED,
      at_error_type = None, at_call = None\<rparr>"
  have r: "?n < bp_max_calls_per_event pol" "a = k @ '':'' @ int_string (?n + 1)"
    "\<forall>r \<in> set (vs_attempts s). at_attempt_id r \<noteq> a"
    "t = s\<lparr>vs_budget := upsert fst (\<lambda>old _. (fst old, snd old + 1)) (k, 1) (vs_budget s),
        vs_attempts := vs_attempts s @ [?row]\<rparr>"
    using assms(2) by (auto simp: reserve_call_def Let_def list_ex_iff split: if_splits)
  have ok: "calls_ok pol s" using assms(1) by (simp add: evidence_ok_def)
  have calls: "calls_made j t = calls_made j s + (if j = k then 1 else 0)" for j
    unfolding r(4) by (rule calls_made_upsert)
  have "int (length (attempts_of j t)) = calls_made j t \<and> calls_made j t \<le> bp_max_calls_per_event pol" for j
  proof -
    have "int (length (attempts_of j s)) = calls_made j s" "calls_made j s \<le> bp_max_calls_per_event pol"
      using ok unfolding calls_ok_def by blast+
    moreover have "length (attempts_of j t) = length (attempts_of j s) + (if j = k then 1 else 0)"
      by (simp add: r(4) attempts_of_def)
    ultimately show ?thesis using calls [of j] r(1) by (cases "j = k") simp_all
  qed
  moreover have "distinct (map at_attempt_id (vs_attempts t))" using ok r(3,4) by (auto simp: calls_ok_def)
  moreover have "\<exists>n. 1 \<le> n \<and> n \<le> calls_made (at_event_key r) t \<and> at_attempt_id r = at_event_key r @ '':'' @ int_string n"
    if "r \<in> set (vs_attempts t)" for r
  proof (cases "r = ?row")
    case True
    have "int (length (attempts_of k s)) = ?n" using ok unfolding calls_ok_def by blast
    then have "0 \<le> ?n" by linarith
    then show ?thesis using True r(2) calls by (intro exI [of _ "?n + 1"]) simp
  next
    case False
    then have "r \<in> set (vs_attempts s)" using that r(4) by simp
    then obtain n where "1 \<le> n" "n \<le> calls_made (at_event_key r) s" "at_attempt_id r = at_event_key r @ '':'' @ int_string n"
      using ok unfolding calls_ok_def by blast
    then show ?thesis using calls [of "at_event_key r"] by (intro exI [of _ n]) auto
  qed
  ultimately have "calls_ok pol t" by (simp add: calls_ok_def)
  then show "evidence_ok H pol t"
    using assms(1) claims_ok_frame [of t s H] days_ok_frame [of t s pol] r(4) by (simp add: evidence_ok_def)
  show "vs_documents t = vs_documents s" "vs_claims t = vs_claims s" "vs_edges t = vs_edges s" "vs_cache t = vs_cache s"
    by (simp_all add: r(4))
  have "filter (started a) (vs_attempts s) = []" using r(3) by (auto simp: started_def filter_empty_conv)
  then show "length (filter (started a) (vs_attempts t)) = 1" by (simp add: r(4) started_def)
qed

text \<open>The budget table can always take the next attempt: its id is new.\<close>

lemma reserve_call_total:
  assumes "calls_ok pol s" and "calls_made k s < bp_max_calls_per_event pol"
  shows "\<exists>a t. reserve_call k pol ck xid ch at s = (Inr a, t)"
proof -
  have "at_attempt_id r \<noteq> k @ '':'' @ int_string (calls_made k s + 1)" if "r \<in> set (vs_attempts s)" for r
  proof
    assume eq: "at_attempt_id r = k @ '':'' @ int_string (calls_made k s + 1)"
    obtain n where "n \<le> calls_made (at_event_key r) s" "at_attempt_id r = at_event_key r @ '':'' @ int_string n"
      using assms(1) \<open>r \<in> set (vs_attempts s)\<close> unfolding calls_ok_def by blast
    then show False using eq attempt_id_inject [of "at_event_key r" n k "calls_made k s + 1"] by simp
  qed
  then show ?thesis using assms(2) by (auto simp: reserve_call_def Let_def list_ex_iff)
qed

lemma close_attempt_ok:
  assumes "calls_ok pol s" and "close_attempt a upd s = (r, t)"
    and "\<And>x. at_attempt_id (upd x) = at_attempt_id x \<and> at_event_key (upd x) = at_event_key x"
  shows "calls_ok pol t" "vs_documents t = vs_documents s" "vs_claims t = vs_claims s" "vs_edges t = vs_edges s"
    "vs_cache t = vs_cache s"
proof -
  have t: "t = s \<or> t = s\<lparr>vs_attempts := update_where (started a) upd (vs_attempts s)\<rparr>"
    using assms(2) by (auto simp: close_attempt_def split: if_splits)
  have ids: "map at_attempt_id (vs_attempts t) = map at_attempt_id (vs_attempts s)"
    using t assms(3) by (auto simp: map_update_where)
  have "length (filter (\<lambda>r. at_event_key r = k) (update_where (started a) upd xs)) =
      length (filter (\<lambda>r. at_event_key r = k) xs)" for k xs
    using assms(3) by (induction xs) simp_all
  then have len: "length (attempts_of k t) = length (attempts_of k s)" and calls: "calls_made k t = calls_made k s" for k
    using t by (auto simp: attempts_of_def calls_made_def)
  have row: "\<exists>x \<in> set (vs_attempts s). at_attempt_id r = at_attempt_id x \<and> at_event_key r = at_event_key x"
    if "r \<in> set (vs_attempts t)" for r
    using that t assms(3) by (auto simp: set_update_where split: if_splits intro: bexI [of _ r]) blast+
  have "\<exists>n. 1 \<le> n \<and> n \<le> calls_made (at_event_key r) t \<and> at_attempt_id r = at_event_key r @ '':'' @ int_string n"
    if "r \<in> set (vs_attempts t)" for r
    using row [OF that] assms(1) calls unfolding calls_ok_def by fastforce
  then show "calls_ok pol t"
    using assms(1) ids len calls unfolding calls_ok_def by simp
  show "vs_documents t = vs_documents s" "vs_claims t = vs_claims s" "vs_edges t = vs_edges s" "vs_cache t = vs_cache s"
    using t by auto
qed

subsection \<open>Claims and edges\<close>

lemma put_all_immutable_rows:
  assumes "put_all_immutable key xs m rows = Inr rows'"
  shows "set rows' = set rows \<union> set xs" "distinct (map key rows) \<Longrightarrow> distinct (map key rows')"
proof -
  have "set rows' = set rows \<union> set xs \<and> (distinct (map key rows) \<longrightarrow> distinct (map key rows'))"
    using assms
  proof (induction xs arbitrary: rows)
    case (Cons x xs)
    then obtain mid where mid: "put_immutable key x m rows = Inr mid" "put_all_immutable key xs m mid = Inr rows'"
      by (auto split: sum.splits)
    have "set mid = insert x (set rows) \<and> (distinct (map key rows) \<longrightarrow> distinct (map key mid))"
    proof (cases "lookup key (key x) rows")
      case None
      then have "mid = rows @ [x]" using mid(1) by (simp add: put_immutable_def)
      moreover have "key x \<notin> key ` set rows" using None unfolding find_None_set by force
      ultimately show ?thesis by simp
    next
      case (Some y)
      then show ?thesis using mid(1) find_Some_set [OF Some] by (auto simp: put_immutable_def split: if_splits)
    qed
    then show ?case using Cons.IH [OF mid(2)] by auto
  qed simp
  then show "set rows' = set rows \<union> set xs" "distinct (map key rows) \<Longrightarrow> distinct (map key rows')" by auto
qed

lemma later_pairs_members: "(l, r) \<in> set (later_pairs xs) \<Longrightarrow> l \<in> set xs \<and> r \<in> set xs"
  by (induction xs) auto

lemma set_put_fold: "e \<in> set (foldl (\<lambda>rows e. put key e rows) acc es) \<Longrightarrow> e \<in> set acc \<or> e \<in> set es"
  by (induction es arbitrary: acc) (auto dest: set_put)

lemma contradictions_join:
  assumes "contradictions H claims = Inr edges" and "e \<in> set edges"
  shows "edge_joins claims e"
proof -
  obtain es where es: "map_res (\<lambda>(l, r). edge_of H l r) (filter (\<lambda>(l, r). contradict l r) (later_pairs claims)) = Inr es"
    "edges = sort_key ce_edge_id (foldl (\<lambda>rows e. put ce_edge_id e rows) [] es)"
    using assms(1) by (auto simp: contradictions_def split: sum.splits)
  then have "e \<in> set es" using assms(2) set_put_fold [of e ce_edge_id "[]" es] by auto
  then obtain l r where lr: "(l, r) \<in> set (later_pairs claims)" "contradict l r" "edge_of H l r = Inr e"
    using map_res_member [OF es(1), of e] by auto
  then have "ce_left_claim_id e = ec_claim_id l" "ce_right_claim_id e = ec_claim_id r"
    by (auto simp: edge_of_def Let_def split: sum.splits)
  moreover have "l \<in> set claims" "r \<in> set claims" using later_pairs_members [OF lr(1)] by simp_all
  ultimately show ?thesis using lr(2) unfolding edge_joins_def by metis
qed

lemma materialize_cited:
  assumes "materialize H x xp d r = Inr claims" and "c \<in> set claims" and "validate_extraction r = Inr ()" and "d \<in> set docs"
  shows "claim_cited H docs c"
proof -
  obtain dr where dr: "dr \<in> set (xr_claims r)" "materialize_claim H x xp d dr = Inr c"
    using map_res_member [OF assms(1) [unfolded materialize_def] assms(2)] by blast
  then obtain spans where spans: "map_res (\<lambda>c. resolve_span H d (cd_quote c) (cd_occurrence_hint c)) (dr_citations dr) = Inr spans"
    and c: "ec_spans c = spans" "ec_source_document_id c = ed_document_id d" "ec_entity_id c = ed_entity_id d"
      "ec_available_at c = ed_available_at d" "validate_claim c = Inr ()"
    by (auto simp: materialize_claim_def Let_def split: sum.splits)
  have valid: "claim_draft_ok dr" using assms(3) dr(1) by (auto simp: validate_extraction_def list_all_iff)
  have "span_quotes H d sp" if sp: "sp \<in> set spans" for sp
  proof -
    obtain ci where "ci \<in> set (dr_citations dr)" "resolve_span H d (cd_quote ci) (cd_occurrence_hint ci) = Inr sp"
      using map_res_member [OF spans sp] by blast
    moreover from this have "0 < cd_occurrence_hint ci"
      using valid by (auto simp: claim_draft_ok_def list_all_iff validate_citation_def)
    ultimately show ?thesis using resolve_span_quotes(1) by blast
  qed
  moreover have "spans \<noteq> []"
    using spans valid by (cases "dr_citations dr") (auto simp: claim_draft_ok_def split: sum.splits)
  ultimately show ?thesis using c assms(4) by (auto simp: claim_cited_def validate_claim_def)
qed

lemma edge_joins_mono: "edge_joins cs e \<Longrightarrow> set cs \<subseteq> set cs' \<Longrightarrow> edge_joins cs' e"
  unfolding edge_joins_def by blast

lemma finalize_ok:
  assumes "evidence_ok H pol s" and "finalize_extraction a ck r claims edges call at s = (Inr u, t)"
    and "\<And>c. c \<in> set claims \<Longrightarrow> claim_cited H (vs_documents s) c"
    and "\<And>e. e \<in> set edges \<Longrightarrow> edge_joins (vs_claims s @ claims) e"
  shows "evidence_ok H pol t" "set (vs_claims t) = set (vs_claims s) \<union> set claims" "cached ck t = Some r"
proof -
  obtain cs es where cs: "put_all_immutable ec_claim_id claims ''immutable claim conflict'' (vs_claims s) = Inr cs"
    and es: "put_all_immutable ce_edge_id edges ''immutable contradiction conflict'' (vs_edges s) = Inr es"
    and ck: "cached ck s \<in> {None, Some r}"
    and cl: "close_attempt a (\<lambda>a. a\<lparr>at_completed_at := Some at, at_status := AT_COMPLETED, at_call := Some call\<rparr>)
        (s\<lparr>vs_claims := cs, vs_edges := es, vs_cache := insert_or_ignore (\<lambda>x y. cw_cache_key x = cw_cache_key y)
            \<lparr>cw_cache_key = ck, cw_result = r, cw_created_at = at\<rparr> (vs_cache s)\<rparr>) = (Inr u, t)"
    using assms(2) by (auto simp: finalize_extraction_def split: sum.splits if_splits)
  let ?m = "s\<lparr>vs_claims := cs, vs_edges := es, vs_cache := insert_or_ignore (\<lambda>x y. cw_cache_key x = cw_cache_key y)
            \<lparr>cw_cache_key = ck, cw_result = r, cw_created_at = at\<rparr> (vs_cache s)\<rparr>"
  note cs_rows = put_all_immutable_rows [OF cs] and es_rows = put_all_immutable_rows [OF es]
  have ok: "claims_ok H s" "calls_ok pol s" "days_ok pol s" using assms(1) by (simp_all add: evidence_ok_def)
  have "calls_ok pol ?m" using ok(2) calls_ok_frame [of ?m s pol] by simp
  note t = close_attempt_ok [OF this cl]
  have "edge_joins cs e" if "e \<in> set es" for e
  proof -
    have "edge_joins (vs_claims s @ claims) e \<or> edge_joins (vs_claims s) e"
      using that es_rows(1) assms(4) ok(1) by (auto simp: claims_ok_def)
    then show ?thesis using edge_joins_mono cs_rows(1) by (metis Un_upper1 set_append subset_refl)
  qed
  then have "claims_ok H ?m"
    using ok(1) cs_rows assms(3) by (auto simp: claims_ok_def)
  then have "claims_ok H t" using claims_ok_frame [of t ?m H] t by simp
  moreover have "days_ok pol t" using ok(3) days_ok_frame [of t s pol] t by simp
  ultimately show "evidence_ok H pol t" using t(1) by (simp add: evidence_ok_def)
  show "set (vs_claims t) = set (vs_claims s) \<union> set claims" using t(3) cs_rows(1) by simp
  have "cached ck ?m = Some r"
  proof (cases "lookup cw_cache_key ck (vs_cache s)")
    case None
    moreover from None have "\<not> list_ex (\<lambda>y. ck = cw_cache_key y) (vs_cache s)" by (auto simp: find_None_set list_ex_iff)
    ultimately show ?thesis by (simp add: cached_def insert_or_ignore_def find_append)
  next
    case (Some y)
    moreover from Some have "list_ex (\<lambda>y. ck = cw_cache_key y) (vs_cache s)"
      using find_Some_set [OF Some] by (auto simp: list_ex_iff)
    ultimately show ?thesis using ck by (simp add: cached_def insert_or_ignore_def)
  qed
  then show "cached ck t = Some r" using t(5) by (simp add: cached_def)
qed

subsection \<open>Ingestion\<close>

lemma and_then_const_Inl: "and_then q (\<lambda>_ t. (Inr c, t)) = (Inl e, t) \<longleftrightarrow> q = (Inl e, t)"
  by (cases q; cases "fst q") auto

lemma finalize_error: "finalize_extraction a ck r claims edges call at s = (Inl e, t) \<Longrightarrow> t = s"
  by (simp add: finalize_extraction_def)

lemma extract_and_store_ok:
  assumes "evidence_ok H pol s" and "extractor_valid x" and "d \<in> set (vs_documents s)"
    and "extract_and_store H x pol xp d as_of a s = (r, t)"
  shows "evidence_ok H pol t" "r = Inl e \<Longrightarrow> t = s"
proof -
  have both: "evidence_ok H pol t \<and> (\<forall>e. r = Inl e \<longrightarrow> t = s)"
  proof (cases r)
    case (Inl e)
    then have "t = s" using assms(4) finalize_error
      by (auto simp: extract_and_store_def and_then_const_Inl Let_def split: sum.splits if_splits)
    then show ?thesis using assms(1) by simp
  next
    case (Inr res)
    then obtain env claims edges where env: "xt_extract x d = Inr env" "materialize H x xp d (xe_result env) = Inr claims"
      "contradictions H (claims_as_of as_of s @ claims) = Inr edges"
      "finalize_extraction a (cache_key_of H x d) (xe_result env) claims edges (xe_call env) as_of s = (Inr (), t)"
      using assms(4) by (auto simp: extract_and_store_def Let_def and_then_Inr_iff split: sum.splits if_splits)
    have "validate_extraction (xe_result env) = Inr ()" using assms(2) env(1) by (auto simp: extractor_valid_def)
    then have "\<And>c. c \<in> set claims \<Longrightarrow> claim_cited H (vs_documents s) c"
      using materialize_cited [OF env(2)] assms(3) by blast
    moreover have "edge_joins (vs_claims s @ claims) e" if "e \<in> set edges" for e
      using contradictions_join [OF env(3) that] by (rule edge_joins_mono) (auto simp: claims_as_of_def)
    ultimately show ?thesis using finalize_ok(1) [OF assms(1) env(4)] Inr by blast
  qed
  then show "evidence_ok H pol t" "r = Inl e \<Longrightarrow> t = s" by auto
qed

text \<open>The except clause finds the attempt it reserved still open, so it records the failure and the
  original exception is the one that propagates.\<close>

lemma complete_call_ok:
  assumes "evidence_ok H pol s" and "length (filter (started a) (vs_attempts s)) = 1"
  obtains t where "complete_call a at err s = (Inr (), t)" "evidence_ok H pol t"
    "vs_documents t = vs_documents s" "vs_claims t = vs_claims s" "vs_edges t = vs_edges s" "vs_cache t = vs_cache s"
proof -
  let ?upd = "\<lambda>r. r\<lparr>at_completed_at := Some at, at_status := (if err = None \<or> err = Some [] then AT_COMPLETED else AT_FAILED),
      at_error_type := err\<rparr>"
  obtain t where t: "close_attempt a ?upd s = (Inr (), t)" using assms(2) by (simp add: close_attempt_def)
  have "calls_ok pol s" using assms(1) by (simp add: evidence_ok_def)
  note c = close_attempt_ok [OF this t]
  have "evidence_ok H pol t"
    using assms(1) c claims_ok_frame [of t s H] days_ok_frame [of t s pol] by (simp add: evidence_ok_def)
  then show thesis using that [of t] t c by (simp add: complete_call_def)
qed

lemma ingest_ok:
  assumes "evidence_ok H pol s" and "extractor_valid x" and "ingest H x pol xp d as_of s = (r, t)"
  shows "evidence_ok H pol t \<and> (\<forall>e. r = Inl e \<longrightarrow> vs_claims t = vs_claims s \<and> vs_edges t = vs_edges s \<and> vs_cache t = vs_cache s)"
proof (cases "ed_available_at d > as_of")
  case True
  then show ?thesis using assms by (simp add: ingest_def)
next
  case False
  obtain pr s1 where p: "put_document d pol s = (pr, s1)" by fastforce
  have ok1: "evidence_ok H pol s1" using put_document_ok [OF assms(1) p] .
  have same: "vs_claims s1 = vs_claims s" "vs_edges s1 = vs_edges s" "vs_cache s1 = vs_cache s"
    using put_document_cases [OF p] by auto
  show ?thesis
  proof (cases "pr = Inr () \<and> cached (cache_key_of H x d) s1 = None")
    case plain: False
    then show ?thesis using assms(3) False p ok1 same by (cases pr) (auto simp: ingest_def split: option.splits)
  next
    case True
    obtain rr s2 where rc: "reserve_call (event_key_of H x d) pol (cache_key_of H x d) (xt_extractor_id x) (xt_config_hash x) as_of s1 = (rr, s2)"
      by fastforce
    show ?thesis
    proof (cases rr)
      case (Inl e)
      then have "s2 = s1" using rc by (simp add: reserve_call_def)
      then show ?thesis using assms(3) False p True rc Inl ok1 same by (auto simp: ingest_def)
    next
      case (Inr a)
      have rc': "reserve_call (event_key_of H x d) pol (cache_key_of H x d) (xt_extractor_id x) (xt_config_hash x) as_of s1 = (Inr a, s2)"
        using rc Inr by simp
      note r2 = reserve_call_ok [OF ok1 rc']
      obtain xr s3 where ex: "extract_and_store H x pol xp d as_of a s2 = (xr, s3)" by fastforce
      have "d \<in> set (vs_documents s2)" using put_document_stored [of d pol s "()" s1] p True r2(2) by simp
      note e3 = extract_and_store_ok [OF r2(1) assms(2) this ex]
      show ?thesis
      proof (cases xr)
        case (Inl e)
        then have "s3 = s2" using e3(2) by blast
        then obtain s4 where "complete_call a as_of (Some (exn_name e)) s3 = (Inr (), s4)" "evidence_ok H pol s4"
          "vs_claims s4 = vs_claims s3" "vs_edges s4 = vs_edges s3" "vs_cache s4 = vs_cache s3"
          using complete_call_ok [OF r2(1,6), where at = as_of and err = "Some (exn_name e)"] by metis
        then show ?thesis using assms(3) False p True rc' ex Inl same r2 \<open>s3 = s2\<close> by (auto simp: ingest_def)
      next
        case (Inr res)
        then show ?thesis using assms(3) False p True rc' ex e3(1) by (auto simp: ingest_def)
      qed
    qed
  qed
qed

subsection \<open>Sequences of ingestions\<close>

definition ingest_step ::
  "(json \<Rightarrow> string) \<Rightarrow> budget_policy \<Rightarrow> expiry_policy \<Rightarrow> extractor \<times> evidence_document \<times> time \<Rightarrow> evidence_store \<Rightarrow> evidence_store" where
  "ingest_step H pol xp op s = (case op of (x, d, as_of) \<Rightarrow> snd (ingest H x pol xp d as_of s))"

lemma empty_evidence_ok: "validate_budget pol = Inr () \<Longrightarrow> evidence_ok H pol empty_evidence"
  by (simp add: evidence_ok_def claims_ok_def calls_ok_def days_ok_def empty_evidence_def calls_made_def attempts_of_def
      document_count_def validate_budget_def)

interpretation evidence_sys: invariant_system "\<lambda>s. s = empty_evidence \<and> validate_budget pol = Inr ()"
  "ingest_step H pol xp" "\<lambda>op s. extractor_valid (fst op)" "evidence_ok H pol" for H pol xp
proof
  show "evidence_ok H pol s" if "s = empty_evidence \<and> validate_budget pol = Inr ()" for s
    using that empty_evidence_ok by blast
  show "evidence_ok H pol (ingest_step H pol xp op s)" if "evidence_ok H pol s" "extractor_valid (fst op)" for s op
  proof -
    obtain x d as_of where op: "op = (x, d, as_of)" by (cases op)
    obtain r t where t: "ingest H x pol xp d as_of s = (r, t)" by fastforce
    show ?thesis using ingest_ok [OF that(1) _ t] that(2) by (simp add: ingest_step_def op t)
  qed
qed

lemma ingest_run_ok:
  assumes "validate_budget pol = Inr ()" and "\<forall>op \<in> set ops. extractor_valid (fst op)"
  shows "evidence_ok H pol (fold (ingest_step H pol xp) ops empty_evidence)"
proof -
  have "evidence_sys.allowed_run H pol xp ops s" for s using assms(2) by (induction ops arbitrary: s) auto
  then show ?thesis by (rule evidence_sys.run_inv [OF empty_evidence_ok [OF assms(1)]])
qed

text \<open>The offline extractor answers with a valid result.\<close>

lemma first_pattern_occurs:
  "first_pattern t ps = Some (i, needle, c, v) \<Longrightarrow> (needle, c, v) \<in> set ps \<and> occurs_at t needle i"
proof (induction t ps rule: first_pattern.induct)
  case (2 t needle' c' v' ps)
  then show ?case using find_from_Some [of t needle' 0] by (auto split: option.splits)
qed simp

lemma deterministic_extractor_valid: "extractor_valid (deterministic_extractor h)"
proof -
  have "validate_extraction (xe_result env) = Inr ()" if env: "deterministic_extract d = Inr env" for d env
  proof (cases "first_pattern (map lower_char (ed_content d)) extraction_patterns")
    case None
    then show ?thesis using env by (auto simp: deterministic_extract_def validate_extraction_def checks.simps)
  next
    case (Some x)
    obtain i needle c v where x: "x = (i, needle, c, v)" by (cases x)
    note f = first_pattern_occurs [OF Some [unfolded x]]
    have "1 \<le> length needle \<and> length needle \<le> 2000 \<and> 1 \<le> length v \<and> length v \<le> 500"
      using conjunct1 [OF f] by (auto simp: extraction_patterns_def)
    moreover have "length (take (length needle) (drop i (ed_content d))) = length needle"
      using f by (auto simp: occurs_at_def min_def)
    ultimately show ?thesis using env Some x
      by (auto simp: deterministic_extract_def validate_extraction_def checks.simps claim_draft_ok_def validate_citation_def
          opt_length_def)
  qed
  then show ?thesis by (simp add: extractor_valid_def deterministic_extractor_def)
qed

subsection \<open>The past is not rewritten\<close>

lemma put_all_immutable_appends:
  "put_all_immutable key xs m rows = Inr rows' \<Longrightarrow> \<exists>zs. rows' = rows @ zs \<and> set zs \<subseteq> set xs"
proof (induction xs arbitrary: rows)
  case (Cons x xs)
  then obtain mid where mid: "put_immutable key x m rows = Inr mid" "put_all_immutable key xs m mid = Inr rows'"
    by (auto split: sum.splits)
  obtain zs where zs: "rows' = mid @ zs" "set zs \<subseteq> set xs" using Cons.IH [OF mid(2)] by blast
  have "mid = rows \<or> mid = rows @ [x]" using mid(1) by (auto simp: put_immutable_def split: option.splits if_splits)
  then show ?case using zs by auto
qed simp

lemma finalize_claims:
  assumes "finalize_extraction a ck r claims edges call at s = (res, t)"
  shows "\<exists>zs. vs_claims t = vs_claims s @ zs \<and> set zs \<subseteq> set claims"
  using assms unfolding finalize_extraction_def transaction_def
  by (auto simp: close_attempt_def split: sum.splits if_splits prod.splits dest: put_all_immutable_appends)

lemma materialize_available:
  assumes "materialize H x xp d r = Inr claims" and "c \<in> set claims"
  shows "ec_available_at c = ed_available_at d"
proof -
  obtain dr where "materialize_claim H x xp d dr = Inr c"
    using map_res_member [OF assms(1) [unfolded materialize_def] assms(2)] by blast
  then show ?thesis by (auto simp: materialize_claim_def Let_def split: sum.splits)
qed

lemma extract_claims:
  "\<exists>zs. vs_claims (snd (extract_and_store H x pol xp d as_of a s)) = vs_claims s @ zs \<and>
     (\<forall>c \<in> set zs. ec_available_at c = ed_available_at d)"
proof -
  have stored: "\<exists>zs. vs_claims (snd (and_then (finalize_extraction a ck r claims edges call at s) (\<lambda>_ t. (Inr y, t)))) = vs_claims s @ zs \<and>
      (\<forall>c \<in> set zs. ec_available_at c = ed_available_at d)"
    if m: "materialize H x xp d r = Inr claims" for ck r claims edges call at and y :: extraction_result
  proof -
    let ?q = "finalize_extraction a ck r claims edges call at s"
    obtain zs where "vs_claims (snd ?q) = vs_claims s @ zs" "set zs \<subseteq> set claims"
      using finalize_claims [of a ck r claims edges call at s "fst ?q" "snd ?q"] by auto
    then show ?thesis using materialize_available [OF m] by (cases "fst ?q") (auto simp: and_then_def)
  qed
  show ?thesis unfolding extract_and_store_def Let_def by (simp add: stored split: sum.splits)
qed

lemma close_attempt_claims: "vs_claims (snd (close_attempt a upd s)) = vs_claims s"
  by (simp add: close_attempt_def)

lemma transaction_claims:
  assumes "\<And>s. vs_claims (snd (f s)) = vs_claims s"
  shows "vs_claims (snd (transaction f s)) = vs_claims s"
  using assms [of s] by (cases "f s"; cases "fst (f s)") (simp_all add: transaction_def)

lemma complete_call_claims: "vs_claims (snd (complete_call a at err s)) = vs_claims s"
  unfolding complete_call_def by (rule transaction_claims) (rule close_attempt_claims)

lemma reserve_call_claims: "vs_claims (snd (reserve_call k pol ck xid ch at s)) = vs_claims s"
  by (simp add: reserve_call_def transaction_def Let_def)

lemma put_document_claims: "vs_claims (snd (put_document d pol s)) = vs_claims s"
  by (auto simp: put_document_def split: option.splits)

lemma ingest_claims:
  "\<exists>zs. vs_claims (snd (ingest H x pol xp d as_of s)) = vs_claims s @ zs \<and> (\<forall>c \<in> set zs. ec_available_at c = ed_available_at d)"
proof -
  let ?new = "\<lambda>t u. \<exists>zs. vs_claims u = vs_claims t @ zs \<and> (\<forall>c \<in> set zs. ec_available_at c = ed_available_at d)"
  have call: "?new t (snd (case extract_and_store H x pol xp d as_of a t of (Inr r, u) \<Rightarrow> (Inr r, u)
      | (Inl e, u) \<Rightarrow> and_then (complete_call a as_of (Some (exn_name e)) u) (\<lambda>_ w. (Inl e, w))))" for a t
  proof -
    obtain res u where e: "extract_and_store H x pol xp d as_of a t = (res, u)" by fastforce
    note n = extract_claims [of H x pol xp d as_of a t, unfolded e snd_conv]
    show ?thesis
    proof (cases res)
      case (Inl err)
      have "vs_claims (snd (and_then (complete_call a as_of (Some (exn_name err)) u) (\<lambda>_ w. (Inl err :: extraction_result res, w)))) = vs_claims u"
        using complete_call_claims [of a as_of "Some (exn_name err)" u]
        by (cases "fst (complete_call a as_of (Some (exn_name err)) u)") (auto simp: and_then_def)
      then show ?thesis using n by (simp add: e Inl)
    qed (use n in \<open>simp add: e\<close>)
  qed
  let ?s = "snd (put_document d pol s)"
  let ?r = "reserve_call (event_key_of H x d) pol (cache_key_of H x d) (xt_extractor_id x) (xt_config_hash x) as_of ?s"
  have "vs_claims (snd ?r) = vs_claims s" by (simp add: reserve_call_claims put_document_claims)
  then show ?thesis
    using call [of _ "snd ?r"] put_document_claims [of d pol s]
    by (cases "fst (put_document d pol s)"; cases "cached (cache_key_of H x d) ?s"; cases "fst ?r")
      (auto simp: ingest_def and_then_def)
qed

lemma claims_as_of_ingest:
  assumes "t < ed_available_at d"
  shows "claims_as_of t (snd (ingest H x pol xp d as_of s)) = claims_as_of t s"
  using ingest_claims [of H x pol xp d as_of s] assms by (auto simp: claims_as_of_def filter_sort filter_empty_conv)

end
