(* ===== verification/Risk_Engine.thy ===== *)
theory Risk_Engine
  imports Runtime_Access
begin

section \<open>Risk engine\<close>

text \<open>
  \<open>src/hanalpha/risk/engine.py\<close>: the kill switch, position sizing, the construction of a trade plan
  and the review that approves or rejects it. The rules of \<open>evaluate\<close> are the list \<open>risk_rules\<close>, in
  the order of the code, each with the reason it adds when it fires. Prices are exact rationals, so
  \<open>math.isfinite\<close> holds of every value; \<open>1e-9\<close> is \<open>slack\<close>.
\<close>

record kill_switch =
  ks_frozen :: bool
  ks_reason :: string

definition new_kill_switch :: kill_switch where
  "new_kill_switch = \<lparr>ks_frozen = False, ks_reason = []\<rparr>"

definition ks_freeze :: "string \<Rightarrow> kill_switch \<Rightarrow> kill_switch" where
  "ks_freeze reason k = k\<lparr>ks_frozen := True, ks_reason := take 500 reason\<rparr>"

definition ks_unfreeze :: "kill_switch \<Rightarrow> kill_switch" where
  "ks_unfreeze k = k\<lparr>ks_frozen := False, ks_reason := []\<rparr>"

subsection \<open>Sizing\<close>

definition per_share_risk :: "signal \<Rightarrow> rat" where
  "per_share_risk s = \<bar>sg_reference_price s - sg_stop_price s\<bar>"

definition risk_budget :: "risk_config \<Rightarrow> account_snapshot \<Rightarrow> regime_snapshot \<Rightarrow> rat" where
  "risk_budget c a r = ac_net_liquidation a * rk_risk_per_trade_pct c * rg_risk_multiplier r"

definition notional_cap :: "risk_config \<Rightarrow> account_snapshot \<Rightarrow> rat" where
  "notional_cap c a = min (min (ac_net_liquidation a * rk_max_symbol_weight c) (rk_max_order_notional c)) (ac_buying_power a)"

definition size_position ::
  "risk_config \<Rightarrow> signal \<Rightarrow> account_snapshot \<Rightarrow> regime_snapshot \<Rightarrow> trade_quote \<Rightarrow> int" where
  "size_position c s a r q =
     (if per_share_risk s \<le> 0 then 0
      else max 0 (min \<lfloor>risk_budget c a r / per_share_risk s\<rfloor> \<lfloor>notional_cap c a / qt_ask q\<rfloor>))"

definition create_plan ::
  "risk_config \<Rightarrow> signal \<Rightarrow> account_snapshot \<Rightarrow> regime_snapshot \<Rightarrow> trade_quote \<Rightarrow> string \<Rightarrow> time
    \<Rightarrow> trade_plan option res" where
  "create_plan c s a r q idempotency_key now =
     (let quantity = size_position c s a r q; side = (if sg_action s = SA_BUY then BUY else SELL) in
      if quantity \<le> 0 then Inr None
      else
        let p = \<lparr>tp_plan_id = ''plan:'' @ sg_signal_id s, tp_signal_id = sg_signal_id s, tp_symbol = sg_symbol s,
          tp_strategy = sg_strategy s, tp_side = side, tp_created_at = now,
          tp_entry_price = (if side = BUY then qt_ask q else qt_bid q), tp_stop_price = sg_stop_price s,
          tp_target_price = sg_target_price s, tp_quantity = quantity, tp_max_holding_bars = 390,
          tp_evidence_ids = sg_evidence_ids s, tp_invalidators = [], tp_idempotency_key = idempotency_key,
          tp_metadata = [(''signal_confidence'', JNum (sg_confidence s))]\<rparr>
        in case validate_plan p of Inl e \<Rightarrow> Inl e | Inr _ \<Rightarrow> Inr (Some p))"

subsection \<open>Review\<close>

definition slack :: rat where
  "slack = 1 / 1000000000"

definition symbol_market_value :: "trade_plan \<Rightarrow> account_snapshot \<Rightarrow> rat" where
  "symbol_market_value p a =
     total_of position_value (filter (\<lambda>x. ps_symbol x = tp_symbol p) (ac_positions a)) + plan_notional p"

definition sector_market_value :: "trade_plan \<Rightarrow> account_snapshot \<Rightarrow> string \<Rightarrow> rat" where
  "sector_market_value p a sector =
     total_of (\<lambda>x. \<bar>position_value x\<bar>) (filter (\<lambda>x. ps_sector x = sector) (ac_positions a)) + plan_notional p"

definition gross_after :: "trade_plan \<Rightarrow> account_snapshot \<Rightarrow> rat" where
  "gross_after p a = gross_exposure a + plan_notional p / ac_net_liquidation a"

definition existing_symbol :: "trade_plan \<Rightarrow> account_snapshot \<Rightarrow> bool" where
  "existing_symbol p a = list_ex (\<lambda>x. ps_symbol x = tp_symbol p) (ac_positions a)"

text \<open>\<open>existing_idempotency_keys\<close> is a Python set; a list of its elements stands for it.\<close>

definition risk_rules ::
  "risk_config \<Rightarrow> kill_switch \<Rightarrow> trade_plan \<Rightarrow> account_snapshot \<Rightarrow> trade_quote \<Rightarrow> regime_snapshot \<Rightarrow> string list
    \<Rightarrow> rat \<Rightarrow> string \<Rightarrow> bool \<Rightarrow> time \<Rightarrow> (bool \<times> string) list" where
  "risk_rules c k p a q r existing_keys adv sector earnings_soon now =
     [(ks_frozen k, ''kill_switch_frozen''),
      (\<not> ac_connected a, ''broker_disconnected''),
      (age_seconds q now > of_int (rk_max_quote_age_seconds c), ''stale_quote''),
      (qt_last q < rk_min_price c, ''price_below_minimum''),
      (adv < rk_min_average_dollar_volume c, ''insufficient_liquidity''),
      (tp_idempotency_key p \<in> set existing_keys, ''duplicate_idempotency_key''),
      (existing_symbol p a, ''existing_symbol_position''),
      (int (length (ac_positions a)) \<ge> rk_max_positions c \<and> \<not> existing_symbol p a, ''max_positions_reached''),
      (tp_side p \<noteq> BUY, ''v1_long_only''),
      (ac_daily_pnl a \<le> - ac_net_liquidation a * rk_daily_loss_limit_pct c, ''daily_loss_limit''),
      (drawdown_pct a \<ge> rk_max_drawdown_limit_pct c, ''drawdown_limit''),
      (rg_regime r = UNKNOWN_REGIME \<or> rg_risk_multiplier r \<le> 0, ''unknown_or_disabled_regime''),
      (tp_strategy p \<notin> set (rg_allowed_strategies r), ''strategy_not_allowed''),
      (plan_notional p > rk_max_order_notional c, ''max_order_notional''),
      (earnings_soon \<and> \<not> rk_allow_earnings_overnight c, ''earnings_blackout''),
      (tp_side p = BUY \<and> \<not> (tp_stop_price p < tp_entry_price p \<and> tp_entry_price p < tp_target_price p),
       ''invalid_long_geometry''),
      (symbol_market_value p a / ac_net_liquidation a > rk_max_symbol_weight c + slack, ''max_symbol_weight''),
      (sector \<noteq> ''UNKNOWN'' \<and> sector_market_value p a sector / ac_net_liquidation a > rk_max_sector_weight c,
       ''max_sector_weight''),
      (gross_after p a > min (rk_max_gross_exposure c) (rg_max_gross_exposure r) + slack, ''max_gross_exposure''),
      (plan_risk_dollars p \<le> 0, ''invalid_risk'')]"

definition risk_evaluate ::
  "risk_config \<Rightarrow> kill_switch \<Rightarrow> trade_plan \<Rightarrow> account_snapshot \<Rightarrow> trade_quote \<Rightarrow> regime_snapshot \<Rightarrow> string list
    \<Rightarrow> rat \<Rightarrow> string \<Rightarrow> bool \<Rightarrow> time \<Rightarrow> risk_decision res" where
  "risk_evaluate c k p a q r existing_keys adv sector earnings_soon now =
     (let reasons = map snd (filter fst (risk_rules c k p a q r existing_keys adv sector earnings_soon now));
          approved = (reasons = []);
          d = \<lparr>rd_approved = approved, rd_reason_codes = (if reasons = [] then [''approved''] else reasons),
            rd_approved_quantity = (if approved then tp_quantity p else 0),
            rd_risk_dollars = (if approved then plan_risk_dollars p else 0),
            rd_gross_exposure_after = max 0 (gross_after p a), rd_reviewed_at = now\<rparr>
      in case validate_risk_decision d of Inl e \<Rightarrow> Inl e | Inr _ \<Rightarrow> Inr d)"

subsection \<open>Sizing is the largest quantity within the limits\<close>

lemma floor_quotient: "(0::rat) < y \<Longrightarrow> n \<le> \<lfloor>x / y\<rfloor> \<longleftrightarrow> of_int n * y \<le> x"
  by (simp add: le_floor_iff pos_le_divide_eq)

lemma size_position_nonneg: "0 \<le> size_position c s a r q"
  by (simp add: size_position_def)

lemma size_position_iff:
  assumes "0 < qt_ask q" and "0 < per_share_risk s" and "0 < n"
  shows "n \<le> size_position c s a r q \<longleftrightarrow>
    of_int n * per_share_risk s \<le> risk_budget c a r \<and> of_int n * qt_ask q \<le> notional_cap c a"
  using assms by (auto simp: size_position_def floor_quotient le_max_iff_disj)

subsection \<open>What an approval means\<close>

text \<open>The account with the planned position booked at its entry price.\<close>

definition with_plan :: "trade_plan \<Rightarrow> string \<Rightarrow> account_snapshot \<Rightarrow> account_snapshot" where
  "with_plan p sector a = a\<lparr>ac_positions := ac_positions a @
     [\<lparr>ps_symbol = tp_symbol p, ps_quantity = tp_quantity p, ps_average_cost = tp_entry_price p,
       ps_mark_price = tp_entry_price p, ps_sector = sector\<rparr>]\<rparr>"

lemma gross_exposure_with_plan:
  assumes "0 < tp_entry_price p" and "0 < tp_quantity p"
  shows "gross_exposure (with_plan p sector a) = gross_after p a"
  using assms by (simp add: gross_exposure_def with_plan_def gross_after_def position_value_def plan_notional_def
      abs_mult add_divide_distrib mult.commute)

lemma no_rule_fires: "filter fst rules = [] \<longleftrightarrow> \<not> list_ex fst rules"
  by (induction rules) auto

lemma evaluate_reasons:
  assumes "risk_evaluate c k p a q r ks adv sector es now = Inr d"
  shows "rd_approved d \<longleftrightarrow> \<not> list_ex fst (risk_rules c k p a q r ks adv sector es now)"
    and "rd_approved_quantity d = (if rd_approved d then tp_quantity p else 0)"
    and "rd_risk_dollars d = (if rd_approved d then plan_risk_dollars p else 0)"
    and "rd_reason_codes d = (if rd_approved d then [''approved'']
      else map snd (filter fst (risk_rules c k p a q r ks adv sector es now)))"
    and "rd_reviewed_at d = now" and "rd_gross_exposure_after d = max 0 (gross_after p a)"
  using assms by (auto simp: risk_evaluate_def Let_def no_rule_fires split: sum.splits)

lemma create_plan_Some:
  assumes "create_plan c s a r q key now = Inr (Some p)"
  shows "validate_plan p = Inr ()" "0 < size_position c s a r q" "tp_quantity p = size_position c s a r q"
    "tp_side p = (if sg_action s = SA_BUY then BUY else SELL)"
    "tp_entry_price p = (if sg_action s = SA_BUY then qt_ask q else qt_bid q)"
    "tp_symbol p = sg_symbol s" "tp_strategy p = sg_strategy s" "tp_idempotency_key p = key"
    "tp_stop_price p = sg_stop_price s" "tp_target_price p = sg_target_price s" "tp_created_at p = now"
    "tp_plan_id p = ''plan:'' @ sg_signal_id s"
  using assms by (auto simp: create_plan_def Let_def split: sum.splits if_splits)

lemma plan_valid: "validate_plan p = Inr () \<longleftrightarrow>
    0 < tp_entry_price p \<and> 0 < tp_stop_price p \<and> 0 < tp_target_price p \<and> 0 < tp_quantity p \<and>
    0 < tp_max_holding_bars p \<and> 8 \<le> length (tp_idempotency_key p) \<and> length (tp_idempotency_key p) \<le> 128"
  by (simp add: validate_plan_def)

text \<open>The review itself never raises on a valid plan.\<close>

lemma risk_evaluate_total:
  assumes "validate_plan p = Inr ()"
  shows "\<exists>d. risk_evaluate c k p a q r ks adv sector es now = Inr d"
proof -
  have "0 < tp_quantity p" "0 \<le> plan_risk_dollars p"
    using assms by (simp_all add: plan_valid plan_risk_dollars_def)
  then show ?thesis by (simp add: risk_evaluate_def Let_def validate_risk_decision_def checks.simps)
qed

end
