(* ===== verification/Audit_Ledger.thy ===== *)
theory Audit_Ledger
  imports Trade_Models
begin

section \<open>Audit ledger\<close>

text \<open>
  \<open>src/hanalpha/portfolio/ledger.py\<close>: the append-only local event log and the reserved idempotency keys.
  The autoincrement id of an event is its position in the list.
\<close>

record audit_event =
  au_event_type :: string
  au_entity_id :: string
  au_created_at :: time
  au_payload :: json

record audit_ledger =
  al_events :: "audit_event list"
  al_keys :: "(string \<times> string \<times> time) list"

definition empty_ledger :: audit_ledger where
  "empty_ledger = \<lparr>al_events = [], al_keys = []\<rparr>"

definition append_event :: "string \<Rightarrow> string \<Rightarrow> json \<Rightarrow> time \<Rightarrow> audit_ledger \<Rightarrow> audit_ledger" where
  "append_event event_type entity_id payload created_at l =
     l\<lparr>al_events := al_events l @ [\<lparr>au_event_type = event_type, au_entity_id = entity_id, au_created_at = created_at,
        au_payload = sort_keys payload\<rparr>]\<rparr>"

definition reserve_idempotency :: "string \<Rightarrow> string \<Rightarrow> time \<Rightarrow> audit_ledger \<Rightarrow> audit_ledger" where
  "reserve_idempotency key entity_id created_at l =
     l\<lparr>al_keys := insert_or_ignore (\<lambda>a b. fst a = fst b) (key, entity_id, created_at) (al_keys l)\<rparr>"

definition record_signal :: "signal \<Rightarrow> audit_ledger \<Rightarrow> audit_ledger" where
  "record_signal s = append_event ''signal'' (sg_signal_id s) (signal_doc s) (sg_generated_at s)"

definition record_plan :: "trade_plan \<Rightarrow> audit_ledger \<Rightarrow> audit_ledger" where
  "record_plan p = append_event ''trade_plan'' (tp_plan_id p) (plan_doc p) (tp_created_at p)"

definition record_order :: "order_request \<Rightarrow> audit_ledger \<Rightarrow> audit_ledger" where
  "record_order rq l = reserve_idempotency (or_idempotency_key rq) (or_order_id rq) (or_created_at rq)
     (append_event ''order'' (or_order_id rq) (request_doc rq) (or_created_at rq) l)"

definition record_order_event :: "order_event \<Rightarrow> audit_ledger \<Rightarrow> audit_ledger" where
  "record_order_event e = append_event ''order_event'' (ev_order_id e) (order_event_doc e) (ev_timestamp e)"

definition record_fill :: "trade_fill \<Rightarrow> audit_ledger \<Rightarrow> audit_ledger" where
  "record_fill f = append_event ''fill'' (tf_order_id f) (trade_fill_doc f) (tf_timestamp f)"

definition has_idempotency_key :: "string \<Rightarrow> audit_ledger \<Rightarrow> bool" where
  "has_idempotency_key key l = list_ex (\<lambda>r. fst r = key) (al_keys l)"

definition idempotency_keys :: "audit_ledger \<Rightarrow> string list" where
  "idempotency_keys l = map fst (al_keys l)"

text \<open>\<open>ORDER BY id DESC LIMIT ?\<close>; a negative limit means no limit in SQLite.\<close>

definition recent_events :: "int \<Rightarrow> audit_ledger \<Rightarrow> audit_event list" where
  "recent_events limit l = (if limit < 0 then rev (al_events l) else take (nat limit) (rev (al_events l)))"

text \<open>The log only grows, and a reserved key stays reserved for its first entity.\<close>

definition ledger_extends :: "audit_ledger \<Rightarrow> audit_ledger \<Rightarrow> bool" where
  "ledger_extends l m \<longleftrightarrow> (\<exists>es. al_events m = al_events l @ es) \<and> (\<exists>ks. al_keys m = al_keys l @ ks)"

lemma ledger_extends_refl [simp]: "ledger_extends l l"
  by (simp add: ledger_extends_def)

lemma ledger_extends_trans: "ledger_extends l m \<Longrightarrow> ledger_extends m n \<Longrightarrow> ledger_extends l n"
  by (auto simp: ledger_extends_def)

lemma record_extends [simp]:
  "ledger_extends l (record_signal s l)" "ledger_extends l (record_plan p l)" "ledger_extends l (record_order rq l)"
  "ledger_extends l (record_order_event e l)" "ledger_extends l (record_fill f l)"
  by (auto simp: record_signal_def record_plan_def record_order_def record_order_event_def record_fill_def
      ledger_extends_def append_event_def reserve_idempotency_def insert_or_ignore_def)

lemma record_order_key: "or_idempotency_key rq \<in> set (idempotency_keys (record_order rq l))"
  by (force simp: record_order_def reserve_idempotency_def insert_or_ignore_def idempotency_keys_def append_event_def list_ex_iff)

end
