(* ===== verification/Market_Regime.thy ===== *)
theory Market_Regime
  imports Trade_Models
begin

section \<open>Market regime\<close>

text \<open>
  \<open>src/hanalpha/regime/engine.py\<close> and the features it uses from \<open>features/technical.py\<close>, with exact
  means in place of numpy's floating point.
\<close>

definition closes :: "trade_bar list \<Rightarrow> rat list" where
  "closes bars = map br_close bars"

text \<open>\<open>xs[-n:]\<close>, which is the whole sequence for \<open>n = 0\<close>.\<close>

definition last_n :: "nat \<Rightarrow> 'a list \<Rightarrow> 'a list" where
  "last_n n xs = (if n = 0 then xs else drop (length xs - n) xs)"

definition mean :: "rat list \<Rightarrow> rat" where
  "mean xs = sum_list xs / of_nat (length xs)"

definition sma :: "rat list \<Rightarrow> nat \<Rightarrow> rat res" where
  "sma values window =
     (if window = 0 \<or> length values < window then Inl (ValueError ''insufficient values for SMA'') else Inr (mean (last_n window values)))"

definition relative_strength :: "trade_bar list \<Rightarrow> trade_bar list \<Rightarrow> nat \<Rightarrow> rat res" where
  "relative_strength symbol_bars benchmark_bars window =
     (if length symbol_bars < window + 1 \<or> length benchmark_bars < window + 1
      then Inl (ValueError ''insufficient bars for relative strength'')
      else
        let change = (\<lambda>bars. br_close (last bars) / br_close (bars ! (length bars - window - 1)) - 1)
        in Inr (change symbol_bars - change benchmark_bars))"

definition average_dollar_volume :: "trade_bar list \<Rightarrow> nat \<Rightarrow> rat res" where
  "average_dollar_volume bars window =
     (if length bars < window then Inl (ValueError ''insufficient bars for average dollar volume'')
      else Inr (mean (map (\<lambda>b. br_close b * br_volume b) (last_n window bars))))"

definition votes :: "bool list \<Rightarrow> nat" where
  "votes bs = length (filter id bs)"

text \<open>The policy a number of risk-on votes selects: multiplier, exposure cap and allowed strategies.\<close>

definition regime_policy :: "nat \<Rightarrow> market_regime \<times> rat \<times> rat \<times> string list" where
  "regime_policy n =
     (if n = 3 then (RISK_ON, 1, 1 / 2, [''breakout'', ''trend_pullback'', ''event_continuation''])
      else if n \<ge> 1 then (NEUTRAL, 55 / 100, 3 / 10, [''trend_pullback'', ''event_continuation''])
      else (RISK_OFF, 15 / 100, 1 / 10, [''event_continuation'']))"

definition trending :: "rat \<Rightarrow> rat \<Rightarrow> rat \<Rightarrow> bool" where
  "trending close fast slow \<longleftrightarrow> close > fast \<and> fast > slow"

definition regime_of ::
  "rat list \<Rightarrow> rat list \<Rightarrow> rat \<Rightarrow> rat \<Rightarrow> rat \<Rightarrow> rat \<Rightarrow> rat \<Rightarrow> time \<Rightarrow> regime_snapshot" where
  "regime_of market_close growth_close mf ms gf gs rel now =
     (let n = votes [trending (last market_close) mf ms, trending (last growth_close) gf gs, rel > - 1 / 100]
      in case regime_policy n of (regime, multiplier, gross, allowed) \<Rightarrow>
        \<lparr>rg_regime = regime, rg_timestamp = now, rg_risk_multiplier = multiplier, rg_max_gross_exposure = gross,
         rg_allowed_strategies = allowed,
         rg_metrics = [(''market_fast_slow_spread'', JNum (mf / ms - 1)), (''growth_fast_slow_spread'', JNum (gf / gs - 1)),
           (''growth_relative_strength'', JNum rel)]\<rparr>)"

definition regime_evaluate :: "trade_bar list \<Rightarrow> trade_bar list \<Rightarrow> time \<Rightarrow> regime_snapshot res" where
  "regime_evaluate market_bars growth_bars now =
     (if length market_bars < 60 \<or> length growth_bars < 60
      then Inr \<lparr>rg_regime = UNKNOWN_REGIME, rg_timestamp = now, rg_risk_multiplier = 0, rg_max_gross_exposure = 0,
        rg_allowed_strategies = [], rg_metrics = [(''reason'', JStr ''insufficient_bars'')]\<rparr>
      else
        case (sma (closes market_bars) 20, sma (closes market_bars) 50, sma (closes growth_bars) 20,
              sma (closes growth_bars) 50, relative_strength growth_bars market_bars 20) of
          (Inr mf, Inr ms, Inr gf, Inr gs, Inr rel) \<Rightarrow>
            Inr (regime_of (closes market_bars) (closes growth_bars) mf ms gf gs rel now)
        | (Inl e, _) \<Rightarrow> Inl e | (_, Inl e, _) \<Rightarrow> Inl e | (_, _, Inl e, _) \<Rightarrow> Inl e
        | (_, _, _, Inl e, _) \<Rightarrow> Inl e | (_, _, _, _, Inl e) \<Rightarrow> Inl e)"

lemma regime_policy_bounds:
  assumes "regime_policy n = (r, m, g, allowed)"
  shows "0 < m" "m \<le> 1" "0 < g" "g \<le> 1 / 2" "r \<noteq> UNKNOWN_REGIME"
    "set allowed \<subseteq> {''breakout'', ''trend_pullback'', ''event_continuation''}"
  using assms by (auto simp: regime_policy_def split: if_splits)

text \<open>The engine always answers, and its answer is a valid snapshot whose exposure cap is at most one half.\<close>

lemma regime_evaluate_total:
  "\<exists>r. regime_evaluate market_bars growth_bars now = Inr r \<and> validate_regime r = Inr () \<and>
     rg_max_gross_exposure r \<le> 1 / 2 \<and> rg_timestamp r = now"
proof (cases "length market_bars < 60 \<or> length growth_bars < 60")
  case True
  then show ?thesis by (simp add: regime_evaluate_def validate_regime_def)
next
  case False
  have "validate_regime (regime_of a b mf ms gf gs rel now) = Inr () \<and>
      rg_max_gross_exposure (regime_of a b mf ms gf gs rel now) \<le> 1 / 2 \<and> rg_timestamp (regime_of a b mf ms gf gs rel now) = now"
    for a b mf ms gf gs rel
    by (simp add: regime_of_def regime_policy_def validate_regime_def Let_def)
  then show ?thesis
    using False by (simp add: regime_evaluate_def sma_def relative_strength_def closes_def Let_def)
qed

end
