(* ===== verification/Orchestrator.thy ===== *)
theory Orchestrator
  imports Risk_Engine Paper_Broker Evidence_Service Audit_Ledger Market_Regime Ctl_Machine
begin

section \<open>The trading cycle\<close>

text \<open>
  \<open>src/hanalpha/orchestrator/system.py\<close>: \<open>TradingSystem.run_cycle\<close> and its helpers over the paper broker,
  the audit ledger, the evidence service and the durable execution store. What a cycle reads from outside
  is the record \<open>cycle_env\<close>: the market data provider's answers, the strategies, the clock readings, the
  configuration's own JSON form (\<open>ce_config_doc\<close>) and Python's \<open>str\<close> on metadata values. \<open>H\<close> is the digest.
\<close>

record cycle_env =
  ce_config :: app_config
  ce_config_doc :: json
  ce_access :: runtime_access
  ce_extractor :: extractor
  ce_budget :: budget_policy
  ce_expiry :: expiry_policy
  ce_provider_name :: string
  ce_healthy :: bool
  ce_bars :: "string \<Rightarrow> trade_bar list res"
  ce_quote :: "string \<Rightarrow> trade_quote res"
  ce_catalysts :: "string \<Rightarrow> time \<Rightarrow> catalyst list res"
  ce_strategies :: "(string \<Rightarrow> trade_bar list \<Rightarrow> trade_bar list \<Rightarrow> catalyst list \<Rightarrow> time \<Rightarrow> signal option res) list"
  ce_str :: "json \<Rightarrow> string"
  ce_clock :: time

record trading_system =
  ts_broker :: paper_broker
  ts_ledger :: audit_ledger
  ts_evidence :: evidence_store
  ts_store :: store
  ts_kill_switch :: kill_switch
  ts_cycle_count :: nat
  ts_last_regime :: "regime_snapshot option"
  ts_last_signals :: "json list"
  ts_last_orders :: "json list"

subsection \<open>Lifting a component's call\<close>

definition on_store :: "(store \<Rightarrow> 'a res \<times> store) \<Rightarrow> trading_system \<Rightarrow> 'a res \<times> trading_system" where
  "on_store f s = (case f (ts_store s) of (r, d) \<Rightarrow> (r, s\<lparr>ts_store := d\<rparr>))"

definition on_broker :: "(paper_broker \<Rightarrow> 'a res \<times> paper_broker) \<Rightarrow> trading_system \<Rightarrow> 'a res \<times> trading_system" where
  "on_broker f s = (case f (ts_broker s) of (r, b) \<Rightarrow> (r, s\<lparr>ts_broker := b\<rparr>))"

definition on_evidence :: "(evidence_store \<Rightarrow> 'a res \<times> evidence_store) \<Rightarrow> trading_system \<Rightarrow> 'a res \<times> trading_system" where
  "on_evidence f s = (case f (ts_evidence s) of (r, v) \<Rightarrow> (r, s\<lparr>ts_evidence := v\<rparr>))"

definition on_audit :: "(audit_ledger \<Rightarrow> audit_ledger) \<Rightarrow> trading_system \<Rightarrow> trading_system" where
  "on_audit f s = s\<lparr>ts_ledger := f (ts_ledger s)\<rparr>"

text \<open>A loop that runs a step for each element and collects the results.\<close>

fun collect :: "('x \<Rightarrow> 's \<Rightarrow> 'a res \<times> 's) \<Rightarrow> 'x list \<Rightarrow> 's \<Rightarrow> 'a list res \<times> 's" where
  "collect f [] s = (Inr [], s)"
| "collect f (x # xs) s = and_then (f x s) (\<lambda>y t. and_then (collect f xs t) (\<lambda>ys u. (Inr (y # ys), u)))"

subsection \<open>Evidence review\<close>

definition negative_types :: "claim_type set" where
  "negative_types = {GUIDANCE_CUT, DEMAND_WEAKNESS, ACCOUNTING_RISK}"

definition review_policy_doc :: json where
  "review_policy_doc = JObj [(''policy'', JStr ''deterministic-negative-claim-v1''), (''event_requires_evidence'', JBool True)]"

text \<open>What the claims about the entity decide: verdict, cited claims, invalidators and rationale.\<close>

definition review_outcome ::
  "signal \<Rightarrow> evidence_claim list \<Rightarrow> evidence_decision \<times> evidence_claim list \<times> string list \<times> string" where
  "review_outcome s entity_claims =
     (let negative = filter (\<lambda>c. ec_claim_type c \<in> negative_types) entity_claims in
      if negative \<noteq> [] then (VETO, negative, map (\<lambda>c. ''claim:'' @ claim_type_value (ec_claim_type c)) negative,
        ''point-in-time evidence contains a deterministic invalidator'')
      else if entity_claims \<noteq> [] then (NO_OBJECTION, entity_claims, [],
        ''available evidence raises no deterministic objection'')
      else if sg_strategy s = ''event_continuation'' then (VETO, [], [''missing_point_in_time_event_evidence''],
        ''event strategy requires point-in-time evidence'')
      else (ABSTAIN, [], [], ''price-derived candidate has no applicable unstructured evidence''))"

definition review_evidence ::
  "(json \<Rightarrow> string) \<Rightarrow> signal \<Rightarrow> evidence_snapshot \<Rightarrow> string \<Rightarrow> time \<Rightarrow> evidence_review res" where
  "review_evidence H s snap decision_id reviewed_at =
     (let claims = filter (\<lambda>c. ec_entity_id c = sg_symbol s) (es_claims snap); candidate_id = canonical_hash H (signal_doc s)
      in case review_outcome s claims of (verdict, selected, invalidators, rationale) \<Rightarrow>
        let r = \<lparr>er_candidate_id = candidate_id, er_decision_id = decision_id, er_entity_id = sg_symbol s,
              er_evidence_snapshot_id = es_snapshot_id snap, er_reviewed_at = reviewed_at,
              er_reviewer_config_hash = canonical_hash H review_policy_doc, er_decision = verdict,
              er_rationale = rationale, er_claim_ids = map ec_claim_id selected, er_invalidators = invalidators\<rparr>
        in case validate_veto r of Inl e \<Rightarrow> Inl e
           | Inr _ \<Rightarrow> validate_review r snap candidate_id decision_id (sg_symbol s))"

definition entity_snapshot :: "(json \<Rightarrow> string) \<Rightarrow> time \<Rightarrow> string \<Rightarrow> evidence_snapshot \<Rightarrow> evidence_snapshot res" where
  "entity_snapshot H now symb g =
     (let claims = filter (\<lambda>c. ec_entity_id c = symb) (es_claims g); ids = ec_claim_id ` set claims;
          edges = filter (\<lambda>e. ce_left_claim_id e \<in> ids \<and> ce_right_claim_id e \<in> ids) (es_contradictions g);
          snap = \<lparr>es_snapshot_id = canonical_hash H (JObj [(''as_of'', JTime now), (''entity_id'', JStr symb),
              (''claims'', JArr (map (JStr \<circ> ec_claim_id) claims)), (''edges'', JArr (map (JStr \<circ> ce_edge_id) edges))]),
            es_as_of = now, es_claims = claims, es_contradictions = edges\<rparr>
      in case validate_snapshot snap of Inl e \<Rightarrow> Inl e | Inr _ \<Rightarrow> Inr snap)"

definition document_from_catalyst :: "(json \<Rightarrow> string) \<Rightarrow> catalyst \<Rightarrow> time \<Rightarrow> evidence_document res" where
  "document_from_catalyst H c ingested_at =
     (let uri = hd (ca_evidence_ids c);
          source = (if take 10 uri = ''synthetic:'' then ''synthetic'' else ''external'')
      in document_create H (ca_symbol c) source uri (ca_published_at c) (ca_published_at c) (ca_available_at c)
           ingested_at (ca_headline c))"

subsection \<open>One signal\<close>

definition risk_config_doc :: "risk_config \<Rightarrow> json" where
  "risk_config_doc c = JObj [(''risk_per_trade_pct'', JNum (rk_risk_per_trade_pct c)),
     (''max_symbol_weight'', JNum (rk_max_symbol_weight c)), (''max_sector_weight'', JNum (rk_max_sector_weight c)),
     (''max_gross_exposure'', JNum (rk_max_gross_exposure c)), (''max_positions'', JInt (rk_max_positions c)),
     (''daily_loss_limit_pct'', JNum (rk_daily_loss_limit_pct c)),
     (''max_drawdown_limit_pct'', JNum (rk_max_drawdown_limit_pct c)),
     (''max_order_notional'', JNum (rk_max_order_notional c)),
     (''max_quote_age_seconds'', JInt (rk_max_quote_age_seconds c)), (''min_price'', JNum (rk_min_price c)),
     (''min_average_dollar_volume'', JNum (rk_min_average_dollar_volume c)),
     (''allow_earnings_overnight'', JBool (rk_allow_earnings_overnight c)),
     (''allow_market_orders'', JBool (rk_allow_market_orders c))]"

text \<open>Truthiness of a metadata value, for \<open>bool(...)\<close>.\<close>

definition json_true :: "json \<Rightarrow> bool" where
  "json_true v = (case v of JNull \<Rightarrow> False | JBool b \<Rightarrow> b | JInt i \<Rightarrow> i \<noteq> 0 | JNum q \<Rightarrow> q \<noteq> 0 | JTime t \<Rightarrow> True
     | JStr s \<Rightarrow> s \<noteq> [] | JArr xs \<Rightarrow> xs \<noteq> [] | JObj kvs \<Rightarrow> kvs \<noteq> [])"

definition durable_capacity ::
  "risk_config \<Rightarrow> account_snapshot \<Rightarrow> regime_snapshot \<Rightarrow> store \<Rightarrow> rat" where
  "durable_capacity c a r d =
     min (max 0 (ac_buying_power a - active_reserved_notional d ''runtime-paper''))
         (max 0 (ac_net_liquidation a * min (rk_max_gross_exposure c) (rg_max_gross_exposure r)
           - gross_exposure a * ac_net_liquidation a))"

record cycle_context =
  cx_now :: time
  cx_symbol :: string
  cx_bars :: "trade_bar list"
  cx_quote :: trade_quote
  cx_regime :: regime_snapshot
  cx_account :: account_snapshot
  cx_evidence :: evidence_snapshot
  cx_market_snapshot_id :: string

definition candidate_decision_id :: "(json \<Rightarrow> string) \<Rightarrow> cycle_env \<Rightarrow> cycle_context \<Rightarrow> signal \<Rightarrow> string" where
  "candidate_decision_id H E x s = canonical_hash H (JObj [(''candidate_id'', JStr (canonical_hash H (signal_doc s))),
     (''market_snapshot_id'', JStr (cx_market_snapshot_id x)), (''account'', account_doc (cx_account x)),
     (''risk_policy_hash'', JStr (canonical_hash H (risk_config_doc (cf_risk (ce_config E)))))])"

definition capsule_for ::
  "(json \<Rightarrow> string) \<Rightarrow> cycle_env \<Rightarrow> cycle_context \<Rightarrow> signal \<Rightarrow> evidence_review \<Rightarrow> risk_decision \<Rightarrow> decision_capsule" where
  "capsule_for H E x s review d =
     (let did = candidate_decision_id H E x s in
      \<lparr>cap_decision_id = did,
       cap_decision_snapshot_id = canonical_hash H (JObj [(''decision_id'', JStr did),
         (''market_snapshot_id'', JStr (cx_market_snapshot_id x))]),
       cap_market_snapshot_id = cx_market_snapshot_id x,
       cap_evidence_snapshot_id = Some (es_snapshot_id (cx_evidence x)), cap_evidence_review_id = Some (review_id H review),
       cap_strategy_id = sg_strategy s,
       cap_strategy_version = (case map_of (sg_metadata s) ''strategy_version'' of None \<Rightarrow> ''runtime'' | Some v \<Rightarrow> ce_str E v),
       cap_entity_id = cx_symbol x,
       cap_input_hash = canonical_hash H (JObj [(''market_snapshot_id'', JStr (cx_market_snapshot_id x)),
         (''evidence_review_id'', JStr (review_id H review))]),
       cap_signal_hash = canonical_hash H (signal_doc s),
       cap_risk_policy_hash = canonical_hash H (risk_config_doc (cf_risk (ce_config E))),
       cap_risk_decision_hash = canonical_hash H (risk_decision_doc d),
       cap_config_hash = canonical_hash H (ce_config_doc E), cap_created_at = cx_now x\<rparr>)"

definition reservation_for ::
  "(json \<Rightarrow> string) \<Rightarrow> cycle_env \<Rightarrow> cycle_context \<Rightarrow> signal \<Rightarrow> trade_plan \<Rightarrow> risk_decision \<Rightarrow> rat \<Rightarrow> risk_reservation" where
  "reservation_for H E x s p d capacity =
     (let did = candidate_decision_id H E x s in
      \<lparr>rsv_id = canonical_hash H (JObj [(''decision_id'', JStr did), (''account'', JStr ''runtime-paper'')]),
       rsv_decision_id = did, rsv_account_id = ''runtime-paper'', rsv_instrument_id = cx_symbol x,
       rsv_cash_reserved = plan_notional p, rsv_notional_reserved = plan_notional p,
       rsv_risk_reserved = rd_risk_dollars d, rsv_account_notional_capacity = capacity,
       rsv_quantity_reserved = rd_approved_quantity d, rsv_quantity_consumed = 0, rsv_status = RS_ACTIVE,
       rsv_expires_at = cx_now x + seconds 300, rsv_version = 1, rsv_created_at = cx_now x, rsv_released_at = None\<rparr>)"

definition request_for :: "trade_plan \<Rightarrow> risk_decision \<Rightarrow> time \<Rightarrow> order_request" where
  "request_for p d now = \<lparr>or_order_id = ''order:'' @ tp_plan_id p, or_plan_id = tp_plan_id p, or_symbol = tp_symbol p,
     or_side = tp_side p, or_quantity = rd_approved_quantity d, or_limit_price = tp_entry_price p,
     or_stop_price = tp_stop_price p, or_target_price = tp_target_price p, or_idempotency_key = tp_idempotency_key p,
     or_status = OS_RISK_APPROVED, or_created_at = now\<rparr>"

definition no_trade ::
  "(json \<Rightarrow> string) \<Rightarrow> string \<Rightarrow> string \<Rightarrow> string \<Rightarrow> time \<Rightarrow> json \<Rightarrow> trading_system \<Rightarrow> trading_system" where
  "no_trade H decision_id reason source at payload s =
     s\<lparr>ts_store := snd (record_no_trade H decision_id reason source at payload (ts_store s))\<rparr>"

definition proposal_event :: "cycle_env \<Rightarrow> order_request \<Rightarrow> time \<Rightarrow> order_event" where
  "proposal_event E rq now = \<lparr>ev_order_id = or_order_id rq, ev_status = OS_PROPOSED, ev_timestamp = now,
     ev_filled_quantity = 0, ev_remaining_quantity = or_quantity rq, ev_average_fill_price = None,
     ev_message = (if rt_automatic_submission (ra_capabilities (ce_access E))
       then ''durably_outboxed_awaiting_single_writer'' else ''awaiting_explicit_local_operator_approval''),
     ev_broker_order_id = None\<rparr>"

definition order_row :: "trade_plan \<Rightarrow> risk_decision \<Rightarrow> order_event list \<Rightarrow> (string \<times> json) list \<Rightarrow> json" where
  "order_row p d events extra = JObj ([(''plan'', plan_doc p), (''risk'', risk_decision_doc d),
     (''events'', JArr (map order_event_doc events))] @ extra)"

text \<open>An approved decision within capacity: capsule, reservation and intent are staged durably, then the
  order is recorded.\<close>

definition stage_approved ::
  "(json \<Rightarrow> string) \<Rightarrow> cycle_env \<Rightarrow> cycle_context \<Rightarrow> signal \<Rightarrow> evidence_review \<Rightarrow> trade_plan \<Rightarrow> risk_decision \<Rightarrow> rat
    \<Rightarrow> trading_system \<Rightarrow> order_event list res \<times> trading_system" where
  "stage_approved H E x s review p d capacity sys =
     (let rq = request_for p d (cx_now x); c = capsule_for H E x s review d; r = reservation_for H E x s p d capacity;
          ev = proposal_event E rq (cx_now x)
      in case validate_request rq of Inl e \<Rightarrow> (Inl e, sys)
      | Inr _ \<Rightarrow> if \<not> capsule_ok c then (Inl (ValueError ''DecisionCapsule''), sys)
        else if \<not> reservation_ok r then (Inl (ValueError ''RiskReservation''), sys)
        else case create_intent H c r (tp_side p) (rd_approved_quantity d) (tp_entry_price p) (tp_stop_price p)
               (tp_target_price p) (\<not> rt_automatic_submission (ra_capabilities (ce_access E))) of
          Inl e \<Rightarrow> (Inl e, sys)
        | Inr i \<Rightarrow> and_then (on_store (stage H c r i None) sys) (\<lambda>_ t.
            (Inr [ev], on_audit (record_order_event ev) (on_audit (record_order rq) t))))"

definition decide_plan ::
  "(json \<Rightarrow> string) \<Rightarrow> cycle_env \<Rightarrow> cycle_context \<Rightarrow> signal \<Rightarrow> evidence_review \<Rightarrow> trade_plan \<Rightarrow> risk_decision
    \<Rightarrow> trading_system \<Rightarrow> json res \<times> trading_system" where
  "decide_plan H E x s review p d sys =
     (let capacity = durable_capacity (cf_risk (ce_config E)) (cx_account x) (cx_regime x) (ts_store sys);
          shortfall = JObj [(''required_notional'', JNum (plan_notional p)), (''available_notional'', JNum capacity)]
      in if rd_approved d \<and> plan_notional p > capacity then
           (Inr (order_row p d [] [(''capacity_rejection'', shortfall)]),
            no_trade H (candidate_decision_id H E x s) ''durable_capacity_exhausted'' ''authoritative_account_read_model''
              (cx_now x) shortfall sys)
         else if rd_approved d then
           and_then (stage_approved H E x s review p d capacity sys) (\<lambda>events t. (Inr (order_row p d events []), t))
         else
           (Inr (order_row p d [] []),
            no_trade H (canonical_hash H (JObj [(''plan_id'', JStr (tp_plan_id p)), (''risk'', risk_decision_doc d)]))
              ''risk_rejected'' ''risk_engine'' (cx_now x) (JObj [(''reason_codes'', strings_doc (rd_reason_codes d))]) sys))"

definition signal_row :: "signal \<Rightarrow> evidence_review \<Rightarrow> json" where
  "signal_row s review = (case signal_doc s of JObj kvs \<Rightarrow> JObj (kvs @ [(''evidence_review'', review_doc review)]) | j \<Rightarrow> j)"

definition handle_signal ::
  "(json \<Rightarrow> string) \<Rightarrow> cycle_env \<Rightarrow> cycle_context \<Rightarrow> signal \<Rightarrow> trading_system \<Rightarrow> (json \<times> json option) res \<times> trading_system" where
  "handle_signal H E x s sys0 =
     (let sys = on_audit (record_signal s) sys0; did = candidate_decision_id H E x s; now = cx_now x;
          rc = cf_risk (ce_config E)
      in case review_evidence H s (cx_evidence x) did now of Inl e \<Rightarrow> (Inl e, sys)
      | Inr review \<Rightarrow>
        if er_decision review = VETO then
          (Inr (signal_row s review, None),
           no_trade H did ''evidence_veto'' ''evidence_service'' now
             (JObj [(''invalidators'', strings_doc (er_invalidators review))]) sys)
        else
          case create_plan rc s (cx_account x) (cx_regime x) (cx_quote x)
              (mode_value (cf_operating_mode (ce_config E)) @ '':'' @ sg_signal_id s) now of
            Inl e \<Rightarrow> (Inl e, sys)
          | Inr None \<Rightarrow>
              (Inr (signal_row s review, None),
               no_trade H (canonical_hash H (JObj [(''signal_id'', JStr (sg_signal_id s)), (''as_of'', JTime now)]))
                 ''deterministic_sizing_zero'' ''risk_engine'' now (JObj []) sys)
          | Inr (Some p) \<Rightarrow>
              (case average_dollar_volume (cx_bars x) 20 of Inl e \<Rightarrow> (Inl e, sys)
               | Inr adv \<Rightarrow>
                 (case risk_evaluate rc (ts_kill_switch sys) p (cx_account x) (cx_quote x) (cx_regime x)
                     (idempotency_keys (ts_ledger sys)) adv
                     (case map_of (sg_metadata s) ''sector'' of None \<Rightarrow> ''UNKNOWN'' | Some v \<Rightarrow> ce_str E v)
                     (case map_of (sg_metadata s) ''earnings_soon'' of None \<Rightarrow> False | Some v \<Rightarrow> json_true v) now of
                    Inl e \<Rightarrow> (Inl e, sys)
                  | Inr d \<Rightarrow>
                    and_then (decide_plan H E x s review p d (on_audit (record_plan p) sys)) (\<lambda>row t.
                      (Inr (signal_row s review, Some row), t)))))"

subsection \<open>One symbol\<close>

definition record_quote :: "(json \<Rightarrow> string) \<Rightarrow> cycle_env \<Rightarrow> trade_quote \<Rightarrow> time \<Rightarrow> trading_system \<Rightarrow> unit res \<times> trading_system" where
  "record_quote H E q observed_at sys =
     and_then (on_store (record_quote_snapshot H (qt_symbol q) (qt_bid q) (qt_ask q) (Some (qt_last q)) observed_at
         (qt_timestamp q) (ce_provider_name E) (if cf_mode (ce_config E) = SYNTHETIC then ''SYNTHETIC'' else ''EXTERNAL'')
         ''UNVERIFIED'' ''SMART'' (cf_base_currency (ce_config E)) observed_at) sys)
       (\<lambda>_ t. (Inr (), t))"

definition ingest_catalyst ::
  "(json \<Rightarrow> string) \<Rightarrow> cycle_env \<Rightarrow> time \<Rightarrow> catalyst \<Rightarrow> trading_system \<Rightarrow> extraction_result res \<times> trading_system" where
  "ingest_catalyst H E now c sys =
     (case document_from_catalyst H c now of Inl e \<Rightarrow> (Inl e, sys)
      | Inr d \<Rightarrow> on_evidence (ingest H (ce_extractor E) (ce_budget E) (ce_expiry E) d now) sys)"

definition market_snapshot_doc ::
  "time \<Rightarrow> string \<Rightarrow> trade_bar list \<Rightarrow> trade_quote \<Rightarrow> regime_snapshot \<Rightarrow> catalyst list \<Rightarrow> json" where
  "market_snapshot_doc now symb bars q r cs = JObj [(''as_of'', JTime now), (''symbol'', JStr symb),
     (''bars'', JArr (map bar_doc bars)), (''quote'', quote_doc q), (''regime'', regime_doc r),
     (''catalysts'', JArr (map catalyst_doc cs))]"

definition run_strategy ::
  "(json \<Rightarrow> string) \<Rightarrow> cycle_env \<Rightarrow> cycle_context \<Rightarrow> trade_bar list \<Rightarrow> catalyst list
    \<Rightarrow> (string \<Rightarrow> trade_bar list \<Rightarrow> trade_bar list \<Rightarrow> catalyst list \<Rightarrow> time \<Rightarrow> signal option res)
    \<Rightarrow> trading_system \<Rightarrow> (json \<times> json option) option res \<times> trading_system" where
  "run_strategy H E x market_bars cs strategy sys =
     (case strategy (cx_symbol x) (cx_bars x) market_bars cs (cx_now x) of
        Inl e \<Rightarrow> (Inl e, sys)
      | Inr None \<Rightarrow> (Inr None, sys)
      | Inr (Some s) \<Rightarrow> and_then (handle_signal H E x s sys) (\<lambda>row t. (Inr (Some row), t)))"

definition run_symbol ::
  "(json \<Rightarrow> string) \<Rightarrow> cycle_env \<Rightarrow> time \<Rightarrow> regime_snapshot \<Rightarrow> account_snapshot \<Rightarrow> trade_bar list \<Rightarrow> string
    \<Rightarrow> trading_system \<Rightarrow> (json \<times> json option) option list res \<times> trading_system" where
  "run_symbol H E now regime account market_bars symb sys =
     (case ce_bars E symb of Inl e \<Rightarrow> (Inl e, sys)
      | Inr bars \<Rightarrow>
        (case ce_quote E symb of Inl e \<Rightarrow> (Inl e, sys)
         | Inr q \<Rightarrow>
           and_then (record_quote H E q now sys) (\<lambda>_ sys.
             case ce_catalysts E symb (now - seconds (3600 * ag_max_news_age_hours (cf_agents (ce_config E)))) of
               Inl e \<Rightarrow> (Inl e, sys)
             | Inr cs \<Rightarrow>
               and_then (collect (ingest_catalyst H E now) cs sys) (\<lambda>_ sys.
                 case take_evidence_snapshot H now (ts_evidence sys) of Inl e \<Rightarrow> (Inl e, sys)
                 | Inr g \<Rightarrow>
                   (case entity_snapshot H now symb g of Inl e \<Rightarrow> (Inl e, sys)
                    | Inr snap \<Rightarrow>
                      (let x = \<lparr>cx_now = now, cx_symbol = symb, cx_bars = bars, cx_quote = q, cx_regime = regime,
                            cx_account = account, cx_evidence = snap,
                            cx_market_snapshot_id = canonical_hash H (market_snapshot_doc now symb bars q regime cs)\<rparr>
                       in collect (run_strategy H E x market_bars cs) (ce_strategies E) sys))))))"

subsection \<open>The cycle\<close>

definition protect_position ::
  "(json \<Rightarrow> string) \<Rightarrow> cycle_env \<Rightarrow> trade_position \<Rightarrow> trading_system \<Rightarrow> order_event list res \<times> trading_system" where
  "protect_position H E p sys =
     (case ce_quote E (ps_symbol p) of Inl e \<Rightarrow> (Inl e, sys)
      | Inr q \<Rightarrow> and_then (record_quote H E q (ce_clock E) sys) (\<lambda>_ t. on_broker (process_quote q (ce_clock E)) t))"

definition process_existing_positions ::
  "(json \<Rightarrow> string) \<Rightarrow> cycle_env \<Rightarrow> trading_system \<Rightarrow> order_event list res \<times> trading_system" where
  "process_existing_positions H E sys =
     and_then (on_broker (get_account_snapshot (ce_clock E)) sys) (\<lambda>account sys.
     and_then (collect (protect_position H E) (ac_positions account) sys) (\<lambda>evss sys.
       (Inr (concat evss), on_audit (fold record_order_event (concat evss)) sys)))"

datatype cycle_outcome =
    Cycle_Frozen string
  | Cycle_Done "json list" "json list" "order_event list" account_snapshot

definition benchmark :: "cycle_env \<Rightarrow> string \<Rightarrow> string res" where
  "benchmark E k = (case map_of (cf_benchmarks (ce_config E)) k of None \<Rightarrow> Inl (KeyError k) | Some x \<Rightarrow> Inr x)"

definition benchmark_bars :: "cycle_env \<Rightarrow> (trade_bar list \<times> trade_bar list) res" where
  "benchmark_bars E =
     (case benchmark E ''market'' of Inl e \<Rightarrow> Inl e
      | Inr m \<Rightarrow> (case benchmark E ''growth'' of Inl e \<Rightarrow> Inl e
      | Inr g \<Rightarrow> (case ce_bars E m of Inl e \<Rightarrow> Inl e
      | Inr market_bars \<Rightarrow> (case ce_bars E g of Inl e \<Rightarrow> Inl e
      | Inr growth_bars \<Rightarrow> Inr (market_bars, growth_bars)))))"

definition finish_cycle ::
  "(json \<times> json option) option list list \<Rightarrow> order_event list \<Rightarrow> time \<Rightarrow> trading_system \<Rightarrow> cycle_outcome res \<times> trading_system" where
  "finish_cycle rows events now sys =
     (let done = List.map_filter id (concat rows); signals = map fst done; orders = List.map_filter snd done;
          keep = (\<lambda>xs. drop (length xs - 100) xs);
          t = sys\<lparr>ts_last_signals := keep signals, ts_last_orders := keep orders\<rparr>
      in and_then (on_broker (get_account_snapshot now) t) (\<lambda>account u.
           (Inr (Cycle_Done signals orders events account), u)))"

definition run_cycle :: "(json \<Rightarrow> string) \<Rightarrow> cycle_env \<Rightarrow> time option \<Rightarrow> trading_system \<Rightarrow> cycle_outcome res \<times> trading_system" where
  "run_cycle H E as_of sys0 =
     (let now = (case as_of of None \<Rightarrow> ce_clock E | Some t \<Rightarrow> t); sys = sys0\<lparr>ts_cycle_count := Suc (ts_cycle_count sys0)\<rparr> in
      if \<not> ce_healthy E then
        (let t = sys\<lparr>ts_kill_switch := ks_freeze ''market_data_unhealthy'' (ts_kill_switch sys)\<rparr>
         in (Inr (Cycle_Frozen (ks_reason (ts_kill_switch t))), t))
      else
        and_then (process_existing_positions H E sys) (\<lambda>events sys.
          case benchmark_bars E of Inl e \<Rightarrow> (Inl e, sys)
          | Inr (market_bars, growth_bars) \<Rightarrow>
            (case regime_evaluate market_bars growth_bars now of Inl e \<Rightarrow> (Inl e, sys)
             | Inr regime \<Rightarrow>
               and_then (on_broker (get_account_snapshot (ce_clock E)) (sys\<lparr>ts_last_regime := Some regime\<rparr>)) (\<lambda>account sys.
               and_then (collect (run_symbol H E now regime account market_bars) (cf_universe (ce_config E)) sys) (\<lambda>rows sys.
                 finish_cycle rows events (ce_clock E) sys)))))"

definition cancel_all_orders ::
  "cycle_env \<Rightarrow> time \<Rightarrow> trading_system \<Rightarrow> order_event list res \<times> trading_system" where
  "cancel_all_orders E now sys =
     and_then (on_broker (cancel_all (ra_broker_write (ce_access E)) now) sys) (\<lambda>events t.
       (Inr events, on_audit (fold record_order_event events) t))"

definition flatten_positions ::
  "cycle_env \<Rightarrow> (string \<Rightarrow> trade_quote option) \<Rightarrow> time \<Rightarrow> trading_system \<Rightarrow> order_event list res \<times> trading_system" where
  "flatten_positions E qs now sys =
     and_then (on_broker (flatten_all qs (ra_broker_write (ce_access E)) now) sys) (\<lambda>events t.
       (Inr events, on_audit (fold record_order_event events) t))"

end
