(* ===== verification/Cycle_Safety.thy ===== *)
theory Cycle_Safety
  imports Orchestrator
begin

section \<open>What a trading cycle can put into the execution store\<close>

text \<open>
  Every step of a cycle is related to the next state by \<open>cycle_step\<close>: the kill switch is untouched, the
  audit ledger only grows, and an intent that is new in the execution store is \<open>vetted\<close>: it comes from a
  plan the risk engine sized and approved with that kill switch, that the evidence review did not veto
  and that fits the durable capacity.
\<close>

text \<open>What a cycle trades on: its time, the regime and the bars of the market benchmark, the account after the
  exits, and the evidence store it opened with.\<close>

record cycle_view =
  vw_now :: time
  vw_regime :: regime_snapshot
  vw_account :: account_snapshot
  vw_market_bars :: "trade_bar list"
  vw_evidence :: evidence_store

text \<open>The evidence store after the catalysts of some symbols, in order, were ingested into it.\<close>

definition ingest_into ::
  "(json \<Rightarrow> string) \<Rightarrow> cycle_env \<Rightarrow> time \<Rightarrow> catalyst \<Rightarrow> evidence_store \<Rightarrow> extraction_result res \<times> evidence_store" where
  "ingest_into H E now c ev = (case document_from_catalyst H c now of Inl e \<Rightarrow> (Inl e, ev)
     | Inr d \<Rightarrow> ingest H (ce_extractor E) (ce_budget E) (ce_expiry E) d now ev)"

definition catalysts_of :: "cycle_env \<Rightarrow> time \<Rightarrow> string \<Rightarrow> catalyst list res" where
  "catalysts_of E now symb = ce_catalysts E symb (now - seconds (3600 * ag_max_news_age_hours (cf_agents (ce_config E))))"

fun evidence_after :: "(json \<Rightarrow> string) \<Rightarrow> cycle_env \<Rightarrow> time \<Rightarrow> string list \<Rightarrow> evidence_store \<Rightarrow> evidence_store" where
  "evidence_after H E now [] ev = ev"
| "evidence_after H E now (symb # symbs) ev = evidence_after H E now symbs (case catalysts_of E now symb of
     Inl e \<Rightarrow> ev | Inr cs \<Rightarrow> snd (collect (ingest_into H E now) cs ev))"

text \<open>The context a symbol of the universe is traded in: quote and bars are the provider's, the evidence is the
  snapshot of the store after the catalysts of the symbols up to this one.\<close>

definition context_of :: "(json \<Rightarrow> string) \<Rightarrow> cycle_env \<Rightarrow> cycle_view \<Rightarrow> catalyst list \<Rightarrow> cycle_context \<Rightarrow> bool" where
  "context_of H E v cs x \<longleftrightarrow>
     cx_now x = vw_now v \<and> cx_regime x = vw_regime v \<and> cx_account x = vw_account v \<and>
     ce_quote E (cx_symbol x) = Inr (cx_quote x) \<and> ce_bars E (cx_symbol x) = Inr (cx_bars x) \<and>
     catalysts_of E (vw_now v) (cx_symbol x) = Inr cs \<and>
     cx_market_snapshot_id x =
       canonical_hash H (market_snapshot_doc (cx_now x) (cx_symbol x) (cx_bars x) (cx_quote x) (cx_regime x) cs) \<and>
     (\<exists>before after g. cf_universe (ce_config E) = before @ cx_symbol x # after \<and>
        take_evidence_snapshot H (cx_now x) (evidence_after H E (cx_now x) (before @ [cx_symbol x]) (vw_evidence v)) = Inr g \<and>
        entity_snapshot H (cx_now x) (cx_symbol x) g = Inr (cx_evidence x))"

text \<open>A signal one of the strategies answered in a context, which the evidence review of that context lets through.\<close>

definition reviewed :: "(json \<Rightarrow> string) \<Rightarrow> cycle_env \<Rightarrow> cycle_view \<Rightarrow> cycle_context \<Rightarrow> signal \<Rightarrow> bool" where
  "reviewed H E v x s \<longleftrightarrow> (\<exists>cs strategy review. context_of H E v cs x \<and> strategy \<in> set (ce_strategies E) \<and>
     strategy (cx_symbol x) (cx_bars x) (vw_market_bars v) cs (cx_now x) = Inr (Some s) \<and>
     review_evidence H s (cx_evidence x) (candidate_decision_id H E x s) (cx_now x) = Inr review \<and>
     er_decision review \<noteq> VETO)"

text \<open>The plan the risk engine makes for a signal in a context, and its approval, with the sector and the earnings
  flag of the signal's metadata.\<close>

definition approved_plan ::
  "cycle_env \<Rightarrow> cycle_context \<Rightarrow> string list \<Rightarrow> kill_switch \<Rightarrow> signal \<Rightarrow> trade_plan \<Rightarrow> risk_decision \<Rightarrow> bool" where
  "approved_plan E x keys ks s p d \<longleftrightarrow>
     create_plan (cf_risk (ce_config E)) s (cx_account x) (cx_regime x) (cx_quote x)
       (mode_value (cf_operating_mode (ce_config E)) @ '':'' @ sg_signal_id s) (cx_now x) = Inr (Some p) \<and>
     (\<exists>adv. average_dollar_volume (cx_bars x) 20 = Inr adv \<and>
        risk_evaluate (cf_risk (ce_config E)) ks p (cx_account x) (cx_quote x) (cx_regime x) keys adv
          (case map_of (sg_metadata s) ''sector'' of None \<Rightarrow> ''UNKNOWN'' | Some w \<Rightarrow> ce_str E w)
          (case map_of (sg_metadata s) ''earnings_soon'' of None \<Rightarrow> False | Some w \<Rightarrow> json_true w) (cx_now x) = Inr d) \<and>
     rd_approved d \<and>
     plan_notional p \<le> ac_net_liquidation (cx_account x) *
         min (rk_max_gross_exposure (cf_risk (ce_config E))) (rg_max_gross_exposure (cx_regime x))
       - gross_exposure (cx_account x) * ac_net_liquidation (cx_account x)"

definition vetted_in ::
  "(json \<Rightarrow> string) \<Rightarrow> cycle_env \<Rightarrow> cycle_view \<Rightarrow> string list \<Rightarrow> kill_switch \<Rightarrow> execution_intent \<Rightarrow> bool" where
  "vetted_in H E v keys ks i \<longleftrightarrow> (\<exists>x s p d. reviewed H E v x s \<and> approved_plan E x keys ks s p d \<and>
     xi_instrument_id i = cx_symbol x \<and> xi_side i = tp_side p \<and> xi_quantity i = tp_quantity p \<and>
     xi_limit_price i = tp_entry_price p \<and> xi_stop_price i = tp_stop_price p \<and> xi_target_price i = tp_target_price p \<and>
     xi_status i = (if rt_automatic_submission (ra_capabilities (ce_access E)) then XS_APPROVED else XS_APPROVAL_PENDING))"

definition vetted ::
  "(json \<Rightarrow> string) \<Rightarrow> cycle_env \<Rightarrow> cycle_view option \<Rightarrow> audit_ledger \<Rightarrow> kill_switch \<Rightarrow> execution_intent \<Rightarrow> bool" where
  "vetted H E view l ks i \<longleftrightarrow>
     (\<exists>v keys. view = Some v \<and> set (idempotency_keys l) \<subseteq> set keys \<and> vetted_in H E v keys ks i)"

lemma vetted_in_universe: "vetted_in H E v keys ks i \<Longrightarrow> xi_instrument_id i \<in> set (cf_universe (ce_config E))"
  by (auto simp: vetted_in_def reviewed_def context_of_def)

definition staged_intents :: "trading_system \<Rightarrow> execution_intent set" where
  "staged_intents s = iw_intent ` set (intents (ts_store s))"

definition cycle_step :: "(json \<Rightarrow> string) \<Rightarrow> cycle_env \<Rightarrow> cycle_view option \<Rightarrow> trading_system \<Rightarrow> trading_system \<Rightarrow> bool" where
  "cycle_step H E v s t \<longleftrightarrow> ts_kill_switch t = ts_kill_switch s \<and>
     staged_intents t \<subseteq> staged_intents s \<union> {i. vetted H E v (ts_ledger s) (ts_kill_switch s) i} \<and>
     (\<not> rt_automatic_submission (ra_capabilities (ce_access E)) \<longrightarrow> outbox (ts_store t) = outbox (ts_store s)) \<and>
     ledger_extends (ts_ledger s) (ts_ledger t)"

lemma ledger_extends_keys: "ledger_extends l m \<Longrightarrow> set (idempotency_keys l) \<subseteq> set (idempotency_keys m)"
  by (auto simp: ledger_extends_def idempotency_keys_def)

lemma vetted_antimono:
  assumes "ledger_extends l m" and "vetted H E v m ks i"
  shows "vetted H E v l ks i"
  using assms ledger_extends_keys [of l m] unfolding vetted_def by blast

lemma cycle_step_refl [simp, intro]: "cycle_step H E v s s"
  by (simp add: cycle_step_def)

lemma cycle_step_trans:
  assumes "cycle_step H E v s t" and "cycle_step H E v t u"
  shows "cycle_step H E v s u"
proof -
  have "staged_intents u \<subseteq> staged_intents s \<union> {i. vetted H E v (ts_ledger s) (ts_kill_switch s) i}"
    using assms vetted_antimono [of "ts_ledger s" "ts_ledger t"] unfolding cycle_step_def by fastforce
  then show ?thesis using assms ledger_extends_trans unfolding cycle_step_def by metis
qed

text \<open>A step that leaves kill switch, intents, outbox and ledger alone.\<close>

lemma cycle_step_frame:
  assumes "ts_kill_switch t = ts_kill_switch s" and "intents (ts_store t) = intents (ts_store s)"
    and "outbox (ts_store t) = outbox (ts_store s)" and "ledger_extends (ts_ledger s) (ts_ledger t)"
  shows "cycle_step H E v s t"
  using assms by (simp add: cycle_step_def staged_intents_def)

abbreviation steps_to :: "(json \<Rightarrow> string) \<Rightarrow> cycle_env \<Rightarrow> cycle_view option \<Rightarrow> trading_system \<Rightarrow> 'a res \<times> trading_system \<Rightarrow> bool" where
  "steps_to H E v s r \<equiv> cycle_step H E v s (snd r)"

lemma steps_and_then:
  assumes "steps_to H E v s r" and "\<And>x. fst r = Inr x \<Longrightarrow> steps_to H E v (snd r) (f x (snd r))"
  shows "steps_to H E v s (and_then r f)"
  using assms by (cases "fst r") (auto simp: and_then_def intro: cycle_step_trans)

lemma and_then_cases:
  "fst r = Inr x \<Longrightarrow> and_then r f = f x (snd r)" "fst r = Inl e \<Longrightarrow> and_then r f = (Inl e, snd r)"
  by (simp_all add: and_then_def)

lemma steps_collect:
  assumes "\<And>x t. x \<in> set xs \<Longrightarrow> steps_to H E v t (f x t)"
  shows "steps_to H E v s (collect f xs s)"
  using assms
proof (induction xs arbitrary: s)
  case (Cons x xs)
  have tail: "steps_to H E v t (and_then (collect f xs t) (\<lambda>ys u. (Inr (y # ys), u)))" for t y
    using Cons by (intro steps_and_then) simp_all
  have "steps_to H E v s (f x s)" using Cons.prems by simp
  then show ?case unfolding collect.simps by (rule steps_and_then) (rule tail)
qed simp

lemma fold_record_extends: "ledger_extends l (fold record_order_event evs l)"
  by (induction evs arbitrary: l) (auto intro: ledger_extends_trans record_extends(4))

subsection \<open>Frames of the components\<close>

lemma steps_on_broker [simp]: "steps_to H E v s (on_broker f s)"
  by (auto simp: on_broker_def intro!: cycle_step_frame split: prod.splits)

lemma steps_on_evidence [simp]: "steps_to H E v s (on_evidence f s)"
  by (auto simp: on_evidence_def intro!: cycle_step_frame split: prod.splits)

lemma steps_on_audit: "ledger_extends (ts_ledger s) (f (ts_ledger s)) \<Longrightarrow> cycle_step H E v s (on_audit f s)"
  by (auto simp: on_audit_def intro!: cycle_step_frame)

lemma steps_no_trade [simp]: "cycle_step H E v s (no_trade H' did r src at pl s)"
  by (auto simp: no_trade_def record_no_trade_def Let_def intro!: cycle_step_frame)

lemma steps_record_quote [simp]: "steps_to H E v s (record_quote H' E' q at s)"
  unfolding record_quote_def
  by (rule steps_and_then)
    (auto simp: on_store_def record_quote_snapshot_def Let_def intro!: cycle_step_frame split: prod.splits if_splits)

subsection \<open>Staging\<close>

lemma stage_documents:
  assumes "stage H c r i fp d = (Inr u, d')"
  shows "iw_intent ` set (intents d') \<subseteq> insert i (iw_intent ` set (intents d))"
    and "xi_status i \<noteq> XS_APPROVED \<Longrightarrow> outbox d' = outbox d"
proof -
  obtain caps d1 where d1: "d1 = d\<lparr>capsules := caps, reservations := reservations d',
            intents := insert_or_ignore intent_clash (new_intent_row i) (intents d)\<rparr>"
    and q: "(if xi_status i = XS_APPROVED then enqueue H i d1 else (Inr (), d1)) = (Inr (), d')"
    using assms by (rule stage_Inr)
  have "iw_intent ` set (intents d1) \<subseteq> insert i (iw_intent ` set (intents d))"
    using set_insert_or_ignore_subset [of intent_clash "new_intent_row i" "intents d"]
    by (auto simp: d1 new_intent_row_def)
  moreover have "iw_intent ` set (intents d') = iw_intent ` set (intents d1)"
  proof -
    have "map iw_intent (intents d') = map iw_intent (intents d1)"
      using q by (auto simp: map_update_where dest!: enqueue_Inr split: if_splits)
    then show ?thesis by (metis set_map)
  qed
  ultimately show "iw_intent ` set (intents d') \<subseteq> insert i (iw_intent ` set (intents d))" by simp
  show "outbox d' = outbox d" if "xi_status i \<noteq> XS_APPROVED"
  proof -
    have "d' = d1" using q that by simp
    also have "outbox d1 = outbox d" by (simp add: d1)
    finally show ?thesis .
  qed
qed

lemma create_intent_fields:
  assumes "create_intent H c r sd q lp sp tp ap = Inr i"
  shows "xi_instrument_id i = rsv_instrument_id r" "xi_side i = sd" "xi_quantity i = q" "xi_limit_price i = lp"
    "xi_stop_price i = sp" "xi_target_price i = tp" "xi_status i = (if ap then XS_APPROVAL_PENDING else XS_APPROVED)"
  using assms by (auto simp: create_intent_def Let_def split: if_splits)

lemma stage_error: "stage H c r i fp d = (Inl e, d') \<Longrightarrow> d' = d"
  by (auto simp: stage_def split: option.splits)

lemma steps_stage:
  assumes "vetted H E v (ts_ledger s) (ts_kill_switch s) i"
  shows "steps_to H E v s (on_store (stage H c r i fp) s)"
proof (cases "stage H c r i fp (ts_store s)")
  case (Pair res d')
  show ?thesis
  proof (cases res)
    case (Inl e)
    then have "d' = ts_store s" using Pair by (auto dest: stage_error)
    then show ?thesis by (auto simp: on_store_def Pair intro!: cycle_step_frame)
  next
    case (Inr u)
    have ok: "stage H c r i fp (ts_store s) = (Inr u, d')" using Pair Inr by simp
    have "outbox d' = outbox (ts_store s)" if "\<not> rt_automatic_submission (ra_capabilities (ce_access E))"
      using stage_documents(2) [OF ok] that assms by (auto simp: vetted_def vetted_in_def)
    then show ?thesis using stage_documents(1) [OF ok] assms
      by (auto simp: on_store_def Pair cycle_step_def staged_intents_def)
  qed
qed

text \<open>Within the durable capacity means within the gross exposure limit.\<close>

lemma capacity_gross:
  assumes "plan_notional p \<le> durable_capacity c a r d" and "0 < plan_notional p"
  shows "plan_notional p \<le> ac_net_liquidation a * min (rk_max_gross_exposure c) (rg_max_gross_exposure r)
       - gross_exposure a * ac_net_liquidation a"
  using assms unfolding durable_capacity_def by linarith

lemma steps_stage_approved:
  assumes "reviewed H E v x s" and keys: "set (idempotency_keys (ts_ledger sys)) \<subseteq> set keys"
    and approved: "approved_plan E x keys (ts_kill_switch sys) s p d"
  shows "steps_to H E (Some v) sys (stage_approved H E x s rv p d cap sys)"
proof -
  obtain adv sector es where ev: "risk_evaluate (cf_risk (ce_config E)) (ts_kill_switch sys) p (cx_account x) (cx_quote x)
      (cx_regime x) keys adv sector es (cx_now x) = Inr d" and ok: "rd_approved d"
    using approved by (auto simp: approved_plan_def)
  have q: "rd_approved_quantity d = tp_quantity p" using evaluate_reasons(2) [OF ev] ok by simp
  have vet: "vetted H E (Some v) (ts_ledger sys) (ts_kill_switch sys) i"
    if "create_intent H c (reservation_for H E x s p d cap) (tp_side p) (tp_quantity p) (tp_entry_price p)
        (tp_stop_price p) (tp_target_price p) (\<not> rt_automatic_submission (ra_capabilities (ce_access E))) = Inr i" for c i
  proof -
    note f = create_intent_fields [OF that]
    have "xi_instrument_id i = cx_symbol x" using f(1) by (simp add: reservation_for_def Let_def)
    then have "vetted_in H E v keys (ts_kill_switch sys) i"
      using assms(1) approved f(2-7) unfolding vetted_in_def
      by (intro exI [of _ x] exI [of _ s] exI [of _ p] exI [of _ d]) simp
    then show ?thesis using keys by (auto simp: vetted_def)
  qed
  show ?thesis
    unfolding stage_approved_def Let_def q
    by (auto split: sum.splits intro!: steps_and_then steps_stage vet cycle_step_trans [OF steps_on_audit steps_on_audit])
qed

subsection \<open>The cycle\<close>

lemma plan_notional_pos: "validate_plan p = Inr () \<Longrightarrow> 0 < plan_notional p"
  by (simp add: plan_valid plan_notional_def)

lemma on_audit_frame [simp]:
  "ts_kill_switch (on_audit f sys) = ts_kill_switch sys" "ts_store (on_audit f sys) = ts_store sys"
  "ts_ledger (on_audit f sys) = f (ts_ledger sys)"
  by (simp_all add: on_audit_def)

lemma steps_decide_plan:
  assumes x: "reviewed H E v x s"
    and keys: "set (idempotency_keys (ts_ledger sys)) \<subseteq> set keys"
    and plan: "create_plan (cf_risk (ce_config E)) s (cx_account x) (cx_regime x) (cx_quote x)
       (mode_value (cf_operating_mode (ce_config E)) @ '':'' @ sg_signal_id s) (cx_now x) = Inr (Some p)"
    and adv: "average_dollar_volume (cx_bars x) 20 = Inr adv"
    and ev: "risk_evaluate (cf_risk (ce_config E)) (ts_kill_switch sys) p (cx_account x) (cx_quote x) (cx_regime x) keys adv
          (case map_of (sg_metadata s) ''sector'' of None \<Rightarrow> ''UNKNOWN'' | Some w \<Rightarrow> ce_str E w)
          (case map_of (sg_metadata s) ''earnings_soon'' of None \<Rightarrow> False | Some w \<Rightarrow> json_true w) (cx_now x) = Inr d"
  shows "steps_to H E (Some v) sys (decide_plan H E x s review p d sys)"
proof -
  let ?cap = "durable_capacity (cf_risk (ce_config E)) (cx_account x) (cx_regime x) (ts_store sys)"
  have "steps_to H E (Some v) sys (stage_approved H E x s review p d ?cap sys)" if ok: "rd_approved d" "plan_notional p \<le> ?cap"
  proof -
    have "approved_plan E x keys (ts_kill_switch sys) s p d"
      using plan adv ev ok(1) capacity_gross [OF ok(2) plan_notional_pos [OF create_plan_Some(1) [OF plan]]]
      by (simp add: approved_plan_def)
    then show ?thesis by (rule steps_stage_approved [OF x keys])
  qed
  then show ?thesis by (auto simp: decide_plan_def Let_def not_less intro!: steps_and_then)
qed

lemma steps_handle_signal:
  assumes "\<And>review. review_evidence H s (cx_evidence x) (candidate_decision_id H E x s) (cx_now x) = Inr review \<Longrightarrow>
      er_decision review \<noteq> VETO \<Longrightarrow> reviewed H E v x s"
  shows "steps_to H E (Some v) sys (handle_signal H E x s sys)"
proof -
  let ?sys = "on_audit (record_signal s) sys"
  have first: "cycle_step H E (Some v) sys ?sys" by (rule steps_on_audit) simp
  have plan: "cycle_step H E (Some v) ?sys (on_audit (record_plan p) ?sys)" for p by (rule steps_on_audit) simp
  have keys: "set (idempotency_keys (ts_ledger (on_audit (record_plan p) ?sys))) \<subseteq> set (idempotency_keys (ts_ledger ?sys))" for p
    by (simp add: record_plan_def append_event_def idempotency_keys_def)
  show ?thesis unfolding handle_signal_def Let_def
    using first
    by (auto split: sum.splits option.split intro: cycle_step_trans [OF first]
        intro!: steps_and_then cycle_step_trans [OF first cycle_step_trans [OF plan steps_decide_plan [OF assms keys]]])
qed

lemma steps_run_strategy:
  assumes "context_of H E v cs x" and "f \<in> set (ce_strategies E)"
  shows "steps_to H E (Some v) sys (run_strategy H E x (vw_market_bars v) cs f sys)"
proof -
  have "steps_to H E (Some v) sys (handle_signal H E x s sys)"
    if "f (cx_symbol x) (cx_bars x) (vw_market_bars v) cs (cx_now x) = Inr (Some s)" for s
    using assms that by (intro steps_handle_signal) (auto simp: reviewed_def)
  then show ?thesis
    by (auto simp: run_strategy_def split: sum.splits option.splits intro!: steps_and_then)
qed

lemma steps_ingest_catalyst [simp]: "steps_to H E v sys (ingest_catalyst H E' now c sys)"
  by (auto simp: ingest_catalyst_def split: sum.splits)

subsection \<open>The evidence a symbol is reviewed against\<close>

text \<open>Only the ingestion of catalysts touches the evidence store.\<close>

lemma evidence_frames [simp]:
  "ts_evidence (on_audit f s) = ts_evidence s" "ts_evidence (no_trade H d r src at pl s) = ts_evidence s"
  by (simp_all add: on_audit_def no_trade_def)

lemma evidence_on_store [simp]: "ts_evidence (snd (on_store f s)) = ts_evidence s"
  by (simp add: on_store_def split: prod.splits)

lemma evidence_on_broker [simp]: "ts_evidence (snd (on_broker f s)) = ts_evidence s"
  by (simp add: on_broker_def split: prod.splits)

lemma evidence_and_then:
  assumes "ts_evidence (snd r) = e" and "\<And>x t. ts_evidence t = e \<Longrightarrow> ts_evidence (snd (f x t)) = e"
  shows "ts_evidence (snd (and_then r f)) = e"
  using assms by (cases "fst r") (auto simp: and_then_def)

lemma evidence_collect:
  "(\<And>x t. ts_evidence (snd (f x t)) = ts_evidence t) \<Longrightarrow> ts_evidence (snd (collect f xs s)) = ts_evidence s"
  by (induction xs arbitrary: s) (auto intro!: evidence_and_then)

lemma evidence_decide_plan: "ts_evidence (snd (decide_plan H E x s review p d sys)) = ts_evidence sys"
  by (auto simp: decide_plan_def stage_approved_def Let_def intro!: evidence_and_then split: sum.split)

lemma evidence_run_strategy: "ts_evidence (snd (run_strategy H E x mb cs f sys)) = ts_evidence sys"
proof -
  have "ts_evidence (snd (handle_signal H E x s sys)) = ts_evidence sys" for s
    by (auto simp: handle_signal_def Let_def evidence_decide_plan intro!: evidence_and_then split: sum.split option.split)
  then show ?thesis
    by (auto simp: run_strategy_def intro!: evidence_and_then split: sum.split option.split)
qed

lemma evidence_record_quote [simp]: "ts_evidence (snd (record_quote H E q at sys)) = ts_evidence sys"
  by (auto simp: record_quote_def intro!: evidence_and_then)

lemma ingest_catalyst_into:
  "fst (ingest_catalyst H E now c sys) = fst (ingest_into H E now c (ts_evidence sys))"
  "ts_evidence (snd (ingest_catalyst H E now c sys)) = snd (ingest_into H E now c (ts_evidence sys))"
  by (auto simp: ingest_catalyst_def ingest_into_def on_evidence_def split: sum.split prod.split)

lemma collect_into:
  "ts_evidence (snd (collect (ingest_catalyst H E now) cs sys)) = snd (collect (ingest_into H E now) cs (ts_evidence sys))"
proof (induction cs arbitrary: sys)
  case (Cons c cs)
  show ?case
    using ingest_catalyst_into [of H E now c sys] Cons.IH [of "snd (ingest_catalyst H E now c sys)"]
    by (auto simp: and_then_def split: sum.splits)
qed simp

lemma evidence_after_append:
  "evidence_after H E now (xs @ ys) ev = evidence_after H E now ys (evidence_after H E now xs ev)"
  by (induction xs arbitrary: ev) simp_all

lemma run_symbol_evidence:
  assumes "fst (run_symbol H E now regime account mb symb sys) = Inr rows"
  shows "ts_evidence (snd (run_symbol H E now regime account mb symb sys)) = evidence_after H E now [symb] (ts_evidence sys)"
  using assms
  by (auto simp: run_symbol_def catalysts_of_def Let_def and_then_def evidence_collect [OF evidence_run_strategy] collect_into
      split: sum.splits)

lemma steps_run_symbol:
  assumes "cf_universe (ce_config E) = before @ symb # after"
    and "ts_evidence sys = evidence_after H E (vw_now v) before (vw_evidence v)"
  shows "steps_to H E (Some v) sys (run_symbol H E (vw_now v) (vw_regime v) (vw_account v) (vw_market_bars v) symb sys)"
proof -
  let ?x = "\<lambda>bars q snap cs. \<lparr>cx_now = vw_now v, cx_symbol = symb, cx_bars = bars, cx_quote = q, cx_regime = vw_regime v,
      cx_account = vw_account v, cx_evidence = snap, cx_market_snapshot_id = canonical_hash H
        (market_snapshot_doc (vw_now v) symb bars q (vw_regime v) cs)\<rparr>"
  have x: "context_of H E v cs (?x bars q snap cs)"
    if "ce_bars E symb = Inr bars" "ce_quote E symb = Inr q" "catalysts_of E (vw_now v) symb = Inr cs"
      "take_evidence_snapshot H (vw_now v) (snd (collect (ingest_into H E (vw_now v)) cs (ts_evidence sys))) = Inr g"
      "entity_snapshot H (vw_now v) symb g = Inr snap" for bars q cs g snap
  proof -
    have "evidence_after H E (vw_now v) (before @ [symb]) (vw_evidence v) =
        snd (collect (ingest_into H E (vw_now v)) cs (ts_evidence sys))"
      using that(3) assms(2) by (simp add: evidence_after_append)
    then have "take_evidence_snapshot H (vw_now v) (evidence_after H E (vw_now v) (before @ [symb]) (vw_evidence v)) = Inr g"
      using that(4) by simp
    then show ?thesis using that(1,2,3,5) assms(1) unfolding context_of_def by auto
  qed
  show ?thesis
    unfolding run_symbol_def Let_def catalysts_of_def [symmetric]
    by (auto split: sum.split simp: collect_into
        intro!: steps_and_then steps_collect [OF steps_run_strategy [OF x]] steps_collect [OF steps_ingest_catalyst])
qed

lemma steps_run_symbols:
  assumes "cf_universe (ce_config E) = before @ symbs"
    and "ts_evidence sys = evidence_after H E (vw_now v) before (vw_evidence v)"
  shows "steps_to H E (Some v) sys
    (collect (run_symbol H E (vw_now v) (vw_regime v) (vw_account v) (vw_market_bars v)) symbs sys)"
  using assms
proof (induction symbs arbitrary: before sys)
  case (Cons symb symbs)
  let ?run = "run_symbol H E (vw_now v) (vw_regime v) (vw_account v) (vw_market_bars v)"
  show ?case unfolding collect.simps
  proof (rule steps_and_then [OF steps_run_symbol [OF Cons.prems]])
    fix rows assume rows: "fst (?run symb sys) = Inr rows"
    have "ts_evidence (snd (?run symb sys)) = evidence_after H E (vw_now v) (before @ [symb]) (vw_evidence v)"
      unfolding run_symbol_evidence [OF rows] using Cons.prems(2) by (simp add: evidence_after_append)
    then have "steps_to H E (Some v) (snd (?run symb sys)) (collect ?run symbs (snd (?run symb sys)))"
      using Cons.prems(1) by (intro Cons.IH [of "before @ [symb]"]) simp_all
    then show "steps_to H E (Some v) (snd (?run symb sys))
        (and_then (collect ?run symbs (snd (?run symb sys))) (\<lambda>ys u. (Inr (rows # ys), u)))"
      by (rule steps_and_then) simp
  qed
qed simp

lemma steps_protect_position [simp]: "steps_to H E v sys (protect_position H E' p sys)"
  by (auto simp: protect_position_def split: sum.splits intro!: steps_and_then)

lemma steps_process_existing_positions: "steps_to H E v sys (process_existing_positions H E' sys)"
  unfolding process_existing_positions_def
  by (auto intro!: steps_and_then steps_collect steps_on_audit fold_record_extends)

lemma steps_finish_cycle: "steps_to H E v sys (finish_cycle rows evs now sys)"
  unfolding finish_cycle_def Let_def
  by (intro steps_and_then cycle_step_trans [OF cycle_step_frame steps_on_broker]) simp_all

lemma evidence_process_existing_positions:
  "ts_evidence (snd (process_existing_positions H E sys)) = ts_evidence sys"
proof -
  have "ts_evidence (snd (protect_position H E p sys)) = ts_evidence sys" for p sys
    by (auto simp: protect_position_def intro!: evidence_and_then split: sum.split)
  then show ?thesis
    unfolding process_existing_positions_def by (auto intro!: evidence_and_then simp: evidence_collect)
qed

text \<open>The view a cycle trades in: its time, the regime and bars of the benchmarks, the account after the exits and
  the evidence it starts from.\<close>

definition opening_view :: "(json \<Rightarrow> string) \<Rightarrow> cycle_env \<Rightarrow> time option \<Rightarrow> trading_system \<Rightarrow> cycle_view option" where
  "opening_view H E as_of sys =
     (let now = (case as_of of None \<Rightarrow> ce_clock E | Some t \<Rightarrow> t) in
      case process_existing_positions H E (sys\<lparr>ts_cycle_count := Suc (ts_cycle_count sys)\<rparr>) of (Inl _, _) \<Rightarrow> None
      | (Inr _, t) \<Rightarrow>
        (case benchmark_bars E of Inl _ \<Rightarrow> None
         | Inr (market_bars, growth_bars) \<Rightarrow>
           (case regime_evaluate market_bars growth_bars now of Inl _ \<Rightarrow> None
            | Inr regime \<Rightarrow>
              (case fst (get_account_snapshot (ce_clock E) (ts_broker t)) of Inl _ \<Rightarrow> None
               | Inr account \<Rightarrow> Some \<lparr>vw_now = now, vw_regime = regime, vw_account = account,
                   vw_market_bars = market_bars, vw_evidence = ts_evidence sys\<rparr>))))"

lemma fst_on_broker [simp]: "fst (on_broker f s) = fst (f (ts_broker s))"
  by (simp add: on_broker_def split: prod.splits)

lemma run_cycle_steps:
  assumes "ce_healthy E"
  shows "cycle_step H E (opening_view H E as_of sys) sys (snd (run_cycle H E as_of sys))"
proof -
  let ?sys = "sys\<lparr>ts_cycle_count := Suc (ts_cycle_count sys)\<rparr>"
  have first: "cycle_step H E v sys ?sys" for v by (rule cycle_step_frame) simp_all
  have regime: "cycle_step H E v t (t\<lparr>ts_last_regime := r\<rparr>)" for v t r by (rule cycle_step_frame) simp_all
  obtain r t where pep: "process_existing_positions H E ?sys = (r, t)" by fastforce
  have second: "cycle_step H E v ?sys t" for v using steps_process_existing_positions [of H E v ?sys E] by (simp add: pep)
  have base: "cycle_step H E v sys t" for v using first second by (rule cycle_step_trans)
  have account: "steps_to H E v sys (on_broker f (t\<lparr>ts_last_regime := r\<rparr>))"
    for v r and f :: "paper_broker \<Rightarrow> account_snapshot res \<times> paper_broker"
    by (rule cycle_step_trans [OF base cycle_step_trans [OF regime steps_on_broker]])
  have evidence: "ts_evidence (snd (on_broker f (t\<lparr>ts_last_regime := r\<rparr>))) = ts_evidence sys"
    for r and f :: "paper_broker \<Rightarrow> account_snapshot res \<times> paper_broker"
    using evidence_process_existing_positions [of H E ?sys] by (simp add: pep)
  have trade: "steps_to H E (Some \<lparr>vw_now = now, vw_regime = r, vw_account = a, vw_market_bars = mb, vw_evidence = ts_evidence sys\<rparr>) sys
      (and_then (collect (run_symbol H E now r a mb) (cf_universe (ce_config E)) u) (\<lambda>rows. finish_cycle rows evs (ce_clock E)))"
    if "\<And>v. cycle_step H E v sys u" "ts_evidence u = ts_evidence sys" for now r a mb evs u
  proof (rule steps_and_then)
    let ?v = "\<lparr>vw_now = now, vw_regime = r, vw_account = a, vw_market_bars = mb, vw_evidence = ts_evidence sys\<rparr>"
    show "steps_to H E (Some ?v) sys (collect (run_symbol H E now r a mb) (cf_universe (ce_config E)) u)"
      using cycle_step_trans [OF that(1) steps_run_symbols [where before = "[]" and v = ?v and sys = u and H = H and E = E]] that(2)
      by simp
  qed (rule steps_finish_cycle)
  show ?thesis
  proof (cases r)
    case (Inl e)
    then show ?thesis using assms base unfolding run_cycle_def opening_view_def Let_def pep by (simp add: and_then_def)
  next
    case (Inr evs)
    then show ?thesis using assms base account unfolding run_cycle_def opening_view_def Let_def pep
      by (auto simp: and_then_cases split: sum.splits prod.splits intro!: trade evidence)
  qed
qed

end
