(* ===== verification/Trading_Properties.thy ===== *)
theory Trading_Properties
  imports Paper_Flatten Evidence_Books Cycle_Safety Samples
begin

section \<open>Properties of the paper broker\<close>

text \<open>Sample documents.\<close>

definition demo_execution :: execution_config where
  "demo_execution = \<lparr>xc_broker = SIMULATED, xc_auto_submit_paper = False, xc_broker_write_enabled = True,
     xc_operator_api_enabled = False, xc_require_human_approval_live = True, xc_slippage_bps = 5,
     xc_commission_per_share = 1 / 200, xc_minimum_commission = 1, xc_order_ttl_seconds = 300\<rparr>"

definition demo_capability :: broker_write_capability where
  "demo_capability = \<lparr>bw_issued = True, bw_operating_mode = PAPER_MANUAL\<rparr>"

definition demo_quote :: trade_quote where
  "demo_quote = \<lparr>qt_symbol = ''X'', qt_timestamp = 0, qt_bid = 9, qt_ask = 10, qt_last = 10, qt_bid_size = 5, qt_ask_size = 5\<rparr>"

definition paper_order :: order_request where
  "paper_order = \<lparr>or_order_id = ''o1'', or_plan_id = ''p1'', or_symbol = ''X'', or_side = BUY, or_quantity = 10,
     or_limit_price = 10, or_stop_price = 8, or_target_price = 20, or_idempotency_key = ''key-0001'',
     or_status = OS_RISK_APPROVED, or_created_at = 0\<rparr>"

definition demo_holding :: paper_broker where
  "demo_holding = paper_step (Submit_Order paper_order demo_quote (Some demo_capability) 0) (new_paper_broker 1000 demo_execution)"

lemmas demo_docs = demo_execution_def demo_capability_def demo_quote_def paper_order_def

lemma demo_valid: "validate_execution_config demo_execution = Inr ()"
  "op_documents_valid (Submit_Order paper_order demo_quote (Some demo_capability) 0)"
  "require_broker_write (Some demo_capability) = Inr ()" "validate_quote demo_quote = Inr ()"
  by code_simp+

text \<open>C11: The paper broker's books balance. Start it with any cash and run any sequence of its operations with
  valid documents, operations that are refused included: cash is the starting cash plus what the recorded
  fills are worth net of commission, the shares held of every symbol are those of the fills, every position is
  long with positive cost and mark, there is one position per symbol, and exactly the symbols held are protected.\<close>

theorem paper_books_balance:
  assumes "validate_execution_config c = Inr ()" and "\<forall>op \<in> set ops. op_documents_valid op"
  shows "let s = fold paper_step ops (new_paper_broker cash c) in
    pb_cash s = cash + total_of cash_of_fill (pb_fills s) \<and>
    (\<forall>x. paper_held s x = total_of (shares_of_fill x) (pb_fills s)) \<and>
    distinct (map ps_symbol (pb_positions s)) \<and>
    (\<forall>p \<in> set (pb_positions s). 0 < ps_quantity p \<and> 0 < ps_average_cost p \<and> 0 < ps_mark_price p) \<and>
    ps_symbol ` set (pb_positions s) = pr_symbol ` set (pb_protections s)"
proof -
  have "pb_start_of_day_nlv (new_paper_broker cash c) = cash" by (simp add: new_paper_broker_def)
  then show ?thesis
    using paper_run_keeps [OF new_paper_broker_ok [OF assms(1)] assms(2), of cash]
    by (simp add: Let_def paper_ok_def books_match_def positions_ok_def)
qed

lemma paper_books_balance_witness:
  "let s = fold paper_step [Submit_Order paper_order demo_quote (Some demo_capability) 0, Process_Quote demo_quote 1]
      (new_paper_broker 1000 demo_execution) in pb_cash s = 1000 + total_of cash_of_fill (pb_fills s) \<and> length (pb_fills s) = 1"
proof -
  have "length (pb_fills (fold paper_step [Submit_Order paper_order demo_quote (Some demo_capability) 0,
      Process_Quote demo_quote 1] (new_paper_broker 1000 demo_execution))) = 1"
    by code_simp
  moreover have "\<forall>op \<in> set [Submit_Order paper_order demo_quote (Some demo_capability) 0, Process_Quote demo_quote 1].
      op_documents_valid op"
    using demo_valid by simp
  ultimately show ?thesis using paper_books_balance [OF demo_valid(1), of _ 1000] by (meson)
qed

text \<open>Broker writes need a paper mode. With the capability the runtime grants for a configuration, an order,
  cancel-all or flatten-all is permitted exactly when the operating mode is a paper mode, broker writes are
  enabled and a write token of at least 32 characters is configured; otherwise it raises PermissionError and
  leaves the broker as it was.\<close>

theorem broker_writes_need_paper_mode:
  assumes "build_runtime_access D c secrets = Inr a" and "needed_capability op = Some (ra_broker_write a)"
  shows "if cf_operating_mode c \<in> {PAPER_MANUAL, PAPER_AUTO} \<and> xc_broker_write_enabled (cf_execution c) \<and>
      (\<exists>token. se_broker_write_token secrets = Some token \<and> 32 \<le> length token)
    then permitted op
    else paper_exec op s = (Inl (PermissionError ''broker_write_capability_required''), s)"
proof -
  have "grant_write c secrets = Inr (ra_broker_write a)" using assms(1) by (rule build_runtime_access_Inr)
  then have "permitted op \<longleftrightarrow> cf_operating_mode c \<in> {PAPER_MANUAL, PAPER_AUTO} \<and> xc_broker_write_enabled (cf_execution c) \<and>
      (\<exists>token. se_broker_write_token secrets = Some token \<and> 32 \<le> length token)"
    by (auto simp: permitted_def assms(2) require_broker_write_Inr grant_write_Inr capability_valid_def paper_modes_def
        min_token_length_def split: if_splits)
  then show ?thesis using paper_exec_refused [of op s] by auto
qed

definition demo_config :: app_config where
  "demo_config = \<lparr>cf_operating_mode = PAPER_MANUAL, cf_mode = SYNTHETIC, cf_base_currency = ''USD'', cf_starting_cash = 100000,
     cf_universe = [''X''], cf_benchmarks = [(''market'', ''M''), (''growth'', ''G'')], cf_bar_interval_minutes = 5,
     cf_lookback_bars = 300,
     cf_risk = \<lparr>rk_risk_per_trade_pct = 1 / 100, rk_max_symbol_weight = 10 / 100, rk_max_sector_weight = 30 / 100,
       rk_max_gross_exposure = 1, rk_max_positions = 5, rk_daily_loss_limit_pct = 2 / 100,
       rk_max_drawdown_limit_pct = 10 / 100, rk_max_order_notional = 5000, rk_max_quote_age_seconds = 60, rk_min_price = 5,
       rk_min_average_dollar_volume = 1000, rk_allow_earnings_overnight = False, rk_allow_market_orders = False\<rparr>,
     cf_execution = demo_execution,
     cf_agents = \<lparr>ag_enabled = False, ag_provider = DETERMINISTIC, ag_require_evidence = True, ag_allow_llm_to_size = False,
       ag_max_news_age_hours = 24\<rparr>, cf_strategies = []\<rparr>"

definition demo_access :: runtime_access where
  "demo_access = \<lparr>ra_operating_mode = PAPER_MANUAL,
     ra_capabilities = \<lparr>rt_broker_write = True, rt_automatic_submission = False, rt_operator_api = False\<rparr>,
     ra_broker_write = Some demo_capability, ra_operator_token_digest = None\<rparr>"

lemma broker_writes_need_paper_mode_witness:
  "validate_config demo_config = Inr () \<and>
   build_runtime_access id demo_config \<lparr>se_broker_write_token = Some (replicate 32 CHR ''k''), se_operator_token = None\<rparr> = Inr demo_access \<and>
   permitted (Cancel_All (ra_broker_write demo_access) 0)"
proof -
  have a: "build_runtime_access id demo_config \<lparr>se_broker_write_token = Some (replicate 32 CHR ''k''), se_operator_token = None\<rparr>
      = Inr demo_access"
    by code_simp
  have "needed_capability (Cancel_All (ra_broker_write demo_access) 0) = Some (ra_broker_write demo_access)" by simp
  note t = broker_writes_need_paper_mode [OF a this]
  have "validate_config demo_config = Inr ()" by code_simp
  then show ?thesis using a t by (simp add: demo_config_def demo_execution_def)
qed

text \<open>C14: Flatten-all closes the account. With a valid capability, a connected broker, a valid quote for every position
  and flatten keys that were not used before, flatten-all returns and leaves no position and no protection.\<close>

theorem flatten_all_closes_everything:
  assumes "paper_ok s" and "require_broker_write capability = Inr ()" and "pb_connected s"
    and "\<forall>p \<in> set (pb_positions s). \<exists>q. qs (ps_symbol p) = Some q \<and> validate_quote q = Inr ()"
    and "\<forall>p \<in> set (pb_positions s). flatten_key p \<notin> fst ` set (pb_idempotency s)"
  shows "\<exists>events t. flatten_all qs capability now s = (Inr events, t) \<and> paper_ok t \<and>
    pb_positions t = [] \<and> pb_protections t = []"
  using assms by (rule flatten_all_flat)

lemma flatten_all_closes_everything_witness:
  "pb_positions demo_holding \<noteq> [] \<and>
   (\<exists>events t. flatten_all (\<lambda>_. Some demo_quote) (Some demo_capability) 5 demo_holding = (Inr events, t) \<and> pb_positions t = [])"
proof -
  have ok: "paper_ok demo_holding"
    unfolding demo_holding_def by (rule paper_step_keeps(1) [OF new_paper_broker_ok [OF demo_valid(1)] demo_valid(2)])
  have facts: "pb_connected demo_holding" "pb_positions demo_holding \<noteq> []"
    "list_all (\<lambda>p. flatten_key p \<notin> fst ` set (pb_idempotency demo_holding)) (pb_positions demo_holding)"
    by code_simp+
  have "\<exists>events t. flatten_all (\<lambda>_. Some demo_quote) (Some demo_capability) 5 demo_holding = (Inr events, t) \<and> paper_ok t \<and>
      pb_positions t = [] \<and> pb_protections t = []"
    by (rule flatten_all_closes_everything [OF ok demo_valid(3) facts(1)])
      (use facts(3) demo_valid(4) in \<open>simp_all add: list_all_iff\<close>)
  then show ?thesis using facts(2) by blast
qed

section \<open>Properties of the risk engine\<close>

definition demo_signal :: signal where
  "demo_signal = \<lparr>sg_signal_id = ''s1'', sg_symbol = ''X'', sg_strategy = ''breakout'', sg_action = SA_BUY, sg_generated_at = 0,
     sg_confidence = 1 / 2, sg_reference_price = 10, sg_stop_price = 8, sg_target_price = 20, sg_score_components = [],
     sg_evidence_ids = [], sg_metadata = []\<rparr>"

definition demo_account :: account_snapshot where
  "demo_account = \<lparr>ac_timestamp = 0, ac_net_liquidation = 100000, ac_cash = 100000, ac_buying_power = 100000, ac_daily_pnl = 0,
     ac_peak_net_liquidation = 100000, ac_positions = [], ac_connected = True\<rparr>"

definition demo_regime :: regime_snapshot where
  "demo_regime = \<lparr>rg_regime = RISK_ON, rg_timestamp = 0, rg_risk_multiplier = 1, rg_max_gross_exposure = 1 / 2,
     rg_allowed_strategies = [''breakout''], rg_metrics = []\<rparr>"

definition demo_plan :: trade_plan where
  "demo_plan = (case create_plan (cf_risk demo_config) demo_signal demo_account demo_regime demo_quote ''key-0001'' 0 of
     Inr (Some p) \<Rightarrow> p)"

definition demo_decision :: risk_decision where
  "demo_decision = (case risk_evaluate (cf_risk demo_config) new_kill_switch demo_plan demo_account demo_quote demo_regime []
     5000 ''UNKNOWN'' False 0 of Inr d \<Rightarrow> d)"

text \<open>C12: A trade the risk engine plans and approves stays within every limit: the kill switch is not frozen, the broker is
  connected and the quote fresh, the key is new, it is a long trade with stop below entry below target, its notional is
  within the symbol, order and buying power limits, and with it booked the account keeps to the number of positions and
  to the gross exposure of configuration and regime. Shares times the distance between the signal's reference price and
  its stop are within the risk budget; the dollars at risk the decision records are measured from the ask the plan enters
  at, and exceed the budget by at most shares times the distance from the reference price to the ask.\<close>

theorem approved_trade_stays_within_limits:
  assumes plan: "create_plan c s a r q key now = Inr (Some p)"
    and review: "risk_evaluate c ks p a q r keys adv sector earnings_soon now' = Inr d" and "rd_approved d"
    and "validate_quote q = Inr ()"
  shows "\<not> ks_frozen ks \<and> ac_connected a \<and> age_seconds q now' \<le> of_int (rk_max_quote_age_seconds c) \<and> key \<notin> set keys \<and>
    rk_min_average_dollar_volume c \<le> adv \<and>
    tp_side p = BUY \<and> tp_stop_price p < tp_entry_price p \<and> tp_entry_price p < tp_target_price p \<and>
    of_int (tp_quantity p) * per_share_risk s \<le> risk_budget c a r \<and>
    rd_risk_dollars d = of_int (tp_quantity p) * (tp_entry_price p - tp_stop_price p) \<and>
    rd_risk_dollars d \<le> risk_budget c a r + of_int (tp_quantity p) * (tp_entry_price p - sg_reference_price s) \<and>
    plan_notional p \<le> ac_net_liquidation a * rk_max_symbol_weight c \<and> plan_notional p \<le> rk_max_order_notional c \<and>
    plan_notional p \<le> ac_buying_power a \<and>
    int (length (ac_positions (with_plan p sector a))) \<le> rk_max_positions c \<and>
    gross_exposure (with_plan p sector a) \<le> min (rk_max_gross_exposure c) (rg_max_gross_exposure r) + slack \<and>
    - ac_net_liquidation a * rk_daily_loss_limit_pct c < ac_daily_pnl a \<and> drawdown_pct a < rk_max_drawdown_limit_pct c"
proof -
  note cp = create_plan_Some [OF plan]
  have quiet: "\<not> list_ex fst (risk_rules c ks p a q r keys adv sector earnings_soon now')"
    using evaluate_reasons(1) [OF review] assms(3) by simp
  have buy: "tp_side p = BUY" using quiet by (simp add: risk_rules_def)
  then have entry: "tp_entry_price p = qt_ask q" using cp(4,5) by (auto split: if_splits)
  have ask: "0 < qt_ask q" using assms(4) by (simp add: quote_valid)
  have qty: "0 < tp_quantity p" using cp(2,3) by simp
  have risk: "0 < per_share_risk s" using cp(2) by (auto simp: size_position_def split: if_splits)
  have size: "of_int (tp_quantity p) * per_share_risk s \<le> risk_budget c a r \<and> of_int (tp_quantity p) * qt_ask q \<le> notional_cap c a"
    using size_position_iff [OF ask risk qty, of c a r] cp(3) by simp
  moreover have "plan_notional p = of_int (tp_quantity p) * qt_ask q" by (simp add: plan_notional_def entry)
  moreover have "gross_exposure (with_plan p sector a) = gross_after p a"
    using gross_exposure_with_plan [of p sector a] ask qty by (simp add: entry)
  moreover have "length (ac_positions (with_plan p sector a)) = Suc (length (ac_positions a))" by (simp add: with_plan_def)
  moreover have "tp_stop_price p < tp_entry_price p" using quiet buy by (simp add: risk_rules_def)
  then have dollars: "rd_risk_dollars d = of_int (tp_quantity p) * (tp_entry_price p - tp_stop_price p)"
    using evaluate_reasons(3) [OF review] assms(3) by (simp add: plan_risk_dollars_def mult.commute)
  moreover have "rd_risk_dollars d \<le> risk_budget c a r + of_int (tp_quantity p) * (tp_entry_price p - sg_reference_price s)"
  proof -
    have "tp_entry_price p - tp_stop_price p \<le> per_share_risk s + (tp_entry_price p - sg_reference_price s)"
      using cp(9) by (simp add: per_share_risk_def)
    then have "of_int (tp_quantity p) * (tp_entry_price p - tp_stop_price p)
        \<le> of_int (tp_quantity p) * (per_share_risk s + (tp_entry_price p - sg_reference_price s))"
      using qty by (intro mult_left_mono) simp_all
    then show ?thesis using dollars size by (simp add: algebra_simps)
  qed
  ultimately show ?thesis using quiet buy cp(8) by (auto simp: risk_rules_def notional_cap_def)
qed

lemma approved_trade_stays_within_limits_witness:
  "tp_quantity demo_plan = 500 \<and> int (length (ac_positions (with_plan demo_plan ''UNKNOWN'' demo_account))) \<le> 5 \<and>
   plan_notional demo_plan \<le> rk_max_order_notional (cf_risk demo_config)"
proof -
  have plan: "create_plan (cf_risk demo_config) demo_signal demo_account demo_regime demo_quote ''key-0001'' 0 = Inr (Some demo_plan)"
    and d: "risk_evaluate (cf_risk demo_config) new_kill_switch demo_plan demo_account demo_quote demo_regime []
     5000 ''UNKNOWN'' False 0 = Inr demo_decision"
    and ok: "rd_approved demo_decision" "tp_quantity demo_plan = 500" "rk_max_positions (cf_risk demo_config) = 5"
    by code_simp+
  show ?thesis using approved_trade_stays_within_limits [OF plan d ok(1) demo_valid(4)] ok(2,3) by simp
qed

text \<open>The size of a position is the largest one within the limits: it is never negative, it is zero when there is no
  risk per share, and otherwise a positive number of shares is at most the size exactly when its risk fits the risk
  budget and its cost at the ask fits the notional limits.\<close>

theorem size_is_largest_within_limits:
  assumes "validate_quote q = Inr ()"
  shows "0 \<le> size_position c s a r q \<and> (per_share_risk s = 0 \<longrightarrow> size_position c s a r q = 0) \<and>
    (0 < per_share_risk s \<longrightarrow> (\<forall>n > 0. n \<le> size_position c s a r q \<longleftrightarrow>
       of_int n * per_share_risk s \<le> risk_budget c a r \<and> of_int n * qt_ask q \<le> notional_cap c a))"
proof -
  have "0 < qt_ask q" using assms by (simp add: quote_valid)
  then show ?thesis using size_position_nonneg size_position_iff by (auto simp: size_position_def)
qed

lemma size_is_largest_within_limits_witness:
  "size_position (cf_risk demo_config) demo_signal demo_account demo_regime demo_quote = 500 \<and>
   0 \<le> size_position (cf_risk demo_config) demo_signal demo_account demo_regime demo_quote"
proof -
  have "size_position (cf_risk demo_config) demo_signal demo_account demo_regime demo_quote = 500" by code_simp
  then show ?thesis using size_is_largest_within_limits [OF demo_valid(4)] by blast
qed

section \<open>Properties of the evidence plane\<close>

definition demo_document :: evidence_document where
  "demo_document = \<lparr>ed_document_id = replicate 64 CHR ''a'', ed_entity_id = ''X'', ed_source = ''synthetic'', ed_source_uri = ''u'',
     ed_observed_at = 5, ed_effective_at = 5, ed_available_at = 5, ed_ingested_at = 5, ed_content = ''X raised guidance'',
     ed_content_hash = replicate 64 CHR ''a''\<rparr>"

definition demo_ingest :: "extractor \<times> evidence_document \<times> time" where
  "demo_ingest = (deterministic_extractor ''c'', demo_document, 6)"

definition demo_evidence :: evidence_store where
  "demo_evidence = fold (ingest_step flat_digest default_budget default_expiry) [demo_ingest] empty_evidence"

text \<open>C13: Evidence is cited and budgeted. After any sequence of ingestions, raising ones included, with any extractors that
  return valid results: every stored claim carries at least one span, all its spans are quotes of the stored document
  it names, which is about the same entity and became available when the claim did; every contradiction joins two stored
  claims that oppose each other; no event has more model calls than the budget; and no entity has more documents of a day.\<close>

theorem evidence_is_cited_and_budgeted:
  assumes "validate_budget pol = Inr ()" and "\<forall>op \<in> set ops. extractor_valid (fst op)"
  shows "let s = fold (ingest_step H pol xp) ops empty_evidence in
    (\<forall>c \<in> set (vs_claims s). claim_cited H (vs_documents s) c) \<and> distinct (map ec_claim_id (vs_claims s)) \<and>
    (\<forall>e \<in> set (vs_edges s). edge_joins (vs_claims s) e) \<and>
    (\<forall>k. int (length (attempts_of k s)) \<le> bp_max_calls_per_event pol) \<and>
    (\<forall>entity day. document_count s entity day \<le> bp_max_documents_per_entity_day pol)"
  using ingest_run_ok [OF assms, of H xp]
  by (simp add: Let_def evidence_ok_def claims_ok_def calls_ok_def days_ok_def)

lemma evidence_is_cited_and_budgeted_witness:
  "vs_claims demo_evidence \<noteq> [] \<and> set (vs_claims demo_evidence) \<subseteq> {c. claim_cited flat_digest (vs_documents demo_evidence) c}"
proof -
  have b: "validate_budget default_budget = Inr ()" by code_simp
  have "\<forall>op \<in> set [demo_ingest]. extractor_valid (fst op)" by (simp add: demo_ingest_def deterministic_extractor_valid)
  note t = evidence_is_cited_and_budgeted [OF b this, of flat_digest default_expiry]
  have "vs_claims demo_evidence \<noteq> []" by code_simp
  then show ?thesis using t unfolding demo_evidence_def Let_def by blast
qed

text \<open>C29: An ingestion that raises adds no evidence: claims, contradictions and the extraction cache are as before.\<close>

theorem failed_ingest_adds_no_evidence:
  assumes "validate_budget pol = Inr ()" and "\<forall>op \<in> set ops. extractor_valid (fst op)" and "extractor_valid x"
    and "ingest H x pol xp d as_of (fold (ingest_step H pol xp) ops empty_evidence) = (Inl e, t)"
  shows "vs_claims t = vs_claims (fold (ingest_step H pol xp) ops empty_evidence) \<and>
    vs_edges t = vs_edges (fold (ingest_step H pol xp) ops empty_evidence) \<and>
    vs_cache t = vs_cache (fold (ingest_step H pol xp) ops empty_evidence)"
  using ingest_ok [OF ingest_run_ok [OF assms(1,2)] assms(3,4)] by simp

definition failing_extractor :: extractor where
  "failing_extractor = (deterministic_extractor ''d'')\<lparr>xt_extract := \<lambda>d. Inl (RuntimeError ''provider'')\<rparr>"

lemma failed_ingest_adds_no_evidence_witness:
  "\<exists>t. ingest flat_digest failing_extractor default_budget default_expiry
      (demo_document\<lparr>ed_content_hash := replicate 64 CHR ''b''\<rparr>\<lparr>ed_document_id := replicate 64 CHR ''b''\<rparr>) 7 empty_evidence
      = (Inl (RuntimeError ''provider''), t) \<and> vs_claims t = [] \<and> vs_attempts t \<noteq> []"
proof -
  let ?d = "demo_document\<lparr>ed_content_hash := replicate 64 CHR ''b''\<rparr>\<lparr>ed_document_id := replicate 64 CHR ''b''\<rparr>"
  let ?q = "ingest flat_digest failing_extractor default_budget default_expiry ?d 7 empty_evidence"
  have b: "validate_budget default_budget = Inr ()" by code_simp
  have x: "extractor_valid failing_extractor" by (simp add: extractor_valid_def failing_extractor_def)
  have e: "fst ?q = Inl (RuntimeError ''provider'')" "vs_attempts (snd ?q) \<noteq> []" by code_simp+
  then have "ingest flat_digest failing_extractor default_budget default_expiry ?d 7
      (fold (ingest_step flat_digest default_budget default_expiry) [] empty_evidence) = (Inl (RuntimeError ''provider''), snd ?q)"
    by (metis fold_simps(1) prod.collapse)
  then have "vs_claims (snd ?q) = vs_claims empty_evidence"
    using failed_ingest_adds_no_evidence [OF b _ x] by (metis empty_iff fold_simps(1) list.set(1))
  then show ?thesis using e by (intro exI [of _ "snd ?q"]) (simp add: prod_eq_iff empty_evidence_def)
qed

text \<open>C27: The past is not rewritten: ingesting a document that became available after a time \<open>t\<close>, whenever and with whatever
  extractor that happens, leaves the claims visible as of \<open>t\<close> exactly as they were.\<close>

theorem late_evidence_does_not_change_the_past:
  assumes "t < ed_available_at d"
  shows "claims_as_of t (snd (ingest H x pol xp d as_of s)) = claims_as_of t s"
  using assms by (rule claims_as_of_ingest)

lemma late_evidence_does_not_change_the_past_witness:
  "claims_as_of 4 demo_evidence = [] \<and> claims_as_of 5 demo_evidence \<noteq> []"
proof -
  have "4 < ed_available_at demo_document" by (simp add: demo_document_def)
  then have "claims_as_of 4 demo_evidence = claims_as_of 4 empty_evidence"
    using late_evidence_does_not_change_the_past [of 4 demo_document flat_digest]
    by (simp add: demo_evidence_def ingest_step_def demo_ingest_def)
  moreover have "claims_as_of 4 empty_evidence = []" "claims_as_of 5 demo_evidence \<noteq> []" by code_simp+
  ultimately show ?thesis by simp
qed

text \<open>C28: The verdict of an evidence review: a candidate is vetoed exactly when the snapshot holds a negative claim about its
  symbol, or holds no claim about it and the strategy trades events; a review that is returned binds to the candidate and
  the snapshot and cites only claims of the snapshot about that symbol.\<close>

theorem review_verdict:
  assumes "review_evidence H s snap did at = Inr review"
  shows "(er_decision review = VETO \<longleftrightarrow>
      (\<exists>c \<in> set (es_claims snap). ec_entity_id c = sg_symbol s \<and> ec_claim_type c \<in> {GUIDANCE_CUT, DEMAND_WEAKNESS, ACCOUNTING_RISK}) \<or>
      ((\<forall>c \<in> set (es_claims snap). ec_entity_id c \<noteq> sg_symbol s) \<and> sg_strategy s = ''event_continuation'')) \<and>
    er_candidate_id review = canonical_hash H (signal_doc s) \<and> er_decision_id review = did \<and>
    er_evidence_snapshot_id review = es_snapshot_id snap \<and> es_as_of snap \<le> er_reviewed_at review \<and>
    set (er_claim_ids review) \<subseteq> ec_claim_id ` {c \<in> set (es_claims snap). ec_entity_id c = sg_symbol s}"
  using assms
  by (auto simp: review_evidence_def review_outcome_def Let_def validate_review_def checks_ok filter_empty_conv negative_types_def
      split: if_splits sum.splits)

lemma review_verdict_witness:
  "\<exists>review. review_evidence flat_digest demo_signal \<lparr>es_snapshot_id = replicate 64 CHR ''a'', es_as_of = 6,
      es_claims = vs_claims demo_evidence, es_contradictions = []\<rparr> (replicate 64 CHR ''b'') 7 = Inr review \<and>
    er_decision review \<noteq> VETO \<and> er_claim_ids review \<noteq> []"
proof -
  let ?snap = "\<lparr>es_snapshot_id = replicate 64 CHR ''a'', es_as_of = 6, es_claims = vs_claims demo_evidence, es_contradictions = []\<rparr>"
  let ?r = "review_evidence flat_digest demo_signal ?snap (replicate 64 CHR ''b'') 7"
  have "case ?r of Inl e \<Rightarrow> False | Inr r \<Rightarrow> er_claim_ids r \<noteq> []" by code_simp
  then obtain r where r: "?r = Inr r" "er_claim_ids r \<noteq> []" by (auto split: sum.splits)
  have "list_all (\<lambda>c. ec_entity_id c = ''X'' \<and> ec_claim_type c = GUIDANCE_RAISE) (vs_claims demo_evidence)"
    "vs_claims demo_evidence \<noteq> []" by code_simp+
  then have "er_decision r \<noteq> VETO"
    using review_verdict [OF r(1)] by (cases "vs_claims demo_evidence") (auto simp: list_all_iff demo_signal_def)
  then show ?thesis using r by blast
qed

section \<open>Properties of the trading cycle\<close>

text \<open>C7: A trading cycle stages only vetted orders. When market data is healthy, whatever the providers, the strategies and
  the extractor answer and even when the cycle raises half way: an intent that is new in the execution store comes
  from a signal that a configured strategy answered for a symbol of the universe, on the bars and catalysts the
  provider gave; the review of that signal, under its own decision id and on the symbol's snapshot of the evidence
  store after the catalysts of the symbols up to it, is not a veto; and the intent is the plan the risk engine sized and
  approved for it with the quote, account, regime and kill switch of the cycle; without automatic submission it waits for approval and
  the outbox is untouched; the kill switch is as before and the audit ledger is only extended.\<close>

theorem cycle_stages_only_vetted_orders:
  assumes "ce_healthy E"
  shows "let t = snd (run_cycle H E as_of sys) in
    (\<forall>i \<in> staged_intents t - staged_intents sys. vetted H E (opening_view H E as_of sys) (ts_ledger sys) (ts_kill_switch sys) i) \<and>
    (\<not> rt_automatic_submission (ra_capabilities (ce_access E)) \<longrightarrow> outbox (ts_store t) = outbox (ts_store sys)) \<and>
    ts_kill_switch t = ts_kill_switch sys \<and> ledger_extends (ts_ledger sys) (ts_ledger t)"
  using run_cycle_steps [OF assms, of H as_of sys] unfolding cycle_step_def Let_def by blast

text \<open>A cycle with one symbol, sixty rising bars and a strategy that proposes the sample signal.\<close>

definition demo_bars :: "nat \<Rightarrow> trade_bar list" where
  "demo_bars k = map (\<lambda>n. \<lparr>br_symbol = ''X'', br_timestamp = int n, br_open = of_nat n, br_high = of_nat n, br_low = of_nat n,
     br_close = of_nat n, br_volume = 1000\<rparr>) [1..<k + 1]"

definition demo_env :: cycle_env where
  "demo_env = \<lparr>ce_config = demo_config, ce_config_doc = JNull, ce_access = demo_access,
     ce_extractor = deterministic_extractor ''c'', ce_budget = default_budget, ce_expiry = default_expiry,
     ce_provider_name = ''fixture'', ce_healthy = True, ce_bars = (\<lambda>x. Inr (demo_bars (if x = ''X'' then 20 else 60))), ce_quote = (\<lambda>_. Inr demo_quote),
     ce_catalysts = (\<lambda>_ _. Inr []), ce_strategies = [\<lambda>_ _ _ _ _. Inr (Some demo_signal)], ce_str = (\<lambda>_. []), ce_clock = 1\<rparr>"

definition demo_system :: trading_system where
  "demo_system = \<lparr>ts_broker = new_paper_broker 100000 demo_execution, ts_ledger = empty_ledger, ts_evidence = empty_evidence,
     ts_store = unfrozen_store, ts_kill_switch = new_kill_switch, ts_cycle_count = 0, ts_last_regime = None,
     ts_last_signals = [], ts_last_orders = []\<rparr>"

declare option.pred_inject [code]

definition demo_context :: cycle_context where
  "demo_context = \<lparr>cx_now = 1, cx_symbol = ''X'', cx_bars = demo_bars 20, cx_quote = demo_quote, cx_regime = demo_regime,
     cx_account = demo_account, cx_evidence = \<lparr>es_snapshot_id = replicate 64 CHR ''a'', es_as_of = 1, es_claims = [],
       es_contradictions = []\<rparr>, cx_market_snapshot_id = replicate 64 CHR ''a''\<rparr>"

text \<open>The sample signal is approved and staged.\<close>

lemma demo_signal_staged:
  "map xi_quantity (map iw_intent (intents (ts_store (snd (handle_signal flat_digest demo_env demo_context demo_signal demo_system)))))
   = [500]"
  by code_simp

lemma cycle_stages_only_vetted_orders_witness:
  "staged_intents (snd (run_cycle flat_digest demo_env (Some 1) demo_system)) \<subseteq>
      {i. xi_status i = XS_APPROVAL_PENDING \<and> xi_instrument_id i = ''X''} \<and>
   outbox (ts_store (snd (run_cycle flat_digest demo_env (Some 1) demo_system))) = []"
proof -
  have "ce_healthy demo_env" by (simp add: demo_env_def)
  note t = cycle_stages_only_vetted_orders [OF this, of flat_digest "Some 1" demo_system]
  have "staged_intents demo_system = {}" "outbox (ts_store demo_system) = []"
    by (simp_all add: staged_intents_def demo_system_def unfrozen_store_def empty_store_def)
  moreover have "\<not> rt_automatic_submission (ra_capabilities (ce_access demo_env))" "cf_universe (ce_config demo_env) = [''X'']"
    by (simp_all add: demo_env_def demo_access_def demo_config_def)
  ultimately show ?thesis using t vetted_in_universe by (fastforce simp: Let_def vetted_def vetted_in_def)
qed

text \<open>C15: A frozen kill switch stops new orders: while it is frozen no cycle stages an intent, and a cycle that finds the
  market data unhealthy freezes it with that reason and changes nothing else but the cycle counter.\<close>

theorem frozen_kill_switch_stages_nothing:
  "(ks_frozen (ts_kill_switch sys) \<longrightarrow> staged_intents (snd (run_cycle H E as_of sys)) \<subseteq> staged_intents sys) \<and>
   (\<not> ce_healthy E \<longrightarrow> run_cycle H E as_of sys = (Inr (Cycle_Frozen ''market_data_unhealthy''),
      sys\<lparr>ts_cycle_count := Suc (ts_cycle_count sys),
        ts_kill_switch := ks_freeze ''market_data_unhealthy'' (ts_kill_switch sys)\<rparr>))"
proof (intro conjI impI)
  assume "\<not> ce_healthy E"
  then show "run_cycle H E as_of sys = (Inr (Cycle_Frozen ''market_data_unhealthy''),
      sys\<lparr>ts_cycle_count := Suc (ts_cycle_count sys),
        ts_kill_switch := ks_freeze ''market_data_unhealthy'' (ts_kill_switch sys)\<rparr>)"
    by (simp add: run_cycle_def Let_def ks_freeze_def)
next
  assume frozen: "ks_frozen (ts_kill_switch sys)"
  show "staged_intents (snd (run_cycle H E as_of sys)) \<subseteq> staged_intents sys"
  proof (cases "ce_healthy E")
    case True
    have "\<not> vetted H E v l (ts_kill_switch sys) i" for v l i
      using frozen by (auto simp: vetted_def vetted_in_def approved_plan_def dest!: evaluate_reasons(1) simp: risk_rules_def
          split: prod.splits)
    then show ?thesis using run_cycle_steps [OF True, of H as_of sys] by (auto simp: cycle_step_def)
  next
    case False
    then show ?thesis by (simp add: run_cycle_def Let_def staged_intents_def)
  qed
qed

lemma frozen_kill_switch_stages_nothing_witness:
  "staged_intents (snd (run_cycle flat_digest demo_env (Some 1) (demo_system\<lparr>ts_kill_switch := ks_freeze ''halt'' new_kill_switch\<rparr>))) = {}"
proof -
  let ?s = "demo_system\<lparr>ts_kill_switch := ks_freeze ''halt'' new_kill_switch\<rparr>"
  have "ks_frozen (ts_kill_switch ?s)" "staged_intents ?s = {}"
    by (simp_all add: ks_freeze_def staged_intents_def demo_system_def unfrozen_store_def empty_store_def)
  then show ?thesis using frozen_kill_switch_stages_nothing [of ?s flat_digest demo_env "Some 1"] by simp
qed

end
