(* ===== verification/Trial_Models.thy ===== *)
theory Trial_Models
  imports Sim_Engine
begin

section \<open>Experiments and protocols\<close>

text \<open>
  \<open>src/hanalpha/research/protocol.py\<close>, \<open>src/hanalpha/experiments/models.py\<close> and the metrics record of
  \<open>src/hanalpha/metrics/portfolio.py\<close>: preregistered protocols, trial allocations, manifests, trial events and
  results, with their validators and the documents their hashes are taken of. A document hashed with
  \<open>exclude_none\<close> leaves out absent fields. Parameters and metadata are JSON objects.
\<close>

definition present :: "string \<Rightarrow> ('a \<Rightarrow> json) \<Rightarrow> 'a option \<Rightarrow> (string \<times> json) list" where
  "present k f x = (case x of None \<Rightarrow> [] | Some v \<Rightarrow> [(k, f v)])"

subsection \<open>Protocols\<close>

record date_window =
  dw_start :: time
  dw_end :: time

definition validate_window :: "date_window \<Rightarrow> unit res" where
  "validate_window w = checks [(dw_start w < dw_end w, ValueError ''window end must follow start'')]"

definition window_doc :: "date_window \<Rightarrow> json" where
  "window_doc w = JObj [(''start'', JTime (dw_start w)), (''end'', JTime (dw_end w))]"

record parameter_range =
  pg_low :: rat
  pg_high :: rat

definition validate_range :: "parameter_range \<Rightarrow> unit res" where
  "validate_range r = checks [(pg_low r \<le> pg_high r, ValueError ''parameter range high must not be below low'')]"

definition range_doc :: "parameter_range \<Rightarrow> json" where
  "range_doc r = JObj [(''low'', JNum (pg_low r)), (''high'', JNum (pg_high r))]"

record research_budget =
  rb_max_trials :: int
  rb_used_trials :: int

definition validate_research_budget :: "research_budget \<Rightarrow> unit res" where
  "validate_research_budget b = checks
     [(rb_max_trials b > 0, ValueError ''max_trials''), (rb_used_trials b \<ge> 0, ValueError ''used_trials''),
      (rb_used_trials b \<le> rb_max_trials b, ValueError ''used trials exceed research budget'')]"

definition remaining_trials :: "research_budget \<Rightarrow> int" where
  "remaining_trials b = rb_max_trials b - rb_used_trials b"

record success_criteria =
  sc_minimum_oos_return :: rat
  sc_maximum_drawdown :: rat
  sc_minimum_dsr_probability :: rat
  sc_maximum_pbo :: rat
  sc_minimum_cost_stress_return :: rat
  sc_maximum_contribution_share :: rat
  sc_minimum_observations :: int
  sc_minimum_fills :: int
  sc_minimum_time_in_market :: rat
  sc_minimum_benchmark_excess_return :: rat

definition validate_success :: "success_criteria \<Rightarrow> unit res" where
  "validate_success c = checks
     [(sc_maximum_drawdown c \<ge> 0, ValueError ''maximum_drawdown''),
      (0 \<le> sc_minimum_dsr_probability c \<and> sc_minimum_dsr_probability c \<le> 1, ValueError ''minimum_dsr_probability''),
      (0 \<le> sc_maximum_pbo c \<and> sc_maximum_pbo c \<le> 1, ValueError ''maximum_pbo''),
      (0 < sc_maximum_contribution_share c \<and> sc_maximum_contribution_share c \<le> 1, ValueError ''maximum_contribution_share''),
      (sc_minimum_observations c \<ge> 30, ValueError ''minimum_observations''), (sc_minimum_fills c \<ge> 2, ValueError ''minimum_fills''),
      (0 < sc_minimum_time_in_market c \<and> sc_minimum_time_in_market c \<le> 1, ValueError ''minimum_time_in_market'')]"

definition success_doc :: "success_criteria \<Rightarrow> json" where
  "success_doc c = JObj [(''minimum_oos_return'', JNum (sc_minimum_oos_return c)),
     (''maximum_drawdown'', JNum (sc_maximum_drawdown c)), (''minimum_dsr_probability'', JNum (sc_minimum_dsr_probability c)),
     (''maximum_pbo'', JNum (sc_maximum_pbo c)), (''minimum_cost_stress_return'', JNum (sc_minimum_cost_stress_return c)),
     (''maximum_contribution_share'', JNum (sc_maximum_contribution_share c)),
     (''minimum_observations'', JInt (sc_minimum_observations c)), (''minimum_fills'', JInt (sc_minimum_fills c)),
     (''minimum_time_in_market'', JNum (sc_minimum_time_in_market c)),
     (''minimum_benchmark_excess_return'', JNum (sc_minimum_benchmark_excess_return c))]"

record research_protocol =
  pp_name :: string
  pp_version :: string
  pp_researcher_id :: string
  pp_hypothesis :: string
  pp_snapshot_id :: string
  pp_universe_hash :: string
  pp_feature_schema_hash :: string
  pp_cost_policy_hash :: string
  pp_train :: date_window
  pp_validation :: date_window
  pp_test :: date_window
  pp_parameter_ranges :: "(string \<times> parameter_range) list"
  pp_success :: success_criteria
  pp_budget :: research_budget
  pp_benchmarks :: "string list"
  pp_purge_bars :: int
  pp_embargo_bars :: int

text \<open>The fields are validated before \<open>validate_windows\<close> runs.\<close>

definition protocol_parts :: "research_protocol \<Rightarrow> unit res list" where
  "protocol_parts p = [validate_window (pp_train p), validate_window (pp_validation p), validate_window (pp_test p),
     validate_success (pp_success p), validate_research_budget (pp_budget p)] @ map (validate_range \<circ> snd) (pp_parameter_ranges p)"

definition validate_protocol :: "research_protocol \<Rightarrow> unit res" where
  "validate_protocol p = checks
     [(list_all (\<lambda>r. r = Inr ()) (protocol_parts p), ValueError ''PreregisteredProtocol''),
      (pp_name p \<noteq> [] \<and> pp_version p \<noteq> [] \<and> pp_researcher_id p \<noteq> [] \<and> pp_hypothesis p \<noteq> [], ValueError ''min_length''),
      (hash_pattern (pp_snapshot_id p) \<and> hash_pattern (pp_universe_hash p) \<and> hash_pattern (pp_feature_schema_hash p) \<and>
       hash_pattern (pp_cost_policy_hash p), ValueError ''pattern''),
      (pp_purge_bars p \<ge> 0 \<and> pp_embargo_bars p \<ge> 0, ValueError ''bars''),
      (dw_end (pp_train p) < dw_start (pp_validation p) \<and> dw_end (pp_validation p) < dw_start (pp_test p),
       ValueError ''train, validation and test windows must not overlap''),
      (pp_benchmarks p \<noteq> [], ValueError ''at least one benchmark is required'')]"

text \<open>The payload of \<open>protocol_hash\<close>: the dump without \<open>budget.used_trials\<close>.\<close>

definition protocol_doc :: "research_protocol \<Rightarrow> json" where
  "protocol_doc p = JObj [(''name'', JStr (pp_name p)), (''version'', JStr (pp_version p)),
     (''researcher_id'', JStr (pp_researcher_id p)), (''hypothesis'', JStr (pp_hypothesis p)),
     (''snapshot_id'', JStr (pp_snapshot_id p)), (''universe_hash'', JStr (pp_universe_hash p)),
     (''feature_schema_hash'', JStr (pp_feature_schema_hash p)), (''cost_policy_hash'', JStr (pp_cost_policy_hash p)),
     (''train'', window_doc (pp_train p)), (''validation'', window_doc (pp_validation p)), (''test'', window_doc (pp_test p)),
     (''parameter_ranges'', JObj (map (\<lambda>(k, r). (k, range_doc r)) (pp_parameter_ranges p))),
     (''success'', success_doc (pp_success p)),
     (''budget'', JObj [(''max_trials'', JInt (rb_max_trials (pp_budget p)))]),
     (''benchmarks'', JArr (map JStr (pp_benchmarks p))), (''purge_bars'', JInt (pp_purge_bars p)),
     (''embargo_bars'', JInt (pp_embargo_bars p))]"

definition protocol_hash :: "(json \<Rightarrow> string) \<Rightarrow> research_protocol \<Rightarrow> string" where
  "protocol_hash H p = canonical_hash H (protocol_doc p)"

definition research_program_id :: "(json \<Rightarrow> string) \<Rightarrow> research_protocol \<Rightarrow> string" where
  "research_program_id H p = canonical_hash H (JObj [(''name'', JStr (pp_name p)), (''researcher_id'', JStr (pp_researcher_id p)),
     (''hypothesis'', JStr (pp_hypothesis p)), (''snapshot_id'', JStr (pp_snapshot_id p)),
     (''universe_hash'', JStr (pp_universe_hash p)), (''feature_schema_hash'', JStr (pp_feature_schema_hash p))])"

definition consume_trial :: "research_protocol \<Rightarrow> research_protocol res" where
  "consume_trial p =
     (if remaining_trials (pp_budget p) \<le> 0 then Inl (RuntimeError ''research budget exhausted'')
      else let q = p\<lparr>pp_budget := (pp_budget p)\<lparr>rb_used_trials := rb_used_trials (pp_budget p) + 1\<rparr>\<rparr>
           in case validate_protocol q of Inl e \<Rightarrow> Inl e | Inr _ \<Rightarrow> Inr q)"

subsection \<open>Trials\<close>

datatype trial_status = TS_REGISTERED | TS_RUNNING | TS_COMPLETED | TS_FAILED | TS_ABORTED | TS_PROMOTED

definition trial_status_value :: "trial_status \<Rightarrow> string" where
  "trial_status_value s = (case s of TS_REGISTERED \<Rightarrow> ''registered'' | TS_RUNNING \<Rightarrow> ''running''
     | TS_COMPLETED \<Rightarrow> ''completed'' | TS_FAILED \<Rightarrow> ''failed'' | TS_ABORTED \<Rightarrow> ''aborted'' | TS_PROMOTED \<Rightarrow> ''promoted'')"

datatype window_role = WR_TRAIN | WR_VALIDATION | WR_TEST | WR_COUNTERFACTUAL

definition window_role_value :: "window_role \<Rightarrow> string" where
  "window_role_value r = (case r of WR_TRAIN \<Rightarrow> ''train'' | WR_VALIDATION \<Rightarrow> ''validation'' | WR_TEST \<Rightarrow> ''test''
     | WR_COUNTERFACTUAL \<Rightarrow> ''counterfactual'')"

record trial_allocation =
  ta_allocation_id :: string
  ta_protocol_hash :: string
  ta_research_program_id :: string
  ta_trial_number :: int
  ta_parameter_point_hash :: string
  ta_window_role :: window_role
  ta_allocated_at :: time
  ta_experiment_id :: "string option"

definition opt_hash :: "string option \<Rightarrow> bool" where
  "opt_hash x = (case x of None \<Rightarrow> True | Some h \<Rightarrow> hash_pattern h)"

definition validate_allocation :: "trial_allocation \<Rightarrow> unit res" where
  "validate_allocation a = checks
     [(hash_pattern (ta_allocation_id a), ValueError ''allocation_id''), (hash_pattern (ta_protocol_hash a), ValueError ''protocol_hash''),
      (hash_pattern (ta_research_program_id a), ValueError ''research_program_id''), (ta_trial_number a > 0, ValueError ''trial_number''),
      (hash_pattern (ta_parameter_point_hash a), ValueError ''parameter_point_hash''), (opt_hash (ta_experiment_id a), ValueError ''experiment_id'')]"

record experiment_manifest =
  em_snapshot_id :: string
  em_code_hash :: string
  em_config_hash :: string
  em_cost_policy_hash :: string
  em_universe_hash :: string
  em_metric_schema_version :: string
  em_seed :: int
  em_strategy_id :: string
  em_strategy_version :: string
  em_hypothesis :: string
  em_parameters :: "(string \<times> json) list"
  em_counterfactual_of :: "string option"
  em_protocol_hash :: string
  em_trial_allocation_id :: string
  em_parameter_point_hash :: string
  em_window_role :: window_role
  em_research_program_id :: string

definition validate_manifest :: "(json \<Rightarrow> string) \<Rightarrow> experiment_manifest \<Rightarrow> unit res" where
  "validate_manifest H m = checks
     [(list_all hash_pattern [em_snapshot_id m, em_code_hash m, em_config_hash m, em_cost_policy_hash m, em_universe_hash m,
         em_protocol_hash m, em_trial_allocation_id m, em_parameter_point_hash m, em_research_program_id m],
       ValueError ''pattern''),
      (em_hypothesis m \<noteq> [], ValueError ''hypothesis''), (opt_hash (em_counterfactual_of m), ValueError ''counterfactual_of''),
      (em_parameter_point_hash m = canonical_hash H (JObj (em_parameters m)),
       ValueError ''parameter_point_hash does not match parameters'')]"

definition manifest_doc :: "experiment_manifest \<Rightarrow> json" where
  "manifest_doc m = JObj ([(''snapshot_id'', JStr (em_snapshot_id m)), (''code_hash'', JStr (em_code_hash m)),
     (''config_hash'', JStr (em_config_hash m)), (''cost_policy_hash'', JStr (em_cost_policy_hash m)),
     (''universe_hash'', JStr (em_universe_hash m)), (''metric_schema_version'', JStr (em_metric_schema_version m)),
     (''seed'', JInt (em_seed m)), (''strategy_id'', JStr (em_strategy_id m)),
     (''strategy_version'', JStr (em_strategy_version m)), (''hypothesis'', JStr (em_hypothesis m)),
     (''parameters'', JObj (em_parameters m))]
     @ present ''counterfactual_of'' JStr (em_counterfactual_of m) @
     [(''protocol_hash'', JStr (em_protocol_hash m)), (''trial_allocation_id'', JStr (em_trial_allocation_id m)),
      (''parameter_point_hash'', JStr (em_parameter_point_hash m)),
      (''window_role'', JStr (window_role_value (em_window_role m))),
      (''research_program_id'', JStr (em_research_program_id m))])"

definition experiment_id :: "(json \<Rightarrow> string) \<Rightarrow> experiment_manifest \<Rightarrow> string" where
  "experiment_id H m = canonical_hash H (manifest_doc m)"

record trial_event =
  te_sequence :: int
  te_experiment_id :: string
  te_status :: trial_status
  te_occurred_at :: time
  te_result_hash :: "string option"
  te_failure_reason :: "string option"
  te_metadata :: "(string \<times> json) list"

definition validate_trial_event :: "trial_event \<Rightarrow> unit res" where
  "validate_trial_event e = checks
     [(te_sequence e \<ge> 1, ValueError ''sequence''), (hash_pattern (te_experiment_id e), ValueError ''experiment_id''),
      (opt_hash (te_result_hash e), ValueError ''result_hash''),
      (te_status e = TS_FAILED \<longrightarrow> te_failure_reason e \<notin> {None, Some []}, ValueError ''failed trial requires failure_reason''),
      (te_status e = TS_COMPLETED \<longrightarrow> te_result_hash e \<noteq> None, ValueError ''completed trial requires result_hash'')]"

record trial_view =
  tv_experiment_id :: string
  tv_manifest :: experiment_manifest
  tv_status :: trial_status
  tv_failure_reason :: "string option"
  tv_result_hash :: "string option"
  tv_event_count :: int

record artifact_digest =
  gd_name :: string
  gd_sha256 :: string
  gd_size :: int

record artifact_record =
  gr_experiment_id :: string
  gr_digest :: artifact_digest
  gr_relative_path :: string
  gr_created_at :: time

text \<open>\<open>path.replace("\\", "/")\<close> and \<open>path.split("/")\<close>.\<close>

definition slashed :: "string \<Rightarrow> string" where
  "slashed p = map (\<lambda>c. if c = CHR 0x5C then CHR ''/'' else c) p"

fun path_parts :: "string \<Rightarrow> string list" where
  "path_parts [] = [[]]"
| "path_parts (c # cs) =
     (if c = CHR ''/'' then [] # path_parts cs
      else case path_parts cs of [] \<Rightarrow> [[c]] | p # ps \<Rightarrow> (c # p) # ps)"

definition validate_artifact :: "artifact_record \<Rightarrow> unit res" where
  "validate_artifact r = checks
     [(hash_pattern (gr_experiment_id r), ValueError ''experiment_id''), (hash_pattern (gd_sha256 (gr_digest r)), ValueError ''sha256''),
      (gd_size (gr_digest r) \<ge> 0, ValueError ''size''), (gr_relative_path r \<noteq> [], ValueError ''relative_path''),
      (take 1 (slashed (gr_relative_path r)) \<noteq> ''/'' \<and> ''..'' \<notin> set (path_parts (slashed (gr_relative_path r))),
       ValueError ''relative_path must stay within the artifact root'')]"

subsection \<open>Results\<close>

record portfolio_metrics =
  mt_total_return :: rat
  mt_max_drawdown :: rat
  mt_turnover :: rat
  mt_average_gross_exposure :: rat
  mt_time_weighted_exposure_ratio :: rat
  mt_time_in_market :: rat
  mt_ending_equity :: rat
  mt_observations :: int
  mt_annualized_return :: "rat option"
  mt_annualized_volatility :: "rat option"
  mt_sharpe_ratio :: "rat option"
  mt_sortino_ratio :: "rat option"
  mt_calmar_ratio :: "rat option"
  mt_expected_shortfall_95 :: "rat option"
  mt_time_under_water :: rat

definition metrics_doc :: "portfolio_metrics \<Rightarrow> json" where
  "metrics_doc m = JObj ([(''total_return'', JNum (mt_total_return m)), (''max_drawdown'', JNum (mt_max_drawdown m)),
     (''turnover'', JNum (mt_turnover m)), (''average_gross_exposure'', JNum (mt_average_gross_exposure m)),
     (''time_weighted_exposure_ratio'', JNum (mt_time_weighted_exposure_ratio m)),
     (''time_in_market'', JNum (mt_time_in_market m)), (''ending_equity'', JNum (mt_ending_equity m)),
     (''observations'', JInt (mt_observations m))]
     @ present ''annualized_return'' JNum (mt_annualized_return m) @ present ''annualized_volatility'' JNum (mt_annualized_volatility m)
     @ present ''sharpe_ratio'' JNum (mt_sharpe_ratio m) @ present ''sortino_ratio'' JNum (mt_sortino_ratio m)
     @ present ''calmar_ratio'' JNum (mt_calmar_ratio m) @ present ''expected_shortfall_95'' JNum (mt_expected_shortfall_95 m)
     @ [(''time_under_water'', JNum (mt_time_under_water m))])"

definition journal_account_value :: "journal_account \<Rightarrow> string" where
  "journal_account_value a = (case a of CASH \<Rightarrow> ''cash'' | OPENING_EQUITY \<Rightarrow> ''opening_equity''
     | POSITIONS_AT_COST \<Rightarrow> ''positions_at_cost'' | COMMISSION_EXPENSE \<Rightarrow> ''commission_expense''
     | REALIZED_PNL \<Rightarrow> ''realized_pnl'' | DIVIDEND_INCOME \<Rightarrow> ''dividend_income'')"

definition journal_doc :: "journal_entry \<Rightarrow> json" where
  "journal_doc e = JObj [(''event_id'', JStr (je_event_id e)), (''at'', JTime (je_at e)), (''reason'', JStr (je_reason e)),
     (''lines'', JArr (map (\<lambda>l. JObj [(''account'', JStr (journal_account_value (jl_account l))), (''debit'', JNum (jl_debit l)),
        (''credit'', JNum (jl_credit l))]) (je_lines e)))]"

definition cash_doc :: "cash_entry \<Rightarrow> json" where
  "cash_doc e = JObj [(''event_id'', JStr (ce_event_id e)), (''at'', JTime (ce_at e)), (''amount'', JNum (ce_amount e)),
     (''reason'', JStr (ce_reason e)), (''reference_id'', JStr (ce_reference_id e))]"

definition lot_doc :: "position_lot \<Rightarrow> json" where
  "lot_doc l = JObj [(''lot_id'', JStr (pl_lot_id l)), (''instrument_id'', JStr (pl_instrument_id l)),
     (''opened_at'', JTime (pl_opened_at l)), (''original_quantity'', JNum (pl_original_quantity l)),
     (''remaining_quantity'', JNum (pl_remaining_quantity l)), (''unit_cost'', JNum (pl_unit_cost l)),
     (''risk_per_share'', JNum (pl_risk_per_share l))]"

record experiment_result =
  xt_experiment_id :: string
  xt_event_hash :: string
  xt_equity_hash :: string
  xt_metrics :: portfolio_metrics
  xt_equity_points :: "equity_point list"
  xt_fill_count :: int
  xt_journal_entries :: "journal_entry list"
  xt_cash_entries :: "cash_entry list"
  xt_position_lots :: "position_lot list"

definition result_doc :: "experiment_result \<Rightarrow> json" where
  "result_doc r = JObj [(''experiment_id'', JStr (xt_experiment_id r)), (''event_hash'', JStr (xt_event_hash r)),
     (''equity_hash'', JStr (xt_equity_hash r)), (''metrics'', metrics_doc (xt_metrics r)),
     (''equity_points'', JArr (map equity_doc (xt_equity_points r))), (''fill_count'', JInt (xt_fill_count r)),
     (''journal_entries'', JArr (map journal_doc (xt_journal_entries r))),
     (''cash_entries'', JArr (map cash_doc (xt_cash_entries r))), (''position_lots'', JArr (map lot_doc (xt_position_lots r)))]"

definition result_hash :: "(json \<Rightarrow> string) \<Rightarrow> experiment_result \<Rightarrow> string" where
  "result_hash H r = canonical_hash H (result_doc r)"

end
