(* ===== verification/Trial_Registry.thy ===== *)
theory Trial_Registry
  imports Trial_Models
begin

section \<open>Experiment registry\<close>

text \<open>
  \<open>src/hanalpha/experiments/registry.py\<close>: the tables of \<open>ExperimentRegistry\<close> as lists of rows, one definition
  per method, and the invariant of the registry: the budget of a protocol, the one-to-one link between
  experiments and trial allocations, and the life of a trial. A stored JSON text is the document it parses
  back to; two texts are equal exactly when the documents with sorted keys are. The autoincrement sequence
  of an event is its position in the table. The column added to old databases is not modelled (a fresh
  database).
\<close>

record protocol_row =
  pr_protocol_hash :: string
  pr_program_id :: string
  pr_protocol :: research_protocol
  pr_max_trials :: int

record allocation_row =
  aw_allocation :: trial_allocation
  aw_idempotency_key :: string

record trial_registry =
  tr_protocols :: "protocol_row list"
  tr_experiments :: "(string \<times> experiment_manifest) list"
  tr_allocations :: "allocation_row list"
  tr_events :: "trial_event list"
  tr_artifacts :: "artifact_record list"

definition empty_registry :: trial_registry where
  "empty_registry = \<lparr>tr_protocols = [], tr_experiments = [], tr_allocations = [], tr_events = [], tr_artifacts = []\<rparr>"

definition allowed_next :: "trial_status \<Rightarrow> trial_status list" where
  "allowed_next s = (case s of TS_REGISTERED \<Rightarrow> [TS_RUNNING, TS_ABORTED]
     | TS_RUNNING \<Rightarrow> [TS_COMPLETED, TS_FAILED, TS_ABORTED] | _ \<Rightarrow> [])"

subsection \<open>Protocols\<close>

definition unused_protocol :: "research_protocol \<Rightarrow> research_protocol" where
  "unused_protocol p = p\<lparr>pp_budget := (pp_budget p)\<lparr>rb_used_trials := 0\<rparr>\<rparr>"

definition register_protocol ::
  "(json \<Rightarrow> string) \<Rightarrow> research_protocol \<Rightarrow> trial_registry \<Rightarrow> string res \<times> trial_registry" where
  "register_protocol H p s =
     (let frozen = unused_protocol p; ph = protocol_hash H p in
      case lookup pr_protocol_hash ph (tr_protocols s) of
        Some row \<Rightarrow>
          if sort_keys (protocol_doc (pr_protocol row)) \<noteq> sort_keys (protocol_doc frozen)
          then (Inl (RuntimeError ''protocol hash collision''), s) else (Inr ph, s)
      | None \<Rightarrow> (Inr ph, s\<lparr>tr_protocols := tr_protocols s @ [\<lparr>pr_protocol_hash = ph,
          pr_program_id = research_program_id H p, pr_protocol = frozen, pr_max_trials = rb_max_trials (pp_budget p)\<rparr>]\<rparr>))"

definition protocol_of :: "string \<Rightarrow> trial_registry \<Rightarrow> research_protocol res" where
  "protocol_of ph s = (case lookup pr_protocol_hash ph (tr_protocols s) of None \<Rightarrow> Inl (KeyError ph)
     | Some r \<Rightarrow> (case validate_protocol (pr_protocol r) of Inl e \<Rightarrow> Inl e | Inr _ \<Rightarrow> Inr (pr_protocol r)))"

subsection \<open>Allocations\<close>

definition allocation_of :: "string \<Rightarrow> trial_registry \<Rightarrow> trial_allocation res" where
  "allocation_of aid s = (case List.find (\<lambda>r. ta_allocation_id (aw_allocation r) = aid) (tr_allocations s) of
       None \<Rightarrow> Inl (KeyError aid)
     | Some r \<Rightarrow> (case validate_allocation (aw_allocation r) of Inl e \<Rightarrow> Inl e | Inr _ \<Rightarrow> Inr (aw_allocation r)))"

definition trials_of :: "string \<Rightarrow> trial_registry \<Rightarrow> allocation_row list" where
  "trials_of ph s = filter (\<lambda>r. ta_protocol_hash (aw_allocation r) = ph) (tr_allocations s)"

definition allocation_clash :: "allocation_row \<Rightarrow> allocation_row \<Rightarrow> bool" where
  "allocation_clash new r \<longleftrightarrow> ta_allocation_id (aw_allocation r) = ta_allocation_id (aw_allocation new) \<or>
     (ta_protocol_hash (aw_allocation r) = ta_protocol_hash (aw_allocation new) \<and>
      (ta_trial_number (aw_allocation r) = ta_trial_number (aw_allocation new) \<or>
       aw_idempotency_key r = aw_idempotency_key new))"

definition allocation_id_doc :: "string \<Rightarrow> int \<Rightarrow> string \<Rightarrow> window_role \<Rightarrow> string \<Rightarrow> json" where
  "allocation_id_doc ph n point role key = JObj [(''protocol_hash'', JStr ph), (''trial_number'', JInt n),
     (''parameter_point_hash'', JStr point), (''window_role'', JStr (window_role_value role)), (''idempotency_key'', JStr key)]"

definition new_allocation ::
  "(json \<Rightarrow> string) \<Rightarrow> protocol_row \<Rightarrow> int \<Rightarrow> string \<Rightarrow> window_role \<Rightarrow> string \<Rightarrow> time \<Rightarrow> allocation_row" where
  "new_allocation H p n point role key at =
     \<lparr>aw_allocation = \<lparr>ta_allocation_id = canonical_hash H (allocation_id_doc (pr_protocol_hash p) n point role key),
        ta_protocol_hash = pr_protocol_hash p, ta_research_program_id = pr_program_id p, ta_trial_number = n,
        ta_parameter_point_hash = point, ta_window_role = role, ta_allocated_at = at, ta_experiment_id = None\<rparr>,
      aw_idempotency_key = key\<rparr>"

definition allocate_body ::
  "(json \<Rightarrow> string) \<Rightarrow> string \<Rightarrow> string \<Rightarrow> window_role \<Rightarrow> string \<Rightarrow> time \<Rightarrow> trial_registry \<Rightarrow> string res \<times> trial_registry" where
  "allocate_body H ph point role key at s =
     (case lookup pr_protocol_hash ph (tr_protocols s) of
        None \<Rightarrow> (Inl (KeyError ''protocol is not registered''), s)
      | Some p \<Rightarrow>
        (case List.find (\<lambda>r. ta_protocol_hash (aw_allocation r) = ph \<and> aw_idempotency_key r = key) (tr_allocations s) of
           Some r \<Rightarrow>
             if ta_parameter_point_hash (aw_allocation r) \<noteq> point \<or> ta_window_role (aw_allocation r) \<noteq> role
             then (Inl (RuntimeError ''idempotency key conflicts with trial definition''), s)
             else (Inr (ta_allocation_id (aw_allocation r)), s)
         | None \<Rightarrow>
             let count = int (length (trials_of ph s)); row = new_allocation H p (count + 1) point role key at in
             if count \<ge> pr_max_trials p then (Inl (RuntimeError ''research budget exhausted''), s)
             else if list_ex (allocation_clash row) (tr_allocations s) then (Inl IntegrityError, s)
             else (Inr (ta_allocation_id (aw_allocation row)), s\<lparr>tr_allocations := tr_allocations s @ [row]\<rparr>)))"

definition allocate_trial ::
  "(json \<Rightarrow> string) \<Rightarrow> string \<Rightarrow> (string \<times> json) list \<Rightarrow> window_role \<Rightarrow> string \<Rightarrow> time \<Rightarrow> trial_registry \<Rightarrow>
   trial_allocation res \<times> trial_registry" where
  "allocate_trial H ph parameters role key at s =
     (if blank_text key then (Inl (ValueError ''idempotency_key must not be blank''), s)
      else and_then (transaction (allocate_body H ph (canonical_hash H (JObj parameters)) role key at) s)
             (\<lambda>aid t. (allocation_of aid t, t)))"

subsection \<open>Experiments and their events\<close>

definition trial_history :: "string \<Rightarrow> trial_registry \<Rightarrow> trial_event list" where
  "trial_history eid s = filter (\<lambda>e. te_experiment_id e = eid) (tr_events s)"

definition append_trial ::
  "string \<Rightarrow> trial_status \<Rightarrow> time \<Rightarrow> string option \<Rightarrow> string option \<Rightarrow> (string \<times> json) list \<Rightarrow> trial_registry \<Rightarrow>
   unit res \<times> trial_registry" where
  "append_trial eid status at rh reason metadata s =
     (let e = \<lparr>te_sequence = 1, te_experiment_id = eid, te_status = status, te_occurred_at = at, te_result_hash = rh,
               te_failure_reason = reason, te_metadata = metadata\<rparr> in
      case validate_trial_event e of
        Inl x \<Rightarrow> (Inl x, s)
      | Inr _ \<Rightarrow> (Inr (), s\<lparr>tr_events := tr_events s @ [e\<lparr>te_sequence := int (length (tr_events s)) + 1\<rparr>]\<rparr>))"

text \<open>The transaction of \<open>register\<close>; a second row of the unique column \<open>experiment_id\<close> is an integrity error.\<close>

definition register_body ::
  "string \<Rightarrow> experiment_manifest \<Rightarrow> time \<Rightarrow> trial_registry \<Rightarrow> string res \<times> trial_registry" where
  "register_body eid m at s =
     (let free = (\<lambda>r. ta_allocation_id (aw_allocation r) = em_trial_allocation_id m \<and> ta_experiment_id (aw_allocation r) = None);
          t = s\<lparr>tr_experiments := tr_experiments s @ [(eid, m)],
                tr_allocations := update_where free
                  (\<lambda>r. r\<lparr>aw_allocation := (aw_allocation r)\<lparr>ta_experiment_id := Some eid\<rparr>\<rparr>) (tr_allocations s)\<rparr> in
      if list_ex (\<lambda>r. ta_experiment_id (aw_allocation r) = Some eid) (tr_allocations s) \<and> list_ex free (tr_allocations s)
      then (Inl IntegrityError, s)
      else if length (filter free (tr_allocations s)) \<noteq> 1
      then (Inl (RuntimeError ''trial allocation was consumed concurrently''), s)
      else and_then (append_trial eid TS_REGISTERED at None None [] t) (\<lambda>_ u. (Inr eid, u)))"

definition register_experiment ::
  "(json \<Rightarrow> string) \<Rightarrow> experiment_manifest \<Rightarrow> time \<Rightarrow> trial_registry \<Rightarrow> string res \<times> trial_registry" where
  "register_experiment H m at s =
     (case allocation_of (em_trial_allocation_id m) s of
        Inl e \<Rightarrow> (Inl e, s)
      | Inr a \<Rightarrow>
        let eid = experiment_id H m in
        if ta_experiment_id a \<noteq> None \<and> ta_experiment_id a \<noteq> Some eid
        then (Inl (RuntimeError ''trial allocation already consumed''), s)
        else if ta_protocol_hash a \<noteq> em_protocol_hash m \<or> ta_research_program_id a \<noteq> em_research_program_id m \<or>
          ta_parameter_point_hash a \<noteq> em_parameter_point_hash m \<or> ta_window_role a \<noteq> em_window_role m
        then (Inl (RuntimeError ''manifest does not match trial allocation''), s)
        else if (case em_counterfactual_of m of None \<Rightarrow> False | Some c \<Rightarrow> lookup fst c (tr_experiments s) = None)
        then (Inl (KeyError ''counterfactual parent is not registered''), s)
        else case lookup fst eid (tr_experiments s) of
          Some row \<Rightarrow>
            if sort_keys (manifest_doc (snd row)) \<noteq> sort_keys (manifest_doc m)
            then (Inl (RuntimeError ''experiment hash collision''), s) else (Inr eid, s)
        | None \<Rightarrow> transaction (register_body eid m at) s)"

definition transition ::
  "string \<Rightarrow> trial_status \<Rightarrow> time \<Rightarrow> string option \<Rightarrow> string option \<Rightarrow> (string \<times> json) list \<Rightarrow> trial_registry \<Rightarrow>
   unit res \<times> trial_registry" where
  "transition eid status at rh reason metadata s =
     (let h = trial_history eid s; current = last h in
      if h = [] then (Inl (KeyError eid), s)
      else if status \<notin> set (allowed_next (te_status current)) then (Inl (IllegalTrialTransition ''transition''), s)
      else if at < te_occurred_at current then (Inl (IllegalTrialTransition ''trial events must be monotonic''), s)
      else case validate_trial_event \<lparr>te_sequence = te_sequence current + 1, te_experiment_id = eid, te_status = status,
             te_occurred_at = at, te_result_hash = rh, te_failure_reason = reason, te_metadata = metadata\<rparr> of
        Inl e \<Rightarrow> (Inl e, s)
      | Inr _ \<Rightarrow> transaction (append_trial eid status at rh reason metadata) s)"

definition promote_claimed :: "string \<Rightarrow> time \<Rightarrow> trial_registry \<Rightarrow> unit res \<times> trial_registry" where
  "promote_claimed eid at s = (Inl (IllegalTrialTransition ''self-reported promotion evidence is forbidden''), s)"

definition promote_verified ::
  "string \<Rightarrow> time \<Rightarrow> (string \<times> json) list \<Rightarrow> trial_registry \<Rightarrow> unit res \<times> trial_registry" where
  "promote_verified eid at metadata s =
     (let h = trial_history eid s in
      if h = [] \<or> te_status (last h) \<noteq> TS_COMPLETED
      then (Inl (IllegalTrialTransition ''only a completed trial can be promoted''), s)
      else if at < te_occurred_at (last h)
      then (Inl (IllegalTrialTransition ''promotion time precedes completed trial''), s)
      else transaction (append_trial eid TS_PROMOTED at (te_result_hash (last h)) None metadata) s)"

definition manifest_of :: "(json \<Rightarrow> string) \<Rightarrow> string \<Rightarrow> trial_registry \<Rightarrow> experiment_manifest res" where
  "manifest_of H eid s = (case lookup fst eid (tr_experiments s) of None \<Rightarrow> Inl (KeyError eid)
     | Some r \<Rightarrow> (case validate_manifest H (snd r) of Inl e \<Rightarrow> Inl e | Inr _ \<Rightarrow> Inr (snd r)))"

subsection \<open>Artifacts and the cemetery\<close>

definition record_artifact ::
  "string \<Rightarrow> artifact_digest \<Rightarrow> string \<Rightarrow> time \<Rightarrow> trial_registry \<Rightarrow> artifact_record res \<times> trial_registry" where
  "record_artifact eid d path at s =
     (let r = \<lparr>gr_experiment_id = eid, gr_digest = d, gr_relative_path = path, gr_created_at = at\<rparr> in
      if trial_history eid s = [] then (Inl (KeyError eid), s)
      else case validate_artifact r of
        Inl e \<Rightarrow> (Inl e, s)
      | Inr _ \<Rightarrow>
        (case List.find (\<lambda>q. gr_experiment_id q = eid \<and> gd_name (gr_digest q) = gd_name d) (tr_artifacts s) of
           Some q \<Rightarrow>
             if gr_digest q \<noteq> d \<or> gr_relative_path q \<noteq> path then (Inl (RuntimeError ''artifact conflict''), s)
             else (Inr q, s)
         | None \<Rightarrow> (Inr r, s\<lparr>tr_artifacts := tr_artifacts s @ [r]\<rparr>)))"

definition artifacts_of :: "string \<Rightarrow> trial_registry \<Rightarrow> artifact_record list" where
  "artifacts_of eid s = sort_key (gd_name \<circ> gr_digest) (filter (\<lambda>r. gr_experiment_id r = eid) (tr_artifacts s))"

definition strategy_cemetery :: "trial_registry \<Rightarrow> trial_view list" where
  "strategy_cemetery s = concat (map (\<lambda>(eid, m).
     let h = trial_history eid s in
     if h = [] \<or> te_status (last h) \<notin> {TS_FAILED, TS_ABORTED} then []
     else [\<lparr>tv_experiment_id = eid, tv_manifest = m, tv_status = te_status (last h),
            tv_failure_reason = te_failure_reason (last h), tv_result_hash = te_result_hash (last h),
            tv_event_count = int (length h)\<rparr>]) (sort_key fst (tr_experiments s)))"

end
