(* ===== verification/Trial_Books.thy ===== *)
theory Trial_Books
  imports Trial_Registry
begin

section \<open>What the experiment registry holds\<close>

text \<open>
  The registry as a transition system over its methods, with its invariant: trials of a protocol are
  numbered without gaps and stay within its budget; every experiment consumed exactly one allocation, the one
  its manifest names and matches; every history is a path of the trial life cycle, in time order.
\<close>

subsection \<open>Operations\<close>

datatype registry_op =
    Register_Protocol research_protocol
  | Allocate_Trial string "(string \<times> json) list" window_role string time
  | Register_Experiment experiment_manifest time
  | Transition_Trial string trial_status time "string option" "string option" "(string \<times> json) list"
  | Promote_Claimed string time
  | Promote_Verified string time "(string \<times> json) list"
  | Record_Artifact string artifact_digest string time

definition registry_step :: "(json \<Rightarrow> string) \<Rightarrow> registry_op \<Rightarrow> trial_registry \<Rightarrow> trial_registry" where
  "registry_step H op s = (case op of
     Register_Protocol p \<Rightarrow> snd (register_protocol H p s)
   | Allocate_Trial ph ps role key at \<Rightarrow> snd (allocate_trial H ph ps role key at s)
   | Register_Experiment m at \<Rightarrow> snd (register_experiment H m at s)
   | Transition_Trial eid st at rh fr md \<Rightarrow> snd (transition eid st at rh fr md s)
   | Promote_Claimed eid at \<Rightarrow> snd (promote_claimed eid at s)
   | Promote_Verified eid at md \<Rightarrow> snd (promote_verified eid at md s)
   | Record_Artifact eid d path at \<Rightarrow> snd (record_artifact eid d path at s))"

text \<open>A document passed to the registry went through its own constructor.\<close>

definition registry_op_valid :: "(json \<Rightarrow> string) \<Rightarrow> registry_op \<Rightarrow> bool" where
  "registry_op_valid H op = (case op of
     Register_Protocol p \<Rightarrow> validate_protocol p = Inr ()
   | Register_Experiment m _ \<Rightarrow> validate_manifest H m = Inr ()
   | _ \<Rightarrow> True)"

subsection \<open>The invariant\<close>

definition protocols_ok :: "(json \<Rightarrow> string) \<Rightarrow> protocol_row list \<Rightarrow> bool" where
  "protocols_ok H ps \<longleftrightarrow> distinct (map pr_protocol_hash ps) \<and>
     (\<forall>p \<in> set ps. pr_protocol_hash p = protocol_hash H (pr_protocol p) \<and> pr_max_trials p = rb_max_trials (pp_budget (pr_protocol p)) \<and>
        pr_program_id p = research_program_id H (pr_protocol p) \<and> validate_protocol (pr_protocol p) = Inr ())"

definition numbers_of :: "string \<Rightarrow> trial_registry \<Rightarrow> int list" where
  "numbers_of ph s = map (ta_trial_number \<circ> aw_allocation) (trials_of ph s)"

definition within_budget :: "trial_registry \<Rightarrow> bool" where
  "within_budget s \<longleftrightarrow>
     (\<forall>ph. numbers_of ph s = [1..int (length (trials_of ph s))]) \<and>
     (\<forall>p \<in> set (tr_protocols s). int (length (trials_of (pr_protocol_hash p) s)) \<le> pr_max_trials p) \<and>
     (\<forall>r \<in> set (tr_allocations s). ta_protocol_hash (aw_allocation r) \<in> pr_protocol_hash ` set (tr_protocols s))"

definition keys_ok :: "allocation_row list \<Rightarrow> bool" where
  "keys_ok as \<longleftrightarrow> distinct (map (ta_allocation_id \<circ> aw_allocation) as) \<and>
     distinct (map (\<lambda>r. (ta_protocol_hash (aw_allocation r), aw_idempotency_key r)) as)"

definition consumed_by :: "allocation_row \<Rightarrow> string \<Rightarrow> experiment_manifest \<Rightarrow> bool" where
  "consumed_by r eid m \<longleftrightarrow> (let a = aw_allocation r in
     ta_allocation_id a = em_trial_allocation_id m \<and> ta_experiment_id a = Some eid \<and>
     ta_protocol_hash a = em_protocol_hash m \<and> ta_research_program_id a = em_research_program_id m \<and>
     ta_parameter_point_hash a = em_parameter_point_hash m \<and> ta_window_role a = em_window_role m)"

definition experiments_ok :: "(json \<Rightarrow> string) \<Rightarrow> trial_registry \<Rightarrow> bool" where
  "experiments_ok H s \<longleftrightarrow> distinct (map fst (tr_experiments s)) \<and>
     (\<forall>(eid, m) \<in> set (tr_experiments s). eid = experiment_id H m \<and> validate_manifest H m = Inr () \<and>
        (\<exists>r \<in> set (tr_allocations s). consumed_by r eid m)) \<and>
     (\<forall>r \<in> set (tr_allocations s). \<forall>eid. ta_experiment_id (aw_allocation r) = Some eid \<longrightarrow>
        (\<exists>m. (eid, m) \<in> set (tr_experiments s)))"

text \<open>One event may follow another: an edge of the life cycle, or the promotion of a completed trial with
  the result it completed with; never back in time.\<close>

definition follows :: "trial_event \<Rightarrow> trial_event \<Rightarrow> bool" where
  "follows e f \<longleftrightarrow> te_occurred_at e \<le> te_occurred_at f \<and>
     (te_status f \<in> set (allowed_next (te_status e)) \<or>
      (te_status e = TS_COMPLETED \<and> te_status f = TS_PROMOTED \<and> te_result_hash f = te_result_hash e))"

definition event_sound :: "trial_event \<Rightarrow> bool" where
  "event_sound e \<longleftrightarrow> (te_status e = TS_FAILED \<longrightarrow> te_failure_reason e \<notin> {None, Some []}) \<and>
     (te_status e = TS_COMPLETED \<longrightarrow> te_result_hash e \<noteq> None) \<and> hash_pattern (te_experiment_id e)"

definition legal_history :: "trial_event list \<Rightarrow> bool" where
  "legal_history h \<longleftrightarrow> h \<noteq> [] \<and> te_status (hd h) = TS_REGISTERED \<and> successively follows h \<and> (\<forall>e \<in> set h. event_sound e)"

definition histories_ok :: "trial_registry \<Rightarrow> bool" where
  "histories_ok s \<longleftrightarrow> map te_sequence (tr_events s) = [1..int (length (tr_events s))] \<and>
     (\<forall>eid. eid \<in> fst ` set (tr_experiments s) \<longrightarrow> legal_history (trial_history eid s)) \<and>
     (\<forall>e \<in> set (tr_events s). te_experiment_id e \<in> fst ` set (tr_experiments s))"

definition artifacts_ok :: "trial_registry \<Rightarrow> bool" where
  "artifacts_ok s \<longleftrightarrow> distinct (map (\<lambda>r. (gr_experiment_id r, gd_name (gr_digest r))) (tr_artifacts s)) \<and>
     (\<forall>r \<in> set (tr_artifacts s). validate_artifact r = Inr () \<and> gr_experiment_id r \<in> fst ` set (tr_experiments s))"

definition registry_ok :: "(json \<Rightarrow> string) \<Rightarrow> trial_registry \<Rightarrow> bool" where
  "registry_ok H s \<longleftrightarrow> protocols_ok H (tr_protocols s) \<and> within_budget s \<and> keys_ok (tr_allocations s) \<and>
     experiments_ok H s \<and> histories_ok s \<and> artifacts_ok s"

lemma registry_ok_empty: "registry_ok H empty_registry"
  by (simp add: registry_ok_def protocols_ok_def within_budget_def keys_ok_def experiments_ok_def histories_ok_def
      artifacts_ok_def empty_registry_def numbers_of_def trials_of_def)

subsection \<open>Frames\<close>

text \<open>Each part of the invariant reads only its own tables.\<close>

lemma within_budget_frame:
  "tr_protocols t = tr_protocols s \<Longrightarrow> tr_allocations t = tr_allocations s \<Longrightarrow> within_budget t = within_budget s"
  by (simp add: within_budget_def numbers_of_def trials_of_def)

lemma experiments_ok_frame:
  "tr_experiments t = tr_experiments s \<Longrightarrow> tr_allocations t = tr_allocations s \<Longrightarrow> experiments_ok H t = experiments_ok H s"
  by (simp add: experiments_ok_def)

lemma histories_ok_frame:
  "tr_experiments t = tr_experiments s \<Longrightarrow> tr_events t = tr_events s \<Longrightarrow> histories_ok t = histories_ok s"
  by (simp add: histories_ok_def trial_history_def)

lemma artifacts_ok_frame:
  "tr_experiments t = tr_experiments s \<Longrightarrow> tr_artifacts t = tr_artifacts s \<Longrightarrow> artifacts_ok t = artifacts_ok s"
  by (simp add: artifacts_ok_def)

lemmas registry_frames = within_budget_frame experiments_ok_frame histories_ok_frame artifacts_ok_frame

lemma trial_history_frame: "tr_events t = tr_events s \<Longrightarrow> trial_history eid t = trial_history eid s"
  by (simp add: trial_history_def)

subsection \<open>Protocols\<close>

lemma protocol_hash_unused [simp]:
  "protocol_hash H (unused_protocol p) = protocol_hash H p"
  "research_program_id H (unused_protocol p) = research_program_id H p"
  "rb_max_trials (pp_budget (unused_protocol p)) = rb_max_trials (pp_budget p)"
  by (simp_all add: unused_protocol_def protocol_hash_def protocol_doc_def research_program_id_def)

lemma validate_unused: "validate_protocol p = Inr () \<Longrightarrow> validate_protocol (unused_protocol p) = Inr ()"
  by (auto simp: validate_protocol_def protocol_parts_def unused_protocol_def validate_research_budget_def)

lemma register_protocol_ok:
  assumes "registry_ok H s" "validate_protocol p = Inr ()"
  shows "registry_ok H (snd (register_protocol H p s))"
proof (cases "lookup pr_protocol_hash (protocol_hash H p) (tr_protocols s)")
  case (Some row)
  then show ?thesis using assms(1) by (simp add: register_protocol_def)
next
  case None
  let ?row = "\<lparr>pr_protocol_hash = protocol_hash H p, pr_program_id = research_program_id H p,
    pr_protocol = unused_protocol p, pr_max_trials = rb_max_trials (pp_budget p)\<rparr>"
  let ?t = "s\<lparr>tr_protocols := tr_protocols s @ [?row]\<rparr>"
  have new: "protocol_hash H p \<notin> pr_protocol_hash ` set (tr_protocols s)" using None by (auto simp: find_None_iff)
  have "protocols_ok H (tr_protocols ?t)"
    using assms new validate_unused [OF assms(2)] by (auto simp: registry_ok_def protocols_ok_def)
  moreover have "within_budget ?t"
  proof -
    have "\<forall>r \<in> set (tr_allocations s). ta_protocol_hash (aw_allocation r) \<noteq> protocol_hash H p"
      using assms(1) new unfolding registry_ok_def within_budget_def by metis
    then have "trials_of (protocol_hash H p) s = []" by (simp add: trials_of_def)
    moreover have "trials_of ph ?t = trials_of ph s" "numbers_of ph ?t = numbers_of ph s" for ph
      by (simp_all add: trials_of_def numbers_of_def)
    moreover have "0 < rb_max_trials (pp_budget p)"
      using assms(2) by (auto simp: validate_protocol_def protocol_parts_def validate_research_budget_def)
    ultimately show ?thesis using assms(1) by (auto simp: registry_ok_def within_budget_def)
  qed
  ultimately have "registry_ok H ?t"
    using assms(1) by (auto simp: registry_ok_def experiments_ok_frame [of ?t s] histories_ok_frame [of ?t s]
        artifacts_ok_frame [of ?t s])
  then show ?thesis using None by (simp add: register_protocol_def Let_def)
qed

subsection \<open>Allocations\<close>

lemma new_allocation_simps [simp]:
  "ta_protocol_hash (aw_allocation (new_allocation H p n point role key at)) = pr_protocol_hash p"
  "ta_trial_number (aw_allocation (new_allocation H p n point role key at)) = n"
  "ta_experiment_id (aw_allocation (new_allocation H p n point role key at)) = None"
  "aw_idempotency_key (new_allocation H p n point role key at) = key"
  by (simp_all add: new_allocation_def)

lemma allocate_body_cases:
  assumes "allocate_body H ph point role key at s = (r, t)"
  obtains "t = s" | p row where "t = s\<lparr>tr_allocations := tr_allocations s @ [row]\<rparr>" "p \<in> set (tr_protocols s)"
    "pr_protocol_hash p = ph" "row = new_allocation H p (int (length (trials_of ph s)) + 1) point role key at"
    "int (length (trials_of ph s)) < pr_max_trials p" "\<not> list_ex (allocation_clash row) (tr_allocations s)"
    "r = Inr (ta_allocation_id (aw_allocation row))"
proof (cases "lookup pr_protocol_hash ph (tr_protocols s)")
  case None
  then show ?thesis using assms that(1) by (simp add: allocate_body_def)
next
  case (Some p)
  then have p: "p \<in> set (tr_protocols s)" "pr_protocol_hash p = ph" using find_Some_set by force+
  show ?thesis
  proof (cases "t = s")
    case False
    then show ?thesis using assms Some p that(2) [of _ p]
      by (auto simp: allocate_body_def Let_def split: option.splits if_splits)
  qed (rule that(1))
qed

lemma new_allocation_ok:
  assumes ok: "registry_ok H s" and p: "p \<in> set (tr_protocols s)"
    and row: "ta_protocol_hash (aw_allocation row) = pr_protocol_hash p" "ta_experiment_id (aw_allocation row) = None"
      "ta_trial_number (aw_allocation row) = int (length (trials_of (pr_protocol_hash p) s)) + 1"
    and room: "int (length (trials_of (pr_protocol_hash p) s)) < pr_max_trials p"
    and fresh: "\<not> list_ex (allocation_clash row) (tr_allocations s)"
  shows "registry_ok H (s\<lparr>tr_allocations := tr_allocations s @ [row]\<rparr>)" (is "registry_ok H ?t")
proof -
  have trials: "trials_of ph ?t = trials_of ph s @ (if ph = pr_protocol_hash p then [row] else [])" for ph
    using row(1) by (auto simp: trials_of_def)
  have "within_budget ?t"
    unfolding within_budget_def
  proof (intro conjI allI ballI)
    fix ph
    have "numbers_of ph s = [1..int (length (trials_of ph s))]" using ok by (simp add: registry_ok_def within_budget_def)
    then show "numbers_of ph ?t = [1..int (length (trials_of ph ?t))]"
      using row(3) by (simp add: numbers_of_def trials upto_rec2 add.commute)
  next
    fix q assume "q \<in> set (tr_protocols ?t)"
    then have q: "q \<in> set (tr_protocols s)" by simp
    then have "q = p" if "pr_protocol_hash q = pr_protocol_hash p"
      using ok p that by (auto simp: registry_ok_def protocols_ok_def dest: same_key_same_row)
    moreover have "int (length (trials_of (pr_protocol_hash q) s)) \<le> pr_max_trials q"
      using ok q by (auto simp: registry_ok_def within_budget_def)
    ultimately show "int (length (trials_of (pr_protocol_hash q) ?t)) \<le> pr_max_trials q"
      using room by (auto simp: trials)
  next
    fix r assume "r \<in> set (tr_allocations ?t)"
    then show "ta_protocol_hash (aw_allocation r) \<in> pr_protocol_hash ` set (tr_protocols ?t)"
      using ok row(1) p by (auto simp: registry_ok_def within_budget_def)
  qed
  moreover have "keys_ok (tr_allocations ?t)"
    using ok fresh by (auto simp: registry_ok_def keys_ok_def allocation_clash_def list_ex_iff)
  moreover have "experiments_ok H ?t"
    using ok row(2) by (fastforce simp: registry_ok_def experiments_ok_def)
  ultimately show ?thesis
    using ok by (auto simp: registry_ok_def histories_ok_frame [of ?t s] artifacts_ok_frame [of ?t s])
qed

lemma snd_transaction: "snd (transaction f s) = (case f s of (Inl e, t) \<Rightarrow> s | (Inr x, t) \<Rightarrow> t)"
  by (auto simp: transaction_def split: prod.splits sum.splits)

lemma snd_and_then_read: "snd (and_then r (\<lambda>x t. (f x t, t))) = snd r"
  by (cases r; cases "fst r") (auto simp: and_then_def)

lemma allocate_trial_ok:
  assumes "registry_ok H s"
  shows "registry_ok H (snd (allocate_trial H ph ps role key at s))"
proof (cases "blank_text key")
  case False
  obtain r t where b: "allocate_body H ph (canonical_hash H (JObj ps)) role key at s = (r, t)" by force
  then have "registry_ok H t"
    by (cases rule: allocate_body_cases) (use assms in \<open>auto intro!: new_allocation_ok\<close>)
  then show ?thesis
    using False b assms by (auto simp: allocate_trial_def snd_and_then_read snd_transaction split: sum.splits)
qed (use assms in \<open>simp add: allocate_trial_def\<close>)

text \<open>Consuming a trial changes neither identity, and fails exactly when no trial is left.\<close>

lemma consume_trial_keeps_identity:
  "consume_trial p = Inr q \<Longrightarrow> protocol_hash H q = protocol_hash H p \<and> research_program_id H q = research_program_id H p \<and>
     remaining_trials (pp_budget q) = remaining_trials (pp_budget p) - 1"
  by (auto simp: consume_trial_def Let_def protocol_hash_def protocol_doc_def research_program_id_def remaining_trials_def
      split: if_splits sum.splits)

lemma consume_trial_succeeds:
  assumes "validate_protocol p = Inr ()"
  shows "is_ok (consume_trial p) \<longleftrightarrow> 0 < remaining_trials (pp_budget p)"
  using assms
  by (auto simp: consume_trial_def Let_def validate_protocol_def protocol_parts_def validate_research_budget_def
      remaining_trials_def is_ok_def split: sum.splits dest: checks_Inl)

subsection \<open>Events\<close>

lemma append_trial_Inr:
  assumes "append_trial eid st at rh fr md s = (Inr u, t)"
  obtains e where "te_sequence e = int (length (tr_events s)) + 1" "te_experiment_id e = eid" "te_status e = st"
    "te_occurred_at e = at" "te_result_hash e = rh" "t = s\<lparr>tr_events := tr_events s @ [e]\<rparr>"
    "validate_trial_event (e\<lparr>te_sequence := 1\<rparr>) = Inr ()"
  using that [of "\<lparr>te_sequence = int (length (tr_events s)) + 1, te_experiment_id = eid, te_status = st,
    te_occurred_at = at, te_result_hash = rh, te_failure_reason = fr, te_metadata = md\<rparr>"] assms
  by (simp add: append_trial_def Let_def split: sum.splits)

lemma event_sound_sequence [simp]: "event_sound (e\<lparr>te_sequence := n\<rparr>) = event_sound e"
  by (simp add: event_sound_def)

lemma validated_event_sound: "validate_trial_event (e\<lparr>te_sequence := n\<rparr>) = Inr () \<Longrightarrow> event_sound e"
  by (auto simp: validate_trial_event_def event_sound_def)

lemma append_event_ok:
  assumes ok: "registry_ok H s" and h: "trial_history (te_experiment_id e) s \<noteq> []"
    and step: "follows (last (trial_history (te_experiment_id e) s)) e" and "event_sound e"
    and seq: "te_sequence e = int (length (tr_events s)) + 1"
  shows "registry_ok H (s\<lparr>tr_events := tr_events s @ [e]\<rparr>)" (is "registry_ok H ?t")
proof -
  have hist: "trial_history eid ?t = trial_history eid s @ (if eid = te_experiment_id e then [e] else [])" for eid
    by (auto simp: trial_history_def)
  have reg: "te_experiment_id e \<in> fst ` set (tr_experiments s)"
  proof -
    obtain f where "f \<in> set (trial_history (te_experiment_id e) s)" using h by (meson hd_in_set)
    then have "f \<in> set (tr_events s)" "te_experiment_id f = te_experiment_id e" by (auto simp: trial_history_def)
    then show ?thesis using ok unfolding registry_ok_def histories_ok_def by metis
  qed
  have "histories_ok ?t"
    unfolding histories_ok_def
  proof (intro conjI allI impI ballI)
    show "map te_sequence (tr_events ?t) = [1..int (length (tr_events ?t))]"
      using ok seq by (simp add: registry_ok_def histories_ok_def upto_rec2 add.commute)
    fix eid assume "eid \<in> fst ` set (tr_experiments ?t)"
    then have "legal_history (trial_history eid s)" using ok by (simp add: registry_ok_def histories_ok_def)
    then show "legal_history (trial_history eid ?t)"
      using assms by (auto simp: hist legal_history_def successively_append_iff)
  next
    fix f assume "f \<in> set (tr_events ?t)"
    then show "te_experiment_id f \<in> fst ` set (tr_experiments ?t)"
      using ok reg by (auto simp: registry_ok_def histories_ok_def)
  qed
  then show ?thesis
    using ok by (auto simp: registry_ok_def within_budget_frame [of ?t s] experiments_ok_frame [of ?t s]
        artifacts_ok_frame [of ?t s])
qed

lemma append_trial_ok:
  assumes ok: "registry_ok H s" and h: "trial_history eid s \<noteq> []"
    and later: "te_occurred_at (last (trial_history eid s)) \<le> at"
    and edge: "st \<in> set (allowed_next (te_status (last (trial_history eid s)))) \<or>
      (te_status (last (trial_history eid s)) = TS_COMPLETED \<and> st = TS_PROMOTED \<and> rh = te_result_hash (last (trial_history eid s)))"
  shows "registry_ok H (snd (transaction (append_trial eid st at rh fr md) s))"
proof (cases "append_trial eid st at rh fr md s")
  case (Pair r t)
  show ?thesis
  proof (cases r)
    case (Inl e)
    then show ?thesis using Pair ok by (simp add: transaction_def)
  next
    case (Inr u)
    obtain e where e: "te_sequence e = int (length (tr_events s)) + 1" "te_experiment_id e = eid" "te_status e = st"
      "te_occurred_at e = at" "te_result_hash e = rh" "t = s\<lparr>tr_events := tr_events s @ [e]\<rparr>"
      "validate_trial_event (e\<lparr>te_sequence := 1\<rparr>) = Inr ()"
      using Pair Inr append_trial_Inr by blast
    have "registry_ok H t"
      unfolding e(6) by (rule append_event_ok [OF ok]) (use h later edge e validated_event_sound in \<open>auto simp: follows_def\<close>)
    then show ?thesis using Pair Inr by (simp add: transaction_def)
  qed
qed

lemma transition_ok:
  assumes "registry_ok H s"
  shows "registry_ok H (snd (transition eid st at rh fr md s))"
  using assms by (auto simp: transition_def Let_def split: sum.splits intro!: append_trial_ok)

lemma promote_verified_ok:
  assumes "registry_ok H s"
  shows "registry_ok H (snd (promote_verified eid at md s))"
  using assms by (auto simp: promote_verified_def Let_def intro!: append_trial_ok)

subsection \<open>Registration\<close>

lemma registered_history: "registry_ok H s \<Longrightarrow> trial_history eid s = [] \<longleftrightarrow> eid \<notin> fst ` set (tr_experiments s)"
  by (auto simp: registry_ok_def histories_ok_def legal_history_def trial_history_def filter_empty_conv)

lemma allocation_of_Inr:
  "allocation_of aid s = Inr a \<Longrightarrow> \<exists>r \<in> set (tr_allocations s). aw_allocation r = a \<and> ta_allocation_id a = aid"
  by (auto simp: allocation_of_def split: option.splits sum.splits dest!: find_Some_set)

definition consume :: "string \<Rightarrow> string \<Rightarrow> allocation_row list \<Rightarrow> allocation_row list" where
  "consume aid eid = update_where (\<lambda>r. ta_allocation_id (aw_allocation r) = aid \<and> ta_experiment_id (aw_allocation r) = None)
     (\<lambda>r. r\<lparr>aw_allocation := (aw_allocation r)\<lparr>ta_experiment_id := Some eid\<rparr>\<rparr>)"

lemma consume_keeps:
  "(\<And>r. c (r\<lparr>aw_allocation := (aw_allocation r)\<lparr>ta_experiment_id := Some eid\<rparr>\<rparr>) = c r) \<Longrightarrow> map c (consume aid eid as) = map c as"
  by (simp add: consume_def map_update_where)

lemma filter_consume:
  "filter (\<lambda>r. ta_protocol_hash (aw_allocation r) = ph) (consume aid eid as) =
   consume aid eid (filter (\<lambda>r. ta_protocol_hash (aw_allocation r) = ph) as)"
  by (induction as) (auto simp: consume_def)

lemma consume_within_budget:
  assumes "within_budget s" "tr_protocols t = tr_protocols s" "tr_allocations t = consume aid eid (tr_allocations s)"
  shows "within_budget t"
proof -
  have trials: "trials_of ph t = consume aid eid (trials_of ph s)" for ph
    by (simp add: trials_of_def assms(3) filter_consume)
  have "numbers_of ph t = numbers_of ph s" for ph
    by (simp add: numbers_of_def trials consume_keeps)
  moreover have "length (trials_of ph t) = length (trials_of ph s)" for ph
    by (simp add: trials consume_def)
  moreover have "map (\<lambda>r. ta_protocol_hash (aw_allocation r)) (tr_allocations t) =
      map (\<lambda>r. ta_protocol_hash (aw_allocation r)) (tr_allocations s)"
    by (simp add: assms(3) consume_keeps)
  then have "(\<lambda>r. ta_protocol_hash (aw_allocation r)) ` set (tr_allocations t) =
      (\<lambda>r. ta_protocol_hash (aw_allocation r)) ` set (tr_allocations s)"
    by (metis set_map)
  ultimately show ?thesis using assms(1,2) unfolding within_budget_def by (simp flip: image_subset_iff)
qed

lemma set_consume:
  "r \<in> set (consume aid eid as) \<longleftrightarrow>
     (\<exists>q \<in> set as. (if ta_allocation_id (aw_allocation q) = aid \<and> ta_experiment_id (aw_allocation q) = None
        then r = q\<lparr>aw_allocation := (aw_allocation q)\<lparr>ta_experiment_id := Some eid\<rparr>\<rparr> else r = q))"
  unfolding consume_def set_update_where image_iff by (rule bex_cong [OF refl]) simp

lemma consume_experiments_ok:
  assumes ok: "experiments_ok H s" and q: "q \<in> set (tr_allocations s)" "ta_experiment_id (aw_allocation q) = None"
    "consumed_by (q\<lparr>aw_allocation := (aw_allocation q)\<lparr>ta_experiment_id := Some eid\<rparr>\<rparr>) eid m"
    and m: "eid = experiment_id H m" "validate_manifest H m = Inr ()" "eid \<notin> fst ` set (tr_experiments s)"
    and t: "tr_experiments t = tr_experiments s @ [(eid, m)]"
      "tr_allocations t = consume (em_trial_allocation_id m) eid (tr_allocations s)"
  shows "experiments_ok H t"
  unfolding experiments_ok_def
proof (intro conjI ballI allI impI)
  show "distinct (map fst (tr_experiments t))" using ok m(3) by (simp add: t experiments_ok_def)
next
  fix x assume "x \<in> set (tr_experiments t)"
  then consider "x = (eid, m)" | "x \<in> set (tr_experiments s)" by (auto simp: t)
  then show "case x of (e, n) \<Rightarrow> e = experiment_id H n \<and> validate_manifest H n = Inr () \<and> (\<exists>r \<in> set (tr_allocations t). consumed_by r e n)"
  proof cases
    case 1
    have "ta_allocation_id (aw_allocation q) = em_trial_allocation_id m" using q(3) by (simp add: consumed_by_def Let_def)
    then have "q\<lparr>aw_allocation := (aw_allocation q)\<lparr>ta_experiment_id := Some eid\<rparr>\<rparr> \<in> set (tr_allocations t)"
      unfolding t set_consume using q(1,2) by (auto intro!: bexI [of _ q])
    then show ?thesis using 1 m q(3) by auto
  next
    case 2
    obtain e n where x: "x = (e, n)" by force
    then obtain r where r: "r \<in> set (tr_allocations s)" "consumed_by r e n" "e = experiment_id H n" "validate_manifest H n = Inr ()"
      using 2 ok by (fastforce simp: experiments_ok_def)
    then have "r \<in> set (tr_allocations t)"
      unfolding t set_consume by (auto simp: consumed_by_def Let_def intro!: bexI [of _ r])
    then show ?thesis using r x by auto
  qed
next
  fix r e assume r: "r \<in> set (tr_allocations t)" "ta_experiment_id (aw_allocation r) = Some e"
  then obtain q where "q \<in> set (tr_allocations s)" and "e = eid \<or> ta_experiment_id (aw_allocation q) = Some e"
    unfolding t set_consume by (auto split: if_splits)
  then have "e = eid \<or> (\<exists>n. (e, n) \<in> set (tr_experiments s))" using ok unfolding experiments_ok_def by blast
  then show "\<exists>n. (e, n) \<in> set (tr_experiments t)" by (auto simp: t)
qed

lemma register_history_ok:
  assumes ok: "registry_ok H s" and new: "eid \<notin> fst ` set (tr_experiments s)"
    and t: "tr_experiments t = tr_experiments s @ [(eid, m)]" "tr_events t = tr_events s @ [e]"
    and e: "te_experiment_id e = eid" "te_status e = TS_REGISTERED" "te_sequence e = int (length (tr_events s)) + 1" "event_sound e"
  shows "histories_ok t"
proof -
  have hist: "trial_history x t = trial_history x s @ (if x = eid then [e] else [])" for x
    by (auto simp: trial_history_def t e)
  have none: "trial_history eid s = []" using registered_history [OF ok] new by simp
  show ?thesis
    unfolding histories_ok_def
  proof (intro conjI allI impI ballI)
    show "map te_sequence (tr_events t) = [1..int (length (tr_events t))]"
      using ok e(3) by (simp add: t registry_ok_def histories_ok_def upto_rec2 add.commute)
    fix x assume "x \<in> fst ` set (tr_experiments t)"
    then consider "x = eid" | "x \<noteq> eid" "x \<in> fst ` set (tr_experiments s)" by (auto simp: t)
    then show "legal_history (trial_history x t)"
    proof cases
      case 1
      then show ?thesis using none e by (simp add: hist legal_history_def)
    next
      case 2
      then show ?thesis using ok by (simp add: hist registry_ok_def histories_ok_def)
    qed
  next
    fix f assume "f \<in> set (tr_events t)"
    then show "te_experiment_id f \<in> fst ` set (tr_experiments t)"
      using ok e(1) unfolding registry_ok_def histories_ok_def t by auto
  qed
qed

lemma register_body_ok:
  assumes ok: "registry_ok H s" and q: "q \<in> set (tr_allocations s)" "ta_experiment_id (aw_allocation q) = None"
    "consumed_by (q\<lparr>aw_allocation := (aw_allocation q)\<lparr>ta_experiment_id := Some eid\<rparr>\<rparr>) eid m"
    and m: "eid = experiment_id H m" "validate_manifest H m = Inr ()" "eid \<notin> fst ` set (tr_experiments s)"
    and run: "register_body eid m at s = (Inr x, t)"
  shows "registry_ok H t"
proof -
  let ?u = "s\<lparr>tr_experiments := tr_experiments s @ [(eid, m)],
    tr_allocations := consume (em_trial_allocation_id m) eid (tr_allocations s)\<rparr>"
  have "append_trial eid TS_REGISTERED at None None [] ?u = (Inr (), t)"
    using run by (auto simp: register_body_def Let_def consume_def and_then_Inr_iff split: if_splits)
  then obtain e where e: "te_sequence e = int (length (tr_events ?u)) + 1" "te_experiment_id e = eid"
    "te_status e = TS_REGISTERED" "t = ?u\<lparr>tr_events := tr_events ?u @ [e]\<rparr>" "event_sound e"
    using append_trial_Inr validated_event_sound by metis
  have "histories_ok t" by (rule register_history_ok [OF ok m(3), where e = e and m = m]) (use e in simp_all)
  moreover have "experiments_ok H t"
    by (rule consume_experiments_ok [OF _ q m]) (use ok e in \<open>simp_all add: registry_ok_def\<close>)
  moreover have "within_budget t"
    by (rule consume_within_budget [of s]) (use ok e in \<open>auto simp: registry_ok_def\<close>)
  moreover have "keys_ok (tr_allocations t)"
    using ok e(4) by (simp add: registry_ok_def keys_ok_def consume_keeps)
  moreover have "artifacts_ok t"
    using ok e(4) by (auto simp: registry_ok_def artifacts_ok_def)
  ultimately show ?thesis using ok e(4) by (simp add: registry_ok_def)
qed

lemma register_experiment_ok:
  assumes ok: "registry_ok H s" and m: "validate_manifest H m = Inr ()"
  shows "registry_ok H (snd (register_experiment H m at s))"
proof (cases "\<exists>x. register_experiment H m at s = (Inr x, snd (register_experiment H m at s)) \<and> snd (register_experiment H m at s) \<noteq> s")
  case False
  then have "snd (register_experiment H m at s) = s"
    by (auto simp: register_experiment_def Let_def snd_transaction split: sum.splits option.splits prod.splits if_splits)
  then show ?thesis using ok by simp
next
  case True
  define eid where "eid = experiment_id H m"
  obtain x t where t: "register_experiment H m at s = (Inr x, t)" "t \<noteq> s" using True by metis
  then obtain a where a: "allocation_of (em_trial_allocation_id m) s = Inr a"
    "ta_experiment_id a = None \<or> ta_experiment_id a = Some eid"
    "ta_protocol_hash a = em_protocol_hash m" "ta_research_program_id a = em_research_program_id m"
    "ta_parameter_point_hash a = em_parameter_point_hash m" "ta_window_role a = em_window_role m"
    "lookup fst eid (tr_experiments s) = None" "register_body eid m at s = (Inr x, t)"
    by (auto simp: register_experiment_def Let_def eid_def split: sum.splits option.splits if_splits)
  from a(1) obtain q where q: "q \<in> set (tr_allocations s)" "aw_allocation q = a" "ta_allocation_id a = em_trial_allocation_id m"
    using allocation_of_Inr by blast
  have new: "eid \<notin> fst ` set (tr_experiments s)" using a(7) by (auto simp: find_None_iff)
  then have free: "ta_experiment_id a = None"
    using a(2) q ok by (force simp: registry_ok_def experiments_ok_def)
  have "registry_ok H t"
    by (rule register_body_ok [OF ok q(1) _ _ eid_def m new a(8)]) (use q a free in \<open>simp_all add: consumed_by_def Let_def\<close>)
  then show ?thesis using t by simp
qed

subsection \<open>The transition system\<close>

lemma record_artifact_ok:
  assumes ok: "registry_ok H s"
  shows "registry_ok H (snd (record_artifact eid d path at s))"
proof (cases "snd (record_artifact eid d path at s) = s")
  case False
  define r where "r = \<lparr>gr_experiment_id = eid, gr_digest = d, gr_relative_path = path, gr_created_at = at\<rparr>"
  let ?t = "s\<lparr>tr_artifacts := tr_artifacts s @ [r]\<rparr>"
  have t: "snd (record_artifact eid d path at s) = ?t" and valid: "validate_artifact r = Inr ()"
    and h: "trial_history eid s \<noteq> []"
    and none: "List.find (\<lambda>q. gr_experiment_id q = eid \<and> gd_name (gr_digest q) = gd_name d) (tr_artifacts s) = None"
    using False by (auto simp: record_artifact_def Let_def r_def split: sum.splits option.splits if_splits)
  have fresh: "\<forall>q \<in> set (tr_artifacts s). \<not> (gr_experiment_id q = eid \<and> gd_name (gr_digest q) = gd_name d)"
    using none by (simp add: find_None_set)
  have "artifacts_ok ?t"
    using ok valid fresh h registered_history [OF ok] by (auto simp: registry_ok_def artifacts_ok_def r_def)
  then have "registry_ok H ?t"
    using ok by (auto simp: registry_ok_def within_budget_frame [of ?t s] experiments_ok_frame [of ?t s]
        histories_ok_frame [of ?t s])
  then show ?thesis by (simp add: t)
qed (use ok in simp)

lemma registry_step_ok: "registry_ok H s \<Longrightarrow> registry_op_valid H op \<Longrightarrow> registry_ok H (registry_step H op s)"
  by (cases op) (simp_all add: registry_step_def registry_op_valid_def register_protocol_ok allocate_trial_ok
      register_experiment_ok transition_ok promote_claimed_def promote_verified_ok record_artifact_ok)

interpretation trial_sys: invariant_system "\<lambda>s. s = empty_registry" "registry_step H" "\<lambda>op s. registry_op_valid H op"
  "registry_ok H" for H
  by unfold_locales (auto intro: registry_step_ok simp: registry_ok_empty)

lemma allowed_registry_run: "trial_sys.allowed_run H ops s \<longleftrightarrow> (\<forall>op \<in> set ops. registry_op_valid H op)"
  by (induction ops arbitrary: s) auto

lemma registry_run_ok:
  "registry_ok H s \<Longrightarrow> \<forall>op \<in> set ops. registry_op_valid H op \<Longrightarrow> registry_ok H (fold (registry_step H) ops s)"
  using trial_sys.run_inv [of H s ops] by (simp add: allowed_registry_run)

subsection \<open>What an allocation keeps\<close>

text \<open>Allocations are never rewritten, except that an experiment claims one.\<close>

definition unclaimed :: "allocation_row \<Rightarrow> allocation_row" where
  "unclaimed r = r\<lparr>aw_allocation := (aw_allocation r)\<lparr>ta_experiment_id := None\<rparr>\<rparr>"

definition allocations_kept :: "trial_registry \<Rightarrow> trial_registry \<Rightarrow> bool" where
  "allocations_kept s t \<longleftrightarrow> (\<exists>rows. map unclaimed (tr_allocations t) = map unclaimed (tr_allocations s) @ rows)"

lemma allocations_kept_trans: "allocations_kept s t \<Longrightarrow> allocations_kept t u \<Longrightarrow> allocations_kept s u"
  by (auto simp: allocations_kept_def)

lemma allocations_kept_same: "tr_allocations t = tr_allocations s \<Longrightarrow> allocations_kept s t"
  by (simp add: allocations_kept_def)

lemma append_trial_allocations [simp]: "tr_allocations (snd (append_trial eid st at rh fr md s)) = tr_allocations s"
  by (simp add: append_trial_def Let_def split: sum.splits)

lemma transaction_frame: "f (snd (body s)) = f s \<Longrightarrow> f (snd (transaction body s)) = f s"
  by (auto simp: transaction_def split: prod.splits sum.splits)

lemma register_body_kept: "allocations_kept s (snd (register_body eid m at s))"
proof -
  let ?u = "s\<lparr>tr_experiments := tr_experiments s @ [(eid, m)],
    tr_allocations := consume (em_trial_allocation_id m) eid (tr_allocations s)\<rparr>"
  have "snd (register_body eid m at s) = s \<or>
      tr_allocations (snd (register_body eid m at s)) = tr_allocations (snd (append_trial eid TS_REGISTERED at None None [] ?u))"
    by (auto simp: register_body_def Let_def consume_def and_then_def split: sum.splits)
  then show ?thesis
    by (auto simp: allocations_kept_def consume_keeps unclaimed_def)
qed

lemma registry_step_keeps: "allocations_kept s (registry_step H op s)"
proof (cases op)
  case (Allocate_Trial ph ps role key at)
  obtain r t where b: "allocate_body H ph (canonical_hash H (JObj ps)) role key at s = (r, t)" by force
  then have "allocations_kept s t"
    by (cases rule: allocate_body_cases) (auto simp: allocations_kept_def)
  then show ?thesis
    using b Allocate_Trial
    by (auto simp: registry_step_def allocate_trial_def snd_and_then_read snd_transaction allocations_kept_same split: sum.splits)
next
  case (Register_Experiment m at)
  have "allocations_kept s (snd (transaction (register_body eid m at) s))" for eid
    using register_body_kept [of s eid m at] by (auto simp: snd_transaction allocations_kept_same split: prod.splits sum.splits)
  then show ?thesis
    using Register_Experiment
    by (auto simp: registry_step_def register_experiment_def Let_def allocations_kept_same split: sum.splits option.splits)
qed (auto simp: registry_step_def register_protocol_def transition_def promote_claimed_def promote_verified_def
    record_artifact_def Let_def transaction_frame [where f = tr_allocations] intro!: allocations_kept_same split: sum.splits option.splits)

lemma registry_run_keeps: "allocations_kept s (fold (registry_step H) ops s)"
proof (induction ops arbitrary: s)
  case (Cons op ops)
  show ?case using allocations_kept_trans [OF registry_step_keeps Cons] by simp
qed (simp add: allocations_kept_same)

subsection \<open>What a history keeps\<close>

definition events_kept :: "trial_registry \<Rightarrow> trial_registry \<Rightarrow> bool" where
  "events_kept s t \<longleftrightarrow> (\<exists>es. tr_events t = tr_events s @ es)"

lemma events_kept_trans: "events_kept s t \<Longrightarrow> events_kept t u \<Longrightarrow> events_kept s u"
  by (auto simp: events_kept_def)

lemma events_kept_same: "tr_events t = tr_events s \<Longrightarrow> events_kept s t"
  by (simp add: events_kept_def)

lemma append_trial_keeps: "events_kept s (snd (append_trial eid st at rh fr md s))"
  by (simp add: append_trial_def Let_def events_kept_def split: sum.splits)

lemma transaction_keeps: "events_kept s (snd (body s)) \<Longrightarrow> events_kept s (snd (transaction body s))"
  by (auto simp: snd_transaction events_kept_same split: prod.splits sum.splits)

lemma register_body_events: "events_kept s (snd (register_body eid m at s))"
proof -
  let ?u = "s\<lparr>tr_experiments := tr_experiments s @ [(eid, m)],
    tr_allocations := consume (em_trial_allocation_id m) eid (tr_allocations s)\<rparr>"
  have "snd (register_body eid m at s) = s \<or>
      tr_events (snd (register_body eid m at s)) = tr_events (snd (append_trial eid TS_REGISTERED at None None [] ?u))"
    by (auto simp: register_body_def Let_def consume_def and_then_def split: sum.splits)
  then show ?thesis
    using append_trial_keeps [of ?u eid TS_REGISTERED at None None "[]"] by (auto simp: events_kept_def)
qed

lemma registry_step_events: "events_kept s (registry_step H op s)"
proof (cases op)
  case (Allocate_Trial ph ps role key at)
  obtain r t where b: "allocate_body H ph (canonical_hash H (JObj ps)) role key at s = (r, t)" by force
  then have "events_kept s t"
    by (cases rule: allocate_body_cases) (auto simp: events_kept_def)
  then show ?thesis
    using b Allocate_Trial
    by (auto simp: registry_step_def allocate_trial_def snd_and_then_read snd_transaction events_kept_same split: sum.splits)
next
  case (Register_Experiment m at)
  then show ?thesis
    by (auto simp: registry_step_def register_experiment_def Let_def events_kept_same
        intro!: transaction_keeps register_body_events split: sum.splits option.splits)
qed (auto simp: registry_step_def register_protocol_def transition_def promote_claimed_def promote_verified_def
    record_artifact_def Let_def intro!: transaction_keeps append_trial_keeps intro: events_kept_same
    split: sum.splits option.splits)

lemma registry_run_events: "events_kept s (fold (registry_step H) ops s)"
proof (induction ops arbitrary: s)
  case (Cons op ops)
  show ?case using events_kept_trans [OF registry_step_events Cons] by simp
qed (simp add: events_kept_same)

text \<open>Nothing follows a failed, aborted or promoted trial.\<close>

definition finished :: "trial_status \<Rightarrow> bool" where
  "finished st \<longleftrightarrow> st = TS_FAILED \<or> st = TS_ABORTED \<or> st = TS_PROMOTED"

lemma finished_last: "finished (te_status e) \<Longrightarrow> \<not> follows e f"
  by (auto simp: finished_def follows_def allowed_next_def)

lemma finished_history_final:
  assumes "registry_ok H t" "events_kept s t" and h: "trial_history eid s \<noteq> []"
    and fin: "finished (te_status (last (trial_history eid s)))"
  shows "trial_history eid t = trial_history eid s"
proof -
  obtain es where es: "trial_history eid t = trial_history eid s @ es"
    using assms(2) by (auto simp: events_kept_def trial_history_def)
  then have "trial_history eid t \<noteq> []" using h by simp
  then have "legal_history (trial_history eid t)"
    using assms(1) registered_history [OF assms(1)] by (auto simp: registry_ok_def histories_ok_def)
  then have "es = [] \<or> follows (last (trial_history eid s)) (hd es)"
    using h by (simp add: es legal_history_def successively_append_iff)
  then show ?thesis using es finished_last [OF fin] by auto
qed

subsection \<open>The budget of a protocol\<close>

lemma experiments_within_budget:
  assumes ok: "registry_ok H s" and p: "p \<in> set (tr_protocols s)"
  shows "int (length (filter (\<lambda>x. em_protocol_hash (snd x) = pr_protocol_hash p) (tr_experiments s))) \<le> pr_max_trials p"
proof -
  let ?xs = "filter (\<lambda>x. em_protocol_hash (snd x) = pr_protocol_hash p) (tr_experiments s)"
  let ?aid = "\<lambda>x. em_trial_allocation_id (snd x)"
  have exps: "experiments_ok H s" and keys: "keys_ok (tr_allocations s)" using ok by (simp_all add: registry_ok_def)
  have claim: "\<exists>r \<in> set (tr_allocations s). consumed_by r (fst x) (snd x)" if "x \<in> set (tr_experiments s)" for x
    using exps that unfolding experiments_ok_def by fastforce
  have "inj_on ?aid (set (tr_experiments s))"
  proof (rule inj_onI)
    fix x y assume x: "x \<in> set (tr_experiments s)" and y: "y \<in> set (tr_experiments s)" and same: "?aid x = ?aid y"
    obtain q r where q: "q \<in> set (tr_allocations s)" "consumed_by q (fst x) (snd x)"
      and r: "r \<in> set (tr_allocations s)" "consumed_by r (fst y) (snd y)"
      using claim x y by blast
    have "q = r"
      by (rule same_key_same_row [where key = "ta_allocation_id \<circ> aw_allocation"])
        (use keys q r same in \<open>auto simp: keys_ok_def consumed_by_def Let_def\<close>)
    then have "fst x = fst y" using q r by (simp add: consumed_by_def Let_def)
    then show "x = y" using exps x y by (auto simp: experiments_ok_def dest: same_key_same_row)
  qed
  moreover have "distinct (tr_experiments s)" using exps by (simp add: experiments_ok_def distinct_map)
  ultimately have d: "distinct (map ?aid ?xs)" by (auto simp: distinct_map intro: inj_on_subset)
  have sub: "set (map ?aid ?xs) \<subseteq> set (map (ta_allocation_id \<circ> aw_allocation) (trials_of (pr_protocol_hash p) s))"
  proof
    fix a assume "a \<in> set (map ?aid ?xs)"
    then obtain x where x: "x \<in> set (tr_experiments s)" "em_protocol_hash (snd x) = pr_protocol_hash p" "a = ?aid x" by auto
    then obtain q where "q \<in> set (tr_allocations s)" "consumed_by q (fst x) (snd x)" using claim by blast
    then show "a \<in> set (map (ta_allocation_id \<circ> aw_allocation) (trials_of (pr_protocol_hash p) s))"
      using x by (force simp: trials_of_def consumed_by_def Let_def)
  qed
  have "length ?xs = card (set (map ?aid ?xs))" using distinct_card [OF d] by simp
  also have "\<dots> \<le> length (trials_of (pr_protocol_hash p) s)"
    using card_mono [OF _ sub] card_length [of "map (ta_allocation_id \<circ> aw_allocation) (trials_of (pr_protocol_hash p) s)"]
    by simp
  finally show ?thesis using ok p by (force simp: registry_ok_def within_budget_def)
qed

subsection \<open>Asking again\<close>

text \<open>The row a call of \<open>allocate_trial\<close> asks for.\<close>

definition holds_trial ::
  "(json \<Rightarrow> string) \<Rightarrow> string \<Rightarrow> (string \<times> json) list \<Rightarrow> window_role \<Rightarrow> string \<Rightarrow> allocation_row \<Rightarrow> bool" where
  "holds_trial H ph ps role key r \<longleftrightarrow> ta_protocol_hash (aw_allocation r) = ph \<and> aw_idempotency_key r = key \<and>
     ta_parameter_point_hash (aw_allocation r) = canonical_hash H (JObj ps) \<and> ta_window_role (aw_allocation r) = role"

lemma unclaimed_holds: "unclaimed q = unclaimed r \<Longrightarrow> holds_trial H ph ps role key q = holds_trial H ph ps role key r"
  by (cases q; cases r; cases "aw_allocation q"; cases "aw_allocation r") (auto simp: unclaimed_def holds_trial_def)

lemma unclaimed_same:
  "unclaimed q = unclaimed r \<Longrightarrow> (aw_allocation q)\<lparr>ta_experiment_id := ta_experiment_id (aw_allocation r)\<rparr> = aw_allocation r"
  by (cases q; cases r; cases "aw_allocation q"; cases "aw_allocation r") (auto simp: unclaimed_def)

lemma unclaimed_valid:
  assumes ok: "registry_ok H u" and q: "q \<in> set (tr_allocations u)" "unclaimed q = unclaimed r"
    and valid: "validate_allocation (aw_allocation r) = Inr ()"
  shows "validate_allocation (aw_allocation q) = Inr ()"
proof -
  have "opt_hash (ta_experiment_id (aw_allocation q))"
  proof (cases "ta_experiment_id (aw_allocation q)")
    case (Some eid)
    then have "eid \<in> fst ` set (tr_experiments u)" using ok q(1) by (force simp: registry_ok_def experiments_ok_def)
    then have "legal_history (trial_history eid u)" using ok by (simp add: registry_ok_def histories_ok_def)
    then obtain e where "e \<in> set (trial_history eid u)" "event_sound e" by (metis legal_history_def hd_in_set)
    then show ?thesis using Some by (auto simp: event_sound_def trial_history_def opt_hash_def)
  qed (simp add: opt_hash_def)
  then show ?thesis
    using valid unclaimed_same [OF q(2)]
    by (cases "aw_allocation q"; cases "aw_allocation r") (auto simp: validate_allocation_def)
qed

lemma allocations_kept_row:
  assumes "allocations_kept s t" and "r \<in> set (tr_allocations s)"
  shows "\<exists>q \<in> set (tr_allocations t). unclaimed q = unclaimed r"
proof -
  obtain rows where "map unclaimed (tr_allocations t) = map unclaimed (tr_allocations s) @ rows"
    using assms(1) by (auto simp: allocations_kept_def)
  then have "unclaimed ` set (tr_allocations s) \<subseteq> unclaimed ` set (tr_allocations t)"
    by (metis Un_upper1 set_append set_map)
  then show ?thesis using assms(2) by force
qed

lemma find_holds:
  assumes "registry_ok H s" "r \<in> set (tr_allocations s)" "ta_protocol_hash (aw_allocation r) = ph" "aw_idempotency_key r = key"
  shows "List.find (\<lambda>r. ta_protocol_hash (aw_allocation r) = ph \<and> aw_idempotency_key r = key) (tr_allocations s) = Some r"
  using find_unique_key [where key = "\<lambda>r. (ta_protocol_hash (aw_allocation r), aw_idempotency_key r)" and x = r and xs = "tr_allocations s"]
    assms by (simp add: registry_ok_def keys_ok_def)

lemma find_allocation:
  assumes "registry_ok H s" "r \<in> set (tr_allocations s)"
  shows "List.find (\<lambda>q. ta_allocation_id (aw_allocation q) = ta_allocation_id (aw_allocation r)) (tr_allocations s) = Some r"
  using find_unique_key [where key = "ta_allocation_id \<circ> aw_allocation" and x = r and xs = "tr_allocations s"] assms
  by (simp add: registry_ok_def keys_ok_def comp_def)

lemma held_allocation:
  assumes ok: "registry_ok H s" and r: "r \<in> set (tr_allocations s)" and held: "holds_trial H ph ps role key r"
    and "validate_allocation (aw_allocation r) = Inr ()" "\<not> blank_text key"
  shows "allocate_trial H ph ps role key at s = (Inr (aw_allocation r), s)"
proof -
  have "ph \<in> pr_protocol_hash ` set (tr_protocols s)"
    using ok r held by (auto simp: registry_ok_def within_budget_def holds_trial_def)
  then obtain p where "lookup pr_protocol_hash ph (tr_protocols s) = Some p"
    by (cases "lookup pr_protocol_hash ph (tr_protocols s)") (auto simp: find_None_iff)
  then have "allocate_body H ph (canonical_hash H (JObj ps)) role key at s = (Inr (ta_allocation_id (aw_allocation r)), s)"
    using find_holds [OF ok r, of ph key] held by (simp add: allocate_body_def holds_trial_def)
  moreover have "allocation_of (ta_allocation_id (aw_allocation r)) s = Inr (aw_allocation r)"
    using find_allocation [OF ok r] assms(4) by (simp add: allocation_of_def)
  ultimately show ?thesis using assms(5) by (simp add: allocate_trial_def transaction_def)
qed

lemma allocated_row:
  assumes ok: "registry_ok H t" and run: "allocate_trial H ph ps role key at s = (Inr a, t)"
  shows "\<exists>r \<in> set (tr_allocations t). aw_allocation r = a \<and> holds_trial H ph ps role key r \<and> validate_allocation a = Inr ()"
proof -
  obtain aid where body: "allocate_body H ph (canonical_hash H (JObj ps)) role key at s = (Inr aid, t)"
    and a: "allocation_of aid t = Inr a"
    using run by (auto simp: allocate_trial_def and_then_Inr_iff split: if_splits)
  have "\<exists>r \<in> set (tr_allocations t). ta_allocation_id (aw_allocation r) = aid \<and> holds_trial H ph ps role key r"
  proof (cases "List.find (\<lambda>r. ta_protocol_hash (aw_allocation r) = ph \<and> aw_idempotency_key r = key) (tr_allocations s)")
    case (Some r)
    then have r: "r \<in> set (tr_allocations s)" "ta_protocol_hash (aw_allocation r) = ph" "aw_idempotency_key r = key"
      using find_Some_set [OF Some] by auto
    then show ?thesis
      using body Some by (intro bexI [of _ r]) (auto simp: allocate_body_def holds_trial_def split: option.splits if_splits)
  next
    case None
    then obtain p where p: "lookup pr_protocol_hash ph (tr_protocols s) = Some p"
      using body by (auto simp: allocate_body_def split: option.splits)
    then have "pr_protocol_hash p = ph" using find_Some_set [OF p] by simp
    then show ?thesis
      using body None p by (auto simp: allocate_body_def Let_def holds_trial_def new_allocation_def split: if_splits)
  qed
  then obtain r where r: "r \<in> set (tr_allocations t)" "ta_allocation_id (aw_allocation r) = aid" "holds_trial H ph ps role key r"
    by blast
  have "aw_allocation r = a \<and> validate_allocation a = Inr ()"
    using a find_allocation [OF ok r(1)] r(2) by (auto simp: allocation_of_def split: sum.splits)
  then show ?thesis using r by blast
qed

end
