(* ===== verification/Promotion.thy ===== *)
theory Promotion
  imports Trial_Books Ctl_Freeze
begin

section \<open>Promotion of a research program\<close>

text \<open>
  \<open>src/hanalpha/research/promotion.py\<close>: the thresholds and gates, the two signed authority documents and
  \<open>PromotionService.promote\<close>. The file system, the parser of the JSON files, SHA-256 and HMAC are parameters:
  a record \<open>promotion_world\<close>. A file content is its bytes; \<open>None\<close> stands for a path that is no file, and
  \<open>pw_inside\<close> tells whether a relative path resolves to a place below the artifact root.
\<close>

subsection \<open>Gates\<close>

record promotion_thresholds =
  ph_minimum_observations :: int
  ph_minimum_oos_return_after_costs :: rat
  ph_minimum_deflated_sharpe_probability :: rat
  ph_maximum_pbo :: rat
  ph_maximum_drawdown :: rat
  ph_minimum_cost_stress_return :: rat
  ph_maximum_single_instrument_contribution :: rat
  ph_minimum_fills :: int
  ph_minimum_time_in_market :: rat
  ph_minimum_benchmark_excess_return :: rat

definition unit_interval :: "rat \<Rightarrow> bool" where
  "unit_interval x \<longleftrightarrow> 0 \<le> x \<and> x \<le> 1"

definition validate_thresholds :: "promotion_thresholds \<Rightarrow> unit res" where
  "validate_thresholds t = checks
     [(ph_minimum_observations t \<ge> 30, ValueError ''minimum_observations''),
      (unit_interval (ph_minimum_deflated_sharpe_probability t), ValueError ''minimum_deflated_sharpe_probability''),
      (unit_interval (ph_maximum_pbo t), ValueError ''maximum_pbo''),
      (unit_interval (ph_maximum_drawdown t), ValueError ''maximum_drawdown''),
      (unit_interval (ph_maximum_single_instrument_contribution t), ValueError ''maximum_single_instrument_contribution''),
      (ph_minimum_fills t \<ge> 2, ValueError ''minimum_fills''),
      (0 < ph_minimum_time_in_market t \<and> ph_minimum_time_in_market t \<le> 1, ValueError ''minimum_time_in_market'')]"

record promotion_evidence =
  pe_protocol_hash :: string
  pe_expected_protocol_hash :: string
  pe_observations :: int
  pe_oos_return_after_costs :: rat
  pe_deflated_sharpe_probability :: "rat option"
  pe_pbo :: "rat option"
  pe_max_drawdown :: rat
  pe_cost_stress_return :: rat
  pe_largest_instrument_contribution :: rat
  pe_parameter_stable :: bool
  pe_artifacts_verified :: bool
  pe_reproducible :: bool
  pe_independent_approved :: bool
  pe_budget_exhausted :: bool
  pe_fills :: int
  pe_time_in_market :: rat
  pe_benchmark_excess_return :: rat

definition opt_unit_interval :: "rat option \<Rightarrow> bool" where
  "opt_unit_interval x = (case x of None \<Rightarrow> True | Some v \<Rightarrow> unit_interval v)"

definition validate_evidence_packet :: "promotion_evidence \<Rightarrow> unit res" where
  "validate_evidence_packet e = checks
     [(pe_observations e \<ge> 0, ValueError ''observations''),
      (opt_unit_interval (pe_deflated_sharpe_probability e), ValueError ''deflated_sharpe_probability''),
      (opt_unit_interval (pe_pbo e), ValueError ''pbo''), (pe_max_drawdown e \<ge> 0, ValueError ''max_drawdown''),
      (pe_largest_instrument_contribution e \<ge> 0, ValueError ''largest_instrument_contribution''),
      (pe_fills e \<ge> 0, ValueError ''fills''), (unit_interval (pe_time_in_market e), ValueError ''time_in_market'')]"

definition promotion_gates :: "promotion_evidence \<Rightarrow> promotion_thresholds \<Rightarrow> (bool \<times> string) list" where
  "promotion_gates e t =
     [(pe_protocol_hash e = pe_expected_protocol_hash e, ''protocol_hash_mismatch''),
      (\<not> pe_budget_exhausted e, ''research_budget_exhausted''),
      (pe_observations e \<ge> ph_minimum_observations t, ''insufficient_observations''),
      (pe_oos_return_after_costs e \<ge> ph_minimum_oos_return_after_costs t, ''oos_return_below_threshold''),
      (case pe_deflated_sharpe_probability e of None \<Rightarrow> False
         | Some q \<Rightarrow> q \<ge> ph_minimum_deflated_sharpe_probability t, ''deflated_sharpe_gate_failed_or_missing''),
      (case pe_pbo e of None \<Rightarrow> False | Some q \<Rightarrow> q \<le> ph_maximum_pbo t, ''pbo_gate_failed_or_missing''),
      (pe_max_drawdown e \<le> ph_maximum_drawdown t, ''drawdown_gate_failed''),
      (pe_cost_stress_return e \<ge> ph_minimum_cost_stress_return t, ''cost_stress_gate_failed''),
      (pe_largest_instrument_contribution e \<le> ph_maximum_single_instrument_contribution t, ''concentration_gate_failed''),
      (pe_parameter_stable e, ''parameter_instability''),
      (pe_artifacts_verified e, ''artifact_verification_failed''),
      (pe_reproducible e, ''reproducibility_failed''),
      (pe_independent_approved e, ''independent_approval_missing''),
      (pe_fills e \<ge> ph_minimum_fills t, ''insufficient_fills''),
      (pe_time_in_market e \<ge> ph_minimum_time_in_market t, ''insufficient_time_in_market''),
      (pe_benchmark_excess_return e \<ge> ph_minimum_benchmark_excess_return t, ''benchmark_excess_return_below_threshold'')]"

definition promotion_failures :: "promotion_evidence \<Rightarrow> promotion_thresholds \<Rightarrow> string list" where
  "promotion_failures e t = map snd (filter (\<lambda>g. \<not> fst g) (promotion_gates e t))"

lemma promotion_failures_empty: "promotion_failures e t = [] \<longleftrightarrow> list_all fst (promotion_gates e t)"
  by (simp add: promotion_failures_def filter_empty_conv list_all_iff)

subsection \<open>Authority documents\<close>

record validation_assessment =
  va_experiment_id :: string
  va_protocol_hash :: string
  va_result_hash :: string
  va_validator_id :: string
  va_observations :: int
  va_deflated_sharpe_probability :: "rat option"
  va_pbo :: "rat option"
  va_cost_stress_return :: rat
  va_largest_instrument_contribution :: rat
  va_parameter_stable :: bool
  va_benchmark_return :: rat
  va_reproduction_result_hash :: "string option"
  va_assessed_at :: time
  va_signature :: string

definition validate_validation :: "validation_assessment \<Rightarrow> unit res" where
  "validate_validation a = checks
     [(hash_pattern (va_experiment_id a), ValueError ''experiment_id''), (hash_pattern (va_protocol_hash a), ValueError ''protocol_hash''),
      (hash_pattern (va_result_hash a), ValueError ''result_hash''), (va_validator_id a \<noteq> [], ValueError ''validator_id''),
      (va_observations a \<ge> 0, ValueError ''observations''),
      (opt_unit_interval (va_deflated_sharpe_probability a), ValueError ''deflated_sharpe_probability''),
      (opt_unit_interval (va_pbo a), ValueError ''pbo''),
      (va_largest_instrument_contribution a \<ge> 0, ValueError ''largest_instrument_contribution''),
      (opt_hash (va_reproduction_result_hash a), ValueError ''reproduction_result_hash''),
      (hash_pattern (va_signature a), ValueError ''signature'')]"

text \<open>Keys are sorted when a dump is serialised. \<open>signing_payload\<close> keeps absent fields as nulls, \<open>canonical_hash\<close> leaves them out.\<close>

definition assessment_head :: "validation_assessment \<Rightarrow> (string \<times> json) list" where
  "assessment_head a = [(''experiment_id'', JStr (va_experiment_id a)), (''protocol_hash'', JStr (va_protocol_hash a)),
     (''result_hash'', JStr (va_result_hash a)), (''validator_id'', JStr (va_validator_id a)),
     (''observations'', JInt (va_observations a)), (''cost_stress_return'', JNum (va_cost_stress_return a)),
     (''largest_instrument_contribution'', JNum (va_largest_instrument_contribution a)),
     (''parameter_stable'', JBool (va_parameter_stable a)), (''benchmark_return'', JNum (va_benchmark_return a)),
     (''assessed_at'', JTime (va_assessed_at a))]"

definition assessment_payload :: "validation_assessment \<Rightarrow> json" where
  "assessment_payload a = JObj (assessment_head a @
     [(''deflated_sharpe_probability'', opt_json JNum (va_deflated_sharpe_probability a)),
      (''pbo'', opt_json JNum (va_pbo a)), (''reproduction_result_hash'', opt_json JStr (va_reproduction_result_hash a))])"

definition assessment_doc :: "validation_assessment \<Rightarrow> json" where
  "assessment_doc a = JObj (assessment_head a @
     present ''deflated_sharpe_probability'' JNum (va_deflated_sharpe_probability a) @ present ''pbo'' JNum (va_pbo a) @
     present ''reproduction_result_hash'' JStr (va_reproduction_result_hash a) @ [(''signature'', JStr (va_signature a))])"

record independent_approval =
  ia_experiment_id :: string
  ia_reviewer_id :: string
  ia_reviewer_role :: string
  ia_approved :: bool
  ia_rationale :: string
  ia_approved_at :: time
  ia_signature :: string

definition validate_approval :: "independent_approval \<Rightarrow> unit res" where
  "validate_approval a = checks
     [(hash_pattern (ia_experiment_id a), ValueError ''experiment_id''), (ia_reviewer_id a \<noteq> [], ValueError ''reviewer_id''),
      (ia_reviewer_role a = ''independent_reviewer'', ValueError ''reviewer_role''), (ia_rationale a \<noteq> [], ValueError ''rationale''),
      (hash_pattern (ia_signature a), ValueError ''signature'')]"

definition approval_fields :: "independent_approval \<Rightarrow> (string \<times> json) list" where
  "approval_fields a = [(''experiment_id'', JStr (ia_experiment_id a)), (''reviewer_id'', JStr (ia_reviewer_id a)),
     (''reviewer_role'', JStr (ia_reviewer_role a)), (''approved'', JBool (ia_approved a)),
     (''rationale'', JStr (ia_rationale a)), (''approved_at'', JTime (ia_approved_at a))]"

definition approval_payload :: "independent_approval \<Rightarrow> json" where
  "approval_payload a = JObj (approval_fields a)"

definition review_approval_doc :: "independent_approval \<Rightarrow> json" where
  "review_approval_doc a = JObj (approval_fields a @ [(''signature'', JStr (ia_signature a))])"

subsection \<open>The world of the service\<close>

record promotion_world =
  pw_inside :: "string \<Rightarrow> bool"
  pw_file :: "string \<Rightarrow> string option"
  pw_sha256 :: "string \<Rightarrow> string"
  pw_hmac :: "string \<Rightarrow> json \<Rightarrow> string"
  pw_parse_manifest :: "string \<Rightarrow> experiment_manifest res"
  pw_parse_result :: "string \<Rightarrow> experiment_result res"
  pw_parse_assessment :: "string \<Rightarrow> validation_assessment res"
  pw_parse_approval :: "string \<Rightarrow> independent_approval res"

record promotion_keys =
  pk_validators :: "(string \<times> string) list"
  pk_reviewers :: "(string \<times> string) list"

definition authority_signature :: "promotion_world \<Rightarrow> json \<Rightarrow> string \<Rightarrow> string" where
  "authority_signature w payload secret = pw_hmac w secret (sort_keys payload)"

definition validate_result :: "experiment_result \<Rightarrow> unit res" where
  "validate_result r = checks
     [(hash_pattern (xt_experiment_id r), ValueError ''experiment_id''), (hash_pattern (xt_event_hash r), ValueError ''event_hash''),
      (hash_pattern (xt_equity_hash r), ValueError ''equity_hash''), (xt_fill_count r \<ge> 0, ValueError ''fill_count'')]"

text \<open>\<open>model_validate_json((directory / name).read_text())\<close>: the parsed object passes the model's validators.\<close>

definition load_json :: "promotion_world \<Rightarrow> (string \<Rightarrow> 'a res) \<Rightarrow> ('a \<Rightarrow> unit res) \<Rightarrow> string \<Rightarrow> 'a res" where
  "load_json w parse validate path =
     (case pw_file w path of None \<Rightarrow> Inl (FileNotFoundError path)
      | Some text \<Rightarrow> (case parse text of Inl e \<Rightarrow> Inl e
          | Inr x \<Rightarrow> (case validate x of Inl e \<Rightarrow> Inl e | Inr _ \<Rightarrow> Inr x)))"

definition artifact_verified :: "promotion_world \<Rightarrow> artifact_record \<Rightarrow> unit res" where
  "artifact_verified w r =
     (case pw_file w (gr_relative_path r) of
        None \<Rightarrow> Inl (IllegalTrialTransition ''artifact path escaped root or is missing'')
      | Some content \<Rightarrow> checks
          [(pw_inside w (gr_relative_path r), IllegalTrialTransition ''artifact path escaped root or is missing''),
           (int (length content) = gd_size (gr_digest r) \<and> pw_sha256 w content = gd_sha256 (gr_digest r),
            IllegalTrialTransition ''artifact digest mismatch'')])"

fun verify_all :: "promotion_world \<Rightarrow> artifact_record list \<Rightarrow> string list res" where
  "verify_all w [] = Inr []"
| "verify_all w (r # rs) = (case artifact_verified w r of Inl e \<Rightarrow> Inl e
     | Inr _ \<Rightarrow> (case verify_all w rs of Inl e \<Rightarrow> Inl e | Inr names \<Rightarrow> Inr (gd_name (gr_digest r) # names)))"

definition verified_artifacts :: "promotion_world \<Rightarrow> string \<Rightarrow> trial_registry \<Rightarrow> string list res" where
  "verified_artifacts w eid s = verify_all w (artifacts_of eid s)"

definition verify_assessment :: "promotion_world \<Rightarrow> promotion_keys \<Rightarrow> validation_assessment \<Rightarrow> unit res" where
  "verify_assessment w keys a = checks
     [(case map_of (pk_validators keys) (va_validator_id a) of None \<Rightarrow> False
         | Some key \<Rightarrow> va_signature a = authority_signature w (assessment_payload a) key,
       IllegalTrialTransition ''validation authority signature is invalid'')]"

definition verify_approval :: "promotion_world \<Rightarrow> promotion_keys \<Rightarrow> independent_approval \<Rightarrow> unit res" where
  "verify_approval w keys a = checks
     [(case map_of (pk_reviewers keys) (ia_reviewer_id a) of None \<Rightarrow> False
         | Some key \<Rightarrow> ia_signature a = authority_signature w (approval_payload a) key,
       IllegalTrialTransition ''review authority signature is invalid'')]"

subsection \<open>The promotion\<close>

definition required_artifacts :: "string list" where
  "required_artifacts = [''manifest.json'', ''result.json'', ''validation-assessment.json'', ''independent-approval.json'']"

definition evidence_of :: "experiment_manifest \<Rightarrow> experiment_result \<Rightarrow> (json \<Rightarrow> string) \<Rightarrow> validation_assessment \<Rightarrow> promotion_evidence" where
  "evidence_of m r H a = \<lparr>pe_protocol_hash = va_protocol_hash a, pe_expected_protocol_hash = em_protocol_hash m,
     pe_observations = va_observations a, pe_oos_return_after_costs = mt_total_return (xt_metrics r),
     pe_deflated_sharpe_probability = va_deflated_sharpe_probability a, pe_pbo = va_pbo a,
     pe_max_drawdown = mt_max_drawdown (xt_metrics r), pe_cost_stress_return = va_cost_stress_return a,
     pe_largest_instrument_contribution = va_largest_instrument_contribution a,
     pe_parameter_stable = va_parameter_stable a, pe_artifacts_verified = True,
     pe_reproducible = (va_reproduction_result_hash a = Some (result_hash H r)),
     pe_independent_approved = True, pe_budget_exhausted = False, pe_fills = xt_fill_count r,
     pe_time_in_market = mt_time_in_market (xt_metrics r),
     pe_benchmark_excess_return = mt_total_return (xt_metrics r) - va_benchmark_return a\<rparr>"

definition thresholds_of :: "success_criteria \<Rightarrow> promotion_thresholds" where
  "thresholds_of c = \<lparr>ph_minimum_observations = sc_minimum_observations c,
     ph_minimum_oos_return_after_costs = sc_minimum_oos_return c,
     ph_minimum_deflated_sharpe_probability = sc_minimum_dsr_probability c, ph_maximum_pbo = sc_maximum_pbo c,
     ph_maximum_drawdown = sc_maximum_drawdown c, ph_minimum_cost_stress_return = sc_minimum_cost_stress_return c,
     ph_maximum_single_instrument_contribution = sc_maximum_contribution_share c,
     ph_minimum_fills = sc_minimum_fills c, ph_minimum_time_in_market = sc_minimum_time_in_market c,
     ph_minimum_benchmark_excess_return = sc_minimum_benchmark_excess_return c\<rparr>"

text \<open>The binding of the signed documents to the trial, in the order of the tests of \<open>promote\<close>.\<close>

definition authority_bound ::
  "(json \<Rightarrow> string) \<Rightarrow> string \<Rightarrow> time \<Rightarrow> trial_event \<Rightarrow> experiment_manifest \<Rightarrow> research_protocol \<Rightarrow> experiment_manifest \<Rightarrow>
   experiment_result \<Rightarrow> validation_assessment \<Rightarrow> independent_approval \<Rightarrow> unit res" where
  "authority_bound H eid at completed m p am r a v = checks
     [(sort_keys (manifest_doc am) = sort_keys (manifest_doc m),
       IllegalTrialTransition ''manifest artifact differs from registry''),
      (va_assessed_at a \<le> at \<and> ia_approved_at v \<le> at,
       IllegalTrialTransition ''promotion authority artifact is from the future''),
      (ia_reviewer_id v \<noteq> pp_researcher_id p,
       IllegalTrialTransition ''researcher cannot independently approve own program''),
      (ia_approved v, IllegalTrialTransition ''independent reviewer rejected promotion''),
      (va_experiment_id a = eid \<and> va_protocol_hash a = em_protocol_hash m \<and> va_result_hash a = result_hash H r \<and>
       Some (result_hash H r) = te_result_hash completed \<and> xt_experiment_id r = eid \<and> ia_experiment_id v = eid,
       IllegalTrialTransition ''signed promotion artifacts do not bind to trial'')]"

definition gates_passed :: "promotion_evidence \<Rightarrow> promotion_thresholds \<Rightarrow> unit res" where
  "gates_passed e t = bind_res (validate_evidence_packet e) (\<lambda>_. bind_res (validate_thresholds t) (\<lambda>_.
     checks [(promotion_failures e t = [], IllegalTrialTransition (''promotion gates failed: '' @ join_comma (promotion_failures e t)))]))"

definition promotion_case ::
  "promotion_world \<Rightarrow> promotion_keys \<Rightarrow> (json \<Rightarrow> string) \<Rightarrow> string \<Rightarrow> time \<Rightarrow> trial_registry \<Rightarrow>
   (validation_assessment \<times> independent_approval) res" where
  "promotion_case w keys H eid at s =
     (let h = trial_history eid s; path = (\<lambda>name. eid @ ''/'' @ name) in
      bind_res (checks [(h \<noteq> [] \<and> te_status (last h) = TS_COMPLETED,
        IllegalTrialTransition ''only a completed trial can be promoted'')]) (\<lambda>_.
      bind_res (manifest_of H eid s) (\<lambda>m.
      bind_res (checks [(em_window_role m = WR_TEST, IllegalTrialTransition ''only a TEST-window experiment can be promoted''),
        (em_counterfactual_of m = None, IllegalTrialTransition ''counterfactual experiments cannot be promoted'')]) (\<lambda>_.
      bind_res (protocol_of (em_protocol_hash m) s) (\<lambda>p.
      bind_res (verified_artifacts w eid s) (\<lambda>names.
      bind_res (checks [(set required_artifacts \<subseteq> set names,
        IllegalTrialTransition ''required promotion artifacts are missing'')]) (\<lambda>_.
      bind_res (load_json w (pw_parse_manifest w) (validate_manifest H) (path ''manifest.json'')) (\<lambda>am.
      bind_res (load_json w (pw_parse_result w) validate_result (path ''result.json'')) (\<lambda>r.
      bind_res (load_json w (pw_parse_assessment w) validate_validation (path ''validation-assessment.json'')) (\<lambda>a.
      bind_res (load_json w (pw_parse_approval w) validate_approval (path ''independent-approval.json'')) (\<lambda>v.
      bind_res (verify_assessment w keys a) (\<lambda>_.
      bind_res (verify_approval w keys v) (\<lambda>_.
      bind_res (authority_bound H eid at (last h) m p am r a v) (\<lambda>_.
      bind_res (gates_passed (evidence_of m r H a) (thresholds_of (pp_success p))) (\<lambda>_.
        Inr (a, v))))))))))))))))"

definition promote ::
  "promotion_world \<Rightarrow> promotion_keys \<Rightarrow> (json \<Rightarrow> string) \<Rightarrow> string \<Rightarrow> time \<Rightarrow> trial_registry \<Rightarrow> unit res \<times> trial_registry" where
  "promote w keys H eid at s =
     (case promotion_case w keys H eid at s of
        Inl e \<Rightarrow> (Inl e, s)
      | Inr (a, v) \<Rightarrow> promote_verified eid at
          [(''assessment_hash'', JStr (canonical_hash H (assessment_doc a))),
           (''approval_hash'', JStr (canonical_hash H (review_approval_doc v))),
           (''validator_id'', JStr (va_validator_id a)), (''reviewer_id'', JStr (ia_reviewer_id v))] s)"

subsection \<open>What a promotion rests on\<close>

lemma verify_all_names:
  "verify_all w rs = Inr names \<Longrightarrow> names = map (gd_name \<circ> gr_digest) rs \<and> (\<forall>r \<in> set rs. artifact_verified w r = Inr ())"
  by (induction rs arbitrary: names) (auto split: sum.splits)

lemma promote_verified_event:
  assumes "promote_verified eid at md s = (Inr u, t)"
  shows "\<exists>e. te_experiment_id e = eid \<and> te_status e = TS_PROMOTED \<and> te_occurred_at e = at \<and> te_metadata e = md \<and>
    te_result_hash e = te_result_hash (last (trial_history eid s)) \<and> t = s\<lparr>tr_events := tr_events s @ [e]\<rparr>"
  using assms
  by (intro exI [of _ "\<lparr>te_sequence = int (length (tr_events s)) + 1, te_experiment_id = eid, te_status = TS_PROMOTED,
      te_occurred_at = at, te_result_hash = te_result_hash (last (trial_history eid s)), te_failure_reason = None,
      te_metadata = md\<rparr>"])
    (auto simp: promote_verified_def transaction_def append_trial_def Let_def split: if_splits sum.splits)

text \<open>A recorded artifact whose bytes are the ones recorded.\<close>

definition artifact_holds :: "promotion_world \<Rightarrow> trial_registry \<Rightarrow> string \<Rightarrow> string \<Rightarrow> bool" where
  "artifact_holds w s eid name \<longleftrightarrow> (\<exists>g \<in> set (tr_artifacts s). gr_experiment_id g = eid \<and> gd_name (gr_digest g) = name \<and>
     pw_inside w (gr_relative_path g) \<and> (\<exists>content. pw_file w (gr_relative_path g) = Some content \<and>
       int (length content) = gd_size (gr_digest g) \<and> pw_sha256 w content = gd_sha256 (gr_digest g)))"

lemma verified_artifacts_hold:
  assumes "verified_artifacts w eid s = Inr names" and "name \<in> set names"
  shows "artifact_holds w s eid name"
proof -
  have "name \<in> (gd_name \<circ> gr_digest) ` set (artifacts_of eid s)" and ok: "\<forall>g \<in> set (artifacts_of eid s). artifact_verified w g = Inr ()"
    using verify_all_names [of w "artifacts_of eid s" names] assms by (auto simp: verified_artifacts_def)
  then obtain g where g: "g \<in> set (artifacts_of eid s)" "gd_name (gr_digest g) = name" by auto
  then have "artifact_verified w g = Inr ()" using ok by blast
  then show ?thesis
    using g by (auto simp: artifact_holds_def artifact_verified_def artifacts_of_def split: option.splits intro!: bexI [of _ g])
qed

text \<open>The gates of the evidence, read off the trial's result and the protocol's criteria.\<close>

definition meets_criteria :: "(json \<Rightarrow> string) \<Rightarrow> success_criteria \<Rightarrow> experiment_result \<Rightarrow> validation_assessment \<Rightarrow> bool" where
  "meets_criteria H c r a \<longleftrightarrow>
     sc_minimum_observations c \<le> va_observations a \<and> sc_minimum_oos_return c \<le> mt_total_return (xt_metrics r) \<and>
     (\<exists>q. va_deflated_sharpe_probability a = Some q \<and> sc_minimum_dsr_probability c \<le> q) \<and>
     (\<exists>q. va_pbo a = Some q \<and> q \<le> sc_maximum_pbo c) \<and> mt_max_drawdown (xt_metrics r) \<le> sc_maximum_drawdown c \<and>
     sc_minimum_cost_stress_return c \<le> va_cost_stress_return a \<and>
     va_largest_instrument_contribution a \<le> sc_maximum_contribution_share c \<and> va_parameter_stable a \<and>
     va_reproduction_result_hash a = Some (result_hash H r) \<and> sc_minimum_fills c \<le> xt_fill_count r \<and>
     sc_minimum_time_in_market c \<le> mt_time_in_market (xt_metrics r) \<and>
     sc_minimum_benchmark_excess_return c \<le> mt_total_return (xt_metrics r) - va_benchmark_return a"

lemma gates_meet_criteria:
  assumes "gates_passed (evidence_of m r H a) (thresholds_of c) = Inr ()"
  shows "meets_criteria H c r a"
proof -
  have "list_all fst (promotion_gates (evidence_of m r H a) (thresholds_of c))"
    using assms by (simp add: gates_passed_def promotion_failures_empty)
  then show ?thesis
    by (simp add: promotion_gates_def evidence_of_def thresholds_of_def meets_criteria_def split: option.splits)
qed

text \<open>\<open>a\<close> and \<open>v\<close> are the assessment and the approval, \<open>r\<close> and \<open>am\<close> the result and the manifest, parsed from the
  experiment's directory.\<close>

definition artifact_file :: "string \<Rightarrow> string \<Rightarrow> string" where
  "artifact_file eid name = eid @ ''/'' @ name"

definition promotable ::
  "promotion_world \<Rightarrow> promotion_keys \<Rightarrow> (json \<Rightarrow> string) \<Rightarrow> string \<Rightarrow> time \<Rightarrow> trial_registry
    \<Rightarrow> validation_assessment \<Rightarrow> independent_approval \<Rightarrow> bool" where
  "promotable w keys H eid at s a v \<longleftrightarrow>
     load_json w (pw_parse_assessment w) validate_validation (artifact_file eid ''validation-assessment.json'') = Inr a \<and>
     load_json w (pw_parse_approval w) validate_approval (artifact_file eid ''independent-approval.json'') = Inr v \<and>
     (\<exists>m am p r. manifest_of H eid s = Inr m \<and> em_window_role m = WR_TEST \<and> em_counterfactual_of m = None \<and>
       protocol_of (em_protocol_hash m) s = Inr p \<and>
       load_json w (pw_parse_manifest w) (validate_manifest H) (artifact_file eid ''manifest.json'') = Inr am \<and>
       sort_keys (manifest_doc am) = sort_keys (manifest_doc m) \<and>
       load_json w (pw_parse_result w) validate_result (artifact_file eid ''result.json'') = Inr r \<and>
       xt_experiment_id r = eid \<and>
       (\<forall>name \<in> set required_artifacts. artifact_holds w s eid name) \<and>
       trial_history eid s \<noteq> [] \<and> te_status (last (trial_history eid s)) = TS_COMPLETED \<and>
       te_result_hash (last (trial_history eid s)) = Some (result_hash H r) \<and>
       va_experiment_id a = eid \<and> va_protocol_hash a = em_protocol_hash m \<and> va_result_hash a = result_hash H r \<and>
       va_assessed_at a \<le> at \<and> verify_assessment w keys a = Inr () \<and>
       ia_experiment_id v = eid \<and> ia_approved v \<and> ia_approved_at v \<le> at \<and> ia_reviewer_id v \<noteq> pp_researcher_id p \<and>
       verify_approval w keys v = Inr () \<and> meets_criteria H (pp_success p) r a)"

lemma promotion_case_promotable:
  assumes "promotion_case w keys H eid at s = Inr (a, v)"
  shows "promotable w keys H eid at s a v"
proof -
  obtain m p names am r where
    "trial_history eid s \<noteq> []" "te_status (last (trial_history eid s)) = TS_COMPLETED" "manifest_of H eid s = Inr m"
    "em_window_role m = WR_TEST" "em_counterfactual_of m = None" and p: "protocol_of (em_protocol_hash m) s = Inr p" and
    names: "verified_artifacts w eid s = Inr names" "set required_artifacts \<subseteq> set names" and
    files: "load_json w (pw_parse_manifest w) (validate_manifest H) (artifact_file eid ''manifest.json'') = Inr am"
      "load_json w (pw_parse_result w) validate_result (artifact_file eid ''result.json'') = Inr r"
      "load_json w (pw_parse_assessment w) validate_validation (artifact_file eid ''validation-assessment.json'') = Inr a"
      "load_json w (pw_parse_approval w) validate_approval (artifact_file eid ''independent-approval.json'') = Inr v" and
    auth: "verify_assessment w keys a = Inr ()" "verify_approval w keys v = Inr ()"
      "authority_bound H eid at (last (trial_history eid s)) m p am r a v = Inr ()"
      "gates_passed (evidence_of m r H a) (thresholds_of (pp_success p)) = Inr ()"
    using assms by (auto simp: promotion_case_def Let_def artifact_file_def)
  moreover have "\<forall>name \<in> set required_artifacts. artifact_holds w s eid name"
    using names verified_artifacts_hold by blast
  moreover note gates_meet_criteria [OF auth(4)]
  ultimately show ?thesis
    unfolding promotable_def authority_bound_def by (intro conjI exI [of _ m] exI [of _ am] exI [of _ p] exI [of _ r]) simp_all
qed

end
