(* ===== verification/Trial_Properties.thy ===== *)
theory Trial_Properties
  imports Promotion Samples
begin

section \<open>Properties of the experiment registry\<close>

text \<open>
  The research side of the program: a preregistered protocol buys a bounded number of trials, a trial lives
  one life, and only a completed test-window trial with signed, independent evidence is promoted. The worked
  example is a program with one trial; its digest is constant, since no property here needs more of it.
\<close>

definition demo_hash :: string where
  "demo_hash = flat_digest JNull"

definition demo_protocol :: research_protocol where
  "demo_protocol = \<lparr>pp_name = ''p'', pp_version = ''1'', pp_researcher_id = ''ann'', pp_hypothesis = ''h'',
     pp_snapshot_id = demo_hash, pp_universe_hash = demo_hash, pp_feature_schema_hash = demo_hash,
     pp_cost_policy_hash = demo_hash, pp_train = \<lparr>dw_start = 0, dw_end = 1\<rparr>, pp_validation = \<lparr>dw_start = 2, dw_end = 3\<rparr>,
     pp_test = \<lparr>dw_start = 4, dw_end = 5\<rparr>, pp_parameter_ranges = [],
     pp_success = \<lparr>sc_minimum_oos_return = 0, sc_maximum_drawdown = 1, sc_minimum_dsr_probability = 1/2,
       sc_maximum_pbo = 1/2, sc_minimum_cost_stress_return = 0, sc_maximum_contribution_share = 1,
       sc_minimum_observations = 30, sc_minimum_fills = 2, sc_minimum_time_in_market = 1/100,
       sc_minimum_benchmark_excess_return = 0\<rparr>,
     pp_budget = \<lparr>rb_max_trials = 2, rb_used_trials = 1\<rparr>, pp_benchmarks = [''SPY''], pp_purge_bars = 0, pp_embargo_bars = 0\<rparr>"

definition demo_manifest :: experiment_manifest where
  "demo_manifest = \<lparr>em_snapshot_id = demo_hash, em_code_hash = demo_hash, em_config_hash = demo_hash,
     em_cost_policy_hash = demo_hash, em_universe_hash = demo_hash, em_metric_schema_version = ''1'', em_seed = 0,
     em_strategy_id = ''s'', em_strategy_version = ''1'', em_hypothesis = ''h'', em_parameters = [(''x'', JInt 1)],
     em_counterfactual_of = None, em_protocol_hash = demo_hash, em_trial_allocation_id = demo_hash,
     em_parameter_point_hash = demo_hash, em_window_role = WR_TEST, em_research_program_id = demo_hash\<rparr>"

definition demo_artifact :: "string \<Rightarrow> registry_op" where
  "demo_artifact name = Record_Artifact demo_hash \<lparr>gd_name = name, gd_sha256 = demo_hash, gd_size = 0\<rparr> name 4"

definition demo_trial :: "registry_op list" where
  "demo_trial = [Register_Protocol demo_protocol, Allocate_Trial demo_hash [(''x'', JInt 1)] WR_TEST ''k'' 1,
     Register_Experiment demo_manifest 1, Transition_Trial demo_hash TS_RUNNING 2 None None [],
     Transition_Trial demo_hash TS_COMPLETED 3 (Some demo_hash) None []] @ map demo_artifact required_artifacts"

definition demo_registry :: trial_registry where
  "demo_registry = fold (registry_step flat_digest) demo_trial empty_registry"

lemma flat_hash [simp]: "canonical_hash flat_digest d = demo_hash"
  by (simp add: canonical_hash_def flat_digest_def demo_hash_def)

lemma hash_pattern_demo [simp]: "hash_pattern demo_hash"
  unfolding demo_hash_def flat_digest_def by code_simp

lemma opt_hash_simps [simp]: "opt_hash None" "opt_hash (Some h) = hash_pattern h"
  by (simp_all add: opt_hash_def)

lemma demo_manifest_valid: "validate_manifest flat_digest demo_manifest = Inr ()"
  by (simp add: validate_manifest_def demo_manifest_def)

lemma demo_protocol_valid: "validate_protocol demo_protocol = Inr ()"
  by (simp add: validate_protocol_def protocol_parts_def demo_protocol_def validate_window_def validate_success_def
      validate_research_budget_def)

lemma demo_trial_valid: "\<forall>op \<in> set demo_trial. registry_op_valid flat_digest op"
  by (simp add: demo_trial_def demo_artifact_def registry_op_valid_def required_artifacts_def demo_manifest_valid demo_protocol_valid)

text \<open>The registry after the example.\<close>

definition demo_allocation :: allocation_row where
  "demo_allocation = \<lparr>aw_allocation = \<lparr>ta_allocation_id = demo_hash, ta_protocol_hash = demo_hash,
     ta_research_program_id = demo_hash, ta_trial_number = 1, ta_parameter_point_hash = demo_hash, ta_window_role = WR_TEST,
     ta_allocated_at = 1, ta_experiment_id = Some demo_hash\<rparr>, aw_idempotency_key = ''k''\<rparr>"

definition demo_event :: "int \<Rightarrow> trial_status \<Rightarrow> string option \<Rightarrow> trial_event" where
  "demo_event n st rh = \<lparr>te_sequence = n, te_experiment_id = demo_hash, te_status = st, te_occurred_at = n, te_result_hash = rh,
     te_failure_reason = None, te_metadata = []\<rparr>"

definition demo_file :: "string \<Rightarrow> artifact_record" where
  "demo_file name = \<lparr>gr_experiment_id = demo_hash, gr_digest = \<lparr>gd_name = name, gd_sha256 = demo_hash, gd_size = 0\<rparr>,
     gr_relative_path = name, gr_created_at = 4\<rparr>"

lemma demo_event_of [simp]: "te_experiment_id (demo_event n st rh) = demo_hash"
  by (simp add: demo_event_def)

lemma demo_file_valid: "name \<in> set required_artifacts \<Longrightarrow> validate_artifact (demo_file name) = Inr ()"
proof -
  have "list_all (\<lambda>p. p \<noteq> [] \<and> take 1 (slashed p) \<noteq> ''/'' \<and> ''..'' \<notin> set (path_parts (slashed p))) required_artifacts"
    by code_simp
  then show "validate_artifact (demo_file name) = Inr ()" if "name \<in> set required_artifacts"
    using that by (auto simp: list_all_iff validate_artifact_def demo_file_def)
qed

definition demo_stage :: "experiment_manifest list \<Rightarrow> trial_event list \<Rightarrow> artifact_record list \<Rightarrow> trial_registry" where
  "demo_stage ms es gs = \<lparr>tr_protocols = [\<lparr>pr_protocol_hash = demo_hash, pr_program_id = demo_hash,
       pr_protocol = unused_protocol demo_protocol, pr_max_trials = 2\<rparr>],
     tr_experiments = map (Pair demo_hash) ms,
     tr_allocations = [if ms = [] then unclaimed demo_allocation else demo_allocation], tr_events = es, tr_artifacts = gs\<rparr>"

lemma demo_allocation_call:
  "allocate_trial flat_digest demo_hash [(''x'', JInt 1)] WR_TEST ''k'' 1
     (registry_step flat_digest (Register_Protocol demo_protocol) empty_registry) =
   (Inr (aw_allocation (unclaimed demo_allocation)), demo_stage [] [] [])"
proof -
  have "registry_step flat_digest (Register_Protocol demo_protocol) empty_registry =
      empty_registry\<lparr>tr_protocols := tr_protocols (demo_stage [] [] [])\<rparr>"
    by (simp add: registry_step_def register_protocol_def Let_def protocol_hash_def research_program_id_def
        empty_registry_def demo_stage_def) (simp add: demo_protocol_def)
  moreover have "\<not> blank_text ''k''" by code_simp
  ultimately show ?thesis
    by (simp add: allocate_trial_def transaction_def allocate_body_def trials_of_def allocation_of_def validate_allocation_def
        new_allocation_def empty_registry_def demo_stage_def Let_def unclaimed_def demo_allocation_def checks.simps)
qed

lemma demo_allocate:
  "registry_step flat_digest (Allocate_Trial demo_hash [(''x'', JInt 1)] WR_TEST ''k'' 1)
     (registry_step flat_digest (Register_Protocol demo_protocol) empty_registry) = demo_stage [] [] []"
  using demo_allocation_call by (simp add: registry_step_def)

lemma demo_register:
  "registry_step flat_digest (Register_Experiment demo_manifest 1) (demo_stage [] [] []) =
     demo_stage [demo_manifest] [demo_event 1 TS_REGISTERED None] []"
  by (simp add: registry_step_def register_experiment_def allocation_of_def validate_allocation_def experiment_id_def
      demo_stage_def demo_allocation_def unclaimed_def demo_manifest_def snd_transaction register_body_def append_trial_def
      validate_trial_event_def demo_event_def Let_def and_then_def checks.simps)

lemma demo_transitions:
  "registry_step flat_digest (Transition_Trial demo_hash TS_RUNNING 2 None None [])
     (demo_stage [demo_manifest] [demo_event 1 TS_REGISTERED None] []) =
   demo_stage [demo_manifest] [demo_event 1 TS_REGISTERED None, demo_event 2 TS_RUNNING None] []"
  "registry_step flat_digest (Transition_Trial demo_hash TS_COMPLETED 3 (Some demo_hash) None [])
     (demo_stage [demo_manifest] [demo_event 1 TS_REGISTERED None, demo_event 2 TS_RUNNING None] []) =
   demo_stage [demo_manifest] [demo_event 1 TS_REGISTERED None, demo_event 2 TS_RUNNING None,
     demo_event 3 TS_COMPLETED (Some demo_hash)] []"
  by (simp_all add: registry_step_def transition_def trial_history_def demo_stage_def demo_event_def allowed_next_def Let_def
      validate_trial_event_def snd_transaction append_trial_def checks.simps)

text \<open>Recording a new file of the example.\<close>

lemma demo_record:
  assumes "name \<in> set required_artifacts" and "es \<noteq> []" "\<forall>e \<in> set es. te_experiment_id e = demo_hash"
    and "name \<notin> (\<lambda>g. gd_name (gr_digest g)) ` set gs"
  shows "registry_step flat_digest (demo_artifact name) (demo_stage ms es gs) = demo_stage ms es (gs @ [demo_file name])"
proof -
  have "trial_history demo_hash (demo_stage ms es gs) = es"
    using assms(3) by (simp add: trial_history_def demo_stage_def)
  moreover have "List.find (\<lambda>q. gr_experiment_id q = demo_hash \<and> gd_name (gr_digest q) = name) gs = None"
    using assms(4) by (auto simp: find_None_iff)
  moreover note demo_file_valid [OF assms(1)]
  ultimately show ?thesis
    using assms(2) by (simp add: demo_artifact_def registry_step_def record_artifact_def Let_def demo_file_def) (simp add: demo_stage_def)
qed

lemma demo_record_all:
  assumes "es \<noteq> []" "\<forall>e \<in> set es. te_experiment_id e = demo_hash" and "distinct (map (\<lambda>g. gd_name (gr_digest g)) gs @ names)"
    and "set names \<subseteq> set required_artifacts"
  shows "fold (registry_step flat_digest) (map demo_artifact names) (demo_stage ms es gs) = demo_stage ms es (gs @ map demo_file names)"
  using assms(3,4)
proof (induction names arbitrary: gs)
  case (Cons name names)
  have "distinct (map (\<lambda>g. gd_name (gr_digest g)) (gs @ [demo_file name]) @ names)"
    using Cons.prems(1) by (auto simp: demo_file_def)
  moreover have "registry_step flat_digest (demo_artifact name) (demo_stage ms es gs) = demo_stage ms es (gs @ [demo_file name])"
    by (rule demo_record [OF _ assms(1,2)]) (use Cons.prems in auto)
  ultimately show ?case using Cons.IH [of "gs @ [demo_file name]"] Cons.prems(2) by simp
qed simp

lemma demo_registry_eq:
  "demo_registry = demo_stage [demo_manifest] [demo_event 1 TS_REGISTERED None, demo_event 2 TS_RUNNING None,
     demo_event 3 TS_COMPLETED (Some demo_hash)] (map demo_file required_artifacts)"
proof -
  have "distinct required_artifacts" by code_simp
  then show ?thesis
    by (simp add: demo_registry_def demo_trial_def demo_allocate demo_register demo_transitions demo_record_all)
qed

subsection \<open>The budget\<close>

text \<open>C9: Research budget. After any sequence of registry calls, raising ones included, the trials of a protocol
  are numbered from one without gaps, they and the experiments run under the protocol are at most its
  preregistered number, and every experiment consumed the one allocation its manifest names and matches.\<close>

theorem trials_stay_within_budget:
  assumes "\<forall>op \<in> set ops. registry_op_valid H op"
  shows "let s = fold (registry_step H) ops empty_registry in
    (\<forall>p \<in> set (tr_protocols s). let ph = pr_protocol_hash p; n = int (length (trials_of ph s)) in
       ph = protocol_hash H (pr_protocol p) \<and> numbers_of ph s = [1..n] \<and> n \<le> rb_max_trials (pp_budget (pr_protocol p)) \<and>
       int (length (filter (\<lambda>x. em_protocol_hash (snd x) = ph) (tr_experiments s))) \<le> rb_max_trials (pp_budget (pr_protocol p))) \<and>
    (\<forall>(eid, m) \<in> set (tr_experiments s). eid = experiment_id H m \<and> (\<exists>r \<in> set (tr_allocations s). consumed_by r eid m))"
proof -
  define s where "s = fold (registry_step H) ops empty_registry"
  have ok: "registry_ok H s" unfolding s_def by (rule registry_run_ok [OF registry_ok_empty assms])
  have p: "pr_protocol_hash p = protocol_hash H (pr_protocol p)" "pr_max_trials p = rb_max_trials (pp_budget (pr_protocol p))"
    "numbers_of (pr_protocol_hash p) s = [1..int (length (trials_of (pr_protocol_hash p) s))]"
    "int (length (trials_of (pr_protocol_hash p) s)) \<le> pr_max_trials p" if "p \<in> set (tr_protocols s)" for p
    using ok that by (auto simp: registry_ok_def protocols_ok_def within_budget_def)
  have "\<forall>(eid, m) \<in> set (tr_experiments s). eid = experiment_id H m \<and> (\<exists>r \<in> set (tr_allocations s). consumed_by r eid m)"
    using ok unfolding registry_ok_def experiments_ok_def by blast
  then show ?thesis
    using p experiments_within_budget [OF ok] unfolding s_def [symmetric] Let_def by (intro conjI ballI) (simp_all add: p)
qed

lemma trials_stay_within_budget_witness:
  "map fst (tr_experiments demo_registry) = [demo_hash] \<and> numbers_of demo_hash demo_registry = [1]"
proof -
  have "pr_protocol_hash ` set (tr_protocols demo_registry) = {demo_hash}" and n: "length (trials_of demo_hash demo_registry) = 1"
    by (simp_all add: demo_registry_eq demo_stage_def trials_of_def demo_allocation_def)
  then obtain p where "p \<in> set (tr_protocols demo_registry)" "pr_protocol_hash p = demo_hash" by (metis imageE insertI1)
  then have "numbers_of demo_hash demo_registry = [1..int (length (trials_of demo_hash demo_registry))]"
    using trials_stay_within_budget [OF demo_trial_valid] unfolding demo_registry_def [symmetric] Let_def by metis
  then show ?thesis by (simp add: n) (simp add: demo_registry_eq demo_stage_def)
qed

subsection \<open>The life of a trial\<close>

text \<open>C10: Trial life cycle. After any sequence of registry calls every experiment has a history that begins with
  its registration and follows the life cycle in time order, failures giving a reason and completions a
  result, a promotion only after a completion and with its result; and once a trial failed, was aborted or
  was promoted, no later calls change its history.\<close>

theorem trial_histories_are_legal:
  assumes "\<forall>op \<in> set ops. registry_op_valid H op" and "\<forall>op \<in> set later. registry_op_valid H op"
    and "eid \<in> fst ` set (tr_experiments (fold (registry_step H) ops empty_registry))"
  shows "let s = fold (registry_step H) ops empty_registry; h = trial_history eid s in
    legal_history h \<and> (finished (te_status (last h)) \<longrightarrow> trial_history eid (fold (registry_step H) later s) = h)"
proof -
  define s where "s = fold (registry_step H) ops empty_registry"
  have ok: "registry_ok H s" unfolding s_def by (rule registry_run_ok [OF registry_ok_empty assms(1)])
  have legal: "legal_history (trial_history eid s)"
    using ok assms(3) by (simp add: registry_ok_def histories_ok_def s_def)
  have "trial_history eid (fold (registry_step H) later s) = trial_history eid s" if "finished (te_status (last (trial_history eid s)))"
    by (rule finished_history_final [OF registry_run_ok [OF ok assms(2)] registry_run_events _ that])
      (use legal in \<open>simp add: legal_history_def\<close>)
  then show ?thesis using legal unfolding s_def [symmetric] Let_def by blast
qed

lemma trial_histories_are_legal_witness:
  "map te_status (trial_history demo_hash (fold (registry_step flat_digest)
      [Promote_Claimed demo_hash 5] (fold (registry_step flat_digest) (demo_trial @ [Promote_Verified demo_hash 5 []]) empty_registry)))
   = [TS_REGISTERED, TS_RUNNING, TS_COMPLETED, TS_PROMOTED]"
proof -
  let ?ops = "demo_trial @ [Promote_Verified demo_hash 5 []]"
  let ?s = "fold (registry_step flat_digest) ?ops empty_registry"
  have valid: "\<forall>op \<in> set ?ops. registry_op_valid flat_digest op"
    "\<forall>op \<in> set [Promote_Claimed demo_hash 5]. registry_op_valid flat_digest op"
    using demo_trial_valid by (auto simp: registry_op_valid_def)
  have s: "?s = snd (promote_verified demo_hash 5 [] demo_registry)"
    by (simp add: demo_registry_def registry_step_def)
  have reg: "demo_hash \<in> fst ` set (tr_experiments ?s)"
    and st: "map te_status (trial_history demo_hash ?s) = [TS_REGISTERED, TS_RUNNING, TS_COMPLETED, TS_PROMOTED]"
    unfolding s by (simp_all add: demo_registry_eq promote_verified_def Let_def trial_history_def demo_stage_def demo_event_def
        snd_transaction append_trial_def validate_trial_event_def checks.simps)
  then have "finished (te_status (last (trial_history demo_hash ?s)))"
    by (metis finished_def last_ConsL last_ConsR last_map list.distinct(1) map_is_Nil_conv)
  then show ?thesis using trial_histories_are_legal [OF valid reg] st unfolding Let_def by metis
qed

subsection \<open>Retries\<close>

text \<open>C33: Idempotent allocation. Once a trial was allocated, asking again for it under the same key, at any later
  time and after any further registry calls, answers with the same allocation and changes nothing; only the
  experiment that meanwhile consumed it shows.\<close>

theorem trial_allocation_is_idempotent:
  assumes "\<forall>op \<in> set ops. registry_op_valid H op" and "\<forall>op \<in> set later. registry_op_valid H op"
    and "allocate_trial H ph ps role key at (fold (registry_step H) ops empty_registry) = (Inr a, t)"
  shows "let u = fold (registry_step H) later t in
    \<exists>b. allocate_trial H ph ps role key at' u = (Inr b, u) \<and> b\<lparr>ta_experiment_id := ta_experiment_id a\<rparr> = a"
proof -
  define u where "u = fold (registry_step H) later t"
  have ok: "registry_ok H t"
    using allocate_trial_ok [OF registry_run_ok [OF registry_ok_empty assms(1)], of ph ps role key at] assms(3) by simp
  then have oku: "registry_ok H u" unfolding u_def using assms(2) by (rule registry_run_ok)
  obtain r where r: "r \<in> set (tr_allocations t)" "aw_allocation r = a" "holds_trial H ph ps role key r" "validate_allocation a = Inr ()"
    using allocated_row [OF ok assms(3)] by blast
  obtain q where q: "q \<in> set (tr_allocations u)" "unclaimed q = unclaimed r"
    using allocations_kept_row [OF registry_run_keeps r(1), of H later] unfolding u_def by blast
  have held: "holds_trial H ph ps role key q" using unclaimed_holds [OF q(2)] r(3) by simp
  have "(aw_allocation q)\<lparr>ta_experiment_id := ta_experiment_id a\<rparr> = a" using unclaimed_same [OF q(2)] r(2) by simp
  moreover have "validate_allocation (aw_allocation q) = Inr ()"
    using unclaimed_valid [OF oku q] r(2,4) by simp
  moreover have "\<not> blank_text key" using assms(3) by (auto simp: allocate_trial_def)
  ultimately show ?thesis
    using held_allocation [OF oku q(1) held] unfolding u_def Let_def by blast
qed

lemma trial_allocation_is_idempotent_witness:
  "\<exists>a t b. allocate_trial flat_digest demo_hash [(''x'', JInt 1)] WR_TEST ''k'' 1
       (registry_step flat_digest (Register_Protocol demo_protocol) empty_registry) = (Inr a, t) \<and>
     allocate_trial flat_digest demo_hash [(''x'', JInt 1)] WR_TEST ''k'' 9
       (fold (registry_step flat_digest) [Register_Experiment demo_manifest 1] t) =
       (Inr b, fold (registry_step flat_digest) [Register_Experiment demo_manifest 1] t) \<and>
     b\<lparr>ta_experiment_id := ta_experiment_id a\<rparr> = a"
proof -
  let ?ops = "[Register_Protocol demo_protocol]" and ?later = "[Register_Experiment demo_manifest 1]"
  have ops: "\<forall>op \<in> set ?ops. registry_op_valid flat_digest op" "\<forall>op \<in> set ?later. registry_op_valid flat_digest op"
    by (simp_all add: registry_op_valid_def demo_protocol_valid demo_manifest_valid)
  have call: "allocate_trial flat_digest demo_hash [(''x'', JInt 1)] WR_TEST ''k'' 1 (fold (registry_step flat_digest) ?ops empty_registry) =
      (Inr (aw_allocation (unclaimed demo_allocation)), demo_stage [] [] [])"
    using demo_allocation_call by simp
  show ?thesis
    using trial_allocation_is_idempotent [OF ops call, of 9] call unfolding Let_def by auto
qed

subsection \<open>Promotion\<close>

text \<open>C8: Promotion. A promotion succeeds only for a completed test-window experiment that is no counterfactual,
  whose four required artifacts are recorded with the bytes found on disk. The documents parsed from the
  experiment's directory carry the decision: the manifest is the registered one, the assessment and the approval are signed with
  configured keys, bind to the trial and its completed result and are not from the future, the reviewer is not the
  researcher and approved, and result and assessment meet every preregistered criterion. The promotion then appends
  exactly one event, with the completed result and the hashes and authors of those two documents.\<close>

theorem promotion_needs_every_gate:
  assumes "promote w keys H eid at s = (Inr u, t)"
  shows "\<exists>a v e. promotable w keys H eid at s a v \<and>
    trial_history eid t = trial_history eid s @ [e] \<and> te_status e = TS_PROMOTED \<and>
    te_result_hash e = te_result_hash (last (trial_history eid s)) \<and>
    te_metadata e = [(''assessment_hash'', JStr (canonical_hash H (assessment_doc a))),
      (''approval_hash'', JStr (canonical_hash H (review_approval_doc v))),
      (''validator_id'', JStr (va_validator_id a)), (''reviewer_id'', JStr (ia_reviewer_id v))]"
proof -
  obtain a v where ok: "promotion_case w keys H eid at s = Inr (a, v)" and
    run: "promote_verified eid at [(''assessment_hash'', JStr (canonical_hash H (assessment_doc a))),
      (''approval_hash'', JStr (canonical_hash H (review_approval_doc v))),
      (''validator_id'', JStr (va_validator_id a)), (''reviewer_id'', JStr (ia_reviewer_id v))] s = (Inr u, t)"
    using assms by (auto simp: promote_def split: sum.splits prod.splits)
  obtain e where "te_experiment_id e = eid" "te_status e = TS_PROMOTED"
    "te_result_hash e = te_result_hash (last (trial_history eid s))" "t = s\<lparr>tr_events := tr_events s @ [e]\<rparr>"
    "te_metadata e = [(''assessment_hash'', JStr (canonical_hash H (assessment_doc a))),
      (''approval_hash'', JStr (canonical_hash H (review_approval_doc v))),
      (''validator_id'', JStr (va_validator_id a)), (''reviewer_id'', JStr (ia_reviewer_id v))]"
    using promote_verified_event [OF run] by blast
  then show ?thesis using promotion_case_promotable [OF ok]
    by (intro exI [of _ a] exI [of _ v] exI [of _ e]) (simp add: trial_history_def)
qed

definition demo_result :: experiment_result where
  "demo_result = \<lparr>xt_experiment_id = demo_hash, xt_event_hash = demo_hash, xt_equity_hash = demo_hash,
     xt_metrics = \<lparr>mt_total_return = 1/10, mt_max_drawdown = 1/10, mt_turnover = 1, mt_average_gross_exposure = 1/2,
       mt_time_weighted_exposure_ratio = 1/2, mt_time_in_market = 1/2, mt_ending_equity = 110, mt_observations = 40,
       mt_annualized_return = None, mt_annualized_volatility = None, mt_sharpe_ratio = None, mt_sortino_ratio = None,
       mt_calmar_ratio = None, mt_expected_shortfall_95 = None, mt_time_under_water = 0\<rparr>,
     xt_equity_points = [], xt_fill_count = 4, xt_journal_entries = [], xt_cash_entries = [], xt_position_lots = []\<rparr>"

definition demo_assessment :: validation_assessment where
  "demo_assessment = \<lparr>va_experiment_id = demo_hash, va_protocol_hash = demo_hash, va_result_hash = demo_hash,
     va_validator_id = ''val'', va_observations = 40, va_deflated_sharpe_probability = Some (9/10), va_pbo = Some (1/10),
     va_cost_stress_return = 0, va_largest_instrument_contribution = 1/2, va_parameter_stable = True,
     va_benchmark_return = 1/20, va_reproduction_result_hash = Some demo_hash, va_assessed_at = 4, va_signature = demo_hash\<rparr>"

definition demo_approval :: independent_approval where
  "demo_approval = \<lparr>ia_experiment_id = demo_hash, ia_reviewer_id = ''bob'', ia_reviewer_role = ''independent_reviewer'',
     ia_approved = True, ia_rationale = ''ok'', ia_approved_at = 4, ia_signature = demo_hash\<rparr>"

definition demo_world :: promotion_world where
  "demo_world = \<lparr>pw_inside = \<lambda>_. True, pw_file = \<lambda>_. Some [], pw_sha256 = \<lambda>_. demo_hash, pw_hmac = \<lambda>_ _. demo_hash,
     pw_parse_manifest = \<lambda>_. Inr demo_manifest, pw_parse_result = \<lambda>_. Inr demo_result,
     pw_parse_assessment = \<lambda>_. Inr demo_assessment, pw_parse_approval = \<lambda>_. Inr demo_approval\<rparr>"

definition demo_keys :: promotion_keys where
  "demo_keys = \<lparr>pk_validators = [(''val'', ''k1'')], pk_reviewers = [(''bob'', ''k2'')]\<rparr>"

lemma demo_loads:
  "load_json demo_world (pw_parse_manifest demo_world) (validate_manifest flat_digest) p = Inr demo_manifest"
  "load_json demo_world (pw_parse_result demo_world) validate_result p = Inr demo_result"
  "load_json demo_world (pw_parse_assessment demo_world) validate_validation p = Inr demo_assessment"
  "load_json demo_world (pw_parse_approval demo_world) validate_approval p = Inr demo_approval"
proof -
  have "validate_result demo_result = Inr ()" by (simp add: validate_result_def demo_result_def)
  moreover have "validate_validation demo_assessment = Inr ()"
    by (simp add: validate_validation_def demo_assessment_def opt_unit_interval_def unit_interval_def)
  moreover have "validate_approval demo_approval = Inr ()" by (simp add: validate_approval_def demo_approval_def)
  ultimately show
    "load_json demo_world (pw_parse_manifest demo_world) (validate_manifest flat_digest) p = Inr demo_manifest"
    "load_json demo_world (pw_parse_result demo_world) validate_result p = Inr demo_result"
    "load_json demo_world (pw_parse_assessment demo_world) validate_validation p = Inr demo_assessment"
    "load_json demo_world (pw_parse_approval demo_world) validate_approval p = Inr demo_approval"
    by (simp_all add: load_json_def demo_world_def demo_manifest_valid)
qed

lemma demo_verified: "\<exists>names. verified_artifacts demo_world demo_hash demo_registry = Inr names \<and> set names = set required_artifacts"
proof -
  have all: "verify_all demo_world gs = Inr (map (gd_name \<circ> gr_digest) gs)" if "set gs \<subseteq> demo_file ` set required_artifacts" for gs
    using that by (induction gs) (auto simp: artifact_verified_def demo_world_def demo_file_def checks.simps)
  have files: "set (artifacts_of demo_hash demo_registry) = demo_file ` set required_artifacts"
    by (auto simp: artifacts_of_def demo_registry_eq demo_stage_def demo_file_def)
  then have "verified_artifacts demo_world demo_hash demo_registry = Inr (map (gd_name \<circ> gr_digest) (artifacts_of demo_hash demo_registry))"
    by (simp add: verified_artifacts_def all)
  moreover have "(gd_name \<circ> gr_digest) ` demo_file ` set required_artifacts = set required_artifacts"
    by (simp add: image_image demo_file_def)
  ultimately show ?thesis using files by simp
qed

lemma promotion_needs_every_gate_witness:
  "\<exists>t. promote demo_world demo_keys flat_digest demo_hash 5 demo_registry = (Inr (), t) \<and>
     (\<exists>a v. promotable demo_world demo_keys flat_digest demo_hash 5 demo_registry a v) \<and>
     te_status (last (trial_history demo_hash t)) = TS_PROMOTED"
proof -
  have h: "trial_history demo_hash demo_registry = [demo_event 1 TS_REGISTERED None, demo_event 2 TS_RUNNING None,
      demo_event 3 TS_COMPLETED (Some demo_hash)]"
    by (simp add: demo_registry_eq demo_stage_def trial_history_def)
  obtain names where names: "verified_artifacts demo_world demo_hash demo_registry = Inr names" "set names = set required_artifacts"
    using demo_verified by blast
  have reads: "manifest_of flat_digest demo_hash demo_registry = Inr demo_manifest"
    "protocol_of demo_hash demo_registry = Inr (unused_protocol demo_protocol)"
    by (simp_all add: manifest_of_def protocol_of_def demo_registry_eq demo_stage_def demo_manifest_valid
        validate_unused [OF demo_protocol_valid])
  have signed: "verify_assessment demo_world demo_keys demo_assessment = Inr ()" "verify_approval demo_world demo_keys demo_approval = Inr ()"
    by (simp_all add: verify_assessment_def verify_approval_def demo_keys_def demo_assessment_def demo_approval_def
        authority_signature_def demo_world_def)
  have bound: "authority_bound flat_digest demo_hash 5 (demo_event 3 TS_COMPLETED (Some demo_hash)) demo_manifest
      (unused_protocol demo_protocol) demo_manifest demo_result demo_assessment demo_approval = Inr ()"
    by (simp add: authority_bound_def demo_event_def demo_manifest_def unused_protocol_def demo_protocol_def demo_result_def
        demo_assessment_def demo_approval_def result_hash_def)
  have "promotion_failures (evidence_of demo_manifest demo_result flat_digest demo_assessment)
      (thresholds_of (pp_success (unused_protocol demo_protocol))) = []"
    by (simp add: promotion_failures_empty promotion_gates_def evidence_of_def thresholds_of_def unused_protocol_def
        demo_protocol_def demo_assessment_def demo_result_def demo_manifest_def result_hash_def)
  then have gates: "gates_passed (evidence_of demo_manifest demo_result flat_digest demo_assessment)
      (thresholds_of (pp_success (unused_protocol demo_protocol))) = Inr ()"
    by (simp add: gates_passed_def validate_evidence_packet_def validate_thresholds_def evidence_of_def thresholds_of_def
        unused_protocol_def demo_protocol_def demo_assessment_def demo_result_def opt_unit_interval_def unit_interval_def)
  have "em_window_role demo_manifest = WR_TEST" "em_counterfactual_of demo_manifest = None" "em_protocol_hash demo_manifest = demo_hash"
    "te_status (demo_event 3 TS_COMPLETED (Some demo_hash)) = TS_COMPLETED"
    by (simp_all add: demo_manifest_def demo_event_def)
  then have "promotion_case demo_world demo_keys flat_digest demo_hash 5 demo_registry = Inr (demo_assessment, demo_approval)"
    by (simp add: promotion_case_def Let_def h names reads demo_loads signed bound gates)
  then have "\<exists>t. promote demo_world demo_keys flat_digest demo_hash 5 demo_registry = (Inr (), t)"
    by (simp add: promote_def promote_verified_def Let_def h demo_event_def append_trial_def validate_trial_event_def checks.simps)
  then obtain t where t: "promote demo_world demo_keys flat_digest demo_hash 5 demo_registry = (Inr (), t)" by blast
  show ?thesis using promotion_needs_every_gate [OF t] t by fastforce
qed

end
