(* ===== verification/Pit_Catalog.thy ===== *)
theory Pit_Catalog
  imports Pit_Models
begin

section \<open>Point-in-time catalog\<close>

text \<open>
  \<open>src/hanalpha/pit/catalog.py\<close>, \<open>raw_store.py\<close>, the remaining records of \<open>pit/models.py\<close> and the reports of
  \<open>pit/quality.py\<close>: raw envelopes, snapshots with their manifests, quality reports and publication. Tables are
  lists of rows. \<open>RawRecordConflict\<close> and \<open>SnapshotNotPublished\<close> are subclasses of \<open>RuntimeError\<close> and are
  represented by it.
\<close>

subsection \<open>Instruments and ticker aliases\<close>

definition normalize_ticker :: "string \<Rightarrow> string res" where
  "normalize_ticker t = (let n = upper_text (strip_text t) in
     if n = [] then Inl (ValueError ''ticker must not be empty'') else Inr n)"

record instrument_record = canonical_record +
  ir_name :: string
  ir_exchange :: string
  ir_asset_type :: string

definition validate_instrument :: "instrument_record \<Rightarrow> unit res" where
  "validate_instrument r = checks (canonical_fields r @
     [(ir_name r \<noteq> [], ValueError ''name''), (ir_exchange r \<noteq> [], ValueError ''exchange''),
      (ir_asset_type r \<noteq> [], ValueError ''asset_type'')] @ validate_temporal_contract r)"

record symbol_alias_record = canonical_record +
  sy_ticker :: string

definition validate_alias :: "symbol_alias_record \<Rightarrow> unit res" where
  "validate_alias r =
     (case checks (canonical_fields r @ [(sy_ticker r \<noteq> [], ValueError ''ticker'')] @ validate_temporal_contract r) of
        Inl e \<Rightarrow> Inl e
      | Inr _ \<Rightarrow> (case normalize_ticker (sy_ticker r) of
          Inl e \<Rightarrow> Inl e
        | Inr n \<Rightarrow> checks [(n = sy_ticker r, ValueError ''ticker must be normalized uppercase without surrounding whitespace'')]))"

datatype pit_record =
    Instrument instrument_record
  | Symbol_Alias symbol_alias_record
  | Price_Bar price_bar_record
  | Corporate_Action corporate_action_record

definition base_of :: "pit_record \<Rightarrow> canonical_record" where
  "base_of r = (case r of Instrument x \<Rightarrow> canonical_record.truncate x | Symbol_Alias x \<Rightarrow> canonical_record.truncate x
     | Price_Bar x \<Rightarrow> canonical_record.truncate x | Corporate_Action x \<Rightarrow> canonical_record.truncate x)"

definition record_type :: "pit_record \<Rightarrow> string" where
  "record_type r = (case r of Instrument _ \<Rightarrow> ''instrument'' | Symbol_Alias _ \<Rightarrow> ''symbol_alias''
     | Price_Bar _ \<Rightarrow> ''price_bar'' | Corporate_Action _ \<Rightarrow> ''corporate_action'')"

definition validate_record :: "pit_record \<Rightarrow> unit res" where
  "validate_record r = (case r of Instrument x \<Rightarrow> validate_instrument x | Symbol_Alias x \<Rightarrow> validate_alias x
     | Price_Bar x \<Rightarrow> validate_price_bar x | Corporate_Action x \<Rightarrow> validate_corporate_action x)"

lemma validate_record_temporal:
  "validate_record r = Inr () \<Longrightarrow> cr_valid_to (base_of r) = Some v \<Longrightarrow> cr_valid_from (base_of r) < v"
  by (cases r) (auto simp: validate_record_def base_of_def validate_instrument_def validate_alias_def validate_price_bar_def
      validate_corporate_action_def validate_temporal_contract_def canonical_record.truncate_def split: sum.splits)

subsection \<open>Raw envelopes\<close>

record raw_envelope =
  rw_payload_hash :: string
  rw_source :: string
  rw_source_record_id :: string
  rw_source_revision :: int
  rw_event_time :: time
  rw_available_at :: time
  rw_ingested_at :: time
  rw_schema_version :: string
  rw_object_path :: string

definition validate_envelope :: "raw_envelope \<Rightarrow> unit res" where
  "validate_envelope e = checks [(hash_pattern (rw_payload_hash e), ValueError ''payload_hash''),
     (rw_source_revision e \<ge> 1, ValueError ''source_revision'')]"

text \<open>The object directory: payloads by their digest. \<open>sha\<close> is SHA-256.\<close>

type_synonym raw_objects = "(string \<times> string) list"

definition object_path :: "string \<Rightarrow> string" where
  "object_path h = ''objects/'' @ take 2 h @ ''/'' @ h"

definition raw_put ::
  "(string \<Rightarrow> string) \<Rightarrow> string \<Rightarrow> string \<Rightarrow> string \<Rightarrow> int \<Rightarrow> time \<Rightarrow> time \<Rightarrow> time \<Rightarrow> string \<Rightarrow> raw_objects \<Rightarrow>
   raw_envelope res \<times> raw_objects" where
  "raw_put sha payload source source_record_id source_revision event_time available_at ingested_at schema_version objs =
     (let h = sha payload;
          e = \<lparr>rw_payload_hash = h, rw_source = source, rw_source_record_id = source_record_id,
               rw_source_revision = source_revision, rw_event_time = event_time, rw_available_at = available_at,
               rw_ingested_at = ingested_at, rw_schema_version = schema_version, rw_object_path = object_path h\<rparr>;
          checked = (case validate_envelope e of Inl x \<Rightarrow> Inl x | Inr _ \<Rightarrow> Inr e) in
      if ingested_at < available_at then (Inl (ValueError ''ingested_at must not precede available_at''), objs)
      else if \<not> hash_pattern h then (Inl (ValueError ''invalid payload hash''), objs)
      else case map_of objs h of
        Some old \<Rightarrow> if old \<noteq> payload then (Inl (RuntimeError ''content hash collision''), objs) else (checked, objs)
      | None \<Rightarrow> (checked, (h, payload) # objs))"

definition raw_read :: "string \<Rightarrow> raw_objects \<Rightarrow> string res" where
  "raw_read h objs = (if \<not> hash_pattern h then Inl (ValueError ''invalid payload hash'')
     else case map_of objs h of None \<Rightarrow> Inl (FileNotFoundError h) | Some p \<Rightarrow> Inr p)"

text \<open>What was put is read back, and stays what it is.\<close>

lemma raw_put_read:
  assumes "raw_put sha payload src sid n ev av ing ver objs = (Inr e, objs')"
  shows "raw_read (rw_payload_hash e) objs' = Inr payload"
  using assms by (auto simp: raw_put_def raw_read_def Let_def split: if_splits option.splits sum.splits)

lemma raw_put_keeps:
  "map_of objs h = Some p \<Longrightarrow> map_of (snd (raw_put sha payload src sid n ev av ing ver objs)) h = Some p"
  by (auto simp: raw_put_def Let_def split: option.splits)

subsection \<open>Quality reports\<close>

record quality_issue =
  qi_code :: string
  qi_message :: string
  qi_record_ids :: "string list"

record quality_report =
  qr_passed :: bool
  qr_issues :: "quality_issue list"
  qr_record_count :: int
  qr_digest :: string

subsection \<open>Snapshots\<close>

record snapshot_manifest =
  sm_input_hashes :: "string list"
  sm_schema_version :: string
  sm_normalization_code_hash :: string
  sm_config_hash :: string
  sm_fixture_version :: string

definition normalize_hashes :: "string list \<Rightarrow> string list" where
  "normalize_hashes hs = sort (remdups hs)"

definition validated_manifest :: "snapshot_manifest \<Rightarrow> snapshot_manifest res" where
  "validated_manifest m =
     (case checks [(list_all hash_pattern (sm_input_hashes m), ValueError ''input_hashes must contain SHA-256 hex digests''),
        (hash_pattern (sm_normalization_code_hash m), ValueError ''normalization_code_hash''),
        (hash_pattern (sm_config_hash m), ValueError ''config_hash'')] of
      Inl e \<Rightarrow> Inl e | Inr _ \<Rightarrow> Inr (m\<lparr>sm_input_hashes := normalize_hashes (sm_input_hashes m)\<rparr>))"

definition snapshot_manifest_doc :: "snapshot_manifest \<Rightarrow> json" where
  "snapshot_manifest_doc m = JObj [(''input_hashes'', JArr (map JStr (normalize_hashes (sm_input_hashes m)))),
     (''schema_version'', JStr (sm_schema_version m)),
     (''normalization_code_hash'', JStr (sm_normalization_code_hash m)), (''config_hash'', JStr (sm_config_hash m)),
     (''fixture_version'', JStr (sm_fixture_version m))]"

definition snapshot_id :: "(json \<Rightarrow> string) \<Rightarrow> snapshot_manifest \<Rightarrow> string" where
  "snapshot_id H m = canonical_hash H (snapshot_manifest_doc m)"

record snapshot_row =
  sn_snapshot_id :: string
  sn_manifest :: snapshot_manifest
  sn_published :: bool
  sn_quality :: "quality_report option"

record pit_catalog =
  ct_raw :: "raw_envelope list"
  ct_snapshots :: "snapshot_row list"

definition empty_catalog :: pit_catalog where
  "empty_catalog = \<lparr>ct_raw = [], ct_snapshots = []\<rparr>"

definition raw_key :: "raw_envelope \<Rightarrow> string \<times> string \<times> int" where
  "raw_key e = (rw_source e, rw_source_record_id e, rw_source_revision e)"

definition register_raw :: "raw_envelope \<Rightarrow> pit_catalog \<Rightarrow> unit res \<times> pit_catalog" where
  "register_raw e c = (case List.find (\<lambda>r. raw_key r = raw_key e) (ct_raw c) of
       Some r \<Rightarrow> if rw_payload_hash r \<noteq> rw_payload_hash e
         then (Inl (RuntimeError ''same source record revision contains different payload bytes''), c) else (Inr (), c)
     | None \<Rightarrow> (Inr (), c\<lparr>ct_raw := ct_raw c @ [e]\<rparr>))"

definition create_snapshot :: "(json \<Rightarrow> string) \<Rightarrow> snapshot_manifest \<Rightarrow> pit_catalog \<Rightarrow> string res \<times> pit_catalog" where
  "create_snapshot H raw c = (case validated_manifest raw of
       Inl e \<Rightarrow> (Inl e, c)
     | Inr m \<Rightarrow>
       let sid = snapshot_id H m in
       (case lookup sn_snapshot_id sid (ct_snapshots c) of
          Some r \<Rightarrow> if sn_manifest r \<noteq> m then (Inl (RuntimeError ''snapshot hash collision''), c) else (Inr sid, c)
        | None \<Rightarrow> (Inr sid, c\<lparr>ct_snapshots := ct_snapshots c @
            [\<lparr>sn_snapshot_id = sid, sn_manifest = m, sn_published = False, sn_quality = None\<rparr>]\<rparr>)))"

definition record_quality :: "string \<Rightarrow> quality_report \<Rightarrow> pit_catalog \<Rightarrow> unit res \<times> pit_catalog" where
  "record_quality sid report c =
     (if length (filter (\<lambda>r. sn_snapshot_id r = sid) (ct_snapshots c)) \<noteq> 1 then (Inl (KeyError sid), c)
      else (Inr (), c\<lparr>ct_snapshots := update_where (\<lambda>r. sn_snapshot_id r = sid) (\<lambda>r. r\<lparr>sn_quality := Some report\<rparr>) (ct_snapshots c)\<rparr>))"

definition get_quality :: "string \<Rightarrow> pit_catalog \<Rightarrow> quality_report option res" where
  "get_quality sid c = (case lookup sn_snapshot_id sid (ct_snapshots c) of None \<Rightarrow> Inl (KeyError sid)
     | Some r \<Rightarrow> Inr (sn_quality r))"

definition publish_snapshot :: "string \<Rightarrow> pit_catalog \<Rightarrow> unit res \<times> pit_catalog" where
  "publish_snapshot sid c = (case get_quality sid c of
       Inl e \<Rightarrow> (Inl e, c)
     | Inr q \<Rightarrow>
       if (case q of None \<Rightarrow> True | Some r \<Rightarrow> \<not> qr_passed r)
       then (Inl (RuntimeError ''snapshot cannot publish without a passing quality report''), c)
       else (Inr (), c\<lparr>ct_snapshots := update_where (\<lambda>r. sn_snapshot_id r = sid) (\<lambda>r. r\<lparr>sn_published := True\<rparr>) (ct_snapshots c)\<rparr>))"

definition is_published :: "string \<Rightarrow> pit_catalog \<Rightarrow> bool" where
  "is_published sid c = (case lookup sn_snapshot_id sid (ct_snapshots c) of None \<Rightarrow> False | Some r \<Rightarrow> sn_published r)"

definition get_manifest :: "string \<Rightarrow> pit_catalog \<Rightarrow> snapshot_manifest res" where
  "get_manifest sid c = (case lookup sn_snapshot_id sid (ct_snapshots c) of None \<Rightarrow> Inl (KeyError sid)
     | Some r \<Rightarrow> validated_manifest (sn_manifest r))"

subsection \<open>The catalog as a transition system\<close>

datatype catalog_op =
    Register_Raw raw_envelope
  | Create_Snapshot snapshot_manifest
  | Record_Quality string quality_report
  | Publish_Snapshot string

definition catalog_step :: "(json \<Rightarrow> string) \<Rightarrow> catalog_op \<Rightarrow> pit_catalog \<Rightarrow> pit_catalog" where
  "catalog_step H op c = (case op of Register_Raw e \<Rightarrow> snd (register_raw e c) | Create_Snapshot m \<Rightarrow> snd (create_snapshot H m c)
     | Record_Quality sid q \<Rightarrow> snd (record_quality sid q c) | Publish_Snapshot sid \<Rightarrow> snd (publish_snapshot sid c))"

text \<open>One payload per source revision, snapshots named by their manifests, none published unless its last
  report before publication passed.\<close>

definition catalog_ok :: "(json \<Rightarrow> string) \<Rightarrow> pit_catalog \<Rightarrow> bool" where
  "catalog_ok H c \<longleftrightarrow> distinct (map raw_key (ct_raw c)) \<and> distinct (map sn_snapshot_id (ct_snapshots c)) \<and>
     (\<forall>r \<in> set (ct_snapshots c). sn_snapshot_id r = snapshot_id H (sn_manifest r) \<and> (sn_published r \<longrightarrow> sn_quality r \<noteq> None))"

lemma sort_remdups_idem: "normalize_hashes (normalize_hashes hs) = normalize_hashes hs"
  by (simp add: normalize_hashes_def distinct_remdups_id sorted_sort_id)

lemma catalog_step_ok: "catalog_ok H c \<Longrightarrow> catalog_ok H (catalog_step H op c)"
proof (cases op)
  case (Create_Snapshot m)
  assume "catalog_ok H c"
  then show ?thesis
    using Create_Snapshot
    by (auto simp: catalog_step_def create_snapshot_def catalog_ok_def Let_def find_None_iff split: sum.splits option.splits)
next
  case (Register_Raw e)
  assume "catalog_ok H c"
  then show ?thesis
    using Register_Raw by (auto simp: catalog_step_def register_raw_def catalog_ok_def find_None_iff split: option.splits)
next
  case (Record_Quality sid q)
  assume "catalog_ok H c"
  then show ?thesis
    using Record_Quality
    by (auto simp: catalog_step_def record_quality_def catalog_ok_def map_update_where set_update_where)
next
  case (Publish_Snapshot sid)
  assume ok: "catalog_ok H c"
  have "sn_quality r \<noteq> None" if "r \<in> set (ct_snapshots c)" "sn_snapshot_id r = sid" "get_quality sid c = Inr (Some q)" for r q
    using that ok find_unique_key [of sn_snapshot_id "ct_snapshots c" r] by (auto simp: catalog_ok_def get_quality_def)
  then show ?thesis
    using Publish_Snapshot ok
    by (auto simp: catalog_step_def publish_snapshot_def catalog_ok_def map_update_where set_update_where split: sum.splits option.splits)
qed

lemma catalog_ok_empty: "catalog_ok H empty_catalog"
  by (simp add: catalog_ok_def empty_catalog_def)

interpretation catalog_sys: invariant_system "\<lambda>c. c = empty_catalog" "catalog_step H" "\<lambda>op c. True" "catalog_ok H" for H
  by unfold_locales (auto intro: catalog_step_ok catalog_ok_empty)

lemma catalog_run_ok: "catalog_ok H c \<Longrightarrow> catalog_ok H (fold (catalog_step H) ops c)"
proof -
  have "catalog_sys.allowed_run H ops c" by (induction ops arbitrary: c) auto
  then show "catalog_ok H c \<Longrightarrow> ?thesis" using catalog_sys.run_inv by blast
qed

subsection \<open>What publishing needs and keeps\<close>

lemma lookup_update_where:
  "(\<And>r. P r \<Longrightarrow> key (f r) = key r) \<Longrightarrow>
   lookup key k (update_where P f rows) = map_option (\<lambda>r. if P r then f r else r) (lookup key k rows)"
  by (induction rows) auto

lemma published_step:
  "is_published sid (catalog_step H op c) \<longleftrightarrow> is_published sid c \<or>
     (op = Publish_Snapshot sid \<and> (\<exists>q. get_quality sid c = Inr (Some q) \<and> qr_passed q))"
proof (cases op)
  case (Create_Snapshot m)
  then show ?thesis
    by (auto simp: catalog_step_def create_snapshot_def is_published_def Let_def find_append split: sum.splits option.splits)
next
  case (Publish_Snapshot s)
  show ?thesis
  proof (cases "s = sid")
    case True
    then show ?thesis
      using Publish_Snapshot
      by (cases "lookup sn_snapshot_id sid (ct_snapshots c)")
        (auto simp: catalog_step_def publish_snapshot_def is_published_def get_quality_def lookup_update_where
          dest: find_Some_set split: option.splits)
  next
    case False
    then show ?thesis
      using Publish_Snapshot
      by (auto simp: catalog_step_def publish_snapshot_def is_published_def lookup_update_where
          dest: find_Some_set split: sum.splits option.splits)
  qed
qed (auto simp: catalog_step_def register_raw_def record_quality_def is_published_def lookup_update_where split: option.splits)

lemma published_after_pass:
  "is_published sid (fold (catalog_step H) ops empty_catalog) \<Longrightarrow>
   \<exists>before after q. ops = before @ Publish_Snapshot sid # after \<and>
     get_quality sid (fold (catalog_step H) before empty_catalog) = Inr (Some q) \<and> qr_passed q"
proof (induction ops rule: rev_induct)
  case (snoc op ops)
  then consider "is_published sid (fold (catalog_step H) ops empty_catalog)" |
    q where "op = Publish_Snapshot sid" "get_quality sid (fold (catalog_step H) ops empty_catalog) = Inr (Some q)" "qr_passed q"
    by (auto simp: published_step)
  then show ?case
  proof cases
    case 1
    then show ?thesis using snoc.IH by (metis append_Cons append_assoc)
  qed blast
qed (simp add: is_published_def empty_catalog_def)

lemma published_stays: "is_published sid c \<Longrightarrow> is_published sid (fold (catalog_step H) ops c)"
  by (induction ops arbitrary: c) (auto simp: published_step)

end
