(* ===== verification/Pit_Quality.thy ===== *)
theory Pit_Quality
  imports Pit_Catalog
begin

section \<open>Data quality gate\<close>

text \<open>
  \<open>src/hanalpha/pit/quality.py\<close> and \<open>pit/calendar.py\<close>: the checks a batch of canonical records passes before its
  snapshot may be published. The time zone database is a parameter \<open>zone\<close>: it gives the weekday (Monday is 0),
  the day and the microsecond of the day of an instant in the exchange's zone.
\<close>

subsection \<open>Exchange calendar\<close>

datatype market_phase = CLOSED | PRE_MARKET | RTH | POST_MARKET

type_synonym zone = "time \<Rightarrow> int \<times> int \<times> int"

definition clock_at :: "int \<Rightarrow> int \<Rightarrow> int" where
  "clock_at h m = seconds ((h * 60 + m) * 60)"

definition market_phase_at :: "zone \<Rightarrow> int list \<Rightarrow> time \<Rightarrow> market_phase" where
  "market_phase_at zone holidays t = (case zone t of (weekday, day, clock) \<Rightarrow>
     if weekday \<ge> 5 \<or> day \<in> set holidays then CLOSED
     else if clock_at 4 0 \<le> clock \<and> clock < clock_at 9 30 then PRE_MARKET
     else if clock_at 9 30 \<le> clock \<and> clock < clock_at 16 0 then RTH
     else if clock_at 16 0 \<le> clock \<and> clock < clock_at 20 0 then POST_MARKET
     else CLOSED)"

subsection \<open>Checks\<close>

definition issue :: "string \<Rightarrow> string \<Rightarrow> string list \<Rightarrow> quality_issue" where
  "issue c m ids = \<lparr>qi_code = c, qi_message = m, qi_record_ids = ids\<rparr>"

fun instruments_of :: "pit_record list \<Rightarrow> instrument_record list" where
  "instruments_of [] = []"
| "instruments_of (r # rs) = (case r of Instrument x \<Rightarrow> x # instruments_of rs | _ \<Rightarrow> instruments_of rs)"

fun aliases_of :: "pit_record list \<Rightarrow> symbol_alias_record list" where
  "aliases_of [] = []"
| "aliases_of (r # rs) = (case r of Symbol_Alias x \<Rightarrow> x # aliases_of rs | _ \<Rightarrow> aliases_of rs)"

definition orphan_issues :: "pit_record list \<Rightarrow> quality_issue list" where
  "orphan_issues rs = concat (map (\<lambda>r. case r of Instrument _ \<Rightarrow> []
     | _ \<Rightarrow> if cr_instrument_id (base_of r) \<in> cr_instrument_id ` set (instruments_of rs) then []
         else [issue ''orphan_instrument_reference'' (record_type r @ '' references unknown instrument'') [cr_record_id (base_of r)]]) rs)"

text \<open>The dictionary of instruments keeps the last record of an id.\<close>

definition instrument_named :: "pit_record list \<Rightarrow> string \<Rightarrow> instrument_record option" where
  "instrument_named rs i = List.find (\<lambda>x. cr_instrument_id x = i) (rev (instruments_of rs))"

definition session_issues :: "zone \<Rightarrow> pit_record list \<Rightarrow> quality_issue list" where
  "session_issues zone rs = concat (map (\<lambda>r. case r of
       Price_Bar b \<Rightarrow> (case instrument_named rs (cr_instrument_id b) of
           None \<Rightarrow> []
         | Some x \<Rightarrow> if ir_exchange x = ''XNYS'' \<and> market_phase_at zone [] (cr_event_time b) \<noteq> RTH
             then [issue ''event_outside_exchange_session'' ''XNYS price bar event_time is outside regular trading hours'' [cr_record_id b]]
             else [])
     | _ \<Rightarrow> []) rs)"

definition revision_key :: "canonical_record \<Rightarrow> string \<times> string \<times> int" where
  "revision_key b = (cr_source b, cr_source_record_id b, cr_source_revision b)"

definition conflict :: "canonical_record option \<Rightarrow> canonical_record \<Rightarrow> quality_issue \<Rightarrow> quality_issue list" where
  "conflict prior b i = (case prior of None \<Rightarrow> [] | Some p \<Rightarrow> if cr_payload_hash p \<noteq> cr_payload_hash b then [i] else [])"

text \<open>The loop over the dictionaries \<open>identities\<close> and \<open>record_ids\<close>; a new binding goes in front.\<close>

fun revision_issues ::
  "pit_record list \<Rightarrow> ((string \<times> string \<times> int) \<times> canonical_record) list \<Rightarrow> (string \<times> canonical_record) list \<Rightarrow>
   quality_issue list" where
  "revision_issues [] ids rids = []"
| "revision_issues (r # rs) ids rids =
     (let b = base_of r; prior = map_of ids (revision_key b); prior_id = map_of rids (cr_record_id b) in
      conflict prior b (issue ''conflicting_source_revision'' ''one source revision has multiple payload hashes''
        (sort [case prior of None \<Rightarrow> [] | Some p \<Rightarrow> cr_record_id p, cr_record_id b])) @
      conflict prior_id b (issue ''conflicting_record_id'' ''one canonical record_id has multiple payload hashes''
        [cr_record_id b]) @
      revision_issues rs ((revision_key b, b) # ids) ((cr_record_id b, b) # rids))"

fun pairs_of :: "'a list \<Rightarrow> ('a \<times> 'a) list" where
  "pairs_of [] = []"
| "pairs_of (x # xs) = map (Pair x) xs @ pairs_of xs"

definition first_occurrences :: "'a list \<Rightarrow> 'a list" where
  "first_occurrences xs = rev (remdups (rev xs))"

definition same_alias :: "symbol_alias_record \<Rightarrow> symbol_alias_record \<Rightarrow> bool" where
  "same_alias l r \<longleftrightarrow> cr_source l = cr_source r \<and> cr_source_record_id l = cr_source_record_id r"

definition overlap_issues :: "pit_record list \<Rightarrow> quality_issue list" where
  "overlap_issues rs = concat (map (\<lambda>t. concat (map (\<lambda>(l, r).
       if \<not> same_alias l r \<and> intervals_overlap (cr_valid_from l) (cr_valid_to l) (cr_valid_from r) (cr_valid_to r)
       then [issue ''overlapping_ticker_interval'' (''ticker '' @ t @ '' has overlapping validity intervals'')
               (sort [cr_record_id l, cr_record_id r])]
       else []) (pairs_of (filter (\<lambda>a. upper_text (sy_ticker a) = t) (aliases_of rs)))))
     (first_occurrences (map (\<lambda>a. upper_text (sy_ticker a)) (aliases_of rs))))"

definition mixed_issues :: "pit_record list \<Rightarrow> quality_issue list" where
  "mixed_issues rs = (if length (remdups (map (cr_snapshot_id \<circ> base_of) rs)) > 1
     then [issue ''mixed_snapshot_ids'' ''canonical batch contains multiple snapshot ids'' (sort (map (cr_record_id \<circ> base_of) rs))]
     else [])"

definition all_issues :: "zone \<Rightarrow> pit_record list \<Rightarrow> quality_issue list" where
  "all_issues zone rs = orphan_issues rs @ session_issues zone rs @ revision_issues rs [] [] @ overlap_issues rs @ mixed_issues rs"

definition join_with :: "string \<Rightarrow> string list \<Rightarrow> string" where
  "join_with sep xs = (case xs of [] \<Rightarrow> [] | y # ys \<Rightarrow> y @ concat (map (\<lambda>s. sep @ s) ys))"

definition issue_line :: "quality_issue \<Rightarrow> string" where
  "issue_line i = qi_code i @ ''|'' @ join_with '','' (qi_record_ids i) @ ''|'' @ qi_message i"

definition evaluate_quality :: "zone \<Rightarrow> (string \<Rightarrow> string) \<Rightarrow> pit_record list \<Rightarrow> quality_report" where
  "evaluate_quality zone sha rs =
     (let is = sort_key qi_code (sort_key qi_record_ids (all_issues zone rs)) in
      \<lparr>qr_passed = (is = []), qr_issues = is, qr_record_count = int (length rs),
       qr_digest = sha (join_with [CHR 0x0A] (map issue_line is) @ [CHR 0x0A] @ ''records='' @ nat_string (length rs))\<rparr>)"

subsection \<open>What a passing report means\<close>

definition records_sound :: "zone \<Rightarrow> pit_record list \<Rightarrow> bool" where
  "records_sound zone rs \<longleftrightarrow>
     (\<forall>r \<in> set rs. cr_instrument_id (base_of r) \<in> cr_instrument_id ` set (instruments_of rs)) \<and>
     (\<forall>b x. Price_Bar b \<in> set rs \<longrightarrow> instrument_named rs (cr_instrument_id b) = Some x \<longrightarrow> ir_exchange x = ''XNYS'' \<longrightarrow>
        market_phase_at zone [] (cr_event_time b) = RTH) \<and>
     (\<forall>r \<in> set rs. \<forall>q \<in> set rs. revision_key (base_of r) = revision_key (base_of q) \<or> cr_record_id (base_of r) = cr_record_id (base_of q) \<longrightarrow>
        cr_payload_hash (base_of r) = cr_payload_hash (base_of q)) \<and>
     (\<forall>(l, r) \<in> set (pairs_of (aliases_of rs)). upper_text (sy_ticker l) = upper_text (sy_ticker r) \<longrightarrow> \<not> same_alias l r \<longrightarrow>
        \<not> intervals_overlap (cr_valid_from l) (cr_valid_to l) (cr_valid_from r) (cr_valid_to r)) \<and>
     (\<forall>r \<in> set rs. \<forall>q \<in> set rs. cr_snapshot_id (base_of r) = cr_snapshot_id (base_of q))"

lemma set_instruments_of: "x \<in> set (instruments_of rs) \<longleftrightarrow> Instrument x \<in> set rs"
  by (induction rs) (auto split: pit_record.splits)

lemma set_aliases_of: "x \<in> set (aliases_of rs) \<longleftrightarrow> Symbol_Alias x \<in> set rs"
  by (induction rs) (auto split: pit_record.splits)

lemma concat_map_Nil: "concat (map f xs) = [] \<longleftrightarrow> (\<forall>x \<in> set xs. f x = [])"
  by (simp add: concat_eq_Nil_conv)

lemma orphan_issues_none:
  "orphan_issues rs = [] \<longleftrightarrow> (\<forall>r \<in> set rs. cr_instrument_id (base_of r) \<in> cr_instrument_id ` set (instruments_of rs))"
proof -
  have "cr_instrument_id (base_of (Instrument x)) \<in> cr_instrument_id ` set (instruments_of rs)" if "Instrument x \<in> set rs" for x
    using that by (auto simp: base_of_def canonical_record.truncate_def set_instruments_of intro!: image_eqI [of _ _ x])
  moreover have "(case r of Instrument _ \<Rightarrow> [] | _ \<Rightarrow> if P then [] else [i]) = [] \<longleftrightarrow> P \<or> (\<exists>x. r = Instrument x)" for r P and i :: quality_issue
    by (cases r) auto
  ultimately show ?thesis unfolding orphan_issues_def concat_map_Nil by auto
qed

lemma session_issues_none:
  "session_issues zone rs = [] \<longleftrightarrow>
     (\<forall>b x. Price_Bar b \<in> set rs \<longrightarrow> instrument_named rs (cr_instrument_id b) = Some x \<longrightarrow> ir_exchange x = ''XNYS'' \<longrightarrow>
        market_phase_at zone [] (cr_event_time b) = RTH)"
  by (auto simp: session_issues_def split: pit_record.splits option.splits if_splits)

lemma set_pairs_filter:
  "(l, r) \<in> set (pairs_of (filter P xs)) \<longleftrightarrow> (l, r) \<in> set (pairs_of xs) \<and> P l \<and> P r"
  by (induction xs) auto

lemma set_pairs_member: "(l, r) \<in> set (pairs_of xs) \<Longrightarrow> l \<in> set xs \<and> r \<in> set xs"
  by (induction xs) auto

lemma set_first_occurrences [simp]: "set (first_occurrences xs) = set xs"
  by (simp add: first_occurrences_def)

lemma overlap_issues_none:
  "overlap_issues rs = [] \<longleftrightarrow>
     (\<forall>(l, r) \<in> set (pairs_of (aliases_of rs)). upper_text (sy_ticker l) = upper_text (sy_ticker r) \<longrightarrow> \<not> same_alias l r \<longrightarrow>
        \<not> intervals_overlap (cr_valid_from l) (cr_valid_to l) (cr_valid_from r) (cr_valid_to r))"
proof -
  let ?clash = "\<lambda>l r. \<not> same_alias l r \<and> intervals_overlap (cr_valid_from l) (cr_valid_to l) (cr_valid_from r) (cr_valid_to r)"
  let ?ticker = "\<lambda>a. upper_text (sy_ticker a)"
  have "overlap_issues rs = [] \<longleftrightarrow> (\<forall>t \<in> ?ticker ` set (aliases_of rs). \<forall>(l, r) \<in> set (pairs_of (filter (\<lambda>a. ?ticker a = t) (aliases_of rs))).
      \<not> ?clash l r)"
    unfolding overlap_issues_def concat_map_Nil set_first_occurrences set_map by (simp add: case_prod_beta)
  also have "\<dots> \<longleftrightarrow> (\<forall>(l, r) \<in> set (pairs_of (aliases_of rs)). ?ticker l = ?ticker r \<longrightarrow> \<not> ?clash l r)"
    using set_pairs_member [of _ _ "aliases_of rs"] by (fastforce simp: set_pairs_filter)
  finally show ?thesis by auto
qed

lemma mixed_issues_none:
  "mixed_issues rs = [] \<longleftrightarrow> (\<forall>r \<in> set rs. \<forall>q \<in> set rs. cr_snapshot_id (base_of r) = cr_snapshot_id (base_of q))"
proof -
  let ?ids = "map (cr_snapshot_id \<circ> base_of) rs"
  have "length (remdups ?ids) = card (set ?ids)" by (rule length_remdups_card_conv)
  moreover have "card (set ?ids) \<le> Suc 0 \<longleftrightarrow> (\<forall>x \<in> set ?ids. \<forall>y \<in> set ?ids. x = y)"
    by (rule card_le_Suc0_iff_eq) simp
  ultimately have "mixed_issues rs = [] \<longleftrightarrow> (\<forall>x \<in> set ?ids. \<forall>y \<in> set ?ids. x = y)"
    unfolding mixed_issues_def One_nat_def by (metis list.distinct(1) not_less)
  then show ?thesis by simp
qed

text \<open>Comparing each record with the last one of its key detects every disagreement.\<close>

lemma conflict_none: "conflict prior b i = [] \<longleftrightarrow> (\<forall>p. prior = Some p \<longrightarrow> cr_payload_hash p = cr_payload_hash b)"
  by (auto simp: conflict_def split: option.splits)

definition agree_on :: "('k \<times> canonical_record) list \<Rightarrow> (canonical_record \<Rightarrow> 'k) \<Rightarrow> pit_record list \<Rightarrow> bool" where
  "agree_on ids key rs \<longleftrightarrow> (\<forall>r \<in> set rs. \<forall>p. map_of ids (key (base_of r)) = Some p \<longrightarrow> cr_payload_hash p = cr_payload_hash (base_of r)) \<and>
     (\<forall>r \<in> set rs. \<forall>q \<in> set rs. key (base_of r) = key (base_of q) \<longrightarrow> cr_payload_hash (base_of r) = cr_payload_hash (base_of q))"

lemma agree_on_Cons:
  "agree_on ids key (r # rs) \<longleftrightarrow>
     (\<forall>p. map_of ids (key (base_of r)) = Some p \<longrightarrow> cr_payload_hash p = cr_payload_hash (base_of r)) \<and>
     agree_on ((key (base_of r), base_of r) # ids) key rs"
proof
  assume all: "agree_on ids key (r # rs)"
  have old: "cr_payload_hash p = cr_payload_hash (base_of q)" if "q \<in> set (r # rs)" "map_of ids (key (base_of q)) = Some p" for q p
    using that all unfolding agree_on_def by blast
  have pairs: "cr_payload_hash (base_of x) = cr_payload_hash (base_of y)"
    if "x \<in> set (r # rs)" "y \<in> set (r # rs)" "key (base_of x) = key (base_of y)" for x y
    using that all unfolding agree_on_def by blast
  have "cr_payload_hash p = cr_payload_hash (base_of q)"
    if q: "q \<in> set rs" "map_of ((key (base_of r), base_of r) # ids) (key (base_of q)) = Some p" for q p
  proof (cases "key (base_of q) = key (base_of r)")
    case True
    then have "p = base_of r" using q(2) by simp
    then show ?thesis using pairs [of r q] q(1) True by simp
  next
    case False
    then show ?thesis using old [of q p] q by simp
  qed
  then show "(\<forall>p. map_of ids (key (base_of r)) = Some p \<longrightarrow> cr_payload_hash p = cr_payload_hash (base_of r)) \<and>
      agree_on ((key (base_of r), base_of r) # ids) key rs"
    using old pairs unfolding agree_on_def by (metis list.set_intros)
next
  assume rest: "(\<forall>p. map_of ids (key (base_of r)) = Some p \<longrightarrow> cr_payload_hash p = cr_payload_hash (base_of r)) \<and>
      agree_on ((key (base_of r), base_of r) # ids) key rs"
  let ?ids = "(key (base_of r), base_of r) # ids"
  have ext: "cr_payload_hash p = cr_payload_hash (base_of q)" if "q \<in> set rs" "map_of ?ids (key (base_of q)) = Some p" for q p
    using that rest unfolding agree_on_def by blast
  have pairs: "cr_payload_hash (base_of x) = cr_payload_hash (base_of y)"
    if "x \<in> set rs" "y \<in> set rs" "key (base_of x) = key (base_of y)" for x y
    using that rest unfolding agree_on_def by blast
  have same: "cr_payload_hash (base_of r) = cr_payload_hash (base_of q)" if "q \<in> set rs" "key (base_of q) = key (base_of r)" for q
    using ext [OF that(1), of "base_of r"] that(2) by simp
  have old: "cr_payload_hash p = cr_payload_hash (base_of q)" if q: "q \<in> set (r # rs)" "map_of ids (key (base_of q)) = Some p" for q p
  proof (cases "key (base_of q) = key (base_of r)")
    case True
    then have "cr_payload_hash p = cr_payload_hash (base_of r)" using rest q(2) by simp
    then show ?thesis using q(1) same [OF _ True] by auto
  next
    case False
    then show ?thesis using q ext [of q p] by auto
  qed
  have "cr_payload_hash (base_of x) = cr_payload_hash (base_of y)"
    if "x \<in> set (r # rs)" "y \<in> set (r # rs)" "key (base_of x) = key (base_of y)" for x y
    using that same pairs by (metis set_ConsD)
  then show "agree_on ids key (r # rs)" using old unfolding agree_on_def by blast
qed

lemma revision_issues_none:
  "revision_issues rs ids rids = [] \<longleftrightarrow> agree_on ids revision_key rs \<and> agree_on rids cr_record_id rs"
proof (induction rs ids rids rule: revision_issues.induct)
  case (2 r rs ids rids)
  then show ?case by (simp add: Let_def conflict_none agree_on_Cons) blast
qed (simp add: agree_on_def)

lemma gate_passes_iff: "qr_passed (evaluate_quality zone sha rs) \<longleftrightarrow> records_sound zone rs"
proof -
  have "qr_passed (evaluate_quality zone sha rs) \<longleftrightarrow> all_issues zone rs = []"
    by (simp add: evaluate_quality_def Let_def) (metis length_0_conv length_sort)
  also have "\<dots> \<longleftrightarrow> orphan_issues rs = [] \<and> session_issues zone rs = [] \<and> revision_issues rs [] [] = [] \<and> overlap_issues rs = [] \<and> mixed_issues rs = []"
    by (simp add: all_issues_def)
  also have "revision_issues rs [] [] = [] \<longleftrightarrow>
     (\<forall>r \<in> set rs. \<forall>q \<in> set rs. revision_key (base_of r) = revision_key (base_of q) \<or> cr_record_id (base_of r) = cr_record_id (base_of q) \<longrightarrow>
        cr_payload_hash (base_of r) = cr_payload_hash (base_of q))"
    unfolding revision_issues_none agree_on_def by auto
  finally show ?thesis
    unfolding records_sound_def orphan_issues_none session_issues_none overlap_issues_none mixed_issues_none by blast
qed

end
