(* ===== verification/Pit_Repository.thy ===== *)
theory Pit_Repository
  imports Pit_Quality Sim_Fills
begin

section \<open>As-of queries\<close>

text \<open>
  \<open>src/hanalpha/pit/canonical_store.py\<close>, \<open>repository.py\<close> and \<open>actions.py\<close>. A snapshot's parquet file is the list
  of its records, a stored payload the record it parses back to. The one SQL statement of the store filters
  by the predicate, then keeps the first row of each source record by descending revision and ingestion
  time, and orders the rows by event time and record id; where SQL leaves ties open the model takes the
  first row of the file.
\<close>

type_synonym canonical_files = "(string \<times> pit_record list) list"

definition sort_records :: "pit_record list \<Rightarrow> pit_record list" where
  "sort_records rs = sort_key (cr_source \<circ> base_of) (sort_key (cr_source_record_id \<circ> base_of)
     (sort_key (cr_source_revision \<circ> base_of) rs))"

definition ordered_rows :: "pit_record list \<Rightarrow> pit_record list" where
  "ordered_rows rs = sort_key (cr_event_time \<circ> base_of) (sort_key (cr_record_id \<circ> base_of) rs)"

definition source_of :: "pit_record \<Rightarrow> string \<times> string" where
  "source_of r = (cr_source (base_of r), cr_source_record_id (base_of r))"

definition newest_first :: "pit_record list \<Rightarrow> pit_record list" where
  "newest_first rs = sort_key (\<lambda>r. - cr_source_revision (base_of r)) (sort_key (\<lambda>r. - cr_ingested_at (base_of r)) rs)"

definition latest_revisions :: "pit_record list \<Rightarrow> pit_record list" where
  "latest_revisions rs = map (\<lambda>k. hd (newest_first (filter (\<lambda>r. source_of r = k) rs))) (first_occurrences (map source_of rs))"

definition query_payloads ::
  "string \<Rightarrow> (pit_record \<Rightarrow> bool) \<Rightarrow> bool \<Rightarrow> canonical_files \<Rightarrow> pit_record list res" where
  "query_payloads sid pred latest files = (case map_of files sid of None \<Rightarrow> Inl (KeyError sid)
     | Some rs \<Rightarrow> Inr (ordered_rows (if latest then latest_revisions (filter pred rs) else filter pred rs)))"

fun validate_records :: "pit_record list \<Rightarrow> unit res" where
  "validate_records [] = Inr ()"
| "validate_records (r # rs) = (case validate_record r of Inl e \<Rightarrow> Inl e | Inr _ \<Rightarrow> validate_records rs)"

definition write_snapshot :: "string \<Rightarrow> pit_record list \<Rightarrow> canonical_files \<Rightarrow> unit res \<times> canonical_files" where
  "write_snapshot sid rs files = (case validate_records rs of
       Inl e \<Rightarrow> (Inl e, files)
     | Inr _ \<Rightarrow>
       if list_ex (\<lambda>r. cr_snapshot_id (base_of r) \<noteq> sid) rs
       then (Inl (ValueError ''all records must be bound to the target snapshot''), files)
       else case map_of files sid of
         Some old \<Rightarrow> if sort_records (ordered_rows old) \<noteq> sort_records rs
           then (Inl (RuntimeError ''immutable canonical snapshot already exists with other content''), files) else (Inr (), files)
       | None \<Rightarrow> (Inr (), (sid, rs) # files))"

subsection \<open>The repository\<close>

record as_of_context =
  ac_snapshot_id :: string
  ac_as_of :: time

definition visible_at :: "time \<Rightarrow> pit_record \<Rightarrow> bool" where
  "visible_at t r \<longleftrightarrow> cr_available_at (base_of r) \<le> t \<and> cr_valid_from (base_of r) \<le> t \<and>
     (case cr_valid_to (base_of r) of None \<Rightarrow> True | Some v \<Rightarrow> t < v)"

definition as_of_query ::
  "as_of_context \<Rightarrow> (pit_record \<Rightarrow> bool) \<Rightarrow> pit_catalog \<Rightarrow> canonical_files \<Rightarrow> pit_record list res" where
  "as_of_query ctx pred cat files =
     (if \<not> is_published (ac_snapshot_id ctx) cat then Inl (RuntimeError (ac_snapshot_id ctx))
      else query_payloads (ac_snapshot_id ctx) (\<lambda>r. visible_at (ac_as_of ctx) r \<and> pred r) True files)"

definition alias_for :: "string \<Rightarrow> pit_record \<Rightarrow> bool" where
  "alias_for ticker r = (case r of Symbol_Alias a \<Rightarrow> upper_text (sy_ticker a) = upper_text ticker | _ \<Rightarrow> False)"

definition resolve_ticker ::
  "string \<Rightarrow> as_of_context \<Rightarrow> pit_catalog \<Rightarrow> canonical_files \<Rightarrow> symbol_alias_record option res" where
  "resolve_ticker ticker ctx cat files =
     bind_res (as_of_query ctx (alias_for ticker) cat files) (\<lambda>rows.
       let as = aliases_of rows in
       if length as > 1 then Inl (RuntimeError (''ambiguous ticker at as_of: '' @ ticker))
       else Inr (case as of [] \<Rightarrow> None | a # _ \<Rightarrow> Some a))"

definition active_instruments :: "as_of_context \<Rightarrow> pit_catalog \<Rightarrow> canonical_files \<Rightarrow> instrument_record list res" where
  "active_instruments ctx cat files =
     bind_res (as_of_query ctx (\<lambda>r. record_type r = ''instrument'') cat files) (\<lambda>rows. Inr (instruments_of rows))"

fun bars_of :: "pit_record list \<Rightarrow> price_bar_record list" where
  "bars_of [] = []"
| "bars_of (r # rs) = (case r of Price_Bar x \<Rightarrow> x # bars_of rs | _ \<Rightarrow> bars_of rs)"

fun actions_of :: "pit_record list \<Rightarrow> corporate_action_record list" where
  "actions_of [] = []"
| "actions_of (r # rs) = (case r of Corporate_Action x \<Rightarrow> x # actions_of rs | _ \<Rightarrow> actions_of rs)"

definition bar_for :: "string \<Rightarrow> string option \<Rightarrow> pit_record \<Rightarrow> bool" where
  "bar_for i interval r = (case r of
       Price_Bar b \<Rightarrow> cr_instrument_id b = i \<and> (case interval of None \<Rightarrow> True | Some v \<Rightarrow> pb_interval b = v) | _ \<Rightarrow> False)"

definition price_bars ::
  "string \<Rightarrow> string option \<Rightarrow> as_of_context \<Rightarrow> pit_catalog \<Rightarrow> canonical_files \<Rightarrow> price_bar_record list res" where
  "price_bars i interval ctx cat files =
     bind_res (as_of_query ctx (bar_for i interval) cat files) (\<lambda>rows. Inr (bars_of rows))"

definition action_for :: "string \<Rightarrow> pit_record \<Rightarrow> bool" where
  "action_for i r = (case r of Corporate_Action a \<Rightarrow> cr_instrument_id a = i | _ \<Rightarrow> False)"

definition corporate_actions ::
  "string \<Rightarrow> as_of_context \<Rightarrow> pit_catalog \<Rightarrow> canonical_files \<Rightarrow> corporate_action_record list res" where
  "corporate_actions i ctx cat files =
     bind_res (as_of_query ctx (action_for i) cat files) (\<lambda>rows. Inr (actions_of rows))"

subsection \<open>Price adjustment\<close>

datatype adjustment_policy = AP_RAW | AP_SPLIT | AP_SPLIT_AND_CASH

record adjusted_price =
  aj_value :: rat
  aj_policy :: adjustment_policy
  aj_action_ids :: "string list"
  aj_snapshot_id :: "string option"

definition adjust_step ::
  "adjustment_policy \<Rightarrow> time \<Rightarrow> time \<Rightarrow> corporate_action_record \<Rightarrow> rat \<times> string list \<Rightarrow> rat \<times> string list" where
  "adjust_step policy price_time as_of a acc = (case acc of (value, applied) \<Rightarrow>
     if \<not> (price_time < cr_event_time a \<and> cr_event_time a \<le> as_of \<and> cr_available_at a \<le> as_of) then acc
     else case (cx_action_type a, cx_ratio a) of
       (SPLIT, Some q) \<Rightarrow> (value / q, applied @ [cr_record_id a])
     | _ \<Rightarrow> (case (policy, cx_action_type a, cx_cash_amount a) of
          (AP_SPLIT_AND_CASH, DIVIDEND, Some c) \<Rightarrow> (value - c, applied @ [cr_record_id a])
        | _ \<Rightarrow> acc))"

definition adjust_price ::
  "rat \<Rightarrow> time \<Rightarrow> time \<Rightarrow> corporate_action_record list \<Rightarrow> adjustment_policy \<Rightarrow> adjusted_price res" where
  "adjust_price raw price_time as_of actions policy =
     (let sids = remdups (map cr_snapshot_id actions); sid = (case sids of [] \<Rightarrow> None | s # _ \<Rightarrow> Some s) in
      if length sids > 1 then Inl (ValueError ''corporate actions must come from one snapshot'')
      else if policy = AP_RAW then Inr \<lparr>aj_value = raw, aj_policy = policy, aj_action_ids = [], aj_snapshot_id = sid\<rparr>
      else case fold (adjust_step policy price_time as_of) (sort_key cr_event_time (sort_key cr_record_id actions)) (raw, []) of
        (value, applied) \<Rightarrow> Inr \<lparr>aj_value = value, aj_policy = policy, aj_action_ids = applied, aj_snapshot_id = sid\<rparr>)"

subsection \<open>Latest revisions\<close>

lemma set_newest_first [simp]: "set (newest_first rs) = set rs"
  by (simp add: newest_first_def)

lemma latest_of_key:
  assumes "k \<in> source_of ` set rs"
  shows "hd (newest_first (filter (\<lambda>r. source_of r = k) rs)) \<in> set rs"
    "source_of (hd (newest_first (filter (\<lambda>r. source_of r = k) rs))) = k"
proof -
  have "filter (\<lambda>r. source_of r = k) rs \<noteq> []" using assms by (auto simp: filter_empty_conv)
  then have "newest_first (filter (\<lambda>r. source_of r = k) rs) \<noteq> []" by (metis set_empty set_newest_first)
  then have "hd (newest_first (filter (\<lambda>r. source_of r = k) rs)) \<in> set (filter (\<lambda>r. source_of r = k) rs)"
    by (metis hd_in_set set_newest_first)
  then show "hd (newest_first (filter (\<lambda>r. source_of r = k) rs)) \<in> set rs"
    "source_of (hd (newest_first (filter (\<lambda>r. source_of r = k) rs))) = k" by auto
qed

lemma latest_revisions_subset: "r \<in> set (latest_revisions rs) \<Longrightarrow> r \<in> set rs"
  using latest_of_key(1) by (fastforce simp: latest_revisions_def)

lemma latest_revisions_sources: "map source_of (latest_revisions rs) = first_occurrences (map source_of rs)"
  by (auto simp: latest_revisions_def latest_of_key(2) intro!: map_idI)

lemma distinct_latest_revisions: "distinct (map source_of (latest_revisions rs))"
  by (simp add: latest_revisions_sources first_occurrences_def)

text \<open>No row of the query has a newer revision among the rows the predicate admits.\<close>

lemma newest_first_greatest:
  assumes "r \<in> set rs"
  shows "cr_source_revision (base_of r) \<le> cr_source_revision (base_of (hd (newest_first rs)))"
proof -
  have "sorted (map (\<lambda>r. - cr_source_revision (base_of r)) (newest_first rs))" by (simp add: newest_first_def)
  moreover have "r \<in> set (newest_first rs)" using assms by simp
  ultimately show ?thesis by (cases "newest_first rs") auto
qed

lemma latest_revisions_newest:
  assumes "r \<in> set (latest_revisions rs)" and "q \<in> set rs" and "source_of q = source_of r"
  shows "cr_source_revision (base_of q) \<le> cr_source_revision (base_of r)"
proof -
  obtain k where k: "k \<in> source_of ` set rs" "r = hd (newest_first (filter (\<lambda>r. source_of r = k) rs))"
    using assms(1) by (auto simp: latest_revisions_def)
  then have "q \<in> set (filter (\<lambda>r. source_of r = k) rs)" using assms(2,3) latest_of_key(2) by simp
  then show ?thesis using newest_first_greatest k(2) by blast
qed

lemma set_ordered_rows [simp]: "set (ordered_rows rs) = set rs"
  by (simp add: ordered_rows_def)

end
