(* ===== verification/Pit_Properties.thy ===== *)
theory Pit_Properties
  imports Pit_Repository Samples
begin

section \<open>Properties of point-in-time data\<close>

text \<open>
  What a passing quality report means, and what the repository answers: never a record that was not available
  at the instant asked about, and never an ambiguous ticker from a snapshot that passed the gate.
\<close>

subsection \<open>Sequences of writes\<close>

definition write_all :: "(string \<times> pit_record list) list \<Rightarrow> canonical_files \<Rightarrow> canonical_files" where
  "write_all ws files = fold (\<lambda>(sid, rs) f. snd (write_snapshot sid rs f)) ws files"

definition files_valid :: "canonical_files \<Rightarrow> bool" where
  "files_valid files \<longleftrightarrow> (\<forall>sid rs. map_of files sid = Some rs \<longrightarrow>
     (\<forall>r \<in> set rs. validate_record r = Inr () \<and> cr_snapshot_id (base_of r) = sid))"

lemma validate_records_all: "validate_records rs = Inr () \<longleftrightarrow> (\<forall>r \<in> set rs. validate_record r = Inr ())"
  by (induction rs) (auto split: sum.splits)

lemma write_valid: "files_valid files \<Longrightarrow> files_valid (snd (write_snapshot sid rs files))"
  by (auto simp: write_snapshot_def files_valid_def list_ex_iff validate_records_all split: sum.splits option.splits)

lemma write_all_valid: "files_valid files \<Longrightarrow> files_valid (write_all ws files)"
  unfolding write_all_def by (induction ws arbitrary: files) (auto simp: write_valid)

text \<open>A written snapshot never changes.\<close>

lemma write_keeps: "map_of files sid = Some rs \<Longrightarrow> map_of (snd (write_snapshot s qs files)) sid = Some rs"
  by (auto simp: write_snapshot_def split: sum.splits option.splits)

subsection \<open>Worked example\<close>

definition demo_base :: "string \<Rightarrow> string \<Rightarrow> int \<Rightarrow> time \<Rightarrow> time option \<Rightarrow> canonical_record" where
  "demo_base rid src n at until = \<lparr>cr_instrument_id = ''X'', cr_record_id = rid, cr_event_time = at, cr_available_at = at,
     cr_ingested_at = at, cr_valid_from = 0, cr_valid_to = until, cr_source = ''s'', cr_source_record_id = src,
     cr_source_revision = n, cr_schema_version = ''1'', cr_payload_hash = flat_digest JNull, cr_snapshot_id = flat_digest JNull\<rparr>"

definition demo_instrument :: pit_record where
  "demo_instrument = Instrument (canonical_record.extend (demo_base ''r0'' ''i'' 1 0 None)
     (instrument_record.fields ''Acme'' ''XNYS'' ''equity''))"

definition demo_alias :: "string \<Rightarrow> int \<Rightarrow> time \<Rightarrow> time option \<Rightarrow> pit_record" where
  "demo_alias rid n at until = Symbol_Alias (canonical_record.extend (demo_base rid ''a'' n at until) (symbol_alias_record.fields ''ABC''))"

definition demo_catalog :: pit_catalog where
  "demo_catalog = \<lparr>ct_raw = [], ct_snapshots = [\<lparr>sn_snapshot_id = flat_digest JNull,
     sn_manifest = \<lparr>sm_input_hashes = [], sm_schema_version = ''1'', sm_normalization_code_hash = flat_digest JNull,
       sm_config_hash = flat_digest JNull, sm_fixture_version = ''1''\<rparr>, sn_published = True, sn_quality = None\<rparr>]\<rparr>"

definition pit_context :: "time \<Rightarrow> as_of_context" where
  "pit_context t = \<lparr>ac_snapshot_id = flat_digest JNull, ac_as_of = t\<rparr>"

definition demo_records :: "pit_record list" where
  "demo_records = [demo_instrument, demo_alias ''r1'' 1 0 None]"

definition demo_zone :: zone where
  "demo_zone t = (0, 0, t)"

lemmas demo_pit = demo_base_def demo_instrument_def demo_alias_def pit_context_def demo_records_def canonical_record.extend_def
  instrument_record.fields_def symbol_alias_record.fields_def

lemma flat_hash_pattern: "hash_pattern (flat_digest j)"
  unfolding flat_digest_def by code_simp

text \<open>A newer revision that closes the validity of an alias does not hide the older one: the query filters by
  validity before it keeps the latest revision, so the superseded row answers.\<close>

lemma superseded_revision_answers:
  "as_of_query (pit_context 20) (alias_for ''ABC'') demo_catalog
     [(flat_digest JNull, [demo_instrument, demo_alias ''r1'' 1 0 None, demo_alias ''r2'' 2 5 (Some 10)])]
   = Inr [demo_alias ''r1'' 1 0 None]"
  by (simp add: as_of_query_def is_published_def demo_catalog_def query_payloads_def demo_pit visible_at_def base_of_def
      canonical_record.truncate_def alias_for_def latest_revisions_def first_occurrences_def newest_first_def ordered_rows_def)

subsection \<open>Unambiguous tickers\<close>

lemma pairs_of_total: "l \<in> set xs \<Longrightarrow> r \<in> set xs \<Longrightarrow> l \<noteq> r \<Longrightarrow> (l, r) \<in> set (pairs_of xs) \<or> (r, l) \<in> set (pairs_of xs)"
  by (induction xs) auto

lemma overlap_sym: "intervals_overlap a b c d = intervals_overlap c d a b"
  by (auto simp: intervals_overlap_def split: option.splits)

lemma alias_base [simp]:
  "cr_source (base_of (Symbol_Alias a)) = cr_source a" "cr_source_record_id (base_of (Symbol_Alias a)) = cr_source_record_id a"
  "cr_valid_from (base_of (Symbol_Alias a)) = cr_valid_from a" "cr_valid_to (base_of (Symbol_Alias a)) = cr_valid_to a"
  by (simp_all add: base_of_def canonical_record.truncate_def)

lemma distinct_aliases_of: "distinct rs \<Longrightarrow> distinct (aliases_of rs)"
  by (induction rs) (auto simp: set_aliases_of split: pit_record.splits)

lemma distinct_rows: "distinct (ordered_rows (latest_revisions rs))"
  using distinct_latest_revisions [of rs] by (simp add: ordered_rows_def distinct_map)

lemma visible_overlap:
  assumes "visible_at t (Symbol_Alias a)" "visible_at t (Symbol_Alias b)"
  shows "intervals_overlap (cr_valid_from a) (cr_valid_to a) (cr_valid_from b) (cr_valid_to b)"
  using assms by (auto simp: visible_at_def intervals_overlap_def split: option.splits)

lemma latest_filter:
  "r \<in> set (latest_revisions (filter (\<lambda>r. visible_at t r \<and> P r) rs)) \<Longrightarrow> r \<in> set rs \<and> visible_at t r \<and> P r"
  using latest_revisions_subset by fastforce

lemma latest_revisions_Nil: "latest_revisions rs = [] \<longleftrightarrow> rs = []"
proof -
  have "set (map source_of (latest_revisions rs)) = set (map source_of rs)"
    by (simp only: latest_revisions_sources set_first_occurrences)
  then show ?thesis by (metis list.map_disc_iff set_empty)
qed

lemma ordered_rows_Nil: "ordered_rows rs = [] \<longleftrightarrow> rs = []"
  by (metis set_empty set_ordered_rows)

lemma sound_one_alias:
  assumes sound: "records_sound zone rs"
  shows "length (aliases_of (ordered_rows (latest_revisions (filter (\<lambda>r. visible_at t r \<and> alias_for ticker r) rs)))) \<le> 1"
proof (rule ccontr)
  let ?rows = "ordered_rows (latest_revisions (filter (\<lambda>r. visible_at t r \<and> alias_for ticker r) rs))"
  let ?as = "aliases_of ?rows"
  assume "\<not> length ?as \<le> 1"
  then obtain a b as where as: "?as = a # b # as" by (metis One_nat_def Suc_le_mono le0 length_Cons list.exhaust list.size(3))
  have "distinct ?as" by (rule distinct_aliases_of [OF distinct_rows])
  then have ab: "a \<noteq> b" "a \<in> set ?as" "b \<in> set ?as" using as by auto
  then have rows: "Symbol_Alias a \<in> set ?rows" "Symbol_Alias b \<in> set ?rows" by (simp_all only: set_aliases_of)
  then have latest: "Symbol_Alias a \<in> set (latest_revisions (filter (\<lambda>r. visible_at t r \<and> alias_for ticker r) rs))"
    "Symbol_Alias b \<in> set (latest_revisions (filter (\<lambda>r. visible_at t r \<and> alias_for ticker r) rs))" by simp_all
  have "source_of (Symbol_Alias a) \<noteq> source_of (Symbol_Alias b)"
    using same_key_same_row [OF distinct_latest_revisions latest] ab(1) by auto
  then have other: "\<not> same_alias a b" "\<not> same_alias b a" by (auto simp: same_alias_def source_of_def)
  have in_rs: "Symbol_Alias a \<in> set rs" "Symbol_Alias b \<in> set rs" "visible_at t (Symbol_Alias a)" "visible_at t (Symbol_Alias b)"
    "upper_text (sy_ticker a) = upper_text (sy_ticker b)"
    using latest_filter [OF latest(1)] latest_filter [OF latest(2)] by (simp_all add: alias_for_def)
  have "a \<in> set (aliases_of rs)" "b \<in> set (aliases_of rs)" using in_rs(1,2) by (simp_all add: set_aliases_of)
  then have "(a, b) \<in> set (pairs_of (aliases_of rs)) \<or> (b, a) \<in> set (pairs_of (aliases_of rs))"
    by (rule pairs_of_total [OF _ _ ab(1)])
  moreover have apart: "\<not> intervals_overlap (cr_valid_from l) (cr_valid_to l) (cr_valid_from r) (cr_valid_to r)"
    if "(l, r) \<in> set (pairs_of (aliases_of rs))" "upper_text (sy_ticker l) = upper_text (sy_ticker r)" "\<not> same_alias l r" for l r
    using sound that unfolding records_sound_def by blast
  moreover have "intervals_overlap (cr_valid_from a) (cr_valid_to a) (cr_valid_from b) (cr_valid_to b)"
    by (rule visible_overlap [OF in_rs(3,4)])
  ultimately show False
    using apart [of a b] apart [of b a] in_rs(5) other overlap_sym by metis
qed

text \<open>Whatever was written, a ticker resolved in a snapshot whose records passed the
  quality gate is never ambiguous: the only failure left is that the snapshot is not published, and an
  answer is an alias of the snapshot for that ticker, available and valid at the instant asked about.\<close>

theorem passing_gate_makes_tickers_unambiguous:
  assumes "map_of (write_all ws []) (ac_snapshot_id ctx) = Some rs" and "qr_passed (evaluate_quality zone sha rs)"
  shows "case resolve_ticker ticker ctx cat (write_all ws []) of
      Inl e \<Rightarrow> e = RuntimeError (ac_snapshot_id ctx) \<and> \<not> is_published (ac_snapshot_id ctx) cat
    | Inr None \<Rightarrow> \<not> (\<exists>r \<in> set rs. visible_at (ac_as_of ctx) r \<and> alias_for ticker r)
    | Inr (Some a) \<Rightarrow> Symbol_Alias a \<in> set rs \<and> visible_at (ac_as_of ctx) (Symbol_Alias a) \<and>
        upper_text (sy_ticker a) = upper_text ticker"
proof (cases "is_published (ac_snapshot_id ctx) cat")
  case True
  let ?rows = "filter (\<lambda>r. visible_at (ac_as_of ctx) r \<and> alias_for ticker r) rs"
  let ?as = "aliases_of (ordered_rows (latest_revisions ?rows))"
  have "length ?as \<le> 1" using assms(2) by (intro sound_one_alias) (simp add: gate_passes_iff)
  then have res: "resolve_ticker ticker ctx cat (write_all ws []) = Inr (case ?as of [] \<Rightarrow> None | a # _ \<Rightarrow> Some a)"
    using True assms(1) by (simp add: resolve_ticker_def as_of_query_def query_payloads_def bind_res_def Let_def)
  show ?thesis
  proof (cases ?as)
    case Nil
    have none: "\<not> visible_at (ac_as_of ctx) r \<or> \<not> alias_for ticker r" if "r \<in> set rs" for r
    proof (rule ccontr)
      assume "\<not> ?thesis"
      then have "?rows \<noteq> []" using that by (auto simp: filter_empty_conv)
      then obtain q where q: "q \<in> set (latest_revisions ?rows)" by (metis latest_revisions_Nil list.set_intros(1) neq_Nil_conv)
      then have "alias_for ticker q" using latest_filter by blast
      then obtain a where "q = Symbol_Alias a" by (auto simp: alias_for_def split: pit_record.splits)
      then have "a \<in> set ?as" using q by (simp add: set_aliases_of)
      then show False using Nil by simp
    qed
    show ?thesis using none Nil by (auto simp: res)
  next
    case (Cons a as)
    then have "a \<in> set ?as" by simp
    then have "Symbol_Alias a \<in> set (latest_revisions ?rows)" by (simp only: set_aliases_of set_ordered_rows)
    then have "Symbol_Alias a \<in> set rs \<and> visible_at (ac_as_of ctx) (Symbol_Alias a) \<and> alias_for ticker (Symbol_Alias a)"
      by (rule latest_filter)
    then show ?thesis unfolding res Cons by (simp add: alias_for_def)
  qed
next
  case False
  then show ?thesis by (simp add: resolve_ticker_def as_of_query_def bind_res_def)
qed

lemma passing_gate_makes_tickers_unambiguous_witness:
  "\<exists>a. resolve_ticker ''abc'' (pit_context 3) demo_catalog (write_all [(flat_digest JNull, demo_records)] []) = Inr (Some a) \<and>
     sy_ticker a = ''ABC''"
proof -
  have "validate_records demo_records = Inr ()"
  proof -
    have "normalize_ticker ''ABC'' = Inr ''ABC''" by code_simp
    then show ?thesis
      by (simp add: demo_pit validate_record_def validate_instrument_def validate_alias_def canonical_fields_def
          validate_temporal_contract_def flat_hash_pattern checks.simps)
  qed
  then have files: "write_all [(flat_digest JNull, demo_records)] [] = [(flat_digest JNull, demo_records)]"
    by (simp add: write_all_def write_snapshot_def) (simp add: demo_pit base_of_def canonical_record.truncate_def)
  have pass: "qr_passed (evaluate_quality demo_zone (\<lambda>_. []) demo_records)"
    unfolding gate_passes_iff records_sound_def
    by (simp add: demo_pit base_of_def canonical_record.truncate_def revision_key_def)
  have ctx: "ac_snapshot_id (pit_context 3) = flat_digest JNull" "ac_as_of (pit_context 3) = 3"
    by (simp_all add: pit_context_def)
  have "map_of (write_all [(flat_digest JNull, demo_records)] []) (ac_snapshot_id (pit_context 3)) = Some demo_records"
    by (simp add: files ctx)
  note t = passing_gate_makes_tickers_unambiguous [OF this pass, of demo_catalog "''abc''", unfolded files ctx]
  have "is_published (flat_digest JNull) demo_catalog" by (simp add: is_published_def demo_catalog_def)
  moreover have "upper_text ''abc'' = ''ABC''" "upper_text ''ABC'' = ''ABC''" by code_simp+
  then have "\<exists>r \<in> set demo_records. visible_at 3 r \<and> alias_for ''abc'' r"
    by (simp add: demo_pit visible_at_def alias_for_def base_of_def canonical_record.truncate_def)
  moreover have "sy_ticker a = ''ABC''" if "Symbol_Alias a \<in> set demo_records" for a using that by (auto simp: demo_pit)
  ultimately show ?thesis using t unfolding files by (auto split: sum.splits option.splits)
qed

subsection \<open>No look-ahead\<close>

lemma visible_filter:
  "filter (\<lambda>r. visible_at t r \<and> P r) rs = filter (\<lambda>r. visible_at t r \<and> P r) (filter (\<lambda>r. cr_available_at (base_of r) \<le> t) rs)"
  by (auto simp: visible_at_def intro!: filter_cong)

lemma as_of_query_same:
  assumes "map_of files (ac_snapshot_id ctx) = Some rs" and "map_of files' (ac_snapshot_id ctx) = Some rs'"
    and "filter (\<lambda>r. cr_available_at (base_of r) \<le> ac_as_of ctx) rs = filter (\<lambda>r. cr_available_at (base_of r) \<le> ac_as_of ctx) rs'"
  shows "as_of_query ctx P cat files = as_of_query ctx P cat files'"
  using assms visible_filter [of "ac_as_of ctx" P rs] visible_filter [of "ac_as_of ctx" P rs']
  by (simp add: as_of_query_def query_payloads_def)

text \<open>C39: No look-ahead. Two stores whose snapshots differ only in records that became available after an
  instant answer every query as of that instant alike; and every row of an answer comes from the published
  snapshot, was available and valid at that instant, and has no newer revision among the rows that were.\<close>

theorem as_of_queries_do_not_look_ahead:
  assumes "map_of files (ac_snapshot_id ctx) = Some rs" and "map_of files' (ac_snapshot_id ctx) = Some rs'"
    and "filter (\<lambda>r. cr_available_at (base_of r) \<le> ac_as_of ctx) rs = filter (\<lambda>r. cr_available_at (base_of r) \<le> ac_as_of ctx) rs'"
    and "as_of_query ctx P cat files = Inr rows"
  shows "as_of_query ctx P cat files' = Inr rows \<and> resolve_ticker ticker ctx cat files' = resolve_ticker ticker ctx cat files \<and>
    active_instruments ctx cat files' = active_instruments ctx cat files \<and>
    price_bars i interval ctx cat files' = price_bars i interval ctx cat files \<and>
    corporate_actions i ctx cat files' = corporate_actions i ctx cat files \<and> is_published (ac_snapshot_id ctx) cat \<and>
    (\<forall>r \<in> set rows. r \<in> set rs \<and> visible_at (ac_as_of ctx) r \<and> P r \<and>
       (\<forall>q \<in> set rs. visible_at (ac_as_of ctx) q \<longrightarrow> P q \<longrightarrow> source_of q = source_of r \<longrightarrow>
          cr_source_revision (base_of q) \<le> cr_source_revision (base_of r)))"
proof -
  note same = as_of_query_same [OF assms(1-3)]
  have rows: "is_published (ac_snapshot_id ctx) cat"
    "rows = ordered_rows (latest_revisions (filter (\<lambda>r. visible_at (ac_as_of ctx) r \<and> P r) rs))"
    using assms(1,4) by (auto simp: as_of_query_def query_payloads_def split: if_splits)
  have "r \<in> set rs \<and> visible_at (ac_as_of ctx) r \<and> P r" if "r \<in> set rows" for r
    using that latest_revisions_subset rows(2) by fastforce
  moreover have "cr_source_revision (base_of q) \<le> cr_source_revision (base_of r)"
    if "r \<in> set rows" "q \<in> set rs" "visible_at (ac_as_of ctx) q" "P q" "source_of q = source_of r" for r q
    by (rule latest_revisions_newest [of _ "filter (\<lambda>r. visible_at (ac_as_of ctx) r \<and> P r) rs"]) (use that rows(2) in auto)
  ultimately show ?thesis
    using assms(4) rows(1)
    by (auto simp: same resolve_ticker_def active_instruments_def price_bars_def corporate_actions_def)
qed

lemma as_of_queries_do_not_look_ahead_witness:
  "resolve_ticker ''ABC'' (pit_context 3) demo_catalog [(flat_digest JNull, demo_records @ [demo_alias ''r2'' 2 5 (Some 10)])] =
   resolve_ticker ''ABC'' (pit_context 3) demo_catalog [(flat_digest JNull, demo_records)]"
proof -
  have files: "map_of [(flat_digest JNull, demo_records)] (ac_snapshot_id (pit_context 3)) = Some demo_records"
    "map_of [(flat_digest JNull, demo_records @ [demo_alias ''r2'' 2 5 (Some 10)])] (ac_snapshot_id (pit_context 3)) =
       Some (demo_records @ [demo_alias ''r2'' 2 5 (Some 10)])"
    by (simp_all add: pit_context_def)
  have same: "filter (\<lambda>r. cr_available_at (base_of r) \<le> ac_as_of (pit_context 3)) demo_records =
      filter (\<lambda>r. cr_available_at (base_of r) \<le> ac_as_of (pit_context 3)) (demo_records @ [demo_alias ''r2'' 2 5 (Some 10)])"
    by (simp add: demo_pit base_of_def canonical_record.truncate_def)
  obtain rows where "as_of_query (pit_context 3) (\<lambda>_. True) demo_catalog [(flat_digest JNull, demo_records)] = Inr rows"
    by (simp add: as_of_query_def is_published_def demo_catalog_def pit_context_def query_payloads_def)
  from as_of_queries_do_not_look_ahead [OF files same this] show ?thesis by blast
qed

subsection \<open>The quality gate\<close>

text \<open>A report passes exactly when every record refers to an instrument of the batch, every
  price bar of an XNYS instrument lies in the regular session, records of one source revision or one id
  have one payload, validity intervals of different aliases of a ticker do not overlap, and all records
  belong to one snapshot; it passes exactly when it lists no issue.\<close>

theorem quality_gate_iff_records_sound:
  "let q = evaluate_quality zone sha rs in
     (qr_passed q \<longleftrightarrow> qr_issues q = []) \<and> qr_record_count q = int (length rs) \<and>
     (qr_passed q \<longleftrightarrow>
       (\<forall>r \<in> set rs. \<exists>x. Instrument x \<in> set rs \<and> cr_instrument_id x = cr_instrument_id (base_of r)) \<and>
       (\<forall>b x. Price_Bar b \<in> set rs \<longrightarrow> instrument_named rs (cr_instrument_id b) = Some x \<longrightarrow> ir_exchange x = ''XNYS'' \<longrightarrow>
          market_phase_at zone [] (cr_event_time b) = RTH) \<and>
       (\<forall>r \<in> set rs. \<forall>s \<in> set rs. revision_key (base_of r) = revision_key (base_of s) \<or> cr_record_id (base_of r) = cr_record_id (base_of s) \<longrightarrow>
          cr_payload_hash (base_of r) = cr_payload_hash (base_of s)) \<and>
       (\<forall>(l, r) \<in> set (pairs_of (aliases_of rs)). upper_text (sy_ticker l) = upper_text (sy_ticker r) \<longrightarrow> \<not> same_alias l r \<longrightarrow>
          \<not> intervals_overlap (cr_valid_from l) (cr_valid_to l) (cr_valid_from r) (cr_valid_to r)) \<and>
       (\<forall>r \<in> set rs. \<forall>s \<in> set rs. cr_snapshot_id (base_of r) = cr_snapshot_id (base_of s)))"
proof -
  have names: "cr_instrument_id (base_of r) \<in> cr_instrument_id ` set (instruments_of rs) \<longleftrightarrow>
      (\<exists>x. Instrument x \<in> set rs \<and> cr_instrument_id x = cr_instrument_id (base_of r))" for r
    unfolding image_iff by (metis set_instruments_of)
  have "qr_passed (evaluate_quality zone sha rs) \<longleftrightarrow> qr_issues (evaluate_quality zone sha rs) = []"
    "qr_record_count (evaluate_quality zone sha rs) = int (length rs)"
    by (simp_all add: evaluate_quality_def Let_def)
  then show ?thesis unfolding Let_def gate_passes_iff records_sound_def names by blast
qed

end
