(* ===== verification/Shadow_Execution.thy ===== *)
theory Shadow_Execution
  imports Ctl_Account Sim_Fills
begin

section \<open>Shadow execution\<close>

text \<open>
  \<open>src/hanalpha/execution/shadow.py\<close>: the decomposition of what an order cost against what it was decided at,
  recorded in the reality gap ledger of the control store. The arguments of \<open>evaluate\<close> are the record
  \<open>gap_request\<close>. A count of milliseconds is the whole part of a difference of instants.
\<close>

record reality_gap =
  rz_gap_id :: string
  rz_decision_id :: string
  rz_client_order_key :: string
  rz_side :: side
  rz_quantity :: int
  rz_decision_price :: rat
  rz_shadow_fill_price :: "rat option"
  rz_broker_fill_price :: "rat option"
  rz_broker_commission :: rat
  rz_decision_to_shadow :: "rat option"
  rz_shadow_to_broker :: "rat option"
  rz_total_implementation_shortfall :: "rat option"
  rz_missed_fill :: bool
  rz_observed_latency_ms :: int
  rz_broker_filled_quantity :: int
  rz_broker_unfilled_quantity :: int
  rz_opportunity_cost :: "rat option"
  rz_protection_delay_ms :: "int option"
  rz_broker_fill_slices :: int
  rz_observed_at :: time

definition opt_holds :: "('a \<Rightarrow> bool) \<Rightarrow> 'a option \<Rightarrow> bool" where
  "opt_holds P x = (case x of None \<Rightarrow> True | Some v \<Rightarrow> P v)"

definition validate_gap :: "reality_gap \<Rightarrow> unit res" where
  "validate_gap g = checks
     [(rz_quantity g > 0, ValueError ''quantity''), (rz_decision_price g > 0, ValueError ''decision_price''),
      (opt_holds (\<lambda>p. p > 0) (rz_shadow_fill_price g), ValueError ''shadow_fill_price''),
      (opt_holds (\<lambda>p. p > 0) (rz_broker_fill_price g), ValueError ''broker_fill_price''),
      (rz_broker_commission g \<ge> 0, ValueError ''broker_commission''),
      (rz_observed_latency_ms g \<ge> 0, ValueError ''observed_latency_ms''),
      (rz_broker_filled_quantity g \<ge> 0, ValueError ''broker_filled_quantity''),
      (rz_broker_unfilled_quantity g \<ge> 0, ValueError ''broker_unfilled_quantity''),
      (opt_holds (\<lambda>n. n \<ge> 0) (rz_protection_delay_ms g), ValueError ''protection_delay_ms''),
      (rz_broker_fill_slices g \<ge> 0, ValueError ''broker_fill_slices'')]"

definition gap_body :: "reality_gap \<Rightarrow> (string \<times> json) list" where
  "gap_body g = [(''decision_id'', JStr (rz_decision_id g)), (''client_order_key'', JStr (rz_client_order_key g)),
     (''side'', JStr (side_value (rz_side g))), (''quantity'', JInt (rz_quantity g)),
     (''decision_price'', JNum (rz_decision_price g)), (''shadow_fill_price'', opt_json JNum (rz_shadow_fill_price g)),
     (''broker_fill_price'', opt_json JNum (rz_broker_fill_price g)),
     (''broker_commission'', JNum (rz_broker_commission g)),
     (''decision_to_shadow'', opt_json JNum (rz_decision_to_shadow g)),
     (''shadow_to_broker'', opt_json JNum (rz_shadow_to_broker g)),
     (''total_implementation_shortfall'', opt_json JNum (rz_total_implementation_shortfall g)),
     (''missed_fill'', JBool (rz_missed_fill g)), (''observed_latency_ms'', JInt (rz_observed_latency_ms g)),
     (''broker_filled_quantity'', JInt (rz_broker_filled_quantity g)),
     (''broker_unfilled_quantity'', JInt (rz_broker_unfilled_quantity g)),
     (''opportunity_cost'', opt_json JNum (rz_opportunity_cost g)),
     (''protection_delay_ms'', opt_json JInt (rz_protection_delay_ms g)),
     (''broker_fill_slices'', JInt (rz_broker_fill_slices g)), (''observed_at'', JTime (rz_observed_at g))]"

definition gap_doc :: "reality_gap \<Rightarrow> json" where
  "gap_doc g = JObj ((''gap_id'', JStr (rz_gap_id g)) # gap_body g)"

record gap_request =
  gq_decision_id :: string
  gq_client_order_key :: string
  gq_side :: side
  gq_quantity :: int
  gq_decision_price :: rat
  gq_shadow_fill_price :: "rat option"
  gq_broker_fill_price :: "rat option"
  gq_broker_commission :: rat
  gq_observed_latency_ms :: int
  gq_at :: time
  gq_broker_filled_quantity :: "int option"
  gq_opportunity_cost :: "rat option"
  gq_protection_delay_ms :: "int option"
  gq_broker_fill_slices :: int

definition side_sign :: "side \<Rightarrow> rat" where
  "side_sign s = (if s = BUY then 1 else - 1)"

definition unnamed_gap :: "gap_request \<Rightarrow> reality_gap" where
  "unnamed_gap q =
     (let sign = side_sign (gq_side q); n = of_int (gq_quantity q);
          filled = (case gq_broker_filled_quantity q of None \<Rightarrow> 0 | Some k \<Rightarrow> k) in
      \<lparr>rz_gap_id = [], rz_decision_id = gq_decision_id q, rz_client_order_key = gq_client_order_key q,
       rz_side = gq_side q, rz_quantity = gq_quantity q, rz_decision_price = gq_decision_price q,
       rz_shadow_fill_price = gq_shadow_fill_price q, rz_broker_fill_price = gq_broker_fill_price q,
       rz_broker_commission = gq_broker_commission q,
       rz_decision_to_shadow = map_option (\<lambda>s. sign * (s - gq_decision_price q) * n) (gq_shadow_fill_price q),
       rz_shadow_to_broker = (case (gq_shadow_fill_price q, gq_broker_fill_price q) of
           (Some s, Some b) \<Rightarrow> Some (sign * (b - s) * n) | _ \<Rightarrow> None),
       rz_total_implementation_shortfall =
         map_option (\<lambda>b. sign * (b - gq_decision_price q) * n + gq_broker_commission q) (gq_broker_fill_price q),
       rz_missed_fill = (gq_broker_fill_price q = None), rz_observed_latency_ms = gq_observed_latency_ms q,
       rz_broker_filled_quantity = filled, rz_broker_unfilled_quantity = gq_quantity q - filled,
       rz_opportunity_cost = gq_opportunity_cost q, rz_protection_delay_ms = gq_protection_delay_ms q,
       rz_broker_fill_slices = gq_broker_fill_slices q, rz_observed_at = gq_at q\<rparr>)"

definition evaluate_gap :: "(json \<Rightarrow> string) \<Rightarrow> gap_request \<Rightarrow> store \<Rightarrow> reality_gap res \<times> store" where
  "evaluate_gap H q d =
     (let g0 = unnamed_gap q; g = g0\<lparr>rz_gap_id := canonical_hash H (JObj (gap_body g0))\<rparr> in
      case validate_gap g of
        Inl e \<Rightarrow> (Inl e, d)
      | Inr _ \<Rightarrow> (Inr g, snd (record_reality_gap H (gq_decision_id q)
          (if rz_total_implementation_shortfall g \<noteq> None then ''EXECUTION_SHORTFALL'' else ''MISSED_FILL'') (gq_at q) (gap_doc g) d)))"

subsection \<open>Fill schedules\<close>

record execution_slice =
  es_quantity :: int
  es_price :: rat
  es_commission :: rat
  es_occurred_at :: time

definition validate_slice :: "execution_slice \<Rightarrow> unit res" where
  "validate_slice s = checks [(es_quantity s > 0, ValueError ''quantity''), (es_price s > 0, ValueError ''price''),
     (es_commission s \<ge> 0, ValueError ''commission'')]"

definition slices_quantity :: "execution_slice list \<Rightarrow> int" where
  "slices_quantity ss = total_of es_quantity ss"

definition vwap :: "execution_slice list \<Rightarrow> rat option" where
  "vwap ss = (if slices_quantity ss = 0 then None
     else Some (total_of (\<lambda>s. es_price s * of_int (es_quantity s)) ss / of_int (slices_quantity ss)))"

definition elapsed_ms :: "time \<Rightarrow> time \<Rightarrow> int" where
  "elapsed_ms start fin = max 0 ((fin - start) div 1000)"

record schedule_request =
  sq_decision_id :: string
  sq_client_order_key :: string
  sq_side :: side
  sq_quantity :: int
  sq_decision_price :: rat
  sq_shadow_slices :: "execution_slice list"
  sq_broker_slices :: "execution_slice list"
  sq_terminal_mark :: rat
  sq_submitted_at :: time
  sq_protection_ack_at :: "time option"
  sq_at :: time

definition schedule_gap_request :: "schedule_request \<Rightarrow> gap_request" where
  "schedule_gap_request q =
     (let broker = sq_broker_slices q; filled = slices_quantity broker in
      \<lparr>gq_decision_id = sq_decision_id q, gq_client_order_key = sq_client_order_key q, gq_side = sq_side q,
       gq_quantity = sq_quantity q, gq_decision_price = sq_decision_price q,
       gq_shadow_fill_price = vwap (sq_shadow_slices q), gq_broker_fill_price = vwap broker,
       gq_broker_commission = total_of es_commission broker,
       gq_observed_latency_ms = elapsed_ms (sq_submitted_at q) (case broker of [] \<Rightarrow> sq_at q | s # _ \<Rightarrow> es_occurred_at s),
       gq_at = sq_at q, gq_broker_filled_quantity = Some filled,
       gq_opportunity_cost = Some (side_sign (sq_side q) * (sq_terminal_mark q - sq_decision_price q) * of_int (sq_quantity q - filled)),
       gq_protection_delay_ms = map_option (elapsed_ms (sq_submitted_at q)) (sq_protection_ack_at q),
       gq_broker_fill_slices = int (length broker)\<rparr>)"

definition evaluate_schedule :: "(json \<Rightarrow> string) \<Rightarrow> schedule_request \<Rightarrow> store \<Rightarrow> reality_gap res \<times> store" where
  "evaluate_schedule H q d =
     (if slices_quantity (sq_shadow_slices q) > sq_quantity q \<or> slices_quantity (sq_broker_slices q) > sq_quantity q
      then (Inl (ValueError ''fill schedule exceeds intended quantity''), d)
      else evaluate_gap H (schedule_gap_request q) d)"

subsection \<open>What a gap measures\<close>

text \<open>What the broker's fills cost against the decision price, fill by fill.\<close>

definition fills_shortfall :: "side \<Rightarrow> rat \<Rightarrow> execution_slice list \<Rightarrow> rat" where
  "fills_shortfall sd decided ss = total_of (\<lambda>s. side_sign sd * (es_price s - decided) * of_int (es_quantity s)) ss"

lemma fills_shortfall_alt:
  "fills_shortfall sd decided ss =
     side_sign sd * (total_of (\<lambda>s. es_price s * of_int (es_quantity s)) ss - decided * of_int (slices_quantity ss))"
  by (induction ss) (simp_all add: fills_shortfall_def slices_quantity_def algebra_simps)

lemma vwap_shortfall:
  assumes "vwap ss = Some p"
  shows "side_sign sd * (p - decided) * of_int n = of_int n / of_int (slices_quantity ss) * fills_shortfall sd decided ss"
proof -
  have "slices_quantity ss \<noteq> 0"
    and p: "p = total_of (\<lambda>s. es_price s * of_int (es_quantity s)) ss / of_int (slices_quantity ss)"
    using assms by (auto simp: vwap_def split: if_splits)
  then show ?thesis unfolding fills_shortfall_alt p by (simp add: field_simps)
qed

lemma slices_quantity_pos: "list_all (\<lambda>s. validate_slice s = Inr ()) ss \<Longrightarrow> ss \<noteq> [] \<Longrightarrow> 0 < slices_quantity ss"
proof (induction ss)
  case (Cons s ss)
  then show ?case by (cases "ss = []") (auto simp: slices_quantity_def validate_slice_def)
qed simp

lemma vwap_None: "list_all (\<lambda>s. validate_slice s = Inr ()) ss \<Longrightarrow> vwap ss = None \<longleftrightarrow> ss = []"
  using slices_quantity_pos [of ss] by (cases "ss = []") (simp_all add: vwap_def slices_quantity_def)

lemma evaluate_gap_Inr:
  assumes "evaluate_gap H q d = (Inr g, d')"
  shows "g = (unnamed_gap q)\<lparr>rz_gap_id := canonical_hash H (JObj (gap_body (unnamed_gap q)))\<rparr>"
    "d' = d\<lparr>reality_gaps := reality_gaps d'\<rparr>" "validate_gap g = Inr ()"
  using assms by (auto simp: evaluate_gap_def Let_def record_reality_gap_def split: sum.splits)

text \<open>A schedule within the intended quantity splits it into filled and unfilled shares, is missed exactly when
  the broker filled nothing, and, when everything was filled, reports the cost of the fills and their
  commissions. For a part fill the shortfall is scaled up to the intended quantity.\<close>

lemma schedule_gap_measures:
  assumes "list_all (\<lambda>s. validate_slice s = Inr ()) (sq_broker_slices q)" and "evaluate_schedule H q d = (Inr g, d')"
  shows "rz_broker_filled_quantity g + rz_broker_unfilled_quantity g = sq_quantity q"
    "0 \<le> rz_broker_unfilled_quantity g" "rz_missed_fill g \<longleftrightarrow> sq_broker_slices q = []"
    "sq_broker_slices q \<noteq> [] \<Longrightarrow> rz_total_implementation_shortfall g =
       Some (of_int (sq_quantity q) / of_int (rz_broker_filled_quantity g) *
               fills_shortfall (sq_side q) (sq_decision_price q) (sq_broker_slices q) + total_of es_commission (sq_broker_slices q))"
    "d' = d\<lparr>reality_gaps := reality_gaps d'\<rparr>"
proof -
  have run: "evaluate_gap H (schedule_gap_request q) d = (Inr g, d')"
    and room: "slices_quantity (sq_broker_slices q) \<le> sq_quantity q"
    using assms(2) by (auto simp: evaluate_schedule_def split: if_splits)
  note g = evaluate_gap_Inr [OF run]
  show "rz_broker_filled_quantity g + rz_broker_unfilled_quantity g = sq_quantity q"
    "0 \<le> rz_broker_unfilled_quantity g" "rz_missed_fill g \<longleftrightarrow> sq_broker_slices q = []"
    unfolding g(1) using room vwap_None [OF assms(1)] by (auto simp: unnamed_gap_def schedule_gap_request_def Let_def)
  show "rz_total_implementation_shortfall g =
       Some (of_int (sq_quantity q) / of_int (rz_broker_filled_quantity g) *
               fills_shortfall (sq_side q) (sq_decision_price q) (sq_broker_slices q) + total_of es_commission (sq_broker_slices q))"
    if some: "sq_broker_slices q \<noteq> []"
  proof -
    obtain p where p: "vwap (sq_broker_slices q) = Some p" using some vwap_None [OF assms(1)] by auto
    show ?thesis
      unfolding g(1) using vwap_shortfall [OF p] p by (simp add: unnamed_gap_def schedule_gap_request_def Let_def)
  qed
  show "d' = d\<lparr>reality_gaps := reality_gaps d'\<rparr>" by (rule g(2))
qed

end
