(* ===== verification/Backtest.thy ===== *)
theory Backtest
  imports Trade_Models
begin

section \<open>Backtest verifier\<close>

text \<open>
  \<open>src/hanalpha/backtest/engine.py\<close>: the event loop of \<open>BacktestEngine.run\<close>, over exact rationals, with the
  strategy as a parameter (\<open>strategies/base.py\<close>). The warm-up length is a natural number. The performance
  statistics computed from the equity curve at the end (numpy) are not modelled.
\<close>

record backtest_params =
  bk_starting_cash :: rat
  bk_risk_per_trade_pct :: rat
  bk_slippage_bps :: rat
  bk_commission_per_share :: rat

record backtest_trade =
  bk_entry_time :: time
  bk_exit_time :: time
  bk_entry_price :: rat
  bk_exit_price :: rat
  bk_quantity :: int
  bk_pnl :: rat
  bk_reason :: string

record active_position =
  ap_entry_time :: time
  ap_entry_price :: rat
  ap_quantity :: int
  ap_stop :: rat
  ap_target :: rat
  ap_entry_index :: nat
  ap_entry_commission :: rat

record pending_entry =
  pn_activate_index :: nat
  pn_stop :: rat
  pn_target :: rat

record backtest_state =
  bs_cash :: rat
  bs_position :: "active_position option"
  bs_pending :: "pending_entry option"
  bs_curve :: "(time \<times> rat) list"
  bs_trades :: "backtest_trade list"

type_synonym strategy = "string \<Rightarrow> trade_bar list \<Rightarrow> trade_bar list \<Rightarrow> catalyst list \<Rightarrow> time \<Rightarrow> signal option"

definition trade_commission :: "backtest_params \<Rightarrow> int \<Rightarrow> rat" where
  "trade_commission p q = max 1 (of_int q * bk_commission_per_share p)"

text \<open>The loop that lowers the quantity until the purchase is paid for.\<close>

function fit_quantity :: "backtest_params \<Rightarrow> rat \<Rightarrow> rat \<Rightarrow> int \<Rightarrow> int" where
  "fit_quantity p entry cash q =
     (if q > 0 \<and> entry * of_int q + trade_commission p q > cash then fit_quantity p entry cash (q - 1) else q)"
  by pat_completeness auto
termination
  by (relation "measure (\<lambda>(_, _, _, q). nat q)") auto

declare fit_quantity.simps [simp del]

definition slipped :: "backtest_params \<Rightarrow> rat \<Rightarrow> rat \<Rightarrow> rat" where
  "slipped p sign price = price * (1 + sign * bk_slippage_bps p / 10000)"

definition entry_quantity :: "backtest_params \<Rightarrow> rat \<Rightarrow> rat \<Rightarrow> rat \<Rightarrow> int" where
  "entry_quantity p entry stop cash =
     (let per_share_risk = max (1 / 100) (entry - stop);
          risk_quantity = \<lfloor>cash * bk_risk_per_trade_pct p / per_share_risk\<rfloor>;
          affordable = max 0 \<lfloor>(cash - 1) / entry\<rfloor> in
      fit_quantity p entry cash (min risk_quantity affordable))"

definition enter_pending :: "backtest_params \<Rightarrow> nat \<Rightarrow> trade_bar \<Rightarrow> backtest_state \<Rightarrow> backtest_state res" where
  "enter_pending p index b s = (case bs_pending s of
       None \<Rightarrow> Inr s
     | Some e \<Rightarrow>
       if pn_activate_index e \<noteq> index then Inr s
       else let entry = slipped p 1 (br_open b) in
         if entry = 0 then Inl ZeroDivisionError
         else let q = entry_quantity p entry (pn_stop e) (bs_cash s); fee = trade_commission p q in
           Inr (if q > 0
             then s\<lparr>bs_pending := None, bs_cash := bs_cash s - (entry * of_int q + fee),
                    bs_position := Some \<lparr>ap_entry_time = br_timestamp b, ap_entry_price = entry, ap_quantity = q,
                      ap_stop = pn_stop e, ap_target = pn_target e, ap_entry_index = index, ap_entry_commission = fee\<rparr>\<rparr>
             else s\<lparr>bs_pending := None\<rparr>))"

definition exit_of :: "backtest_params \<Rightarrow> nat \<Rightarrow> trade_bar \<Rightarrow> active_position \<Rightarrow> (rat \<times> string) option" where
  "exit_of p index b x =
     (if br_open b \<le> ap_stop x then Some (slipped p (- 1) (br_open b), ''stop_gap'')
      else if br_low b \<le> ap_stop x then Some (slipped p (- 1) (ap_stop x), ''stop_intrabar'')
      else if br_open b \<ge> ap_target x then Some (slipped p (- 1) (br_open b), ''target_gap'')
      else if br_high b \<ge> ap_target x then Some (slipped p (- 1) (ap_target x), ''target'')
      else if index \<ge> ap_entry_index x + 78 then Some (slipped p (- 1) (br_close b), ''time'')
      else None)"

definition leave_position :: "backtest_params \<Rightarrow> nat \<Rightarrow> trade_bar \<Rightarrow> backtest_state \<Rightarrow> backtest_state" where
  "leave_position p index b s = (case bs_position s of
       None \<Rightarrow> s
     | Some x \<Rightarrow> (case exit_of p index b x of
         None \<Rightarrow> s
       | Some (price, reason) \<Rightarrow>
         let q = ap_quantity x; fee = trade_commission p q in
         s\<lparr>bs_cash := bs_cash s + (price * of_int q - fee), bs_position := None,
           bs_trades := bs_trades s @ [\<lparr>bk_entry_time = ap_entry_time x, bk_exit_time = br_timestamp b,
             bk_entry_price = ap_entry_price x, bk_exit_price = price, bk_quantity = q,
             bk_pnl = (price - ap_entry_price x) * of_int q - ap_entry_commission x - fee, bk_reason = reason\<rparr>]\<rparr>))"

text \<open>The signal of a bar; \<open>None\<close> stands for the \<open>break\<close> on the last bar.\<close>

definition ask_strategy ::
  "strategy \<Rightarrow> string \<Rightarrow> trade_bar list \<Rightarrow> trade_bar list \<Rightarrow> catalyst list \<Rightarrow> nat \<Rightarrow> backtest_state \<Rightarrow> backtest_state option" where
  "ask_strategy strategy symbol bars benchmark catalysts index s =
     (if bs_position s \<noteq> None \<or> bs_pending s \<noteq> None then Some s
      else let now = br_timestamp (bars ! index) in
        (case strategy symbol (take (index + 1) bars) (take (index + 1) benchmark)
           (filter (\<lambda>c. ca_available_at c \<le> now) catalysts) now of
           None \<Rightarrow> Some s
         | Some sg \<Rightarrow>
           if sg_action sg \<noteq> SA_BUY then Some s
           else if index + 1 \<ge> length bars then None
           else Some (s\<lparr>bs_pending := Some \<lparr>pn_activate_index = index + 1, pn_stop = sg_stop_price sg, pn_target = sg_target_price sg\<rparr>\<rparr>)))"

definition mark_equity :: "trade_bar \<Rightarrow> backtest_state \<Rightarrow> backtest_state" where
  "mark_equity b s = s\<lparr>bs_curve := bs_curve s @ [(br_timestamp b, bs_cash s +
     (case bs_position s of None \<Rightarrow> 0 | Some x \<Rightarrow> br_close b * of_int (ap_quantity x)))]\<rparr>"

fun backtest_loop ::
  "backtest_params \<Rightarrow> strategy \<Rightarrow> string \<Rightarrow> trade_bar list \<Rightarrow> trade_bar list \<Rightarrow> catalyst list \<Rightarrow> nat list \<Rightarrow> backtest_state \<Rightarrow>
   backtest_state res" where
  "backtest_loop p strategy symbol bars benchmark catalysts [] s = Inr s"
| "backtest_loop p strategy symbol bars benchmark catalysts (i # is) s =
     (case enter_pending p i (bars ! i) s of
        Inl e \<Rightarrow> Inl e
      | Inr t \<Rightarrow> (let u = leave_position p i (bars ! i) t in
          case ask_strategy strategy symbol bars benchmark catalysts i u of
            None \<Rightarrow> Inr u
          | Some v \<Rightarrow> backtest_loop p strategy symbol bars benchmark catalysts is (mark_equity (bars ! i) v)))"

definition backtest_run ::
  "backtest_params \<Rightarrow> strategy \<Rightarrow> string \<Rightarrow> trade_bar list \<Rightarrow> trade_bar list \<Rightarrow> catalyst list \<Rightarrow> nat \<Rightarrow> backtest_state res" where
  "backtest_run p strategy symbol bars benchmark catalysts warmup =
     (if length bars \<noteq> length benchmark then Inl (ValueError ''symbol and benchmark bars must be aligned'')
      else if length bars \<le> warmup then Inl (ValueError ''insufficient bars'')
      else backtest_loop p strategy symbol bars benchmark catalysts [warmup..<length bars]
        \<lparr>bs_cash = bk_starting_cash p, bs_position = None, bs_pending = None,
         bs_curve = [(br_timestamp (if warmup = 0 then last bars else bars ! (warmup - 1)), bk_starting_cash p)], bs_trades = []\<rparr>)"

subsection \<open>The books\<close>

lemma fit_quantity_bound: "fit_quantity p entry cash q \<le> q"
proof (induction p entry cash q rule: fit_quantity.induct)
  case (1 p entry cash q)
  then show ?case by (subst fit_quantity.simps) auto
qed

lemma fit_quantity_paid:
  "0 < fit_quantity p entry cash q \<Longrightarrow>
   entry * of_int (fit_quantity p entry cash q) + trade_commission p (fit_quantity p entry cash q) \<le> cash"
proof (induction p entry cash q rule: fit_quantity.induct)
  case (1 p entry cash q)
  show ?case
  proof (cases "q > 0 \<and> entry * of_int q + trade_commission p q > cash")
    case True
    then have "fit_quantity p entry cash q = fit_quantity p entry cash (q - 1)" by (subst fit_quantity.simps) simp
    then show ?thesis using 1 True by simp
  next
    case False
    then have "fit_quantity p entry cash q = q" by (metis fit_quantity.simps)
    then show ?thesis using 1(2) False by auto
  qed
qed

definition position_cost :: "active_position option \<Rightarrow> rat" where
  "position_cost x = (case x of None \<Rightarrow> 0 | Some a \<Rightarrow> ap_entry_price a * of_int (ap_quantity a) + ap_entry_commission a)"

text \<open>Cash is the starting cash plus the profit of the trades less the cost of the open position, which was
  paid out of cash; a trade is closed at a price its exit names.\<close>

definition cash_ok :: "backtest_params \<Rightarrow> backtest_state \<Rightarrow> bool" where
  "cash_ok p s \<longleftrightarrow> bs_cash s = bk_starting_cash p + total_of bk_pnl (bs_trades s) - position_cost (bs_position s) \<and>
     (\<forall>x. bs_position s = Some x \<longrightarrow> 0 < ap_quantity x \<and> 0 \<le> bs_cash s \<and> bs_pending s = None) \<and>
     (\<forall>t \<in> set (bs_trades s). 0 < bk_quantity t)"

lemma enter_books: "cash_ok p s \<Longrightarrow> enter_pending p i b s = Inr t \<Longrightarrow> cash_ok p t"
proof -
  assume ok: "cash_ok p s" and run: "enter_pending p i b s = Inr t"
  show "cash_ok p t"
  proof (cases "t = s")
    case False
    then obtain e where e: "bs_pending s = Some e" using run by (auto simp: enter_pending_def split: option.splits)
    then have none: "bs_position s = None" using ok by (auto simp: cash_ok_def)
    let ?entry = "slipped p 1 (br_open b)"
    let ?q = "entry_quantity p ?entry (pn_stop e) (bs_cash s)"
    have paid: "?entry * of_int ?q + trade_commission p ?q \<le> bs_cash s" if "0 < ?q"
      using that unfolding entry_quantity_def Let_def by (rule fit_quantity_paid)
    have cash: "bs_cash s = bk_starting_cash p + total_of bk_pnl (bs_trades s)"
      and trades: "\<forall>t \<in> set (bs_trades s). 0 < bk_quantity t"
      using ok none by (simp_all add: cash_ok_def position_cost_def)
    show ?thesis
    proof (cases "0 < ?q")
      case True
      then have t: "bs_cash t = bs_cash s - (?entry * of_int ?q + trade_commission p ?q)" "bs_trades t = bs_trades s"
        "bs_pending t = None" "\<exists>x. bs_position t = Some x \<and> ap_quantity x = ?q \<and> ap_entry_price x = ?entry \<and>
           ap_entry_commission x = trade_commission p ?q"
        using run False e by (auto simp: enter_pending_def Let_def split: if_splits)
      then show ?thesis using paid [OF True] trades cash True by (auto simp: cash_ok_def position_cost_def)
    next
      case no: False
      then have "t = s\<lparr>bs_pending := None\<rparr>" using run False e by (auto simp: enter_pending_def Let_def split: if_splits)
      then show ?thesis using ok none by (simp add: cash_ok_def)
    qed
  qed (use ok in simp)
qed

lemma leave_books: "cash_ok p s \<Longrightarrow> cash_ok p (leave_position p i b s)"
  by (auto simp: leave_position_def cash_ok_def position_cost_def Let_def algebra_simps split: option.splits)

lemma ask_books: "cash_ok p s \<Longrightarrow> ask_strategy st sy bars bench cats i s = Some t \<Longrightarrow> cash_ok p t"
  by (auto simp: ask_strategy_def Let_def cash_ok_def split: if_splits option.splits)

lemma mark_books: "cash_ok p (mark_equity b s) = cash_ok p s"
  by (simp add: mark_equity_def cash_ok_def)

lemma loop_books:
  "cash_ok p s \<Longrightarrow> backtest_loop p st sy bars bench cats is s = Inr t \<Longrightarrow> cash_ok p t"
proof (induction "is" arbitrary: s)
  case (Cons i "is")
  obtain u where u: "enter_pending p i (bars ! i) s = Inr u" using Cons.prems(2) by (auto split: sum.splits)
  then have ok: "cash_ok p (leave_position p i (bars ! i) u)" using enter_books leave_books Cons.prems(1) by blast
  show ?case
  proof (cases "ask_strategy st sy bars bench cats i (leave_position p i (bars ! i) u)")
    case None
    then show ?thesis using Cons.prems(2) u ok by simp
  next
    case (Some v)
    then have "cash_ok p (mark_equity (bars ! i) v)" using ok ask_books mark_books by blast
    then show ?thesis using Cons.IH Cons.prems(2) u Some by simp
  qed
qed simp

subsection \<open>No look-ahead\<close>

text \<open>The state before a bar depends on the bars before it only.\<close>

lemma loop_prefix:
  assumes "take n bars = take n bars'" and "take n bench = take n bench'" and "n < length bars" and "n < length bars'"
    and "\<forall>i \<in> set is. i < n"
  shows "backtest_loop p st sy bars bench cats is s = backtest_loop p st sy bars' bench' cats is s"
  using assms(5)
proof (induction "is" arbitrary: s)
  case (Cons i "is")
  have i: "i < n" using Cons.prems by simp
  have bar: "bars ! i = bars' ! i" using assms(1) i by (metis nth_take)
  have hist: "take (Suc i) bars = take (Suc i) bars'" "take (Suc i) bench = take (Suc i) bench'"
    using assms(1,2) i by (metis Suc_leI min.absorb1 take_take)+
  have ask: "ask_strategy st sy bars bench cats i u = ask_strategy st sy bars' bench' cats i u" for u
  proof -
    have "\<not> length bars \<le> Suc i" "\<not> length bars' \<le> Suc i" using i assms(3,4) by simp_all
    then show ?thesis by (simp add: ask_strategy_def hist bar Let_def split: option.split)
  qed
  have rest: "\<forall>j \<in> set is. j < n" using Cons.prems by simp
  show ?case using Cons.IH [OF rest] by (simp add: bar ask Let_def split: sum.split option.split)
qed simp

subsection \<open>The property\<close>

text \<open>C40: Backtest books. When a backtest returns, its cash is the starting cash plus the profit of the recorded
  trades less what the open position cost, commissions included; an open position was paid for out of
  cash, and every trade has a positive quantity.\<close>

theorem backtest_accounts_for_every_trade:
  assumes "backtest_run p strategy symbol bars benchmark catalysts warmup = Inr s"
  shows "bs_cash s = bk_starting_cash p + total_of bk_pnl (bs_trades s) - position_cost (bs_position s) \<and>
    (case bs_position s of None \<Rightarrow> True | Some x \<Rightarrow> 0 < ap_quantity x \<and> 0 \<le> bs_cash s) \<and>
    (\<forall>t \<in> set (bs_trades s). 0 < bk_quantity t)"
proof -
  have "cash_ok p s"
  proof -
    define start where "start = \<lparr>bs_cash = bk_starting_cash p, bs_position = None, bs_pending = None,
      bs_curve = [(br_timestamp (if warmup = 0 then last bars else bars ! (warmup - 1)), bk_starting_cash p)], bs_trades = []\<rparr>"
    have "cash_ok p start" by (simp add: start_def cash_ok_def position_cost_def)
    moreover have "backtest_loop p strategy symbol bars benchmark catalysts [warmup..<length bars] start = Inr s"
      using assms unfolding backtest_run_def start_def by (simp split: if_split_asm)
    ultimately show ?thesis by (rule loop_books)
  qed
  then show ?thesis by (auto simp: cash_ok_def split: option.splits)
qed

text \<open>The example also shows what the \<open>break\<close> on the last bar does: the trade closed there is in the cash but not
  in the equity curve.\<close>

definition example_bar :: "time \<Rightarrow> rat \<Rightarrow> trade_bar" where
  "example_bar t high = \<lparr>br_symbol = ''X'', br_timestamp = t, br_open = 100, br_high = high, br_low = 95, br_close = 100, br_volume = 1\<rparr>"

definition always_buy :: strategy where
  "always_buy symbol bars benchmark catalysts now = Some \<lparr>sg_signal_id = ''s'', sg_symbol = symbol, sg_strategy = ''buy'',
     sg_action = SA_BUY, sg_generated_at = now, sg_confidence = 1, sg_reference_price = 100, sg_stop_price = 90,
     sg_target_price = 110, sg_score_components = [], sg_evidence_ids = [], sg_metadata = []\<rparr>"

definition example_params :: backtest_params where
  "example_params = \<lparr>bk_starting_cash = 1000, bk_risk_per_trade_pct = 1 / 10, bk_slippage_bps = 0, bk_commission_per_share = 0\<rparr>"

lemma example_params_sel [simp]:
  "bk_starting_cash example_params = 1000" "bk_risk_per_trade_pct example_params = 1 / 10"
  "bk_slippage_bps example_params = 0" "bk_commission_per_share example_params = 0"
  by (simp_all add: example_params_def)

lemma backtest_accounts_for_every_trade_witness:
  "\<exists>s. backtest_run example_params always_buy ''X'' [example_bar 0 100, example_bar 1 100, example_bar 2 120]
       [example_bar 0 100, example_bar 1 100, example_bar 2 120] [] 1 = Inr s \<and>
     bs_cash s = 1000 + total_of bk_pnl (bs_trades s) - position_cost (bs_position s) \<and> bs_cash s = 1088 \<and>
     map snd (bs_curve s) = [1000, 1000]"
proof -
  let ?bars = "[example_bar 0 100, example_bar 1 100, example_bar 2 120]"
  have "case backtest_run example_params always_buy ''X'' ?bars ?bars [] 1 of Inl e \<Rightarrow> False
    | Inr s \<Rightarrow> bs_cash s = 1088 \<and> map snd (bs_curve s) = [1000, 1000]"
    by code_simp
  then obtain s where s: "backtest_run example_params always_buy ''X'' ?bars ?bars [] 1 = Inr s" "bs_cash s = 1088"
    "map snd (bs_curve s) = [1000, 1000]" by (auto split: sum.splits)
  then show ?thesis using backtest_accounts_for_every_trade [OF s(1)] by simp
qed

end
