(* ===== verification/Spec2Isabelle.thy ===== *)
theory Spec2Isabelle
  imports Exec_Properties Sim_Properties Trading_Properties Trial_Properties
    Pit_Properties Shadow_Execution Backtest
begin

text \<open>
  han-alpha is a Python system for supervised paper trading. Its core is a durable execution control
  plane: decisions are staged with a risk reservation and an order intent, approved and armed by an
  operator, handed to a single fenced writer, sent to a broker, and reconciled against what the broker
  reports. Around it stand a replay engine that tests policies on point-in-time data, an evidence plane that
  vets candidates, a risk engine and a paper broker driven by the trading cycle, a registry of
  preregistered experiments, and the point-in-time store with its quality gate. This development models these parts from their source and proves what keeps
  them safe.

  \<^bold>\<open>Parts and how they interact.\<close> A worker (\<open>src/hanalpha/execution/worker.py\<close>) claims commands
  from the store (\<open>control_store.py\<close>), submits them to a broker (\<open>fake_broker.py\<close>, the durable test
  double the system is exercised with) and ingests the broker's events back into the store. The
  reconciler (\<open>reconciliation.py\<close>) compares the store with a broker snapshot and freezes or unfreezes
  it. Documents exchanged between them are in \<open>control_models.py\<close>; quotes are admitted by
  \<open>admission.py\<close>.

  \<^bold>\<open>Theories.\<close>
  \<^item> \<open>Prelude\<close>: exceptions as values, time as integer microseconds, documents and their digests,
    SQLite tables as row lists, and the locales \<open>invariant_system\<close> and \<open>idempotent_intake\<close>.
  \<^item> \<open>Domain\<close>, \<open>Ctl_Models\<close>: enumerations and documents, with the validators of the pydantic models.
  \<^item> \<open>Ctl_Store\<close>: the record \<open>store\<close>, one field per table, and the private helpers.
    \<open>Ctl_Freeze\<close>, \<open>Quote_Admission\<close>, \<open>Ctl_Stage\<close>, \<open>Ctl_Account\<close>, \<open>Ctl_Arm\<close>, \<open>Ctl_Outbox\<close>, \<open>Ctl_Cancel\<close>
    and \<open>Ctl_Inbox\<close> hold the public methods of \<open>DurableExecutionStore\<close>, one definition per method
    under its own name, each with its invariant and lemmas.
  \<^item> \<open>Ctl_Machine\<close>: the store as a transition system over all 31 operations (\<open>store_op\<close>, \<open>exec_op\<close>) with
    the invariant \<open>store_inv\<close>; \<open>Ctl_Traces\<close>: what runs do to leases and commands.
  \<^item> \<open>Economics\<close>: what broker events are worth, and the locales \<open>event_book\<close> and \<open>two_books\<close> that the
    store and the broker both interpret. \<open>Fake_Broker\<close>: every method of \<open>DurableFakeBroker\<close> and its
    invariant. \<open>Worker\<close>: the two dispatch methods and the locale \<open>fenced_broker\<close>. \<open>World\<close>: store, broker
    and worker together.
  \<^item> \<open>Reconciliation\<close>: \<open>reconcile\<close> loop by loop and \<open>reconcile_authoritative\<close>.
  \<^item> \<open>Sim_Events\<close>, \<open>Sim_Orders\<close>, \<open>Sim_Fills\<close> (\<open>simulation/events.py\<close>, \<open>orders.py\<close>, \<open>fills.py\<close>): frames, the
    order life cycle and the fill model. \<open>Sim_Portfolio\<close> (\<open>simulation/portfolio.py\<close>): the double-entry ledger,
    with its books in \<open>Sim_Books\<close>, \<open>Sim_Valuation\<close> and \<open>Sim_Ledger\<close>. \<open>Sim_Engine\<close> (\<open>simulation/engine.py\<close>):
    the replay loop, with its invariants in \<open>Sim_Replay\<close>, \<open>Sim_History\<close> and \<open>Sim_Liveness\<close>.
  \<^item> \<open>Pit_Models\<close>, \<open>Pit_Catalog\<close>, \<open>Pit_Quality\<close>, \<open>Pit_Repository\<close> (\<open>src/hanalpha/pit\<close>): the point-in-time records a
    frame is made of, the raw store and snapshot catalog, the quality gate, and the as-of queries and price
    adjustment. \<open>Shadow_Execution\<close> (\<open>execution/shadow.py\<close>): what an order cost against its decision price.
    \<open>Backtest\<close> (\<open>backtest/engine.py\<close>): the bar-by-bar backtest loop.
  \<^item> \<open>Trade_Models\<close>, \<open>Runtime_Access\<close>, \<open>Risk_Engine\<close> (\<open>domain/models.py\<close>, \<open>config.py\<close>, \<open>runtime/capabilities.py\<close>,
    \<open>risk/engine.py\<close>): trading documents, configuration, the broker write capability, sizing and review.
    \<open>Paper_Broker\<close> (\<open>execution/simulated.py\<close>) with \<open>Paper_Books\<close> and \<open>Paper_Flatten\<close>: every method of the
    simulated broker, its books and the emergency close.
  \<^item> \<open>Evidence_Models\<close>, \<open>Evidence_Store\<close>, \<open>Evidence_Service\<close>, \<open>Evidence_Books\<close> (\<open>src/hanalpha/evidence\<close>): documents, the
    store, ingestion with an arbitrary extractor, and what the store holds. \<open>Audit_Ledger\<close>, \<open>Market_Regime\<close>:
    \<open>portfolio/ledger.py\<close> and \<open>regime/engine.py\<close>. \<open>Orchestrator\<close> (\<open>orchestrator/system.py\<close>): \<open>run_cycle\<close> over all of
    them, which stages into the control store; \<open>Cycle_Safety\<close>: what a cycle may change.
  \<^item> \<open>Trial_Models\<close>, \<open>Trial_Registry\<close>, \<open>Trial_Books\<close>, \<open>Promotion\<close> (\<open>research/protocol.py\<close>, \<open>src/hanalpha/experiments\<close>,
    \<open>research/promotion.py\<close>): protocols and experiments, the registry's methods and invariant, and promotion.
  \<^item> \<open>Samples\<close>: a worked example; \<open>Ctl_Properties\<close>, \<open>Exec_Properties\<close>, \<open>Sim_Properties\<close>, \<open>Trading_Properties\<close>,
    \<open>Trial_Properties\<close>, \<open>Pit_Properties\<close> and this theory (one more is in \<open>Backtest\<close>): the properties, each numbered in the text before it, with an instance
    on the example where it has hypotheses.

  \<^bold>\<open>How state and errors correspond.\<close> A method that may raise returns \<open>exn + 'a\<close> together with the
  state it leaves; \<open>transaction\<close> restores the state on an exception exactly where the code rolls back,
  and not where it commits before raising. A \<open>SELECT ... LIMIT 1\<close> is \<open>List.find\<close> in rowid order.
  Digests (\<open>canonical_hash\<close>) are a parameter \<open>H\<close>; where a property needs that different documents have
  different digests it assumes \<open>inj H\<close>, and \<open>unary_digest\<close> shows that such a function exists.

  \<^bold>\<open>What is shown.\<close> Any interleaving of store, broker, worker and deliveries in which
  orders reach the broker only through the worker and the store ingests only what the broker emitted keeps
  the two books in agreement once events are delivered; projections equal the replay of the log; a command
  is claimed only with authority and at most once unless it is requeued; frozen stores refuse new risk;
  overtaken writers stay fenced in the store and at the broker; reconciliation fails closed and an unfrozen
  report is sound; staging is within capacity; arms expire with the evidence they rest on; consensus and
  authority are corroborated; delivery is idempotent; lost answers become unknown. A replay conserves cash
  and lots (given validated fills whose sale commission stays below the notional), never looks ahead, keeps
  reservations and orders linked and never fails its own assertions. The paper broker's books are those of
  its fills; approved plans stay within the limits the risk engine checks; every claim of the evidence plane
  cites its document; a cycle stages only vetted, reviewed plans. A protocol's budget bounds its trials, a
  trial has one life, and a promotion needs every gate. As-of queries never look ahead, and a backtest
  accounts for its cash.

  \<^bold>\<open>Bounds.\<close> No definition uses fuel: every loop of the modelled code runs over a finite
  list and is a structural recursion or a fold, or a recursion with a proved measure
  (\<open>sort_keys\<close>, \<open>quote_starts\<close>), so totality is by construction. Integers are
  unbounded as in Python. \<open>Decimal\<close> and \<open>float\<close> are exact (\<open>rat\<close>):
  rounding to the 28-digit context or to binary doubles is not modelled.

  \<^bold>\<open>Not modelled.\<close> Schema migrations (fresh databases are assumed), SQLite itself,
  logging and file paths; the command line, HTTP and operations surfaces, which are I/O; the IBKR adapter
  and observer, driven by the callbacks of a vendor library outside the repository; network data providers
  and language-model adapters, which stand behind function parameters; statistics and metrics over numpy
  floats (those of the backtest included); reports that qualify data sources; release and fixture scripts.
\<close>

section \<open>Properties that span components\<close>

subsection \<open>Store and broker agree\<close>

text \<open>C1: run the store, the fake broker, the worker's dispatches and the delivery of broker events in
  any order from a fresh system, where nothing by-passes the worker: orders reach the broker by a dispatch (no
  direct submission and no order injected at the broker only) and the store ingests the events the broker
  emitted, in any order and any number of times. Delivering the broker's events then succeeds, and afterwards
  the positions and the cash the store derives from its log are exactly the broker's. An order injected at the
  broker is excluded because its fills stay orphans in the store; finding it is the reconciliation's task.\<close>

theorem store_converges_to_broker:
  assumes "inj H" and "list_all world_op_ok ops"
  shows "let w = run_world H ops (empty_store, new_broker start); d = fst (deliver_all H w) in
    is_ok (fst (ingest_all H (fb_events (snd w)) (fst w)))
    \<and> store_units d k = held (snd w) k \<and> cash_delta d = fb_cash (snd w) - start"
proof -
  obtain d b where w: "run_world H ops (empty_store, new_broker start) = (d, b)" by fastforce
  have "world_inv H start (d, b)" using run_world_inv [OF assms, of start] w by simp
  then show ?thesis using deliver_all_agree [OF _ assms(1), of start d b k] w by (simp add: Let_def)
qed

theorem store_converges_to_broker_witness:
  "let w = run_world unary_digest
          (map W_store sample_ops @ [W_dispatch sample_lease 30, W_broker (Bo_fill ''k1'' 4 100 40), W_deliver 1])
          (empty_store, new_broker 100000);
       d = fst (deliver_all unary_digest w)
   in store_units d ''AAPL'' = held (snd w) ''AAPL'' \<and> cash_delta d = fb_cash (snd w) - 100000"
  using store_converges_to_broker [OF inj_unary_digest, of
      "map W_store sample_ops @ [W_dispatch sample_lease 30, W_broker (Bo_fill ''k1'' 4 100 40), W_deliver 1]"
      100000 "''AAPL''"]
  by (simp add: sample_ops_def sample_docs reservation_amounts_ok_def intent_amounts_ok_def Let_def)

end
